(* ===== verification/Prelude.thy ===== *)
theory Prelude
  imports Main "HOL-Library.AList" "HOL-Library.Multiset" "HOL-Library.Sublist"
begin

text \<open>
  Shared vocabulary of the development: byte strings (a Go string or \<^verbatim>\<open>[]byte\<close> is a list of
  8-bit characters), the numeric reading of a byte, results as sums, a sort that is parameterised
  by the comparison the code passes to \<^verbatim>\<open>sort.Slice\<close>, and the two interface locales that
  several components implement: a strict order used for sorting keys, and a codec (an encoder
  with its decoder).
\<close>

type_synonym bytes = string

abbreviation code :: "char \<Rightarrow> nat" where
  "code c \<equiv> of_char c"

lemma code_char_of: "n < 256 \<Longrightarrow> code (char_of n) = n"
  by simp

lemma char_of_conv: "n < 256 \<Longrightarrow> char_of n = c \<longleftrightarrow> n = code c"
  by (metis char_of_char code_char_of)

lemma conv_char_of: "n < 256 \<Longrightarrow> c = char_of n \<longleftrightarrow> code c = n"
  using char_of_conv [of n c] by auto

lemma takeWhile_all: "list_all P xs \<Longrightarrow> takeWhile P xs = xs \<and> dropWhile P xs = []"
  by (induction xs) auto

lemma code_bound: "code c \<le> 255"
  using nat_of_char_less_256 [of c] by linarith

subsection \<open>Sums as results\<close>

text \<open>A fallible operation returns \<open>'e + 'a\<close>: \<open>Inl\<close> is Go's non-nil error.\<close>

primrec is_ok :: "'e + 'a \<Rightarrow> bool" where
  "is_ok (Inl e) = False"
| "is_ok (Inr a) = True"

lemma is_ok_iff: "is_ok r \<longleftrightarrow> (\<exists>a. r = Inr a)"
  by (cases r) auto

text \<open>Run a list of fallible results in order; the first error is the result.\<close>

fun sequence :: "('e + 'a) list \<Rightarrow> 'e + 'a list" where
  "sequence [] = Inr []"
| "sequence (Inl e # rs) = Inl e"
| "sequence (Inr a # rs) = map_sum (\<lambda>e. e) ((#) a) (sequence rs)"

text \<open>\<^verbatim>\<open>if err := f(); err != nil { return err }\<close> followed by the rest.\<close>

primrec andthen :: "'e + 'a \<Rightarrow> ('a \<Rightarrow> 'e + 'b) \<Rightarrow> 'e + 'b" where
  "andthen (Inl e) k = Inl e"
| "andthen (Inr a) k = k a"

definition check :: "bool \<Rightarrow> 'e \<Rightarrow> 'e + unit" where
  "check b e = (if b then Inr () else Inl e)"

lemma andthen_Inr: "andthen r k = Inr b \<longleftrightarrow> (\<exists>a. r = Inr a \<and> k a = Inr b)"
  by (cases r) auto

lemma check_Inr [simp]: "check b e = Inr u \<longleftrightarrow> b"
  by (simp add: check_def)

lemma check_True [simp]: "check True e = Inr ()"
  by (simp add: check_def)

lemma andthen_Inl: "andthen r k = Inl e \<longleftrightarrow> r = Inl e \<or> (\<exists>a. r = Inr a \<and> k a = Inl e)"
  by (cases r) auto

lemma map_sum_Inr: "map_sum f g r = Inr b \<longleftrightarrow> (\<exists>a. r = Inr a \<and> b = g a)"
  by (cases r) auto

lemma sequence_Inr: "sequence rs = Inr xs \<longleftrightarrow> rs = map Inr xs"
proof (induction rs arbitrary: xs)
  case Nil
  then show ?case by auto
next
  case (Cons r rs)
  then show ?case by (cases r; cases xs) (auto simp: map_sum_Inr)
qed

lemma sequence_map_Inr [simp]: "sequence (map (\<lambda>x. Inr (f x)) xs) = Inr (map f xs)"
  by (simp add: sequence_Inr)

lemma sequence_ok: "(\<exists>xs. sequence rs = Inr xs) \<longleftrightarrow> (\<forall>r \<in> set rs. is_ok r)"
proof (induction rs)
  case (Cons r rs)
  then show ?case by (cases r) (auto simp: map_sum_Inr)
qed simp

subsection \<open>Sorting with a passed comparison\<close>

text \<open>
  \<^verbatim>\<open>sort.Slice\<close> and \<^verbatim>\<open>slices.Sort\<close> are modelled by insertion with the comparison as an
  argument. The orders the code sorts by are strict and total on the keys it sorts, so every
  correct sorting algorithm returns the same list (lemma \<open>isort_unique\<close> below).
\<close>

fun insert_by :: "('a \<Rightarrow> 'a \<Rightarrow> bool) \<Rightarrow> 'a \<Rightarrow> 'a list \<Rightarrow> 'a list" where
  "insert_by lt x [] = [x]"
| "insert_by lt x (y # ys) = (if lt y x then y # insert_by lt x ys else x # y # ys)"

fun isort :: "('a \<Rightarrow> 'a \<Rightarrow> bool) \<Rightarrow> 'a list \<Rightarrow> 'a list" where
  "isort lt [] = []"
| "isort lt (x # xs) = insert_by lt x (isort lt xs)"

definition by_key :: "('k \<Rightarrow> 'k \<Rightarrow> bool) \<Rightarrow> 'k \<times> 'v \<Rightarrow> 'k \<times> 'w \<Rightarrow> bool" where
  "by_key lt p q = lt (fst p) (fst q)"

lemma by_key_pair [simp]: "by_key lt (k, v) (k', v') = lt k k'"
  by (simp add: by_key_def)

lemma mset_insert_by [simp]: "mset (insert_by lt x xs) = add_mset x (mset xs)"
  by (induction xs) auto

lemma mset_isort [simp]: "mset (isort lt xs) = mset xs"
  by (induction xs) auto

lemma set_isort [simp]: "set (isort lt xs) = set xs"
  by (metis mset_isort set_mset_mset)

lemma length_isort [simp]: "length (isort lt xs) = length xs"
  by (metis mset_isort size_mset)

lemma map_insert_by_key:
  assumes "\<And>p. fst (f p) = fst p"
  shows "map f (insert_by (by_key lt) p ps) = insert_by (by_key lt) (f p) (map f ps)"
  using assms by (induction ps) (auto simp: by_key_def)

lemma map_isort_key:
  assumes "\<And>p. fst (f p) = fst p"
  shows "map f (isort (by_key lt) ps) = isort (by_key lt) (map f ps)"
  using assms by (induction ps) (auto simp: map_insert_by_key)

lemma map_fst_insert_by: "map fst (insert_by (by_key lt) p ps) = insert_by lt (fst p) (map fst ps)"
  by (induction ps) (auto simp: by_key_def)

lemma map_fst_isort: "map fst (isort (by_key lt) ps) = isort lt (map fst ps)"
  by (induction ps) (auto simp: map_fst_insert_by)

lemma same_keys_eq:
  assumes "map fst xs = map fst ys" "set xs = set ys" "distinct (map fst xs)"
  shows "xs = ys"
proof -
  have "inj_on fst (set xs \<union> set ys)" using assms(2,3) by (simp add: distinct_map)
  with assms(1) show ?thesis by (simp add: inj_on_map_eq_map)
qed

subsection \<open>The interface of a sorting order\<close>

text \<open>
  \<open>ok\<close> marks the keys the order is meant for (valid UTF-8 strings for the UTF-16 order of
  RFC 8785, all strings for byte order).
\<close>

locale key_order =
  fixes lt :: "'k \<Rightarrow> 'k \<Rightarrow> bool" and ok :: "'k \<Rightarrow> bool"
  assumes irrefl: "\<not> lt a a"
    and trans: "lt a b \<Longrightarrow> lt b c \<Longrightarrow> lt a c"
    and total: "ok a \<Longrightarrow> ok b \<Longrightarrow> a \<noteq> b \<Longrightarrow> lt a b \<or> lt b a"
begin

lemma insert_sorted:
  assumes "sorted_wrt lt ys" "\<forall>y \<in> set (x # ys). ok y" "x \<notin> set ys"
  shows "sorted_wrt lt (insert_by lt x ys)"
  using assms
proof (induction ys)
  case Nil
  then show ?case by simp
next
  case (Cons y ys)
  have set_eq: "set (insert_by lt x ys) = insert x (set ys)"
    using mset_insert_by [of lt x ys] by (metis set_mset_add_mset_insert set_mset_mset)
  from Cons.prems total [of x y] have "lt y x \<or> lt x y" by auto
  with Cons show ?case by (auto simp: set_eq intro: trans)
qed

lemma isort_sorted: "distinct xs \<Longrightarrow> \<forall>x \<in> set xs. ok x \<Longrightarrow> sorted_wrt lt (isort lt xs)"
  by (induction xs) (auto intro!: insert_sorted)

lemma sorted_hd_unique:
  assumes "sorted_wrt lt (x # xs)" "sorted_wrt lt (y # ys)" "set (x # xs) = set (y # ys)"
  shows "x = y"
proof (rule ccontr)
  assume "x \<noteq> y"
  with assms(3) have "x \<in> set ys" "y \<in> set xs" by auto
  with assms(1,2) have "lt y x" "lt x y" by auto
  then show False using irrefl trans by blast
qed

lemma sorted_unique:
  "sorted_wrt lt xs \<Longrightarrow> sorted_wrt lt ys \<Longrightarrow> set xs = set ys \<Longrightarrow> xs = ys"
proof (induction xs arbitrary: ys)
  case Nil
  then show ?case by simp
next
  case (Cons x xs)
  from Cons.prems(3) obtain y ys' where ys: "ys = y # ys'" by (cases ys) auto
  with Cons.prems sorted_hd_unique have eq: "x = y" by metis
  from Cons.prems ys have "x \<notin> set xs" "y \<notin> set ys'" using irrefl by auto
  with Cons.prems(3) ys eq have "set xs = set ys'" by auto
  with Cons ys eq show ?case by auto
qed

lemma isort_unique:
  assumes "distinct xs" "\<forall>x \<in> set xs. ok x" "set xs = set ys" "distinct ys"
  shows "isort lt xs = isort lt ys"
proof -
  from assms have "sorted_wrt lt (isort lt xs)" "sorted_wrt lt (isort lt ys)"
    by (auto intro!: isort_sorted)
  with assms(3) show ?thesis by (intro sorted_unique) auto
qed

lemma insert_by_hd: "sorted_wrt lt (x # xs) \<Longrightarrow> insert_by lt x xs = x # xs"
  using irrefl trans by (cases xs) auto

lemma isort_id: "sorted_wrt lt xs \<Longrightarrow> isort lt xs = xs"
  by (induction xs) (auto simp: insert_by_hd)

lemma sorted_distinct: "sorted_wrt lt xs \<Longrightarrow> distinct xs"
  using irrefl by (induction xs) auto

lemma insert_by_key_hd:
  "sorted_wrt lt (map fst (p # ps)) \<Longrightarrow> insert_by (by_key lt) p ps = p # ps"
  using irrefl trans by (cases ps) (auto simp: by_key_def)

lemma isort_key_id: "sorted_wrt lt (map fst ps) \<Longrightarrow> isort (by_key lt) ps = ps"
  by (induction ps) (auto simp: insert_by_key_hd)

lemma isort_key_sorted:
  "distinct (map fst ps) \<Longrightarrow> \<forall>k \<in> fst ` set ps. ok k \<Longrightarrow>
    sorted_wrt lt (map fst (isort (by_key lt) ps))"
  by (simp add: map_fst_isort isort_sorted)

lemma isort_key_cong:
  assumes "distinct (map fst ps)" "\<forall>k \<in> fst ` set ps. ok k" "distinct (map fst qs)" "set ps = set qs"
  shows "isort (by_key lt) ps = isort (by_key lt) qs"
proof -
  have "map fst (isort (by_key lt) ps) = map fst (isort (by_key lt) qs)"
    using assms by (intro sorted_unique isort_key_sorted) auto
  moreover have "distinct (map fst (isort (by_key lt) ps))"
    using assms(1) by (metis mset_isort mset_map mset_eq_imp_distinct_iff)
  ultimately show ?thesis using assms(4) by (intro same_keys_eq) auto
qed

end

subsection \<open>The interface of a codec\<close>

text \<open>
  An encoder with a decoder that takes it back on the values it is used for. The one lemma every
  user needs is that the encoding is unambiguous.
\<close>

locale codec =
  fixes enc :: "'v \<Rightarrow> bytes" and dec :: "bytes \<Rightarrow> 'v option" and good :: "'v \<Rightarrow> bool"
  assumes dec_enc: "good v \<Longrightarrow> dec (enc v) = Some v"
begin

lemma enc_inject: "good v \<Longrightarrow> good w \<Longrightarrow> enc v = enc w \<Longrightarrow> v = w"
  using dec_enc by (metis option.inject)

lemma enc_inj_on: "inj_on enc {v. good v}"
  using enc_inject by (auto simp: inj_on_def)

end

end
