(* ===== verification/Utf8.thy ===== *)
theory Utf8
  imports Prelude
begin

text \<open>
  What the program uses of Go's \<^verbatim>\<open>unicode/utf8\<close> and \<^verbatim>\<open>unicode/utf16\<close>: decoding one rune
  (\<^verbatim>\<open>utf8.DecodeRune\<close>, also the \<^verbatim>\<open>range\<close> loop over a string), encoding one
  (\<^verbatim>\<open>utf8.EncodeRune\<close>), \<^verbatim>\<open>utf8.ValidString\<close>, \<^verbatim>\<open>utf8.RuneStart\<close> and
  \<^verbatim>\<open>utf16.Encode\<close>. A rune is a natural number. The main fact is that valid strings are exactly
  the encodings of lists of Unicode scalar values, so proofs about valid strings are inductions
  over rune lists.
\<close>

definition rune_error :: nat where
  "rune_error = 0xFFFD"

definition lo_cont :: "nat \<Rightarrow> nat" where
  "lo_cont b0 = (if b0 = 0xE0 then 0xA0 else if b0 = 0xF0 then 0x90 else 0x80)"

definition hi_cont :: "nat \<Rightarrow> nat" where
  "hi_cont b0 = (if b0 = 0xED then 0x9F else if b0 = 0xF4 then 0x8F else 0xBF)"

text \<open>The rune at the start of a byte string and its width; \<open>(rune_error, 1)\<close> on a bad byte.\<close>

definition decode_rune :: "bytes \<Rightarrow> nat \<times> nat" where
  "decode_rune s = (case s of [] \<Rightarrow> (rune_error, 0) | c0 # t \<Rightarrow>
     let b0 = code c0; bad = (rune_error, 1) in
     if b0 < 0x80 then (b0, 1)
     else if b0 < 0xC2 \<or> 0xF4 < b0 then bad
     else (case t of [] \<Rightarrow> bad | c1 # t1 \<Rightarrow>
       let b1 = code c1 in
       if b1 < lo_cont b0 \<or> hi_cont b0 < b1 then bad
       else if b0 < 0xE0 then ((b0 mod 32) * 64 + b1 mod 64, 2)
       else (case t1 of [] \<Rightarrow> bad | c2 # t2 \<Rightarrow>
         let b2 = code c2 in
         if b2 < 0x80 \<or> 0xBF < b2 then bad
         else if b0 < 0xF0 then ((b0 mod 16) * 4096 + (b1 mod 64) * 64 + b2 mod 64, 3)
         else (case t2 of [] \<Rightarrow> bad | c3 # t3 \<Rightarrow>
           let b3 = code c3 in
           if b3 < 0x80 \<or> 0xBF < b3 then bad
           else ((b0 mod 8) * 262144 + (b1 mod 64) * 4096 + (b2 mod 64) * 64 + b3 mod 64, 4)))))"

definition scalar :: "nat \<Rightarrow> bool" where
  "scalar r \<longleftrightarrow> r < 0xD800 \<or> 0xE000 \<le> r \<and> r \<le> 0x10FFFF"

definition encode_scalar :: "nat \<Rightarrow> bytes" where
  "encode_scalar r =
     (if r < 0x80 then [char_of r]
      else if r < 0x800 then [char_of (0xC0 + r div 64), char_of (0x80 + r mod 64)]
      else if r < 0x10000 then
        [char_of (0xE0 + r div 4096), char_of (0x80 + r div 64 mod 64), char_of (0x80 + r mod 64)]
      else [char_of (0xF0 + r div 262144), char_of (0x80 + r div 4096 mod 64),
            char_of (0x80 + r div 64 mod 64), char_of (0x80 + r mod 64)])"

text \<open>\<^verbatim>\<open>utf8.EncodeRune\<close> writes the replacement rune for anything that is not a scalar value.\<close>

definition encode_rune :: "nat \<Rightarrow> bytes" where
  "encode_rune r = encode_scalar (if scalar r then r else rune_error)"

definition utf8_enc :: "nat list \<Rightarrow> bytes" where
  "utf8_enc rs = concat (map encode_rune rs)"

definition bad_rune :: "nat \<times> nat \<Rightarrow> bool" where
  "bad_rune p \<longleftrightarrow> p = (rune_error, 1)"

lemma decode_rune_width: "s \<noteq> [] \<Longrightarrow> 1 \<le> snd (decode_rune s)"
  by (cases s) (auto simp: decode_rune_def Let_def split: list.splits)

lemma decode_rune_width_le: "snd (decode_rune s) \<le> length s"
  by (auto simp: decode_rune_def Let_def split: list.splits)

lemma drop_rune_shorter:
  assumes "s \<noteq> []"
  shows "length s - snd (decode_rune s) < length s"
proof -
  from assms have "0 < length s" by simp
  with decode_rune_width [OF assms] show ?thesis by linarith
qed

lemma drop_rune_shorter_Cons: "Suc (length t) - snd (decode_rune (c # t)) < Suc (length t)"
  using drop_rune_shorter [of "c # t"] by simp

function runes :: "bytes \<Rightarrow> nat list" where
  "runes s = (if s = [] then [] else fst (decode_rune s) # runes (drop (snd (decode_rune s)) s))"
  by pat_completeness auto
termination
  by (relation "measure length") (auto intro: drop_rune_shorter)

function valid_string :: "bytes \<Rightarrow> bool" where
  "valid_string s = (if s = [] then True
     else \<not> bad_rune (decode_rune s) \<and> valid_string (drop (snd (decode_rune s)) s))"
  by pat_completeness auto
termination
  by (relation "measure length") (auto intro: drop_rune_shorter)

declare runes.simps [simp del] valid_string.simps [simp del]

definition rune_start :: "char \<Rightarrow> bool" where
  "rune_start c \<longleftrightarrow> code c div 64 \<noteq> 2"

text \<open>\<^verbatim>\<open>utf16.Encode\<close>: surrogate pairs above the basic plane.\<close>

definition utf16_units :: "nat \<Rightarrow> nat list" where
  "utf16_units r =
     (if r < 0xD800 \<or> 0xE000 \<le> r \<and> r < 0x10000 then [r]
      else if 0x10000 \<le> r \<and> r \<le> 0x10FFFF
      then [0xD800 + (r - 0x10000) div 1024, 0xDC00 + (r - 0x10000) mod 1024]
      else [rune_error])"

definition utf16_encode :: "nat list \<Rightarrow> nat list" where
  "utf16_encode rs = concat (map utf16_units rs)"

subsection \<open>Decoding inverts encoding\<close>

lemma mod_64_shift [simp]: "(128 + n) mod 64 = n mod (64 :: nat)"
  using mod_mult_self2 [of n 64 2] by (simp add: add.commute)

lemma base64_digits2: "(r :: nat) = r div 4096 * 4096 + r div 64 mod 64 * 64 + r mod 64"
proof -
  have "r div 64 = r div 4096 * 64 + r div 64 mod 64"
    using div_mult_mod_eq [of "r div 64" 64] by (simp add: div_mult2_eq [symmetric])
  then show ?thesis using div_mult_mod_eq [of r 64] by linarith
qed

lemma base64_digits3:
  "(r :: nat) = r div 262144 * 262144 + r div 4096 mod 64 * 4096 + r div 64 mod 64 * 64 + r mod 64"
proof -
  have "r div 4096 = r div 262144 * 64 + r div 4096 mod 64"
    using div_mult_mod_eq [of "r div 4096" 64] by (simp add: div_mult2_eq [symmetric])
  then show ?thesis using base64_digits2 [of r] by linarith
qed

lemma mod_shift_small: "x < m \<Longrightarrow> (k * m + x) mod m = (x :: nat)"
  by simp

lemma decode_encode_2:
  assumes "0x80 \<le> r" "r < 0x800"
  shows "decode_rune (encode_scalar r @ t) = (r, length (encode_scalar r))"
proof -
  define x where "x = r div 64"
  have x: "2 \<le> x" "x < 32" using assms by (auto simp: x_def)
  have m: "(192 + x) mod 32 = x" using mod_shift_small [of x 32 6] x by simp
  have "r = x * 64 + r mod 64" by (simp add: x_def)
  with assms x m show ?thesis
    by (simp add: encode_scalar_def decode_rune_def Let_def lo_cont_def hi_cont_def
        x_def [symmetric])
qed

lemma decode_encode_3:
  assumes "scalar r" "0x800 \<le> r" "r < 0x10000"
  shows "decode_rune (encode_scalar r @ t) = (r, length (encode_scalar r))"
proof -
  define x where "x = r div 4096"
  define y where "y = r div 64 mod 64"
  define z where "z = r mod 64"
  have xyz: "x < 16" "y < 64" "z < 64" using assms by (auto simp: x_def y_def z_def)
  have eq: "r = x * 4096 + y * 64 + z" unfolding x_def y_def z_def by (rule base64_digits2)
  have lo: "x = 0 \<Longrightarrow> 32 \<le> y" using assms eq xyz by linarith
  have hi: "x = 13 \<Longrightarrow> y < 32" using assms eq xyz unfolding scalar_def by linarith
  have m: "(224 + x) mod 16 = x" using mod_shift_small [of x 16 14] xyz by simp
  have enc: "encode_scalar r = [char_of (224 + x), char_of (128 + y), char_of (128 + z)]"
    using assms by (simp add: encode_scalar_def x_def y_def z_def)
  have "decode_rune (encode_scalar r @ t) = (x * 4096 + y * 64 + z, 3)"
    using xyz lo hi m unfolding enc
    by (auto simp: decode_rune_def Let_def lo_cont_def hi_cont_def)
  with eq enc show ?thesis by simp
qed

lemma decode_encode_4:
  assumes "scalar r" "0x10000 \<le> r"
  shows "decode_rune (encode_scalar r @ t) = (r, length (encode_scalar r))"
proof -
  define w where "w = r div 262144"
  define x where "x = r div 4096 mod 64"
  define y where "y = r div 64 mod 64"
  define z where "z = r mod 64"
  have wxyz: "w < 5" "x < 64" "y < 64" "z < 64"
    using assms by (auto simp: w_def x_def y_def z_def scalar_def)
  have eq: "r = w * 262144 + x * 4096 + y * 64 + z"
    unfolding w_def x_def y_def z_def by (rule base64_digits3)
  have lo: "w = 0 \<Longrightarrow> 16 \<le> x" using assms eq wxyz by linarith
  have hi: "w = 4 \<Longrightarrow> x < 16" using assms eq wxyz unfolding scalar_def by linarith
  have m: "(240 + w) mod 8 = w" using mod_shift_small [of w 8 30] wxyz by simp
  have enc: "encode_scalar r =
      [char_of (240 + w), char_of (128 + x), char_of (128 + y), char_of (128 + z)]"
    using assms by (simp add: encode_scalar_def w_def x_def y_def z_def)
  have "decode_rune (encode_scalar r @ t) = (w * 262144 + x * 4096 + y * 64 + z, 4)"
    using wxyz lo hi m unfolding enc
    by (auto simp: decode_rune_def Let_def lo_cont_def hi_cont_def)
  with eq enc show ?thesis by simp
qed

lemma decode_encode_scalar:
  assumes "scalar r"
  shows "decode_rune (encode_scalar r @ t) = (r, length (encode_scalar r))"
proof -
  consider "r < 0x80" | "0x80 \<le> r" "r < 0x800" | "0x800 \<le> r" "r < 0x10000" | "0x10000 \<le> r"
    by linarith
  then show ?thesis
  proof cases
    case 1
    then show ?thesis by (simp add: encode_scalar_def decode_rune_def)
  qed (use assms decode_encode_2 decode_encode_3 decode_encode_4 in auto)
qed

lemma encode_rune_scalar: "scalar r \<Longrightarrow> encode_rune r = encode_scalar r"
  by (simp add: encode_rune_def)

lemma encode_scalar_nonempty [simp]: "encode_scalar r \<noteq> []"
  by (simp add: encode_scalar_def)

lemma encode_rune_nonempty [simp]: "encode_rune r \<noteq> []"
  by (simp add: encode_rune_def)

lemma scalar_not_bad: "scalar r \<Longrightarrow> \<not> bad_rune (r, length (encode_scalar r))"
  by (auto simp: bad_rune_def encode_scalar_def rune_error_def)

lemma decode_encode_rune: "scalar r \<Longrightarrow> decode_rune (encode_rune r @ t) = (r, length (encode_rune r))"
  by (simp add: encode_rune_scalar decode_encode_scalar)

subsection \<open>Encoding inverts decoding of valid bytes\<close>

lemma nat_split: "k * m \<le> b \<Longrightarrow> b < Suc k * m \<Longrightarrow> b = k * m + b mod (m :: nat)"
  using div_mult_mod_eq [of b m] by (metis div_nat_eqI mult.commute)

lemma cont_byte:
  assumes "lo_cont b0 \<le> b" "b \<le> hi_cont b0"
  shows "0x80 \<le> b \<and> b \<le> 0xBF"
  using assms by (auto simp: lo_cont_def hi_cont_def split: if_splits)

lemma cont_split: "0x80 \<le> b \<Longrightarrow> b \<le> 0xBF \<Longrightarrow> b = 0x80 + b mod (64 :: nat)"
  using nat_split [of 2 64 b] by simp

lemma cont_code: "0x80 \<le> code c \<Longrightarrow> code c \<le> 0xBF \<Longrightarrow> char_of (0x80 + code c mod 64) = c"
  using cont_split [of "code c"] by (simp add: char_of_conv)

lemma digits_3:
  assumes "y < 64" "z < (64 :: nat)" "r = x * 4096 + y * 64 + z"
  shows "r div 4096 = x" "r div 64 mod 64 = y" "r mod 64 = z"
proof -
  have r: "r = (x * 64 + y) * 64 + z" using assms(3) by simp
  have d: "r div 64 = x * 64 + y" using assms(2) unfolding r by simp
  have m: "r mod 64 = z" unfolding r by (metis add.commute assms(2) mod_less mod_mult_self1)
  have "r div 4096 = r div 64 div 64" by (simp add: div_mult2_eq [symmetric])
  with d m assms(1) show "r div 4096 = x" "r div 64 mod 64 = y" "r mod 64 = z" by simp_all
qed

lemma digits_4:
  assumes "x < 64" "y < 64" "z < (64 :: nat)" "r = w * 262144 + x * 4096 + y * 64 + z"
  shows "r div 262144 = w" "r div 4096 mod 64 = x" "r div 64 mod 64 = y" "r mod 64 = z"
proof -
  have r: "r = (w * 64 + x) * 4096 + y * 64 + z" using assms(4) by simp
  note d = digits_3 [OF assms(2,3) r]
  have "r div 262144 = r div 4096 div 64" by (simp add: div_mult2_eq [symmetric])
  with d assms(1) show "r div 262144 = w" "r div 4096 mod 64 = x" "r div 64 mod 64 = y"
    "r mod 64 = z" by simp_all
qed

lemma encode_of_bytes_2:
  assumes "0xC2 \<le> code c0" "code c0 < 0xE0" "0x80 \<le> code c1" "code c1 \<le> 0xBF"
    and r: "r = (code c0 mod 32) * 64 + code c1 mod 64"
  shows "scalar r \<and> encode_scalar r = [c0, c1]"
proof -
  define x where "x = code c0 mod 32"
  define y where "y = code c1 mod 64"
  have x: "code c0 = 192 + x" using nat_split [of 6 32 "code c0"] assms by (simp add: x_def)
  have b: "2 \<le> x" "x < 32" "y < 64" using assms x by (auto simp: y_def)
  have r: "r = x * 64 + y" using r by (simp add: x_def y_def)
  then have q: "r div 64 = x" "r mod 64 = y" "0x80 \<le> r" "r < 0x800" using b by auto
  have "char_of (192 + x) = c0" using x by (metis char_of_char)
  moreover have "char_of (128 + y) = c1" unfolding y_def using assms by (intro cont_code) auto
  ultimately show ?thesis using q by (auto simp: scalar_def encode_scalar_def)
qed

lemma encode_of_bytes_3:
  assumes "0xE0 \<le> code c0" "code c0 < 0xF0"
    and c1: "lo_cont (code c0) \<le> code c1" "code c1 \<le> hi_cont (code c0)"
    and c2: "0x80 \<le> code c2" "code c2 \<le> 0xBF"
    and r: "r = (code c0 mod 16) * 4096 + (code c1 mod 64) * 64 + code c2 mod 64"
  shows "scalar r \<and> encode_scalar r = [c0, c1, c2]"
proof -
  define x where "x = code c0 mod 16"
  define y where "y = code c1 mod 64"
  define z where "z = code c2 mod 64"
  have c1': "0x80 \<le> code c1" "code c1 \<le> 0xBF" using cont_byte [OF c1] by auto
  have x: "code c0 = 224 + x" using nat_split [of 14 16 "code c0"] assms by (simp add: x_def)
  have y: "code c1 = 128 + y" unfolding y_def using c1' by (rule cont_split)
  have b: "x < 16" "y < 64" "z < 64" by (simp_all add: x_def y_def z_def)
  have r: "r = x * 4096 + y * 64 + z" using r by (simp add: x_def y_def z_def)
  have lo: "x = 0 \<Longrightarrow> 32 \<le> y" using c1(1) x y by (simp add: lo_cont_def)
  have hi: "x = 13 \<Longrightarrow> y < 32" using c1(2) x y by (simp add: hi_cont_def)
  have q: "r div 4096 = x" "r div 64 mod 64 = y" "r mod 64 = z"
    using digits_3 [OF b(2,3) r] .
  have "x < 13 \<or> x = 13 \<or> 13 < x" by linarith
  then have "r < 0xD800 \<or> 0xE000 \<le> r" using r b hi by (elim disjE) linarith+
  moreover have "0x800 \<le> r" using r b lo by (cases "x = 0") linarith+
  moreover have "r < 0x10000" using r b by linarith
  ultimately have rng: "0x800 \<le> r" "r < 0x10000" "scalar r" unfolding scalar_def by linarith+
  have "char_of (224 + x) = c0" using x by (metis char_of_char)
  moreover have "char_of (128 + y) = c1" unfolding y_def using c1' by (rule cont_code)
  moreover have "char_of (128 + z) = c2" unfolding z_def using c2 by (rule cont_code)
  ultimately show ?thesis using q rng by (auto simp: encode_scalar_def)
qed

lemma encode_of_bytes_4:
  assumes "0xF0 \<le> code c0" "code c0 \<le> 0xF4"
    and c1: "lo_cont (code c0) \<le> code c1" "code c1 \<le> hi_cont (code c0)"
    and c2: "0x80 \<le> code c2" "code c2 \<le> 0xBF" and c3: "0x80 \<le> code c3" "code c3 \<le> 0xBF"
    and r: "r = (code c0 mod 8) * 262144 + (code c1 mod 64) * 4096 + (code c2 mod 64) * 64
      + code c3 mod 64"
  shows "scalar r \<and> encode_scalar r = [c0, c1, c2, c3]"
proof -
  define w where "w = code c0 mod 8"
  define x where "x = code c1 mod 64"
  define y where "y = code c2 mod 64"
  define z where "z = code c3 mod 64"
  have c1': "0x80 \<le> code c1" "code c1 \<le> 0xBF" using cont_byte [OF c1] by auto
  have w: "code c0 = 240 + w" using nat_split [of 30 8 "code c0"] assms by (simp add: w_def)
  have x: "code c1 = 128 + x" unfolding x_def using c1' by (rule cont_split)
  have b: "w < 5" "x < 64" "y < 64" "z < 64" using assms w by (simp_all add: x_def y_def z_def)
  have r: "r = w * 262144 + x * 4096 + y * 64 + z" using r by (simp add: w_def x_def y_def z_def)
  have lo: "w = 0 \<Longrightarrow> 16 \<le> x" using c1(1) w x by (simp add: lo_cont_def)
  have hi: "w = 4 \<Longrightarrow> x < 16" using c1(2) w x by (simp add: hi_cont_def)
  have q: "r div 262144 = w" "r div 4096 mod 64 = x" "r div 64 mod 64 = y" "r mod 64 = z"
    using digits_4 [OF b(2,3,4) r] .
  have "w = 4 \<or> w \<le> 3" using b(1) by linarith
  then have "r \<le> 0x10FFFF" using r b hi by (elim disjE) linarith+
  moreover have "0x10000 \<le> r" using r b lo by (cases "w = 0") linarith+
  ultimately have rng: "0x10000 \<le> r" "scalar r" unfolding scalar_def by linarith+
  have "char_of (240 + w) = c0" using w by (metis char_of_char)
  moreover have "char_of (128 + x) = c1" unfolding x_def using c1' by (rule cont_code)
  moreover have "char_of (128 + y) = c2" unfolding y_def using c2 by (rule cont_code)
  moreover have "char_of (128 + z) = c3" unfolding z_def using c3 by (rule cont_code)
  ultimately show ?thesis using q rng by (auto simp: encode_scalar_def)
qed

lemma encode_of_byte_1: "code c0 < 0x80 \<Longrightarrow> scalar (code c0) \<and> encode_scalar (code c0) = [c0]"
  by (simp add: scalar_def encode_scalar_def)

lemma decode_rune_inverse:
  assumes d: "decode_rune s = (r, n)" and "s \<noteq> []" "\<not> bad_rune (r, n)"
  shows "scalar r \<and> encode_scalar r = take n s"
proof -
  from assms(2) obtain c0 t where s: "s = c0 # t" by (cases s) auto
  note d = d [unfolded s decode_rune_def Let_def list.case]
  show ?thesis
  proof (cases "code c0 < 0x80")
    case True
    with d encode_of_byte_1 [OF True] show ?thesis by (auto simp: s)
  next
    case False
    with d assms(3) show ?thesis unfolding s
      using encode_of_bytes_2 [of c0 "t ! 0" r] encode_of_bytes_3 [of c0 "t ! 0" "t ! 1" r]
        encode_of_bytes_4 [of c0 "t ! 0" "t ! 1" "t ! 2" r] cont_byte [of "code c0" "code (t ! 0)"]
      by (auto simp: bad_rune_def split: if_splits list.splits)
  qed
qed

subsection \<open>Valid strings are encodings of scalar lists\<close>

lemma runes_Nil [simp]: "runes [] = []"
  by (simp add: runes.simps)

lemma valid_string_Nil [simp]: "valid_string []"
  by (simp add: valid_string.simps)

lemma utf8_enc_Nil [simp]: "utf8_enc [] = []"
  by (simp add: utf8_enc_def)

lemma utf8_enc_Cons [simp]: "utf8_enc (r # rs) = encode_rune r @ utf8_enc rs"
  by (simp add: utf8_enc_def)

lemma utf8_enc_append: "utf8_enc (rs @ rs') = utf8_enc rs @ utf8_enc rs'"
  by (induction rs) auto

lemma runes_enc_Cons:
  assumes "scalar r"
  shows "runes (encode_rune r @ t) = r # runes t"
  by (subst runes.simps) (simp add: decode_encode_rune [OF assms])

lemma valid_enc_Cons:
  assumes "scalar r"
  shows "valid_string (encode_rune r @ t) = valid_string t"
proof -
  have "\<not> bad_rune (r, length (encode_rune r))"
    using scalar_not_bad [OF assms] by (simp add: encode_rune_scalar [OF assms])
  then show ?thesis by (subst valid_string.simps) (simp add: decode_encode_rune [OF assms])
qed

lemma runes_utf8_enc: "\<forall>r \<in> set rs. scalar r \<Longrightarrow> runes (utf8_enc rs) = rs"
  by (induction rs) (auto simp: runes_enc_Cons)

lemma valid_utf8_enc: "\<forall>r \<in> set rs. scalar r \<Longrightarrow> valid_string (utf8_enc rs)"
  by (induction rs) (auto simp: valid_enc_Cons)

lemma valid_string_runes:
  "valid_string s \<Longrightarrow> (\<forall>r \<in> set (runes s). scalar r) \<and> utf8_enc (runes s) = s"
proof (induction s rule: runes.induct)
  case (1 s)
  show ?case
  proof (cases "s = []")
    case True
    then show ?thesis by simp
  next
    case False
    obtain r n where d: "decode_rune s = (r, n)" by (cases "decode_rune s")
    from "1.prems" False d have v: "\<not> bad_rune (r, n)" "valid_string (drop n s)"
      by (simp_all add: valid_string.simps [of s])
    with decode_rune_inverse [OF d False] have "scalar r" "encode_rune r = take n s"
      by (simp_all add: encode_rune_scalar)
    with "1.IH" [OF False] v(2) d False show ?thesis by (simp add: runes.simps [of s])
  qed
qed

lemma valid_string_iff: "valid_string s \<longleftrightarrow> (\<exists>rs. (\<forall>r \<in> set rs. scalar r) \<and> s = utf8_enc rs)"
  using valid_string_runes [of s] valid_utf8_enc by metis

lemma valid_stringE:
  assumes "valid_string s"
  obtains rs where "\<forall>r \<in> set rs. scalar r" "s = utf8_enc rs" "runes s = rs"
  using valid_string_runes [OF assms] that [of "runes s"] by simp

lemma runes_inject: "valid_string s \<Longrightarrow> valid_string t \<Longrightarrow> runes s = runes t \<Longrightarrow> s = t"
  using valid_string_runes by metis

lemma runes_scalar: "r \<in> set (runes s) \<Longrightarrow> scalar r \<or> r = rune_error"
proof (induction s rule: runes.induct)
  case (1 s)
  show ?case
  proof (cases "s = []")
    case True
    with "1.prems" show ?thesis by simp
  next
    case False
    obtain r' n where d: "decode_rune s = (r', n)" by (cases "decode_rune s")
    with "1.prems" False have "r = r' \<or> r \<in> set (runes (drop n s))" by (simp add: runes.simps [of s])
    then show ?thesis
    proof
      assume "r = r'"
      with decode_rune_inverse [OF d False] show ?thesis by (auto simp: bad_rune_def)
    next
      assume "r \<in> set (runes (drop n s))"
      with "1.IH" [OF False] d show ?thesis by simp
    qed
  qed
qed

lemma scalar_rune_error [simp]: "scalar rune_error"
  by (simp add: scalar_def rune_error_def)

lemma runes_all_scalar: "\<forall>r \<in> set (runes s). scalar r"
  using runes_scalar scalar_rune_error by metis

lemma valid_string_append: "valid_string s \<Longrightarrow> valid_string t \<Longrightarrow> valid_string (s @ t)"
  unfolding valid_string_iff by (metis Un_iff set_append utf8_enc_append)

text \<open>Every byte of a multi-byte rune is at least \<open>0x80\<close>.\<close>

lemma encode_rune_ascii: "r < 0x80 \<Longrightarrow> encode_rune r = [char_of r]"
  by (simp add: encode_rune_def scalar_def encode_scalar_def)

lemma encode_rune_high:
  assumes "0x80 \<le> r" "scalar r" "c \<in> set (encode_rune r)"
  shows "0x80 \<le> code c"
  using assms by (auto simp: encode_rune_scalar encode_scalar_def scalar_def split: if_splits)

lemma ascii_valid: "\<forall>c \<in> set s. code c < 0x80 \<Longrightarrow> valid_string s"
proof (induction s)
  case Nil
  then show ?case by simp
next
  case (Cons c s)
  then have "encode_rune (code c) = [c]" by (simp add: encode_rune_ascii)
  moreover have "scalar (code c)" using Cons.prems by (simp add: scalar_def)
  ultimately show ?case using Cons valid_enc_Cons [of "code c" s] by simp
qed

subsection \<open>The UTF-16 order of RFC 8785\<close>

fun lex_less :: "nat list \<Rightarrow> nat list \<Rightarrow> bool" where
  "lex_less ua [] = False"
| "lex_less [] (y # ub) = True"
| "lex_less (x # ua) (y # ub) = (if x \<noteq> y then x < y else lex_less ua ub)"

definition less_utf16 :: "bytes \<Rightarrow> bytes \<Rightarrow> bool" where
  "less_utf16 a b = lex_less (utf16_encode (runes a)) (utf16_encode (runes b))"

lemma lex_less_irrefl [simp]: "\<not> lex_less xs xs"
  by (induction xs) auto

lemma lex_less_trans: "lex_less xs ys \<Longrightarrow> lex_less ys zs \<Longrightarrow> lex_less xs zs"
proof (induction xs ys arbitrary: zs rule: lex_less.induct)
  case (2 y ub)
  then show ?case by (cases zs) auto
next
  case (3 x ua y ub)
  then show ?case by (cases zs) (auto split: if_splits)
qed auto

lemma lex_less_total: "xs \<noteq> ys \<Longrightarrow> lex_less xs ys \<or> lex_less ys xs"
  by (induction xs ys rule: lex_less.induct) (auto simp: neq_Nil_conv)

lemma utf16_units_prefix:
  assumes "scalar r" "scalar r'" "utf16_units r @ us = utf16_units r' @ us'"
  shows "r = r' \<and> us = us'"
proof (cases "r < 0x10000 \<or> r' < 0x10000")
  case True
  have hi: "(x :: nat) \<le> 0x10FFFF \<Longrightarrow> (x - 0x10000) div 1024 < 1024" for x by simp
  from True assms hi [of r] hi [of r'] show ?thesis
    by (auto simp: utf16_units_def scalar_def split: if_splits)
next
  case False
  define a b where "a = r - 0x10000" and "b = r' - 0x10000"
  from False assms have "a div 1024 = b div 1024" "a mod 1024 = b mod 1024" "us = us'"
    by (auto simp: utf16_units_def scalar_def a_def b_def split: if_splits)
  moreover from this have "a = b" by (metis div_mult_mod_eq)
  ultimately show ?thesis using False by (auto simp: a_def b_def)
qed

lemma utf16_units_nonempty [simp]: "utf16_units r \<noteq> []"
  by (simp add: utf16_units_def)

lemma utf16_encode_inject:
  "\<forall>r \<in> set rs. scalar r \<Longrightarrow> \<forall>r \<in> set rs'. scalar r \<Longrightarrow> utf16_encode rs = utf16_encode rs' \<Longrightarrow> rs = rs'"
proof (induction rs arbitrary: rs')
  case Nil
  from Nil.prems(3) show ?case by (cases rs') (simp_all add: utf16_encode_def)
next
  case (Cons r rs)
  from Cons.prems(3) obtain r' rs'' where rs': "rs' = r' # rs''"
    by (cases rs') (simp_all add: utf16_encode_def)
  have "utf16_units r @ utf16_encode rs = utf16_units r' @ utf16_encode rs''"
    using Cons.prems(3) by (simp add: rs' utf16_encode_def)
  moreover have "scalar r" "scalar r'" using Cons.prems rs' by simp_all
  ultimately have eq: "r = r' \<and> utf16_encode rs = utf16_encode rs''"
    by (intro utf16_units_prefix)
  have "rs = rs''" using Cons.prems rs' eq by (intro Cons.IH) simp_all
  with eq rs' show ?case by simp
qed

lemma less_utf16_total:
  assumes "valid_string a" "valid_string b" "a \<noteq> b"
  shows "less_utf16 a b \<or> less_utf16 b a"
proof -
  from assms have "runes a \<noteq> runes b" using runes_inject by blast
  with utf16_encode_inject have "utf16_encode (runes a) \<noteq> utf16_encode (runes b)"
    using runes_all_scalar by metis
  then show ?thesis unfolding less_utf16_def by (rule lex_less_total)
qed

interpretation u16: key_order less_utf16 valid_string
  by unfold_locales (auto simp: less_utf16_def intro: lex_less_trans
      dest: less_utf16_total [unfolded less_utf16_def])

end
