(* ===== verification/GoText.thy ===== *)
theory GoText
  imports Utf8
begin

text \<open>
  What the program uses of \<^verbatim>\<open>strconv\<close>, \<^verbatim>\<open>strings\<close>, \<^verbatim>\<open>encoding/hex\<close> and
  \<^verbatim>\<open>encoding/base64\<close>: decimal integers at 64-bit width, cutting, splitting and replacing,
  lower-case hexadecimal and padded base64. The decoders follow Go's in what they accept (base64
  skips carriage returns and newlines and ignores the unused bits of the last quantum; hex takes
  both cases), not only in what the encoders produce.
\<close>

subsection \<open>Decimal integers\<close>

definition is_digit :: "char \<Rightarrow> bool" where
  "is_digit c \<longleftrightarrow> 48 \<le> code c \<and> code c \<le> 57"

definition digit_val :: "char \<Rightarrow> nat" where
  "digit_val c = code c - 48"

definition digit_char :: "nat \<Rightarrow> char" where
  "digit_char d = char_of (48 + d)"

definition digits_val :: "bytes \<Rightarrow> nat" where
  "digits_val ds = foldl (\<lambda>a c. a * 10 + digit_val c) 0 ds"

fun show_nat :: "nat \<Rightarrow> bytes" where
  "show_nat n = (if n < 10 then [digit_char n] else show_nat (n div 10) @ [digit_char (n mod 10)])"

declare show_nat.simps [simp del]

text \<open>\<^verbatim>\<open>strconv.Itoa\<close>, \<^verbatim>\<open>strconv.FormatInt(i, 10)\<close>, \<^verbatim>\<open>%d\<close>.\<close>

definition show_int :: "int \<Rightarrow> bytes" where
  "show_int i = (if i < 0 then CHR ''-'' # show_nat (nat (- i)) else show_nat (nat i))"

text \<open>\<^verbatim>\<open>strconv.ParseInt(s, 10, 64)\<close>; \<open>None\<close> is a syntax or range error.\<close>

definition parse_int64 :: "bytes \<Rightarrow> int option" where
  "parse_int64 s =
     (let (neg, ds) = (case s of [] \<Rightarrow> (False, [])
        | c # t \<Rightarrow> if c = CHR ''-'' then (True, t) else if c = CHR ''+'' then (False, t) else (False, s))
      in if ds = [] \<or> \<not> list_all is_digit ds then None
         else let n = digits_val ds in
           if neg then (if n \<le> 2 ^ 63 then Some (- int n) else None)
           else (if n < 2 ^ 63 then Some (int n) else None))"

lemma digit_char_digit: "d < 10 \<Longrightarrow> is_digit (digit_char d)"
  by (simp add: is_digit_def digit_char_def)

lemma digit_val_char [simp]: "d < 10 \<Longrightarrow> digit_val (digit_char d) = d"
  by (simp add: digit_val_def digit_char_def)

lemma digit_char_val: "is_digit c \<Longrightarrow> digit_char (digit_val c) = c"
  by (simp add: is_digit_def digit_char_def digit_val_def)

lemma digit_val_less: "is_digit c \<Longrightarrow> digit_val c < 10"
  by (auto simp: is_digit_def digit_val_def)

lemma digits_val_Nil [simp]: "digits_val [] = 0"
  by (simp add: digits_val_def)

lemma digits_val_snoc [simp]: "digits_val (ds @ [c]) = digits_val ds * 10 + digit_val c"
  by (simp add: digits_val_def)

lemma show_nat_digits: "list_all is_digit (show_nat n)"
proof (induction n rule: show_nat.induct)
  case (1 n)
  then show ?case by (subst show_nat.simps) (simp add: digit_char_digit)
qed

lemma show_nat_nonempty [simp]: "show_nat n \<noteq> []"
  by (subst show_nat.simps) simp

lemma digits_val_show_nat [simp]: "digits_val (show_nat n) = n"
proof (induction n rule: show_nat.induct)
  case (1 n)
  show ?case
  proof (cases "n < 10")
    case True
    then show ?thesis using digits_val_snoc [of "[]"] by (subst show_nat.simps) simp
  next
    case False
    with 1 show ?thesis by (subst show_nat.simps) simp
  qed
qed

lemma digits_val_pos:
  "list_all is_digit (c # ds) \<Longrightarrow> digit_val c \<noteq> 0 \<Longrightarrow> digits_val (c # ds) \<noteq> 0"
proof (induction ds rule: rev_induct)
  case Nil
  then show ?case by (simp add: digits_val_def)
next
  case (snoc d ds)
  then show ?case using digits_val_snoc [of "c # ds" d] by simp
qed

lemma show_digits_val:
  "list_all is_digit (c # ds) \<Longrightarrow> digit_val c \<noteq> 0 \<Longrightarrow> show_nat (digits_val (c # ds)) = c # ds"
proof (induction ds rule: rev_induct)
  case Nil
  then show ?case
    using digit_val_less [of c] by (subst show_nat.simps) (simp add: digits_val_def digit_char_val)
next
  case (snoc d ds)
  let ?n = "digits_val (c # ds)"
  from snoc.prems have d: "digit_val d < 10" "digit_char (digit_val d) = d"
    by (simp_all add: digit_val_less digit_char_val)
  from snoc.prems have "?n \<noteq> 0" by (intro digits_val_pos) auto
  then have "show_nat (?n * 10 + digit_val d) = show_nat ?n @ [d]"
    using d by (subst show_nat.simps) simp
  with snoc show ?case using digits_val_snoc [of "c # ds" d] by simp
qed

lemma show_nat_hd:
  assumes "0 < n"
  shows "\<exists>c ds. show_nat n = c # ds \<and> is_digit c \<and> c \<noteq> CHR ''0''"
  using assms
proof (induction n rule: show_nat.induct)
  case (1 n)
  show ?case
  proof (cases "n < 10")
    case True
    with "1.prems" have "digit_char n \<noteq> CHR ''0''"
      using char_of_conv [of "48 + n" "CHR ''0''"] by (simp add: digit_char_def)
    with True show ?thesis by (subst show_nat.simps) (simp add: digit_char_digit)
  next
    case False
    then have "0 < n div 10" by (simp add: div_greater_zero_iff)
    with "1.IH" [OF False] obtain c ds
      where "show_nat (n div 10) = c # ds" "is_digit c" "c \<noteq> CHR ''0''" by blast
    with False show ?thesis by (subst show_nat.simps) simp
  qed
qed

lemma digit_not_sign: "is_digit c \<Longrightarrow> c \<noteq> CHR ''-'' \<and> c \<noteq> CHR ''+''"
  by (auto simp: is_digit_def)

lemma parse_digits:
  assumes "list_all is_digit ds" "ds \<noteq> []"
  shows "parse_int64 ds = (if digits_val ds < 2 ^ 63 then Some (int (digits_val ds)) else None)"
  using assms digit_not_sign [of "hd ds"]
  by (cases ds) (auto simp: parse_int64_def Let_def simp del: power_numeral)

lemma parse_neg_digits:
  assumes "list_all is_digit ds" "ds \<noteq> []"
  shows "parse_int64 (CHR ''-'' # ds) =
    (if digits_val ds \<le> 2 ^ 63 then Some (- int (digits_val ds)) else None)"
  using assms by (auto simp: parse_int64_def Let_def simp del: power_numeral)

theorem parse_show_int: "- (2 ^ 63) \<le> i \<Longrightarrow> i < 2 ^ 63 \<Longrightarrow> parse_int64 (show_int i) = Some i"
  by (auto simp: show_int_def parse_digits parse_neg_digits show_nat_digits nat_le_iff nat_less_iff)

lemma parse_int64_range: "parse_int64 s = Some i \<Longrightarrow> - (2 ^ 63) \<le> i \<and> i < 2 ^ 63"
  by (auto simp: parse_int64_def Let_def split: if_splits prod.splits)

lemma show_int_ascii: "c \<in> set (show_int i) \<Longrightarrow> c = CHR ''-'' \<or> is_digit c"
  using show_nat_digits by (auto simp: show_int_def list_all_iff split: if_splits)

subsection \<open>Cutting, splitting, replacing\<close>

text \<open>\<^verbatim>\<open>strings.Cut(s, sep)\<close> for a one-byte separator: before, after, found.\<close>

fun cut :: "char \<Rightarrow> bytes \<Rightarrow> bytes \<times> bytes \<times> bool" where
  "cut sep [] = ([], [], False)"
| "cut sep (c # s) = (if c = sep then ([], s, True)
     else let (b, a, f) = cut sep s in (c # b, a, f))"

text \<open>\<^verbatim>\<open>strings.Split(s, sep)\<close> for a one-byte separator; never empty.\<close>

fun split_char :: "char \<Rightarrow> bytes \<Rightarrow> bytes list" where
  "split_char sep [] = [[]]"
| "split_char sep (c # s) = (if c = sep then [] # split_char sep s
     else (case split_char sep s of [] \<Rightarrow> [[c]] | p # ps \<Rightarrow> (c # p) # ps))"

text \<open>\<^verbatim>\<open>strings.ReplaceAll(s, old, new)\<close> for a non-empty \<open>old\<close>: leftmost, non-overlapping.\<close>

function replace_all :: "bytes \<Rightarrow> bytes \<Rightarrow> bytes \<Rightarrow> bytes" where
  "replace_all s old new =
     (case s of [] \<Rightarrow> []
      | c # t \<Rightarrow> if old \<noteq> [] \<and> prefix old s then new @ replace_all (drop (length old) s) old new
        else c # replace_all t old new)"
  by pat_completeness auto
termination
  by (relation "measure (\<lambda>(s, old, new). length s)") (auto simp: neq_Nil_conv)

declare replace_all.simps [simp del]

lemma cut_notin: "sep \<notin> set b \<Longrightarrow> cut sep (b @ sep # a) = (b, a, True)"
  by (induction b) auto

lemma cut_found: "cut sep s = (b, a, True) \<Longrightarrow> s = b @ sep # a \<and> sep \<notin> set b"
  by (induction s arbitrary: b) (auto split: if_splits prod.splits)

lemma split_char_nonempty [simp]: "split_char sep s \<noteq> []"
  by (induction s) (auto split: list.splits)

text \<open>
  \<^verbatim>\<open>strings.TrimSpace\<close>: the runes of \<^verbatim>\<open>unicode.IsSpace\<close>, taken off both ends as long as the
  encoding of one is a prefix (then a suffix) of the text.
\<close>

definition space_runes :: "nat list" where
  "space_runes = [9, 10, 11, 12, 13, 32, 0x85, 0xA0, 0x1680] @ [0x2000..<0x200B] @
     [0x2028, 0x2029, 0x202F, 0x205F, 0x3000]"

function trim_left :: "bytes \<Rightarrow> bytes" where
  "trim_left s = (case List.find (\<lambda>e. e \<noteq> [] \<and> prefix e s) (map encode_rune space_runes) of
     None \<Rightarrow> s | Some e \<Rightarrow> trim_left (drop (length e) s))"
  by pat_completeness auto
termination
  by (relation "measure length") (auto simp: find_Some_iff prefix_def)

function trim_right :: "bytes \<Rightarrow> bytes" where
  "trim_right s = (case List.find (\<lambda>e. e \<noteq> [] \<and> suffix e s) (map encode_rune space_runes) of
     None \<Rightarrow> s | Some e \<Rightarrow> trim_right (take (length s - length e) s))"
  by pat_completeness auto
termination
  by (relation "measure length") (auto simp: find_Some_iff suffix_def)

declare trim_left.simps [simp del] trim_right.simps [simp del]

definition trim_space :: "bytes \<Rightarrow> bytes" where
  "trim_space s = trim_right (trim_left s)"

text \<open>A text that begins and ends with a visible ASCII character is not changed.\<close>

lemma space_encoding_edges:
  assumes "e \<in> set (map encode_rune space_runes)" "c \<in> set e"
  shows "code c \<le> 32 \<or> 128 \<le> code c"
proof -
  from assms(1) obtain r where r: "r \<in> set space_runes" "e = encode_rune r" by auto
  show ?thesis
  proof (cases "r < 0x80")
    case True
    with r(1) have "r \<le> 32" by (auto simp: space_runes_def)
    with True assms(2) r(2) show ?thesis by (auto simp: encode_rune_ascii)
  next
    case False
    from r(1) have "scalar r" by (auto simp: space_runes_def scalar_def)
    with False assms(2) r(2) have "128 \<le> code c" by (intro encode_rune_high [of r]) simp_all
    then show ?thesis by simp
  qed
qed

definition graphic :: "char \<Rightarrow> bool" where "graphic c \<longleftrightarrow> 32 < code c \<and> code c < 128"

lemma trim_space_graphic:
  assumes "s \<noteq> []" "graphic (hd s)" "graphic (last s)"
  shows "trim_space s = s"
proof -
  have l: "\<not> (e \<noteq> [] \<and> prefix e s)" if "e \<in> set (map encode_rune space_runes)" for e
  proof
    assume e: "e \<noteq> [] \<and> prefix e s"
    then have "hd s \<in> set e" by (cases e) (auto simp: prefix_def)
    with space_encoding_edges [OF that] assms(2) show False by (force simp: graphic_def)
  qed
  have r: "\<not> (e \<noteq> [] \<and> suffix e s)" if "e \<in> set (map encode_rune space_runes)" for e
  proof
    assume e: "e \<noteq> [] \<and> suffix e s"
    then have "last s \<in> set e" by (auto simp: suffix_def)
    with space_encoding_edges [OF that] assms(3) show False by (force simp: graphic_def)
  qed
  have "List.find (\<lambda>e. e \<noteq> [] \<and> prefix e s) (map encode_rune space_runes) = None"
    "List.find (\<lambda>e. e \<noteq> [] \<and> suffix e s) (map encode_rune space_runes) = None"
    using l r unfolding find_None_iff by blast+
  note none = this
  have "trim_left s = s" by (subst trim_left.simps) (simp add: none)
  moreover have "trim_right s = s" by (subst trim_right.simps) (simp add: none)
  ultimately show ?thesis by (simp add: trim_space_def)
qed

subsection \<open>Times\<close>

definition num2 :: "bytes \<Rightarrow> nat \<Rightarrow> nat" where
  "num2 s i = digits_val [s ! i, s ! Suc i]"

definition leap_year :: "nat \<Rightarrow> bool" where
  "leap_year y \<longleftrightarrow> 4 dvd y \<and> (\<not> 100 dvd y \<or> 400 dvd y)"

definition days_in_month :: "nat \<Rightarrow> nat \<Rightarrow> nat" where
  "days_in_month y m = (if m = 2 then (if leap_year y then 29 else 28)
     else if m \<in> {4, 6, 9, 11} then 30 else 31)"

definition digits_at :: "bytes \<Rightarrow> nat list \<Rightarrow> bool" where
  "digits_at s ix = list_all (\<lambda>i. i < length s \<and> is_digit (s ! i)) ix"

definition date_ok :: "bytes \<Rightarrow> bool" where
  "date_ok s = (digits_at s [0, 1, 2, 3, 5, 6, 8, 9] \<and> s ! 4 = CHR ''-'' \<and> s ! 7 = CHR ''-'' \<and>
     (let y = digits_val (take 4 s); m = num2 s 5; d = num2 s 8 in
        1 \<le> m \<and> m \<le> 12 \<and> 1 \<le> d \<and> d \<le> days_in_month y m))"

text \<open>
  \<^verbatim>\<open>time.Parse(time.RFC3339, s)\<close> succeeds: besides the strict form the parser takes a one-digit
  hour, a fraction of any length after a point or a comma, and zone offsets up to 24:60.
\<close>

definition zone_ok :: "bytes \<Rightarrow> bool" where
  "zone_ok s = (s = ''Z'' \<or> (length s = 6 \<and> (s ! 0 = CHR ''+'' \<or> s ! 0 = CHR ''-'') \<and>
     digits_at s [1, 2, 4, 5] \<and> s ! 3 = CHR '':'' \<and> num2 s 1 \<le> 24 \<and> num2 s 4 \<le> 60))"

definition skip_fraction :: "bytes \<Rightarrow> bytes" where
  "skip_fraction s = (case s of c # d # t \<Rightarrow>
       if (c = CHR ''.'' \<or> c = CHR '','') \<and> is_digit d then dropWhile is_digit t else s
     | _ \<Rightarrow> s)"

definition clock_tail_ok :: "bytes \<Rightarrow> bool" where
  "clock_tail_ok s = (digits_at s [1, 2, 4, 5] \<and> s ! 0 = CHR '':'' \<and> s ! 3 = CHR '':'' \<and>
     num2 s 1 \<le> 59 \<and> num2 s 4 \<le> 59 \<and> zone_ok (skip_fraction (drop 6 s)))"

definition rfc3339 :: "bytes \<Rightarrow> bool" where
  "rfc3339 s = (11 \<le> length s \<and> date_ok s \<and> s ! 10 = CHR ''T'' \<and>
     (if digits_at s [11, 12] then num2 s 11 \<le> 23 \<and> clock_tail_ok (drop 13 s)
      else digits_at s [11] \<and> clock_tail_ok (drop 12 s)))"

subsection \<open>Hexadecimal\<close>

definition hex_char :: "nat \<Rightarrow> char" where
  "hex_char d = (if d < 10 then char_of (48 + d) else char_of (87 + d))"

definition is_lower_hex :: "char \<Rightarrow> bool" where
  "is_lower_hex c \<longleftrightarrow> 48 \<le> code c \<and> code c \<le> 57 \<or> 97 \<le> code c \<and> code c \<le> 102"

definition hex_val :: "char \<Rightarrow> nat option" where
  "hex_val c = (let n = code c in
     if 48 \<le> n \<and> n \<le> 57 then Some (n - 48)
     else if 97 \<le> n \<and> n \<le> 102 then Some (n - 87)
     else if 65 \<le> n \<and> n \<le> 70 then Some (n - 55) else None)"

definition hex_encode :: "bytes \<Rightarrow> bytes" where
  "hex_encode s = concat (map (\<lambda>c. [hex_char (code c div 16), hex_char (code c mod 16)]) s)"

fun hex_decode :: "bytes \<Rightarrow> bytes option" where
  "hex_decode [] = Some []"
| "hex_decode [c] = None"
| "hex_decode (c # d # s) = (case (hex_val c, hex_val d, hex_decode s) of
     (Some x, Some y, Some r) \<Rightarrow> Some (char_of (x * 16 + y) # r) | _ \<Rightarrow> None)"

lemma hex_val_char: "d < 16 \<Longrightarrow> hex_val (hex_char d) = Some d"
  by (auto simp: hex_val_def hex_char_def)

lemma hex_char_lower: "d < 16 \<Longrightarrow> is_lower_hex (hex_char d)"
  by (auto simp: is_lower_hex_def hex_char_def)

lemma hex_encode_Cons [simp]:
  "hex_encode (c # s) = hex_char (code c div 16) # hex_char (code c mod 16) # hex_encode s"
  by (simp add: hex_encode_def)

lemma hex_encode_Nil [simp]: "hex_encode [] = []"
  by (simp add: hex_encode_def)

lemma code_div_16 [simp]: "code c div 16 < 16"
  using nat_of_char_less_256 [of c] by (simp add: less_mult_imp_div_less)

lemma hex_decode_encode [simp]: "hex_decode (hex_encode s) = Some s"
  by (induction s) (auto simp: hex_val_char)

lemma length_hex_encode [simp]: "length (hex_encode s) = 2 * length s"
  by (induction s) auto

lemma hex_encode_lower: "list_all is_lower_hex (hex_encode s)"
  by (induction s) (auto simp: hex_char_lower)

interpretation hexc: codec hex_encode hex_decode "\<lambda>_. True"
  by unfold_locales simp

subsection \<open>Base64, standard alphabet with padding\<close>

definition b64_char :: "nat \<Rightarrow> char" where
  "b64_char n = (if n < 26 then char_of (65 + n) else if n < 52 then char_of (71 + n)
     else if n < 62 then char_of (n - 4) else if n = 62 then CHR ''+'' else CHR ''/'')"

definition b64_val :: "char \<Rightarrow> nat option" where
  "b64_val c = (let n = code c in
     if 65 \<le> n \<and> n \<le> 90 then Some (n - 65)
     else if 97 \<le> n \<and> n \<le> 122 then Some (n - 71)
     else if 48 \<le> n \<and> n \<le> 57 then Some (n + 4)
     else if c = CHR ''+'' then Some 62 else if c = CHR ''/'' then Some 63 else None)"

fun b64_encode :: "bytes \<Rightarrow> bytes" where
  "b64_encode [] = []"
| "b64_encode [a] = [b64_char (code a div 4), b64_char (code a mod 4 * 16), CHR ''='', CHR ''='']"
| "b64_encode [a, b] = [b64_char (code a div 4), b64_char (code a mod 4 * 16 + code b div 16),
     b64_char (code b mod 16 * 4), CHR ''='']"
| "b64_encode (a # b # c # s) =
     b64_char (code a div 4) # b64_char (code a mod 4 * 16 + code b div 16) #
     b64_char (code b mod 16 * 4 + code c div 64) # b64_char (code c mod 64) # b64_encode s"

fun b64_quanta :: "bytes \<Rightarrow> bytes option" where
  "b64_quanta [] = Some []"
| "b64_quanta (a # b # c # d # s) = (case (b64_val a, b64_val b) of
     (Some w, Some x) \<Rightarrow>
       (if c = CHR ''='' then
          (if d = CHR ''='' \<and> s = [] then Some [char_of (w * 4 + x div 16)] else None)
        else case b64_val c of None \<Rightarrow> None | Some y \<Rightarrow>
          if d = CHR ''='' then
            (if s = [] then Some [char_of (w * 4 + x div 16), char_of (x mod 16 * 16 + y div 4)]
             else None)
          else (case (b64_val d, b64_quanta s) of
            (Some z, Some r) \<Rightarrow> Some (char_of (w * 4 + x div 16) #
               char_of (x mod 16 * 16 + y div 4) # char_of (y mod 4 * 64 + z) # r)
          | _ \<Rightarrow> None))
   | _ \<Rightarrow> None)"
| "b64_quanta s = None"

definition b64_decode :: "bytes \<Rightarrow> bytes option" where
  "b64_decode s = b64_quanta (filter (\<lambda>c. c \<noteq> CHR 0x0A \<and> c \<noteq> CHR 0x0D) s)"

lemma b64_val_char: "n < 64 \<Longrightarrow> b64_val (b64_char n) = Some n"
  by (auto simp: b64_val_def b64_char_def Let_def)

lemma b64_char_plain:
  "n < 64 \<Longrightarrow> b64_char n \<noteq> CHR 0x0A \<and> b64_char n \<noteq> CHR 0x0D \<and> b64_char n \<noteq> CHR ''=''"
  using b64_val_char [of n] by (auto simp: b64_val_def)

lemma b64_bits:
  fixes a b c :: char
  shows "code a div 4 < 64" "code a mod 4 * 16 + code b div 16 < 64"
    "code b mod 16 * 4 + code c div 64 < 64" "code c mod 64 < 64"
    "code a mod 4 * 16 < 64" "code b mod 16 * 4 < 64"
proof -
  have d: "code x div 4 < 64" "code x div 16 < 16" "code x div 64 < 4" for x
    using code_bound [of x] by (simp_all add: div_less_iff_less_mult)
  have m: "code x mod 4 < 4" "code x mod 16 < 16" for x by simp_all
  show "code a div 4 < 64" "code c mod 64 < 64" using d by simp_all
  show "code a mod 4 * 16 + code b div 16 < 64" "code b mod 16 * 4 + code c div 64 < 64"
    "code a mod 4 * 16 < 64" "code b mod 16 * 4 < 64"
    using d(2) [of b] d(3) [of c] m(1) [of a] m(2) [of b] by linarith+
qed

lemma b64_join:
  fixes a b c :: char
  shows "char_of (code a div 4 * 4 + (code a mod 4 * 16 + code b div 16) div 16) = a"
    "char_of ((code a mod 4 * 16 + code b div 16) mod 16 * 16 +
      (code b mod 16 * 4 + code c div 64) div 4) = b"
    "char_of ((code b mod 16 * 4 + code c div 64) mod 4 * 64 + code c mod 64) = c"
    "char_of (code a div 4 * 4 + (code a mod 4 * 16) div 16) = a"
    "char_of ((code a mod 4 * 16 + code b div 16) mod 16 * 16 + (code b mod 16 * 4) div 4) = b"
proof -
  have d: "code b div 16 < 16" "code c div 64 < 4"
    using code_bound [of b] code_bound [of c] by (simp_all add: div_less_iff_less_mult)
  then show "char_of (code a div 4 * 4 + (code a mod 4 * 16 + code b div 16) div 16) = a"
    "char_of ((code a mod 4 * 16 + code b div 16) mod 16 * 16 +
      (code b mod 16 * 4 + code c div 64) div 4) = b"
    "char_of ((code b mod 16 * 4 + code c div 64) mod 4 * 64 + code c mod 64) = c"
    "char_of (code a div 4 * 4 + (code a mod 4 * 16) div 16) = a"
    "char_of ((code a mod 4 * 16 + code b div 16) mod 16 * 16 + (code b mod 16 * 4) div 4) = b"
    by simp_all
qed

lemma b64_small: "code c div 64 div 4 = 0" "code c div 64 mod 4 = code c div 64"
  "code c div 16 mod 16 = code c div 16" "code c div 16 div 16 = 0"
  using code_bound [of c] by (simp_all add: div_less_iff_less_mult)

lemma b64_quanta_encode: "b64_quanta (b64_encode s) = Some s"
  by (induction s rule: b64_encode.induct)
    (simp_all add: b64_val_char b64_bits b64_char_plain b64_join b64_small)

lemma b64_encode_plain: "c \<in> set (b64_encode s) \<Longrightarrow> c \<noteq> CHR 0x0A \<and> c \<noteq> CHR 0x0D"
  by (induction s rule: b64_encode.induct) (auto simp: b64_bits b64_char_plain)

theorem b64_decode_encode [simp]: "b64_decode (b64_encode s) = Some s"
proof -
  have "filter (\<lambda>c. c \<noteq> CHR 0x0A \<and> c \<noteq> CHR 0x0D) (b64_encode s) = b64_encode s"
    using b64_encode_plain by (intro filter_True) blast
  then show ?thesis by (simp add: b64_decode_def b64_quanta_encode)
qed

interpretation b64c: codec b64_encode b64_decode "\<lambda>_. True"
  by unfold_locales simp

subsection \<open>Byte order\<close>

text \<open>\<^verbatim>\<open>strings.Compare\<close> and \<^verbatim>\<open>slices.Sort\<close> on strings compare byte by byte.\<close>

definition less_bytes :: "bytes \<Rightarrow> bytes \<Rightarrow> bool" where
  "less_bytes a b = lex_less (map of_char a) (map of_char b)"

lemma map_code_inject: "map code a = map code b \<longleftrightarrow> a = b"
  by (rule inj_map_eq_map [OF inj_of_char])

interpretation bytord: key_order less_bytes "\<lambda>_. True"
  using lex_less_total by unfold_locales (auto simp: less_bytes_def map_code_inject intro: lex_less_trans)

end
