(* ===== verification/Json.thy ===== *)
theory Json
  imports GoText
begin

text \<open>
  What the program uses of Go's \<^verbatim>\<open>encoding/json\<close>. A document is parsed to the tree of its
  text (\<open>json\<close>, object members in order, repeated keys kept); \<open>collapse\<close> is the further
  step that decoding into \<^verbatim>\<open>any\<close> takes, a Go map in which the last member of a key wins.
  Numbers stay text, as under \<^verbatim>\<open>Decoder.UseNumber\<close>. The parser follows the scanner of the
  library: the number grammar, the control-character and escape rules of strings, the replacement
  of invalid UTF-8 and unpaired surrogates, the nesting limit of 10000, and the two ways a
  document may end (\<open>decode_first\<close> for \<^verbatim>\<open>Decoder.Decode\<close> with \<^verbatim>\<open>Decoder.More\<close>,
  \<open>unmarshal_tree\<close> for \<^verbatim>\<open>json.Unmarshal\<close>). The recursive descent takes fuel;
  \<open>enough_fuel\<close> proves the amount the entry points pass is enough, so fuel never decides.
\<close>

datatype json =
    JNull | JBool bool | JNum bytes | JStr bytes | JArr "json list" | JObj "(bytes \<times> json) list"

abbreviation c_quote :: char where "c_quote \<equiv> CHR 0x22"
abbreviation c_bslash :: char where "c_bslash \<equiv> CHR 0x5C"

definition is_ws :: "char \<Rightarrow> bool" where
  "is_ws c \<longleftrightarrow> c = CHR 0x20 \<or> c = CHR 0x09 \<or> c = CHR 0x0D \<or> c = CHR 0x0A"

definition skip_ws :: "bytes \<Rightarrow> bytes" where
  "skip_ws s = dropWhile is_ws s"

subsection \<open>Strings\<close>

definition simple_escape :: "char \<Rightarrow> bool" where
  "simple_escape e \<longleftrightarrow> e \<in> set ''bfnrt/'' \<or> e = c_bslash \<or> e = c_quote"

definition hex4 :: "char \<Rightarrow> char \<Rightarrow> char \<Rightarrow> char \<Rightarrow> nat option" where
  "hex4 a b c d = (case (hex_val a, hex_val b, hex_val c, hex_val d) of
     (Some w, Some x, Some y, Some z) \<Rightarrow> Some (((w * 16 + x) * 16 + y) * 16 + z) | _ \<Rightarrow> None)"

text \<open>The raw text of a string literal after its opening quote, and what follows the literal.\<close>

fun scan_string :: "bytes \<Rightarrow> (bytes \<times> bytes) option" where
  "scan_string [] = None"
| "scan_string (c # s) =
     (if c = c_quote then Some ([], s)
      else if c = c_bslash then
        (case s of [] \<Rightarrow> None
         | e # t \<Rightarrow>
           if simple_escape e then map_option (apfst (\<lambda>r. c # e # r)) (scan_string t)
           else if e = CHR ''u'' then
             (case t of h1 # h2 # h3 # h4 # t' \<Rightarrow>
                if hex4 h1 h2 h3 h4 = None then None
                else map_option (apfst (\<lambda>r. c # e # h1 # h2 # h3 # h4 # r)) (scan_string t')
              | _ \<Rightarrow> None)
           else None)
      else if code c < 0x20 then None
      else map_option (apfst (\<lambda>r. c # r)) (scan_string s))"

definition getu4 :: "bytes \<Rightarrow> nat option" where
  "getu4 s = (case s of b # u # h1 # h2 # h3 # h4 # t \<Rightarrow>
     if b = c_bslash \<and> u = CHR ''u'' then hex4 h1 h2 h3 h4 else None | _ \<Rightarrow> None)"

definition surrogate :: "nat \<Rightarrow> bool" where
  "surrogate r \<longleftrightarrow> 0xD800 \<le> r \<and> r < 0xE000"

text \<open>\<^verbatim>\<open>utf16.DecodeRune\<close>\<close>

definition utf16_pair :: "nat \<Rightarrow> nat \<Rightarrow> nat" where
  "utf16_pair r1 r2 =
     (if 0xD800 \<le> r1 \<and> r1 < 0xDC00 \<and> 0xDC00 \<le> r2 \<and> r2 < 0xE000
      then (r1 - 0xD800) * 1024 + (r2 - 0xDC00) + 0x10000 else rune_error)"

definition unescape :: "char \<Rightarrow> char option" where
  "unescape e =
     (if e = c_quote \<or> e = c_bslash \<or> e = CHR ''/'' \<or> e = CHR 0x27 then Some e
      else if e = CHR ''b'' then Some (CHR 0x08) else if e = CHR ''f'' then Some (CHR 0x0C)
      else if e = CHR ''n'' then Some (CHR 0x0A) else if e = CHR ''r'' then Some (CHR 0x0D)
      else if e = CHR ''t'' then Some (CHR 0x09) else None)"

text \<open>\<^verbatim>\<open>unquote\<close>: the string a raw literal stands for.\<close>

function unquote :: "bytes \<Rightarrow> bytes option" where
  "unquote s =
     (case s of [] \<Rightarrow> Some []
      | c # t \<Rightarrow>
        if c = c_bslash then
          (case t of [] \<Rightarrow> None
           | e # t' \<Rightarrow>
             if e = CHR ''u'' then
               (case getu4 s of None \<Rightarrow> None
                | Some r \<Rightarrow>
                  let s1 = drop 6 s in
                  if surrogate r \<and> getu4 s1 \<noteq> None \<and> utf16_pair r (the (getu4 s1)) \<noteq> rune_error
                  then map_option ((@) (encode_rune (utf16_pair r (the (getu4 s1))))) (unquote (drop 6 s1))
                  else map_option ((@) (encode_rune (if surrogate r then rune_error else r))) (unquote s1))
             else (case unescape e of None \<Rightarrow> None
                   | Some x \<Rightarrow> map_option ((#) x) (unquote t')))
        else if c = c_quote \<or> code c < 0x20 then None
        else map_option ((@) (encode_rune (fst (decode_rune s))))
               (unquote (drop (snd (decode_rune s)) s)))"
  by pat_completeness auto
termination
  by (relation "measure length") (auto simp: drop_rune_shorter_Cons simp del: drop_drop)

declare unquote.simps [simp del]

definition lex_string :: "bytes \<Rightarrow> (bytes \<times> bytes) option" where
  "lex_string s = (case scan_string s of None \<Rightarrow> None
     | Some (raw, r) \<Rightarrow> map_option (\<lambda>t. (t, r)) (unquote raw))"

subsection \<open>Numbers and literals\<close>

definition scan_int :: "bytes \<Rightarrow> (bytes \<times> bytes) option" where
  "scan_int s = (case s of [] \<Rightarrow> None
     | c # t \<Rightarrow> if c = CHR ''0'' then Some ([c], t)
         else if is_digit c then Some (c # takeWhile is_digit t, dropWhile is_digit t) else None)"

definition scan_digits1 :: "bytes \<Rightarrow> (bytes \<times> bytes) option" where
  "scan_digits1 s = (if takeWhile is_digit s = [] then None
     else Some (takeWhile is_digit s, dropWhile is_digit s))"

definition scan_frac :: "bytes \<Rightarrow> (bytes \<times> bytes) option" where
  "scan_frac s = (case s of c # t \<Rightarrow>
       if c = CHR ''.'' then map_option (apfst ((#) c)) (scan_digits1 t) else Some ([], s)
     | [] \<Rightarrow> Some ([], s))"

definition scan_exp :: "bytes \<Rightarrow> (bytes \<times> bytes) option" where
  "scan_exp s = (case s of c # t \<Rightarrow>
       if c = CHR ''e'' \<or> c = CHR ''E'' then
         (case t of g # t' \<Rightarrow>
            if g = CHR ''+'' \<or> g = CHR ''-'' then map_option (apfst (\<lambda>x. c # g # x)) (scan_digits1 t')
            else map_option (apfst ((#) c)) (scan_digits1 t)
          | [] \<Rightarrow> None)
       else Some ([], s)
     | [] \<Rightarrow> Some ([], s))"

definition scan_number :: "bytes \<Rightarrow> (bytes \<times> bytes) option" where
  "scan_number s =
     (let (sg, s0) = (case s of c # t \<Rightarrow> if c = CHR ''-'' then ([c], t) else ([], s) | [] \<Rightarrow> ([], s)) in
      case scan_int s0 of None \<Rightarrow> None
      | Some (i, s1) \<Rightarrow> (case scan_frac s1 of None \<Rightarrow> None
        | Some (f, s2) \<Rightarrow> (case scan_exp s2 of None \<Rightarrow> None
          | Some (e, s3) \<Rightarrow> Some (sg @ i @ f @ e, s3))))"

definition scan_word :: "bytes \<Rightarrow> json \<Rightarrow> bytes \<Rightarrow> (json \<times> bytes) option" where
  "scan_word w v s = (if prefix w s then Some (v, drop (length w) s) else None)"

subsection \<open>The parser\<close>

definition max_depth :: nat where
  "max_depth = 10000"

fun parse_value :: "nat \<Rightarrow> nat \<Rightarrow> bytes \<Rightarrow> (json \<times> bytes) option"
  and parse_elems :: "nat \<Rightarrow> nat \<Rightarrow> bytes \<Rightarrow> (json list \<times> bytes) option"
  and parse_members :: "nat \<Rightarrow> nat \<Rightarrow> bytes \<Rightarrow> ((bytes \<times> json) list \<times> bytes) option"
where
  "parse_value 0 d s = None"
| "parse_value (Suc f) d s =
     (case skip_ws s of [] \<Rightarrow> None
      | c # t \<Rightarrow>
        if c = CHR 0x7B then
          (if d < max_depth then
             (case skip_ws t of [] \<Rightarrow> None
              | c' # t' \<Rightarrow> if c' = CHR 0x7D then Some (JObj [], t')
                  else map_option (apfst JObj) (parse_members f (Suc d) t))
           else None)
        else if c = CHR 0x5B then
          (if d < max_depth then
             (case skip_ws t of [] \<Rightarrow> None
              | c' # t' \<Rightarrow> if c' = CHR 0x5D then Some (JArr [], t')
                  else map_option (apfst JArr) (parse_elems f (Suc d) t))
           else None)
        else if c = c_quote then map_option (apfst JStr) (lex_string t)
        else if c = CHR ''n'' then scan_word ''null'' JNull (c # t)
        else if c = CHR ''t'' then scan_word ''true'' (JBool True) (c # t)
        else if c = CHR ''f'' then scan_word ''false'' (JBool False) (c # t)
        else map_option (apfst JNum) (scan_number (c # t)))"
| "parse_elems 0 d s = None"
| "parse_elems (Suc f) d s =
     (case parse_value f d s of None \<Rightarrow> None
      | Some (v, r) \<Rightarrow> (case skip_ws r of [] \<Rightarrow> None
        | c # r' \<Rightarrow> if c = CHR '','' then map_option (apfst ((#) v)) (parse_elems f d r')
            else if c = CHR 0x5D then Some ([v], r') else None))"
| "parse_members 0 d s = None"
| "parse_members (Suc f) d s =
     (case skip_ws s of [] \<Rightarrow> None
      | c # t \<Rightarrow> if c \<noteq> c_quote then None else
        (case lex_string t of None \<Rightarrow> None
         | Some (k, r) \<Rightarrow> (case skip_ws r of [] \<Rightarrow> None
           | c' # r' \<Rightarrow> if c' \<noteq> CHR '':'' then None else
             (case parse_value f d r' of None \<Rightarrow> None
              | Some (v, q) \<Rightarrow> (case skip_ws q of [] \<Rightarrow> None
                | c'' # q' \<Rightarrow> if c'' = CHR '','' then map_option (apfst ((#) (k, v))) (parse_members f d q')
                    else if c'' = CHR 0x7D then Some ([(k, v)], q') else None)))))"

definition parse_first :: "bytes \<Rightarrow> (json \<times> bytes) option" where
  "parse_first s = parse_value (2 * length s + 2) 0 s"

text \<open>Decoding into \<^verbatim>\<open>any\<close>: an object becomes a map, a repeated key keeps its last value.\<close>

definition put_all :: "(bytes \<times> json) list \<Rightarrow> (bytes \<times> json) list" where
  "put_all ms = fold (\<lambda>(k, v) m. AList.update k v m) ms []"

primrec collapse :: "json \<Rightarrow> json" where
  "collapse JNull = JNull"
| "collapse (JBool b) = JBool b"
| "collapse (JNum n) = JNum n"
| "collapse (JStr s) = JStr s"
| "collapse (JArr vs) = JArr (map collapse vs)"
| "collapse (JObj ms) = JObj (put_all (map (map_prod (\<lambda>k. k) collapse) ms))"

text \<open>
  \<^verbatim>\<open>Decoder.Decode\<close> of the first value, with the answer of \<^verbatim>\<open>Decoder.More\<close>: another
  value follows when the next non-space byte exists and is neither \<^verbatim>\<open>]\<close> nor \<^verbatim>\<open>}\<close>.
\<close>

definition decode_first :: "bytes \<Rightarrow> (json \<times> bool) option" where
  "decode_first s = (case parse_first s of None \<Rightarrow> None
     | Some (v, r) \<Rightarrow> Some (v, (case skip_ws r of [] \<Rightarrow> False | c # t \<Rightarrow> c \<noteq> CHR 0x5D \<and> c \<noteq> CHR 0x7D)))"

text \<open>\<^verbatim>\<open>json.Unmarshal\<close>: exactly one value and nothing but space after it.\<close>

definition unmarshal_tree :: "bytes \<Rightarrow> json option" where
  "unmarshal_tree s = (case parse_first s of None \<Rightarrow> None
     | Some (v, r) \<Rightarrow> if skip_ws r = [] then Some v else None)"

end
