(* ===== verification/JsonProps.thy ===== *)
theory JsonProps
  imports Json
begin

text \<open>
  Facts about the JSON model: what the parser returns is well formed, the fuel it is given is
  enough, and text printed compactly from a tree parses back to that tree. The printer
  \<open>render\<close> is parameterised by the way it escapes a string; the locale \<open>json_quoting\<close>
  states what the escaping must satisfy and carries the round trip, and the canonical form of
  RFC 8785 and the form of \<^verbatim>\<open>json.Marshal\<close> are two interpretations of it.
\<close>

lemma json_induct [case_names Null Bool Num Str Arr Obj]:
  assumes "P JNull" "\<And>b. P (JBool b)" "\<And>n. P (JNum n)" "\<And>s. P (JStr s)"
    and "\<And>vs. (\<And>v. v \<in> set vs \<Longrightarrow> P v) \<Longrightarrow> P (JArr vs)"
    and "\<And>ms. (\<And>k v. (k, v) \<in> set ms \<Longrightarrow> P v) \<Longrightarrow> P (JObj ms)"
  shows "P v"
proof (induction v)
  case (JObj ms)
  then show ?case by (intro assms(6)) (force intro: snds.intros)
qed (use assms in auto)

subsection \<open>Numbers may be followed by anything that does not extend them\<close>

definition stops :: "bytes \<Rightarrow> bool" where
  "stops r = (case r of [] \<Rightarrow> True | c # t \<Rightarrow>
     \<not> is_digit c \<and> c \<noteq> CHR ''.'' \<and> c \<noteq> CHR ''e'' \<and> c \<noteq> CHR ''E'')"

definition num_ok :: "bytes \<Rightarrow> bool" where
  "num_ok n \<longleftrightarrow> scan_number n = Some (n, [])"

lemma stops_Nil [simp]: "stops []"
  by (simp add: stops_def)

lemma stops_digits: "stops r \<Longrightarrow> takeWhile is_digit r = [] \<and> dropWhile is_digit r = r"
  by (cases r) (auto simp: stops_def)

lemma takeWhile_stops:
  "stops r \<Longrightarrow> takeWhile is_digit (s @ r) = takeWhile is_digit s \<and>
    dropWhile is_digit (s @ r) = dropWhile is_digit s @ r"
  by (induction s) (auto simp: stops_digits)

lemma scan_int_append: "scan_int s = Some (a, b) \<Longrightarrow> stops r \<Longrightarrow> scan_int (s @ r) = Some (a, b @ r)"
  by (auto simp: scan_int_def takeWhile_stops split: list.splits if_splits)

lemma scan_digits1_append:
  "scan_digits1 s = Some (a, b) \<Longrightarrow> stops r \<Longrightarrow> scan_digits1 (s @ r) = Some (a, b @ r)"
  by (auto simp: scan_digits1_def takeWhile_stops split: if_splits)

lemma scan_frac_append:
  "scan_frac s = Some (a, b) \<Longrightarrow> stops r \<Longrightarrow> scan_frac (s @ r) = Some (a, b @ r)"
  by (auto simp: scan_frac_def scan_digits1_append stops_def split: list.splits if_splits)

lemma scan_exp_append:
  "scan_exp s = Some (a, b) \<Longrightarrow> stops r \<Longrightarrow> scan_exp (s @ r) = Some (a, b @ r)"
  by (auto simp: scan_exp_def stops_def dest: scan_digits1_append [where r = r]
      split: list.splits if_splits)

lemma scan_number_append:
  assumes "scan_number s = Some (a, b)" "stops r"
  shows "scan_number (s @ r) = Some (a, b @ r)"
proof -
  define s0 where "s0 = (case s of c # t \<Rightarrow> if c = CHR ''-'' then t else s | [] \<Rightarrow> s)"
  define sg where "sg = (case s of c # t \<Rightarrow> if c = CHR ''-'' then [c] else [] | [] \<Rightarrow> [])"
  from assms(1) obtain i s1 f s2 e where
    n: "scan_int s0 = Some (i, s1)" "scan_frac s1 = Some (f, s2)" "scan_exp s2 = Some (e, b)"
    and a: "a = sg @ i @ f @ e"
    by (auto simp: scan_number_def Let_def s0_def sg_def split: list.splits if_splits option.splits)
  from n(1) have "s \<noteq> []" by (auto simp: s0_def scan_int_def split: list.splits)
  with n a assms(2) show ?thesis
    by (cases s) (auto simp: scan_number_def s0_def sg_def scan_int_append scan_frac_append
        scan_exp_append dest: scan_int_append [OF _ assms(2)] split: if_splits)
qed

lemma num_ok_append: "num_ok n \<Longrightarrow> stops r \<Longrightarrow> scan_number (n @ r) = Some (n, r)"
  using scan_number_append [of n n "[]" r] by (simp add: num_ok_def)

lemma num_ok_hd: "num_ok n \<Longrightarrow> \<exists>c t. n = c # t \<and> (c = CHR ''-'' \<or> is_digit c)"
  by (auto simp: num_ok_def scan_number_def scan_int_def is_digit_def Let_def
      split: list.splits if_splits option.splits)

subsection \<open>Compact printing\<close>

fun commas :: "bytes list \<Rightarrow> bytes" where
  "commas [] = []"
| "commas [x] = x"
| "commas (x # y # xs) = x @ CHR '','' # commas (y # xs)"

definition member_text :: "(bytes \<Rightarrow> bytes) \<Rightarrow> bytes \<times> bytes \<Rightarrow> bytes" where
  "member_text q p = c_quote # q (fst p) @ c_quote # CHR '':'' # snd p"

primrec render :: "(bytes \<Rightarrow> bytes) \<Rightarrow> json \<Rightarrow> bytes" where
  "render q JNull = ''null''"
| "render q (JBool b) = (if b then ''true'' else ''false'')"
| "render q (JNum n) = n"
| "render q (JStr s) = c_quote # q s @ [c_quote]"
| "render q (JArr vs) = CHR 0x5B # commas (map (render q) vs) @ [CHR 0x5D]"
| "render q (JObj ms) =
     CHR 0x7B # commas (map (member_text q) (map (map_prod (\<lambda>k. k) (render q)) ms)) @ [CHR 0x7D]"

primrec jdepth :: "json \<Rightarrow> nat" where
  "jdepth JNull = 0"
| "jdepth (JBool b) = 0"
| "jdepth (JNum n) = 0"
| "jdepth (JStr s) = 0"
| "jdepth (JArr vs) = Suc (foldr max (map jdepth vs) 0)"
| "jdepth (JObj ms) = Suc (foldr max (map snd (map (map_prod (\<lambda>k. k) jdepth) ms)) 0)"

primrec json_all :: "(bytes \<Rightarrow> bool) \<Rightarrow> (bytes \<Rightarrow> bool) \<Rightarrow> json \<Rightarrow> bool" where
  "json_all ok num JNull = True"
| "json_all ok num (JBool b) = True"
| "json_all ok num (JNum n) = num n"
| "json_all ok num (JStr s) = ok s"
| "json_all ok num (JArr vs) = list_all id (map (json_all ok num) vs)"
| "json_all ok num (JObj ms) =
     list_all (\<lambda>p. ok (fst p) \<and> snd p) (map (map_prod (\<lambda>k. k) (json_all ok num)) ms)"

lemma json_all_Arr: "json_all ok num (JArr vs) \<longleftrightarrow> (\<forall>v \<in> set vs. json_all ok num v)"
  by (simp add: list_all_iff)

lemma json_all_Obj:
  "json_all ok num (JObj ms) \<longleftrightarrow> (\<forall>(k, v) \<in> set ms. ok k \<and> json_all ok num v)"
  by (auto simp: list_all_iff)

declare json_all.simps(5,6) [simp del] json_all_Arr [simp] json_all_Obj [simp]

lemma foldr_max_le: "x \<in> set xs \<Longrightarrow> x \<le> foldr max xs (0 :: nat)"
  by (induction xs) auto

lemma jdepth_Arr: "v \<in> set vs \<Longrightarrow> jdepth v < jdepth (JArr vs)"
  using foldr_max_le [of "jdepth v" "map jdepth vs"] by (simp add: less_Suc_eq_le)

lemma jdepth_Obj: "(k, v) \<in> set ms \<Longrightarrow> jdepth v < jdepth (JObj ms)"
  using foldr_max_le [of "jdepth v" "map snd (map (map_prod (\<lambda>k. k) jdepth) ms)"]
  by (force simp: less_Suc_eq_le)

lemma commas_Cons: "commas (x # xs) = (if xs = [] then x else x @ CHR '','' # commas xs)"
  by (cases xs) auto

lemma skip_ws_id: "c # t = s \<Longrightarrow> \<not> is_ws c \<Longrightarrow> skip_ws s = s"
  by (auto simp: skip_ws_def)

lemma skip_ws_hd [simp]: "\<not> is_ws c \<Longrightarrow> skip_ws (c # t) = c # t"
  by (simp add: skip_ws_def)

lemma skip_ws_Nil [simp]: "skip_ws [] = []"
  by (simp add: skip_ws_def)

lemma render_Obj:
  "render q (JObj ms) = CHR 0x7B # commas (map (\<lambda>(k, v). member_text q (k, render q v)) ms) @ [CHR 0x7D]"
  by (simp add: case_prod_unfold comp_def map_prod_def)

subsection \<open>The interface of string escaping, and the round trip\<close>

text \<open>What is read back of a tree when what is read back of a string \<open>t\<close> is \<open>f t\<close>.\<close>

primrec map_json :: "(bytes \<Rightarrow> bytes) \<Rightarrow> json \<Rightarrow> json" where
  "map_json f JNull = JNull"
| "map_json f (JBool b) = JBool b"
| "map_json f (JNum n) = JNum n"
| "map_json f (JStr s) = JStr (f s)"
| "map_json f (JArr vs) = JArr (map (map_json f) vs)"
| "map_json f (JObj ms) = JObj (map (apfst f) (map (map_prod (\<lambda>k. k) (map_json f)) ms))"

lemma map_json_Obj: "map_json f (JObj ms) = JObj (map (map_prod f (map_json f)) ms)"
  by (auto simp: apfst_def)

declare map_json.simps(6) [simp del] map_json_Obj [simp]

lemma map_json_id: "map_json (\<lambda>t. t) v = v"
  by (induction v rule: json_induct) (auto intro!: map_idI)

text \<open>Escaping after which a string \<open>t\<close> reads back as \<open>img t\<close>.\<close>

locale lossy_quoting =
  fixes q :: "bytes \<Rightarrow> bytes" and good :: "bytes \<Rightarrow> bool" and img :: "bytes \<Rightarrow> bytes"
  assumes lex_q: "good t \<Longrightarrow> lex_string (q t @ c_quote # r) = Some (img t, r)"
begin

abbreviation printable :: "json \<Rightarrow> bool" where
  "printable \<equiv> json_all good num_ok"

lemma render_hd:
  assumes "printable v"
  shows "\<exists>c t. render q v = c # t \<and> \<not> is_ws c \<and> c \<noteq> CHR 0x5D \<and> c \<noteq> CHR 0x7D"
proof (cases v)
  case (JNum n)
  with assms num_ok_hd [of n] show ?thesis by (auto simp: is_ws_def is_digit_def)
qed (auto simp: is_ws_def)

lemma parse_elems_render:
  assumes "vs \<noteq> []" "\<forall>v \<in> set vs. printable v"
    and "\<And>v f r. v \<in> set vs \<Longrightarrow> stops r \<Longrightarrow> 2 * length (render q v) + 2 \<le> f \<Longrightarrow>
      parse_value f d (render q v @ r) = Some (map_json img v, r)"
    and "2 * length (commas (map (render q) vs)) + 3 \<le> f"
  shows "parse_elems f d (commas (map (render q) vs) @ CHR 0x5D # r) = Some (map (map_json img) vs, r)"
  using assms
proof (induction vs arbitrary: f)
  case Nil
  then show ?case by simp
next
  case (Cons v vs)
  from Cons.prems(4) obtain f' where f: "f = Suc f'" by (cases f) auto
  show ?case
  proof (cases "vs = []")
    case True
    with Cons.prems(4) f have "parse_value f' d (render q v @ CHR 0x5D # r) = Some (map_json img v, CHR 0x5D # r)"
      by (intro Cons.prems(3)) (auto simp: stops_def is_digit_def)
    with True f show ?thesis by (simp add: is_ws_def)
  next
    case False
    let ?rest = "commas (map (render q) vs) @ CHR 0x5D # r"
    from Cons.prems(4) f False have
      v: "parse_value f' d (render q v @ CHR '','' # ?rest) = Some (map_json img v, CHR '','' # ?rest)"
      by (intro Cons.prems(3)) (auto simp: stops_def is_digit_def commas_Cons)
    from Cons.prems f False have "parse_elems f' d ?rest = Some (map (map_json img) vs, r)"
      by (intro Cons.IH) (auto simp: commas_Cons)
    with v f False show ?thesis by (simp add: commas_Cons is_ws_def)
  qed
qed

lemma parse_members_render:
  assumes "ms \<noteq> []" "\<forall>(k, v) \<in> set ms. good k \<and> printable v"
    and "\<And>k v f r. (k, v) \<in> set ms \<Longrightarrow> stops r \<Longrightarrow> 2 * length (render q v) + 2 \<le> f \<Longrightarrow>
      parse_value f d (render q v @ r) = Some (map_json img v, r)"
    and "2 * length (commas (map (\<lambda>(k, v). member_text q (k, render q v)) ms)) + 3 \<le> f"
  shows "parse_members f d (commas (map (\<lambda>(k, v). member_text q (k, render q v)) ms) @ CHR 0x7D # r)
    = Some (map (map_prod img (map_json img)) ms, r)"
  using assms
proof (induction ms arbitrary: f)
  case Nil
  then show ?case by simp
next
  case (Cons m ms)
  obtain k v where m: "m = (k, v)" by (cases m)
  from Cons.prems(4) obtain f' where f: "f = Suc f'" by (cases f) auto
  from Cons.prems(2) m have k: "good k" by auto
  show ?case
  proof (cases "ms = []")
    case True
    with Cons.prems(4) f m have "parse_value f' d (render q v @ CHR 0x7D # r) = Some (map_json img v, CHR 0x7D # r)"
      by (intro Cons.prems(3) [of k]) (auto simp: stops_def is_digit_def member_text_def)
    with True f m show ?thesis by (simp add: is_ws_def member_text_def lex_q [OF k])
  next
    case False
    let ?rest = "commas (map (\<lambda>(k, v). member_text q (k, render q v)) ms) @ CHR 0x7D # r"
    from Cons.prems(4) f m False have
      v: "parse_value f' d (render q v @ CHR '','' # ?rest) = Some (map_json img v, CHR '','' # ?rest)"
      by (intro Cons.prems(3) [of k]) (auto simp: stops_def is_digit_def commas_Cons member_text_def)
    from Cons.prems f False have "parse_members f' d ?rest = Some (map (map_prod img (map_json img)) ms, r)"
      by (intro Cons.IH) (auto simp: commas_Cons)
    with v f m False show ?thesis by (simp add: commas_Cons is_ws_def member_text_def lex_q [OF k])
  qed
qed

lemma map_ne_hd_ws:
  assumes "printable v" shows "\<exists>c t. render q v @ r = c # t \<and> \<not> is_ws c \<and> c \<noteq> CHR 0x5D"
  using render_hd [OF assms] by auto

theorem parse_render:
  "printable v \<Longrightarrow> jdepth v + d \<le> max_depth \<Longrightarrow> stops r \<Longrightarrow> 2 * length (render q v) + 2 \<le> f \<Longrightarrow>
    parse_value f d (render q v @ r) = Some (map_json img v, r)"
proof (induction v arbitrary: d f r rule: json_induct)
  case Null
  then show ?case by (cases f) (auto simp: is_ws_def scan_word_def)
next
  case (Bool b)
  then show ?case by (cases f; cases b) (auto simp: is_ws_def scan_word_def)
next
  case (Num n)
  with num_ok_hd [of n] obtain c t where n: "n = c # t" and c: "c = CHR ''-'' \<or> is_digit c" by auto
  from c have "\<not> is_ws c" "c \<notin> set [CHR 0x7B, CHR 0x5B, c_quote, CHR ''n'', CHR ''t'', CHR ''f'']"
    by (auto simp: is_ws_def is_digit_def)
  with n Num num_ok_append [of n r] show ?case by (cases f) auto
next
  case (Str s)
  then show ?case by (cases f) (auto simp: is_ws_def lex_q)
next
  case (Arr vs)
  from Arr.prems(4) obtain f' where f: "f = Suc f'" by (cases f) auto
  show ?case
  proof (cases "vs = []")
    case True
    with f Arr.prems(2) show ?thesis by (simp add: is_ws_def)
  next
    case False
    then obtain v ws where vs: "vs = v # ws" by (cases vs) auto
    with Arr.prems(1) have "printable v" by auto
    then obtain c t where h: "commas (map (render q) vs) @ CHR 0x5D # r = c # t" "\<not> is_ws c" "c \<noteq> CHR 0x5D"
      using render_hd [of v] vs by (cases "ws = []") (auto simp: commas_Cons)
    have "parse_elems f' (Suc d) (commas (map (render q) vs) @ CHR 0x5D # r) = Some (map (map_json img) vs, r)"
    proof (rule parse_elems_render [OF False])
      fix v f r
      assume v: "v \<in> set vs" and *: "stops r" "2 * length (render q v) + 2 \<le> f"
      from jdepth_Arr [OF v] Arr.prems(2) have "jdepth v + Suc d \<le> max_depth" by linarith
      with Arr.IH [OF v] Arr.prems(1) v * show "parse_value f (Suc d) (render q v @ r) = Some (map_json img v, r)" by simp
    qed (use Arr.prems f in auto)
    with h f Arr.prems(2) show ?thesis by (simp add: is_ws_def)
  qed
next
  case (Obj ms)
  from Obj.prems(4) obtain f' where f: "f = Suc f'" by (cases f) auto
  show ?case
  proof (cases "ms = []")
    case True
    with f Obj.prems(2) show ?thesis by (simp add: is_ws_def)
  next
    case False
    then have "\<exists>t. commas (map (\<lambda>(k, v). member_text q (k, render q v)) ms) @ CHR 0x7D # r = c_quote # t"
      by (cases ms) (auto simp: commas_Cons member_text_def)
    then obtain t where
      h: "commas (map (\<lambda>(k, v). member_text q (k, render q v)) ms) @ CHR 0x7D # r = c_quote # t" ..
    have "parse_members f' (Suc d) (commas (map (\<lambda>(k, v). member_text q (k, render q v)) ms) @ CHR 0x7D # r)
      = Some (map (map_prod img (map_json img)) ms, r)"
    proof (rule parse_members_render [OF False])
      fix k v f r
      assume v: "(k, v) \<in> set ms" and *: "stops r" "2 * length (render q v) + 2 \<le> f"
      from jdepth_Obj [OF v] Obj.prems(2) have "jdepth v + Suc d \<le> max_depth" by linarith
      with Obj.IH [OF v] Obj.prems(1) v * show "parse_value f (Suc d) (render q v @ r) = Some (map_json img v, r)" by auto
    qed (use Obj.prems f in \<open>auto simp: render_Obj simp del: render.simps(6)\<close>)
    with h f Obj.prems(2) show ?thesis by (simp add: is_ws_def render_Obj del: render.simps(6))
  qed
qed

corollary parse_first_image:
  assumes "printable v" "jdepth v \<le> max_depth"
  shows "parse_first (render q v) = Some (map_json img v, [])"
  using parse_render [of v 0 "[]"] assms by (simp add: parse_first_def del: parse_value.simps)

end

text \<open>Escaping that loses nothing.\<close>

locale json_quoting =
  fixes q :: "bytes \<Rightarrow> bytes" and good :: "bytes \<Rightarrow> bool"
  assumes lex_exact: "good t \<Longrightarrow> lex_string (q t @ c_quote # r) = Some (t, r)"

sublocale json_quoting < lossy: lossy_quoting q good "\<lambda>t. t"
  by unfold_locales (rule lex_exact)

context json_quoting
begin

lemma parse_first_render:
  "json_all good num_ok v \<Longrightarrow> jdepth v \<le> max_depth \<Longrightarrow> parse_first (render q v) = Some (v, [])"
  using lossy.parse_first_image [of v] by (simp add: map_json_id)

end

subsection \<open>Escaping rune by rune\<close>

definition lexes :: "bytes \<Rightarrow> nat \<Rightarrow> bool" where
  "lexes e r \<longleftrightarrow> (\<forall>s. scan_string (e @ s) = map_option (apfst ((@) e)) (scan_string s)) \<and>
     (\<forall>t. unquote (e @ t) = map_option ((@) (encode_rune r)) (unquote t))"

lemma lexes_short:
  assumes "simple_escape e" "unescape e = Some (char_of r)" "r < 0x80"
  shows "lexes [c_bslash, e] r"
proof -
  from assms(1) have "e \<noteq> CHR ''u''" by (auto simp: simple_escape_def)
  with assms show ?thesis
    by (auto simp: lexes_def unquote.simps [of "_ # _"] encode_rune_ascii apfst_def map_prod_def
        split_def intro!: ext arg_cong [where f = "\<lambda>g. map_option g _"])
qed

lemma lexes_u:
  assumes "hex4 a b c d = Some r" "\<not> surrogate r"
  shows "lexes [c_bslash, CHR ''u'', a, b, c, d] r"
  using assms
  by (auto simp: lexes_def unquote.simps [of "_ # _"] getu4_def simple_escape_def
      apfst_def map_prod_def split_def intro!: ext arg_cong [where f = "\<lambda>g. map_option g _"])

lemma scan_string_plain:
  "\<forall>c \<in> set e. 0x20 \<le> code c \<and> c \<noteq> c_quote \<and> c \<noteq> c_bslash \<Longrightarrow>
    scan_string (e @ s) = map_option (apfst ((@) e)) (scan_string s)"
  by (induction e) (auto simp: option.map_comp comp_def apfst_def map_prod_def split_def not_less option.map_ident)


lemma lexes_literal:
  assumes "scalar r" "0x20 \<le> r" "r \<noteq> 0x22" "r \<noteq> 0x5C"
  shows "lexes (encode_rune r) r"
proof -
  have plain: "\<forall>c \<in> set (encode_rune r). 0x20 \<le> code c \<and> c \<noteq> c_quote \<and> c \<noteq> c_bslash"
  proof (cases "r < 0x80")
    case True
    with assms show ?thesis by (auto simp: encode_rune_ascii char_of_conv)
  next
    case False
    with encode_rune_high [of r] assms(1) show ?thesis by fastforce
  qed
  obtain c t where e: "encode_rune r = c # t" by (cases "encode_rune r") auto
  with plain have c: "c \<noteq> c_bslash" "c \<noteq> c_quote" "\<not> code c < 0x20" by auto
  have "unquote (encode_rune r @ s) = map_option ((@) (encode_rune r)) (unquote s)" for s
    using decode_encode_rune [OF assms(1), of s] c e
    by (subst unquote.simps) (simp add: encode_rune_scalar [OF assms(1)])
  with scan_string_plain [OF plain] show ?thesis by (simp add: lexes_def)
qed

text \<open>
  A string escaped rune by rune, each rune by a text that the lexer takes back to it, is a
  quoting in the sense above.
\<close>

lemma lex_escaped:
  assumes "\<And>r. scalar r \<Longrightarrow> lexes (esc r) r"
  shows "\<forall>r \<in> set rs. scalar r \<Longrightarrow>
    lex_string (concat (map esc rs) @ c_quote # t) = Some (utf8_enc rs, t)"
proof -
  assume rs: "\<forall>r \<in> set rs. scalar r"
  from rs have "scan_string (concat (map esc rs) @ c_quote # t) = Some (concat (map esc rs), t)"
    using assms by (induction rs) (auto simp: lexes_def)
  moreover from rs have "unquote (concat (map esc rs)) = Some (utf8_enc rs)"
    using assms by (induction rs) (auto simp: lexes_def unquote.simps [of "[]"])
  ultimately show ?thesis by (simp add: lex_string_def)
qed

lemma escaped_quoting:
  assumes "\<And>r. scalar r \<Longrightarrow> lexes (esc r) r" "\<And>s. valid_string s \<Longrightarrow> q s = concat (map esc (runes s))"
  shows "json_quoting q valid_string"
proof
  fix t r
  assume t: "valid_string t"
  with lex_escaped [OF assms(1), of "runes t" r] valid_string_runes [OF t] assms(2) [OF t]
  show "lex_string (q t @ c_quote # r) = Some (t, r)" by simp
qed

subsection \<open>The fuel is enough\<close>

lemma scan_string_shorter: "scan_string s = Some (a, r) \<Longrightarrow> length r < length s"
  by (induction s arbitrary: a rule: scan_string.induct)
    (force simp: apfst_def map_prod_def split: if_splits list.splits)+

lemma lex_string_shorter: "lex_string s = Some (a, r) \<Longrightarrow> length r < length s"
  by (auto simp: lex_string_def dest: scan_string_shorter split: option.splits)

lemma skip_ws_shorter: "length (skip_ws s) \<le> length s"
  by (simp add: skip_ws_def length_dropWhile_le)

lemma skip_ws_Cons_shorter: "skip_ws s = c # t \<Longrightarrow> length t < length s"
  using skip_ws_shorter [of s] by simp

lemma scan_int_shorter: "scan_int s = Some (a, r) \<Longrightarrow> length r < length s"
  by (auto simp: scan_int_def less_Suc_eq_le length_dropWhile_le split: list.splits if_splits)

lemma scan_digits1_shorter: "scan_digits1 s = Some (a, r) \<Longrightarrow> length r \<le> length s"
  by (auto simp: scan_digits1_def length_dropWhile_le split: if_splits)

lemma scan_frac_shorter: "scan_frac s = Some (a, r) \<Longrightarrow> length r \<le> length s"
  by (auto simp: scan_frac_def split: list.splits if_splits dest!: scan_digits1_shorter)

lemma scan_exp_shorter: "scan_exp s = Some (a, r) \<Longrightarrow> length r \<le> length s"
  by (auto simp: scan_exp_def split: list.splits if_splits dest!: scan_digits1_shorter)

lemma scan_number_shorter: "scan_number s = Some (a, r) \<Longrightarrow> length r < length s"
  by (auto simp: scan_number_def Let_def split: list.splits if_splits option.splits
      dest!: scan_int_shorter scan_frac_shorter scan_exp_shorter)

lemma scan_word_shorter: "w \<noteq> [] \<Longrightarrow> scan_word w v s = Some (x, r) \<Longrightarrow> length r < length s"
  by (auto simp: scan_word_def prefix_def split: if_splits)

lemmas scan_shorter = scan_word_shorter scan_number_shorter lex_string_shorter skip_ws_Cons_shorter

lemma parse_shorter:
  "parse_value f d s = Some (v, r) \<Longrightarrow> length r < length s"
  "parse_elems f d s = Some (vs, r) \<Longrightarrow> length r < length s"
  "parse_members f d s = Some (ms, r) \<Longrightarrow> length r < length s"
proof (induction f d s and f d s and f d s arbitrary: v r and vs r and ms r
    rule: parse_value_parse_elems_parse_members.induct)
  case (2 f d s)
  show ?case
  proof (cases "skip_ws s")
    case Nil
    with 2 show ?thesis by simp
  next
    case (Cons c t)
    have "length (c # t) \<le> length s" using skip_ws_shorter [of s] Cons by simp
    with 2 Cons show ?thesis
      by (auto split: if_splits list.splits dest!: scan_shorter scan_word_shorter [rotated])
        (meson less_trans)+
  qed
next
  case (4 f d s)
  then show ?case
    by (fastforce split: if_splits list.splits option.splits dest!: skip_ws_Cons_shorter)
next
  case (6 f d s)
  then show ?case
    by (fastforce split: if_splits list.splits option.splits dest!: skip_ws_Cons_shorter lex_string_shorter)
qed simp_all


lemma fuel_step:
  "2 * length s + 2 \<le> f \<Longrightarrow> parse_value (Suc f) d s = parse_value f d s"
  "2 * length s + 3 \<le> f \<Longrightarrow> parse_elems (Suc f) d s = parse_elems f d s"
  "2 * length s + 3 \<le> f \<Longrightarrow> parse_members (Suc f) d s = parse_members f d s"
proof (induction f arbitrary: d s)
  case 0
  { case 1 then show ?case by simp }
  { case 2 then show ?case by simp }
  { case 3 then show ?case by simp }
next
  case (Suc f)
  { case 1
    show ?case
    proof (cases "skip_ws s")
      case Nil
      then show ?thesis by simp
    next
      case (Cons c t)
      from skip_ws_Cons_shorter [OF Cons] 1 have "2 * length t + 3 \<le> f" by linarith
      with Suc.IH(2,3) have "parse_elems (Suc f) (Suc d) t = parse_elems f (Suc d) t"
        "parse_members (Suc f) (Suc d) t = parse_members f (Suc d) t" by blast+
      with Cons show ?thesis
        by (simp only: parse_value.simps(2) [of "Suc f"] parse_value.simps(2) [of f] list.case)
    qed }
  { case 2
    from 2 Suc.IH(1) [of s d] have v: "parse_value (Suc f) d s = parse_value f d s" by simp
    show ?case
    proof (cases "parse_value f d s")
      case (Some p)
      obtain w r where p: "p = (w, r)" by (cases p)
      have e: "parse_elems (Suc f) d r' = parse_elems f d r'" if "skip_ws r = c # r'" for c r'
      proof (rule Suc.IH(2))
        show "2 * length r' + 3 \<le> f"
          using parse_shorter(1) [OF Some [unfolded p]] skip_ws_Cons_shorter [OF that] 2 by linarith
      qed
      show ?thesis
        unfolding parse_elems.simps(2) [of "Suc f" d s] parse_elems.simps(2) [of f d s] v Some p
        by (simp only: option.case prod.case e cong: list.case_cong)
    qed (simp only: parse_elems.simps(2) v option.case) }
  { case 3
    have v: "parse_value (Suc f) d r' = parse_value f d r'" if "length r' \<le> length s" for r'
      using Suc.IH(1) [of r' d] 3 that by simp
    have m: "parse_members (Suc f) d q' = parse_members f d q'" if "length q' < length s" for q'
      using Suc.IH(3) [of q' d] 3 that by simp
    show ?case
      unfolding parse_members.simps(2) [of "Suc f" d s] parse_members.simps(2) [of f d s]
      by (intro list.case_cong option.case_cong prod.case_cong if_cong refl v arg_cong [where f = "map_option _"] m)
        (auto dest!: skip_ws_Cons_shorter lex_string_shorter parse_shorter(1)) }
qed

theorem enough_fuel: "2 * length s + 2 \<le> f \<Longrightarrow> parse_value f 0 s = parse_first s"
proof (induction f)
  case (Suc f)
  then show ?case
    by (cases "2 * length s + 2 \<le> f") (simp_all add: fuel_step(1) parse_first_def le_Suc_eq del: parse_value.simps)
qed simp

subsection \<open>Decoding into a map: the last member of a key wins\<close>

lemma json_all_mono:
  assumes "\<And>n. num n \<Longrightarrow> num' n" shows "json_all ok num v \<Longrightarrow> json_all ok num' v"
  using assms by (induction v rule: json_induct) auto

lemma foldr_max_set: "foldr max xs (0 :: nat) = Max (insert 0 (set xs))"
  by (induction xs) (auto simp: insert_commute)

text \<open>No object repeats a key: what decoding into a Go map gives.\<close>

primrec unique_keys :: "json \<Rightarrow> bool" where
  "unique_keys JNull = True"
| "unique_keys (JBool b) = True"
| "unique_keys (JNum n) = True"
| "unique_keys (JStr s) = True"
| "unique_keys (JArr vs) = list_all id (map unique_keys vs)"
| "unique_keys (JObj ms) = (distinct (map fst ms) \<and>
     list_all snd (map (map_prod (\<lambda>k. k) unique_keys) ms))"

lemma update_keys_distinct: "distinct (map fst (AList.update k v m)) \<longleftrightarrow> distinct (map fst m)"
  by (simp add: update_keys)

lemma put_all_keys: "distinct (map fst (fold (\<lambda>(k, v) m. AList.update k v m) ms acc)) \<longleftrightarrow> distinct (map fst acc)"
  by (induction ms arbitrary: acc) (simp_all add: split_def update_keys_distinct)

lemma put_all_distinct: "distinct (map fst (put_all ms))"
  unfolding put_all_def by (rule put_all_keys [THEN iffD2]) simp

lemma update_subset: "set (AList.update k v m) \<subseteq> insert (k, v) (set m)"
  by (induction m) auto

lemma put_all_subset: "set (put_all ms) \<subseteq> set ms"
proof -
  have "set (fold (\<lambda>(k, v) m. AList.update k v m) ms acc) \<subseteq> set ms \<union> set acc" for acc
    using update_subset by (induction ms arbitrary: acc) fastforce+
  from this [of "[]"] show ?thesis by (simp add: put_all_def)
qed

lemma update_new: "k \<notin> fst ` set m \<Longrightarrow> AList.update k v m = m @ [(k, v)]"
  by (induction m) auto

lemma put_all_id: "distinct (map fst ms) \<Longrightarrow> put_all ms = ms"
proof -
  have "distinct (map fst (acc @ ms)) \<Longrightarrow> fold (\<lambda>(k, v) m. AList.update k v m) ms acc = acc @ ms" for acc
    by (induction ms arbitrary: acc) (auto simp: update_new)
  from this [of "[]"] show "distinct (map fst ms) \<Longrightarrow> ?thesis" by (simp add: put_all_def)
qed

lemma collapse_unique: "unique_keys (collapse v)"
proof (induction v rule: json_induct)
  case (Obj ms)
  have "snd p" if "p \<in> map_prod (\<lambda>k. k) unique_keys ` set (put_all (map (map_prod (\<lambda>k. k) collapse) ms))" for p
    using that put_all_subset [of "map (map_prod (\<lambda>k. k) collapse) ms"] Obj by force
  then show ?case by (auto simp: put_all_distinct list_all_iff)
qed (auto simp: list_all_iff)

lemma collapse_id: "unique_keys v \<Longrightarrow> collapse v = v"
proof (induction v rule: json_induct)
  case (Arr vs)
  then show ?case by (auto simp: list_all_iff map_idI)
next
  case (Obj ms)
  then have "map (map_prod (\<lambda>k. k) collapse) ms = ms" by (force simp: list_all_iff intro!: map_idI)
  with Obj.prems show ?case by (simp add: put_all_id)
qed auto

subsection \<open>A value that has ended is not changed by what follows\<close>

lemma scan_string_ext: "scan_string s = Some (a, r) \<Longrightarrow> scan_string (s @ x) = Some (a, r @ x)"
proof (induction s arbitrary: a rule: scan_string.induct)
  case (2 c s)
  show ?case
  proof (cases "c = c_bslash")
    case True
    with 2 show ?thesis
      by (cases s) (auto simp: apfst_def map_prod_def split: if_split_asm list.split_asm)
  next
    case False
    with 2 show ?thesis by (auto simp: apfst_def map_prod_def split: if_split_asm)
  qed
qed simp

lemma lex_string_ext: "lex_string s = Some (a, r) \<Longrightarrow> lex_string (s @ x) = Some (a, r @ x)"
  by (auto simp: lex_string_def dest: scan_string_ext [where x = x] split: option.split_asm prod.split_asm)

lemma while_ext:
  "dropWhile P t \<noteq> [] \<Longrightarrow> takeWhile P (t @ x) = takeWhile P t \<and> dropWhile P (t @ x) = dropWhile P t @ x"
  by (induction t) auto

lemma scan_int_ext: "scan_int s = Some (a, r) \<Longrightarrow> r \<noteq> [] \<Longrightarrow> scan_int (s @ x) = Some (a, r @ x)"
  by (auto simp: scan_int_def while_ext split: list.splits if_splits)

lemma scan_digits1_ext: "scan_digits1 s = Some (a, r) \<Longrightarrow> r \<noteq> [] \<Longrightarrow> scan_digits1 (s @ x) = Some (a, r @ x)"
  by (auto simp: scan_digits1_def while_ext split: if_splits)

lemma scan_frac_ext: "scan_frac s = Some (a, r) \<Longrightarrow> r \<noteq> [] \<Longrightarrow> scan_frac (s @ x) = Some (a, r @ x)"
  by (auto simp: scan_frac_def dest: scan_digits1_ext [where x = x] split: list.splits if_splits)

lemma scan_exp_ext: "scan_exp s = Some (a, r) \<Longrightarrow> r \<noteq> [] \<Longrightarrow> scan_exp (s @ x) = Some (a, r @ x)"
  by (auto simp: scan_exp_def dest: scan_digits1_ext [where x = x] split: list.splits if_splits)

lemma scan_number_ext:
  assumes "scan_number s = Some (n, r)" "r \<noteq> []"
  shows "scan_number (s @ x) = Some (n, r @ x)"
proof -
  define s0 where "s0 = (case s of c # t \<Rightarrow> if c = CHR ''-'' then t else s | [] \<Rightarrow> s)"
  define sg where "sg = (case s of c # t \<Rightarrow> if c = CHR ''-'' then [c] else [] | [] \<Rightarrow> [])"
  from assms(1) obtain i s1 f s2 e where
    n: "scan_int s0 = Some (i, s1)" "scan_frac s1 = Some (f, s2)" "scan_exp s2 = Some (e, r)"
    and a: "n = sg @ i @ f @ e"
    by (auto simp: scan_number_def Let_def s0_def sg_def split: list.splits if_splits option.splits)
  from scan_exp_shorter [OF n(3)] assms(2) have s2: "s2 \<noteq> []" by auto
  from scan_frac_shorter [OF n(2)] s2 have s1: "s1 \<noteq> []" by auto
  from n(1) have "s \<noteq> []" by (auto simp: s0_def scan_int_def split: list.splits)
  with scan_int_ext [OF n(1) s1, of x] scan_frac_ext [OF n(2) s2, of x] scan_exp_ext [OF n(3) assms(2), of x] a
  show ?thesis by (cases s) (auto simp: scan_number_def s0_def sg_def split: if_splits)
qed

lemma scan_word_ext: "scan_word w v s = Some (u, r) \<Longrightarrow> scan_word w v (s @ x) = Some (u, r @ x)"
  by (auto simp: scan_word_def prefix_def split: if_splits)

lemma skip_ws_ext: "skip_ws s = c # t \<Longrightarrow> skip_ws (s @ x) = c # t @ x"
  by (induction s) (auto simp: skip_ws_def split: if_splits)

text \<open>\<open>ended v r\<close>: the value \<open>v\<close> is not a number that the end of the text may have cut short.\<close>

definition ended :: "json \<Rightarrow> bytes \<Rightarrow> bool" where
  "ended v r \<longleftrightarrow> (case v of JNum n \<Rightarrow> r \<noteq> [] | _ \<Rightarrow> True)"

lemma ended_more: "skip_ws r = c # t \<Longrightarrow> ended v r"
  by (cases v) (auto simp: ended_def)

lemma parse_ext:
  "parse_value f d s = Some (v, r) \<Longrightarrow> ended v r \<Longrightarrow> parse_value f d (s @ x) = Some (v, r @ x)"
  "parse_elems f d s = Some (vs, r) \<Longrightarrow> parse_elems f d (s @ x) = Some (vs, r @ x)"
  "parse_members f d s = Some (ms, r) \<Longrightarrow> parse_members f d (s @ x) = Some (ms, r @ x)"
proof (induction f d s and f d s and f d s arbitrary: v r and vs r and ms r
    rule: parse_value_parse_elems_parse_members.induct)
  case (2 f d s)
  show ?case
  proof (cases "skip_ws s")
    case Nil
    with 2 show ?thesis by simp
  next
    case (Cons c t)
    note e = skip_ws_ext [OF Cons, of x]
    show ?thesis
    proof (cases "c = CHR 0x7B \<or> c = CHR 0x5B")
      case True
      show ?thesis
      proof (cases "skip_ws t")
        case Nil
        with True Cons 2 show ?thesis by (auto split: if_splits)
      next
        case (Cons c' t')
        note e' = skip_ws_ext [OF Cons, of x]
        show ?thesis using True 2 Cons \<open>skip_ws s = c # t\<close> e e'
          by (auto split: if_splits)
      qed
    next
      case False
      with 2 Cons e show ?thesis
        by (auto simp: ended_def dest: lex_string_ext [where x = x] scan_word_ext [where x = x]
            scan_number_ext [where x = x] split: if_splits)
    qed
  qed
next
  case (4 f d s)
  then obtain w r1 where w: "parse_value f d s = Some (w, r1)" by (auto split: option.splits)
  with "4.prems" obtain c r2 where c: "skip_ws r1 = c # r2" by (auto split: list.splits)
  from "4.IH"(1) [OF w ended_more [OF c]] have "parse_value f d (s @ x) = Some (w, r1 @ x)" .
  with "4.prems" "4.IH"(2) [OF w refl c] w c skip_ws_ext [OF c, of x] show ?case
    by (auto split: if_splits)
next
  case (6 f d s)
  then obtain c t where c: "skip_ws s = c # t" "c = c_quote" by (auto split: list.splits if_splits)
  with "6.prems" obtain k r1 where k: "lex_string t = Some (k, r1)" by (auto split: option.splits)
  with "6.prems" c obtain c1 r2 where r1: "skip_ws r1 = c1 # r2" "c1 = CHR '':''" by (auto split: list.splits if_splits)
  with "6.prems" c k obtain w r3 where w: "parse_value f d r2 = Some (w, r3)" by (auto split: option.splits)
  with "6.prems" c k r1 obtain c3 r4 where r3: "skip_ws r3 = c3 # r4" by (auto split: list.splits)
  from "6.IH"(1) [OF c(1) _ k refl r1(1) _ w ended_more [OF r3]] c r1
  have v: "parse_value f d (r2 @ x) = Some (w, r3 @ x)" by simp
  have m: "parse_members f d (r4 @ x) = Some (ms', r @ x)" if "parse_members f d r4 = Some (ms', r)" "c3 = CHR '',''" for ms' r
    using "6.IH"(2) [OF c(1) _ k refl r1(1) _ w refl r3 that(2,1)] c r1 by simp
  from "6.prems" c k r1 w r3 v m skip_ws_ext [OF c(1), of x] lex_string_ext [OF k, of x]
    skip_ws_ext [OF r1(1), of x] skip_ws_ext [OF r3, of x]
  show ?case by (auto split: if_splits)
qed simp_all

text \<open>So no proper prefix of an object's text is a JSON text.\<close>

theorem object_prefix_free:
  assumes "parse_first s = Some (JObj ms, [])" "prefix p s" "p \<noteq> s"
  shows "parse_first p = None \<or> (\<exists>n r. parse_first p = Some (JNum n, r))"
proof (rule ccontr)
  assume "\<not> ?thesis"
  then obtain v r where v: "parse_first p = Some (v, r)" "ended v r"
    by (cases "parse_first p") (auto simp: ended_def split: json.splits)
  obtain x where x: "s = p @ x" "x \<noteq> []" using assms(2,3) by (auto simp: prefix_def)
  let ?f = "2 * length s + 2"
  have "parse_value ?f 0 p = Some (v, r)" using v(1) enough_fuel [of p ?f] x by simp
  from parse_ext(1) [OF this v(2), of x] assms(1) x show False
    by (simp add: parse_first_def del: parse_value.simps)
qed

end
