(* ===== verification/Canonical.thy ===== *)
theory Canonical
  imports JsonProps
begin

text \<open>
  \<^verbatim>\<open>internal/evidence/canonical.go\<close>: RFC 8785 under the integer-only restriction. A value is
  the tree \<open>json\<close> that \<open>decode_strict\<close> returns (numbers textual, a repeated key collapsed); an
  object is a Go map, so its members are sorted before anything is written and the first error of
  the sorted order is the one reported. \<open>norm\<close> is the tree a canonical text stands for, with
  members in UTF-16 order. The theorems: what the writer accepts (\<open>append_canonical_iff\<close>), the
  round trip, injectivity up to member order, and the path of \<open>CanonicalizeRecord\<close> through
  \<^verbatim>\<open>json.Marshal\<close>, whose own HTML escaping and replacement of invalid UTF-8 are modelled
  because the comment on the function warns about them.
\<close>

subsection \<open>The code\<close>

text \<open>\<open>ParseJson\<close> and \<open>TrailingData\<close> are the two errors of \<open>decodeStrict\<close>; the others carry what
  the messages of \<^verbatim>\<open>appendCanonicalNumber\<close> and \<^verbatim>\<open>appendCanonicalString\<close> quote.\<close>

datatype canon_error = ParseJson | TrailingData | NotInteger bytes | UnsafeInteger bytes | BadUtf8

definition max_safe_integer :: int where
  "max_safe_integer = 2 ^ 53 - 1"

definition integer_pattern :: "bytes \<Rightarrow> bool" where
  "integer_pattern s = (s = ''0'' \<or>
     (case s of [] \<Rightarrow> False
      | c # t \<Rightarrow>
        (case (if c = CHR ''-'' then t else s) of [] \<Rightarrow> False
         | d # ds \<Rightarrow> is_digit d \<and> d \<noteq> CHR ''0'' \<and> list_all is_digit ds)))"

definition append_canonical_number :: "bytes \<Rightarrow> canon_error + bytes" where
  "append_canonical_number s =
     (if \<not> integer_pattern s then Inl (NotInteger s)
      else (case parse_int64 s of None \<Rightarrow> Inl (UnsafeInteger s)
        | Some i \<Rightarrow> if i > max_safe_integer \<or> i < - max_safe_integer then Inl (UnsafeInteger s)
            else Inr s))"

definition escape_rune :: "nat \<Rightarrow> bytes" where
  "escape_rune r =
     (if r = code c_quote then [c_bslash, c_quote]
      else if r = code c_bslash then [c_bslash, c_bslash]
      else if r = 8 then c_bslash # ''b''
      else if r = 9 then c_bslash # ''t''
      else if r = 10 then c_bslash # ''n''
      else if r = 12 then c_bslash # ''f''
      else if r = 13 then c_bslash # ''r''
      else if r < 0x20 then c_bslash # ''u00'' @ [hex_char (r div 16), hex_char (r mod 16)]
      else encode_rune r)"

definition quote_runes :: "bytes \<Rightarrow> bytes" where
  "quote_runes s = concat (map escape_rune (runes s))"

definition append_canonical_string :: "bytes \<Rightarrow> canon_error + bytes" where
  "append_canonical_string s =
     (if \<not> valid_string s then Inl BadUtf8 else Inr (c_quote # quote_runes s @ [c_quote]))"

definition canonical_member :: "bytes \<times> (canon_error + bytes) \<Rightarrow> canon_error + bytes" where
  "canonical_member p = andthen (append_canonical_string (fst p)) (\<lambda>k.
     andthen (snd p) (\<lambda>v. Inr (k @ CHR '':'' # v)))"

primrec append_canonical :: "json \<Rightarrow> canon_error + bytes" where
  "append_canonical JNull = Inr ''null''"
| "append_canonical (JBool b) = Inr (if b then ''true'' else ''false'')"
| "append_canonical (JNum n) = append_canonical_number n"
| "append_canonical (JStr s) = append_canonical_string s"
| "append_canonical (JArr vs) =
     andthen (sequence (map append_canonical vs)) (\<lambda>es. Inr (CHR 0x5B # commas es @ [CHR 0x5D]))"
| "append_canonical (JObj ms) =
     andthen (sequence (map canonical_member
       (isort (by_key less_utf16) (map (map_prod (\<lambda>k. k) append_canonical) ms))))
     (\<lambda>es. Inr (CHR 0x7B # commas es @ [CHR 0x7D]))"

definition decode_strict :: "bytes \<Rightarrow> canon_error + json" where
  "decode_strict s = (case decode_first s of None \<Rightarrow> Inl ParseJson
     | Some (v, more) \<Rightarrow> if more then Inl TrailingData else Inr (collapse v))"

subsection \<open>Facts\<close>

definition safe_int :: "bytes \<Rightarrow> bool" where
  "safe_int s \<longleftrightarrow> is_ok (append_canonical_number s)"

lemma canonical_number_Inr: "append_canonical_number s = Inr t \<longleftrightarrow> safe_int s \<and> t = s"
  by (auto simp: append_canonical_number_def safe_int_def split: option.splits)

lemma integer_patternE:
  assumes "integer_pattern s"
  obtains "s = ''0''"
    | d ds where "s = d # ds" "is_digit d" "d \<noteq> CHR ''0''" "list_all is_digit ds"
    | d ds where "s = CHR ''-'' # d # ds" "is_digit d" "d \<noteq> CHR ''0''" "list_all is_digit ds"
  using assms by (auto simp: integer_pattern_def split: list.splits if_splits)

lemma num_ok_digits:
  assumes "is_digit d" "d \<noteq> CHR ''0''" "list_all is_digit ds"
  shows "num_ok (d # ds)" "num_ok (CHR ''-'' # d # ds)"
proof -
  from assms(1) have "d \<noteq> CHR ''-''" by (auto simp: is_digit_def)
  with assms show "num_ok (d # ds)" "num_ok (CHR ''-'' # d # ds)"
    by (simp_all add: num_ok_def scan_number_def scan_int_def scan_frac_def scan_exp_def takeWhile_all)
qed

lemma num_ok_zero: "num_ok ''0''"
  by (simp add: num_ok_def scan_number_def scan_int_def scan_frac_def scan_exp_def)

lemma integer_pattern_num: "integer_pattern s \<Longrightarrow> num_ok s"
  by (erule integer_patternE) (simp_all add: num_ok_digits num_ok_zero)

lemma safe_int_num: "safe_int s \<Longrightarrow> num_ok s"
  by (auto simp: safe_int_def append_canonical_number_def intro: integer_pattern_num split: if_splits)

lemma safe_int_show:
  fixes i :: int
  assumes "\<bar>i\<bar> \<le> max_safe_integer" shows "safe_int (show_int i)"
proof -
  have "integer_pattern (show_int i)"
  proof (cases "i = 0")
    case True
    then show ?thesis by (simp add: show_int_def show_nat.simps digit_char_def integer_pattern_def char_of_conv)
  next
    case False
    define n where "n = nat \<bar>i\<bar>"
    have "0 < n" using False by (simp add: n_def)
    from show_nat_hd [OF this] show_nat_digits [of n] obtain c ds where
      n: "show_nat n = c # ds" "is_digit c" "c \<noteq> CHR ''0''" "list_all is_digit ds" by auto
    then have "c \<noteq> CHR ''-''" by (auto simp: is_digit_def)
    with n False show ?thesis
      by (auto simp: show_int_def n_def integer_pattern_def split: if_splits)
  qed
  with assms parse_show_int [of i] show ?thesis
    by (auto simp: safe_int_def append_canonical_number_def max_safe_integer_def)
qed

lemma lexes_hex2:
  assumes "r < 0x100"
  shows "lexes (c_bslash # ''u00'' @ [hex_char (r div 16), hex_char (r mod 16)]) r"
proof -
  have "hex_val (CHR ''0'') = Some 0" by (simp add: hex_val_def)
  with assms have "hex4 (CHR ''0'') (CHR ''0'') (hex_char (r div 16)) (hex_char (r mod 16)) = Some r"
    by (simp add: hex4_def hex_val_char)
  with assms lexes_u [OF this] show ?thesis by (simp add: surrogate_def)
qed

lemma lexes_escape: assumes "scalar r" shows "lexes (escape_rune r) r"
proof -
  consider "r = 0x22" | "r = 0x5C" | "r = 8" | "r = 9" | "r = 10" | "r = 12" | "r = 13"
    | "r < 0x20" "r \<notin> {8, 9, 10, 12, 13}" | "0x20 \<le> r" "r \<noteq> 0x22" "r \<noteq> 0x5C"
    by fastforce
  then show ?thesis
  proof cases
    case 8
    with lexes_hex2 [of r] show ?thesis by (simp add: escape_rune_def)
  next
    case 9
    with assms lexes_literal [of r] show ?thesis by (simp add: escape_rune_def)
  qed (auto simp: escape_rune_def simple_escape_def unescape_def conv_char_of intro!: lexes_short)
qed

interpretation cq: json_quoting quote_runes valid_string
  by (rule escaped_quoting [of escape_rune]) (auto simp: lexes_escape quote_runes_def)


subsection \<open>The normal form a canonical text stands for\<close>

primrec norm :: "json \<Rightarrow> json" where
  "norm JNull = JNull"
| "norm (JBool b) = JBool b"
| "norm (JNum n) = JNum n"
| "norm (JStr s) = JStr s"
| "norm (JArr vs) = JArr (map norm vs)"
| "norm (JObj ms) = JObj (isort (by_key less_utf16) (map (map_prod (\<lambda>k. k) norm) ms))"

abbreviation canonical_ok :: "json \<Rightarrow> bool" where
  "canonical_ok \<equiv> json_all valid_string safe_int"

lemma append_canonical_norm:
  "canonical_ok v \<Longrightarrow> append_canonical v = Inr (render quote_runes (norm v))"
proof (induction v rule: json_induct)
  case (Arr vs)
  then have "map append_canonical vs = map (\<lambda>v. Inr (render quote_runes (norm v))) vs" by auto
  then show ?case
    by (simp only: append_canonical.simps sequence_map_Inr andthen.simps norm.simps render.simps map_map comp_def)
next
  case (Obj ms)
  let ?t = "\<lambda>v. render quote_runes (norm v)"
  let ?ms = "isort (by_key less_utf16) (map (map_prod (\<lambda>k. k) ?t) ms)"
  from Obj have 0: "map (map_prod (\<lambda>k. k) append_canonical) ms = map (map_prod (\<lambda>k. k) Inr) (map (map_prod (\<lambda>k. k) ?t) ms)"
    by auto
  have 1: "isort (by_key less_utf16) (map (map_prod (\<lambda>k. k) append_canonical) ms)
    = map (map_prod (\<lambda>k. k) Inr) ?ms"
    unfolding 0 by (rule map_isort_key [symmetric]) simp
  have "\<forall>p \<in> set ?ms. valid_string (fst p)" using Obj.prems by auto
  then have 2: "map canonical_member (map (map_prod (\<lambda>k. k) Inr) ?ms) = map (\<lambda>p. Inr (member_text quote_runes p)) ?ms"
    by (auto simp: canonical_member_def append_canonical_string_def member_text_def)
  have 3: "map (map_prod (\<lambda>k. k) (render quote_runes)) (isort (by_key less_utf16) (map (map_prod (\<lambda>k. k) norm) ms)) = ?ms"
    by (simp add: map_isort_key comp_def map_prod_def split_def)
  show ?case by (simp only: append_canonical.simps 1 2 norm.simps render.simps 3 sequence_map_Inr andthen.simps)
qed (auto simp: canonical_number_Inr append_canonical_string_def)

lemma append_canonical_ok: "append_canonical v = Inr t \<Longrightarrow> canonical_ok v"
proof (induction v arbitrary: t rule: json_induct)
  case (Arr vs)
  then obtain es where "map append_canonical vs = map Inr es" by (auto simp: andthen_Inr sequence_Inr)
  then have "\<forall>v \<in> set vs. \<exists>e. append_canonical v = Inr e"
    by (metis (no_types, opaque_lifting) ex_map_conv in_set_conv_nth length_map nth_map)
  with Arr.IH show ?case by auto
next
  case (Obj ms)
  let ?ms = "isort (by_key less_utf16) (map (map_prod (\<lambda>k. k) append_canonical) ms)"
  from Obj.prems have "\<forall>r \<in> set (map canonical_member ?ms). is_ok r"
    using sequence_ok by (fastforce simp: andthen_Inr)
  then have "\<forall>p \<in> set (map (map_prod (\<lambda>k. k) append_canonical) ms). is_ok (canonical_member p)" by simp
  then have "\<forall>(k, v) \<in> set ms. is_ok (canonical_member (k, append_canonical v))" by force
  then have "\<forall>(k, v) \<in> set ms. valid_string k \<and> (\<exists>e. append_canonical v = Inr e)"
    by (auto simp: canonical_member_def append_canonical_string_def is_ok_iff andthen_Inr split: if_splits)
  with Obj.IH show ?case by fastforce
qed (auto simp: canonical_number_Inr append_canonical_string_def split: if_splits)

lemma append_canonical_iff: "append_canonical v = Inr t \<longleftrightarrow> canonical_ok v \<and> t = render quote_runes (norm v)"
  using append_canonical_norm append_canonical_ok by force


lemma json_all_norm [simp]: "json_all ok num (norm v) = json_all ok num v"
  by (induction v rule: json_induct) force+

lemma jdepth_norm [simp]: "jdepth (norm v) = jdepth v"
proof (induction v rule: json_induct)
  case (Arr vs)
  then have "(\<lambda>v. jdepth (norm v)) ` set vs = jdepth ` set vs" by (intro image_cong) auto
  then show ?case by (simp add: foldr_max_set image_image)
next
  case (Obj ms)
  have "(\<lambda>p. jdepth (norm (snd p))) ` set ms = (\<lambda>p. jdepth (snd p)) ` set ms"
    using Obj by (intro image_cong refl) (metis prod.collapse)
  then show ?case by (simp add: foldr_max_set image_image)
qed auto

lemma unique_keys_norm [simp]: "unique_keys (norm v) = unique_keys v"
proof (induction v rule: json_induct)
  case (Obj ms)
  have "distinct (map fst (isort (by_key less_utf16) ps)) = distinct (map fst ps)" for ps :: "(bytes \<times> json) list"
    by (metis mset_isort mset_map mset_eq_imp_distinct_iff)
  with Obj show ?case by (force simp: list_all_iff comp_def)
qed (auto simp: list_all_iff)

lemma norm_norm [simp]: "unique_keys v \<Longrightarrow> json_all valid_string num v \<Longrightarrow> norm (norm v) = norm v"
proof (induction v rule: json_induct)
  case (Arr vs)
  then show ?case by (simp add: list_all_iff)
next
  case (Obj ms)
  let ?ms = "map (map_prod (\<lambda>k. k) norm) ms"
  have 1: "map (map_prod (\<lambda>k. k) norm) ?ms = ?ms" using Obj by (force simp: list_all_iff)
  have "sorted_wrt less_utf16 (map fst (isort (by_key less_utf16) ?ms))"
    using Obj.prems by (intro u16.isort_key_sorted) (auto simp: comp_def)
  then have "isort (by_key less_utf16) (isort (by_key less_utf16) ?ms) = isort (by_key less_utf16) ?ms"
    by (rule u16.isort_key_id)
  with 1 show ?case by (simp add: map_isort_key del: map_map)
qed auto

lemma decode_rendered:
  assumes "canonical_ok v" "unique_keys v" "jdepth v \<le> max_depth"
  shows "decode_strict (render quote_runes (norm v)) = Inr (norm v)"
proof -
  from assms(1) have "json_all valid_string num_ok (norm v)"
    using json_all_mono [of safe_int num_ok, OF safe_int_num] by auto
  with assms(3) have "parse_first (render quote_runes (norm v)) = Some (norm v, [])"
    by (simp add: cq.parse_first_render)
  with assms(2) show ?thesis by (simp add: decode_strict_def decode_first_def collapse_id)
qed

text \<open>
  C9: canonical round trip. Whatever the canonical writer produces for a decoded value (no
  repeated keys, nesting within the decoder's limit) decodes strictly to the same value with its
  members in canonical order, with nothing left over.
\<close>
theorem canonical_roundtrip:
  assumes "append_canonical v = Inr t" "unique_keys v" "jdepth v \<le> max_depth"
  shows "decode_strict t = Inr (norm v)"
  using assms decode_rendered [of v] by (simp add: append_canonical_iff)

text \<open>
  The canonical form is injective: two values with the same canonical bytes are the same
  value up to the order of object members, so a hash or a signature over the bytes commits to
  the value.
\<close>
theorem canonical_injective:
  assumes "append_canonical v = Inr t" "append_canonical w = Inr t"
    and "unique_keys v" "unique_keys w" "jdepth v \<le> max_depth" "jdepth w \<le> max_depth"
  shows "norm v = norm w"
proof -
  from assms(1,2) have v: "canonical_ok v" "t = render quote_runes (norm v)"
    and w: "canonical_ok w" "t = render quote_runes (norm w)"
    by (simp_all add: append_canonical_iff)
  from decode_rendered [OF v(1) assms(3,5)] decode_rendered [OF w(1) assms(4,6)] v(2) w(2)
  show ?thesis by simp
qed

lemma canonical_idem:
  assumes "append_canonical v = Inr t" "unique_keys v"
  shows "append_canonical (norm v) = Inr t"
  using assms norm_norm [of v safe_int] by (simp add: append_canonical_iff)

text \<open>
  the canonical form does not see the order in which a map is enumerated: two values that
  agree after sorting have the same canonical result, or both have none.
\<close>
theorem canonical_order_free:
  assumes "norm v = norm w"
  shows "append_canonical v = Inr t \<longleftrightarrow> append_canonical w = Inr t"
  using assms json_all_norm [of valid_string safe_int v] json_all_norm [of valid_string safe_int w]
  by (simp add: append_canonical_iff)

subsection \<open>\<^verbatim>\<open>json.Marshal\<close> and the path of a record\<close>

text \<open>The escapes of \<^verbatim>\<open>json.Marshal\<close>: the HTML characters, U+2028 and U+2029 too.\<close>

definition marshal_rune :: "nat \<Rightarrow> bytes" where
  "marshal_rune r =
     (if r \<in> {0x3C, 0x3E, 0x26}
      then c_bslash # ''u00'' @ [hex_char (r div 16), hex_char (r mod 16)]
      else if r = 0x2028 then c_bslash # ''u2028'' else if r = 0x2029 then c_bslash # ''u2029''
      else escape_rune r)"

text \<open>A byte that is not part of a valid rune becomes the text of U+FFFD.\<close>

function marshal_text :: "bytes \<Rightarrow> bytes" where
  "marshal_text s = (if s = [] then []
     else (if bad_rune (decode_rune s) then c_bslash # ''ufffd'' else marshal_rune (fst (decode_rune s)))
       @ marshal_text (drop (snd (decode_rune s)) s))"
  by pat_completeness auto
termination
  by (relation "measure length") (auto simp: drop_rune_shorter)

declare marshal_text.simps [simp del]

definition marshal :: "json \<Rightarrow> bytes" where
  "marshal v = render marshal_text v"

definition canonicalize_marshalled :: "json \<Rightarrow> canon_error + bytes" where
  "canonicalize_marshalled v = andthen (decode_strict (marshal v)) append_canonical"

lemma lexes_marshal_rune:
  assumes "scalar r"
  shows "lexes (marshal_rune r) r"
proof -
  have h: "hex4 (CHR ''2'') (CHR ''0'') (CHR ''2'') (CHR ''8'') = Some 0x2028"
    "hex4 (CHR ''2'') (CHR ''0'') (CHR ''2'') (CHR ''9'') = Some 0x2029"
    by (simp_all add: hex4_def hex_val_def)
  have "lexes (c_bslash # ''u2028'') 0x2028" "lexes (c_bslash # ''u2029'') 0x2029"
    using lexes_u [OF h(1)] lexes_u [OF h(2)] by (simp_all add: surrogate_def)
  with assms lexes_escape lexes_hex2 [of r] show ?thesis by (auto simp: marshal_rune_def)
qed

text \<open>\<open>sane s\<close>: the text a Go string becomes, every bad byte replaced by U+FFFD.\<close>

definition sane :: "bytes \<Rightarrow> bytes" where
  "sane s = utf8_enc (runes s)"

lemma sane_valid [simp]: "valid_string (sane s)"
  by (simp add: sane_def valid_utf8_enc runes_all_scalar)

lemma sane_id [simp]: "valid_string s \<Longrightarrow> sane s = s"
  by (simp add: sane_def valid_string_runes)

lemma lexes_bad: "lexes (c_bslash # ''ufffd'') rune_error"
proof -
  have "hex4 (CHR ''f'') (CHR ''f'') (CHR ''f'') (CHR ''d'') = Some rune_error"
    by (simp add: hex4_def hex_val_def rune_error_def)
  from lexes_u [OF this] show ?thesis by (simp add: surrogate_def rune_error_def)
qed

lemma scalar_decode: "s \<noteq> [] \<Longrightarrow> scalar (fst (decode_rune s))"
  using runes_all_scalar [of s] runes.simps [of s] by (metis list.set_intros(1))

lemma lex_marshal_text: "lex_string (marshal_text s @ c_quote # r) = Some (sane s, r)"
proof -
  have "scan_string (marshal_text s @ c_quote # r) = Some (marshal_text s, r) \<and>
    unquote (marshal_text s) = Some (sane s)"
  proof (induction s rule: marshal_text.induct)
    case (1 s)
    show ?case
    proof (cases "s = []")
      case True
      then show ?thesis by (simp add: marshal_text.simps [of "[]"] unquote.simps [of "[]"] sane_def)
    next
      case False
      define e where "e = (if bad_rune (decode_rune s) then c_bslash # ''ufffd''
        else marshal_rune (fst (decode_rune s)))"
      have "lexes e (fst (decode_rune s))"
        using lexes_marshal_rune [OF scalar_decode [OF False]] lexes_bad
        by (auto simp: e_def bad_rune_def)
      moreover have "marshal_text s = e @ marshal_text (drop (snd (decode_rune s)) s)"
        using False by (subst marshal_text.simps) (simp add: e_def)
      moreover have "sane s = encode_rune (fst (decode_rune s)) @ sane (drop (snd (decode_rune s)) s)"
        using False by (simp add: sane_def runes.simps [of s])
      ultimately show ?thesis using 1 [OF False] by (simp add: lexes_def)
    qed
  qed
  then show ?thesis by (simp add: lex_string_def)
qed

interpretation mq: json_quoting marshal_text valid_string
  by unfold_locales (simp add: lex_marshal_text)

text \<open>Of any string, valid or not, what was sound is read back.\<close>

interpretation lossy_mq: lossy_quoting marshal_text "\<lambda>t. True" sane
  by unfold_locales (rule lex_marshal_text)

theorem canonicalize_marshalled_eq:
  assumes "json_all valid_string num_ok v" "unique_keys v" "jdepth v \<le> max_depth"
  shows "canonicalize_marshalled v = append_canonical v"
proof -
  from assms(1,3) have "parse_first (marshal v) = Some (v, [])"
    by (simp add: mq.parse_first_render marshal_def)
  with assms(2) show ?thesis
    by (simp add: canonicalize_marshalled_def decode_strict_def decode_first_def collapse_id)
qed

lemma num_ok_show_int: "num_ok (show_int i)"
proof (cases "i = 0")
  case True
  then have "show_int i = ''0''"
    by (simp add: show_int_def show_nat.simps digit_char_def char_of_conv)
  then show ?thesis by (simp add: num_ok_zero)
next
  case False
  define n where "n = nat \<bar>i\<bar>"
  have "0 < n" using False by (simp add: n_def)
  from show_nat_hd [OF this] show_nat_digits [of n] obtain c ds where
    "show_nat n = c # ds" "is_digit c" "c \<noteq> CHR ''0''" "list_all is_digit ds" by auto
  with num_ok_digits [of c ds] False show ?thesis by (auto simp: show_int_def n_def split: if_splits)
qed

lemma safe_int_show_iff: "safe_int (show_int i) \<longleftrightarrow> \<bar>i\<bar> \<le> max_safe_integer"
proof
  assume s: "safe_int (show_int i)"
  then obtain k where k: "parse_int64 (show_int i) = Some k" "\<bar>k\<bar> \<le> max_safe_integer"
    by (auto simp: safe_int_def append_canonical_number_def split: option.splits if_splits)
  define n where "n = nat \<bar>i\<bar>"
  have d: "list_all is_digit (show_nat n)" "show_nat n \<noteq> []" by (simp_all add: show_nat_digits)
  have "k = i"
  proof (cases "i < 0")
    case True
    with k(1) parse_neg_digits [OF d] show ?thesis by (auto simp: show_int_def n_def split: if_splits)
  next
    case False
    with k(1) parse_digits [OF d] show ?thesis by (auto simp: show_int_def n_def split: if_splits)
  qed
  with k(2) show "\<bar>i\<bar> \<le> max_safe_integer" by simp
qed (rule safe_int_show)

end
