(* ===== verification/Evidence.thy ===== *)
theory Evidence
  imports Canonical
begin

text \<open>
  \<^verbatim>\<open>internal/evidence/{evidence,errorcodes,keys,digest,anchor,truncate}.go\<close>: the constants of the
  log format, hash references, error codes, keys and key identifiers, the written form of a chain
  head, and the byte-capped truncation of a line. SHA-256 and Ed25519 are a parameter
  \<open>crypto\<close>; \<open>crypto_ok\<close> states what their documentation promises (sizes, and that a signature by
  a seed's key verifies under that seed's public key). Nothing is assumed about collisions:
  theorems that rest on collision resistance give the colliding pair as an alternative.
\<close>

subsection \<open>The primitives\<close>

record crypto =
  sha256 :: "bytes \<Rightarrow> bytes"
  ed_public :: "bytes \<Rightarrow> bytes"
  ed_sign :: "bytes \<Rightarrow> bytes \<Rightarrow> bytes"
  ed_verify :: "bytes \<Rightarrow> bytes \<Rightarrow> bytes \<Rightarrow> bool"

definition crypto_ok :: "crypto \<Rightarrow> bool" where
  "crypto_ok C \<longleftrightarrow> (\<forall>m. length (sha256 C m) = 32) \<and>
     (\<forall>seed m. length (ed_sign C seed m) = 64 \<and> ed_verify C (ed_public C seed) m (ed_sign C seed m))"

lemma crypto_okD:
  assumes "crypto_ok C"
  shows "length (sha256 C m) = 32" "length (ed_sign C seed m) = 64"
    "ed_verify C (ed_public C seed) m (ed_sign C seed m)"
  using assms by (auto simp: crypto_ok_def)

subsection \<open>Constants of the format\<close>

definition schema_id :: bytes where "schema_id = ''probavi-evidence/3''"
definition schema_id_v0 :: bytes where "schema_id_v0 = ''probavi-evidence/0''"
definition schema_id_v1 :: bytes where "schema_id_v1 = ''probavi-evidence/1''"
definition schema_id_v2 :: bytes where "schema_id_v2 = ''probavi-evidence/2''"

definition schema_ids :: "bytes list" where
  "schema_ids = [schema_id_v0, schema_id_v1, schema_id_v2, schema_id]"

definition supported_schema :: "bytes \<Rightarrow> bool" where
  "supported_schema s = (s \<in> set schema_ids)"

definition hash_prefix :: bytes where "hash_prefix = ''sha256:''"

definition genesis_prev_hash :: bytes where
  "genesis_prev_hash = hash_prefix @ replicate 64 (CHR ''0'')"

definition max_record_bytes :: nat where "max_record_bytes = 64 * 1024"
definition max_detail_len :: nat where "max_detail_len = 256"
definition max_error_message_len :: nat where "max_error_message_len = 512"

definition line_hash :: "crypto \<Rightarrow> bytes \<Rightarrow> bytes" where
  "line_hash C line = hash_prefix @ hex_encode (sha256 C line)"

text \<open>\<^verbatim>\<open>FileDigest\<close>; the argument is what \<^verbatim>\<open>os.ReadFile\<close> gave.\<close>

definition file_digest :: "crypto \<Rightarrow> bytes option \<Rightarrow> bytes option" where
  "file_digest C content = (case content of None \<Rightarrow> None
     | Some data \<Rightarrow> Some (hash_prefix @ hex_encode (sha256 C data)))"

definition sha256_ref :: "bytes \<Rightarrow> bool" where
  "sha256_ref s = (prefix hash_prefix s \<and> length s = 71 \<and> list_all is_lower_hex (drop 7 s))"

definition host_id_ok :: "bytes \<Rightarrow> bool" where
  "host_id_ok s = (length s = 16 \<and> list_all is_lower_hex s)"

subsection \<open>Error codes\<close>

definition error_codes :: "bytes list" where
  "error_codes = [''invalid_request'', ''unsupported_protocol'', ''unsupported_source'',
     ''source_not_found'', ''source_unreadable'', ''source_corrupt'', ''restore_failed'',
     ''engine_not_ready'', ''sandbox_error'', ''timeout'', ''cancelled'', ''adapter_crash'',
     ''internal'', ''check_failed'']"

definition is_error_code :: "bytes \<Rightarrow> bool" where
  "is_error_code c = (c \<in> set error_codes)"

subsection \<open>Keys\<close>

definition public_key_id :: "crypto \<Rightarrow> bytes \<Rightarrow> bytes" where
  "public_key_id C pub = take 16 (hex_encode (sha256 C pub))"

record signer =
  seed :: bytes
  key_id :: bytes

definition new_signer :: "crypto \<Rightarrow> bytes \<Rightarrow> signer" where
  "new_signer C s = \<lparr> seed = s, key_id = public_key_id C (ed_public C s) \<rparr>"

type_synonym keyring = "bytes \<rightharpoonup> bytes"

definition new_keyring :: "crypto \<Rightarrow> bytes list \<Rightarrow> keyring" where
  "new_keyring C pubs = fold (\<lambda>pub kr. kr(public_key_id C pub \<mapsto> pub)) pubs Map.empty"

definition is_upper :: "char \<Rightarrow> bool" where
  "is_upper c \<longleftrightarrow> 65 \<le> code c \<and> code c \<le> 90"

text \<open>
  \<^verbatim>\<open>strings.ToLower\<close> leaves a string alone when it has no upper-case ASCII letter and no
  other rune with a lower case; hexadecimal decoding refuses every other rune anyway, so only the
  ASCII letters decide.
\<close>

definition trim_newline :: "bytes \<Rightarrow> bytes" where
  "trim_newline s = (if s \<noteq> [] \<and> last s = CHR 0x0A then butlast s else s)"

definition decode_key_hex :: "bytes \<Rightarrow> nat \<Rightarrow> bytes option" where
  "decode_key_hex raw want =
     (let s = trim_newline raw in
      if \<exists>c \<in> set s. is_upper c then None
      else case hex_decode s of None \<Rightarrow> None | Some key \<Rightarrow> if length key \<noteq> want then None else Some key)"

text \<open>A key file as the descriptor shows it: the mode bits, whether it is regular, its bytes.\<close>

record key_file =
  regular :: bool
  perm :: nat
  contents :: bytes

datatype key_error = KeyMissing | KeyNotRegular | KeyPermissions | KeyFormat

definition max_key_file_bytes :: nat where "max_key_file_bytes = 4 * 1024"

definition load_signer :: "crypto \<Rightarrow> key_file option \<Rightarrow> key_error + signer" where
  "load_signer C f = (case f of None \<Rightarrow> Inl KeyMissing
     | Some f \<Rightarrow>
        if \<not> regular f then Inl KeyNotRegular
        else if perm f mod 64 \<noteq> 0 then Inl KeyPermissions
        else (case decode_key_hex (take max_key_file_bytes (contents f)) 32 of
                None \<Rightarrow> Inl KeyFormat | Some s \<Rightarrow> Inr (new_signer C s)))"

definition load_public_key :: "key_file option \<Rightarrow> key_error + bytes" where
  "load_public_key f = (case f of None \<Rightarrow> Inl KeyMissing
     | Some f \<Rightarrow> (case decode_key_hex (contents f) 32 of None \<Rightarrow> Inl KeyFormat | Some k \<Rightarrow> Inr k))"

subsection \<open>Chain heads and anchors\<close>

record head =
  hd_seq :: int
  hd_hash :: bytes

datatype anchor_error = AnchorNoColon | AnchorSeqForm | AnchorSeqRange | AnchorHashForm | AnchorHashDigits

definition head_string :: "head \<Rightarrow> bytes" where
  "head_string h = show_int (hd_seq h) @ CHR '':'' # hd_hash h"

definition parse_anchor_seq :: "bytes \<Rightarrow> anchor_error + int" where
  "parse_anchor_seq s =
     (if s = [] \<or> (1 < length s \<and> s ! 0 = CHR ''0'') then Inl AnchorSeqForm
      else if \<not> list_all is_digit s then Inl AnchorSeqForm
      else (case parse_int64 s of None \<Rightarrow> Inl AnchorSeqRange | Some n \<Rightarrow> Inr n))"

definition check_anchor_hash :: "bytes \<Rightarrow> anchor_error + unit" where
  "check_anchor_hash h =
     (if \<not> prefix hash_prefix h \<or> length (drop (length hash_prefix) h) \<noteq> 64 then Inl AnchorHashForm
      else if \<not> list_all is_lower_hex (drop (length hash_prefix) h) then Inl AnchorHashDigits
      else Inr ())"

definition parse_anchor :: "bytes \<Rightarrow> anchor_error + head" where
  "parse_anchor s =
     (case cut (CHR '':'') s of (seq_text, hash, found) \<Rightarrow>
        if \<not> found then Inl AnchorNoColon
        else andthen (parse_anchor_seq seq_text) (\<lambda>n.
             andthen (check_anchor_hash hash) (\<lambda>_. Inr \<lparr> hd_seq = n, hd_hash = hash \<rparr>)))"

subsection \<open>Truncation of a line\<close>

definition ellipsis :: bytes where "ellipsis = ''...''"

text \<open>The walk back to a rune boundary: the largest \<open>c \<le> cut\<close> that is 0 or starts a rune.\<close>

fun rune_boundary :: "bytes \<Rightarrow> nat \<Rightarrow> nat" where
  "rune_boundary s 0 = 0"
| "rune_boundary s (Suc c) = (if rune_start (s ! Suc c) then Suc c else rune_boundary s c)"

definition truncate_line :: "bytes \<Rightarrow> int \<Rightarrow> bytes" where
  "truncate_line s max_bytes =
     (if max_bytes \<le> 0 then []
      else if int (length s) \<le> max_bytes then s
      else if max_bytes \<le> int (length ellipsis) then take (nat max_bytes) ellipsis
      else take (rune_boundary s (nat max_bytes - length ellipsis)) s @ ellipsis)"

subsection \<open>Hash references\<close>

lemma line_hash_ref: "crypto_ok C \<Longrightarrow> sha256_ref (line_hash C line)"
  by (simp add: sha256_ref_def line_hash_def hash_prefix_def hex_encode_lower crypto_okD)

lemma genesis_ref: "sha256_ref genesis_prev_hash"
  by (simp add: sha256_ref_def genesis_prev_hash_def hash_prefix_def is_lower_hex_def list_all_iff)

lemma line_hash_inject:
  "line_hash C a = line_hash C b \<longleftrightarrow> sha256 C a = sha256 C b"
  using hexc.enc_inject [of "sha256 C a" "sha256 C b"] by (auto simp: line_hash_def)

lemma sha256_ref_ascii: "sha256_ref s \<Longrightarrow> valid_string s"
proof -
  assume s: "sha256_ref s"
  then obtain t where t: "s = hash_prefix @ t" "list_all is_lower_hex t"
    by (auto simp: sha256_ref_def hash_prefix_def prefix_def)
  then show "valid_string s"
    by (intro ascii_valid) (auto simp: hash_prefix_def list_all_iff is_lower_hex_def)
qed

lemma conv_code: "48 \<le> code c \<Longrightarrow> code c \<le> 48 \<Longrightarrow> c = CHR ''0''"
  using char_of_conv [of 48 c] char_of_conv [of 48 "CHR ''0''"] by simp

subsection \<open>Anchors: one head, one spelling\<close>

lemma is_digit_iff: "is_digit c \<longleftrightarrow> 48 \<le> code c \<and> code c \<le> 57"
  by (simp add: is_digit_def)

lemma sha256_ref_check: "check_anchor_hash h = Inr () \<longleftrightarrow> sha256_ref h"
  by (auto simp: check_anchor_hash_def sha256_ref_def hash_prefix_def prefix_def)

definition head_ok :: "head \<Rightarrow> bool" where
  "head_ok h \<longleftrightarrow> 0 \<le> hd_seq h \<and> hd_seq h < 2 ^ 63 \<and> sha256_ref (hd_hash h)"

lemma show_int_seq:
  assumes "0 \<le> n" "n < 2 ^ 63"
  shows "parse_anchor_seq (show_int n) = Inr n"
proof -
  have sh: "show_int n = show_nat (nat n)" using assms by (simp add: show_int_def)
  have d: "list_all is_digit (show_nat (nat n))" by (rule show_nat_digits)
  have z: "\<not> (1 < length (show_nat (nat n)) \<and> show_nat (nat n) ! 0 = CHR ''0'')"
  proof (cases "nat n = 0")
    case True
    then show ?thesis by (simp add: show_nat.simps)
  next
    case False
    with show_nat_hd [of "nat n"] show ?thesis by auto
  qed
  from parse_show_int [of n] assms sh have p: "parse_int64 (show_nat (nat n)) = Some n" by simp
  show ?thesis unfolding sh parse_anchor_seq_def using d z p by simp
qed

lemma anchor_rt:
  assumes "head_ok h"
  shows "parse_anchor (head_string h) = Inr h"
proof -
  from assms have n: "0 \<le> hd_seq h" "hd_seq h < 2 ^ 63" and r: "sha256_ref (hd_hash h)"
    by (auto simp: head_ok_def)
  have "CHR '':'' \<notin> set (show_int (hd_seq h))"
    using show_int_ascii [of "CHR '':''" "hd_seq h"] by (auto simp: is_digit_def)
  then have "cut (CHR '':'') (head_string h) = (show_int (hd_seq h), hd_hash h, True)"
    by (simp add: head_string_def cut_notin)
  with show_int_seq [OF n] r show ?thesis
    by (simp add: parse_anchor_def sha256_ref_check [symmetric])
qed

text \<open>
  the written form of a head reads back as that head: \<^verbatim>\<open>ParseAnchor(h.String()) = h\<close> for
  every head a verification can report.
\<close>
theorem anchor_roundtrip:
  assumes "head_ok h"
  shows "parse_anchor (head_string h) = Inr h"
  by (rule anchor_rt [OF assms])

lemma parse_anchor_seq_show:
  assumes "parse_anchor_seq s = Inr n"
  shows "0 \<le> n \<and> n < 2 ^ 63 \<and> s = show_int n"
proof -
  from assms have s: "s \<noteq> []" "list_all is_digit s" "1 < length s \<longrightarrow> s ! 0 \<noteq> CHR ''0''"
    and p: "parse_int64 s = Some n"
    by (auto simp: parse_anchor_seq_def split: if_splits option.splits)
  from parse_digits [OF s(2,1)] p have n: "n = int (digits_val s)" "digits_val s < 2 ^ 63"
    by (auto split: if_splits)
  obtain c ds where c: "s = c # ds" using s(1) by (cases s) auto
  have "show_nat (digits_val s) = s"
  proof (cases "digit_val c = 0")
    case True
    with s c have c0: "c = CHR ''0''" by (auto simp: digit_val_def is_digit_def conv_code)
    with s c have "ds = []" by (cases ds) auto
    with c c0 show ?thesis by (simp add: digits_val_def digit_val_def show_nat.simps digit_char_def char_of_conv)
  next
    case False
    with show_digits_val [of c ds] s(2) c show ?thesis by simp
  qed
  with n show ?thesis by (simp add: show_int_def)
qed

text \<open>
  One head has exactly one spelling: whatever \<^verbatim>\<open>ParseAnchor\<close> accepts is the text that
  \<^verbatim>\<open>Head.String\<close> prints for the head it returned, and that head is well formed.
\<close>
theorem anchor_unique_spelling:
  assumes "parse_anchor s = Inr h"
  shows "head_ok h \<and> head_string h = s"
proof -
  obtain a b f where c: "cut (CHR '':'') s = (a, b, f)" by (cases "cut (CHR '':'') s") auto
  with assms obtain n where f: "f" and n: "parse_anchor_seq a = Inr n" and b: "check_anchor_hash b = Inr ()"
    and h: "h = \<lparr> hd_seq = n, hd_hash = b \<rparr>"
    by (auto simp: parse_anchor_def andthen_Inr split: if_splits)
  from c f have "s = a @ CHR '':'' # b" using cut_found by simp
  with parse_anchor_seq_show [OF n] b h show ?thesis
    by (simp add: head_ok_def head_string_def sha256_ref_check)
qed

interpretation anchorc: codec head_string "\<lambda>s. case parse_anchor s of Inl e \<Rightarrow> None | Inr h \<Rightarrow> Some h" head_ok
  by unfold_locales (use anchor_rt in simp)

subsection \<open>Truncation keeps UTF-8 and the budget\<close>

lemma rune_boundary_le: "rune_boundary s c \<le> c"
  by (induction c) (auto simp: le_Suc_eq)

lemma rune_boundary_start: "rune_boundary s c = 0 \<or> rune_start (s ! rune_boundary s c)"
  by (induction c) auto

lemma cont_div: "x < 64 \<Longrightarrow> (0x80 + x) div 64 = (2 :: nat)"
  by simp

lemma encode_rune_cont:
  assumes "scalar r" "0 < i" "i < length (encode_rune r)"
  shows "\<not> rune_start (encode_rune r ! i)"
proof -
  have "\<not> rune_start (char_of (0x80 + x))" if "x < 64" for x :: nat
    using that by (simp add: rune_start_def cont_div)
  from this [of "r mod 64"] this [of "r div 64 mod 64"] this [of "r div 4096 mod 64"] show ?thesis
    using assms by (auto simp: encode_rune_scalar encode_scalar_def nth_Cons split: if_splits nat.splits)
qed

lemma valid_take_boundary:
  assumes "\<forall>r \<in> set rs. scalar r" "i = 0 \<or> length (utf8_enc rs) \<le> i \<or> rune_start (utf8_enc rs ! i)"
  shows "valid_string (take i (utf8_enc rs))"
  using assms
proof (induction rs arbitrary: i)
  case Nil
  then show ?case by simp
next
  case (Cons r rs)
  let ?n = "length (encode_rune r)"
  show ?case
  proof (cases "i = 0")
    case False
    have "?n \<le> i"
    proof (rule ccontr)
      assume "\<not> ?n \<le> i"
      with False Cons.prems encode_rune_cont [of r i] show False by (auto simp: nth_append)
    qed
    with Cons.prems have "valid_string (take (i - ?n) (utf8_enc rs))"
      by (intro Cons.IH) (auto simp: nth_append)
    with \<open>?n \<le> i\<close> Cons.prems(1) show ?thesis by (simp add: valid_enc_Cons)
  qed simp
qed

lemma valid_drop_boundary:
  assumes "\<forall>r \<in> set rs. scalar r" "i = 0 \<or> length (utf8_enc rs) \<le> i \<or> rune_start (utf8_enc rs ! i)"
  shows "valid_string (drop i (utf8_enc rs))"
  using assms
proof (induction rs arbitrary: i)
  case Nil
  then show ?case by simp
next
  case (Cons r rs)
  let ?n = "length (encode_rune r)"
  show ?case
  proof (cases "i = 0")
    case True
    with valid_utf8_enc [OF Cons.prems(1)] show ?thesis by simp
  next
    case False
    have "?n \<le> i"
    proof (rule ccontr)
      assume "\<not> ?n \<le> i"
      with False Cons.prems encode_rune_cont [of r i] show False by (auto simp: nth_append)
    qed
    with Cons.prems have "valid_string (drop (i - ?n) (utf8_enc rs))"
      by (intro Cons.IH) (auto simp: nth_append)
    with \<open>?n \<le> i\<close> show ?thesis by simp
  qed
qed

lemma valid_ascii_Cons: "code c < 0x80 \<Longrightarrow> valid_string (c # v) = valid_string v"
  using valid_enc_Cons [of "code c" v] by (simp add: scalar_def encode_rune_ascii)

lemma valid_append_ascii:
  assumes "code c < 0x80"
  shows "valid_string (k @ c # v) \<longleftrightarrow> valid_string k \<and> valid_string v"
proof
  assume "valid_string (k @ c # v)"
  then obtain rs where rs: "\<forall>r \<in> set rs. scalar r" "k @ c # v = utf8_enc rs" by (rule valid_stringE)
  from assms have "rune_start c" by (auto simp: rune_start_def)
  then have "rune_start (utf8_enc rs ! length k)" by (simp flip: rs(2))
  with valid_take_boundary [OF rs(1), of "length k"] valid_drop_boundary [OF rs(1), of "length k"] assms
  show "valid_string k \<and> valid_string v" by (simp add: valid_ascii_Cons flip: rs(2))
qed (use assms in \<open>simp add: valid_string_append valid_ascii_Cons\<close>)

lemma ellipsis_valid: "valid_string (take n ellipsis)"
  by (intro ascii_valid) (auto simp: ellipsis_def dest!: in_set_takeD)

lemma truncate_valid:
  assumes "valid_string s"
  shows "valid_string (truncate_line s m)"
proof -
  obtain rs where rs: "\<forall>r \<in> set rs. scalar r" "s = utf8_enc rs" using assms by (rule valid_stringE)
  have "valid_string (take (rune_boundary s n) s)" for n
    using valid_take_boundary [OF rs(1), of "rune_boundary s n"] rune_boundary_start [of s n] rs(2) by auto
  with assms ellipsis_valid [of "length ellipsis"] ellipsis_valid show ?thesis
    by (auto simp: truncate_line_def intro!: valid_string_append)
qed

lemma truncate_length: "int (length (truncate_line s m)) \<le> max 0 m"
  using rune_boundary_le [of s "nat m - length ellipsis"]
  by (auto simp: truncate_line_def ellipsis_def)

text \<open>
  A truncated line fits its byte budget and is still UTF-8: a rune is never split, so
  truncation can never make a record that \<^verbatim>\<open>Validate\<close> then refuses. Text that already fits
  is unchanged.
\<close>
theorem truncate_line_safe:
  assumes "valid_string s" "0 \<le> m"
  shows "valid_string (truncate_line s m) \<and> int (length (truncate_line s m)) \<le> m \<and>
    (int (length s) \<le> m \<longrightarrow> truncate_line s m = s)"
proof (intro conjI)
  show "int (length s) \<le> m \<longrightarrow> truncate_line s m = s"
    by (cases s) (auto simp: truncate_line_def)
qed (use truncate_valid [OF assms(1), of m] truncate_length [of s m] assms(2) in simp_all)

theorem truncate_line_safe_witness:
  "valid_string (truncate_line ''backup'' 5) \<and> int (length (truncate_line ''backup'' 5)) \<le> 5"
proof -
  have "valid_string ''backup''" by (intro ascii_valid) simp
  then show ?thesis using truncate_line_safe [of "''backup''" 5] by simp
qed

lemma truncate_set: "c \<in> set (truncate_line s m) \<Longrightarrow> c \<in> set s \<or> c = CHR ''.''"
  by (auto simp: truncate_line_def ellipsis_def dest!: in_set_takeD split: if_splits)

end
