(* ===== verification/RecordProps.thy ===== *)
theory RecordProps
  imports Records
begin

text \<open>
  What \<open>validate\<close> guarantees of a record (\<^verbatim>\<open>internal/evidence/record.go\<close>) and that its canonical
  serialization is then the canonical text of its tree: the serializer never fails and never
  silently replaces content, provided the strings \<open>validate\<close> does not look at are UTF-8 too.
\<close>

subsection \<open>What validation guarantees\<close>

lemma valid_ts_chars:
  assumes "valid_ts s" "c \<in> set s"
  shows "code c < 0x80"
proof -
  have "[0..<24] = [0,1,2,3,4,5,6,7,8,9,10,11,12,13,14,15,16,17,18,19,20,21,22,23]" by code_simp
  then have "list_all (\<lambda>i. code (s ! i) < 0x80) [0..<24]"
    using assms(1) by (auto simp: valid_ts_def is_digit_def)
  moreover from assms have "length s = 24" by (simp add: valid_ts_def)
  ultimately show ?thesis using assms(2) by (auto simp: list_all_iff in_set_conv_nth)
qed

lemma valid_ts_utf8: "valid_ts s \<Longrightarrow> valid_string s"
  by (intro ascii_valid) (auto dest: valid_ts_chars)

lemma host_id_utf8: "host_id_ok s \<Longrightarrow> valid_string s"
  by (intro ascii_valid) (auto simp: host_id_ok_def list_all_iff is_lower_hex_def)

text \<open>
  What \<^verbatim>\<open>Validate\<close> does not look at: chain fields and the signature, which the store sets, and
  the strings that version 3 of the schema added. \<open>ints_of\<close> lists every number of a record.
\<close>

definition unchecked_strings :: "evidence_record \<Rightarrow> bytes list" where
  "unchecked_strings r =
     rec_prev_hash r #
     concat (map (\<lambda>p. case p of None \<Rightarrow> [] | Some s \<Rightarrow> [s])
       [manifest_hash (rec_backup r), newest_data_at (rec_backup r), image_digest (rec_sandbox r)])
     @ (case rec_sig r of None \<Rightarrow> [] | Some s \<Rightarrow> [sig_alg s, sig_key_id s, sig_b64 s])"

definition ints_of :: "evidence_record \<Rightarrow> int list" where
  "ints_of r = rec_seq r # concat (map (\<lambda>p. case p of None \<Rightarrow> [] | Some n \<Rightarrow> [n])
     [size_bytes (rec_backup r), memory_bytes (sandbox_resources (rec_sandbox r)),
      cpus_milli (sandbox_resources (rec_sandbox r)), t_provision (rec_timings r),
      t_engine_ready (rec_timings r), t_transfer (rec_timings r), t_restore (rec_timings r),
      t_validate (rec_timings r), t_total (rec_timings r)])"

definition ints_safe :: "evidence_record \<Rightarrow> bool" where
  "ints_safe r \<longleftrightarrow> (\<forall>i \<in> set (ints_of r). \<bar>i\<bar> \<le> max_safe_integer)"

definition params_distinct :: "evidence_record \<Rightarrow> bool" where
  "params_distinct r \<longleftrightarrow> (\<forall>ps. sandbox_params (rec_sandbox r) = Some ps \<longrightarrow> distinct (map fst ps))"

lemma all_json_opt: "json_all ok num (json_opt f p) \<longleftrightarrow> (\<forall>x. p = Some x \<longrightarrow> json_all ok num (f x))"
  by (cases p) (auto simp: json_opt_def)

lemmas part_json_defs = drill_json_def backup_json_def adapter_json_def resources_json_def
  sandbox_json_def timings_json_def check_json_def error_json_def env_json_def sig_json_def

lemma utf8_fieldsD:
  assumes "validate_utf8 r = Inr ()" "(n, v) \<in> set (utf8_fields r)"
  shows "valid_string v"
  using assms by (force simp: validate_utf8_def)

lemma validate_parts:
  "validate r = Inr () \<longleftrightarrow> validate_utf8 r = Inr () \<and> validate_identity r = Inr () \<and>
     validate_outcome r = Inr () \<and> validate_checks r = Inr () \<and> validate_nested r = Inr ()"
  by (simp add: validate_def)

definition ascii_strings :: "bytes list" where
  "ascii_strings = [schema_id, outcome_pass, outcome_fail, outcome_error, outcome_cancelled]"

lemma ascii_strings_valid: "s \<in> set ascii_strings \<Longrightarrow> valid_string s"
  by (intro ascii_valid)
    (auto simp: ascii_strings_def schema_id_def outcome_pass_def outcome_fail_def outcome_error_def
      outcome_cancelled_def)

lemma validated_strings:
  assumes "validate r = Inr ()"
  shows "valid_string (rec_schema r)" "valid_string (rec_ts r)" "valid_string (rec_outcome r)"
    "json_all valid_string P (drill_json (rec_drill r))"
proof -
  note v = assms [unfolded validate_parts validate_identity_def validate_outcome_def]
  from v have "rec_schema r = schema_id" by simp
  moreover from v have "rec_outcome r \<in> set [outcome_pass, outcome_fail, outcome_error, outcome_cancelled]"
    by (simp, blast)
  ultimately show "valid_string (rec_schema r)" "valid_string (rec_outcome r)"
    by (auto simp: ascii_strings_def intro!: ascii_strings_valid)
  from v show "valid_string (rec_ts r)" by (simp add: validate_ts_def valid_ts_utf8)
  have "valid_string (drill_name (rec_drill r))" using v
    by (intro utf8_fieldsD [of r "''drill.name''"]) (simp_all add: utf8_fields_def)
  with v show "json_all valid_string P (drill_json (rec_drill r))"
    by (auto simp: drill_json_def all_json_opt when_some_Inr validate_ts_def valid_ts_utf8 sha256_ref_ascii
        intro!: ascii_valid)
qed


lemma validated_backup:
  assumes "validate r = Inr ()" "\<forall>i \<in> set (ints_of r). P (show_int i)" "\<forall>s \<in> set (unchecked_strings r). valid_string s"
  shows "json_all valid_string P (backup_json (rec_backup r))"
proof -
  note v = assms(1) [unfolded validate_parts validate_nested_def]
  have "valid_string (backup_kind (rec_backup r))" using v
    by (intro utf8_fieldsD [of r "''backup.kind''"]) (simp_all add: utf8_fields_def)
  with v assms(2,3) show ?thesis
    by (auto simp: backup_json_def all_json_opt validate_ts_def valid_ts_utf8 sha256_ref_ascii
        unchecked_strings_def ints_of_def intro!: ascii_valid split: option.splits)
qed

lemma validated_adapter:
  assumes "validate r = Inr ()"
  shows "json_all valid_string P (adapter_json (rec_adapter r))"
proof -
  note v = assms [unfolded validate_parts validate_nested_def]
  have "valid_string (adapter_name (rec_adapter r))" "valid_string (adapter_protocol (rec_adapter r))"
    using v utf8_fieldsD [of r "''adapter.name''"] utf8_fieldsD [of r "''adapter.protocol''"]
    by (simp_all add: utf8_fields_def)
  moreover have "valid_string x" if "adapter_version (rec_adapter r) = Some x" for x
    using that v utf8_fieldsD [of r "''adapter.version''"] by (simp add: utf8_fields_def)
  ultimately show ?thesis using v
    by (auto simp: adapter_json_def all_json_opt sha256_ref_ascii intro!: ascii_valid)
qed

lemma validated_sandbox:
  assumes "validate r = Inr ()" "\<forall>i \<in> set (ints_of r). P (show_int i)" "\<forall>s \<in> set (unchecked_strings r). valid_string s"
  shows "json_all valid_string P (sandbox_json (rec_sandbox r))"
proof -
  note v = assms(1) [unfolded validate_parts validate_nested_def]
  have "valid_string (sandbox_provider (rec_sandbox r))" using v
    by (intro utf8_fieldsD [of r "''sandbox.provider''"]) (simp_all add: utf8_fields_def)
  moreover have "json_all valid_string P (params_json ps)" if "sandbox_params (rec_sandbox r) = Some ps" for ps
  proof -
    have "valid_string k \<and> valid_string x" if "(k, x) \<in> set ps" for k x
    proof -
      have "(''sandbox.params'', k @ CHR 0x00 # x) \<in> set (utf8_fields r)"
        using that \<open>sandbox_params _ = Some ps\<close> by (force simp: utf8_fields_def)
      with v utf8_fieldsD have "valid_string (k @ CHR 0x00 # x)" by blast
      then show ?thesis by (simp add: valid_append_ascii)
    qed
    then show ?thesis by (force simp: params_json_def)
  qed
  ultimately show ?thesis using assms(2,3)
    by (auto simp: sandbox_json_def resources_json_def all_json_opt unchecked_strings_def ints_of_def
        intro!: ascii_valid split: option.splits)
qed

lemma validated_timings: "\<forall>i \<in> set (ints_of r). P (show_int i) \<Longrightarrow> json_all valid_string P (timings_json (rec_timings r))"
  by (auto simp: timings_json_def all_json_opt ints_of_def
      intro!: ascii_valid split: option.splits)

lemma validated_checks:
  assumes "validate r = Inr ()" "rec_checks r = Some cs" "c \<in> set cs"
  shows "json_all valid_string P (check_json c)"
proof -
  note v = assms(1) [unfolded validate_parts]
  from assms(3) obtain i where "i < length cs" "c = cs ! i" by (auto simp: in_set_conv_nth)
  then have i: "(i, c) \<in> set (enumerate 0 cs)" by (simp add: in_set_enumerate_eq)
  let ?f = "\<lambda>(i, c). (indexed ''checks'' i ''.name'', check_name c) #
          (case check_detail c of None \<Rightarrow> [] | Some d \<Rightarrow> [(indexed ''checks'' i ''.detail'', d)])"
  have f: "set (?f (i, c)) \<subseteq> set (utf8_fields r)"
    using assms(2) i unfolding utf8_fields_def by (simp only: set_append set_concat set_map option.case) blast
  have "valid_string (check_name c)"
    by (rule utf8_fieldsD [of r "indexed ''checks'' i ''.name''"]) (use v f in auto)
  moreover have "valid_string d" if "check_detail c = Some d" for d
    by (rule utf8_fieldsD [of r "indexed ''checks'' i ''.detail''"]) (use v f that in auto)
  ultimately show ?thesis by (auto simp: check_json_def all_json_opt intro!: ascii_valid)
qed

lemma validated_error:
  assumes "validate r = Inr ()" "rec_error r = Some e"
  shows "json_all valid_string P (error_json e)"
  using assms utf8_fieldsD [of r "''error.code''" "err_code e"] utf8_fieldsD [of r "''error.message''" "err_message e"]
  by (auto simp: error_json_def utf8_fields_def validate_parts intro!: ascii_valid)

lemma validated_env:
  assumes "validate r = Inr ()"
  shows "json_all valid_string P (env_json (rec_env r))"
proof -
  note v = assms [unfolded validate_parts validate_nested_def validate_env_def]
  have "valid_string (probavi_version (rec_env r))" "valid_string (env_os (rec_env r))"
    "valid_string (env_arch (rec_env r))"
    using v utf8_fieldsD [of r "''env.probavi_version''"] utf8_fieldsD [of r "''env.os''"]
      utf8_fieldsD [of r "''env.arch''"]
    by (simp_all add: utf8_fields_def)
  with v show ?thesis
    by (auto simp: env_json_def all_json_opt host_id_utf8 sha256_ref_ascii intro!: ascii_valid)
qed

lemma record_all:
  assumes "validate r = Inr ()" "\<forall>i \<in> set (ints_of r). P (show_int i)" "\<forall>s \<in> set (unchecked_strings r). valid_string s"
  shows "json_all valid_string P (record_json r)"
proof -
  have "valid_string (rec_prev_hash r)" "P (show_int (rec_seq r))"
    using assms(2,3) by (auto simp: unchecked_strings_def ints_of_def)
  moreover have "json_all valid_string P (sig_json s)" if "rec_sig r = Some s" for s
    using that assms(3) by (auto simp: unchecked_strings_def sig_json_def intro!: ascii_valid)
  ultimately show ?thesis
    using validated_strings [OF assms(1)] validated_backup [OF assms] validated_adapter [OF assms(1)]
      validated_sandbox [OF assms] validated_timings [OF assms(2)] validated_error [OF assms(1)]
      validated_checks [OF assms(1)] validated_env [OF assms(1)]
    by (auto simp: record_json_def record_members_def all_json_opt intro!: ascii_valid split: option.splits)
qed

lemma unique_json_opt: "unique_keys (json_opt f p) \<longleftrightarrow> (\<forall>x. p = Some x \<longrightarrow> unique_keys (f x))"
  by (cases p) (auto simp: json_opt_def)

lemma unique_params: "distinct (map fst ps) \<Longrightarrow> unique_keys (params_json ps)"
proof -
  assume d: "distinct (map fst ps)"
  have "distinct (map fst (isort (by_key less_bytes) ps))"
    by (metis d mset_isort mset_map mset_eq_imp_distinct_iff)
  then show ?thesis by (auto simp: params_json_def list_all_iff comp_def split_def)
qed

lemma record_unique_keys:
  assumes "params_distinct r"
  shows "unique_keys (record_json r)"
  using assms
  by (auto simp: record_json_def record_members_def part_json_defs unique_json_opt unique_params
      params_distinct_def list_all_iff split: option.splits)

lemma depth_json_opt: "(\<And>x. jdepth (f x) \<le> n) \<Longrightarrow> jdepth (json_opt f p) \<le> n"
  by (cases p) (auto simp: json_opt_def)

lemma foldr_max_bound: "(\<And>x. x \<in> set xs \<Longrightarrow> x \<le> n) \<Longrightarrow> foldr max xs 0 \<le> (n :: nat)"
  by (induction xs) auto

lemma depth_Obj: "(\<And>k v. (k, v) \<in> set ms \<Longrightarrow> jdepth v \<le> n) \<Longrightarrow> jdepth (JObj ms) \<le> Suc n"
  by (auto intro!: foldr_max_bound)

lemma depth_Arr: "(\<And>v. v \<in> set vs \<Longrightarrow> jdepth v \<le> n) \<Longrightarrow> jdepth (JArr vs) \<le> Suc n"
  by (auto intro!: foldr_max_bound)

lemma jdepth_leaf_opt: "jdepth (json_opt JStr p) \<le> n" "jdepth (json_opt JBool b) \<le> n"
    "jdepth (json_opt (\<lambda>i. JNum (g i)) q) \<le> n"
  by (auto intro!: depth_json_opt)

lemma depth_params: "jdepth (params_json ps) \<le> Suc n"
  unfolding params_json_def by (rule depth_Obj) auto

lemma depth_flat:
  "jdepth (drill_json d) \<le> Suc n" "jdepth (backup_json b) \<le> Suc n" "jdepth (adapter_json a) \<le> Suc n"
  "jdepth (resources_json rs) \<le> Suc n" "jdepth (timings_json t) \<le> Suc n" "jdepth (check_json c) \<le> Suc n"
  "jdepth (error_json e) \<le> Suc n" "jdepth (env_json v) \<le> Suc n" "jdepth (sig_json s) \<le> Suc n"
  by (auto simp: part_json_defs jdepth_leaf_opt)

lemma depth_sandbox: "jdepth (sandbox_json s) \<le> Suc (Suc n)"
  by (auto simp: sandbox_json_def jdepth_leaf_opt depth_flat intro!: depth_json_opt depth_params)

lemma record_depth: "jdepth (record_json r) \<le> 3"
proof -
  have "jdepth (JObj (record_members r @ (case rec_sig r of None \<Rightarrow> [] | Some s \<Rightarrow> [(''sig'', sig_json s)])))
      \<le> Suc (Suc (Suc 0))"
  proof (rule depth_Obj)
    fix k v
    assume "(k, v) \<in> set (record_members r @ (case rec_sig r of None \<Rightarrow> [] | Some s \<Rightarrow> [(''sig'', sig_json s)]))"
    then show "jdepth v \<le> Suc (Suc 0)"
      by (auto simp: record_members_def depth_flat depth_sandbox simp del: jdepth.simps
          intro!: depth_json_opt depth_Arr split: option.splits) auto
  qed
  then show ?thesis by (simp add: record_json_def eval_nat_numeral)
qed


subsection \<open>Serialization of a validated record\<close>

lemma record_canonical_ok:
  assumes "validate r = Inr ()" "ints_safe r" "\<forall>s \<in> set (unchecked_strings r). valid_string s"
  shows "canonical_ok (record_json r)"
  using assms by (intro record_all) (auto simp: ints_safe_def intro!: safe_int_show)

lemma record_depth_ok: "jdepth (record_json r) \<le> max_depth"
  by (rule le_trans [OF record_depth]) (simp add: max_depth_def)

lemma canonicalize_record_eq:
  assumes "validate r = Inr ()" "\<forall>s \<in> set (unchecked_strings r). valid_string s" "params_distinct r"
  shows "canonicalize_record r = append_canonical (record_json r)"
proof -
  have "json_all valid_string num_ok (record_json r)"
    using assms by (intro record_all) (auto simp: num_ok_show_int)
  with record_unique_keys [OF assms(3)] record_depth_ok show ?thesis
    by (simp add: canonicalize_record_def canonicalize_marshalled_eq)
qed

text \<open>
  The bytes that get signed say what the record says. For a record that passed
  \<^verbatim>\<open>Validate\<close>, with numbers in the safe range and UTF-8 in the fields \<^verbatim>\<open>Validate\<close> leaves out,
  \<^verbatim>\<open>CanonicalizeRecord\<close> succeeds and strict decoding of its output gives back the record's
  tree, no string replaced on the way through \<^verbatim>\<open>json.Marshal\<close>.
\<close>
theorem canonicalize_record_faithful:
  assumes "validate r = Inr ()" "ints_safe r" "\<forall>s \<in> set (unchecked_strings r). valid_string s" "params_distinct r"
  shows "\<exists>t. canonicalize_record r = Inr t \<and> decode_strict t = Inr (norm (record_json r))"
  using canonicalize_record_eq [OF assms(1,3,4)] append_canonical_norm [OF record_canonical_ok [OF assms(1-3)]]
    decode_rendered [OF record_canonical_ok [OF assms(1-3)] record_unique_keys [OF assms(4)] record_depth_ok]
  by simp

text \<open>
  the gap in \<^verbatim>\<open>Validate\<close>: it does not depend on the three strings that version 3 of the
  schema added, so it cannot refuse one that is not UTF-8, although the comment on
  \<^verbatim>\<open>validateUTF8\<close> says every free-text field is covered.
\<close>
theorem validate_ignores_v3_strings:
  "validate (r\<lparr> rec_backup := (rec_backup r)\<lparr> manifest_hash := a, newest_data_at := b \<rparr>,
     rec_sandbox := (rec_sandbox r)\<lparr> image_digest := c \<rparr> \<rparr>) = validate r"
  by (simp add: validate_def validate_utf8_def utf8_fields_def validate_identity_def validate_outcome_def
      validate_checks_def validate_nested_def)

end
