(* ===== verification/Decode.thy ===== *)
theory Decode
  imports RecordProps
begin

text \<open>
  \<^verbatim>\<open>json.Unmarshal\<close> into the struct \<^verbatim>\<open>Record\<close>, as \<^verbatim>\<open>walkState.parseCanonical\<close> uses it: the
  verdict (does every member's JSON type fit the Go type of the field it lands in) and the values
  the verifier then reads (\<^verbatim>\<open>Schema\<close>, \<^verbatim>\<open>Seq\<close>, \<^verbatim>\<open>PrevHash\<close>, \<^verbatim>\<open>Sig\<close>). A member lands in the field
  with exactly its name, else in the field whose name is equal under Unicode simple folding,
  else nowhere; members are decoded in the order of the text, so a later one overwrites; null
  leaves a field alone. The library's own test of field names folds ASCII letters and the two
  runes outside ASCII whose fold class contains an ASCII letter (U+017F and U+212A).
\<close>

subsection \<open>Types of fields\<close>

datatype shape = SStr | SInt | SBool | SStruct "(bytes \<times> shape) list" | SSlice shape | SMap shape

definition fold_rune :: "nat \<Rightarrow> nat" where
  "fold_rune r = (if 97 \<le> r \<and> r \<le> 122 then r - 32
     else if r = 0x17F then 0x53 else if r = 0x212A then 0x4B else r)"

definition fold_name :: "bytes \<Rightarrow> nat list" where
  "fold_name k = map fold_rune (runes k)"

definition field_name :: "bytes list \<Rightarrow> bytes \<Rightarrow> bytes option" where
  "field_name names k =
     (if k \<in> set names then Some k else List.find (\<lambda>n. fold_name n = fold_name k) names)"

primrec conforms :: "json \<Rightarrow> shape \<Rightarrow> bool" where
  "conforms JNull = (\<lambda>sh. True)"
| "conforms (JBool b) = (\<lambda>sh. sh = SBool)"
| "conforms (JNum n) = (\<lambda>sh. sh = SInt \<and> parse_int64 n \<noteq> None)"
| "conforms (JStr s) = (\<lambda>sh. sh = SStr)"
| "conforms (JArr vs) = (\<lambda>sh. case sh of SSlice e \<Rightarrow> list_all (\<lambda>c. c e) (map conforms vs) | _ \<Rightarrow> False)"
| "conforms (JObj ms) = (\<lambda>sh. case sh of
     SStruct fs \<Rightarrow> list_all (\<lambda>p. case field_name (map fst fs) (fst p) of None \<Rightarrow> True
         | Some n \<Rightarrow> (case map_of fs n of None \<Rightarrow> True | Some e \<Rightarrow> snd p e))
       (map (map_prod (\<lambda>k. k) conforms) ms)
   | SMap e \<Rightarrow> list_all (\<lambda>p. snd p e) (map (map_prod (\<lambda>k. k) conforms) ms)
   | _ \<Rightarrow> False)"

definition record_shape :: shape where
  "record_shape = SStruct
     [(''schema'', SStr), (''seq'', SInt), (''prev_hash'', SStr), (''ts'', SStr),
      (''drill'', SStruct [(''name'', SStr), (''config_hash'', SStr), (''pitr_target'', SStr)]),
      (''backup'', SStruct [(''kind'', SStr), (''checksum'', SStr), (''size_bytes'', SInt),
         (''created_at'', SStr), (''manifest_hash'', SStr), (''manifest_match'', SBool),
         (''newest_data_at'', SStr)]),
      (''adapter'', SStruct [(''name'', SStr), (''version'', SStr), (''protocol'', SStr), (''digest'', SStr)]),
      (''sandbox'', SStruct [(''provider'', SStr), (''params'', SMap SStr), (''image_digest'', SStr),
         (''resources'', SStruct [(''memory_bytes'', SInt), (''cpus_milli'', SInt)])]),
      (''timings_ms'', SStruct [(''provision'', SInt), (''engine_ready'', SInt), (''transfer'', SInt),
         (''restore'', SInt), (''validate'', SInt), (''total'', SInt)]),
      (''checks'', SSlice (SStruct [(''name'', SStr), (''ok'', SBool), (''detail'', SStr)])),
      (''outcome'', SStr),
      (''error'', SStruct [(''code'', SStr), (''message'', SStr)]),
      (''env'', SStruct [(''probavi_version'', SStr), (''os'', SStr), (''arch'', SStr),
         (''host_id'', SStr), (''probavi_digest'', SStr), (''clock_synchronised'', SBool)]),
      (''sig'', SStruct [(''alg'', SStr), (''key_id'', SStr), (''sig_b64'', SStr)])]"

definition struct_fields :: "shape \<Rightarrow> (bytes \<times> shape) list" where
  "struct_fields sh = (case sh of SStruct fs \<Rightarrow> fs | _ \<Rightarrow> [])"

definition record_names :: "bytes list" where
  "record_names = map fst (struct_fields record_shape)"

definition sig_names :: "bytes list" where
  "sig_names = [''alg'', ''key_id'', ''sig_b64'']"

subsection \<open>The values the verifier reads\<close>

record sig_view =
  v_alg :: bytes
  v_key_id :: bytes
  v_sig_b64 :: bytes

record rec_view =
  v_schema :: bytes
  v_seq :: int
  v_prev_hash :: bytes
  v_sig :: "sig_view option"

definition set_str :: "json \<Rightarrow> bytes \<Rightarrow> bytes" where
  "set_str v old = (case v of JStr s \<Rightarrow> s | _ \<Rightarrow> old)"

definition set_int :: "json \<Rightarrow> int \<Rightarrow> int" where
  "set_int v old = (case v of JNum n \<Rightarrow> (case parse_int64 n of Some i \<Rightarrow> i | None \<Rightarrow> old) | _ \<Rightarrow> old)"

definition put_sig :: "bytes \<times> json \<Rightarrow> sig_view \<Rightarrow> sig_view" where
  "put_sig = (\<lambda>(k, v) s. let f = field_name sig_names k in
     if f = Some ''alg'' then s\<lparr> v_alg := set_str v (v_alg s) \<rparr>
     else if f = Some ''key_id'' then s\<lparr> v_key_id := set_str v (v_key_id s) \<rparr>
     else if f = Some ''sig_b64'' then s\<lparr> v_sig_b64 := set_str v (v_sig_b64 s) \<rparr>
     else s)"

definition empty_sig :: sig_view where
  "empty_sig = \<lparr> v_alg = [], v_key_id = [], v_sig_b64 = [] \<rparr>"

text \<open>A pointer: null makes it nil, an object fills the struct it points at, allocated if nil.\<close>

definition set_sig :: "json \<Rightarrow> sig_view option \<Rightarrow> sig_view option" where
  "set_sig v old = (case v of JNull \<Rightarrow> None
     | JObj ms \<Rightarrow> Some (fold put_sig ms (case old of None \<Rightarrow> empty_sig | Some s \<Rightarrow> s))
     | _ \<Rightarrow> old)"

definition put_field :: "bytes \<times> json \<Rightarrow> rec_view \<Rightarrow> rec_view" where
  "put_field = (\<lambda>(k, v) r. let f = field_name record_names k in
     if f = Some ''schema'' then r\<lparr> v_schema := set_str v (v_schema r) \<rparr>
     else if f = Some ''seq'' then r\<lparr> v_seq := set_int v (v_seq r) \<rparr>
     else if f = Some ''prev_hash'' then r\<lparr> v_prev_hash := set_str v (v_prev_hash r) \<rparr>
     else if f = Some ''sig'' then r\<lparr> v_sig := set_sig v (v_sig r) \<rparr>
     else r)"

definition zero_view :: rec_view where
  "zero_view = \<lparr> v_schema = [], v_seq = 0, v_prev_hash = [], v_sig = None \<rparr>"

text \<open>\<^verbatim>\<open>json.Unmarshal(line, &rec)\<close> on the members of a line already known to be one object.\<close>

definition unmarshal_record :: "(bytes \<times> json) list \<Rightarrow> rec_view option" where
  "unmarshal_record ms =
     (if conforms (JObj ms) record_shape then Some (fold put_field ms zero_view) else None)"

end
