(* ===== verification/Lines.thy ===== *)
theory Lines
  imports Evidence
begin

text \<open>
  How both verifiers read a log: \<^verbatim>\<open>bufio.Reader.ReadSlice\<close> hands out a line in chunks of at most
  the buffer's size, and \<^verbatim>\<open>readLine\<close> of \<^verbatim>\<open>internal/evidence/verify.go\<close> (and
  \<^verbatim>\<open>readCappedLine\<close> of \<^verbatim>\<open>spec/evidence/verify.go\<close>) joins them, refusing to hold more than a cap.
  The input is its bytes and whether the reader ends with an I/O error instead of end of file.
  \<open>read_line_spec\<close> proves that the chunks do not matter: the loop takes the text up to the next
  newline, and the cap counts the newline.
\<close>

abbreviation newline :: char where "newline \<equiv> CHR 0x0A"

datatype slice_end = Delim | BufferFull | AtEof | Fault

text \<open>One \<^verbatim>\<open>ReadSlice('\n')\<close> with a buffer of \<open>n\<close> bytes: the chunk, how it ended, what is left.\<close>

definition read_slice :: "nat \<Rightarrow> bool \<Rightarrow> bytes \<Rightarrow> bytes \<times> slice_end \<times> bytes" where
  "read_slice n fault s =
     (let h = takeWhile (\<lambda>c. c \<noteq> newline) (take n s) in
      if length h < length (take n s) then (h @ [newline], Delim, drop (Suc (length h)) s)
      else if length s \<ge> n then (take n s, BufferFull, drop n s)
      else (s, if fault then Fault else AtEof, []))"

datatype line_result = OverCap | Line bytes bytes | Fragment bytes | ReadError

text \<open>The smallest buffer \<^verbatim>\<open>bufio\<close> makes is 16 bytes.\<close>

definition buffer_size :: "nat \<Rightarrow> nat" where
  "buffer_size n = max 16 n"

function read_line_loop :: "nat \<Rightarrow> bool \<Rightarrow> nat \<Rightarrow> bytes \<Rightarrow> bytes \<Rightarrow> line_result" where
  "read_line_loop n fault cap buf s =
     (case read_slice (buffer_size n) fault s of (chunk, fin, rest) \<Rightarrow>
        if length buf + length chunk > cap then OverCap
        else (case fin of
            Delim \<Rightarrow> Line (butlast (buf @ chunk)) rest
          | BufferFull \<Rightarrow> read_line_loop n fault cap (buf @ chunk) rest
          | AtEof \<Rightarrow> Fragment (buf @ chunk)
          | Fault \<Rightarrow> ReadError))"
  by pat_completeness auto
termination
  by (relation "measure (\<lambda>(n, fault, cap, buf, s). length s)")
    (auto simp: read_slice_def Let_def buffer_size_def split: if_splits)

declare read_line_loop.simps [simp del]

definition read_line :: "nat \<Rightarrow> bool \<Rightarrow> nat \<Rightarrow> bytes \<Rightarrow> line_result" where
  "read_line n fault cap s = read_line_loop n fault cap [] s"

subsection \<open>The chunks do not matter\<close>

definition line_spec :: "bool \<Rightarrow> nat \<Rightarrow> bytes \<Rightarrow> line_result" where
  "line_spec fault cap s =
     (let l = takeWhile (\<lambda>c. c \<noteq> newline) s in
      if newline \<in> set s then
        (if length l + 1 > cap then OverCap else Line l (drop (Suc (length l)) s))
      else if length s > cap then OverCap
      else if fault then ReadError else Fragment s)"

lemma takeWhile_take_full:
  "length (takeWhile P xs) = length xs \<Longrightarrow> \<forall>c \<in> set xs. P c"
  by (induction xs) (auto split: if_splits)

lemma takeWhile_take_less:
  "length (takeWhile P (take n s)) < length (take n s) \<Longrightarrow>
     takeWhile P (take n s) = takeWhile P s \<and> length (takeWhile P s) < length s"
  by (induction s arbitrary: n) (auto simp: take_Cons split: nat.splits if_splits)

lemma takeWhile_short: "length (takeWhile (\<lambda>c. c \<noteq> x) s) < length s \<Longrightarrow> x \<in> set s"
  by (induction s) (auto split: if_splits)

lemma read_line_loop_spec:
  "newline \<notin> set buf \<Longrightarrow>
    read_line_loop n fault cap buf s =
     (if newline \<in> set s then
        (if length buf + length (takeWhile (\<lambda>c. c \<noteq> newline) s) + 1 > cap then OverCap
         else Line (buf @ takeWhile (\<lambda>c. c \<noteq> newline) s)
           (drop (Suc (length (takeWhile (\<lambda>c. c \<noteq> newline) s))) s))
      else if length buf + length s > cap then OverCap
      else if fault then ReadError else Fragment (buf @ s))"
proof (induction n fault cap buf s rule: read_line_loop.induct)
  case (1 n fault cap buf s)
  define N where "N = buffer_size n"
  define h where "h = takeWhile (\<lambda>c. c \<noteq> newline) (take N s)"
  have N: "0 < N" by (simp add: N_def buffer_size_def)
  show ?case
  proof (cases "length h < length (take N s)")
    case True
    from takeWhile_take_less [OF True [unfolded h_def]] have
      h: "h = takeWhile (\<lambda>c. c \<noteq> newline) s" "length (takeWhile (\<lambda>c. c \<noteq> newline) s) < length s"
      by (auto simp: h_def)
    then have nl: "newline \<in> set s" by (simp add: takeWhile_short)
    have "read_slice N fault s = (h @ [newline], Delim, drop (Suc (length h)) s)"
      using True by (simp add: read_slice_def h_def Let_def)
    with nl h show ?thesis
      by (subst read_line_loop.simps) (simp add: butlast_append flip: N_def)
  next
    case False
    then have "length h = length (take N s)" unfolding h_def by (meson le_neq_implies_less length_takeWhile_le)
    from takeWhile_take_full [OF this [unfolded h_def]] have no: "newline \<notin> set (take N s)" by auto
    show ?thesis
    proof (cases "length s \<ge> N")
      case full: True
      obtain t d where s: "s = t @ d" and t: "t = take N s" and d: "d = drop N s" by simp
      have lt: "length t = N" using full t by simp
      have nt: "newline \<notin> set t" using no t by simp
      have sl: "read_slice N fault s = (t, BufferFull, d)"
        using False full by (auto simp: read_slice_def h_def Let_def t d)
      have tw: "takeWhile (\<lambda>c. c \<noteq> newline) (t @ d) = t @ takeWhile (\<lambda>c. c \<noteq> newline) d"
        by (rule takeWhile_append2) (use nt in auto)
      show ?thesis
      proof (cases "length buf + length t > cap")
        case True
        with sl have "read_line_loop n fault cap buf s = OverCap"
          by (subst read_line_loop.simps) (simp flip: N_def)
        with True nt show ?thesis unfolding s by (simp add: tw)
      next
        case False
        with sl have e: "read_line_loop n fault cap buf s = read_line_loop n fault cap (buf @ t) d"
          by (subst read_line_loop.simps) (simp flip: N_def)
        have "newline \<notin> set (buf @ t)" using "1.prems" nt by simp
        note IH = "1.IH" [of t "(BufferFull, d)" BufferFull d, OF _ _ _ _ this]
        have "read_line_loop n fault cap (buf @ t) d =
          (if newline \<in> set d then
            (if length (buf @ t) + length (takeWhile (\<lambda>c. c \<noteq> newline) d) + 1 > cap then OverCap
             else Line ((buf @ t) @ takeWhile (\<lambda>c. c \<noteq> newline) d)
               (drop (Suc (length (takeWhile (\<lambda>c. c \<noteq> newline) d))) d))
          else if length (buf @ t) + length d > cap then OverCap
          else if fault then ReadError else Fragment ((buf @ t) @ d))"
          by (rule IH) (use sl False in \<open>simp_all flip: N_def\<close>)
        with e nt show ?thesis unfolding s by (simp add: tw add.assoc)
      qed
    next
      case False
      with \<open>\<not> length h < _\<close> no show ?thesis
        by (subst read_line_loop.simps) (auto simp: read_slice_def h_def Let_def simp flip: N_def)
    qed
  qed
qed


theorem read_line_eq: "read_line n fault cap s = line_spec fault cap s"
  by (simp add: read_line_def read_line_loop_spec line_spec_def Let_def)

lemma takeWhile_line: "newline \<notin> set l \<Longrightarrow> takeWhile (\<lambda>c. c \<noteq> newline) (l @ newline # s) = l"
  by (induction l) auto

lemma read_line_Line:
  assumes "newline \<notin> set l" "length l < cap"
  shows "read_line n fault cap (l @ newline # s) = Line l s"
  using assms by (simp add: read_line_eq line_spec_def takeWhile_line)

lemma read_line_Nil [simp]: "read_line n False cap [] = Fragment []"
  by (simp add: read_line_eq line_spec_def)

lemma takeWhile_found: "newline \<in> set s \<Longrightarrow> length (takeWhile (\<lambda>c. c \<noteq> newline) s) < length s"
  by (induction s) auto

lemma read_line_LineD:
  assumes "read_line n fault cap s = Line l r"
  shows "s = l @ newline # r \<and> newline \<notin> set l \<and> length l < cap"
proof -
  let ?l = "takeWhile (\<lambda>c. c \<noteq> newline) s"
  from assms have n: "newline \<in> set s" "\<not> length ?l + 1 > cap" and l: "l = ?l" "r = drop (Suc (length ?l)) s"
    by (auto simp: read_line_eq line_spec_def Let_def split: if_splits)
  then have len: "length ?l < length s" by (simp add: takeWhile_found)
  have "s = ?l @ s ! length ?l # drop (Suc (length ?l)) s"
    using len by (metis id_take_nth_drop takeWhile_eq_take)
  moreover have "s ! length ?l = newline" using nth_length_takeWhile [OF len] by simp
  moreover have "newline \<notin> set ?l" by (auto dest: set_takeWhileD)
  ultimately show ?thesis using l n by auto
qed

lemma read_line_shorter: "read_line n fault cap s = Line l r \<Longrightarrow> length r < length s"
  by (drule read_line_LineD) auto

text \<open>
  reading in chunks gives what reading the whole line gives, for every buffer size: the text
  up to the next newline, refused exactly when it is longer than the cap with its newline
  counted, and a final fragment or the reader's error when there is no newline.
\<close>
theorem read_line_chunks_irrelevant:
  "read_line n fault cap s = line_spec fault cap s"
  by (rule read_line_eq)

end
