(* ===== verification/Verify.thy ===== *)
theory Verify
  imports Decode Lines
begin

text \<open>
  \<^verbatim>\<open>internal/evidence/verify.go\<close>: the walk over a log. \<open>walk_state\<close> is the struct of the same
  name; a keyring or an anchor may be nil; the reasons are one constructor per message of the
  code. \<open>parse_canonical\<close>, \<open>verify_signature\<close>, \<open>step\<close>, \<open>check_anchor\<close>, \<open>check_truncated\<close> and
  \<open>walk\<close> follow the methods of these names, each returning the state it leaves and whether
  walking goes on. The log is its bytes and whether reading them ends in an I/O error, which is
  the only case where \<open>walk\<close> returns no state.
\<close>

datatype status = StatusValid | StatusValidWithDamage | StatusInvalid

datatype reason =
    RecordTooLarge | CanonFailed canon_error | NotCanonical | NotAnObject | DecodeFailed
  | UnsupportedSchema bytes | SeqMismatch int int | PrevHashMismatch bytes
  | NoSig | UnsupportedAlg bytes | UnknownKey bytes | MalformedSig | RebuildFailed canon_error
  | SignatureFailed | AnchorMismatch int bytes | LogTruncated int int
  | WitnessRefused bytes head bytes

record walk_state =
  w_keyring :: "keyring option"
  w_anchor :: "head option"
  anchor_seen :: bool
  next_seq :: int
  prev_hash :: bytes
  records :: nat
  damaged :: "nat list"
  failed :: bool
  failed_line :: nat
  failure :: "reason option"

definition head_of :: "walk_state \<Rightarrow> head" where
  "head_of w = \<lparr> hd_seq = next_seq w - 1, hd_hash = prev_hash w \<rparr>"

text \<open>The method \<^verbatim>\<open>invalid\<close> always reports false: walking stops.\<close>

definition invalid :: "walk_state \<Rightarrow> nat \<Rightarrow> reason \<Rightarrow> walk_state \<times> bool" where
  "invalid w line_no rs = (w\<lparr> failed := True, failed_line := line_no, failure := Some rs \<rparr>, False)"

definition damage :: "walk_state \<Rightarrow> nat \<Rightarrow> walk_state" where
  "damage w line_no = w\<lparr> damaged := damaged w @ [line_no] \<rparr>"

definition check_anchor :: "walk_state \<Rightarrow> nat \<Rightarrow> walk_state \<times> bool" where
  "check_anchor w line_no = (case w_anchor w of None \<Rightarrow> (w, True)
     | Some a \<Rightarrow>
        if anchor_seen w \<or> hd_seq (head_of w) \<noteq> hd_seq a then (w, True)
        else let w = w\<lparr> anchor_seen := True \<rparr> in
          if head_of w = a then (w, True)
          else invalid w line_no (AnchorMismatch (hd_seq a) (prev_hash w)))"

definition check_truncated :: "walk_state \<Rightarrow> walk_state" where
  "check_truncated w = (case w_anchor w of None \<Rightarrow> w
     | Some a \<Rightarrow> if anchor_seen w \<or> failed w then w
         else fst (invalid w 0 (LogTruncated (hd_seq (head_of w)) (hd_seq a))))"

text \<open>What \<^verbatim>\<open>parseCanonical\<close> makes of a line: damage, a reason, or the record and its object.\<close>

datatype parsed = Damage | Refused reason | Parsed rec_view "(bytes \<times> json) list"

definition classify :: "bytes \<Rightarrow> parsed" where
  "classify line = (case decode_strict line of Inl e \<Rightarrow> Damage
     | Inr v \<Rightarrow> (case append_canonical v of Inl e \<Rightarrow> Refused (CanonFailed e)
       | Inr canonical \<Rightarrow>
          if canonical \<noteq> line then Refused NotCanonical
          else (case v of JObj obj \<Rightarrow>
              (case unmarshal_record obj of None \<Rightarrow> Refused DecodeFailed
               | Some rec \<Rightarrow> if \<not> supported_schema (v_schema rec) then Refused (UnsupportedSchema (v_schema rec))
                   else Parsed rec obj)
            | _ \<Rightarrow> Refused NotAnObject)))"

definition parse_canonical ::
    "walk_state \<Rightarrow> bytes \<Rightarrow> nat \<Rightarrow> (walk_state \<times> bool) + rec_view \<times> (bytes \<times> json) list" where
  "parse_canonical w line line_no = (case classify line of
     Damage \<Rightarrow> Inl (damage w line_no, True)
   | Refused rs \<Rightarrow> Inl (invalid w line_no rs)
   | Parsed rec obj \<Rightarrow> Inr (rec, obj))"

definition unsigned :: "(bytes \<times> json) list \<Rightarrow> (bytes \<times> json) list" where
  "unsigned obj = filter (\<lambda>p. fst p \<noteq> ''sig'') obj"

definition verify_signature ::
    "crypto \<Rightarrow> keyring \<Rightarrow> rec_view \<Rightarrow> (bytes \<times> json) list \<Rightarrow> reason + unit" where
  "verify_signature C kr rec obj = (case v_sig rec of None \<Rightarrow> Inl NoSig
     | Some sg \<Rightarrow>
        if v_alg sg \<noteq> ''ed25519'' then Inl (UnsupportedAlg (v_alg sg))
        else (case kr (v_key_id sg) of None \<Rightarrow> Inl (UnknownKey (v_key_id sg))
          | Some pub \<Rightarrow>
            (case b64_decode (v_sig_b64 sg) of None \<Rightarrow> Inl MalformedSig
             | Some raw \<Rightarrow>
               if length raw \<noteq> 64 then Inl MalformedSig
               else (case append_canonical (JObj (unsigned obj)) of Inl e \<Rightarrow> Inl (RebuildFailed e)
                 | Inr message \<Rightarrow>
                   if \<not> ed_verify C pub message raw then Inl SignatureFailed else Inr ()))))"

definition step :: "crypto \<Rightarrow> walk_state \<Rightarrow> bytes \<Rightarrow> nat \<Rightarrow> walk_state \<times> bool" where
  "step C w line line_no = (case parse_canonical w line line_no of Inl out \<Rightarrow> out
     | Inr (rec, obj) \<Rightarrow>
        if v_seq rec \<noteq> next_seq w then invalid w line_no (SeqMismatch (v_seq rec) (next_seq w))
        else if v_prev_hash rec \<noteq> prev_hash w then invalid w line_no (PrevHashMismatch (prev_hash w))
        else (case (case w_keyring w of None \<Rightarrow> Inr () | Some kr \<Rightarrow> verify_signature C kr rec obj) of
            Inl rs \<Rightarrow> invalid w line_no rs
          | Inr u \<Rightarrow> check_anchor (w\<lparr> prev_hash := line_hash C line, next_seq := next_seq w + 1,
                records := records w + 1 \<rparr>) line_no))"

definition read_chunk_bytes :: nat where "read_chunk_bytes = 64 * 1024"

function walk_lines :: "crypto \<Rightarrow> bool \<Rightarrow> walk_state \<Rightarrow> nat \<Rightarrow> bytes \<Rightarrow> walk_state option" where
  "walk_lines C fault w line_no s =
     (case read_line read_chunk_bytes fault max_record_bytes s of
        OverCap \<Rightarrow> Some (fst (invalid w line_no RecordTooLarge))
      | ReadError \<Rightarrow> None
      | Fragment l \<Rightarrow> Some (check_truncated (if l \<noteq> [] then damage w line_no else w))
      | Line l rest \<Rightarrow> (case step C w l line_no of (w', go) \<Rightarrow>
          if go then walk_lines C fault w' (line_no + 1) rest else Some w'))"
  by pat_completeness auto
termination
  by (relation "measure (\<lambda>(C, fault, w, line_no, s). length s)") (auto dest: read_line_shorter)

declare walk_lines.simps [simp del]

definition initial_walk :: "keyring option \<Rightarrow> head option \<Rightarrow> walk_state" where
  "initial_walk kr anchor = \<lparr> w_keyring = kr, w_anchor = anchor, anchor_seen = False, next_seq = 1,
     prev_hash = genesis_prev_hash, records = 0, damaged = [], failed = False, failed_line = 0,
     failure = None \<rparr>"

definition walk :: "crypto \<Rightarrow> bool \<Rightarrow> bytes \<Rightarrow> keyring option \<Rightarrow> head option \<Rightarrow> walk_state option" where
  "walk C fault s kr anchor = (case check_anchor (initial_walk kr anchor) 0 of (w, go) \<Rightarrow>
     if go then walk_lines C fault w 1 s else Some w)"

record witness =
  wit_command :: bytes
  attested :: bool
  attested_at :: "bytes option"

record result =
  res_status :: status
  res_records :: nat
  res_damaged :: "nat list"
  res_failed_line :: nat
  res_reason :: "reason option"
  res_head :: head
  res_witness :: "witness option"

definition verify :: "crypto \<Rightarrow> bool \<Rightarrow> bytes \<Rightarrow> keyring option \<Rightarrow> head option \<Rightarrow> result option" where
  "verify C fault s kr anchor =
     (case walk C fault s (Some (case kr of None \<Rightarrow> Map.empty | Some k \<Rightarrow> k)) anchor of None \<Rightarrow> None
      | Some w \<Rightarrow> Some \<lparr>
          res_status = (if failed w then StatusInvalid
            else if damaged w \<noteq> [] then StatusValidWithDamage else StatusValid),
          res_records = records w, res_damaged = damaged w, res_failed_line = failed_line w,
          res_reason = failure w, res_head = head_of w, res_witness = None \<rparr>)"

subsection \<open>Witnesses (\<^verbatim>\<open>internal/evidence/witness.go\<close>)\<close>

text \<open>
  The command the operator names is outside the program: its run is a parameter, an exit status
  (\<open>None\<close> when it could not be run or was killed), standard output and standard error.
\<close>

type_synonym command_run = "bytes list \<Rightarrow> int option \<times> bytes \<times> bytes"

datatype witness_error = WitnessFailed bytes

definition first_line :: "bytes \<Rightarrow> bytes" where
  "first_line s = trim_space (fst (cut newline s))"

definition attested_at_of :: "bytes \<Rightarrow> bytes option" where
  "attested_at_of out = (let line = first_line out in
     if line = [] then None else if \<not> rfc3339 line then None else Some line)"

definition witness_reason :: "bytes \<Rightarrow> head \<Rightarrow> bytes \<Rightarrow> reason" where
  "witness_reason command h detail = WitnessRefused command h detail"

definition ask_witness ::
    "command_run \<Rightarrow> bytes \<Rightarrow> head \<Rightarrow> witness_error + witness \<times> bytes" where
  "ask_witness run command h =
     (case run [command, head_string h] of (exit, stdout, stderr) \<Rightarrow>
        let detail = first_line stderr in
        if exit = Some 0
        then Inr (\<lparr> wit_command = command, attested = True, attested_at = attested_at_of stdout \<rparr>, [])
        else if exit = Some 1
        then Inr (\<lparr> wit_command = command, attested = False, attested_at = None \<rparr>, detail)
        else Inl (WitnessFailed detail))"

definition witnessed ::
    "command_run \<Rightarrow> result \<Rightarrow> bytes \<Rightarrow> witness_error + result" where
  "witnessed run res command =
     (if command = [] \<or> res_status res = StatusInvalid then Inr res
      else andthen (ask_witness run command (res_head res)) (\<lambda>(w, detail).
        let res = res\<lparr> res_witness := Some w \<rparr> in
        if \<not> attested w
        then Inr (res\<lparr> res_status := StatusInvalid, res_failed_line := 0,
               res_reason := Some (witness_reason command (res_head res) detail) \<rparr>)
        else Inr res))"

end
