(* ===== verification/VerifyProps.thy ===== *)
theory VerifyProps
  imports Verify
begin

text \<open>
  What the walk of \<^verbatim>\<open>internal/evidence/verify.go\<close> guarantees. \<open>chain_verifier\<close> is the interface of
  a verifier over a hash chain (a line fixes the head it can follow); its lemmas, that equal heads
  mean equal records and that an anchor pins a prefix, up to an explicit collision, are proved
  once there and interpreted here for the core's verifier (\<open>core\<close>). The walk is sound
  (\<open>walk_sound\<close>) and complete (\<open>walk_lines_complete\<close>) with respect to the chain of its record lines.
\<close>

subsection \<open>Hash chains\<close>

definition advance :: "(bytes \<Rightarrow> bytes) \<Rightarrow> head \<Rightarrow> bytes \<Rightarrow> head" where
  "advance hash h l = \<lparr> hd_seq = hd_seq h + 1, hd_hash = hash l \<rparr>"

primrec chain :: "(bytes \<Rightarrow> bytes) \<Rightarrow> (head \<Rightarrow> bytes \<Rightarrow> bool) \<Rightarrow> head \<Rightarrow> bytes list \<Rightarrow> head option" where
  "chain hash acc h [] = Some h"
| "chain hash acc h (l # ls) = (if acc h l then chain hash acc (advance hash h l) ls else None)"

definition collision :: "(bytes \<Rightarrow> bytes) \<Rightarrow> bytes list \<Rightarrow> bytes list \<Rightarrow> bool" where
  "collision hash ls ls' \<longleftrightarrow> (\<exists>a \<in> set ls. \<exists>b \<in> set ls'. a \<noteq> b \<and> hash a = hash b)"

lemma chain_append:
  "chain hash acc h (xs @ ys) = Some k \<longleftrightarrow>
    (\<exists>m. chain hash acc h xs = Some m \<and> chain hash acc m ys = Some k)"
  by (induction xs arbitrary: h) auto

lemma chain_seq: "chain hash acc h ls = Some k \<Longrightarrow> hd_seq k = hd_seq h + int (length ls)"
  by (induction ls arbitrary: h) (auto simp: advance_def split: if_splits)

lemma chain_snoc:
  "chain hash acc h (ls @ [l]) = Some k \<longleftrightarrow>
    (\<exists>m. chain hash acc h ls = Some m \<and> acc m l \<and> k = advance hash m l)"
  by (auto simp: chain_append)

text \<open>
  The interface of a chain verifier: a line determines the one head it can follow. Both verifiers
  provide it, because both compare the line's own \<^verbatim>\<open>seq\<close> and \<^verbatim>\<open>prev_hash\<close> with the head.
\<close>

locale chain_verifier =
  fixes hash :: "bytes \<Rightarrow> bytes" and acc :: "head \<Rightarrow> bytes \<Rightarrow> bool"
  assumes one_parent: "acc h l \<Longrightarrow> acc h' l \<Longrightarrow> h = h'"
begin

lemma same_head:
  assumes "chain hash acc g ls = Some h" "chain hash acc g ls' = Some h"
  shows "ls = ls' \<or> collision hash ls ls'"
  using assms
proof (induction ls arbitrary: h ls' rule: rev_induct)
  case Nil
  then have "ls' = []" using chain_seq [OF Nil.prems(2)] by simp
  then show ?case by simp
next
  case (snoc l ls)
  from chain_seq [OF snoc.prems(1)] chain_seq [OF snoc.prems(2)] have "length ls' = Suc (length ls)" by simp
  then obtain ls2 l2 where ls': "ls' = ls2 @ [l2]" by (metis length_Suc_conv_rev)
  from snoc.prems ls' obtain m m2 where
    m: "chain hash acc g ls = Some m" "acc m l" "h = advance hash m l" and
    m2: "chain hash acc g ls2 = Some m2" "acc m2 l2" "h = advance hash m2 l2"
    by (auto simp: chain_snoc)
  then have hash: "hash l = hash l2" by (simp add: advance_def)
  show ?case
  proof (cases "l = l2")
    case True
    with m m2 one_parent have "m = m2" by blast
    with snoc.IH [OF m(1)] m2 True ls' show ?thesis by (auto simp: collision_def)
  next
    case False
    with hash ls' show ?thesis by (auto simp: collision_def)
  qed
qed

lemma anchored_prefix:
  assumes "chain hash acc g ls = Some a" "chain hash acc g xs = Some a"
  shows "prefix ls (xs @ ys) \<or> collision hash ls (xs @ ys)"
  using same_head [OF assms] by (auto simp: collision_def)

end

subsection \<open>What one step accepts\<close>

definition accepts :: "crypto \<Rightarrow> keyring option \<Rightarrow> head \<Rightarrow> bytes \<Rightarrow> bool" where
  "accepts C kr h line = (case classify line of
     Parsed rec obj \<Rightarrow> v_seq rec = hd_seq h + 1 \<and> v_prev_hash rec = hd_hash h \<and>
       (case kr of None \<Rightarrow> True | Some k \<Rightarrow> verify_signature C k rec obj = Inr ())
   | _ \<Rightarrow> False)"

definition genesis :: head where
  "genesis = \<lparr> hd_seq = 0, hd_hash = genesis_prev_hash \<rparr>"

interpretation core: chain_verifier "line_hash C" "accepts C kr"
  by unfold_locales (auto simp: accepts_def split: parsed.splits)

definition terminated :: "bytes \<Rightarrow> bytes list" where
  "terminated s = butlast (split_char newline s)"

definition torn_tail :: "bytes \<Rightarrow> bytes" where
  "torn_tail s = last (split_char newline s)"

text \<open>The lines of a log that are records: terminated, and not a crash artifact.\<close>

definition record_lines :: "bytes \<Rightarrow> bytes list" where
  "record_lines s = filter (\<lambda>l. classify l \<noteq> Damage) (terminated s)"

lemma split_line: "newline \<notin> set l \<Longrightarrow> split_char newline (l @ newline # s) = l # split_char newline s"
  by (induction l) auto

lemma split_no_line: "newline \<notin> set l \<Longrightarrow> split_char newline l = [l]"
  by (induction l) auto

lemma terminated_line [simp]: "newline \<notin> set l \<Longrightarrow> terminated (l @ newline # s) = l # terminated s"
  by (simp add: terminated_def split_line)

lemma torn_tail_line [simp]: "newline \<notin> set l \<Longrightarrow> torn_tail (l @ newline # s) = torn_tail s"
  by (simp add: torn_tail_def split_line)

lemma terminated_none [simp]: "newline \<notin> set l \<Longrightarrow> terminated l = [] \<and> torn_tail l = l"
  by (simp add: terminated_def torn_tail_def split_no_line)

lemma record_lines_line:
  "newline \<notin> set l \<Longrightarrow> record_lines (l @ newline # s) =
    (if classify l = Damage then record_lines s else l # record_lines s)"
  by (simp add: record_lines_def)

lemma head_of_simps [simp]:
  "hd_seq (head_of w) = next_seq w - 1" "hd_hash (head_of w) = prev_hash w"
  by (simp_all add: head_of_def)

lemma check_anchor_keeps:
  "check_anchor w n = (w', go) \<Longrightarrow> head_of w' = head_of w \<and> w_anchor w' = w_anchor w \<and>
    w_keyring w' = w_keyring w \<and> records w' = records w \<and> damaged w' = damaged w \<and>
    (\<not> go \<longrightarrow> failed w') \<and> (go \<longrightarrow> failed w' = failed w)"
  by (auto simp: check_anchor_def invalid_def head_of_def Let_def split: option.splits if_splits)

lemma step_fails: "step C w l n = (w', False) \<Longrightarrow> failed w'"
  by (auto simp: step_def parse_canonical_def invalid_def dest: check_anchor_keeps
      split: parsed.splits if_splits sum.splits option.splits)

lemma step_goes:
  assumes "step C w l n = (w', True)"
  shows "w_anchor w' = w_anchor w \<and> w_keyring w' = w_keyring w \<and> failed w' = failed w \<and>
    (if classify l = Damage then w' = damage w n
     else accepts C (w_keyring w) (head_of w) l \<and> head_of w' = advance (line_hash C) (head_of w) l \<and>
       records w' = records w + 1 \<and> damaged w' = damaged w)"
  using assms
  by (auto simp: step_def parse_canonical_def invalid_def accepts_def damage_def advance_def head_of_def
      dest!: check_anchor_keeps split: parsed.splits if_splits sum.splits option.splits)

lemma walk_lines_sound:
  "walk_lines C fault w n s = Some w' \<Longrightarrow> \<not> failed w' \<Longrightarrow>
    \<not> failed w \<and> chain (line_hash C) (accepts C (w_keyring w)) (head_of w) (record_lines s) = Some (head_of w') \<and>
    records w' = records w + length (record_lines s)"
proof (induction C fault w n s rule: walk_lines.induct)
  case (1 C fault w n s)
  note eq = "1.prems"(1) [unfolded walk_lines.simps [of C fault w n s]]
  show ?case
  proof (cases "read_line read_chunk_bytes fault max_record_bytes s")
    case OverCap
    with eq "1.prems"(2) show ?thesis by (auto simp: invalid_def)
  next
    case (Line l rest)
    from read_line_LineD [OF Line] have s: "s = l @ newline # rest" "newline \<notin> set l" by auto
    obtain w1 go where st: "step C w l n = (w1, go)" by (cases "step C w l n")
    show ?thesis
    proof (cases go)
      case False
      with eq Line st step_fails "1.prems"(2) show ?thesis by auto
    next
      case True
      with st have st': "step C w l n = (w1, True)" by simp
      from True eq Line st have "walk_lines C fault w1 (n + 1) rest = Some w'" by simp
      with "1.IH" [OF Line st [symmetric] True] "1.prems"(2) step_goes [OF st']
      show ?thesis by (auto simp: s record_lines_line damage_def head_of_def split: if_splits)
    qed
  next
    case (Fragment l)
    then have "newline \<notin> set s" by (auto simp: read_line_eq line_spec_def Let_def split: if_splits)
    moreover have "head_of w' = head_of w \<and> records w' = records w \<and> \<not> failed w"
      using eq Fragment "1.prems"(2)
      by (auto simp: check_truncated_def invalid_def damage_def head_of_def split: if_splits option.splits)
    ultimately show ?thesis by (simp add: record_lines_def)
  next
    case ReadError
    with eq show ?thesis by simp
  qed
qed

lemma walk_sound:
  assumes "walk C fault s kr a = Some w" "\<not> failed w"
  shows "chain (line_hash C) (accepts C kr) genesis (record_lines s) = Some (head_of w) \<and>
    records w = length (record_lines s)"
proof -
  obtain w0 go where c: "check_anchor (initial_walk kr a) 0 = (w0, go)" by (cases "check_anchor (initial_walk kr a) 0")
  from check_anchor_keeps [OF c] have k: "head_of w0 = genesis" "w_keyring w0 = kr" "records w0 = 0"
    "\<not> go \<longrightarrow> failed w0"
    by (auto simp: initial_walk_def genesis_def head_of_def)
  with assms c have "walk_lines C fault w0 1 s = Some w" by (auto simp: walk_def split: if_splits)
  with walk_lines_sound [OF this assms(2)] k show ?thesis by simp
qed


subsection \<open>Tamper evidence\<close>

definition verified :: "result \<Rightarrow> bool" where
  "verified r \<longleftrightarrow> res_status r \<noteq> StatusInvalid"

definition keyring_of :: "keyring option \<Rightarrow> keyring" where
  "keyring_of kr = (case kr of None \<Rightarrow> Map.empty | Some k \<Rightarrow> k)"

lemma verify_walk:
  assumes "verify C fault s kr a = Some r" "verified r"
  obtains w where "walk C fault s (Some (keyring_of kr)) a = Some w" "\<not> failed w" "res_head r = head_of w"
    "res_records r = records w"
  using assms by (auto simp: verify_def verified_def keyring_of_def split: option.splits if_splits)

lemma verify_chain:
  assumes "verify C fault s kr a = Some r" "verified r"
  shows "chain (line_hash C) (accepts C (Some (keyring_of kr))) genesis (record_lines s) = Some (res_head r)"
  using verify_walk [OF assms] walk_sound by metis

lemma collision_line_hash: "collision (line_hash C) ls ls' \<longleftrightarrow> collision (sha256 C) ls ls'"
  by (simp add: collision_def line_hash_inject)

text \<open>
  C1: tamper evidence. Two logs that verify under one keyring and report the same head hold the
  same records in the same order, or two of their lines are an explicit SHA-256 collision: no
  record can be altered, inserted, reordered or dropped from the middle without the head
  changing.
\<close>
theorem tamper_evident:
  assumes "verify C f1 s1 kr a1 = Some r1" "verified r1" "verify C f2 s2 kr a2 = Some r2" "verified r2"
    and "res_head r1 = res_head r2"
  shows "record_lines s1 = record_lines s2 \<or> collision (sha256 C) (record_lines s1) (record_lines s2)"
  using core.same_head [OF verify_chain [OF assms(1,2)]] verify_chain [OF assms(3,4)] assms(5)
  by (simp add: collision_line_hash)

text \<open>
  C2: authenticity. Every record of a log that verifies carries an ed25519 signature, by a key of
  the keyring, over the canonical bytes of the record without its \<^verbatim>\<open>sig\<close> member, and its
  \<^verbatim>\<open>seq\<close> is its position in the log.
\<close>
theorem verified_records_signed:
  assumes "verify C fault s (Some kr) a = Some r" "verified r" "i < length (record_lines s)"
  shows "\<exists>rec obj sg pub raw msg. classify (record_lines s ! i) = Parsed rec obj \<and> v_seq rec = int i + 1 \<and>
    v_sig rec = Some sg \<and> v_alg sg = ''ed25519'' \<and> kr (v_key_id sg) = Some pub \<and>
    b64_decode (v_sig_b64 sg) = Some raw \<and> append_canonical (JObj (unsigned obj)) = Inr msg \<and>
    ed_verify C pub msg raw"
proof -
  let ?ls = "record_lines s"
  have split: "?ls = take i ?ls @ ?ls ! i # drop (Suc i) ?ls" using assms(3) by (simp add: id_take_nth_drop)
  from verify_chain [OF assms(1,2)] obtain m where
    m: "chain (line_hash C) (accepts C (Some kr)) genesis (take i ?ls) = Some m" "accepts C (Some kr) m (?ls ! i)"
    by (subst (asm) split) (auto simp: chain_append keyring_of_def split: if_splits)
  from chain_seq [OF m(1)] assms(3) have "hd_seq m = int i" by (simp add: genesis_def)
  with m(2) show ?thesis
    by (fastforce simp: accepts_def verify_signature_def split: parsed.splits option.splits if_splits sum.splits)
qed

subsection \<open>Anchors\<close>

lemma check_anchor_seen:
  assumes "check_anchor w n = (w', True)" "w_anchor w = Some a" "\<not> anchor_seen w"
  shows "(anchor_seen w' \<longrightarrow> head_of w = a)"
  using assms by (auto simp: check_anchor_def invalid_def Let_def head_of_def split: if_splits)

lemma step_anchor:
  assumes "step C w l n = (w', True)" "w_anchor w = Some a" "\<not> anchor_seen w" "anchor_seen w'"
  shows "classify l \<noteq> Damage \<and> head_of w' = a"
proof -
  from assms(1,3,4) obtain u where "classify l \<noteq> Damage" "check_anchor u n = (w', True)"
    "w_anchor u = w_anchor w" "anchor_seen u = anchor_seen w"
    by (auto simp: step_def parse_canonical_def invalid_def damage_def
        split: parsed.splits if_splits sum.splits option.splits)
  with check_anchor_seen [of u n w' a] check_anchor_keeps [of u n w' True] assms show ?thesis by simp
qed

lemma walk_lines_anchor:
  "walk_lines C fault w n s = Some w' \<Longrightarrow> \<not> failed w' \<Longrightarrow> w_anchor w = Some a \<Longrightarrow> \<not> anchor_seen w \<Longrightarrow>
    \<exists>xs ys. record_lines s = xs @ ys \<and>
      chain (line_hash C) (accepts C (w_keyring w)) (head_of w) xs = Some a"
proof (induction C fault w n s rule: walk_lines.induct)
  case (1 C fault w n s)
  note eq = "1.prems"(1) [unfolded walk_lines.simps [of C fault w n s]]
  show ?case
  proof (cases "read_line read_chunk_bytes fault max_record_bytes s")
    case OverCap
    with eq "1.prems"(2) show ?thesis by (auto simp: invalid_def)
  next
    case (Line l rest)
    from read_line_LineD [OF Line] have s: "s = l @ newline # rest" "newline \<notin> set l" by auto
    obtain w1 go where st: "step C w l n = (w1, go)" by (cases "step C w l n")
    show ?thesis
    proof (cases go)
      case False
      with eq Line st step_fails "1.prems"(2) show ?thesis by auto
    next
      case True
      with st have st': "step C w l n = (w1, True)" by simp
      from True eq Line st have w: "walk_lines C fault w1 (n + 1) rest = Some w'" by simp
      note k = step_goes [OF st']
      show ?thesis
      proof (cases "anchor_seen w1")
        case seen: True
        from step_anchor [OF st' "1.prems"(3,4) seen] k have
          "chain (line_hash C) (accepts C (w_keyring w)) (head_of w) [l] = Some a" "classify l \<noteq> Damage" by auto
        then show ?thesis
          by (intro exI [of _ "[l]"] exI [of _ "record_lines rest"]) (simp add: s record_lines_line)
      next
        case False
        with "1.IH" [OF Line st [symmetric] True w "1.prems"(2)] k "1.prems"(3) obtain xs ys where
          x: "record_lines rest = xs @ ys"
          "chain (line_hash C) (accepts C (w_keyring w)) (head_of w1) xs = Some a" by auto
        show ?thesis
        proof (cases "classify l = Damage")
          case True
          with x k s show ?thesis by (intro exI [of _ xs] exI [of _ ys]) (auto simp: record_lines_line damage_def head_of_def)
        next
          case False
          with x k s show ?thesis by (intro exI [of _ "l # xs"] exI [of _ ys]) (auto simp: record_lines_line)
        qed
      qed
    qed
  next
    case (Fragment l)
    with eq "1.prems"(2-4) show ?thesis
      by (auto simp: check_truncated_def invalid_def damage_def split: if_splits)
  next
    case ReadError
    with eq show ?thesis by simp
  qed
qed

lemma walk_anchor:
  assumes "walk C fault s kr (Some a) = Some w" "\<not> failed w"
  shows "\<exists>xs ys. record_lines s = xs @ ys \<and> chain (line_hash C) (accepts C kr) genesis xs = Some a"
proof -
  obtain w0 go where c: "check_anchor (initial_walk kr (Some a)) 0 = (w0, go)"
    by (cases "check_anchor (initial_walk kr (Some a)) 0")
  from check_anchor_keeps [OF c] have k: "head_of w0 = genesis" "w_keyring w0 = kr" "w_anchor w0 = Some a"
    "\<not> go \<longrightarrow> failed w0"
    by (auto simp: initial_walk_def genesis_def head_of_def)
  with assms c have go: go and w: "walk_lines C fault w0 1 s = Some w" by (auto simp: walk_def split: if_splits)
  show ?thesis
  proof (cases "anchor_seen w0")
    case True
    with check_anchor_seen [of "initial_walk kr (Some a)" 0 w0 a] c go have "genesis = a"
      by (simp add: initial_walk_def genesis_def head_of_def)
    then show ?thesis by (intro exI [of _ "[]"] exI [of _ "record_lines s"]) simp
  next
    case False
    with walk_lines_anchor [OF w assms(2) k(3)] k show ?thesis by simp
  qed
qed

lemma verify_anchor:
  assumes "verify C fault s kr (Some a) = Some r" "verified r"
  shows "\<exists>xs ys. record_lines s = xs @ ys \<and>
    chain (line_hash C) (accepts C (Some (keyring_of kr))) genesis xs = Some a"
  using verify_walk [OF assms] walk_anchor by metis

text \<open>
  C3: an anchor pins the past. If a log once verified with head \<open>a\<close> and a later log verifies
  against the anchor \<open>a\<close>, the earlier log's records are a prefix of the later log's, or there is
  an explicit SHA-256 collision.
\<close>
theorem anchor_pins_prefix:
  assumes "verify C f1 s1 kr a1 = Some r1" "verified r1"
    and "verify C f2 s2 kr (Some (res_head r1)) = Some r2" "verified r2"
  shows "prefix (record_lines s1) (record_lines s2) \<or> collision (sha256 C) (record_lines s1) (record_lines s2)"
proof -
  from verify_anchor [OF assms(3,4)] obtain xs ys where x: "record_lines s2 = xs @ ys"
    "chain (line_hash C) (accepts C (Some (keyring_of kr))) genesis xs = Some (res_head r1)" by blast
  from core.anchored_prefix [OF verify_chain [OF assms(1,2)] x(2), of ys] show ?thesis
    by (simp add: x(1) collision_line_hash)
qed

text \<open>
  C4: truncation is detected without any assumption on the hash: a log holding fewer records than
  the log whose head is the anchor does not verify.
\<close>
theorem truncation_detected:
  assumes "verify C f1 s1 kr a1 = Some r1" "verified r1"
    and "verify C f2 s2 kr (Some (res_head r1)) = Some r2"
    and "length (record_lines s2) < length (record_lines s1)"
  shows "res_status r2 = StatusInvalid"
proof (rule ccontr)
  assume "res_status r2 \<noteq> StatusInvalid"
  then have "verified r2" by (simp add: verified_def)
  from verify_anchor [OF assms(3) this] obtain xs ys where x: "record_lines s2 = xs @ ys"
    "chain (line_hash C) (accepts C (Some (keyring_of kr))) genesis xs = Some (res_head r1)" by blast
  from chain_seq [OF x(2)] chain_seq [OF verify_chain [OF assms(1,2)]] assms(4) x(1) show False by simp
qed

subsection \<open>What verifies\<close>

text \<open>Without an anchor, a chain of records whose lines fit the cap verifies.\<close>

lemma step_accepts:
  assumes "w_anchor w = None" "accepts C (w_keyring w) (head_of w) l"
  shows "step C w l n = (w\<lparr> prev_hash := line_hash C l, next_seq := next_seq w + 1, records := records w + 1 \<rparr>, True)"
  using assms
  by (auto simp: step_def parse_canonical_def accepts_def check_anchor_def split: parsed.splits option.splits)

lemma step_damage: "classify l = Damage \<Longrightarrow> step C w l n = (damage w n, True)"
  by (simp add: step_def parse_canonical_def)

lemma read_line_Fragment:
  "newline \<notin> set s \<Longrightarrow> length s \<le> cap \<Longrightarrow> read_line n False cap s = Fragment s"
  by (simp add: read_line_eq line_spec_def)

lemma accepts_parsed: "accepts C kr h l \<Longrightarrow> classify l \<noteq> Damage"
  by (auto simp: accepts_def)

lemma walk_lines_complete:
  assumes "\<forall>l \<in> set ls. newline \<notin> set l \<and> length l < max_record_bytes"
    and "newline \<notin> set t" "length t \<le> max_record_bytes"
    and "w_anchor w = None" "\<not> failed w"
    and "chain (line_hash C) (accepts C (w_keyring w)) (head_of w) (filter (\<lambda>l. classify l \<noteq> Damage) ls) = Some h"
  shows "\<exists>w'. walk_lines C False w n (concat (map (\<lambda>l. l @ [newline]) ls) @ t) = Some w' \<and> \<not> failed w' \<and>
    head_of w' = h \<and> (damaged w' = [] \<longleftrightarrow> damaged w = [] \<and> t = [] \<and> (\<forall>l \<in> set ls. classify l \<noteq> Damage)) \<and>
    records w' = records w + length (filter (\<lambda>l. classify l \<noteq> Damage) ls)"
  using assms
proof (induction ls arbitrary: w n)
  case Nil
  then show ?case
    by (subst walk_lines.simps) (auto simp: read_line_Fragment check_truncated_def damage_def head_of_def)
next
  case (Cons l ls)
  let ?s = "concat (map (\<lambda>l. l @ [newline]) ls) @ t"
  from Cons.prems(1) have rl: "read_line read_chunk_bytes False max_record_bytes (l @ newline # ?s) = Line l ?s"
    by (intro read_line_Line) auto
  show ?case
  proof (cases "classify l = Damage")
    case True
    have "\<exists>w'. walk_lines C False (damage w n) (n + 1) ?s = Some w' \<and> \<not> failed w' \<and>
      head_of w' = h \<and> (damaged w' = [] \<longleftrightarrow> damaged (damage w n) = [] \<and> t = [] \<and> (\<forall>l \<in> set ls. classify l \<noteq> Damage)) \<and>
      records w' = records (damage w n) + length (filter (\<lambda>l. classify l \<noteq> Damage) ls)"
      by (rule Cons.IH) (use Cons.prems True in \<open>auto simp: damage_def head_of_def\<close>)
    with True rl show ?thesis
      by (subst walk_lines.simps) (auto simp: step_damage damage_def)
  next
    case False
    define u where "u = w\<lparr> prev_hash := line_hash C l, next_seq := next_seq w + 1, records := records w + 1 \<rparr>"
    from Cons.prems(6) False have a: "accepts C (w_keyring w) (head_of w) l" by (auto split: if_splits)
    have hu: "head_of u = advance (line_hash C) (head_of w) l" by (simp add: u_def head_of_def advance_def)
    have "\<exists>w'. walk_lines C False u (n + 1) ?s = Some w' \<and> \<not> failed w' \<and>
      head_of w' = h \<and> (damaged w' = [] \<longleftrightarrow> damaged u = [] \<and> t = [] \<and> (\<forall>l \<in> set ls. classify l \<noteq> Damage)) \<and>
      records w' = records u + length (filter (\<lambda>l. classify l \<noteq> Damage) ls)"
      by (rule Cons.IH) (use Cons.prems False hu in \<open>auto simp: u_def split: if_splits\<close>)
    with False rl step_accepts [OF Cons.prems(4) a, of n] show ?thesis
      by (subst walk_lines.simps) (auto simp: u_def)
  qed
qed

text \<open>
  a line of exactly the maximum record size never verifies: the cap of \<^verbatim>\<open>readLine\<close> counts the
  newline, although the limit of the format is on the record without it.
\<close>
theorem full_size_line_refused:
  assumes "length l = max_record_bytes" "newline \<notin> set l"
  shows "verify C fault (l @ newline # s) kr None = Some r \<Longrightarrow>
    res_status r = StatusInvalid \<and> res_reason r = Some RecordTooLarge \<and> res_failed_line r = 1"
proof -
  have "read_line read_chunk_bytes fault max_record_bytes (l @ newline # s) = OverCap"
    using assms by (simp add: read_line_eq line_spec_def takeWhile_line)
  then have "walk_lines C fault w (Suc 0) (l @ newline # s) = Some (fst (invalid w (Suc 0) RecordTooLarge))" for w
    by (subst walk_lines.simps) simp
  then show "verify C fault (l @ newline # s) kr None = Some r \<Longrightarrow> ?thesis"
    by (auto simp: verify_def walk_def check_anchor_def initial_walk_def invalid_def)
qed

subsection \<open>Witnesses\<close>

text \<open>
  A witness can only lower the verdict. It is asked about nothing but the head of a log that
  verified; a refusal makes the result INVALID with no line at fault, an attestation leaves the
  verdict, the head and the counts alone, and a command that cannot answer gives an error, never
  a verdict.
\<close>
theorem witnessed_only_lowers:
  assumes "witnessed run res command = Inr res'"
  shows "res_head res' = res_head res \<and> res_records res' = res_records res \<and>
    (res' = res \<and> (command = [] \<or> \<not> verified res) \<or>
     verified res \<and> (\<exists>out err. run [command, head_string (res_head res)] = (Some 0, out, err) \<and>
        res_status res' = res_status res) \<or>
     verified res \<and> (\<exists>out err. run [command, head_string (res_head res)] = (Some 1, out, err) \<and>
        res_status res' = StatusInvalid \<and> res_failed_line res' = 0))"
proof (cases "command = [] \<or> res_status res = StatusInvalid")
  case True
  with assms show ?thesis by (auto simp: witnessed_def verified_def)
next
  case False
  obtain exit out err where r: "run [command, head_string (res_head res)] = (exit, out, err)"
    by (cases "run [command, head_string (res_head res)]") auto
  consider "exit = Some 0" | "exit = Some 1" | "exit \<noteq> Some 0" "exit \<noteq> Some 1" by blast
  then show ?thesis
  proof cases
    case 1
    with assms False r have "res' = res\<lparr> res_witness := Some \<lparr> wit_command = command, attested = True,
        attested_at = attested_at_of out \<rparr> \<rparr>"
      by (simp add: witnessed_def ask_witness_def)
    with 1 False r show ?thesis by (simp add: verified_def)
  next
    case 2
    with assms False r have "res' = res\<lparr> res_witness := Some \<lparr> wit_command = command, attested = False,
        attested_at = None \<rparr>, res_status := StatusInvalid, res_failed_line := 0,
        res_reason := Some (witness_reason command (res_head res) (first_line err)) \<rparr>"
      by (simp add: witnessed_def ask_witness_def Let_def)
    with 2 False r show ?thesis by (simp add: verified_def)
  next
    case 3
    with assms False r show ?thesis by (simp add: witnessed_def ask_witness_def)
  qed
qed

end
