(* ===== verification/Store.thy ===== *)
theory Store
  imports VerifyProps
begin

text \<open>
  \<^verbatim>\<open>internal/evidence/store.go\<close>: the append-only writer. The store's state is the log file's
  bytes with the fields of the struct; the operating system is an explicit answer passed to each
  operation (did the lock, the write, the sync succeed, and how many bytes of a failed write
  reached the file), so every error path of the code is a branch here. \<open>open_store\<close> returns the
  file as well, because closing a torn tail changes it even when resuming then fails.
\<close>

datatype store_error =
    SignerRequired | LockOpenFailed | LockedByOther | LockFailed | OpenFailed | SyncDirFailed
  | TailStatFailed | TailReadFailed | TailWriteFailed | SeekFailed | ReadLogFailed | ChainState nat "reason option"
  | StoreBroken | ChainFieldsSet | RecordInvalid record_error | NotCanonicalizable canon_error
  | TooLarge nat | WriteFailed | SyncFailed

record store =
  st_file :: bytes
  st_signer :: signer
  st_next_seq :: int
  st_prev_hash :: bytes
  st_broken :: bool

subsection \<open>Opening\<close>

datatype lock_answer = LockFileUnopenable | LockHeld | LockErr | LockTaken

definition acquire_lock :: "lock_answer \<Rightarrow> store_error + unit" where
  "acquire_lock a = (case a of LockFileUnopenable \<Rightarrow> Inl LockOpenFailed
     | LockHeld \<Rightarrow> Inl LockedByOther | LockErr \<Rightarrow> Inl LockFailed | LockTaken \<Rightarrow> Inr ())"

datatype errno = EINVAL | OtherErrno

definition durability_unknown :: "errno option \<Rightarrow> bool" where
  "durability_unknown e = (e \<noteq> None \<and> e \<noteq> Some EINVAL)"

text \<open>The directory: whether it opens, how its sync ends, whether it closes.\<close>

record dir_answer =
  dir_opens :: bool
  dir_sync :: "errno option"
  dir_closes :: bool

definition sync_dir :: "dir_answer \<Rightarrow> store_error + unit" where
  "sync_dir d = (if \<not> dir_opens d then Inl SyncDirFailed
     else if durability_unknown (dir_sync d) then Inl SyncDirFailed
     else if \<not> dir_closes d then Inl SyncDirFailed else Inr ())"

record open_answer =
  o_lock :: lock_answer
  o_file_opens :: bool
  o_dir :: dir_answer
  o_stat :: bool
  o_tail_read :: bool
  o_tail_write :: bool
  o_seek :: bool
  o_read_fault :: bool

definition close_torn_tail :: "open_answer \<Rightarrow> bytes \<Rightarrow> bytes \<times> (store_error + unit)" where
  "close_torn_tail os file =
     (if \<not> o_stat os then (file, Inl TailStatFailed)
      else if length file = 0 then (file, Inr ())
      else if \<not> o_tail_read os then (file, Inl TailReadFailed)
      else if last file = newline then (file, Inr ())
      else if \<not> o_tail_write os then (file, Inl TailWriteFailed)
      else (file @ [newline], Inr ()))"

definition resume :: "crypto \<Rightarrow> open_answer \<Rightarrow> store \<Rightarrow> store \<times> (store_error + unit)" where
  "resume C os st = (case close_torn_tail os (st_file st) of (file, r) \<Rightarrow>
     let st = st\<lparr> st_file := file \<rparr> in
     (case r of Inl e \<Rightarrow> (st, Inl e)
      | Inr u \<Rightarrow>
         if \<not> o_seek os then (st, Inl SeekFailed)
         else (case walk C (o_read_fault os) file None None of None \<Rightarrow> (st, Inl ReadLogFailed)
           | Some w \<Rightarrow>
              if failed w then (st, Inl (ChainState (failed_line w) (failure w)))
              else (st\<lparr> st_next_seq := next_seq w, st_prev_hash := prev_hash w \<rparr>, Inr ()))))"

definition open_store ::
    "crypto \<Rightarrow> open_answer \<Rightarrow> bytes \<Rightarrow> signer option \<Rightarrow> bytes \<times> (store_error + store)" where
  "open_store C os file sg = (case sg of None \<Rightarrow> (file, Inl SignerRequired)
     | Some s \<Rightarrow> (case acquire_lock (o_lock os) of Inl e \<Rightarrow> (file, Inl e)
       | Inr u \<Rightarrow>
          if \<not> o_file_opens os then (file, Inl OpenFailed)
          else (case sync_dir (o_dir os) of Inl e \<Rightarrow> (file, Inl e)
            | Inr u \<Rightarrow>
               (case resume C os \<lparr> st_file = file, st_signer = s, st_next_seq = 0, st_prev_hash = [],
                     st_broken = False \<rparr> of (st, r) \<Rightarrow>
                  (st_file st, case r of Inl e \<Rightarrow> Inl e | Inr u \<Rightarrow> Inr st)))))"

subsection \<open>Appending\<close>

definition sealed :: "crypto \<Rightarrow> store \<Rightarrow> evidence_record \<Rightarrow> store_error + evidence_record \<times> bytes" where
  "sealed C st rec = (case validate rec of Inl e \<Rightarrow> Inl (RecordInvalid e)
     | Inr u \<Rightarrow> (case canonicalize_record rec of Inl e \<Rightarrow> Inl (NotCanonicalizable e)
       | Inr message \<Rightarrow>
          let rec = rec\<lparr> rec_sig := Some \<lparr> sig_alg = ''ed25519'', sig_key_id = key_id (st_signer st),
                sig_b64 = b64_encode (ed_sign C (seed (st_signer st)) message) \<rparr> \<rparr> in
          (case canonicalize_record rec of Inl e \<Rightarrow> Inl (NotCanonicalizable e)
           | Inr line \<Rightarrow> if length line > max_record_bytes then Inl (TooLarge (length line))
               else Inr (rec, line))))"

text \<open>How the write ended: done, failed after some bytes, or written but not synced.\<close>

datatype write_answer = Written | WriteError nat | SyncError

definition write_line :: "write_answer \<Rightarrow> store \<Rightarrow> bytes \<Rightarrow> store \<times> (store_error + unit)" where
  "write_line ans st line = (case ans of
     WriteError k \<Rightarrow> (st\<lparr> st_file := st_file st @ take k (line @ [newline]), st_broken := True \<rparr>, Inl WriteFailed)
   | SyncError \<Rightarrow> (st\<lparr> st_file := st_file st @ line @ [newline], st_broken := True \<rparr>, Inl SyncFailed)
   | Written \<Rightarrow> (st\<lparr> st_file := st_file st @ line @ [newline] \<rparr>, Inr ()))"

definition append_record ::
    "crypto \<Rightarrow> write_answer \<Rightarrow> store \<Rightarrow> evidence_record \<Rightarrow> store \<times> evidence_record \<times> (store_error + unit)" where
  "append_record C ans st rec =
     (if st_broken st then (st, rec, Inl StoreBroken)
      else if rec_sig rec \<noteq> None \<or> rec_seq rec \<noteq> 0 \<or> rec_prev_hash rec \<noteq> []
      then (st, rec, Inl ChainFieldsSet)
      else
        let rec = rec\<lparr> rec_seq := st_next_seq st, rec_prev_hash := st_prev_hash st \<rparr> in
        (case sealed C st rec of
           Inl e \<Rightarrow> (st, rec\<lparr> rec_seq := 0, rec_prev_hash := [], rec_sig := None \<rparr>, Inl e)
         | Inr (rec, line) \<Rightarrow>
             (case write_line ans st line of (st, r) \<Rightarrow>
               (case r of Inl e \<Rightarrow> (st, rec, Inl e)
                | Inr u \<Rightarrow> (st\<lparr> st_prev_hash := line_hash C line, st_next_seq := st_next_seq st + 1 \<rparr>, rec, Inr ())))))"

end
