(* ===== verification/StoreAccept.thy ===== *)
theory StoreAccept
  imports Store
begin

text \<open>
  The writer and the reader agree: what \<open>sealed\<close> (\<^verbatim>\<open>internal/evidence/store.go\<close>) produces is a
  single line that the verifier's \<open>classify\<close> reads back as the record it was made from, whose
  signature verifies under the signer's public key, and which the chain accepts after the head the
  store carries (\<open>sealed_accepted\<close>).
\<close>

subsection \<open>Reading back a record the writer canonicalized\<close>

lemma conforms_norm: "conforms (norm v) = conforms v"
proof (induction v rule: json_induct)
  case (Arr vs)
  then have "map conforms (map norm vs) = map conforms vs" by auto
  then show ?case by (simp only: norm.simps conforms.simps)
next
  case (Obj ms)
  let ?c = "map_prod (\<lambda>k. k) conforms"
  have "set (map ?c (isort (by_key less_utf16) (map (map_prod (\<lambda>k. k) norm) ms))) = set (map ?c ms)"
    using Obj by (force simp: image_image)
  then show ?case
    unfolding norm.simps conforms.simps fun_eq_iff list_all_iff by (simp only:) simp
qed auto

lemma field_name_exact: "k \<in> set names \<Longrightarrow> field_name names k = Some k"
  by (simp add: field_name_def)

text \<open>A key that the struct decoder does not confuse with another: it names its field exactly, or none.\<close>

definition plain_key :: "bytes list \<Rightarrow> bytes \<Rightarrow> bool" where
  "plain_key names k \<longleftrightarrow> k \<in> set names \<or> field_name names k = None"

lemma record_names_mem: "{''schema'', ''seq'', ''prev_hash'', ''sig''} \<subseteq> set record_names"
  by (simp add: record_names_def record_shape_def struct_fields_def)

lemma put_exact:
  assumes "plain_key record_names k"
  shows "put_field (k, v) r =
    (if k = ''schema'' then r\<lparr> v_schema := set_str v (v_schema r) \<rparr>
     else if k = ''seq'' then r\<lparr> v_seq := set_int v (v_seq r) \<rparr>
     else if k = ''prev_hash'' then r\<lparr> v_prev_hash := set_str v (v_prev_hash r) \<rparr>
     else if k = ''sig'' then r\<lparr> v_sig := set_sig v (v_sig r) \<rparr> else r)"
proof (cases "k \<in> set record_names")
  case True
  then show ?thesis by (simp add: put_field_def Let_def field_name_exact)
next
  case False
  with assms have "field_name record_names k = None" by (simp add: plain_key_def)
  moreover from False record_names_mem have "k \<notin> {''schema'', ''seq'', ''prev_hash'', ''sig''}" by blast
  ultimately show ?thesis by (simp add: put_field_def Let_def)
qed

lemma fold_put_field:
  assumes "\<forall>k \<in> fst ` set ms. plain_key record_names k" "distinct (map fst ms)"
  shows "v_schema (fold put_field ms r) = (case map_of ms ''schema'' of None \<Rightarrow> v_schema r | Some v \<Rightarrow> set_str v (v_schema r)) \<and>
    v_seq (fold put_field ms r) = (case map_of ms ''seq'' of None \<Rightarrow> v_seq r | Some v \<Rightarrow> set_int v (v_seq r)) \<and>
    v_prev_hash (fold put_field ms r) = (case map_of ms ''prev_hash'' of None \<Rightarrow> v_prev_hash r | Some v \<Rightarrow> set_str v (v_prev_hash r)) \<and>
    v_sig (fold put_field ms r) = (case map_of ms ''sig'' of None \<Rightarrow> v_sig r | Some v \<Rightarrow> set_sig v (v_sig r))"
  using assms
proof (induction ms arbitrary: r)
  case Nil
  then show ?case by simp
next
  case (Cons m ms)
  obtain k v where m: "m = (k, v)" by (cases m)
  from Cons.prems m have k: "plain_key record_names k" by auto
  from Cons.prems m have n: "map_of ms k = None" by (auto simp: map_of_eq_None_iff)
  have "v_schema (fold put_field ms r) = (case map_of ms ''schema'' of None \<Rightarrow> v_schema r | Some v \<Rightarrow> set_str v (v_schema r)) \<and>
    v_seq (fold put_field ms r) = (case map_of ms ''seq'' of None \<Rightarrow> v_seq r | Some v \<Rightarrow> set_int v (v_seq r)) \<and>
    v_prev_hash (fold put_field ms r) = (case map_of ms ''prev_hash'' of None \<Rightarrow> v_prev_hash r | Some v \<Rightarrow> set_str v (v_prev_hash r)) \<and>
    v_sig (fold put_field ms r) = (case map_of ms ''sig'' of None \<Rightarrow> v_sig r | Some v \<Rightarrow> set_sig v (v_sig r))" for r
    using Cons.prems by (intro Cons.IH) auto
  note IH = this [of "put_field (k, v) r"]
  consider "k = ''schema''" | "k = ''seq''" | "k = ''prev_hash''" | "k = ''sig''"
    | "k \<noteq> ''schema''" "k \<noteq> ''seq''" "k \<noteq> ''prev_hash''" "k \<noteq> ''sig''" by blast
  then show ?case
    by cases (use IH n put_exact [OF k, of v r] in \<open>simp_all add: m cong: option.case_cong\<close>)
qed

lemma map_of_isort: "distinct (map fst ps) \<Longrightarrow> map_of (isort (by_key lt) ps) = map_of ps"
proof -
  assume d: "distinct (map fst ps)"
  then have "distinct (map fst (isort (by_key lt) ps))"
    by (metis mset_isort mset_map mset_eq_imp_distinct_iff)
  then show ?thesis using d by (intro map_of_inject_set [THEN iffD2]) auto
qed

lemma map_of_map_norm: "map_of (map (map_prod (\<lambda>k. k) f) ps) k = map_option f (map_of ps k)"
  by (induction ps) auto

subsection \<open>The tree of a record conforms to the struct\<close>

definition sig_members :: "evidence_record \<Rightarrow> (bytes \<times> json) list" where
  "sig_members r = (case rec_sig r of None \<Rightarrow> [] | Some s \<Rightarrow> [(''sig'', sig_json s)])"

lemma record_json_members: "record_json r = JObj (record_members r @ sig_members r)"
  by (simp add: record_json_def sig_members_def)

lemma conforms_opt:
  "conforms (json_opt JStr p) SStr" "conforms (json_opt JBool b) SBool"
  by (auto simp: json_opt_def split: option.splits)

definition int_small :: "int \<Rightarrow> bool" where
  "int_small i \<longleftrightarrow> parse_int64 (show_int i) \<noteq> None"

lemma safe_int_small: "safe_int (show_int i) \<Longrightarrow> int_small i"
  using parse_show_int [of i] by (auto simp: int_small_def safe_int_show_iff max_safe_integer_def)

lemma parse_show_unique:
  assumes "parse_int64 (show_int i) = Some k"
  shows "parse_int64 (show_int i) = Some i"
proof -
  define n where "n = nat \<bar>i\<bar>"
  have d: "list_all is_digit (show_nat n)" "show_nat n \<noteq> []" by (simp_all add: show_nat_digits)
  have "k = i"
  proof (cases "i < 0")
    case True
    with assms parse_neg_digits [OF d] show ?thesis by (auto simp: show_int_def n_def split: if_splits)
  next
    case False
    with assms parse_digits [OF d] show ?thesis by (auto simp: show_int_def n_def split: if_splits)
  qed
  with assms show ?thesis by simp
qed

lemma conforms_opt_int: "(\<forall>i. p = Some i \<longrightarrow> int_small i) \<Longrightarrow> conforms (json_opt json_int p) SInt"
  by (auto simp: json_opt_def int_small_def split: option.splits)

lemma record_conforms:
  assumes "\<forall>i \<in> set (ints_of r). int_small i"
  shows "conforms (record_json r) record_shape"
proof -
  note f = field_name_def
  have 1: "conforms (drill_json d) (SStruct [(''name'', SStr), (''config_hash'', SStr), (''pitr_target'', SStr)])" for d
    by (simp add: drill_json_def f conforms_opt)
  have 2: "conforms (backup_json (rec_backup r)) (SStruct [(''kind'', SStr), (''checksum'', SStr), (''size_bytes'', SInt),
         (''created_at'', SStr), (''manifest_hash'', SStr), (''manifest_match'', SBool),
         (''newest_data_at'', SStr)])"
    using assms by (simp add: backup_json_def f conforms_opt conforms_opt_int ints_of_def split: option.splits)
  have 3: "conforms (adapter_json a) (SStruct [(''name'', SStr), (''version'', SStr), (''protocol'', SStr), (''digest'', SStr)])" for a
    by (simp add: adapter_json_def f conforms_opt)
  have 4: "conforms (params_json ps) (SMap SStr)" for ps
    by (auto simp: params_json_def list_all_iff)
  then have 4: "conforms (json_opt params_json ps) (SMap SStr)" for ps
    by (auto simp: json_opt_def split: option.splits)
  have 5: "conforms (resources_json (sandbox_resources (rec_sandbox r))) (SStruct [(''memory_bytes'', SInt), (''cpus_milli'', SInt)])"
    using assms by (simp add: resources_json_def f conforms_opt_int ints_of_def split: option.splits)
  have 6: "conforms (timings_json (rec_timings r)) (SStruct [(''provision'', SInt), (''engine_ready'', SInt), (''transfer'', SInt),
         (''restore'', SInt), (''validate'', SInt), (''total'', SInt)])"
    using assms by (simp add: timings_json_def f conforms_opt_int ints_of_def split: option.splits)
  have 7: "conforms (check_json c) (SStruct [(''name'', SStr), (''ok'', SBool), (''detail'', SStr)])" for c
    by (simp add: check_json_def f conforms_opt)
  have 8: "conforms (json_opt (\<lambda>cs. JArr (map check_json cs)) q) (SSlice (SStruct [(''name'', SStr), (''ok'', SBool), (''detail'', SStr)]))" for q
    by (auto simp: json_opt_def list_all_iff 7 split: option.splits)
  have 9: "conforms (json_opt error_json e) (SStruct [(''code'', SStr), (''message'', SStr)])" for e
    by (auto simp: json_opt_def error_json_def f split: option.splits)
  have 10: "conforms (env_json v) (SStruct [(''probavi_version'', SStr), (''os'', SStr), (''arch'', SStr),
         (''host_id'', SStr), (''probavi_digest'', SStr), (''clock_synchronised'', SBool)])" for v
    by (simp add: env_json_def f conforms_opt)
  have 11: "conforms (sig_json s) (SStruct [(''alg'', SStr), (''key_id'', SStr), (''sig_b64'', SStr)])" for s
    by (simp add: sig_json_def f)
  have 12: "conforms (sandbox_json (rec_sandbox r)) (SStruct [(''provider'', SStr), (''params'', SMap SStr), (''image_digest'', SStr),
         (''resources'', SStruct [(''memory_bytes'', SInt), (''cpus_milli'', SInt)])])"
    using 5 by (simp add: sandbox_json_def f conforms_opt 4)
  have 13: "parse_int64 (show_int (rec_seq r)) \<noteq> None"
    using assms by (simp add: int_small_def ints_of_def)
  show ?thesis
    by (cases "rec_sig r") (simp_all add: record_json_def record_members_def record_shape_def f 1 2 3 6 8 9 10 11 12 13
        del: conforms.simps(6) add: conforms.simps(6) [of "_ # _"])
qed


subsection \<open>A canonical text is one line\<close>

lemma set_commas: "set (commas xs) \<subseteq> insert (CHR '','') (\<Union> (set ` set xs))"
  by (induction xs rule: commas.induct) auto

lemma escape_rune_no_newline:
  assumes "scalar r" shows "newline \<notin> set (escape_rune r)"
proof -
  have h: "hex_char d \<noteq> newline" if "d < 16" for d
    using hex_char_lower [OF that] by (auto simp: is_lower_hex_def)
  have "newline \<notin> set (encode_rune r)" if "0x20 \<le> r"
  proof (cases "r < 0x80")
    case True
    with that show ?thesis by (simp add: encode_rune_ascii conv_char_of)
  next
    case False
    with encode_rune_high [of r newline] assms show ?thesis by auto
  qed
  moreover have "r < 0x20 \<Longrightarrow> r div 16 < 16" by (simp add: less_mult_imp_div_less)
  ultimately show ?thesis using h [of "r div 16"] h [of "r mod 16"] by (auto simp: escape_rune_def)
qed

lemma quote_no_newline: "newline \<notin> set (quote_runes s)"
  using escape_rune_no_newline runes_all_scalar [of s] by (auto simp: quote_runes_def)

lemma integer_pattern_no_newline: "integer_pattern s \<Longrightarrow> newline \<notin> set s"
  by (erule integer_patternE) (auto simp: list_all_iff is_digit_def)

lemma safe_int_no_newline: "safe_int s \<Longrightarrow> newline \<notin> set s"
  by (auto simp: safe_int_def append_canonical_number_def dest: integer_pattern_no_newline split: if_splits)

lemma render_no_newline: "canonical_ok v \<Longrightarrow> newline \<notin> set (render quote_runes v)"
proof (induction v rule: json_induct)
  case (Arr vs)
  then show ?case using set_commas [of "map (render quote_runes) vs"] by fastforce
next
  case (Obj ms)
  have "newline \<notin> set (member_text quote_runes (k, render quote_runes v))" if "(k, v) \<in> set ms" for k v
    using Obj.IH [OF that] Obj.prems that by (auto simp: member_text_def quote_no_newline)
  then have "newline \<notin> set (commas (map (\<lambda>(k, v). member_text quote_runes (k, render quote_runes v)) ms))"
    using set_commas [of "map (\<lambda>(k, v). member_text quote_runes (k, render quote_runes v)) ms"] by fastforce
  then show ?case unfolding render_Obj by simp
qed (auto simp: quote_no_newline safe_int_no_newline)

lemma canonical_no_newline: "append_canonical v = Inr t \<Longrightarrow> newline \<notin> set t"
  using append_canonical_iff [of v t] render_no_newline [of "norm v"] by simp

subsection \<open>What the store writes is accepted\<close>

lemma b64_char_ascii: "n < 64 \<Longrightarrow> code (b64_char n) < 0x80"
  by (auto simp: b64_char_def)

lemma b64_encode_ascii: "c \<in> set (b64_encode s) \<Longrightarrow> code c < 0x80"
  by (induction s rule: b64_encode.induct) (auto simp: b64_char_ascii b64_bits)

lemma b64_encode_valid: "valid_string (b64_encode s)"
  by (intro ascii_valid) (auto dest: b64_encode_ascii)

definition signer_ok :: "crypto \<Rightarrow> signer \<Rightarrow> bool" where
  "signer_ok C sg \<longleftrightarrow> sg = new_signer C (seed sg)"

lemma signer_key_valid: "signer_ok C sg \<Longrightarrow> valid_string (key_id sg)"
proof -
  assume "signer_ok C sg"
  then have k: "key_id sg = take 16 (hex_encode (sha256 C (ed_public C (seed sg))))"
    by (metis signer_ok_def new_signer_def public_key_id_def signer.select_convs(2))
  have "list_all is_lower_hex (hex_encode m)" for m by (rule hex_encode_lower)
  then show ?thesis unfolding k
    by (intro ascii_valid) (force simp: list_all_iff is_lower_hex_def dest: in_set_takeD)
qed

text \<open>The strings of version 3 that \<open>validate\<close> leaves unchecked.\<close>

definition v3_strings_ok :: "evidence_record \<Rightarrow> bool" where
  "v3_strings_ok r \<longleftrightarrow> (\<forall>p \<in> {manifest_hash (rec_backup r), newest_data_at (rec_backup r), image_digest (rec_sandbox r)}.
     \<forall>s. p = Some s \<longrightarrow> valid_string s)"

lemma unchecked_ok:
  assumes "v3_strings_ok r" "valid_string (rec_prev_hash r)"
    "\<forall>s. rec_sig r = Some s \<longrightarrow> valid_string (sig_alg s) \<and> valid_string (sig_key_id s) \<and> valid_string (sig_b64 s)"
  shows "\<forall>s \<in> set (unchecked_strings r). valid_string s"
  using assms by (auto simp: unchecked_strings_def v3_strings_ok_def split: option.splits)

lemma validate_sig [simp]: "validate (r\<lparr> rec_sig := s \<rparr>) = validate r"
  by (simp add: validate_def validate_utf8_def utf8_fields_def validate_identity_def validate_outcome_def
      validate_checks_def validate_nested_def)

lemma validate_chain [simp]: "validate (r\<lparr> rec_seq := n, rec_prev_hash := p \<rparr>) = validate r"
  by (simp add: validate_def validate_utf8_def utf8_fields_def validate_identity_def validate_outcome_def
      validate_checks_def validate_nested_def)

lemma set_opt_list: "set (case p of None \<Rightarrow> [] | Some n \<Rightarrow> [n]) = set_option p"
  by (cases p) auto

lemma backup_ints: "canonical_ok (backup_json b) \<Longrightarrow> size_bytes b = Some n \<Longrightarrow> safe_int (show_int n)"
  by (simp add: backup_json_def all_json_opt)

lemma sandbox_ints:
  "canonical_ok (sandbox_json s) \<Longrightarrow> memory_bytes (sandbox_resources s) = Some n \<Longrightarrow> safe_int (show_int n)"
  "canonical_ok (sandbox_json s) \<Longrightarrow> cpus_milli (sandbox_resources s) = Some n \<Longrightarrow> safe_int (show_int n)"
  by (simp_all add: sandbox_json_def resources_json_def all_json_opt)

lemma timings_ints:
  "canonical_ok (timings_json t) \<Longrightarrow>
    n \<in> \<Union> (set_option ` {t_provision t, t_engine_ready t, t_transfer t, t_restore t, t_validate t, t_total t}) \<Longrightarrow>
    safe_int (show_int n)"
  by (simp add: timings_json_def all_json_opt) blast

lemma ints_of_iff:
  "set (ints_of r) = insert (rec_seq r) (set_option (size_bytes (rec_backup r)) \<union>
    set_option (memory_bytes (sandbox_resources (rec_sandbox r))) \<union>
    set_option (cpus_milli (sandbox_resources (rec_sandbox r))) \<union>
    \<Union> (set_option ` {t_provision (rec_timings r), t_engine_ready (rec_timings r), t_transfer (rec_timings r),
       t_restore (rec_timings r), t_validate (rec_timings r), t_total (rec_timings r)}))"
  by (simp add: ints_of_def set_opt_list Un_assoc)

lemma ints_from_json:
  assumes "canonical_ok (record_json r)"
  shows "\<forall>i \<in> set (ints_of r). safe_int (show_int i)"
proof -
  from assms have "canonical_ok (backup_json (rec_backup r))" "canonical_ok (sandbox_json (rec_sandbox r))"
    "canonical_ok (timings_json (rec_timings r))" "safe_int (show_int (rec_seq r))"
    by (simp_all add: record_json_def record_members_def)
  then show ?thesis
    unfolding ints_of_iff using backup_ints sandbox_ints timings_ints
    by (intro ballI) (elim insertE UnE, simp_all)
qed

lemma record_keys: "map fst (record_members r) = filter (\<lambda>k. k \<noteq> ''sig'') record_names"
  by (simp add: record_members_def record_names_def record_shape_def struct_fields_def)

lemma record_keys_distinct: "distinct (map fst (record_members r @ sig_members r))"
  by (auto simp: record_members_def sig_members_def split: option.splits)

lemma record_keys_names: "fst ` set (record_members r @ sig_members r) \<subseteq> set record_names"
  by (auto simp: record_members_def sig_members_def record_names_def record_shape_def struct_fields_def
      split: option.splits)

definition normed :: "(bytes \<times> json) list \<Rightarrow> (bytes \<times> json) list" where
  "normed ms = isort (by_key less_utf16) (map (map_prod (\<lambda>k. k) norm) ms)"

lemma norm_Obj: "norm (JObj ms) = JObj (normed ms)"
  by (simp add: normed_def)

lemma map_of_normed: "distinct (map fst ms) \<Longrightarrow> map_of (normed ms) k = map_option norm (map_of ms k)"
  by (simp add: normed_def map_of_isort map_of_map_norm comp_def)

lemma set_normed: "fst ` set (normed ms) = fst ` set ms"
  by (force simp: normed_def)

lemma distinct_normed: "distinct (map fst (normed ms)) = distinct (map fst ms)"
proof -
  have "mset (map fst (normed ms)) = mset (map fst ms)"
    unfolding normed_def by (metis (no_types, lifting) mset_isort mset_map fst_map_prod map_map comp_apply map_cong)
  then show ?thesis by (metis mset_eq_imp_distinct_iff)
qed


lemma sealedE:
  assumes "sealed C st rec = Inr (rec', line)"
  obtains message where "validate rec = Inr ()" "canonicalize_record rec = Inr message"
    "rec' = rec\<lparr> rec_sig := Some \<lparr> sig_alg = ''ed25519'', sig_key_id = key_id (st_signer st),
       sig_b64 = b64_encode (ed_sign C (seed (st_signer st)) message) \<rparr> \<rparr>"
    "canonicalize_record rec' = Inr line" "length line \<le> max_record_bytes"
  using assms by (auto simp: sealed_def Let_def split: sum.splits if_splits)

lemma unsigned_normed:
  assumes "canonical_ok (record_json r)" "params_distinct r"
  shows "append_canonical (JObj (unsigned (normed (record_members r @ sig_members r))))
    = append_canonical (record_json (r\<lparr> rec_sig := None \<rparr>))"
proof -
  let ?ms = "record_members r"
  let ?all = "record_members r @ sig_members r"
  have all: "set (unsigned (normed ?all)) = set (map (map_prod (\<lambda>k. k) norm) ?ms)"
  proof -
    have "filter (\<lambda>p. fst p \<noteq> ''sig'') (record_members r) = record_members r"
      by (simp add: record_members_def)
    moreover have "filter (\<lambda>p. fst p \<noteq> ''sig'') (sig_members r) = []"
      by (simp add: sig_members_def split: option.splits)
    moreover have "set (unsigned (normed ms)) = map_prod (\<lambda>k. k) norm ` set (filter (\<lambda>p. fst p \<noteq> ''sig'') ms)" for ms
      by (force simp: unsigned_def normed_def)
    ultimately show ?thesis by (simp only: filter_append append_Nil2 set_map)
  qed
  have d: "distinct (map fst ?ms)" "distinct (map fst ?all)"
    using record_keys_distinct [of r] by (auto simp: distinct_append)
  have du: "distinct (map fst (unsigned (normed ?all)))"
    using d(2) distinct_normed [of ?all] by (simp add: unsigned_def distinct_map_filter)
  from assms(1) have ok: "canonical_ok v" "valid_string k" if "(k, v) \<in> set ?all" for k v
    using that by (auto simp: record_json_members)
  have u: "unique_keys v" if "(k, v) \<in> set ?ms" for k v
    using record_unique_keys [OF assms(2)] that by (force simp: record_json_members list_all_iff)
  have okn: "valid_string k \<and> canonical_ok v \<and> norm v = v" if "(k, v) \<in> set (unsigned (normed ?all))" for k v
  proof -
    from that all obtain w where w: "(k, w) \<in> set ?ms" "v = norm w" by auto
    with ok [of k w] u [of k w] show ?thesis by (simp add: norm_norm [of w safe_int])
  qed
  have "map (map_prod (\<lambda>k. k) norm) (unsigned (normed ?all)) = unsigned (normed ?all)"
    using okn by (intro map_idI) auto
  then have "norm (JObj (unsigned (normed ?all))) = JObj (isort (by_key less_utf16) (unsigned (normed ?all)))"
    by simp
  also have "isort (by_key less_utf16) (unsigned (normed ?all)) = normed ?ms"
    unfolding normed_def [of ?ms]
  proof (rule u16.isort_key_cong)
    show "\<forall>k \<in> fst ` set (unsigned (normed ?all)). valid_string k" using okn by auto
    show "distinct (map fst (map (map_prod (\<lambda>k. k) norm) ?ms))" using d(1) by (simp add: comp_def)
  qed (fact du all)+
  finally have n: "norm (JObj (unsigned (normed ?all))) = norm (JObj ?ms)" by (simp only: norm_Obj)
  have c: "canonical_ok (JObj (unsigned (normed ?all)))" using okn by auto
  have c': "canonical_ok (JObj ?ms)"
    using assms(1) by (simp only: record_json_members json_all_Obj set_append) blast
  have rj: "record_json (r\<lparr> rec_sig := None \<rparr>) = JObj ?ms"
    by (simp add: record_json_def record_members_def)
  show ?thesis unfolding rj append_canonical_norm [OF c] append_canonical_norm [OF c'] n ..
qed

lemma record_members_lookup:
  "map_of (record_members r @ sig_members r) ''schema'' = Some (JStr (rec_schema r))"
  "map_of (record_members r @ sig_members r) ''seq'' = Some (json_int (rec_seq r))"
  "map_of (record_members r @ sig_members r) ''prev_hash'' = Some (JStr (rec_prev_hash r))"
  "map_of (record_members r @ sig_members r) ''sig'' = map_option sig_json (rec_sig r)"
  by (auto simp: record_members_def sig_members_def split: option.splits)

lemma runes_ascii: "\<forall>c \<in> set s. code c < 0x80 \<Longrightarrow> runes s = map code s"
proof (induction s)
  case (Cons c s)
  with runes_enc_Cons [of "code c" s] show ?case by (simp add: scalar_def encode_rune_ascii)
qed simp

lemma utf16_ascii: "\<forall>r \<in> set rs. r < 0x80 \<Longrightarrow> utf16_encode rs = rs"
  by (induction rs) (auto simp: utf16_encode_def utf16_units_def)

lemma less_utf16_ascii:
  "\<forall>c \<in> set a. code c < 0x80 \<Longrightarrow> \<forall>c \<in> set b. code c < 0x80 \<Longrightarrow>
    less_utf16 a b = lex_less (map code a) (map code b)"
  by (simp add: less_utf16_def runes_ascii utf16_ascii)

lemma set_sig_json:
  "set_sig (norm (sig_json s)) None = Some \<lparr> v_alg = sig_alg s, v_key_id = sig_key_id s, v_sig_b64 = sig_b64 s \<rparr>"
proof -
  have "less_utf16 ''alg'' ''key_id''" "less_utf16 ''key_id'' ''sig_b64''" "less_utf16 ''alg'' ''sig_b64''"
    by (simp_all add: less_utf16_ascii)
  then have "isort (by_key less_utf16) [(''alg'', JStr (sig_alg s)), (''key_id'', JStr (sig_key_id s)), (''sig_b64'', JStr (sig_b64 s))]
    = [(''alg'', JStr (sig_alg s)), (''key_id'', JStr (sig_key_id s)), (''sig_b64'', JStr (sig_b64 s))]"
    by (intro u16.isort_key_id) simp
  then show ?thesis
    by (simp add: sig_json_def set_sig_def put_sig_def field_name_def sig_names_def Let_def empty_sig_def set_str_def)
qed

lemma view_of_record:
  assumes "\<forall>i \<in> set (ints_of r). int_small i"
  shows "unmarshal_record (normed (record_members r @ sig_members r)) = Some \<lparr> v_schema = rec_schema r,
    v_seq = rec_seq r, v_prev_hash = rec_prev_hash r,
    v_sig = map_option (\<lambda>s. \<lparr> v_alg = sig_alg s, v_key_id = sig_key_id s, v_sig_b64 = sig_b64 s \<rparr>) (rec_sig r) \<rparr>"
proof -
  let ?ms = "normed (record_members r @ sig_members r)"
  have c: "conforms (JObj ?ms) record_shape"
    using record_conforms [OF assms] by (simp only: conforms_norm flip: norm_Obj record_json_members)
  have n: "int_small (rec_seq r)" using assms by (simp add: ints_of_def)
  have p: "parse_int64 (show_int (rec_seq r)) = Some (rec_seq r)"
  proof -
    from n obtain k where k: "parse_int64 (show_int (rec_seq r)) = Some k" by (auto simp: int_small_def)
    show ?thesis using k by (rule parse_show_unique)
  qed
  have l: "map_of ?ms ''schema'' = Some (JStr (rec_schema r))" "map_of ?ms ''seq'' = Some (json_int (rec_seq r))"
    "map_of ?ms ''prev_hash'' = Some (JStr (rec_prev_hash r))"
    "map_of ?ms ''sig'' = map_option (\<lambda>s. norm (sig_json s)) (rec_sig r)"
    by (simp_all only: map_of_normed [OF record_keys_distinct] record_members_lookup option.map_comp comp_def
        option.map norm.simps)
  have k: "\<forall>k \<in> fst ` set ?ms. plain_key record_names k"
    using record_keys_names [of r] by (auto simp: set_normed plain_key_def)
  have d: "distinct (map fst ?ms)" using record_keys_distinct [of r] by (simp add: distinct_normed)
  from fold_put_field [OF k d, of zero_view] p
  have f: "v_schema (fold put_field ?ms zero_view) = rec_schema r \<and>
     v_seq (fold put_field ?ms zero_view) = rec_seq r \<and> v_prev_hash (fold put_field ?ms zero_view) = rec_prev_hash r \<and>
     v_sig (fold put_field ?ms zero_view) =
       map_option (\<lambda>s. \<lparr> v_alg = sig_alg s, v_key_id = sig_key_id s, v_sig_b64 = sig_b64 s \<rparr>) (rec_sig r)"
    unfolding l by (cases "rec_sig r") (simp_all add: zero_view_def set_str_def set_int_def set_sig_json)
  show ?thesis unfolding unmarshal_record_def using c f
    by (simp add: rec_view.equality)
qed


text \<open>A text that is exactly one JSON object, from its first byte.\<close>

definition object_text :: "bytes \<Rightarrow> bool" where
  "object_text l \<longleftrightarrow> (\<exists>t. l = CHR 0x7B # t) \<and> (\<exists>ms. parse_first l = Some (JObj ms, []))"

text \<open>A line the store wrote: its members are those of some record.\<close>

definition stored_line :: "bytes \<Rightarrow> bool" where
  "stored_line l \<longleftrightarrow> (\<exists>v r. classify l = Parsed v (normed (record_members r @ sig_members r)))"

lemma sealed_accepted:
  assumes s: "sealed C st rec = Inr (rec', line)" and c: "crypto_ok C" "signer_ok C (st_signer st)"
    and r: "params_distinct rec" "v3_strings_ok rec" "rec_sig rec = None"
    and h: "rec_seq rec = hd_seq h + 1" "rec_prev_hash rec = hd_hash h" "valid_string (hd_hash h)"
    and kr: "\<forall>k. kr = Some k \<longrightarrow> k (key_id (st_signer st)) = Some (ed_public C (seed (st_signer st)))"
  shows "accepts C kr h line \<and> newline \<notin> set line \<and> length line \<le> max_record_bytes \<and> object_text line \<and> stored_line line"
proof -
  obtain message where m: "validate rec = Inr ()" "canonicalize_record rec = Inr message"
    "rec' = rec\<lparr> rec_sig := Some \<lparr> sig_alg = ''ed25519'', sig_key_id = key_id (st_signer st),
       sig_b64 = b64_encode (ed_sign C (seed (st_signer st)) message) \<rparr> \<rparr>"
    "canonicalize_record rec' = Inr line" "length line \<le> max_record_bytes"
    using s by (rule sealedE)
  have v': "validate rec' = Inr ()" "params_distinct rec'" using m r by (simp_all add: params_distinct_def)
  have u: "\<forall>s \<in> set (unchecked_strings rec). valid_string s"
    by (rule unchecked_ok) (use r h in simp_all)
  have u': "\<forall>s \<in> set (unchecked_strings rec'). valid_string s"
    by (rule unchecked_ok)
      (use r h m(3) in \<open>simp_all add: v3_strings_ok_def b64_encode_valid signer_key_valid [OF c(2)] ascii_valid\<close>)
  from m(2) canonicalize_record_eq [OF m(1) u r(1)] have msg: "append_canonical (record_json rec) = Inr message" by simp
  from m(4) canonicalize_record_eq [OF v'(1) u' v'(2)] have ln: "append_canonical (record_json rec') = Inr line" by simp
  then have ok: "canonical_ok (record_json rec')" "line = render quote_runes (norm (record_json rec'))"
    by (simp_all add: append_canonical_iff)
  have dec: "decode_strict line = Inr (norm (record_json rec'))"
    unfolding ok(2) by (rule decode_rendered [OF ok(1) record_unique_keys [OF v'(2)] record_depth_ok])
  have idem: "append_canonical (norm (record_json rec')) = Inr line"
    by (rule canonical_idem [OF ln record_unique_keys [OF v'(2)]])
  let ?obj = "normed (record_members rec' @ sig_members rec')"
  let ?view = "\<lparr> v_schema = rec_schema rec', v_seq = rec_seq rec', v_prev_hash = rec_prev_hash rec',
    v_sig = map_option (\<lambda>s. \<lparr> v_alg = sig_alg s, v_key_id = sig_key_id s, v_sig_b64 = sig_b64 s \<rparr>) (rec_sig rec') \<rparr>"
  have view: "unmarshal_record ?obj = Some ?view"
    by (rule view_of_record) (use ints_from_json [OF ok(1)] safe_int_small in blast)
  have "rec_schema rec = schema_id" using m(1) by (simp add: validate_parts validate_identity_def)
  then have sch: "supported_schema (v_schema ?view)" by (simp add: m(3) supported_schema_def schema_ids_def)
  have cl: "classify line = Parsed ?view ?obj"
    unfolding classify_def dec sum.case idem using view sch
    by (simp only: record_json_members norm_Obj json.case option.case refl simp_thms if_False if_True not_True_eq_False)
  have un: "rec'\<lparr> rec_sig := None \<rparr> = rec" using m(3) r(3) by simp
  have uns: "append_canonical (JObj (unsigned ?obj)) = Inr message"
    using unsigned_normed [OF ok(1) v'(2)] msg by (simp only: un)
  have vs: "verify_signature C k ?view ?obj = Inr ()" if "kr = Some k" for k
    using kr that uns c(1) by (simp add: verify_signature_def m(3) crypto_okD)
  have "accepts C kr h line"
    unfolding accepts_def cl parsed.case using h vs by (simp add: m(3) split: option.split)
  moreover have "json_all valid_string num_ok (norm (record_json rec'))"
    using json_all_mono [of safe_int num_ok, OF safe_int_num] ok(1) by (simp only: json_all_norm)
  then have "parse_first line = Some (norm (record_json rec'), [])"
    unfolding ok(2) using record_depth_ok [of rec'] by (intro cq.parse_first_render) simp_all
  then have "object_text line"
    by (simp add: object_text_def record_json_members norm_Obj ok(2))
  moreover have "stored_line line" using cl by (auto simp: stored_line_def)
  ultimately show ?thesis using canonical_no_newline [OF ln] m(5) by simp
qed

lemma object_text_prefix:
  assumes "object_text l" "prefix p l" "p \<noteq> l"
  shows "classify p = Damage"
proof -
  from assms(1) obtain ms t where l: "parse_first l = Some (JObj ms, [])" "l = CHR 0x7B # t"
    by (auto simp: object_text_def)
  have "parse_first p = None"
  proof (cases p)
    case Nil
    then show ?thesis by (simp add: parse_first_def numeral_2_eq_2)
  next
    case (Cons c p')
    with l(2) assms(2) have "c = CHR 0x7B" by simp
    with Cons have "parse_first p \<noteq> Some (JNum n, r)" for n r
      by (auto simp: parse_first_def is_ws_def split: list.splits if_splits)
    with object_prefix_free [OF l(1) assms(2,3)] show ?thesis by auto
  qed
  then show ?thesis by (simp add: classify_def decode_strict_def decode_first_def)
qed

end
