(* ===== verification/StoreProps.thy ===== *)
theory StoreProps
  imports StoreAccept
begin

text \<open>
  What the evidence store guarantees: \<open>store_ok\<close> (the log ends cleanly and its records chain to the
  head the store carries) is established by \<open>open_store\<close> and kept by \<open>append_record\<close>; what was
  appended verifies (\<open>appended_log_verifies\<close>); a write that fails at any byte loses no record
  (\<open>crash_recovery\<close>). \<open>walk_iff\<close> restates the walk as a property of the log's record lines, which is
  what these proofs use. The exception at the maximum record size is a fact of the code.
\<close>

subsection \<open>Logs as lists of lines\<close>

definition join_lines :: "bytes list \<Rightarrow> bytes" where
  "join_lines ls = concat (map (\<lambda>l. l @ [newline]) ls)"

lemma join_lines_append: "join_lines (xs @ ys) = join_lines xs @ join_lines ys"
  by (simp add: join_lines_def)

lemma split_join: "s = join_lines (terminated s) @ torn_tail s \<and> (\<forall>l \<in> set (terminated s). newline \<notin> set l) \<and>
  newline \<notin> set (torn_tail s)"
proof (induction s rule: length_induct)
  case (1 s)
  show ?case
  proof (cases "newline \<in> set s")
    case True
    then obtain l r where s: "s = l @ newline # r" "newline \<notin> set l" by (metis split_list_first)
    with "1" [rule_format, of r] have "r = join_lines (terminated r) @ torn_tail r \<and> (\<forall>l \<in> set (terminated r). newline \<notin> set l) \<and>
      newline \<notin> set (torn_tail r)" by simp
    with s show ?thesis by (auto simp: join_lines_def)
  next
    case False
    then show ?thesis by (simp add: join_lines_def)
  qed
qed

lemma terminated_join:
  "\<forall>l \<in> set ls. newline \<notin> set l \<Longrightarrow> newline \<notin> set t \<Longrightarrow>
    terminated (join_lines ls @ t) = ls \<and> torn_tail (join_lines ls @ t) = t"
  by (induction ls) (auto simp: join_lines_def)

lemma clean_iff: "torn_tail s = [] \<longleftrightarrow> s = [] \<or> last s = newline"
proof -
  have s: "s = join_lines (terminated s) @ torn_tail s" "newline \<notin> set (torn_tail s)"
    using split_join [of s] by auto
  have l: "ls \<noteq> [] \<Longrightarrow> join_lines ls \<noteq> [] \<and> last (join_lines ls) = newline" for ls
    by (induction ls rule: rev_induct) (auto simp: join_lines_def)
  show ?thesis
  proof (cases "torn_tail s = []")
    case True
    with s(1) l [of "terminated s"] show ?thesis by (cases "terminated s = []") (auto simp: join_lines_def)
  next
    case False
    then have "last s = last (torn_tail s)" by (subst s(1)) simp
    with False s(2) show ?thesis by (metis last_in_set last_appendR append_is_Nil_conv s(1))
  qed
qed

text \<open>The lines of a log the walk went through to the end are within the cap.\<close>

lemma walk_lines_capped:
  "walk_lines C fault w n s = Some w' \<Longrightarrow> \<not> failed w' \<Longrightarrow>
    (\<forall>l \<in> set (terminated s). length l < max_record_bytes) \<and> length (torn_tail s) \<le> max_record_bytes"
proof (induction C fault w n s rule: walk_lines.induct)
  case (1 C fault w n s)
  note eq = "1.prems"(1) [unfolded walk_lines.simps [of C fault w n s]]
  show ?case
  proof (cases "read_line read_chunk_bytes fault max_record_bytes s")
    case OverCap
    with eq "1.prems"(2) show ?thesis by (auto simp: invalid_def)
  next
    case (Line l rest)
    from read_line_LineD [OF Line] have s: "s = l @ newline # rest" "newline \<notin> set l" "length l < max_record_bytes" by auto
    obtain w1 go where st: "step C w l n = (w1, go)" by (cases "step C w l n")
    show ?thesis
    proof (cases go)
      case False
      with eq Line st step_fails "1.prems"(2) show ?thesis by auto
    next
      case True
      with eq Line st have "walk_lines C fault w1 (n + 1) rest = Some w'" by simp
      with "1.IH" [OF Line st [symmetric] True] "1.prems"(2) s show ?thesis by simp
    qed
  next
    case (Fragment l)
    then have "newline \<notin> set s" "length s \<le> max_record_bytes"
      by (auto simp: read_line_eq line_spec_def Let_def split: if_splits)
    then show ?thesis by simp
  next
    case ReadError
    with eq show ?thesis by simp
  qed
qed

lemma walk_unanchored: "walk C fault s kr None = walk_lines C fault (initial_walk kr None) 1 s"
  by (simp add: walk_def check_anchor_def initial_walk_def)

definition capped :: "bytes \<Rightarrow> bool" where
  "capped s \<longleftrightarrow> (\<forall>l \<in> set (terminated s). length l < max_record_bytes) \<and> length (torn_tail s) \<le> max_record_bytes"

text \<open>The walk, without an anchor, as a statement about the record lines alone.\<close>

lemma walk_iff:
  "(\<exists>w. walk C False s kr None = Some w \<and> \<not> failed w \<and> head_of w = h \<and>
      records w = length (record_lines s) \<and>
      (damaged w = [] \<longleftrightarrow> torn_tail s = [] \<and> record_lines s = terminated s)) \<longleftrightarrow>
    capped s \<and> chain (line_hash C) (accepts C kr) genesis (record_lines s) = Some h"
proof
  assume "\<exists>w. walk C False s kr None = Some w \<and> \<not> failed w \<and> head_of w = h \<and>
      records w = length (record_lines s) \<and>
      (damaged w = [] \<longleftrightarrow> torn_tail s = [] \<and> record_lines s = terminated s)"
  then show "capped s \<and> chain (line_hash C) (accepts C kr) genesis (record_lines s) = Some h"
    using walk_sound walk_lines_capped by (metis walk_unanchored capped_def)
next
  assume a: "capped s \<and> chain (line_hash C) (accepts C kr) genesis (record_lines s) = Some h"
  have s: "s = join_lines (terminated s) @ torn_tail s" "\<forall>l \<in> set (terminated s). newline \<notin> set l"
    "newline \<notin> set (torn_tail s)" using split_join [of s] by auto
  have "\<exists>w'. walk_lines C False (initial_walk kr None) 1
        (concat (map (\<lambda>l. l @ [newline]) (terminated s)) @ torn_tail s) = Some w' \<and> \<not> failed w' \<and>
    head_of w' = h \<and> (damaged w' = [] \<longleftrightarrow> damaged (initial_walk kr None) = [] \<and> torn_tail s = [] \<and>
      (\<forall>l \<in> set (terminated s). classify l \<noteq> Damage)) \<and>
    records w' = records (initial_walk kr None) + length (filter (\<lambda>l. classify l \<noteq> Damage) (terminated s))"
    using a s by (intro walk_lines_complete)
      (auto simp: capped_def initial_walk_def genesis_def head_of_def record_lines_def)
  moreover have "record_lines s = terminated s \<longleftrightarrow> (\<forall>l \<in> set (terminated s). classify l \<noteq> Damage)"
    by (simp add: record_lines_def filter_id_conv)
  ultimately show "\<exists>w. walk C False s kr None = Some w \<and> \<not> failed w \<and> head_of w = h \<and>
      records w = length (record_lines s) \<and>
      (damaged w = [] \<longleftrightarrow> torn_tail s = [] \<and> record_lines s = terminated s)"
    using s(1) by (auto simp: walk_unanchored join_lines_def record_lines_def initial_walk_def)
qed

subsection \<open>The store's invariant\<close>

definition store_head :: "store \<Rightarrow> head" where
  "store_head st = \<lparr> hd_seq = st_next_seq st - 1, hd_hash = st_prev_hash st \<rparr>"

text \<open>The log ends cleanly, its lines fit, and its records chain to the head the store carries.\<close>

definition store_ok :: "crypto \<Rightarrow> keyring option \<Rightarrow> store \<Rightarrow> bool" where
  "store_ok C kr st \<longleftrightarrow> torn_tail (st_file st) = [] \<and> capped (st_file st) \<and>
     chain (line_hash C) (accepts C kr) genesis (record_lines (st_file st)) = Some (store_head st)"

lemma close_torn_tail_clean:
  "close_torn_tail os s = (s', Inr ()) \<Longrightarrow> torn_tail s' = [] \<and> (torn_tail s = [] \<longrightarrow> s' = s) \<and>
    (torn_tail s \<noteq> [] \<longrightarrow> s' = s @ [newline])"
  by (auto simp: close_torn_tail_def clean_iff split: if_splits)

lemma resume_ok:
  assumes "resume C os st = (st', Inr ())"
  shows "store_ok C None st' \<and> st_signer st' = st_signer st \<and> st_broken st' = st_broken st"
proof -
  obtain s' r where c: "close_torn_tail os (st_file st) = (s', r)" by (cases "close_torn_tail os (st_file st)")
  from assms c obtain w where r: "r = Inr ()" and w: "walk C (o_read_fault os) s' None None = Some w" "\<not> failed w"
    and st': "st' = st\<lparr> st_file := s', st_next_seq := next_seq w, st_prev_hash := prev_hash w \<rparr>"
    by (auto simp: resume_def Let_def split: sum.splits if_splits option.splits)
  from walk_sound [OF w] walk_lines_capped [OF w(1) [unfolded walk_unanchored] w(2)]
    close_torn_tail_clean [OF c [unfolded r]]
  show ?thesis by (simp add: store_ok_def st' store_head_def capped_def head_of_def)
qed

text \<open>
  Opening establishes the invariant: after \<^verbatim>\<open>Open\<close> succeeds, the log ends with a newline (or
  is empty), every line fits the cap, and the store's next sequence number and previous hash are
  those of the last record of a well-chained log.
\<close>
theorem open_establishes:
  assumes "open_store C os file (Some sg) = (file', Inr st)"
  shows "store_ok C None st \<and> st_signer st = sg \<and> \<not> st_broken st \<and> st_file st = file'"
  using assms
  by (auto simp: open_store_def dest!: resume_ok split: sum.splits if_splits prod.splits)

lemma chain_hash_valid:
  assumes "crypto_ok C" "chain (line_hash C) acc genesis ls = Some h"
  shows "sha256_ref (hd_hash h)"
  using assms
proof (induction ls arbitrary: h rule: rev_induct)
  case Nil
  then show ?case using genesis_ref by (auto simp: genesis_def)
next
  case (snoc l ls)
  then show ?case by (auto simp: chain_snoc advance_def line_hash_ref)
qed

text \<open>What a caller must hand to \<^verbatim>\<open>Append\<close>: the parts of a record the code itself cannot break.\<close>

definition appendable :: "evidence_record \<Rightarrow> bool" where
  "appendable r \<longleftrightarrow> params_distinct r \<and> v3_strings_ok r"

definition signer_in :: "crypto \<Rightarrow> signer \<Rightarrow> keyring option \<Rightarrow> bool" where
  "signer_in C sg kr \<longleftrightarrow> signer_ok C sg \<and>
     (\<forall>k. kr = Some k \<longrightarrow> k (key_id sg) = Some (ed_public C (seed sg)))"

lemma append_written:
  assumes "append_record C ans st rec = (st', rec', res)" "crypto_ok C" "store_ok C kr st"
    "appendable rec" "signer_in C (st_signer st) kr"
  shows "(st' = st \<and> (\<exists>e. res = Inl e)) \<or>
    (\<exists>line. accepts C kr (store_head st) line \<and> newline \<notin> set line \<and> length line \<le> max_record_bytes \<and> object_text line \<and> stored_line line \<and>
      (case ans of
         Written \<Rightarrow> res = Inr () \<and> st' = st\<lparr> st_file := st_file st @ line @ [newline],
           st_prev_hash := line_hash C line, st_next_seq := st_next_seq st + 1 \<rparr>
       | WriteError k \<Rightarrow> res = Inl WriteFailed \<and>
           st' = st\<lparr> st_file := st_file st @ take k (line @ [newline]), st_broken := True \<rparr>
       | SyncError \<Rightarrow> res = Inl SyncFailed \<and>
           st' = st\<lparr> st_file := st_file st @ line @ [newline], st_broken := True \<rparr>))"
proof (cases "st_broken st \<or> rec_sig rec \<noteq> None \<or> rec_seq rec \<noteq> 0 \<or> rec_prev_hash rec \<noteq> []")
  case True
  with assms(1) show ?thesis by (auto simp: append_record_def split: if_splits)
next
  case False
  let ?rec = "rec\<lparr> rec_seq := st_next_seq st, rec_prev_hash := st_prev_hash st \<rparr>"
  show ?thesis
  proof (cases "sealed C st ?rec")
    case (Inl e)
    with False assms(1) show ?thesis by (auto simp: append_record_def Let_def)
  next
    case (Inr p)
    obtain rec2 line where p: "p = (rec2, line)" by (cases p)
    have "valid_string (hd_hash (store_head st))"
      using chain_hash_valid [OF assms(2)] assms(3) sha256_ref_ascii by (auto simp: store_ok_def)
    then have "accepts C kr (store_head st) line \<and> newline \<notin> set line \<and> length line \<le> max_record_bytes \<and>
        object_text line \<and> stored_line line"
      using assms False
      by (intro sealed_accepted [OF Inr [unfolded p]])
        (auto simp: appendable_def signer_in_def params_distinct_def v3_strings_ok_def store_head_def)
    with False Inr p assms(1) show ?thesis
      by (cases ans) (auto simp: append_record_def Let_def write_line_def)
  qed
qed

lemma record_lines_snoc:
  assumes "torn_tail s = []" "newline \<notin> set l" "classify l \<noteq> Damage"
  shows "record_lines (s @ l @ [newline]) = record_lines s @ [l] \<and> torn_tail (s @ l @ [newline]) = [] \<and>
    terminated (s @ l @ [newline]) = terminated s @ [l]"
proof -
  have s: "s = join_lines (terminated s)" "\<forall>l \<in> set (terminated s). newline \<notin> set l"
    using split_join [of s] assms(1) by auto
  have "s @ l @ [newline] = join_lines (terminated s @ [l]) @ []"
    by (subst s(1)) (simp add: join_lines_def)
  then have "terminated (s @ l @ [newline]) = terminated s @ [l] \<and> torn_tail (s @ l @ [newline]) = []"
    using terminated_join [of "terminated s @ [l]" "[]"] s(2) assms(2) by simp
  with assms(3) show ?thesis by (simp add: record_lines_def)
qed

lemma store_ok_extend:
  assumes "store_ok C kr st" "accepts C kr (store_head st) line" "newline \<notin> set line" "length line < max_record_bytes"
  shows "store_ok C kr (st\<lparr> st_file := st_file st @ line @ [newline],
    st_prev_hash := line_hash C line, st_next_seq := st_next_seq st + 1 \<rparr>)"
  using assms record_lines_snoc [of "st_file st" line] accepts_parsed [OF assms(2)]
  by (auto simp: store_ok_def capped_def chain_snoc advance_def store_head_def)

text \<open>
  C5: appending keeps the invariant, for every keyring that holds the signer's key: a record that
  was written and synced extends the verified chain by one, and the store carries the new head.
  The one exception is a record whose line has exactly the maximum size. (\<open>appendable\<close>: its parameters have distinct names,
  its three strings that validation leaves out are UTF-8.)
\<close>
theorem append_preserves:
  assumes "append_record C Written st rec = (st', rec', Inr ())" "crypto_ok C" "store_ok C kr st"
    "appendable rec" "signer_in C (st_signer st) kr"
    "length (st_file st') \<noteq> length (st_file st) + max_record_bytes + 1"
  shows "store_ok C kr st' \<and> st_next_seq st' = st_next_seq st + 1 \<and>
    (\<exists>line. record_lines (st_file st') = record_lines (st_file st) @ [line])"
proof -
  from append_written [OF assms(1-5)] obtain line where l: "accepts C kr (store_head st) line" "newline \<notin> set line"
    "length line \<le> max_record_bytes" and st': "st' = st\<lparr> st_file := st_file st @ line @ [newline],
           st_prev_hash := line_hash C line, st_next_seq := st_next_seq st + 1 \<rparr>" by auto
  from l(3) assms(6) st' have "length line < max_record_bytes" by auto
  from store_ok_extend [OF assms(3) l(1,2) this] st' record_lines_snoc [of "st_file st" line]
    accepts_parsed [OF l(1)] l(2) assms(3) show ?thesis
    by (auto simp: store_ok_def)
qed

lemma store_verifies:
  assumes "store_ok C (Some kr) st"
  shows "\<exists>r. verify C False (st_file st) (Some kr) None = Some r \<and> verified r \<and> res_head r = store_head st \<and>
    res_records r = length (record_lines (st_file st))"
proof -
  from assms walk_iff [of C "st_file st" "Some kr" "store_head st"] obtain w where
    "walk C False (st_file st) (Some kr) None = Some w" "\<not> failed w" "head_of w = store_head st"
    "records w = length (record_lines (st_file st))"
    by (auto simp: store_ok_def)
  then show ?thesis by (simp add: verify_def verified_def)
qed

text \<open>A log with a line that is too long is refused by every reader.\<close>

lemma uncapped_refused:
  assumes "\<not> capped s"
  shows "\<not> (verify C f s keys None = Some r \<and> verified r)"
  using assms verify_walk walk_lines_capped by (metis capped_def walk_unanchored)

lemma uncapped_locked:
  assumes "open_store C os s (Some sg) = (s2, Inr st2)"
  shows "capped (if torn_tail s = [] then s else s @ [newline])"
proof -
  from assms have r: "resume C os \<lparr> st_file = s, st_signer = sg, st_next_seq = 0, st_prev_hash = [], st_broken = False \<rparr> = (st2, Inr ())"
    by (auto simp: open_store_def split: sum.splits if_splits prod.splits)
  then have "st_file st2 = (if torn_tail s = [] then s else s @ [newline])"
    by (auto simp: resume_def Let_def dest: close_torn_tail_clean split: prod.splits sum.splits if_splits option.splits)
  with resume_ok [OF r] show ?thesis by (simp add: store_ok_def)
qed

lemma full_line_uncapped:
  assumes "torn_tail s = []" "newline \<notin> set l" "classify l \<noteq> Damage" "length l = max_record_bytes"
  shows "\<not> capped (s @ l @ [newline])"
  using record_lines_snoc [OF assms(1-3)] assms(4) by (simp add: capped_def)

text \<open>
  C6: what the store wrote, anyone can verify: after a successful append the log verifies under
  the keyring, the reported head is the store's own, and one more record is counted, unless the record's line has exactly
  the maximum size: then, and only then, the log does not verify, under any keyring. (The record's parameters have distinct
  names, its three strings that validation leaves out are UTF-8, and the keyring holds the signer's key.)
\<close>
theorem appended_log_verifies:
  assumes "append_record C Written st rec = (st', rec', Inr ())" "crypto_ok C" "store_ok C (Some kr) st"
    "appendable rec" "signer_in C (st_signer st) (Some kr)"
  shows "if length (st_file st') = length (st_file st) + max_record_bytes + 1
    then \<not> (\<exists>keys r. verify C False (st_file st') keys None = Some r \<and> verified r)
    else \<exists>r. verify C False (st_file st') (Some kr) None = Some r \<and> verified r \<and>
      res_head r = store_head st' \<and> res_records r = length (record_lines (st_file st)) + 1"
proof -
  from append_written [OF assms(1-5)] obtain line where l: "accepts C (Some kr) (store_head st) line" "newline \<notin> set line"
    "length line \<le> max_record_bytes" and st': "st' = st\<lparr> st_file := st_file st @ line @ [newline],
           st_prev_hash := line_hash C line, st_next_seq := st_next_seq st + 1 \<rparr>" by auto
  have clean: "torn_tail (st_file st) = []" using assms(3) by (simp add: store_ok_def)
  show ?thesis
  proof (cases "length line = max_record_bytes")
    case True
    with uncapped_refused [OF full_line_uncapped [OF clean l(2) accepts_parsed [OF l(1)]]] st' show ?thesis by simp
  next
    case False
    with l(3) have "length line < max_record_bytes" by simp
    from store_verifies [OF store_ok_extend [OF assms(3) l(1,2) this]] st' record_lines_snoc [of "st_file st" line]
      accepts_parsed [OF l(1)] l(2) clean False show ?thesis by auto
  qed
qed


subsection \<open>Crashes\<close>

lemma sealed_not_write: "sealed C st r \<noteq> Inl WriteFailed"
  by (auto simp: sealed_def Let_def split: sum.splits)

lemma record_lines_snoc_damage:
  assumes "torn_tail s = []" "newline \<notin> set l" "classify l = Damage"
  shows "record_lines (s @ l @ [newline]) = record_lines s"
proof -
  have s: "s = join_lines (terminated s)" "\<forall>l \<in> set (terminated s). newline \<notin> set l"
    using split_join [of s] assms(1) by auto
  have "s @ l @ [newline] = join_lines (terminated s @ [l]) @ []"
    by (subst s(1)) (simp add: join_lines_def)
  then have "terminated (s @ l @ [newline]) = terminated s @ [l]"
    using terminated_join [of "terminated s @ [l]" "[]"] s(2) assms(2) by simp
  with assms(3) show ?thesis by (simp add: record_lines_def)
qed

lemma store_ok_damage:
  assumes "store_ok C kr st" "newline \<notin> set l" "classify l = Damage" "length l < max_record_bytes"
  shows "store_ok C kr (st\<lparr> st_file := st_file st @ l @ [newline] \<rparr>)"
proof -
  let ?s = "st_file st"
  have s: "?s = join_lines (terminated ?s)" "\<forall>l \<in> set (terminated ?s). newline \<notin> set l"
    using split_join [of ?s] assms(1) by (auto simp: store_ok_def)
  have "?s @ l @ [newline] = join_lines (terminated ?s @ [l]) @ []"
    by (subst s(1)) (simp add: join_lines_def)
  then have "terminated (?s @ l @ [newline]) = terminated ?s @ [l] \<and> torn_tail (?s @ l @ [newline]) = []"
    using terminated_join [of "terminated ?s @ [l]" "[]"] s(2) assms(2) by simp
  with assms show ?thesis by (simp add: store_ok_def capped_def record_lines_def store_head_def)
qed

lemma torn_join:
  assumes "torn_tail s = []" "newline \<notin> set l"
  shows "torn_tail (s @ l) = l"
proof -
  have s: "s = join_lines (terminated s)" "\<forall>l \<in> set (terminated s). newline \<notin> set l"
    using split_join [of s] assms(1) by auto
  with terminated_join [OF s(2) assms(2)] show ?thesis by simp
qed

lemma resume_reads:
  assumes "store_ok C None st2" "o_stat os" "o_tail_read os" "o_tail_write os" "o_seek os" "\<not> o_read_fault os"
    and "st_file st2 = (if torn_tail f = [] then f else f @ [newline])" "st_file st = f"
  shows "\<exists>st'. resume C os st = (st', Inr ()) \<and> st_file st' = st_file st2 \<and> store_head st' = store_head st2"
proof -
  have c: "close_torn_tail os f = (st_file st2, Inr ())"
    using assms(2-4,7) by (auto simp: close_torn_tail_def clean_iff)
  from assms(1) walk_iff [of C "st_file st2" None "store_head st2"] obtain w where
    w: "walk C False (st_file st2) None None = Some w" "\<not> failed w" "head_of w = store_head st2"
    by (auto simp: store_ok_def)
  with c assms(5,6,8) show ?thesis
    by (simp add: resume_def head_of_def store_head_def)
qed

definition open_fine :: "open_answer \<Rightarrow> bool" where
  "open_fine os \<longleftrightarrow> o_lock os = LockTaken \<and> o_file_opens os \<and> dir_opens (o_dir os) \<and> dir_closes (o_dir os) \<and>
     \<not> durability_unknown (dir_sync (o_dir os)) \<and> o_stat os \<and> o_tail_read os \<and> o_tail_write os \<and> o_seek os \<and>
     \<not> o_read_fault os"

lemma open_reads:
  assumes "store_ok C None st2" "open_fine os" "st_file st2 = (if torn_tail f = [] then f else f @ [newline])"
  shows "\<exists>st'. open_store C os f (Some sg) = (st_file st2, Inr st') \<and> store_head st' = store_head st2"
proof -
  from assms(2) have o: "o_stat os" "o_tail_read os" "o_tail_write os" "o_seek os" "\<not> o_read_fault os"
    by (simp_all add: open_fine_def)
  obtain st' where "resume C os \<lparr> st_file = f, st_signer = sg, st_next_seq = 0, st_prev_hash = [], st_broken = False \<rparr>
      = (st', Inr ())" "st_file st' = st_file st2" "store_head st' = store_head st2"
    using resume_reads [OF assms(1) o assms(3), where st = "\<lparr> st_file = f, st_signer = sg, st_next_seq = 0,
      st_prev_hash = [], st_broken = False \<rparr>"] by auto
  with assms(2) show ?thesis
    by (simp add: open_store_def open_fine_def acquire_lock_def sync_dir_def)
qed

text \<open>A part of a line is damage: closed by a newline, it is skipped.\<close>

lemma resume_torn:
  assumes "store_ok C None st" "open_fine os" "torn_tail (st_file st) = []" "newline \<notin> set line" "object_text line"
    "length line \<le> max_record_bytes" "k < length line"
  shows "\<exists>file2 st2. open_store C os (st_file st @ take k line) (Some sg) = (file2, Inr st2) \<and>
    store_head st2 = store_head st \<and> record_lines file2 = record_lines (st_file st)"
proof (cases "k = 0")
  case True
  with open_reads [OF assms(1,2), of "st_file st" sg] assms(3) show ?thesis by auto
next
  case False
  let ?p = "take k line" and ?st2 = "st\<lparr> st_file := st_file st @ take k line @ [newline] \<rparr>"
  have np: "newline \<notin> set ?p" using assms(4) in_set_takeD by fastforce
  have d: "classify ?p = Damage"
    using False assms(7) by (intro object_text_prefix [OF assms(5)]) (auto simp: take_is_prefix dest: arg_cong [of _ _ length])
  have ok: "store_ok C None ?st2" by (rule store_ok_damage [OF assms(1) np d]) (use assms(6,7) in auto)
  have "?p \<noteq> []" using False assms(7) by auto
  then have "st_file ?st2 = (if torn_tail (st_file st @ ?p) = [] then st_file st @ ?p else (st_file st @ ?p) @ [newline])"
    using torn_join [OF assms(3) np] by simp
  from open_reads [OF ok assms(2) this, of sg] record_lines_snoc_damage [OF assms(3) np d] show ?thesis
    by (fastforce simp: store_head_def)
qed

text \<open>
  C7: crash recovery. However many bytes of a record a failed write got into the file, no earlier record is lost, and the store that
  failed stays unusable. Let the operating system open and lock the log. Unless the whole line of a record of exactly the maximum
  size reached the file, reopening succeeds: if a part of the line is missing, the store resumes from the head it had, the torn
  fragment closed and skipped; otherwise from the head after the new record. In the exceptional case no store can open the log
  again, whatever the operating system answers.
\<close>
theorem crash_recovery:
  assumes "append_record C (WriteError k) st rec = (st', rec', Inl WriteFailed)" "crypto_ok C" "store_ok C None st"
    "appendable rec" "signer_in C (st_signer st) None" "open_fine os"
  shows "st_broken st' \<and> (\<exists>line. st_file st' = st_file st @ take k (line @ [newline]) \<and> length line \<le> max_record_bytes \<and>
    (if length line = max_record_bytes \<and> length line \<le> k
     then \<not> (\<exists>os sg file2 st2. open_store C os (st_file st') (Some sg) = (file2, Inr st2))
     else \<exists>file2 st2. open_store C os (st_file st') (Some sg) = (file2, Inr st2) \<and>
       (if k < length line then store_head st2 = store_head st \<and> record_lines file2 = record_lines (st_file st)
        else store_head st2 = \<lparr> hd_seq = st_next_seq st, hd_hash = line_hash C line \<rparr> \<and>
          record_lines file2 = record_lines (st_file st) @ [line])))"
proof -
  from assms(1) have ne: "\<not> st_broken st" by (auto simp: append_record_def split: if_splits)
  have br: "st_broken st'"
    using assms(1) ne sealed_not_write by (auto simp: append_record_def Let_def write_line_def split: if_splits sum.splits prod.splits)
  with ne append_written [OF assms(1-5)] obtain line where
    l: "accepts C None (store_head st) line" "newline \<notin> set line" "object_text line" "length line \<le> max_record_bytes"
    and st': "st' = st\<lparr> st_file := st_file st @ take k (line @ [newline]), st_broken := True \<rparr>" by auto
  have clean: "torn_tail (st_file st) = []" using assms(3) by (simp add: store_ok_def)
  have "line \<noteq> []" using l(3) by (auto simp: object_text_def)
  note lines = record_lines_snoc [OF clean l(2) accepts_parsed [OF l(1)]]
  show ?thesis
  proof (cases "k < length line")
    case True
    then have f: "st_file st' = st_file st @ take k line" using st' by simp
    from resume_torn [OF assms(3,6) clean l(2,3,4) True, of sg] obtain file2 st2 where
      "open_store C os (st_file st') (Some sg) = (file2, Inr st2)" "store_head st2 = store_head st" "record_lines file2 = record_lines (st_file st)"
      unfolding f by blast
    with True l(4) br st' show ?thesis by (intro conjI exI [of _ line]) simp_all
  next
    case False
    have f: "(if torn_tail (st_file st') = [] then st_file st' else st_file st' @ [newline]) = st_file st @ line @ [newline]"
    proof (cases "k = length line")
      case True
      with st' torn_join [OF clean l(2)] \<open>line \<noteq> []\<close> show ?thesis by simp
    next
      case longer: False
      with False have "st_file st' = st_file st @ line @ [newline]" by (simp add: st')
      moreover have "torn_tail (st_file st @ line @ [newline]) = []" using lines by simp
      ultimately show ?thesis by simp
    qed
    show ?thesis
    proof (cases "length line = max_record_bytes")
      case True
      note locked = full_line_uncapped [OF clean l(2) accepts_parsed [OF l(1)] True]
      have "\<not> (\<exists>os sg file2 st2. open_store C os (st_file st') (Some sg) = (file2, Inr st2))"
        using locked uncapped_locked [where s = "st_file st'" and C = C, unfolded f] by blast
      with True False l(4) st' br show ?thesis by (intro conjI exI [of _ line]) simp_all
    next
      case less: False
      let ?st2 = "st\<lparr> st_file := st_file st @ line @ [newline], st_prev_hash := line_hash C line, st_next_seq := st_next_seq st + 1 \<rparr>"
      have ok: "store_ok C None ?st2" by (rule store_ok_extend [OF assms(3) l(1,2)]) (use less l(4) in simp)
      from open_reads [OF ok assms(6), of "st_file st'" sg] f obtain st2 where
        "open_store C os (st_file st') (Some sg) = (st_file ?st2, Inr st2)" "store_head st2 = store_head ?st2" by auto
      with lines less False l(4) st' br show ?thesis by (intro conjI exI [of _ line]) (simp_all add: store_head_def)
    qed
  qed
qed


text \<open>
  C15: a record of exactly the maximum size locks its log: the store accepts and writes it (its
  limit does not count the newline), and afterwards the log does not verify under any keyring and
  no store can open it again (the reader's limit does).
\<close>
theorem full_size_append_locks_log:
  assumes "append_record C Written st rec = (st', rec', Inr ())" "crypto_ok C" "store_ok C kr st"
    "appendable rec" "signer_in C (st_signer st) kr"
    "length (st_file st') = length (st_file st) + max_record_bytes + 1"
  shows "\<not> (\<exists>keys r. verify C False (st_file st') keys None = Some r \<and> verified r) \<and>
    \<not> (\<exists>os sg file2 st2. open_store C os (st_file st') (Some sg) = (file2, Inr st2))"
proof -
  from append_written [OF assms(1-5)] obtain line where l: "newline \<notin> set line" "accepts C kr (store_head st) line"
    and st': "st_file st' = st_file st @ line @ [newline]" by auto
  have clean: "torn_tail (st_file st) = []" using assms(3) by (simp add: store_ok_def)
  have "length line = max_record_bytes" using st' assms(6) by simp
  with full_line_uncapped [OF clean l(1) accepts_parsed [OF l(2)]] st' have "\<not> capped (st_file st')" by simp
  moreover have "torn_tail (st_file st') = []" using record_lines_snoc [OF clean l(1) accepts_parsed [OF l(2)]] st' by simp
  ultimately show ?thesis using uncapped_refused [of "st_file st'" C] by (auto dest: uncapped_locked)
qed

end
