(* ===== verification/SpecVerify.thy ===== *)
theory SpecVerify
  imports StoreProps
begin

text \<open>
  \<^verbatim>\<open>spec/evidence/{canonical,verify,anchor,witness}.go\<close>: the second, independent verifier. It is
  translated on its own (names with the prefix \<open>s_\<close>), sharing with the core's model only what the
  two programs take from Go's library. It looks at the decoded map, never at a struct: members
  are found by their exact name, and only the ones the specification names are looked at.
\<close>

subsection \<open>Canonical form\<close>

datatype s_number_error = SNotIntegerLiteral | SNegativeZero | SUnparsable | SBeyondBound

definition s_max_canonical_bytes :: nat where "s_max_canonical_bytes = 64 * 1024"
definition s_max_safe_integer :: int where "s_max_safe_integer = 2 ^ 53 - 1"

definition s_integer_value :: "bytes \<Rightarrow> s_number_error + int" where
  "s_integer_value s =
     (if CHR ''.'' \<in> set s \<or> CHR ''e'' \<in> set s \<or> CHR ''E'' \<in> set s then Inl SNotIntegerLiteral
      else if s = ''-0'' then Inl SNegativeZero
      else (case parse_int64 s of None \<Rightarrow> Inl SUnparsable
        | Some v \<Rightarrow> if v > s_max_safe_integer \<or> v < - s_max_safe_integer then Inl SBeyondBound else Inr v))"

definition s_escape :: "nat \<Rightarrow> bytes" where
  "s_escape r =
     (if r = code c_quote then [c_bslash, c_quote]
      else if r = code c_bslash then [c_bslash, c_bslash]
      else if r = 8 then c_bslash # ''b''
      else if r = 12 then c_bslash # ''f''
      else if r = 10 then c_bslash # ''n''
      else if r = 13 then c_bslash # ''r''
      else if r = 9 then c_bslash # ''t''
      else if r < 0x20 then c_bslash # ''u00'' @ [hex_char (r div 16), hex_char (r mod 16)]
      else encode_rune r)"

text \<open>No check of validity: ranging over a string turns a bad byte into U+FFFD.\<close>

definition s_canonical_string :: "bytes \<Rightarrow> bytes" where
  "s_canonical_string s = c_quote # concat (map s_escape (runes s)) @ [c_quote]"

definition s_canonical_member :: "bytes \<times> (s_number_error + bytes) \<Rightarrow> s_number_error + bytes" where
  "s_canonical_member p = andthen (snd p) (\<lambda>v. Inr (s_canonical_string (fst p) @ CHR '':'' # v))"

primrec s_canonicalize :: "json \<Rightarrow> s_number_error + bytes" where
  "s_canonicalize JNull = Inr ''null''"
| "s_canonicalize (JBool b) = Inr (if b then ''true'' else ''false'')"
| "s_canonicalize (JNum n) = andthen (s_integer_value n) (\<lambda>v. Inr (show_int v))"
| "s_canonicalize (JStr s) = Inr (s_canonical_string s)"
| "s_canonicalize (JArr vs) =
     andthen (sequence (map s_canonicalize vs)) (\<lambda>es. Inr (CHR 0x5B # commas es @ [CHR 0x5D]))"
| "s_canonicalize (JObj ms) =
     andthen (sequence (map s_canonical_member
       (isort (by_key less_utf16) (map (map_prod (\<lambda>k. k) s_canonicalize) ms))))
     (\<lambda>es. Inr (CHR 0x7B # commas es @ [CHR 0x7D]))"

text \<open>\<^verbatim>\<open>parseRecord\<close>: \<open>None\<close> is any of its three errors, which the caller does not tell apart.\<close>

definition s_parse_record :: "bytes \<Rightarrow> (bytes \<times> json) list option" where
  "s_parse_record line = (case decode_first line of None \<Rightarrow> None
     | Some (v, trailing) \<Rightarrow> if trailing then None
         else (case collapse v of JObj obj \<Rightarrow> Some obj | _ \<Rightarrow> None))"

subsection \<open>One record\<close>

datatype s_reason =
    SUnsupportedSchema bytes | SNumber s_number_error | SNotCanonical | SSeqMissing
  | SSeqMismatch int int | SPrevMismatch bytes bytes | SSigMissing | SUnsupportedAlg bytes
  | SKeyIdMissing | SUnknownKey bytes | SSigB64Missing | SBadBase64 | SSigLength nat | SBadSignature
  | SAnchorMismatch int bytes | STruncated int int | SOversized
  | SWitnessRefused bytes head bytes

definition s_supported_schemas :: "bytes list" where
  "s_supported_schemas = [''probavi-evidence/0'', ''probavi-evidence/1'', ''probavi-evidence/2'',
     ''probavi-evidence/3'']"

definition s_str_field :: "(bytes \<times> json) list \<Rightarrow> bytes \<Rightarrow> bytes option" where
  "s_str_field obj k = (case map_of obj k of Some (JStr s) \<Rightarrow> Some s | _ \<Rightarrow> None)"

definition s_integer_field :: "(bytes \<times> json) list \<Rightarrow> bytes \<Rightarrow> int option" where
  "s_integer_field obj k = (case map_of obj k of Some (JNum n) \<Rightarrow>
       (case s_integer_value n of Inl e \<Rightarrow> None | Inr v \<Rightarrow> Some v)
     | _ \<Rightarrow> None)"

definition s_verify_signature :: "crypto \<Rightarrow> keyring \<Rightarrow> (bytes \<times> json) list \<Rightarrow> s_reason option" where
  "s_verify_signature C keys obj =
     (case map_of obj ''sig'' of
        Some (JObj sg) \<Rightarrow>
          (case s_str_field sg ''alg'' of None \<Rightarrow> Some (SUnsupportedAlg [])
           | Some alg \<Rightarrow> if alg \<noteq> ''ed25519'' then Some (SUnsupportedAlg alg)
             else (case s_str_field sg ''key_id'' of None \<Rightarrow> Some SKeyIdMissing
               | Some kid \<Rightarrow> (case keys kid of None \<Rightarrow> Some (SUnknownKey kid)
                 | Some pub \<Rightarrow> (case s_str_field sg ''sig_b64'' of None \<Rightarrow> Some SSigB64Missing
                   | Some b64 \<Rightarrow> (case b64_decode b64 of None \<Rightarrow> Some SBadBase64
                     | Some raw \<Rightarrow>
                        if length raw \<noteq> 64 then Some (SSigLength (length raw))
                        else (case s_canonicalize (JObj (filter (\<lambda>p. fst p \<noteq> ''sig'') obj)) of
                            Inl e \<Rightarrow> Some SBadSignature
                          | Inr msg \<Rightarrow> if \<not> ed_verify C pub msg raw then Some SBadSignature else None))))))
      | _ \<Rightarrow> Some SSigMissing)"

definition s_verify_record ::
    "crypto \<Rightarrow> (bytes \<times> json) list \<Rightarrow> bytes \<Rightarrow> keyring \<Rightarrow> bytes \<Rightarrow> int \<Rightarrow> s_reason option" where
  "s_verify_record C obj line keys expected_prev expected_seq =
     (case s_str_field obj ''schema'' of None \<Rightarrow> Some (SUnsupportedSchema [])
      | Some schema \<Rightarrow>
        if schema \<notin> set s_supported_schemas then Some (SUnsupportedSchema schema)
        else (case s_canonicalize (JObj obj) of Inl e \<Rightarrow> Some (SNumber e)
          | Inr canon \<Rightarrow>
            if canon \<noteq> line then Some SNotCanonical
            else (case s_integer_field obj ''seq'' of None \<Rightarrow> Some SSeqMissing
              | Some n \<Rightarrow>
                if n \<noteq> expected_seq then Some (SSeqMismatch n expected_seq)
                else (case s_str_field obj ''prev_hash'' of None \<Rightarrow> Some (SPrevMismatch [] expected_prev)
                  | Some prev \<Rightarrow> if prev \<noteq> expected_prev then Some (SPrevMismatch prev expected_prev)
                      else s_verify_signature C keys obj))))"

subsection \<open>The log\<close>

datatype s_line = SOver | SFault | SRaw bytes bytes

function s_read_capped :: "nat \<Rightarrow> bool \<Rightarrow> bytes \<Rightarrow> bytes \<Rightarrow> s_line" where
  "s_read_capped n fault line s =
     (case read_slice (buffer_size n) fault s of (chunk, fin, rest) \<Rightarrow>
        if length line + length chunk > s_max_canonical_bytes + 1 then SOver
        else (case fin of
            BufferFull \<Rightarrow> s_read_capped n fault (line @ chunk) rest
          | Delim \<Rightarrow> SRaw (line @ chunk) rest
          | AtEof \<Rightarrow> SRaw (line @ chunk) []
          | Fault \<Rightarrow> SFault))"
  by pat_completeness auto
termination
  by (relation "measure (\<lambda>(n, fault, line, s). length s)")
    (auto simp: read_slice_def Let_def buffer_size_def split: if_splits)

declare s_read_capped.simps [simp del]

text \<open>\<^verbatim>\<open>bufio.NewReader\<close> without a size makes a buffer of 4096 bytes.\<close>

definition s_buffer :: nat where "s_buffer = 4096"

record s_result =
  s_status :: status
  s_records :: nat
  s_damaged :: "nat list"
  s_reason :: "s_reason option"
  s_line_no :: nat
  s_head :: head
  s_witness :: "witness option"

record s_anchor_check =
  s_want :: "head option"
  s_seen :: bool

definition s_invalid :: "s_result \<Rightarrow> nat \<Rightarrow> s_reason \<Rightarrow> s_result" where
  "s_invalid res line rs = res\<lparr> s_status := StatusInvalid, s_reason := Some rs, s_line_no := line \<rparr>"

definition s_at :: "s_anchor_check \<Rightarrow> head \<Rightarrow> s_anchor_check \<times> s_reason option" where
  "s_at a h = (case s_want a of None \<Rightarrow> (a, None)
     | Some want \<Rightarrow>
        if s_seen a \<or> hd_seq h \<noteq> hd_seq want then (a, None)
        else (a\<lparr> s_seen := True \<rparr>,
          if h = want then None else Some (SAnchorMismatch (hd_seq want) (hd_hash h))))"

definition s_missed :: "s_anchor_check \<Rightarrow> head \<Rightarrow> s_reason option" where
  "s_missed a h = (case s_want a of None \<Rightarrow> None
     | Some want \<Rightarrow> if s_seen a then None else Some (STruncated (hd_seq h) (hd_seq want)))"

definition s_finish :: "s_anchor_check \<Rightarrow> s_result \<Rightarrow> s_result" where
  "s_finish a res = (case s_missed a (s_head res) of Some rs \<Rightarrow> s_invalid res 0 rs
     | None \<Rightarrow> if s_damaged res \<noteq> [] then res\<lparr> s_status := StatusValidWithDamage \<rparr> else res)"

text \<open>The same reader as the core's, with the newline allowed on top of the cap.\<close>

definition raw_line :: "line_result \<Rightarrow> s_line" where
  "raw_line r = (case r of OverCap \<Rightarrow> SOver | ReadError \<Rightarrow> SFault | Fragment l \<Rightarrow> SRaw l []
     | Line l rest \<Rightarrow> SRaw (l @ [newline]) rest)"

lemma s_read_capped_eq:
  "s_read_capped n fault line s = raw_line (read_line_loop n fault (s_max_canonical_bytes + 1) line s)"
proof (induction n fault line s rule: s_read_capped.induct)
  case (1 n fault line s)
  obtain chunk fin rest where r: "read_slice (buffer_size n) fault s = (chunk, fin, rest)"
    by (cases "read_slice (buffer_size n) fault s") auto
  have d: "fin = Delim \<Longrightarrow> \<exists>h. chunk = h @ [newline]"
    using r by (auto simp: read_slice_def Let_def split: if_splits)
  show ?case
  proof (cases "length line + length chunk > s_max_canonical_bytes + 1")
    case True
    then show ?thesis
      by (simp add: s_read_capped.simps [of n fault line s] read_line_loop.simps [of n fault _ line s] r raw_line_def)
  next
    case False
    note u = s_read_capped.simps [of n fault line s] read_line_loop.simps [of n fault _ line s]
    show ?thesis
    proof (cases fin)
      case BufferFull
      with "1.IH" [OF r [symmetric] refl False BufferFull] False r show ?thesis by (simp add: u)
    qed (use False d in \<open>auto simp: u r raw_line_def butlast_append\<close>)
  qed
qed

lemma s_read_whole: "s_read_capped n fault [] s = raw_line (read_line n fault (s_max_canonical_bytes + 1) s)"
  by (simp add: s_read_capped_eq read_line_def)

lemma s_read_shorter:
  "s_read_capped n fault [] s = SRaw raw rest \<Longrightarrow> raw \<noteq> [] \<Longrightarrow> last raw = newline \<Longrightarrow> length rest < length s"
  unfolding s_read_whole raw_line_def
  using read_line_shorter [of n fault "s_max_canonical_bytes + 1" s]
  by (auto simp: read_line_eq line_spec_def Let_def split: line_result.splits if_splits dest: last_in_set)

function s_verify_lines ::
    "crypto \<Rightarrow> bool \<Rightarrow> keyring \<Rightarrow> s_anchor_check \<Rightarrow> s_result \<Rightarrow> nat \<Rightarrow> bytes \<Rightarrow> s_result option" where
  "s_verify_lines C fault keys a res line_no s =
     (case s_read_capped s_buffer fault [] s of
        SFault \<Rightarrow> None
      | SOver \<Rightarrow> Some (s_invalid res line_no SOversized)
      | SRaw raw rest \<Rightarrow>
          if raw = [] then Some (s_finish a res)
          else if last raw \<noteq> newline
          then Some (s_finish a (res\<lparr> s_damaged := s_damaged res @ [line_no] \<rparr>))
          else (case s_parse_record (butlast raw) of
              None \<Rightarrow> s_verify_lines C fault keys a (res\<lparr> s_damaged := s_damaged res @ [line_no] \<rparr>) (line_no + 1) rest
            | Some obj \<Rightarrow>
                (case s_verify_record C obj (butlast raw) keys (hd_hash (s_head res)) (hd_seq (s_head res) + 1) of
                   Some rs \<Rightarrow> Some (s_invalid res line_no rs)
                 | None \<Rightarrow>
                    let res = res\<lparr> s_head := \<lparr> hd_seq = hd_seq (s_head res) + 1, hd_hash = line_hash C (butlast raw) \<rparr>,
                      s_records := s_records res + 1 \<rparr> in
                    (case s_at a (s_head res) of
                       (a, Some rs) \<Rightarrow> Some (s_invalid res line_no rs)
                     | (a, None) \<Rightarrow> s_verify_lines C fault keys a res (line_no + 1) rest))))"
  by pat_completeness auto
termination
  by (relation "measure (\<lambda>(C, fault, keys, a, res, line_no, s). length s)") (auto dest: s_read_shorter)

declare s_verify_lines.simps [simp del]

definition s_initial :: s_result where
  "s_initial = \<lparr> s_status = StatusValid, s_records = 0, s_damaged = [], s_reason = None, s_line_no = 0,
     s_head = \<lparr> hd_seq = 0, hd_hash = genesis_prev_hash \<rparr>, s_witness = None \<rparr>"

definition s_verify_anchored :: "crypto \<Rightarrow> bool \<Rightarrow> bytes \<Rightarrow> keyring \<Rightarrow> head option \<Rightarrow> s_result option" where
  "s_verify_anchored C fault s keys anchor =
     (case s_at \<lparr> s_want = anchor, s_seen = False \<rparr> (s_head s_initial) of
        (a, Some rs) \<Rightarrow> Some (s_invalid s_initial 0 rs)
      | (a, None) \<Rightarrow> s_verify_lines C fault keys a s_initial 1 s)"

definition s_verify :: "crypto \<Rightarrow> bool \<Rightarrow> bytes \<Rightarrow> keyring \<Rightarrow> s_result option" where
  "s_verify C fault s keys = s_verify_anchored C fault s keys None"

definition s_parse_public_key :: "bytes \<Rightarrow> bytes option" where
  "s_parse_public_key content = (let s = trim_space content in
     if length s \<noteq> 64 then None
     else if \<exists>c \<in> set s. is_upper c then None
     else hex_decode s)"

subsection \<open>Anchors and witnesses, as this package writes them\<close>

definition s_parse_seq :: "bytes \<Rightarrow> anchor_error + int" where
  "s_parse_seq s =
     (if s = [] \<or> (length s > 1 \<and> s ! 0 = CHR ''0'') then Inl AnchorSeqForm
      else if \<exists>c \<in> set s. \<not> is_digit c then Inl AnchorSeqForm
      else (case parse_int64 s of None \<Rightarrow> Inl AnchorSeqRange | Some n \<Rightarrow> Inr n))"

definition s_check_hash_reference :: "bytes \<Rightarrow> anchor_error + unit" where
  "s_check_hash_reference h =
     (if \<not> prefix ''sha256:'' h \<or> length h - 7 \<noteq> 64 then Inl AnchorHashForm
      else if \<exists>c \<in> set (drop 7 h). \<not> is_lower_hex c then Inl AnchorHashDigits
      else Inr ())"

definition s_parse_anchor :: "bytes \<Rightarrow> anchor_error + head" where
  "s_parse_anchor s = (case cut (CHR '':'') s of (seq_text, hash, found) \<Rightarrow>
     if \<not> found then Inl AnchorNoColon
     else (case s_parse_seq seq_text of Inl e \<Rightarrow> Inl e
       | Inr n \<Rightarrow> (case s_check_hash_reference hash of Inl e \<Rightarrow> Inl e
         | Inr u \<Rightarrow> Inr \<lparr> hd_seq = n, hd_hash = hash \<rparr>)))"

definition s_witnessed :: "command_run \<Rightarrow> s_result \<Rightarrow> bytes \<Rightarrow> witness_error + s_result" where
  "s_witnessed run res command =
     (if command = [] \<or> s_status res = StatusInvalid then Inr res
      else (case run [command, head_string (s_head res)] of (exit, stdout, stderr) \<Rightarrow>
        let detail = first_line stderr in
        if exit = Some 0
        then Inr (res\<lparr> s_witness := Some \<lparr> wit_command = command, attested = True,
               attested_at = attested_at_of stdout \<rparr> \<rparr>)
        else if exit = Some 1
        then Inr (s_invalid (res\<lparr> s_witness := Some \<lparr> wit_command = command, attested = False,
               attested_at = None \<rparr> \<rparr>) 0 (SWitnessRefused command (s_head res) detail))
        else Inl (WitnessFailed detail)))"

end
