(* ===== verification/SpecAgree.thy ===== *)
theory SpecAgree
  imports SpecVerify
begin

text \<open>
  The core's verifier (\<^verbatim>\<open>internal/evidence\<close>) against the independent one (\<^verbatim>\<open>spec/evidence\<close>): one
  canonical form, one reading of anchors, the same verdict on every log the core accepts, and the
  places where the two differ.
\<close>

subsection \<open>The two canonical forms are one\<close>

lemma s_escape_eq: "s_escape = escape_rune"
  by (rule ext) (simp add: s_escape_def escape_rune_def)

lemma s_string_eq: "s_canonical_string s = c_quote # quote_runes s @ [c_quote]"
  by (simp add: s_canonical_string_def quote_runes_def s_escape_eq)

lemma integer_pattern_show: "integer_pattern s \<Longrightarrow> parse_int64 s = Some i \<Longrightarrow> show_int i = s"
proof (erule integer_patternE)
  assume "s = ''0''" "parse_int64 s = Some i"
  moreover have "parse_int64 ''0'' = Some 0"
    by (simp add: parse_int64_def digits_val_def digit_val_def is_digit_def)
  ultimately show ?thesis by (simp add: show_int_def show_nat.simps digit_char_def char_of_conv)
next
  fix d ds
  assume s: "s = d # ds" "is_digit d" "d \<noteq> CHR ''0''" "list_all is_digit ds" and p: "parse_int64 s = Some i"
  have dv: "digit_val d \<noteq> 0" using s(2,3) conv_code [of d] by (auto simp: digit_val_def is_digit_def)
  from p s parse_digits [of "d # ds"] have "i = int (digits_val (d # ds))" by (simp split: if_splits)
  with show_digits_val [of d ds] s dv show ?thesis by (simp add: show_int_def)
next
  fix d ds
  assume s: "s = CHR ''-'' # d # ds" "is_digit d" "d \<noteq> CHR ''0''" "list_all is_digit ds" and p: "parse_int64 s = Some i"
  have dv: "digit_val d \<noteq> 0" using s(2,3) conv_code [of d] by (auto simp: digit_val_def is_digit_def)
  from p s parse_neg_digits [of "d # ds"] have "i = - int (digits_val (d # ds))" by (simp split: if_splits)
  with show_digits_val [of d ds] digits_val_pos [of d ds] s dv show ?thesis by (simp add: show_int_def)
qed

lemma integer_pattern_plain:
  assumes "integer_pattern s"
  shows "CHR ''.'' \<notin> set s \<and> CHR ''e'' \<notin> set s \<and> CHR ''E'' \<notin> set s \<and> s \<noteq> ''-0''"
  using assms by (rule integer_patternE) (auto simp: list_all_iff is_digit_def)

lemma num_ok_pattern:
  assumes "num_ok n" "CHR ''.'' \<notin> set n" "CHR ''e'' \<notin> set n" "CHR ''E'' \<notin> set n" "n \<noteq> ''-0''"
  shows "integer_pattern n"
proof -
  define s0 where "s0 = (case n of c # t \<Rightarrow> if c = CHR ''-'' then t else n | [] \<Rightarrow> n)"
  define sg where "sg = (case n of c # t \<Rightarrow> if c = CHR ''-'' then [c] else [] | [] \<Rightarrow> [])"
  obtain n' where n': "scan_number n = Some (n', [])" "n' = n" using assms(1) by (simp add: num_ok_def)
  from n'(1) obtain i s1 f s2 e where
    m: "scan_int s0 = Some (i, s1)" "scan_frac s1 = Some (f, s2)" "scan_exp s2 = Some (e, [])"
    and a': "n' = sg @ i @ f @ e"
    by (auto simp: scan_number_def Let_def s0_def sg_def split: list.splits if_splits option.splits)
  note a = a' [unfolded n'(2)]
  have "f = []" using m(2) a assms(2) by (auto simp: scan_frac_def split: list.splits if_splits)
  moreover have "e = []" using m(3) a assms(3,4) by (auto simp: scan_exp_def split: list.splits if_splits)
  ultimately have n: "n = sg @ i" using a by simp
  from m(1) have i: "i = ''0'' \<or> (\<exists>d ds. i = d # ds \<and> is_digit d \<and> d \<noteq> CHR ''0'' \<and> list_all is_digit ds)"
    by (auto simp: scan_int_def list_all_iff dest: set_takeWhileD split: list.splits if_splits)
  have "sg = [] \<or> sg = ''-''" by (auto simp: sg_def split: list.splits)
  with n i assms(5) show ?thesis by (auto simp: integer_pattern_def is_digit_def)
qed

lemma s_number_eq:
  assumes "num_ok n"
  shows "andthen (s_integer_value n) (\<lambda>v. Inr (show_int v)) = Inr t \<longleftrightarrow> append_canonical_number n = Inr t"
proof (cases "integer_pattern n")
  case True
  with integer_pattern_plain [OF True] integer_pattern_show [OF True] show ?thesis
    by (auto simp: s_integer_value_def append_canonical_number_def s_max_safe_integer_def max_safe_integer_def
        split: option.splits)
next
  case False
  with num_ok_pattern [OF assms] show ?thesis
    by (auto simp: s_integer_value_def append_canonical_number_def)
qed

lemma s_canonicalize_norm:
  "canonical_ok v \<Longrightarrow> s_canonicalize v = Inr (render quote_runes (norm v))"
proof (induction v rule: json_induct)
  case (Num n)
  then have "safe_int n" by simp
  with s_number_eq [OF safe_int_num] show ?case by (simp add: canonical_number_Inr)
next
  case (Arr vs)
  then have "map s_canonicalize vs = map (\<lambda>v. Inr (render quote_runes (norm v))) vs" by auto
  then show ?case
    by (simp only: s_canonicalize.simps sequence_map_Inr andthen.simps norm.simps render.simps map_map comp_def)
next
  case (Obj ms)
  let ?t = "\<lambda>v. render quote_runes (norm v)"
  let ?ms = "isort (by_key less_utf16) (map (map_prod (\<lambda>k. k) ?t) ms)"
  from Obj have 0: "map (map_prod (\<lambda>k. k) s_canonicalize) ms = map (map_prod (\<lambda>k. k) Inr) (map (map_prod (\<lambda>k. k) ?t) ms)"
    by auto
  have 1: "isort (by_key less_utf16) (map (map_prod (\<lambda>k. k) s_canonicalize) ms)
    = map (map_prod (\<lambda>k. k) Inr) ?ms"
    unfolding 0 by (rule map_isort_key [symmetric]) simp
  have 2: "map s_canonical_member (map (map_prod (\<lambda>k. k) Inr) ?ms) = map (\<lambda>p. Inr (member_text quote_runes p)) ?ms"
    by (auto simp: s_canonical_member_def s_string_eq member_text_def)
  have 3: "map (map_prod (\<lambda>k. k) (render quote_runes)) (isort (by_key less_utf16) (map (map_prod (\<lambda>k. k) norm) ms)) = ?ms"
    by (simp add: map_isort_key comp_def map_prod_def split_def)
  show ?case by (simp only: s_canonicalize.simps 1 2 norm.simps render.simps 3 sequence_map_Inr andthen.simps)
qed (auto simp: s_string_eq)

lemma s_canonicalize_ok:
  "s_canonicalize v = Inr t \<Longrightarrow> json_all valid_string num_ok v \<Longrightarrow> canonical_ok v"
proof (induction v arbitrary: t rule: json_induct)
  case (Num n)
  with s_number_eq [of n t] show ?case by (simp add: canonical_number_Inr)
next
  case (Arr vs)
  then have "\<exists>es. sequence (map s_canonicalize vs) = Inr es" by (auto simp: andthen_Inr)
  then have "\<forall>v \<in> set vs. \<exists>e. s_canonicalize v = Inr e" unfolding sequence_ok by (simp add: is_ok_iff)
  with Arr show ?case by fastforce
next
  case (Obj ms)
  let ?ms = "isort (by_key less_utf16) (map (map_prod (\<lambda>k. k) s_canonicalize) ms)"
  from Obj.prems have "\<exists>es. sequence (map s_canonical_member ?ms) = Inr es" by (auto simp: andthen_Inr)
  then have "\<forall>r \<in> set (map s_canonical_member ?ms). is_ok r" unfolding sequence_ok .
  then have "\<forall>(k, v) \<in> set ms. is_ok (s_canonical_member (k, s_canonicalize v))" by force
  then have "\<forall>(k, v) \<in> set ms. \<exists>e. s_canonicalize v = Inr e"
    by (auto simp: s_canonical_member_def is_ok_iff andthen_Inr)
  with Obj show ?case by fastforce
qed auto

text \<open>
  The two canonicalizers agree. On every value a decoder can return (UTF-8 strings, numbers in
  JSON's grammar) the independent verifier's canonical form exists exactly when the core's does,
  and they are the same bytes.
\<close>
theorem canonical_forms_agree:
  assumes "json_all valid_string num_ok v"
  shows "s_canonicalize v = Inr t \<longleftrightarrow> append_canonical v = Inr t"
  using s_canonicalize_norm [of v] s_canonicalize_ok [of v t] append_canonical_iff [of v t] assms by auto

lemma s_canonical_of_core: "append_canonical v = Inr t \<Longrightarrow> s_canonicalize v = Inr t"
  using s_canonicalize_norm [of v] append_canonical_iff [of v t] by auto

subsection \<open>A record the core accepts\<close>

definition plain_members :: "(bytes \<times> json) list \<Rightarrow> bool" where
  "plain_members obj \<longleftrightarrow> (\<forall>k \<in> fst ` set obj. plain_key record_names k) \<and>
     (case map_of obj ''sig'' of Some (JObj sg) \<Rightarrow> \<forall>k \<in> fst ` set sg. plain_key sig_names k | _ \<Rightarrow> True)"

lemma put_sig_exact:
  assumes "plain_key sig_names k"
  shows "put_sig (k, v) s = (if k = ''alg'' then s\<lparr> v_alg := set_str v (v_alg s) \<rparr>
     else if k = ''key_id'' then s\<lparr> v_key_id := set_str v (v_key_id s) \<rparr>
     else if k = ''sig_b64'' then s\<lparr> v_sig_b64 := set_str v (v_sig_b64 s) \<rparr> else s)"
proof (cases "k \<in> set sig_names")
  case True
  then show ?thesis by (simp add: put_sig_def Let_def field_name_exact)
next
  case False
  with assms have "field_name sig_names k = None" by (simp add: plain_key_def)
  moreover from False have "k \<notin> {''alg'', ''key_id'', ''sig_b64''}" by (simp add: sig_names_def)
  ultimately show ?thesis by (simp add: put_sig_def Let_def)
qed

lemma fold_put_sig:
  assumes "\<forall>k \<in> fst ` set ms. plain_key sig_names k" "distinct (map fst ms)"
  shows "v_alg (fold put_sig ms r) = (case map_of ms ''alg'' of None \<Rightarrow> v_alg r | Some v \<Rightarrow> set_str v (v_alg r)) \<and>
    v_key_id (fold put_sig ms r) = (case map_of ms ''key_id'' of None \<Rightarrow> v_key_id r | Some v \<Rightarrow> set_str v (v_key_id r)) \<and>
    v_sig_b64 (fold put_sig ms r) = (case map_of ms ''sig_b64'' of None \<Rightarrow> v_sig_b64 r | Some v \<Rightarrow> set_str v (v_sig_b64 r))"
  using assms
proof (induction ms arbitrary: r)
  case Nil
  then show ?case by simp
next
  case (Cons m ms)
  obtain k v where m: "m = (k, v)" by (cases m)
  from Cons.prems m have k: "plain_key sig_names k" by auto
  from Cons.prems m have n: "map_of ms k = None" by (auto simp: map_of_eq_None_iff)
  have "v_alg (fold put_sig ms r) = (case map_of ms ''alg'' of None \<Rightarrow> v_alg r | Some v \<Rightarrow> set_str v (v_alg r)) \<and>
    v_key_id (fold put_sig ms r) = (case map_of ms ''key_id'' of None \<Rightarrow> v_key_id r | Some v \<Rightarrow> set_str v (v_key_id r)) \<and>
    v_sig_b64 (fold put_sig ms r) = (case map_of ms ''sig_b64'' of None \<Rightarrow> v_sig_b64 r | Some v \<Rightarrow> set_str v (v_sig_b64 r))" for r
    using Cons.prems by (intro Cons.IH) auto
  note IH = this [of "put_sig (k, v) r"]
  consider "k = ''alg''" | "k = ''key_id''" | "k = ''sig_b64''"
    | "k \<noteq> ''alg''" "k \<noteq> ''key_id''" "k \<noteq> ''sig_b64''" by blast
  then show ?case
    by cases (use IH n put_sig_exact [OF k, of v r] in \<open>simp_all add: m cong: option.case_cong\<close>)
qed

lemma set_str_nonempty: "set_str v [] = s \<Longrightarrow> s \<noteq> [] \<Longrightarrow> v = JStr s"
  by (cases v) (auto simp: set_str_def)

lemma field_str:
  assumes "(case map_of obj k of None \<Rightarrow> [] | Some v \<Rightarrow> set_str v []) = s" "s \<noteq> []"
  shows "s_str_field obj k = Some s"
proof (cases "map_of obj k")
  case None
  with assms show ?thesis by simp
next
  case (Some v)
  with assms set_str_nonempty [of v s] show ?thesis by (simp add: s_str_field_def)
qed

lemma b64_decode_Nil: "b64_decode [] = Some []"
  by (simp add: b64_decode_def)

lemma classify_parsed:
  assumes "classify l = Parsed rec obj"
  shows "decode_strict l = Inr (JObj obj)" "append_canonical (JObj obj) = Inr l" "unmarshal_record obj = Some rec"
    "supported_schema (v_schema rec)"
  using assms by (auto simp: classify_def split: sum.splits json.splits option.splits if_splits)

lemma decode_strict_unique:
  assumes "decode_strict l = Inr w"
  shows "unique_keys w"
proof -
  from assms obtain v where "w = collapse v" by (auto simp: decode_strict_def split: option.splits if_splits)
  then show ?thesis using collapse_unique [of v] by simp
qed

lemma s_parse_of_strict: "s_parse_record l = (case decode_strict l of Inr (JObj obj) \<Rightarrow> Some obj | _ \<Rightarrow> None)"
  by (auto simp: s_parse_record_def decode_strict_def split: option.splits json.splits)


lemma safe_int_value: "safe_int t \<Longrightarrow> parse_int64 t = Some i \<Longrightarrow> s_integer_value t = Inr i"
  using integer_pattern_plain [of t]
  by (auto simp: safe_int_def append_canonical_number_def s_integer_value_def max_safe_integer_def
      s_max_safe_integer_def split: if_splits)

lemma set_sig_Some: "set_sig v None = Some sg \<Longrightarrow> \<exists>ms. v = JObj ms \<and> sg = fold put_sig ms empty_sig"
  by (auto simp: set_sig_def split: json.splits)

lemma unique_keys_member: "unique_keys (JObj obj) \<Longrightarrow> map_of obj k = Some v \<Longrightarrow> unique_keys v"
  by (force simp: list_all_iff dest: map_of_SomeD)

lemma core_signature_spec:
  assumes v: "verify_signature C kr rec obj = Inr ()" and sig: "map_of obj ''sig'' = Some (JObj ms)"
    "v_sig rec = Some (fold put_sig ms empty_sig)"
    and pl: "\<forall>k \<in> fst ` set ms. plain_key sig_names k" and d: "distinct (map fst ms)" and kr0: "kr [] = None"
  shows "s_verify_signature C kr obj = None"
proof -
  let ?sg = "fold put_sig ms empty_sig"
  from v sig(2) obtain pub raw msg where
    f: "v_alg ?sg = ''ed25519''" "kr (v_key_id ?sg) = Some pub" "b64_decode (v_sig_b64 ?sg) = Some raw"
    "length raw = 64" "append_canonical (JObj (unsigned obj)) = Inr msg" "ed_verify C pub msg raw"
    by (auto simp: verify_signature_def split: option.splits if_splits sum.splits)
  have e: "v_alg empty_sig = []" "v_key_id empty_sig = []" "v_sig_b64 empty_sig = []" by (simp_all add: empty_sig_def)
  note fp = fold_put_sig [OF pl d, of empty_sig, unfolded e]
  have ne: "v_alg ?sg \<noteq> []" "v_key_id ?sg \<noteq> []" "v_sig_b64 ?sg \<noteq> []"
    using f(1-4) kr0 b64_decode_Nil by auto
  have "s_str_field ms ''alg'' = Some (v_alg ?sg)"
    by (rule field_str [OF _ ne(1)]) (simp only: fp)
  moreover have "s_str_field ms ''key_id'' = Some (v_key_id ?sg)"
    by (rule field_str [OF _ ne(2)]) (simp only: fp)
  moreover have "s_str_field ms ''sig_b64'' = Some (v_sig_b64 ?sg)"
    by (rule field_str [OF _ ne(3)]) (simp only: fp)
  ultimately show ?thesis
    using f sig(1) s_canonical_of_core [OF f(5)] by (simp add: s_verify_signature_def unsigned_def)
qed

lemma core_accepts_spec:
  assumes a: "accepts C (Some kr) h l" and cl: "classify l = Parsed rec obj" and pl: "plain_members obj"
    and kr0: "kr [] = None" and h: "0 \<le> hd_seq h" "hd_hash h \<noteq> []"
  shows "s_parse_record l = Some obj \<and> s_verify_record C obj l kr (hd_hash h) (hd_seq h + 1) = None"
proof -
  note c = classify_parsed [OF cl]
  have uk: "unique_keys (JObj obj)" using decode_strict_unique [OF c(1)] .
  then have d: "distinct (map fst obj)" by simp
  from pl have pk: "\<forall>k \<in> fst ` set obj. plain_key record_names k" by (simp add: plain_members_def)
  have rec: "rec = fold put_field obj zero_view" using c(3) by (simp add: unmarshal_record_def split: if_splits)
  have z: "v_schema zero_view = []" "v_seq zero_view = 0" "v_prev_hash zero_view = []" "v_sig zero_view = None"
    by (simp_all add: zero_view_def)
  note f = fold_put_field [OF pk d, of zero_view, unfolded z, folded rec]
  from a cl have acc: "v_seq rec = hd_seq h + 1" "v_prev_hash rec = hd_hash h" "verify_signature C kr rec obj = Inr ()"
    by (simp_all add: accepts_def)
  have sch: "s_str_field obj ''schema'' = Some (v_schema rec)"
    by (rule field_str) (use f c(4) in \<open>auto simp: supported_schema_def schema_ids_def schema_id_def
        schema_id_v0_def schema_id_v1_def schema_id_v2_def\<close>)
  have prev: "s_str_field obj ''prev_hash'' = Some (hd_hash h)"
    by (rule field_str) (use f acc h in auto)
  have sq: "s_integer_field obj ''seq'' = Some (hd_seq h + 1)"
  proof -
    from f acc(1) h(1) obtain v where v: "map_of obj ''seq'' = Some v" "set_int v 0 = hd_seq h + 1"
      by (auto split: option.splits)
    from v(2) h(1) obtain t where t: "v = JNum t" "parse_int64 t = Some (hd_seq h + 1)"
      by (cases v) (auto simp: set_int_def split: option.splits)
    have "canonical_ok (JObj obj)" using c(2) by (simp only: append_canonical_iff)
    with v(1) t(1) have "safe_int t" by (force dest: map_of_SomeD)
    with safe_int_value t v(1) show ?thesis by (simp add: s_integer_field_def)
  qed
  from acc(3) obtain sg where sg: "v_sig rec = Some sg"
    by (auto simp: verify_signature_def split: option.splits)
  with f obtain v where v: "map_of obj ''sig'' = Some v" "set_sig v None = Some sg"
    by (auto split: option.splits)
  from set_sig_Some [OF v(2)] obtain ms where ms: "v = JObj ms" "sg = fold put_sig ms empty_sig" by blast
  have "s_verify_signature C kr obj = None"
  proof (rule core_signature_spec [OF acc(3) _ _ _ _ kr0])
    show "map_of obj ''sig'' = Some (JObj ms)" "v_sig rec = Some (fold put_sig ms empty_sig)"
      using v ms sg by simp_all
    show "\<forall>k \<in> fst ` set ms. plain_key sig_names k" using pl v ms by (simp add: plain_members_def)
    show "distinct (map fst ms)" using unique_keys_member [OF uk v(1)] ms by simp
  qed
  moreover have "v_schema rec \<in> set s_supported_schemas"
    using c(4) by (auto simp: supported_schema_def schema_ids_def s_supported_schemas_def schema_id_def
        schema_id_v0_def schema_id_v1_def schema_id_v2_def)
  moreover have "s_parse_record l = Some obj" by (simp add: s_parse_of_strict c(1))
  ultimately show ?thesis
    using sch prev sq s_canonical_of_core [OF c(2)] by (simp add: s_verify_record_def)
qed

lemma classify_damage_spec: "classify l = Damage \<Longrightarrow> s_parse_record l = None"
  by (auto simp: classify_def s_parse_of_strict split: sum.splits option.splits json.splits if_splits)

subsection \<open>Logs the core accepts\<close>

lemma line_spec_mono:
  "cap \<le> cap' \<Longrightarrow> line_spec fault cap s = Line l r \<Longrightarrow> line_spec fault cap' s = Line l r"
  "cap \<le> cap' \<Longrightarrow> line_spec fault cap s = Fragment l \<Longrightarrow> line_spec fault cap' s = Fragment l"
  by (auto simp: line_spec_def Let_def split: if_splits)

lemma s_read_of_core:
  assumes "read_line n fault max_record_bytes s = Line l r"
  shows "s_read_capped m fault [] s = SRaw (l @ [newline]) r"
  using line_spec_mono(1) [of max_record_bytes "s_max_canonical_bytes + 1"] assms
  by (simp add: s_read_whole read_line_eq raw_line_def max_record_bytes_def s_max_canonical_bytes_def)

lemma s_read_fragment_of_core:
  assumes "read_line n fault max_record_bytes s = Fragment l"
  shows "s_read_capped m fault [] s = SRaw l [] \<and> newline \<notin> set l"
  using line_spec_mono(2) [of max_record_bytes "s_max_canonical_bytes + 1"] assms
  by (auto simp: s_read_whole read_line_eq raw_line_def max_record_bytes_def s_max_canonical_bytes_def
      line_spec_def Let_def split: if_splits)

definition similar :: "walk_state \<Rightarrow> s_anchor_check \<Rightarrow> s_result \<Rightarrow> bool" where
  "similar w a res \<longleftrightarrow> head_of w = s_head res \<and> records w = s_records res \<and> damaged w = s_damaged res \<and>
     w_anchor w = s_want a \<and> anchor_seen w = s_seen a \<and> s_status res = StatusValid"

lemma check_anchor_spec:
  assumes "check_anchor w n = (w', True)" "similar w a res"
  shows "\<exists>a'. s_at a (s_head res) = (a', None) \<and> similar w' a' res"
  using assms
  by (auto simp: check_anchor_def s_at_def similar_def invalid_def head_of_def Let_def split: option.splits if_splits)

lemma step_parsed:
  assumes "step C w l n = (w', True)" "classify l \<noteq> Damage"
  shows "check_anchor (w\<lparr> prev_hash := line_hash C l, next_seq := next_seq w + 1, records := records w + 1 \<rparr>) n = (w', True)"
  using assms
  by (auto simp: step_def parse_canonical_def invalid_def split: parsed.splits if_splits sum.splits)

definition plain_log :: "bytes \<Rightarrow> bool" where
  "plain_log s \<longleftrightarrow> (\<forall>l \<in> set (record_lines s). case classify l of Parsed rec obj \<Rightarrow> plain_members obj | _ \<Rightarrow> True)"

lemma walk_lines_spec:
  "walk_lines C fault w n s = Some w' \<Longrightarrow> \<not> failed w' \<Longrightarrow> similar w a res \<Longrightarrow> w_keyring w = Some kr \<Longrightarrow> kr [] = None \<Longrightarrow>
    plain_log s \<Longrightarrow> 1 \<le> next_seq w \<Longrightarrow> prev_hash w \<noteq> [] \<Longrightarrow>
    \<exists>res'. s_verify_lines C fault kr a res n s = Some res' \<and> s_head res' = head_of w' \<and> s_records res' = records w' \<and>
      s_damaged res' = damaged w' \<and> s_status res' = (if damaged w' \<noteq> [] then StatusValidWithDamage else StatusValid)"
proof (induction C fault w n s arbitrary: a res rule: walk_lines.induct)
  case (1 C fault w n s)
  note eq = "1.prems"(1) [unfolded walk_lines.simps [of C fault w n s]]
  note sv = s_verify_lines.simps [of C fault kr a res n s]
  show ?case
  proof (cases "read_line read_chunk_bytes fault max_record_bytes s")
    case OverCap
    with eq "1.prems"(2) show ?thesis by (auto simp: invalid_def)
  next
    case (Line l rest)
    from read_line_LineD [OF Line] have s: "s = l @ newline # rest" "newline \<notin> set l" by auto
    note rd = s_read_of_core [OF Line, of s_buffer]
    obtain w1 go where st: "step C w l n = (w1, go)" by (cases "step C w l n")
    show ?thesis
    proof (cases go)
      case False
      with eq Line st step_fails "1.prems"(2) show ?thesis by auto
    next
      case True
      with st have st': "step C w l n = (w1, True)" by simp
      from True eq Line st have wl: "walk_lines C fault w1 (n + 1) rest = Some w'" by simp
      note k = step_goes [OF st']
      have pr: "plain_log rest" using "1.prems"(6) s by (auto simp: plain_log_def record_lines_line split: if_splits)
      note IH = "1.IH" [OF Line st [symmetric] True wl "1.prems"(2)]
      show ?thesis
      proof (cases "classify l = Damage")
        case True
        with k have w1: "w1 = damage w n" by simp
        let ?res = "res\<lparr> s_damaged := s_damaged res @ [n] \<rparr>"
        have "similar w1 a ?res" using "1.prems"(3) w1 by (simp add: similar_def damage_def head_of_def)
        from IH [OF this] "1.prems"(4-8) pr w1 rd classify_damage_spec [OF True] show ?thesis
          by (simp add: sv damage_def)
      next
        case False
        with k obtain rec obj where acc: "accepts C (Some kr) (head_of w) l" and cl: "classify l = Parsed rec obj"
          using "1.prems"(4) by (auto simp: accepts_def split: parsed.splits)
        have pl: "plain_members obj"
          using "1.prems"(6) s False cl by (auto simp: plain_log_def record_lines_line)
        have sp: "s_parse_record l = Some obj \<and>
            s_verify_record C obj l kr (hd_hash (head_of w)) (hd_seq (head_of w) + 1) = None"
          by (rule core_accepts_spec [OF acc cl pl "1.prems"(5)]) (use "1.prems"(7,8) in simp_all)
        let ?u = "w\<lparr> prev_hash := line_hash C l, next_seq := next_seq w + 1, records := records w + 1 \<rparr>"
        let ?res = "res\<lparr> s_head := \<lparr> hd_seq = hd_seq (s_head res) + 1, hd_hash = line_hash C l \<rparr>,
                      s_records := s_records res + 1 \<rparr>"
        have hw: "s_head res = head_of w" using "1.prems"(3) by (simp add: similar_def)
        have "similar ?u a ?res" using "1.prems"(3) by (simp add: similar_def hw)
        from check_anchor_spec [OF step_parsed [OF st' False] this] obtain a' where
          a': "s_at a (s_head ?res) = (a', None)" "similar w1 a' ?res" by blast
        have k1: "w_keyring w1 = Some kr" "1 \<le> next_seq w1" "prev_hash w1 \<noteq> []"
          using check_anchor_keeps [OF step_parsed [OF st' False]] "1.prems"(4,7)
          by (auto simp: head_of_def line_hash_def hash_prefix_def)
        from IH [OF a'(2) k1(1) "1.prems"(5) pr k1(2,3)] sp rd a'(1) show ?thesis
          by (simp add: sv hw Let_def)
      qed
    qed
  next
    case (Fragment l)
    note rd = s_read_fragment_of_core [OF Fragment, of s_buffer]
    have "l \<noteq> [] \<Longrightarrow> last l \<noteq> newline" using rd last_in_set by fastforce
    with eq Fragment rd "1.prems"(2,3) show ?thesis
      by (auto simp: sv check_truncated_def invalid_def damage_def similar_def s_finish_def s_missed_def head_of_def
          split: if_splits option.splits)
  next
    case ReadError
    with eq show ?thesis by simp
  qed
qed

lemma verifiers_same:
  assumes "verify C fault s (Some kr) anchor = Some r" "verified r" "plain_log s" "kr [] = None"
  shows "\<exists>sr. s_verify_anchored C fault s kr anchor = Some sr \<and> s_status sr = res_status r \<and>
    s_head sr = res_head r \<and> s_records sr = res_records r \<and> s_damaged sr = res_damaged r"
proof -
  from assms(1,2) obtain w where w: "walk C fault s (Some kr) anchor = Some w" "\<not> failed w" and
    r: "res_head r = head_of w" "res_records r = records w" "res_damaged r = damaged w"
    "res_status r = (if damaged w \<noteq> [] then StatusValidWithDamage else StatusValid)"
    by (auto simp: verify_def verified_def split: option.splits if_splits)
  obtain w0 go where c: "check_anchor (initial_walk (Some kr) anchor) 0 = (w0, go)"
    by (cases "check_anchor (initial_walk (Some kr) anchor) 0")
  with w check_anchor_keeps [OF c] have go: "go" and wl: "walk_lines C fault w0 1 s = Some w"
    by (auto simp: walk_def split: if_splits)
  have "similar (initial_walk (Some kr) anchor) \<lparr> s_want = anchor, s_seen = False \<rparr> s_initial"
    by (simp add: similar_def initial_walk_def s_initial_def head_of_def)
  from check_anchor_spec [OF _ this, of 0 w0] c go obtain a where
    a: "s_at \<lparr> s_want = anchor, s_seen = False \<rparr> (s_head s_initial) = (a, None)" "similar w0 a s_initial" by auto
  have k: "w_keyring w0 = Some kr" "1 \<le> next_seq w0" "prev_hash w0 \<noteq> []"
    using check_anchor_keeps [OF c] by (auto simp: initial_walk_def head_of_def genesis_prev_hash_def hash_prefix_def)
  from walk_lines_spec [OF wl w(2) a(2) k(1) assms(4,3) k(2,3)] r a(1) show ?thesis
    by (auto simp: s_verify_anchored_def)
qed

text \<open>
  C8: the two verifiers agree on every log the core accepts. If \<^verbatim>\<open>probavi evidence verify\<close> does not
  say INVALID, the independent verifier gives the same verdict, head, record count and damaged
  lines, with or without an anchor, provided no member name of a record is confused with a field
  by case folding and the keyring has no empty key id.
\<close>
theorem verifiers_agree:
  assumes "verify C fault s (Some kr) anchor = Some r" "verified r" "plain_log s" "kr [] = None"
  shows "\<exists>sr. s_verify_anchored C fault s kr anchor = Some sr \<and> s_status sr = res_status r \<and>
    s_head sr = res_head r \<and> s_records sr = res_records r \<and> s_damaged sr = res_damaged r"
  using assms by (rule verifiers_same)


text \<open>Every log the store writes has exact member names.\<close>

lemma plain_stored: "plain_members (normed (record_members r @ sig_members r))"
proof -
  let ?ms = "normed (record_members r @ sig_members r)"
  have sg: "map_of ?ms ''sig'' = map_option (\<lambda>s. norm (sig_json s)) (rec_sig r)"
    by (simp only: map_of_normed [OF record_keys_distinct] record_members_lookup option.map_comp comp_def)
  have "\<forall>k \<in> fst ` set ?ms. plain_key record_names k"
    using record_keys_names [of r] by (auto simp: set_normed plain_key_def)
  moreover have "norm (sig_json s) = JObj (isort (by_key less_utf16)
      [(''alg'', JStr (sig_alg s)), (''key_id'', JStr (sig_key_id s)), (''sig_b64'', JStr (sig_b64 s))])" for s
    by (simp add: sig_json_def)
  moreover have "k \<in> fst ` set (isort (by_key less_utf16) [(''alg'', a), (''key_id'', b), (''sig_b64'', c)]) \<Longrightarrow>
      plain_key sig_names k" for k and a b c :: json
    by (auto simp: sig_names_def plain_key_def simp del: isort.simps)
  ultimately show ?thesis
    unfolding plain_members_def sg by (cases "rec_sig r") (simp_all del: isort.simps)
qed

lemma plain_log_append:
  assumes "append_record C Written st rec = (st', rec', Inr ())" "crypto_ok C" "store_ok C kr st"
    "appendable rec" "signer_in C (st_signer st) kr" "plain_log (st_file st)"
  shows "plain_log (st_file st')"
proof -
  from append_written [OF assms(1-5)] obtain line where l: "accepts C kr (store_head st) line" "newline \<notin> set line"
    "stored_line line" and st': "st_file st' = st_file st @ line @ [newline]" by auto
  from record_lines_snoc [of "st_file st" line] accepts_parsed [OF l(1)] l(2) assms(3)
  have "record_lines (st_file st') = record_lines (st_file st) @ [line]" by (simp add: st' store_ok_def)
  with assms(6) l(3) plain_stored show ?thesis by (auto simp: plain_log_def stored_line_def)
qed

text \<open>
  The independent verifier confirms what the store writes: after a successful append it gives
  the log a verdict other than INVALID, with the store's own head and one record more.
\<close>
theorem stored_log_confirmed:
  assumes "append_record C Written st rec = (st', rec', Inr ())" "crypto_ok C" "store_ok C (Some kr) st"
    "appendable rec" "signer_in C (st_signer st) (Some kr)" "plain_log (st_file st)" "kr [] = None"
    "length (st_file st') \<noteq> length (st_file st) + max_record_bytes + 1"
  shows "\<exists>sr. s_verify C False (st_file st') kr = Some sr \<and> s_status sr \<noteq> StatusInvalid \<and>
    s_head sr = store_head st' \<and> s_records sr = length (record_lines (st_file st)) + 1"
proof -
  from append_written [OF assms(1-5)] obtain line where l: "accepts C (Some kr) (store_head st) line" "newline \<notin> set line"
    "length line \<le> max_record_bytes" and st': "st' = st\<lparr> st_file := st_file st @ line @ [newline],
           st_prev_hash := line_hash C line, st_next_seq := st_next_seq st + 1 \<rparr>" by auto
  from l(3) assms(8) st' have "length line < max_record_bytes" by auto
  from store_verifies [OF store_ok_extend [OF assms(3) l(1,2) this]] st' obtain r where
    r: "verify C False (st_file st') (Some kr) None = Some r" "verified r" "res_head r = store_head st'"
    "res_records r = length (record_lines (st_file st'))" by auto
  from record_lines_snoc [of "st_file st" line] accepts_parsed [OF l(1)] l(2) assms(3) st'
  have "length (record_lines (st_file st')) = length (record_lines (st_file st)) + 1" by (simp add: store_ok_def)
  with verifiers_same [OF r(1,2) plain_log_append [OF assms(1-6)] assms(7)] r show ?thesis
    by (auto simp: s_verify_def verified_def)
qed

text \<open>
  where they part: a first record whose line has exactly the maximum size is VALID for the
  independent verifier and INVALID for the core, which counts the newline.
\<close>
theorem verifiers_differ_at_cap:
  assumes "accepts C (Some kr) genesis l" "classify l = Parsed rec obj" "plain_members obj" "kr [] = None"
    and "length l = max_record_bytes" "newline \<notin> set l"
  shows "(\<exists>sr. s_verify C False (l @ [newline]) kr = Some sr \<and> s_status sr = StatusValid \<and> s_records sr = 1) \<and>
    (\<exists>r. verify C False (l @ [newline]) (Some kr) None = Some r \<and> res_status r = StatusInvalid)"
proof
  have rd: "s_read_capped s_buffer False [] (l @ [newline]) = SRaw (l @ [newline]) []"
    using assms(5,6) takeWhile_line [of l "[]"]
    by (simp add: s_read_whole read_line_eq line_spec_def raw_line_def max_record_bytes_def s_max_canonical_bytes_def)
  have rd0: "s_read_capped s_buffer False [] [] = SRaw [] []"
    by (simp add: s_read_whole raw_line_def)
  have g: "0 \<le> hd_seq genesis" "hd_hash genesis \<noteq> []"
    by (simp_all add: genesis_def genesis_prev_hash_def hash_prefix_def)
  from core_accepts_spec [OF assms(1-4) g] have sp: "s_parse_record l = Some obj"
    "s_verify_record C obj l kr genesis_prev_hash 1 = None" by (simp_all add: genesis_def)
  show "\<exists>sr. s_verify C False (l @ [newline]) kr = Some sr \<and> s_status sr = StatusValid \<and> s_records sr = 1"
    using rd rd0 sp
    by (simp add: s_verify_def s_verify_anchored_def s_at_def s_verify_lines.simps [of _ _ _ _ _ _ "l @ [newline]"]
        s_verify_lines.simps [of _ _ _ _ _ _ "[]"] s_initial_def s_finish_def s_missed_def Let_def)
  have "read_line read_chunk_bytes False max_record_bytes (l @ [newline]) = OverCap"
    using assms(5,6) takeWhile_line [of l "[]"] by (simp add: read_line_eq line_spec_def)
  then show "\<exists>r. verify C False (l @ [newline]) (Some kr) None = Some r \<and> res_status r = StatusInvalid"
    by (simp add: verify_def walk_unanchored walk_lines.simps [of _ _ _ _ "l @ [newline]"] invalid_def)
qed

text \<open>
  The two programs read anchors identically: the same texts are accepted, as the same heads,
  and the same error is given for every other text.
\<close>
theorem anchor_parsers_agree: "s_parse_anchor s = parse_anchor s"
proof -
  have seq: "s_parse_seq t = parse_anchor_seq t" for t
    by (auto simp: s_parse_seq_def parse_anchor_seq_def list_all_iff)
  have hash: "s_check_hash_reference h = check_anchor_hash h" for h
  proof -
    have l: "length hash_prefix = 7" by (simp add: hash_prefix_def)
    show ?thesis
      unfolding s_check_hash_reference_def check_anchor_hash_def hash_prefix_def [symmetric] l
      by (auto simp: list_all_iff)
  qed
  show ?thesis
    by (auto simp: s_parse_anchor_def parse_anchor_def seq hash andthen_def split: prod.splits sum.splits)
qed

end
