(* ===== verification/Sample.thy ===== *)
theory Sample
  imports SpecAgree
begin

text \<open>
  A concrete log the properties are applied to: toy primitives that satisfy \<open>crypto_ok\<close>, a signer,
  an empty store and a record whose drill name has \<open>n + 1\<close> letters, so that its line can be given
  any length, the maximum included. \<open>json_size\<close> is the exact length of a canonical text.
\<close>

subsection \<open>The length of a canonical text\<close>

definition str_size :: "bytes \<Rightarrow> nat" where
  "str_size s = length (quote_runes s) + 2"

primrec json_size :: "json \<Rightarrow> nat" where
  "json_size JNull = 4"
| "json_size (JBool b) = (if b then 4 else 5)"
| "json_size (JNum n) = length n"
| "json_size (JStr s) = str_size s"
| "json_size (JArr vs) = 2 + sum_list (map json_size vs) + (length vs - 1)"
| "json_size (JObj ms) =
     2 + sum_list (map (\<lambda>p. str_size (fst p) + 1 + snd p) (map (map_prod (\<lambda>k. k) json_size) ms)) + (length ms - 1)"

lemma length_commas: "length (commas xs) = sum_list (map length xs) + (length xs - 1)"
  by (induction xs rule: commas.induct) auto

lemma length_render: "length (render quote_runes v) = json_size v"
proof (induction v rule: json_induct)
  case (Arr vs)
  then show ?case by (simp add: length_commas comp_def cong: map_cong)
next
  case (Obj ms)
  then have "map (\<lambda>p. length (member_text quote_runes (map_prod (\<lambda>k. k) (render quote_runes) p))) ms =
      map (\<lambda>p. str_size (fst p) + 1 + json_size (snd p)) ms"
    by (auto simp: member_text_def str_size_def)
  from arg_cong [OF this, of sum_list] show ?case by (simp add: length_commas comp_def del: map_eq_conv)
qed (auto simp: str_size_def)

lemma sum_list_isort: "sum_list (map f (isort lt xs)) = (sum_list (map f xs) :: nat)"
  by (metis mset_isort mset_map sum_mset_sum_list)

lemma json_size_norm: "json_size (norm v) = json_size v"
proof (induction v rule: json_induct)
  case (Arr vs)
  then show ?case by (simp add: comp_def cong: map_cong)
next
  case (Obj ms)
  then have "map (\<lambda>p. str_size (fst p) + 1 + json_size (norm (snd p))) ms =
      map (\<lambda>p. str_size (fst p) + 1 + json_size (snd p)) ms"
    by auto
  from arg_cong [OF this, of sum_list] show ?case by (simp add: comp_def sum_list_isort del: map_eq_conv)
qed auto

lemma canonical_length: "append_canonical v = Inr t \<Longrightarrow> length t = json_size v"
  by (simp add: append_canonical_iff length_render json_size_norm)

definition plain_char :: "char \<Rightarrow> bool" where
  "plain_char c = (0x20 \<le> code c \<and> code c < 0x80 \<and> code c \<noteq> 0x22 \<and> code c \<noteq> 0x5C)"

lemma escape_plain: "plain_char c \<Longrightarrow> escape_rune (code c) = [c]"
  by (simp add: escape_rune_def plain_char_def encode_rune_ascii)

lemma quote_plain: "list_all plain_char s \<Longrightarrow> quote_runes s = s"
proof (induction s)
  case (Cons c s)
  from Cons.prems have "\<forall>d \<in> set (c # s). code d < 0x80" "\<forall>d \<in> set s. code d < 0x80"
    by (auto simp: plain_char_def list_all_iff)
  from this [THEN runes_ascii] Cons escape_plain [of c] show ?case by (simp add: quote_runes_def)
qed (simp add: quote_runes_def)

lemma str_size_plain: "list_all plain_char s \<Longrightarrow> str_size s = length s + 2"
  by (simp add: str_size_def quote_plain)

lemma plain_valid: "list_all plain_char s \<Longrightarrow> valid_string s"
  by (rule ascii_valid) (auto simp: list_all_iff plain_char_def)

lemma b64_plain: "list_all plain_char (b64_encode s)"
proof -
  have "n < 64 \<Longrightarrow> plain_char (b64_char n)" for n
    by (auto simp: b64_char_def plain_char_def conv_char_of)
  moreover have "plain_char (CHR ''='')" by (simp add: plain_char_def)
  ultimately show ?thesis
    by (induction s rule: b64_encode.induct) (auto simp: b64_bits)
qed

lemma length_b64: "length (b64_encode s) = 4 * ((length s + 2) div 3)"
proof (induction s rule: b64_encode.induct)
  case (4 a b c s)
  have "(length (a # b # c # s) + 2) div 3 = (length s + 2) div 3 + 1" by simp
  with 4 show ?case by simp
qed auto

lemma hex_plain: "list_all plain_char (hex_encode s)"
proof -
  have "is_lower_hex c \<Longrightarrow> plain_char c" for c
    by (auto simp: is_lower_hex_def is_digit_def plain_char_def)
  then show ?thesis using hex_encode_lower [of s] by (auto simp: list_all_iff)
qed

subsection \<open>The sample\<close>

definition sample_crypto :: crypto where
  "sample_crypto = \<lparr> sha256 = (\<lambda>m. take 32 (m @ replicate 32 (CHR 0x00))), ed_public = (\<lambda>s. s),
     ed_sign = (\<lambda>s m. take 64 (s @ m @ replicate 64 (CHR 0x00))),
     ed_verify = (\<lambda>p m g. g = take 64 (p @ m @ replicate 64 (CHR 0x00))) \<rparr>"

lemma sample_crypto_ok: "crypto_ok sample_crypto"
  by (auto simp: crypto_ok_def sample_crypto_def)

definition sample_signer :: signer where
  "sample_signer = new_signer sample_crypto (replicate 32 (CHR ''k''))"

definition sample_keys :: keyring where
  "sample_keys = [key_id sample_signer \<mapsto> replicate 32 (CHR ''k'')]"

definition sample_store :: store where
  "sample_store = \<lparr> st_file = [], st_signer = sample_signer, st_next_seq = 1, st_prev_hash = genesis_prev_hash,
     st_broken = False \<rparr>"

definition sample_record :: "nat \<Rightarrow> evidence_record" where
  "sample_record n =
    \<lparr> rec_schema = schema_id, rec_seq = 0, rec_prev_hash = [], rec_ts = ''2026-01-02T03:04:05.000Z'',
      rec_drill = \<lparr> drill_name = replicate (Suc n) (CHR ''d''), config_hash = genesis_prev_hash, pitr_target = None \<rparr>,
      rec_backup = \<lparr> backup_kind = ''pg'', backup_checksum = None, size_bytes = None, created_at = None,
        manifest_hash = None, manifest_match = None, newest_data_at = None \<rparr>,
      rec_adapter = \<lparr> adapter_name = ''pg'', adapter_version = None, adapter_protocol = ''v1'', adapter_digest = None \<rparr>,
      rec_sandbox = \<lparr> sandbox_provider = ''docker'', sandbox_params = Some [], image_digest = None,
        sandbox_resources = \<lparr> memory_bytes = None, cpus_milli = None \<rparr> \<rparr>,
      rec_timings = \<lparr> t_provision = None, t_engine_ready = None, t_transfer = None, t_restore = None,
        t_validate = None, t_total = None \<rparr>,
      rec_checks = Some [], rec_outcome = outcome_pass, rec_error = None,
      rec_env = \<lparr> probavi_version = ''1'', env_os = ''linux'', env_arch = ''amd64'', host_id = ''0011223344556677'',
        probavi_digest = None, clock_synchronised = None \<rparr>,
      rec_sig = None \<rparr>"

definition sample_first :: "nat \<Rightarrow> evidence_record" where
  "sample_first n = (sample_record n)\<lparr> rec_seq := 1, rec_prev_hash := genesis_prev_hash \<rparr>"

lemma valid_d: "valid_string (replicate n (CHR ''d''))"
  by (rule ascii_valid) auto

lemma valid_d_Cons: "valid_string (CHR ''d'' # replicate n (CHR ''d''))"
  using valid_d [of "Suc n"] by simp

lemma plain_d: "list_all plain_char (CHR ''d'' # replicate n (CHR ''d''))"
  by (auto simp: list_all_iff plain_char_def)

lemma sample_ts: "valid_ts ''2026-01-02T03:04:05.000Z''"
  by code_simp

lemma sample_valid: "validate (sample_first n) = Inr ()"
proof -
  have "validate_utf8 (sample_first n) = Inr ()"
    by (simp add: validate_utf8_def utf8_fields_def sample_first_def sample_record_def valid_d_Cons ascii_valid)
  moreover have "validate_identity (sample_first n) = Inr ()"
    by (simp add: validate_identity_def validate_ts_def sample_first_def sample_record_def genesis_ref sample_ts)
  moreover have "validate_outcome (sample_first n) = Inr ()"
    by (simp add: validate_outcome_def sample_first_def sample_record_def)
  moreover have "validate_checks (sample_first n) = Inr ()"
    by (simp add: validate_checks_def sample_first_def sample_record_def steps.simps)
  moreover have "validate_nested (sample_first n) = Inr ()"
    by (simp add: validate_nested_def sample_first_def sample_record_def validate_env_def validate_timings_def
        non_negative_def host_id_ok_def is_lower_hex_def is_digit_def)
  ultimately show ?thesis by (simp add: validate_def)
qed

lemma sample_plain:
  "params_distinct (sample_first n)" "\<forall>s \<in> set (unchecked_strings (sample_first n)). valid_string s"
  "ints_safe (sample_first n)"
  by (simp_all add: params_distinct_def unchecked_strings_def ints_safe_def ints_of_def sample_first_def sample_record_def
      max_safe_integer_def ascii_valid plain_valid genesis_prev_hash_def hash_prefix_def)


lemma sample_key: "length (key_id sample_signer) = 16 \<and> list_all plain_char (key_id sample_signer)"
  using hex_plain [of "sha256 sample_crypto (ed_public sample_crypto (replicate 32 (CHR ''k'')))"]
  by (auto simp: sample_signer_def new_signer_def public_key_id_def list_all_iff crypto_okD [OF sample_crypto_ok]
      dest: in_set_takeD)

lemma sample_sizes:
  "str_size schema_id = 20" "length (show_int 1) = 1" "str_size genesis_prev_hash = 73"
  "str_size (CHR ''d'' # replicate n (CHR ''d'')) = n + 3" "str_size outcome_pass = 6"
  "str_size (key_id sample_signer) = 18"
  using sample_key plain_d [of n]
  by (simp_all add: str_size_plain schema_id_def show_int_def show_nat.simps genesis_prev_hash_def hash_prefix_def
      outcome_pass_def plain_char_def b64_plain length_b64 list_all_iff)

lemma sig_b64_size: "length b = 64 \<Longrightarrow> str_size (b64_encode b) = 90"
  by (simp add: str_size_plain b64_plain length_b64)

lemma sample_size:
  "length b = 64 \<Longrightarrow> json_size (record_json ((sample_first n)\<lparr> rec_sig := Some \<lparr> sig_alg = ''ed25519'',
     sig_key_id = key_id sample_signer, sig_b64 = b64_encode b \<rparr> \<rparr>)) = 1052 + n"
  by (simp add: record_json_def record_members_def sample_first_def sample_record_def part_json_defs sandbox_json_def
      params_json_def json_opt_def str_size_plain sample_sizes sig_b64_size plain_char_def)

lemma sample_sealed:
  assumes "1052 + n \<le> max_record_bytes"
  obtains rec' line where "sealed sample_crypto sample_store (sample_first n) = Inr (rec', line)" "length line = 1052 + n"
proof -
  let ?r = "sample_first n"
  obtain m where m: "canonicalize_record ?r = Inr m"
    using canonicalize_record_eq [OF sample_valid sample_plain(2,1)]
      append_canonical_norm [OF record_canonical_ok [OF sample_valid sample_plain(3,2)]] by metis
  let ?b = "ed_sign sample_crypto (seed sample_signer) m"
  let ?s = "?r\<lparr> rec_sig := Some \<lparr> sig_alg = ''ed25519'', sig_key_id = key_id sample_signer, sig_b64 = b64_encode ?b \<rparr> \<rparr>"
  have v: "validate ?s = Inr ()" by (simp add: validate_sig sample_valid)
  have p: "params_distinct ?s" "\<forall>s \<in> set (unchecked_strings ?s). valid_string s" "ints_safe ?s"
    using sample_plain [of n] sample_key b64_plain [of ?b] plain_valid [of "''ed25519''"]
    by (auto simp: params_distinct_def unchecked_strings_def ints_safe_def ints_of_def plain_valid plain_char_def)
  obtain line where l: "canonicalize_record ?s = Inr line" "append_canonical (record_json ?s) = Inr line"
    using canonicalize_record_eq [OF v p(2,1)] append_canonical_norm [OF record_canonical_ok [OF v p(3,2)]] by metis
  then have "length line = 1052 + n"
    using canonical_length [OF l(2)] by (simp add: sample_size crypto_okD [OF sample_crypto_ok])
  with that [of ?s line] assms m l(1) sample_valid [of n] show ?thesis
    by (simp add: sealed_def sample_store_def)
qed


lemma sample_append:
  assumes "1052 + n \<le> max_record_bytes"
  obtains line rec' where "length line = 1052 + n"
    "append_record sample_crypto Written sample_store (sample_record n) =
      (sample_store\<lparr> st_file := line @ [newline], st_prev_hash := line_hash sample_crypto line, st_next_seq := 2 \<rparr>, rec', Inr ())"
    "\<And>k. append_record sample_crypto (WriteError k) sample_store (sample_record n) =
      (sample_store\<lparr> st_file := take k (line @ [newline]), st_broken := True \<rparr>, rec', Inl WriteFailed)"
proof -
  obtain rec' line where l: "sealed sample_crypto sample_store (sample_first n) = Inr (rec', line)" "length line = 1052 + n"
    using sample_sealed [OF assms] by blast
  have "st_prev_hash sample_store = genesis_prev_hash" "st_next_seq sample_store = 1" "st_file sample_store = []"
    "st_broken sample_store = False" by (simp_all add: sample_store_def)
  moreover have "rec_sig (sample_record n) = None" "rec_seq (sample_record n) = 0" "rec_prev_hash (sample_record n) = []"
    by (simp_all add: sample_record_def)
  ultimately show ?thesis
    using that [of line rec'] l by (simp add: append_record_def Let_def sample_first_def write_line_def)
qed

lemma sample_store_ok: "store_ok sample_crypto kr sample_store"
  by (simp add: store_ok_def sample_store_def torn_tail_def capped_def record_lines_def store_head_def genesis_def)

lemma sample_appendable: "appendable (sample_record n)"
  by (simp add: appendable_def params_distinct_def v3_strings_ok_def sample_record_def)

lemma sample_signer_in: "signer_in sample_crypto (st_signer sample_store) (Some sample_keys)"
    "signer_in sample_crypto (st_signer sample_store) None"
  by (simp_all add: signer_in_def signer_ok_def sample_store_def sample_signer_def sample_keys_def new_signer_def sample_crypto_def)

end
