(* ===== verification/Witnesses.thy ===== *)
theory Witnesses
  imports Sample
begin

text \<open>
  Each property of the evidence log applied at a concrete input: the sample signer, store and
  record of \<open>Sample\<close>, with the primitives of \<open>sample_crypto\<close>.
\<close>

subsection \<open>Canonical form and anchors\<close>

definition pair_json :: "bool \<Rightarrow> json" where
  "pair_json swapped = JObj (if swapped then [(''b'', JNum ''1''), (''a'', JNull)] else [(''a'', JNull), (''b'', JNum ''1'')])"

lemma pair_json_ok: "canonical_ok (pair_json b)" "unique_keys (pair_json b)" "jdepth (pair_json b) \<le> max_depth"
proof -
  have "show_int 1 = ''1''" by (simp add: show_int_def show_nat.simps digit_char_def char_of_conv)
  then have "safe_int ''1''" using safe_int_show [of 1] by (simp add: max_safe_integer_def)
  then show "canonical_ok (pair_json b)" by (simp add: pair_json_def ascii_valid)
qed (simp_all add: pair_json_def max_depth_def)

lemma pair_json_norm: "norm (pair_json True) = norm (pair_json False)"
proof -
  have "less_utf16 ''a'' ''b''" "\<not> less_utf16 ''b'' ''a''" by (simp_all add: less_utf16_ascii)
  then show ?thesis by (simp add: pair_json_def)
qed

theorem canonical_roundtrip_witness:
  "\<exists>t. append_canonical (pair_json True) = Inr t \<and> decode_strict t = Inr (norm (pair_json True))"
proof -
  obtain t where t: "append_canonical (pair_json True) = Inr t"
    using append_canonical_norm [OF pair_json_ok(1)] by blast
  from canonical_roundtrip [OF t pair_json_ok(2,3)] t show ?thesis by blast
qed

theorem canonical_injective_witness: "norm (pair_json True) = norm (pair_json False)"
proof -
  obtain t where t: "append_canonical (pair_json True) = Inr t" "append_canonical (pair_json False) = Inr t"
    using append_canonical_norm [OF pair_json_ok(1)] pair_json_norm by metis
  from canonical_injective [OF t pair_json_ok(2,2,3,3)] show ?thesis .
qed

theorem canonical_order_free_witness:
  "\<exists>t. append_canonical (pair_json True) = Inr t \<and> append_canonical (pair_json False) = Inr t"
  using canonical_order_free [OF pair_json_norm] append_canonical_norm [OF pair_json_ok(1)] by metis

theorem anchor_roundtrip_witness: "parse_anchor (head_string genesis) = Inr genesis"
  by (rule anchor_roundtrip) (simp add: head_ok_def genesis_def genesis_ref)

theorem anchor_unique_spelling_witness:
  "\<exists>h. parse_anchor (head_string genesis) = Inr h \<and> head_ok h \<and> head_string h = head_string genesis"
proof -
  have p: "parse_anchor (head_string genesis) = Inr genesis"
    by (rule anchor_rt) (simp add: head_ok_def genesis_def genesis_ref)
  from anchor_unique_spelling [OF p] p show ?thesis by blast
qed

theorem canonicalize_record_faithful_witness:
  "\<exists>t. canonicalize_record (sample_first 0) = Inr t \<and> decode_strict t = Inr (norm (record_json (sample_first 0)))"
  by (rule canonicalize_record_faithful) (rule sample_valid sample_plain)+

subsection \<open>Opening and appending\<close>

definition sample_os :: open_answer where
  "sample_os = \<lparr> o_lock = LockTaken, o_file_opens = True, o_dir = \<lparr> dir_opens = True, dir_sync = None, dir_closes = True \<rparr>,
     o_stat = True, o_tail_read = True, o_tail_write = True, o_seek = True, o_read_fault = False \<rparr>"

lemma sample_os_fine: "open_fine sample_os"
  by (simp add: open_fine_def sample_os_def durability_unknown_def)

lemma sample_size_ok: "1052 + 0 \<le> max_record_bytes" "1052 + 64484 = max_record_bytes"
  by (simp_all add: max_record_bytes_def)

theorem open_establishes_witness:
  "\<exists>file' st. open_store sample_crypto sample_os [] (Some sample_signer) = (file', Inr st) \<and> store_ok sample_crypto None st \<and>
    st_signer st = sample_signer \<and> \<not> st_broken st \<and> st_file st = file'"
proof -
  have f: "st_file sample_store = (if torn_tail [] = [] then [] else [] @ [newline])"
    by (simp add: sample_store_def torn_tail_def)
  from open_reads [OF sample_store_ok sample_os_fine f, of sample_signer] obtain file' st where
    o: "open_store sample_crypto sample_os [] (Some sample_signer) = (file', Inr st)" by blast
  from open_establishes [OF o] o show ?thesis by blast
qed

theorem append_preserves_witness:
  "\<exists>st' rec'. append_record sample_crypto Written sample_store (sample_record 0) = (st', rec', Inr ()) \<and>
    store_ok sample_crypto (Some sample_keys) st' \<and> st_next_seq st' = 2"
proof -
  obtain line rec' where l: "length line = 1052 + 0"
    "append_record sample_crypto Written sample_store (sample_record 0) =
      (sample_store\<lparr> st_file := line @ [newline], st_prev_hash := line_hash sample_crypto line, st_next_seq := 2 \<rparr>, rec', Inr ())"
    using sample_append [OF sample_size_ok(1)] by blast
  from append_preserves [OF l(2) sample_crypto_ok sample_store_ok sample_appendable sample_signer_in(1)] l
  show ?thesis by (simp add: max_record_bytes_def sample_store_def)
qed

theorem appended_log_verifies_witness:
  "\<exists>st' rec' r. append_record sample_crypto Written sample_store (sample_record 0) = (st', rec', Inr ()) \<and>
    verify sample_crypto False (st_file st') (Some sample_keys) None = Some r \<and> verified r \<and>
    res_head r = store_head st' \<and> res_records r = 1"
proof -
  obtain line rec' where l: "length line = 1052 + 0"
    "append_record sample_crypto Written sample_store (sample_record 0) =
      (sample_store\<lparr> st_file := line @ [newline], st_prev_hash := line_hash sample_crypto line, st_next_seq := 2 \<rparr>, rec', Inr ())"
    using sample_append [OF sample_size_ok(1)] by blast
  from appended_log_verifies [OF l(2) sample_crypto_ok sample_store_ok sample_appendable sample_signer_in(1)] l
  show ?thesis by (fastforce simp: max_record_bytes_def sample_store_def record_lines_def)
qed

theorem stored_log_confirmed_witness:
  "\<exists>st' rec' sr. append_record sample_crypto Written sample_store (sample_record 0) = (st', rec', Inr ()) \<and>
    s_verify sample_crypto False (st_file st') sample_keys = Some sr \<and> s_status sr \<noteq> StatusInvalid \<and>
    s_head sr = store_head st' \<and> s_records sr = 1"
proof -
  obtain line rec' where l: "length line = 1052 + 0"
    "append_record sample_crypto Written sample_store (sample_record 0) =
      (sample_store\<lparr> st_file := line @ [newline], st_prev_hash := line_hash sample_crypto line, st_next_seq := 2 \<rparr>, rec', Inr ())"
    using sample_append [OF sample_size_ok(1)] by blast
  have p: "plain_log (st_file sample_store)" "sample_keys [] = None"
    using sample_key by (auto simp: plain_log_def sample_store_def record_lines_def sample_keys_def)
  from stored_log_confirmed [OF l(2) sample_crypto_ok sample_store_ok sample_appendable sample_signer_in(1) p] l
  show ?thesis by (fastforce simp: max_record_bytes_def sample_store_def record_lines_def)
qed

theorem crash_recovery_witness:
  "\<exists>st' rec'. append_record sample_crypto (WriteError 10) sample_store (sample_record 0) = (st', rec', Inl WriteFailed) \<and>
    st_broken st' \<and> (\<exists>file2 st2. open_store sample_crypto sample_os (st_file st') (Some sample_signer) = (file2, Inr st2))"
proof -
  obtain line rec' where l:
    "append_record sample_crypto (WriteError 10) sample_store (sample_record 0) =
      (sample_store\<lparr> st_file := take 10 (line @ [newline]), st_broken := True \<rparr>, rec', Inl WriteFailed)"
    using sample_append [OF sample_size_ok(1)] by blast
  have n: "(length x = max_record_bytes \<and> length x \<le> 10) = False" for x :: bytes by (auto simp: max_record_bytes_def)
  from crash_recovery [OF l sample_crypto_ok sample_store_ok sample_appendable sample_signer_in(2) sample_os_fine,
      of sample_signer, unfolded n if_False]
  have "\<exists>file2 st2. open_store sample_crypto sample_os (take 10 (line @ [newline])) (Some sample_signer) = (file2, Inr st2)"
    by (elim conjE exE) (intro exI, simp)
  with l show ?thesis by fastforce
qed

theorem full_size_append_locks_log_witness:
  "\<exists>st' rec'. append_record sample_crypto Written sample_store (sample_record 64484) = (st', rec', Inr ()) \<and>
    \<not> (\<exists>keys r. verify sample_crypto False (st_file st') keys None = Some r \<and> verified r) \<and>
    \<not> (\<exists>os sg file2 st2. open_store sample_crypto os (st_file st') (Some sg) = (file2, Inr st2))"
proof -
  have "1052 + 64484 \<le> max_record_bytes" using sample_size_ok(2) by simp
  then obtain line rec' where l: "length line = 1052 + 64484"
    "append_record sample_crypto Written sample_store (sample_record 64484) =
      (sample_store\<lparr> st_file := line @ [newline], st_prev_hash := line_hash sample_crypto line, st_next_seq := 2 \<rparr>, rec', Inr ())"
    using sample_append [of 64484] by blast
  from full_size_append_locks_log [OF l(2) sample_crypto_ok sample_store_ok sample_appendable sample_signer_in(1)]
  have "length (line @ [newline]) = length (st_file sample_store) + max_record_bytes + 1 \<Longrightarrow> ?thesis"
    using l(2) by auto
  moreover have "length (line @ [newline]) = length (st_file sample_store) + max_record_bytes + 1"
    using l(1) by (simp add: sample_store_def max_record_bytes_def)
  ultimately show ?thesis by blast
qed


subsection \<open>Verifying\<close>

lemma sample_line:
  assumes "1052 + n \<le> max_record_bytes"
  obtains line where "length line = 1052 + n" "newline \<notin> set line" "accepts sample_crypto (Some sample_keys) genesis line"
    "stored_line line"
proof -
  obtain line rec' where l: "length line = 1052 + n"
    "append_record sample_crypto Written sample_store (sample_record n) =
      (sample_store\<lparr> st_file := line @ [newline], st_prev_hash := line_hash sample_crypto line, st_next_seq := 2 \<rparr>, rec', Inr ())"
    using sample_append [OF assms] by blast
  have "store_head sample_store = genesis" by (simp add: store_head_def genesis_def sample_store_def)
  moreover have "st_file sample_store = []" by (simp add: sample_store_def)
  ultimately obtain line' where "accepts sample_crypto (Some sample_keys) genesis line'" "newline \<notin> set line'" "stored_line line'"
    "st_file (sample_store\<lparr> st_file := line @ [newline], st_prev_hash := line_hash sample_crypto line, st_next_seq := 2 \<rparr>) =
      st_file (sample_store\<lparr> st_file := line' @ [newline], st_prev_hash := line_hash sample_crypto line',
        st_next_seq := st_next_seq sample_store + 1 \<rparr>)"
    using append_written [OF l(2) sample_crypto_ok sample_store_ok sample_appendable sample_signer_in(1)]
    by (simp only: write_answer.case append_Nil prod.inject sum.simps simp_thms) metis
  with l(1) that [of line] show ?thesis by simp
qed

lemma sample_log:
  obtains line r where "newline \<notin> set line" "accepts sample_crypto (Some sample_keys) genesis line"
    "length line < max_record_bytes" "stored_line line" "record_lines (line @ [newline]) = [line]"
    "verify sample_crypto False (line @ [newline]) (Some sample_keys) None = Some r" "verified r"
    "res_head r = \<lparr> hd_seq = 1, hd_hash = line_hash sample_crypto line \<rparr>" "res_records r = 1"
proof -
  obtain line where l: "length line = 1052 + 0" "newline \<notin> set line" "accepts sample_crypto (Some sample_keys) genesis line"
    "stored_line line" using sample_line [OF sample_size_ok(1)] by blast
  have len: "length line < max_record_bytes" using l(1) by (simp add: max_record_bytes_def)
  let ?st = "sample_store\<lparr> st_file := line @ [newline], st_prev_hash := line_hash sample_crypto line, st_next_seq := 2 \<rparr>"
  have "store_head sample_store = genesis" by (simp add: store_head_def genesis_def sample_store_def)
  then have "store_ok sample_crypto (Some sample_keys) ?st"
    using store_ok_extend [OF sample_store_ok _ l(2) len] l(3) by (simp add: sample_store_def)
  from store_verifies [OF this] obtain r where
    r: "verify sample_crypto False (line @ [newline]) (Some sample_keys) None = Some r" "verified r" "res_head r = store_head ?st"
    "res_records r = length (record_lines (line @ [newline]))" by auto
  moreover have "record_lines (line @ [newline]) = [line]"
    using record_lines_line [OF l(2), of "[]"] accepts_parsed [OF l(3)] by (simp add: record_lines_def)
  ultimately show ?thesis using that [of line r] l len by (simp add: store_head_def)
qed

lemma step_anchored:
  "accepts C (w_keyring w) (head_of w) l \<Longrightarrow>
    step C w l n = check_anchor (w\<lparr> prev_hash := line_hash C l, next_seq := next_seq w + 1, records := records w + 1 \<rparr>) n"
  by (auto simp: step_def parse_canonical_def accepts_def split: parsed.splits option.splits)

lemma read_nothing: "read_line n False cap [] = Fragment []"
  by (rule read_line_Fragment) simp_all

lemma verify_empty: "\<exists>r. verify C False [] (Some kr) a = Some r"
  by (auto simp: verify_def walk_def walk_lines.simps [of _ _ _ _ "[]"] read_nothing split: prod.split)

theorem tamper_evident_witness:
  "\<exists>s r. verify sample_crypto False s (Some sample_keys) None = Some r \<and> verified r \<and> res_records r = 1 \<and>
    (record_lines s = record_lines s \<or> collision (sha256 sample_crypto) (record_lines s) (record_lines s))"
proof -
  obtain line r where r: "verify sample_crypto False (line @ [newline]) (Some sample_keys) None = Some r" "verified r"
    "res_records r = 1" using sample_log by metis
  from tamper_evident [OF r(1,2) r(1,2) refl] r show ?thesis by blast
qed

theorem verified_records_signed_witness:
  "\<exists>s r rec obj sg. verify sample_crypto False s (Some sample_keys) None = Some r \<and>
    classify (record_lines s ! 0) = Parsed rec obj \<and> v_seq rec = 1 \<and> v_sig rec = Some sg \<and>
    sample_keys (v_key_id sg) \<noteq> None"
proof -
  obtain line r where r: "verify sample_crypto False (line @ [newline]) (Some sample_keys) None = Some r" "verified r"
    "record_lines (line @ [newline]) = [line]" using sample_log by metis
  have "0 < length (record_lines (line @ [newline]))" using r(3) by simp
  from verified_records_signed [OF r(1,2) this] r(1) show ?thesis by fastforce
qed

theorem anchor_pins_prefix_witness:
  "\<exists>line r r2. verify sample_crypto False (line @ [newline]) (Some sample_keys) None = Some r \<and> verified r \<and>
    verify sample_crypto False (line @ [newline]) (Some sample_keys) (Some (res_head r)) = Some r2 \<and> verified r2 \<and>
    (prefix (record_lines (line @ [newline])) (record_lines (line @ [newline])) \<or>
     collision (sha256 sample_crypto) (record_lines (line @ [newline])) (record_lines (line @ [newline])))"
proof -
  obtain line r where l: "newline \<notin> set line" "accepts sample_crypto (Some sample_keys) genesis line" "length line < max_record_bytes"
    and r: "verify sample_crypto False (line @ [newline]) (Some sample_keys) None = Some r" "verified r"
    "res_head r = \<lparr> hd_seq = 1, hd_hash = line_hash sample_crypto line \<rparr>" using sample_log by metis
  let ?w = "initial_walk (Some sample_keys) (Some (res_head r))"
  have h: "head_of ?w = genesis" "w_keyring ?w = Some sample_keys" by (simp_all add: initial_walk_def head_of_def genesis_def)
  have st: "step sample_crypto ?w line (Suc 0) = (?w\<lparr> prev_hash := line_hash sample_crypto line, next_seq := 2,
      records := 1, anchor_seen := True \<rparr>, True)"
    using step_anchored [of sample_crypto ?w line "Suc 0"] l(2) h
    by (simp add: check_anchor_def initial_walk_def head_of_def r(3))
  have rl: "read_line read_chunk_bytes False max_record_bytes (line @ [newline]) = Line line []"
    using read_line_Line [OF l(1,3), of read_chunk_bytes False "[]"] by simp
  have "check_anchor ?w 0 = (?w, True)" by (simp add: check_anchor_def initial_walk_def head_of_def r(3))
  then obtain r2 where r2: "verify sample_crypto False (line @ [newline]) (Some sample_keys) (Some (res_head r)) = Some r2" "verified r2"
    by (simp add: verify_def walk_def walk_lines.simps [of _ _ _ _ "line @ [newline]"] walk_lines.simps [of _ _ _ _ "[]"]
        rl st read_nothing verified_def check_truncated_def) (simp add: initial_walk_def)
  from anchor_pins_prefix [OF r(1,2) r2] r r2 show ?thesis by blast
qed

theorem truncation_detected_witness:
  "\<exists>line r r2. verify sample_crypto False (line @ [newline]) (Some sample_keys) None = Some r \<and> verified r \<and>
    verify sample_crypto False [] (Some sample_keys) (Some (res_head r)) = Some r2 \<and> res_status r2 = StatusInvalid"
proof -
  obtain line r where r: "verify sample_crypto False (line @ [newline]) (Some sample_keys) None = Some r" "verified r"
    "record_lines (line @ [newline]) = [line]" using sample_log by metis
  obtain r2 where r2: "verify sample_crypto False [] (Some sample_keys) (Some (res_head r)) = Some r2"
    using verify_empty by blast
  have "length (record_lines []) < length (record_lines (line @ [newline]))" using r(3) by (simp add: record_lines_def)
  from truncation_detected [OF r(1,2) r2 this] r r2 show ?thesis by blast
qed

theorem full_size_line_refused_witness:
  "\<exists>r. verify sample_crypto False (replicate max_record_bytes (CHR ''a'') @ newline # []) (Some sample_keys) None = Some r \<and>
    res_status r = StatusInvalid \<and> res_reason r = Some RecordTooLarge"
proof -
  let ?l = "replicate max_record_bytes (CHR ''a'')"
  have l: "length ?l = max_record_bytes" "newline \<notin> set ?l" by auto
  have "read_line read_chunk_bytes False max_record_bytes (?l @ newline # []) = OverCap"
    using l by (simp only: read_line_eq line_spec_def takeWhile_line [OF l(2)]) simp
  then obtain r where r: "verify sample_crypto False (?l @ newline # []) (Some sample_keys) None = Some r"
    by (simp add: verify_def walk_def check_anchor_def initial_walk_def walk_lines.simps [of _ _ _ _ "?l @ newline # []"])
  from full_size_line_refused [OF l r] r show ?thesis by blast
qed

theorem witnessed_only_lowers_witness:
  "\<exists>r r'. verified r \<and> witnessed (\<lambda>args. (Some 1, [], [])) r ''wit'' = Inr r' \<and> res_head r' = res_head r \<and>
    res_status r' = StatusInvalid"
proof -
  obtain line r where r: "verified r" using sample_log by metis
  obtain r' where r': "witnessed (\<lambda>args. (Some 1, [], [])) r ''wit'' = Inr r'" "res_status r' = StatusInvalid"
    using r by (simp add: witnessed_def verified_def ask_witness_def Let_def)
  from witnessed_only_lowers [OF r'(1)] r r' show ?thesis by blast
qed

subsection \<open>The independent verifier\<close>

theorem canonical_forms_agree_witness:
  "\<exists>t. append_canonical (pair_json True) = Inr t \<and> s_canonicalize (pair_json True) = Inr t"
proof -
  have "json_all valid_string num_ok (pair_json True)"
    using json_all_mono [of safe_int num_ok, OF safe_int_num] pair_json_ok(1) by blast
  moreover obtain t where "append_canonical (pair_json True) = Inr t"
    using append_canonical_norm [OF pair_json_ok(1)] by blast
  ultimately show ?thesis using canonical_forms_agree by blast
qed

theorem verifiers_agree_witness:
  "\<exists>s r sr. verify sample_crypto False s (Some sample_keys) None = Some r \<and> res_records r = 1 \<and>
    s_verify_anchored sample_crypto False s sample_keys None = Some sr \<and> s_status sr = res_status r \<and> s_records sr = 1"
proof -
  obtain line r where r: "verify sample_crypto False (line @ [newline]) (Some sample_keys) None = Some r" "verified r"
    "record_lines (line @ [newline]) = [line]" "stored_line line" "res_records r = 1" using sample_log by metis
  have p: "plain_log (line @ [newline])" "sample_keys [] = None"
    using r(3,4) plain_stored sample_key by (auto simp: plain_log_def stored_line_def sample_keys_def)
  from verifiers_agree [OF r(1,2) p] r show ?thesis by metis
qed

theorem verifiers_differ_at_cap_witness:
  "\<exists>l. length l = max_record_bytes \<and>
    (\<exists>sr. s_verify sample_crypto False (l @ [newline]) sample_keys = Some sr \<and> s_status sr = StatusValid) \<and>
    (\<exists>r. verify sample_crypto False (l @ [newline]) (Some sample_keys) None = Some r \<and> res_status r = StatusInvalid)"
proof -
  have "1052 + 64484 \<le> max_record_bytes" using sample_size_ok(2) by simp
  then obtain l where l: "length l = 1052 + 64484" "newline \<notin> set l" "accepts sample_crypto (Some sample_keys) genesis l"
    "stored_line l" using sample_line [of 64484] by blast
  from l(4) obtain v r where c: "classify l = Parsed v (normed (record_members r @ sig_members r))"
    by (auto simp: stored_line_def)
  have k: "sample_keys [] = None" using sample_key by (auto simp: sample_keys_def)
  have len: "length l = max_record_bytes" using l(1) sample_size_ok(2) by simp
  from verifiers_differ_at_cap [OF l(3) c plain_stored k len l(2)] len show ?thesis by blast
qed

end
