(* ===== verification/GameDay.thy ===== *)
theory GameDay
  imports Records
begin

text \<open>
  \<^verbatim>\<open>internal/config/gameday.go\<close> (the shape of a game-day and its validation, with Kahn's algorithm
  for dependency cycles) and \<^verbatim>\<open>internal/gameday/gameday.go\<close> (the scheduler). The scheduler's loop is
  a step relation: \<open>gd_round\<close> is one pass of the loop body up to the channel receive, and a step
  receives one finished member from the goroutines in flight, whichever it is, and runs the next
  pass. Executing a member is the injected \<^verbatim>\<open>RunFunc\<close>: the summary it reports is any value the
  environment delivers. \<open>cancelled\<close> is what \<^verbatim>\<open>ctx.Err() != nil\<close> says in that pass.
\<close>

subsection \<open>The configuration\<close>

record gd_member =
  gm_name :: bytes
  gm_config :: bytes
  gm_depends_on :: "bytes list"

record gameday =
  gd_name :: bytes
  gd_timeout :: int
  gd_max_parallel :: int
  gd_members :: "gd_member list"
  gd_hash :: bytes
  gd_path :: bytes

definition parallelism :: "gameday \<Rightarrow> int" where
  "parallelism g = (if gd_max_parallel g < 1 then 1 else gd_max_parallel g)"

datatype gd_problem =
    GameDayNameRequired | GameDayTimeoutRequired | MaxParallelNegative | MembersRequired
  | MemberNameRequired nat | MemberNameDuplicate nat bytes nat | MemberConfigRequired nat
  | MemberSelfDependency nat | MemberDuplicateDep nat bytes | MemberUnknownDep nat bytes
  | DependencyCycle "bytes list"

text \<open>The dependency list of one member: a self reference wins over a repetition.\<close>

fun dep_problems :: "nat \<Rightarrow> bytes \<Rightarrow> bytes list \<Rightarrow> bytes set \<Rightarrow> gd_problem list" where
  "dep_problems i nm [] seen = []"
| "dep_problems i nm (d # ds) seen =
    (if d = nm then [MemberSelfDependency i]
     else if d \<in> seen then [MemberDuplicateDep i d] else []) @ dep_problems i nm ds (insert d seen)"

fun validate_members :: "nat \<Rightarrow> gd_member list \<Rightarrow> (bytes \<rightharpoonup> nat) \<Rightarrow> gd_problem list \<times> (bytes \<rightharpoonup> nat)" where
  "validate_members i [] index = ([], index)"
| "validate_members i (m # ms) index =
    (let (nameps, index') =
           (if gm_name m = [] then ([MemberNameRequired i], index)
            else case index (gm_name m) of
                Some prev \<Rightarrow> ([MemberNameDuplicate i (gm_name m) prev], index)
              | None \<Rightarrow> ([], index(gm_name m \<mapsto> i)));
         here = nameps @ (if gm_config m = [] then [MemberConfigRequired i] else [])
                @ dep_problems i (gm_name m) (gm_depends_on m) {};
         (rest, index'') = validate_members (Suc i) ms index'
     in (here @ rest, index''))"

fun validate_dependencies :: "nat \<Rightarrow> gd_member list \<Rightarrow> (bytes \<rightharpoonup> nat) \<Rightarrow> gd_problem list" where
  "validate_dependencies i [] index = []"
| "validate_dependencies i (m # ms) index =
    [MemberUnknownDep i d. d \<leftarrow> gm_depends_on m, index d = None \<and> d \<noteq> gm_name m]
    @ validate_dependencies (Suc i) ms index"

subsection \<open>Kahn's algorithm\<close>

text \<open>The in-degree map, read as Go reads a missing key (zero).\<close>

definition degree :: "(bytes \<times> int) list \<Rightarrow> bytes \<Rightarrow> int" where
  "degree al d = (case map_of al d of None \<Rightarrow> 0 | Some v \<Rightarrow> v)"

definition add_degree :: "int \<Rightarrow> bytes \<Rightarrow> (bytes \<times> int) list \<Rightarrow> (bytes \<times> int) list" where
  "add_degree k d al = AList.update d (degree al d + k) al"

definition count_edges :: "gd_member \<Rightarrow> (bytes \<times> int) list \<Rightarrow> (bytes \<times> int) list" where
  "count_edges m al = fold (\<lambda>dep. add_degree 1 (gm_name m)) (gm_depends_on m) (add_degree 0 (gm_name m) al)"

definition dependents :: "gd_member list \<Rightarrow> bytes \<Rightarrow> bytes list" where
  "dependents ms d = [gm_name m. m \<leftarrow> ms, dep \<leftarrow> gm_depends_on m, dep = d]"

text \<open>Taking one member off the queue: its dependents lose one edge each.\<close>

fun relax :: "bytes list \<Rightarrow> (bytes \<times> int) list \<Rightarrow> bytes list \<Rightarrow> (bytes \<times> int) list \<times> bytes list" where
  "relax [] al queue = (al, queue)"
| "relax (d # ds) al queue =
    (let al' = add_degree (-1) d al
     in relax ds al' (if degree al' d = 0 then queue @ [d] else queue))"

definition positives :: "(bytes \<times> int) list \<Rightarrow> bytes set" where
  "positives al = {d. degree al d > 0}"

lemma degree_add [simp]: "degree (add_degree k d al) e = degree al e + (if e = d then k else 0)"
  by (auto simp: degree_def add_degree_def update_conv split: option.splits)

lemma finite_positives [simp]: "finite (positives al)"
proof (rule finite_subset)
  show "positives al \<subseteq> dom (map_of al)" by (auto simp: positives_def degree_def split: option.splits)
qed (rule finite_dom_map_of)

lemma relax_measure:
  "length (snd (relax ds al q)) + card (positives (fst (relax ds al q))) \<le> length q + card (positives al)"
proof (induction ds arbitrary: al q)
  case Nil
  then show ?case by simp
next
  case (Cons d ds)
  let ?al = "add_degree (-1) d al"
  have sub: "positives ?al \<subseteq> positives al" by (auto simp: positives_def split: if_splits)
  then have le: "card (positives ?al) \<le> card (positives al)" by (simp add: card_mono)
  have "degree ?al d = 0 \<Longrightarrow> card (positives ?al) < card (positives al)"
  proof -
    assume "degree ?al d = 0"
    then have "d \<in> positives al" "d \<notin> positives ?al" by (auto simp: positives_def)
    with sub have "positives ?al \<subset> positives al" by blast
    then show ?thesis by (simp add: psubset_card_mono)
  qed
  then have "length (if degree ?al d = 0 then q @ [d] else q) + card (positives ?al)
      \<le> length q + card (positives al)" using le by auto
  with Cons.IH [of ?al "if degree ?al d = 0 then q @ [d] else q"] show ?case
    unfolding relax.simps Let_def by linarith
qed

function drain :: "gd_member list \<Rightarrow> bytes list \<Rightarrow> (bytes \<times> int) list \<Rightarrow> nat \<Rightarrow> nat \<times> (bytes \<times> int) list" where
  "drain ms [] al removed = (removed, al)"
| "drain ms (nm # queue) al removed =
    (let (al', queue') = relax (dependents ms nm) al queue in drain ms queue' al' (Suc removed))"
  by pat_completeness auto

termination
proof (relation "measure (\<lambda>(ms, q, al, k). length q + card (positives al))", goal_cases)
  case 1
  then show ?case by simp
next
  case (2 ms nm queue al removed x al' queue')
  have "al' = fst (relax (dependents ms nm) al queue)" "queue' = snd (relax (dependents ms nm) al queue)"
    by (metis 2(1,2) fst_conv) (metis 2(1,2) snd_conv)
  then show ?case using relax_measure [of "dependents ms nm" al queue] by (simp add: less_Suc_eq_le)
qed

definition cycle_members :: "gd_member list \<Rightarrow> bytes list" where
  "cycle_members ms =
    (let indegree = fold count_edges ms [];
         queue = [gm_name m. m \<leftarrow> ms, degree indegree (gm_name m) = 0];
         (removed, indegree') = drain ms queue indegree 0
     in if removed = length ms then []
        else [gm_name m. m \<leftarrow> ms, degree indegree' (gm_name m) > 0])"

text \<open>\<^verbatim>\<open>errors.Join\<close> of no errors is nil: a valid game-day has the empty list of problems.\<close>

definition validate_gameday :: "gameday \<Rightarrow> gd_problem list" where
  "validate_gameday g =
    (let p1 = (if gd_name g = [] then [GameDayNameRequired] else [])
            @ (if gd_timeout g = 0 then [GameDayTimeoutRequired] else [])
            @ (if gd_max_parallel g < 0 then [MaxParallelNegative] else [])
     in if gd_members g = [] then p1 @ [MembersRequired]
        else let (p2, index) = validate_members 0 (gd_members g) Map.empty;
                 p = p1 @ p2 @ validate_dependencies 0 (gd_members g) index
             in if p = [] then (let stuck = cycle_members (gd_members g)
                  in if stuck \<noteq> [] then [DependencyCycle stuck] else [])
                else p)"

subsection \<open>The scheduler's state\<close>

definition outcome_skipped :: bytes where "outcome_skipped = ''skipped''"
definition err_code_setup :: bytes where "err_code_setup = ''setup_error''"
definition err_code_evidence_lost :: bytes where "err_code_evidence_lost = ''evidence_lost''"

record drill_summary =
  ds_outcome :: bytes
  ds_seq :: int
  ds_evidence_path :: bytes
  ds_checks_passed :: int
  ds_checks_total :: int
  ds_restore_ms :: "int option"
  ds_total_ms :: "int option"
  ds_error_code :: bytes

record member_result =
  mr_name :: bytes
  mr_outcome :: bytes
  mr_drill :: "drill_summary option"
  mr_skip_reason :: bytes
  mr_duration_ms :: int

record gd_summary =
  gs_game_day :: bytes
  gs_config_hash :: bytes
  gs_outcome :: bytes
  gs_members :: "member_result list"
  gs_total_ms :: int

text \<open>\<open>rs_flight\<close> are the goroutines started and not yet received from; \<open>rs_running\<close> is the counter.\<close>

record run_state =
  rs_pending :: "bool list"
  rs_outcomes :: "bytes \<rightharpoonup> bytes"
  rs_results :: "member_result list"
  rs_running :: int
  rs_flight :: "nat list"

definition run_start :: "gameday \<Rightarrow> run_state" where
  "run_start g =
    \<lparr>rs_pending = map (\<lambda>m. True) (gd_members g), rs_outcomes = Map.empty,
     rs_results = map (\<lambda>m. \<lparr>mr_name = gm_name m, mr_outcome = [], mr_drill = None, mr_skip_reason = [],
       mr_duration_ms = 0\<rparr>) (gd_members g),
     rs_running = 0, rs_flight = []\<rparr>"

subsection \<open>Skipping\<close>

fun blocked_by :: "bytes list \<Rightarrow> (bytes \<rightharpoonup> bytes) \<Rightarrow> bytes \<times> bytes" where
  "blocked_by [] outs = ([], [])"
| "blocked_by (d # ds) outs =
    (case outs d of Some o' \<Rightarrow> if o' \<noteq> outcome_pass then (d, o') else blocked_by ds outs
     | None \<Rightarrow> blocked_by ds outs)"

definition mark_skipped :: "gameday \<Rightarrow> nat \<Rightarrow> bytes \<Rightarrow> run_state \<Rightarrow> run_state" where
  "mark_skipped g i reason s =
    s\<lparr>rs_pending := (rs_pending s)[i := False],
      rs_results := (rs_results s)[i := (rs_results s ! i)\<lparr>mr_outcome := outcome_skipped, mr_skip_reason := reason\<rparr>],
      rs_outcomes := (rs_outcomes s)(gm_name (gd_members g ! i) \<mapsto> outcome_skipped)\<rparr>"

definition dependency_reason :: "bytes \<Rightarrow> bytes \<Rightarrow> bytes" where
  "dependency_reason d o' = ''dependency '' @ d @ '' did not pass ('' @ o' @ '')''"

definition cancelled_reason :: bytes where
  "cancelled_reason = ''game-day cancelled''"

text \<open>One turn of the inner loop of \<^verbatim>\<open>skipBlockedMembers\<close>: the new state and \<^verbatim>\<open>changed\<close>.\<close>

definition skip_one :: "gameday \<Rightarrow> nat \<Rightarrow> run_state \<times> bool \<Rightarrow> run_state \<times> bool" where
  "skip_one g i sc =
    (let (s, changed) = sc in
     if \<not> rs_pending s ! i then (s, changed)
     else let (dep, o') = blocked_by (gm_depends_on (gd_members g ! i)) (rs_outcomes s)
          in if dep = [] then (s, changed) else (mark_skipped g i (dependency_reason dep o') s, True))"

definition skip_pass :: "gameday \<Rightarrow> run_state \<Rightarrow> run_state \<times> bool" where
  "skip_pass g s = fold (skip_one g) [0..<length (gd_members g)] (s, False)"

definition pending_count :: "run_state \<Rightarrow> nat" where
  "pending_count s = length (filter id (rs_pending s))"

lemma filter_id_update:
  "i < length xs \<Longrightarrow> xs ! i \<Longrightarrow> Suc (length (filter id (xs[i := False]))) = length (filter id xs)"
proof (induction xs arbitrary: i)
  case (Cons x xs)
  then show ?case by (cases i) auto
qed simp

lemma pending_count_mark:
  assumes "i < length (rs_pending s)" "rs_pending s ! i"
  shows "pending_count (mark_skipped g i r s) < pending_count s"
  using filter_id_update [OF assms] by (simp add: pending_count_def mark_skipped_def)

lemma length_mark [simp]:
  "length (rs_pending (mark_skipped g i r s)) = length (rs_pending s)"
  "length (rs_results (mark_skipped g i r s)) = length (rs_results s)"
  by (simp_all add: mark_skipped_def)

definition bigger :: "bool \<Rightarrow> run_state \<Rightarrow> run_state \<Rightarrow> bool" where
  "bigger strict s s' = (length (rs_pending s') = length (rs_pending s) \<and>
     (if strict then pending_count s' < pending_count s else pending_count s' \<le> pending_count s))"

lemma skip_fold_count:
  assumes "\<forall>i \<in> set is. i < length (rs_pending s)" "fold (skip_one g) is (s, b) = (s', b')"
  shows "length (rs_pending s') = length (rs_pending s) \<and> pending_count s' \<le> pending_count s \<and>
    (b' \<longrightarrow> b \<or> pending_count s' < pending_count s)"
  using assms
proof (induction "is" arbitrary: s b)
  case (Cons i "is")
  obtain s1 b1 where 1: "skip_one g i (s, b) = (s1, b1)" by fastforce
  then have "length (rs_pending s1) = length (rs_pending s) \<and>
      (s1 = s \<and> b1 = b \<or> pending_count s1 < pending_count s)"
    using Cons.prems(1) pending_count_mark [of i s g]
    by (auto simp: skip_one_def Let_def split: if_splits prod.splits)
  with Cons.IH [of s1 b1] Cons.prems 1 show ?case by fastforce
qed auto

text \<open>
  The outer loop repeats while a pass changed something. Go's slices all have one entry per
  member; the guard says so, and \<open>skip_blocked\<close> is only ever called there.
\<close>

function skip_blocked :: "gameday \<Rightarrow> run_state \<Rightarrow> run_state" where
  "skip_blocked g s =
    (if length (rs_pending s) \<noteq> length (gd_members g) then s
     else let (s', changed) = skip_pass g s in if changed then skip_blocked g s' else s')"
  by pat_completeness auto

termination
proof (relation "measure (\<lambda>(g, s). pending_count s)", goal_cases)
  case (2 g s x s' changed)
  then show ?case
    using skip_fold_count [of "[0..<length (gd_members g)]" s g False s' True]
    by (auto simp: skip_pass_def)
qed simp

declare skip_blocked.simps [simp del]

definition skip_rest_one :: "gameday \<Rightarrow> nat \<Rightarrow> run_state \<Rightarrow> run_state" where
  "skip_rest_one g i s = (if rs_pending s ! i then mark_skipped g i cancelled_reason s else s)"

definition skip_remaining :: "gameday \<Rightarrow> run_state \<Rightarrow> run_state" where
  "skip_remaining g s = fold (skip_rest_one g) [0..<length (gd_members g)] s"

subsection \<open>Launching\<close>

text \<open>A missing map entry reads as the empty string, which is not \<^verbatim>\<open>pass\<close>.\<close>

definition ready :: "gd_member \<Rightarrow> (bytes \<rightharpoonup> bytes) \<Rightarrow> bool" where
  "ready m outs = list_all (\<lambda>d. outs d = Some outcome_pass) (gm_depends_on m)"

fun launch_ready :: "gameday \<Rightarrow> int \<Rightarrow> nat list \<Rightarrow> int \<Rightarrow> run_state \<Rightarrow> run_state \<times> int" where
  "launch_ready g slots [] launched s = (s, launched)"
| "launch_ready g slots (i # is) launched s =
    (if launched \<ge> slots then (s, launched)
     else if \<not> rs_pending s ! i \<or> \<not> ready (gd_members g ! i) (rs_outcomes s)
       then launch_ready g slots is launched s
     else launch_ready g slots is (launched + 1)
       (s\<lparr>rs_pending := (rs_pending s)[i := False], rs_flight := rs_flight s @ [i]\<rparr>))"

subsection \<open>The loop\<close>

definition gd_round :: "gameday \<Rightarrow> bool \<Rightarrow> run_state \<Rightarrow> run_state" where
  "gd_round g cancelled s =
    (let s1 = skip_blocked g s;
         s2 = (if cancelled then skip_remaining g s1 else s1);
         (s3, launched) = launch_ready g (parallelism g - rs_running s2) [0..<length (gd_members g)] 0 s2
     in s3\<lparr>rs_running := rs_running s3 + launched\<rparr>)"

definition receive :: "gameday \<Rightarrow> nat \<Rightarrow> drill_summary \<Rightarrow> int \<Rightarrow> run_state \<Rightarrow> run_state" where
  "receive g i d ms s =
    s\<lparr>rs_running := rs_running s - 1, rs_flight := remove1 i (rs_flight s),
      rs_results := (rs_results s)[i := (rs_results s ! i)
        \<lparr>mr_outcome := ds_outcome d, mr_drill := Some d, mr_duration_ms := ms\<rparr>],
      rs_outcomes := (rs_outcomes s)(gm_name (gd_members g ! i) \<mapsto> ds_outcome d)\<rparr>"

definition overall_outcome :: "member_result list \<Rightarrow> bytes" where
  "overall_outcome rs =
    (let any_fail = list_ex (\<lambda>r. mr_outcome r = outcome_fail) rs;
         all_pass = list_all (\<lambda>r. mr_outcome r = outcome_pass) rs
     in if all_pass then outcome_pass else if any_fail then outcome_fail else outcome_error)"

definition gd_finish :: "gameday \<Rightarrow> int \<Rightarrow> run_state \<Rightarrow> gd_summary" where
  "gd_finish g elapsed s =
    \<lparr>gs_game_day = gd_name g, gs_config_hash = gd_hash g, gs_outcome = overall_outcome (rs_results s),
     gs_members = rs_results s, gs_total_ms = elapsed\<rparr>"

text \<open>
  States at the channel receive. \<open>can\<close>: may cancellation be observed in this run. \<open>ok i d\<close>: the
  summaries the drill of member \<open>i\<close> may report. \<open>k\<close> counts the receives.
\<close>

inductive gd_reach :: "gameday \<Rightarrow> bool \<Rightarrow> (nat \<Rightarrow> drill_summary \<Rightarrow> bool) \<Rightarrow> nat \<Rightarrow> run_state \<Rightarrow> bool"
  for g can ok where
  start: "(c \<longrightarrow> can) \<Longrightarrow> gd_reach g can ok 0 (gd_round g c (run_start g))"
| step: "gd_reach g can ok k s \<Longrightarrow> rs_running s \<noteq> 0 \<Longrightarrow> i \<in> set (rs_flight s) \<Longrightarrow> ok i d \<Longrightarrow> (c \<longrightarrow> can) \<Longrightarrow>
    gd_reach g can ok (Suc k) (gd_round g c (receive g i d ms s))"

text \<open>A whole run on a given sequence of arrivals; \<open>None\<close> when an arrival is not in flight or none is left.\<close>

fun gd_run :: "gameday \<Rightarrow> run_state \<Rightarrow> (nat \<times> drill_summary \<times> int \<times> bool) list \<Rightarrow> run_state option" where
  "gd_run g s [] = (if rs_running s = 0 then Some s else None)"
| "gd_run g s ((i, d, ms, c) # evs) =
    (if rs_running s = 0 then Some s
     else if i \<in> set (rs_flight s) then gd_run g (gd_round g c (receive g i d ms s)) evs else None)"

end
