(* ===== verification/GameDayConfig.thy ===== *)
theory GameDayConfig
  imports GameDay
begin

definition dep_rel :: "gd_member list \<Rightarrow> (bytes \<times> bytes) set" where
  "dep_rel ms = {(d, gm_name m) | d m. m \<in> set ms \<and> d \<in> set (gm_depends_on m)}"

definition well_shaped :: "gd_member list \<Rightarrow> bool" where
  "well_shaped ms = (distinct (map gm_name ms) \<and>
     (\<forall>m \<in> set ms. distinct (gm_depends_on m) \<and> gm_name m \<notin> set (gm_depends_on m) \<and>
        set (gm_depends_on m) \<subseteq> gm_name ` set ms))"

abbreviation deps_of :: "gd_member list \<Rightarrow> bytes \<Rightarrow> bytes set" where
  "deps_of ms x \<equiv> {d. (d, x) \<in> dep_rel ms}"

lemma deps_of_member:
  assumes "distinct (map gm_name ms)" "m \<in> set ms"
  shows "deps_of ms (gm_name m) = set (gm_depends_on m)"
proof -
  have "\<And>m'. m' \<in> set ms \<Longrightarrow> gm_name m' = gm_name m \<Longrightarrow> m' = m"
    using assms by (auto simp: distinct_map inj_on_def)
  then show ?thesis using assms(2) by (auto simp: dep_rel_def)
qed

lemma finite_dep_rel [simp]: "finite (dep_rel ms)"
proof -
  have "dep_rel ms = (\<Union>m \<in> set ms. (\<lambda>d. (d, gm_name m)) ` set (gm_depends_on m))"
    by (auto simp: dep_rel_def)
  then show ?thesis by simp
qed

lemma finite_deps_of [simp]: "finite (deps_of ms x)"
proof -
  have "deps_of ms x = (\<lambda>p. fst p) ` {p \<in> dep_rel ms. snd p = x}" by force
  then show ?thesis by simp
qed

lemma deps_of_names: "well_shaped ms \<Longrightarrow> deps_of ms x \<subseteq> gm_name ` set ms"
  by (auto simp: well_shaped_def dep_rel_def)

lemma dep_problems_Nil:
  "dep_problems i nm ds seen = [] \<longleftrightarrow> nm \<notin> set ds \<and> distinct ds \<and> set ds \<inter> seen = {}"
  by (induction ds arbitrary: seen) auto

lemma degree_count_edges:
  "degree (count_edges m al) x = degree al x + (if x = gm_name m then int (length (gm_depends_on m)) else 0)"
proof -
  have step: "degree (fold (\<lambda>dep. add_degree 1 (gm_name m)) ds al) x =
      degree al x + (if x = gm_name m then int (length ds) else 0)" for ds :: "bytes list" and al
    by (induction ds arbitrary: al) auto
  show ?thesis unfolding count_edges_def step by simp
qed

lemma degree_fold_absent:
  "x \<notin> gm_name ` set ms \<Longrightarrow> degree (fold count_edges ms al) x = degree al x"
  by (induction ms arbitrary: al) (auto simp: degree_count_edges)

lemma degree_fold:
  "distinct (map gm_name ms) \<Longrightarrow> m \<in> set ms \<Longrightarrow>
    degree (fold count_edges ms al) (gm_name m) = degree al (gm_name m) + int (length (gm_depends_on m))"
proof (induction ms arbitrary: al)
  case (Cons a ms)
  show ?case
  proof (cases "m = a")
    case True
    with Cons.prems show ?thesis by (simp add: degree_fold_absent degree_count_edges)
  next
    case False
    with Cons have "gm_name m \<noteq> gm_name a" "m \<in> set ms" by (auto simp: rev_image_eqI)
    with Cons show ?thesis by (simp add: degree_count_edges)
  qed
qed simp

lemma relax_distinct:
  "distinct ds \<Longrightarrow> \<exists>al'. relax ds al q = (al', q @ filter (\<lambda>d. degree al d = 1) ds) \<and>
     (\<forall>x. degree al' x = degree al x - (if x \<in> set ds then 1 else 0))"
proof (induction ds arbitrary: al q)
  case Nil
  then show ?case by simp
next
  case (Cons d ds)
  let ?al = "add_degree (-1) d al" and ?q = "if degree al d = 1 then q @ [d] else q"
  from Cons.prems have d: "d \<notin> set ds" "distinct ds" by auto
  from Cons.IH [OF d(2), of ?al ?q] obtain al' where
    al': "relax ds ?al ?q = (al', ?q @ filter (\<lambda>e. degree ?al e = 1) ds)"
         "\<forall>x. degree al' x = degree ?al x - (if x \<in> set ds then 1 else 0)" by blast
  have "filter (\<lambda>e. degree ?al e = 1) ds = filter (\<lambda>e. degree al e = 1) ds"
    using d(1) by (intro filter_cong) auto
  with al' d show ?case by auto
qed

lemma dependents_eq:
  "well_shaped ms \<Longrightarrow> dependents ms nm = [gm_name m. m \<leftarrow> ms, nm \<in> set (gm_depends_on m)]"
proof -
  have one: "distinct ds \<Longrightarrow> concat (map (\<lambda>dep. if dep = nm then [x] else []) ds) = (if nm \<in> set ds then [x] else [])"
    for ds and x :: bytes
    by (induction ds) auto
  assume "well_shaped ms"
  then have "\<forall>m \<in> set ms. distinct (gm_depends_on m)" by (simp add: well_shaped_def)
  then show ?thesis unfolding dependents_def by (intro arg_cong [where f = concat] map_cong) (auto simp: one)
qed

lemma dependents_distinct: "well_shaped ms \<Longrightarrow> distinct (dependents ms nm)"
proof -
  have "[gm_name m. m \<leftarrow> ms, P m] = map gm_name (filter P ms)" for P
    by (induction ms) auto
  then show "well_shaped ms \<Longrightarrow> ?thesis"
    by (simp add: dependents_eq distinct_map_filter well_shaped_def)
qed

lemma set_dependents: "well_shaped ms \<Longrightarrow> set (dependents ms nm) = {x. (nm, x) \<in> dep_rel ms}"
  by (auto simp: dependents_eq dep_rel_def)

definition kahn_inv :: "gd_member list \<Rightarrow> bytes set \<Rightarrow> bytes list \<Rightarrow> (bytes \<times> int) list \<Rightarrow> nat \<Rightarrow> bool" where
  "kahn_inv ms X q al k = (X \<subseteq> gm_name ` set ms \<and> distinct q \<and> set q \<inter> X = {} \<and> card X = k \<and>
     (\<forall>x \<in> gm_name ` set ms. degree al x = int (card (deps_of ms x - X))) \<and>
     (\<forall>x \<in> gm_name ` set ms. deps_of ms x \<subseteq> X \<longleftrightarrow> x \<in> X \<union> set q) \<and>
     set q \<subseteq> gm_name ` set ms \<and> X \<subseteq> Wellfounded.acc (dep_rel ms))"

lemma kahn_step:
  assumes ws: "well_shaped ms" and inv: "kahn_inv ms X (nm # q) al k"
    and r: "relax (dependents ms nm) al q = (al', q')"
  shows "kahn_inv ms (insert nm X) q' al' (Suc k)"
proof -
  let ?N = "gm_name ` set ms" and ?D = "deps_of ms" and ?X = "insert nm X"
  from relax_distinct [OF dependents_distinct [OF ws], of nm al q] r
  have q': "q' = q @ filter (\<lambda>d. degree al d = 1) (dependents ms nm)"
    and al': "\<And>x. degree al' x = degree al x - (if nm \<in> ?D x then 1 else 0)"
    by (auto simp: set_dependents [OF ws])
  note i = inv [unfolded kahn_inv_def]
  from i have X: "finite X" using finite_subset [of X ?N] by auto
  from i have nm: "nm \<notin> X" "nm \<in> ?N" by auto
  have new: "x \<in> set q' \<longleftrightarrow> x \<in> set q \<or> (nm \<in> ?D x \<and> degree al x = 1)" for x
    by (auto simp: q' set_dependents [OF ws])
  have D1: "degree al x = 1 \<and> nm \<in> ?D x \<longleftrightarrow> ?D x - X = {nm}" if x: "x \<in> ?N" for x
  proof -
    have d: "degree al x = int (card (?D x - X))" using i x by blast
    show ?thesis
    proof
      assume a: "degree al x = 1 \<and> nm \<in> ?D x"
      with d have "card (?D x - X) = 1" by simp
      then obtain z where "?D x - X = {z}" by (auto simp: card_1_singleton_iff)
      moreover have "nm \<in> ?D x - X" using a nm by simp
      ultimately show "?D x - X = {nm}" by (metis singletonD)
    next
      assume e: "?D x - X = {nm}"
      then have "nm \<in> ?D x" by auto
      with d e show "degree al x = 1 \<and> nm \<in> ?D x" by simp
    qed
  qed
  have deg: "degree al' x = int (card (?D x - ?X))" if x: "x \<in> ?N" for x
  proof (cases "nm \<in> ?D x")
    case True
    have eq: "?D x - ?X = (?D x - X) - {nm}" by blast
    have m: "nm \<in> ?D x - X" using True nm(1) by simp
    have "int (card (?D x - ?X)) = int (card (?D x - X)) - 1"
      unfolding eq
      using card.remove [OF _ m] by simp
    moreover have "degree al x = int (card (?D x - X))" using i x by blast
    ultimately show ?thesis using True by (simp add: al')
  next
    case False
    then have "?D x - ?X = ?D x - X" by blast
    moreover have "degree al x = int (card (?D x - X))" using i x by blast
    ultimately show ?thesis using False by (simp add: al')
  qed
  have sub: "?D x \<subseteq> ?X \<longleftrightarrow> x \<in> ?X \<union> set q'" if x: "x \<in> ?N" for x
  proof -
    have "?D x \<subseteq> ?X \<longleftrightarrow> ?D x \<subseteq> X \<or> ?D x - X = {nm}" using nm by blast
    also have "\<dots> \<longleftrightarrow> x \<in> X \<union> set (nm # q) \<or> (nm \<in> ?D x \<and> degree al x = 1)"
      using i D1 [OF x] x by blast
    also have "\<dots> \<longleftrightarrow> x \<in> ?X \<union> set q'" using new by auto
    finally show ?thesis .
  qed
  have dist: "distinct q' \<and> set q' \<inter> ?X = {} \<and> set q' \<subseteq> ?N"
  proof -
    have 0: "degree al x = 0" if "x \<in> X \<union> set (nm # q)" for x
    proof -
      from that i have "x \<in> ?N" by auto
      with that i have "?D x \<subseteq> X" "degree al x = int (card (?D x - X))" by blast+
      then show ?thesis by (simp add: Diff_eq_empty_iff [THEN iffD2])
    qed
    have "set (dependents ms nm) \<subseteq> ?N" by (auto simp: set_dependents [OF ws] dep_rel_def)
    with 0 i dependents_distinct [OF ws, of nm] show ?thesis
      unfolding q' by (auto simp: distinct_filter)
  qed
  have "nm \<in> Wellfounded.acc (dep_rel ms)"
  proof (rule accI)
    fix y assume "(y, nm) \<in> dep_rel ms"
    moreover have "?D nm \<subseteq> X \<longleftrightarrow> nm \<in> X \<union> set (nm # q)"
      using i nm(2) by (elim conjE) (rule bspec)
    ultimately have "y \<in> X" by auto
    then show "y \<in> Wellfounded.acc (dep_rel ms)" using i by blast
  qed
  then have acc: "?X \<subseteq> Wellfounded.acc (dep_rel ms)" using i by blast
  have "X \<subseteq> ?N" "card X = k" using i by blast+
  with nm X have "?X \<subseteq> ?N" "card ?X = Suc k" by auto
  with dist deg sub acc show ?thesis unfolding kahn_inv_def by simp
qed

lemma drain_inv:
  assumes "well_shaped ms" "kahn_inv ms X q al k"
  shows "\<exists>X'. kahn_inv ms X' [] (snd (drain ms q al k)) (fst (drain ms q al k))"
  using assms
proof (induction ms q al k arbitrary: X rule: drain.induct)
  case (2 ms nm queue al removed)
  obtain al' q' where r: "relax (dependents ms nm) al queue = (al', q')" by fastforce
  from 2(1) [OF r [symmetric] refl 2(2) kahn_step [OF 2(2,3) r]] r show ?case by simp
qed auto

lemma cycle_members_eq:
  assumes ws: "well_shaped ms"
  shows "cycle_members ms = filter (\<lambda>x. x \<notin> Wellfounded.acc (dep_rel ms)) (map gm_name ms)"
proof -
  let ?N = "gm_name ` set ms" and ?al = "fold count_edges ms []"
  let ?q = "[gm_name m. m \<leftarrow> ms, degree ?al (gm_name m) = 0]"
  from ws have d: "distinct (map gm_name ms)" by (simp add: well_shaped_def)
  have deg: "degree ?al (gm_name m) = int (card (deps_of ms (gm_name m)))" if "m \<in> set ms" for m
    using that ws degree_fold [OF d that] by (auto simp: deps_of_member [OF d that] degree_def distinct_card well_shaped_def)
  have comp: "[gm_name m. m \<leftarrow> ms', P (gm_name m)] = filter P (map gm_name ms')" for P ms' by (induction ms') auto
  have q: "?q = filter (\<lambda>x. degree ?al x = 0) (map gm_name ms)" by (rule comp)
  have "kahn_inv ms {} ?q ?al 0"
    using deg d unfolding q kahn_inv_def by (auto simp: distinct_filter)
  from drain_inv [OF ws this] obtain X where
    X: "kahn_inv ms X [] (snd (drain ms ?q ?al 0)) (fst (drain ms ?q ?al 0))" by blast
  define al' k where "al' = snd (drain ms ?q ?al 0)" and "k = fst (drain ms ?q ?al 0)"
  note X = X [folded al'_def k_def, unfolded kahn_inv_def]
  have fin: "finite X" using X finite_subset [of X ?N] by auto
  have acc: "x \<in> X" if "x \<in> Wellfounded.acc (dep_rel ms)" "x \<in> ?N" for x
    using that
  proof (induction rule: acc_induct_rule, goal_cases)
    case (1 x)
    then have "deps_of ms x \<subseteq> X" using deps_of_names [OF ws, of x] by auto
    with 1 X show ?case by auto
  qed
  have pos: "degree al' x > 0 \<longleftrightarrow> x \<notin> Wellfounded.acc (dep_rel ms)" if x: "x \<in> ?N" for x
  proof -
    have "degree al' x = int (card (deps_of ms x - X))" using X x by blast
    then have "degree al' x > 0 \<longleftrightarrow> \<not> deps_of ms x \<subseteq> X" by (simp add: card_gt_0_iff)
    also have "\<dots> \<longleftrightarrow> x \<notin> X" using X x by (metis empty_set sup_bot_right)
    finally show ?thesis using acc [OF _ x] X by blast
  qed
  have all: "k = length ms \<Longrightarrow> X = ?N"
    using X d by (intro card_subset_eq) (auto simp: distinct_card [OF d, simplified])
  have "[gm_name m. m \<leftarrow> ms, degree al' (gm_name m) > 0] =
      filter (\<lambda>x. x \<notin> Wellfounded.acc (dep_rel ms)) (map gm_name ms)"
  proof -
    have "filter (\<lambda>x. degree al' x > 0) (map gm_name ms) =
        filter (\<lambda>x. x \<notin> Wellfounded.acc (dep_rel ms)) (map gm_name ms)"
      by (rule filter_cong) (use pos in auto)
    then show ?thesis by (simp only: comp [of "\<lambda>x. degree al' x > 0" ms])
  qed
  moreover have "k = length ms \<Longrightarrow> filter (\<lambda>x. x \<notin> Wellfounded.acc (dep_rel ms)) (map gm_name ms) = []"
    using all X by (auto simp: filter_empty_conv)
  moreover have "drain ms ?q ?al 0 = (k, al')" by (simp add: k_def al'_def)
  ultimately show ?thesis by (simp add: cycle_members_def Let_def)
qed

lemma acc_no_cycle:
  assumes "finite R"
  shows "x \<in> Wellfounded.acc R \<longleftrightarrow> \<not> (\<exists>c. (c, c) \<in> R\<^sup>+ \<and> (c, x) \<in> R\<^sup>*)"
proof
  assume "x \<in> Wellfounded.acc R"
  then show "\<not> (\<exists>c. (c, c) \<in> R\<^sup>+ \<and> (c, x) \<in> R\<^sup>*)"
  proof (induction rule: acc_induct_rule, goal_cases)
    case (1 x)
    show ?case
    proof
      assume "\<exists>c. (c, c) \<in> R\<^sup>+ \<and> (c, x) \<in> R\<^sup>*"
      then obtain c where c: "(c, c) \<in> R\<^sup>+" "(c, x) \<in> R\<^sup>*" by blast
      then have "(c, x) \<in> R\<^sup>+" by (metis rtranclD trancl_trans)
      then obtain y where "(c, y) \<in> R\<^sup>*" "(y, x) \<in> R" by (metis tranclD2)
      with c(1) 1(2) show False by blast
    qed
  qed
next
  assume n: "\<not> (\<exists>c. (c, c) \<in> R\<^sup>+ \<and> (c, x) \<in> R\<^sup>*)"
  let ?S = "{(a, b). (a, b) \<in> R \<and> (b, x) \<in> R\<^sup>*}"
  have "?S \<subseteq> R" by auto
  then have fin: "finite ?S" using assms finite_subset by blast
  have "acyclic ?S"
  proof (rule acyclicI, rule allI, rule notI)
    fix a assume a: "(a, a) \<in> ?S\<^sup>+"
    then obtain b where "(b, a) \<in> ?S" by (blast dest: tranclD2)
    then have "(a, x) \<in> R\<^sup>*" by blast
    moreover have "(a, a) \<in> R\<^sup>+" by (rule trancl_mono [OF a \<open>?S \<subseteq> R\<close>])
    ultimately show False using n by blast
  qed
  with fin have "wf ?S" by (rule finite_acyclic_wf)
  then have "(y, x) \<in> R\<^sup>* \<longrightarrow> y \<in> Wellfounded.acc R" for y
  proof (induction y rule: wf_induct_rule)
    case (less y)
    show ?case
    proof (rule impI, rule accI)
      fix z assume "(y, x) \<in> R\<^sup>*" "(z, y) \<in> R"
      then have "(z, y) \<in> ?S" "(z, x) \<in> R\<^sup>*" by auto
      with less show "z \<in> Wellfounded.acc R" by blast
    qed
  qed
  then show "x \<in> Wellfounded.acc R" by blast
qed


lemma validate_members_fst_Cons:
  "fst (validate_members i (m # ms) index) = [] \<longleftrightarrow>
     gm_name m \<noteq> [] \<and> index (gm_name m) = None \<and> gm_config m \<noteq> [] \<and>
     gm_name m \<notin> set (gm_depends_on m) \<and> distinct (gm_depends_on m) \<and>
     fst (validate_members (Suc i) ms (index(gm_name m \<mapsto> i))) = []"
  by (auto simp: dep_problems_Nil split: prod.splits option.splits)

lemma validate_members_fst:
  "fst (validate_members i ms index) = [] \<longleftrightarrow>
     distinct (map gm_name ms) \<and> gm_name ` set ms \<inter> dom index = {} \<and>
     (\<forall>m \<in> set ms. gm_name m \<noteq> [] \<and> gm_config m \<noteq> [] \<and>
        gm_name m \<notin> set (gm_depends_on m) \<and> distinct (gm_depends_on m))"
proof (induction ms arbitrary: i index)
  case (Cons m ms)
  show ?case unfolding validate_members_fst_Cons Cons.IH by (auto simp: domIff)
qed simp

lemma validate_members_snd_Cons:
  "gm_name m \<noteq> [] \<Longrightarrow> snd (validate_members i (m # ms) index) =
     snd (validate_members (Suc i) ms (if index (gm_name m) = None then index(gm_name m \<mapsto> i) else index))"
  by (auto split: prod.splits option.splits)

lemma validate_members_snd:
  "[] \<notin> gm_name ` set ms \<Longrightarrow> dom (snd (validate_members i ms index)) = dom index \<union> gm_name ` set ms"
proof (induction ms arbitrary: i index)
  case (Cons m ms)
  then have "gm_name m \<noteq> []" "[] \<notin> gm_name ` set ms" by auto
  with Cons.IH show ?case by (auto simp: validate_members_snd_Cons simp del: validate_members.simps)
qed simp

lemma validate_dependencies_Nil:
  "validate_dependencies i ms index = [] \<longleftrightarrow>
     (\<forall>m \<in> set ms. \<forall>d \<in> set (gm_depends_on m). d \<in> dom index \<or> d = gm_name m)"
proof (induction ms arbitrary: i)
  case (Cons m ms)
  have "[MemberUnknownDep i d. d \<leftarrow> ds, index d = None \<and> d \<noteq> gm_name m] = [] \<longleftrightarrow>
      (\<forall>d \<in> set ds. d \<in> dom index \<or> d = gm_name m)" for ds
    by (induction ds) (auto simp: domIff)
  with Cons.IH show ?case by simp
qed simp

lemma acyclic_iff_acc:
  "acyclic (dep_rel ms) \<longleftrightarrow> (\<forall>m \<in> set ms. gm_name m \<in> Wellfounded.acc (dep_rel ms))"
proof
  assume "acyclic (dep_rel ms)"
  then show "\<forall>m \<in> set ms. gm_name m \<in> Wellfounded.acc (dep_rel ms)"
    by (simp add: acc_no_cycle acyclic_def)
next
  assume a: "\<forall>m \<in> set ms. gm_name m \<in> Wellfounded.acc (dep_rel ms)"
  show "acyclic (dep_rel ms)"
  proof (rule acyclicI, rule allI, rule notI)
    fix x assume c: "(x, x) \<in> (dep_rel ms)\<^sup>+"
    then obtain y where "(y, x) \<in> dep_rel ms" by (blast dest: tranclD2)
    then obtain m where "m \<in> set ms" "x = gm_name m" by (auto simp: dep_rel_def)
    with a c show False by (auto simp: acc_no_cycle)
  qed
qed

lemma cycle_members_Nil: "well_shaped ms \<Longrightarrow> cycle_members ms = [] \<longleftrightarrow> acyclic (dep_rel ms)"
  by (simp add: cycle_members_eq filter_empty_conv acyclic_iff_acc)

text \<open>What a game-day has to be, declaratively.\<close>

definition gameday_ok :: "gameday \<Rightarrow> bool" where
  "gameday_ok g = (gd_name g \<noteq> [] \<and> gd_timeout g \<noteq> 0 \<and> gd_max_parallel g \<ge> 0 \<and> gd_members g \<noteq> [] \<and>
     (\<forall>m \<in> set (gd_members g). gm_name m \<noteq> [] \<and> gm_config m \<noteq> []) \<and>
     well_shaped (gd_members g) \<and> acyclic (dep_rel (gd_members g)))"

lemma shape_problems_Nil:
  "fst (validate_members 0 ms Map.empty) = [] \<and>
      validate_dependencies 0 ms (snd (validate_members 0 ms Map.empty)) = [] \<longleftrightarrow>
   (\<forall>m \<in> set ms. gm_name m \<noteq> [] \<and> gm_config m \<noteq> []) \<and> well_shaped ms"
proof (cases "fst (validate_members 0 ms Map.empty) = []")
  case True
  then have v: "distinct (map gm_name ms)" "\<forall>m \<in> set ms. gm_name m \<noteq> [] \<and> gm_config m \<noteq> [] \<and>
        gm_name m \<notin> set (gm_depends_on m) \<and> distinct (gm_depends_on m)"
    by (simp_all add: validate_members_fst)
  then have "dom (snd (validate_members 0 ms Map.empty)) = gm_name ` set ms"
    by (subst validate_members_snd) auto
  then have "validate_dependencies 0 ms (snd (validate_members 0 ms Map.empty)) = [] \<longleftrightarrow>
      (\<forall>m \<in> set ms. \<forall>d \<in> set (gm_depends_on m). d \<in> gm_name ` set ms \<or> d = gm_name m)"
    by (simp only: validate_dependencies_Nil)
  with True v show ?thesis unfolding well_shaped_def by blast
next
  case False
  then show ?thesis by (auto simp: validate_members_fst well_shaped_def)
qed

lemma validate_gameday_cases:
  "validate_gameday g =
    (let p1 = (if gd_name g = [] then [GameDayNameRequired] else [])
            @ (if gd_timeout g = 0 then [GameDayTimeoutRequired] else [])
            @ (if gd_max_parallel g < 0 then [MaxParallelNegative] else []);
         vm = validate_members 0 (gd_members g) Map.empty;
         p = p1 @ fst vm @ validate_dependencies 0 (gd_members g) (snd vm)
     in if gd_members g = [] then p1 @ [MembersRequired]
        else if p \<noteq> [] then p
        else if cycle_members (gd_members g) = [] then [] else [DependencyCycle (cycle_members (gd_members g))])"
  by (simp add: validate_gameday_def Let_def split: prod.split)

lemma validate_gameday_Nil: "validate_gameday g = [] \<longleftrightarrow> gameday_ok g"
proof -
  let ?vm = "validate_members 0 (gd_members g) Map.empty"
  have "validate_gameday g = [] \<longleftrightarrow> gd_name g \<noteq> [] \<and> gd_timeout g \<noteq> 0 \<and> gd_max_parallel g \<ge> 0 \<and>
      gd_members g \<noteq> [] \<and> (fst ?vm = [] \<and> validate_dependencies 0 (gd_members g) (snd ?vm) = []) \<and>
      cycle_members (gd_members g) = []"
    by (auto simp: validate_gameday_cases Let_def)
  also have "\<dots> \<longleftrightarrow> gameday_ok g"
    unfolding shape_problems_Nil gameday_ok_def using cycle_members_Nil by blast
  finally show ?thesis .
qed

text \<open>C32: A game-day configuration passes validation exactly when it has a name, a timeout, a
non-negative parallelism and at least one member, every member has a name and a configuration,
names are unique, every dependency names another member once, and the dependency graph has no
cycle.\<close>

theorem gameday_validation_exact:
  "validate_gameday g = [] \<longleftrightarrow>
     gd_name g \<noteq> [] \<and> gd_timeout g \<noteq> 0 \<and> gd_max_parallel g \<ge> 0 \<and> gd_members g \<noteq> [] \<and>
     (\<forall>m \<in> set (gd_members g). gm_name m \<noteq> [] \<and> gm_config m \<noteq> []) \<and>
     well_shaped (gd_members g) \<and> acyclic (dep_rel (gd_members g))"
  by (simp add: validate_gameday_Nil gameday_ok_def)

text \<open>When names are unique and dependencies resolve, the members Kahn's algorithm reports are
exactly, in file order, those that sit on a dependency cycle or depend (directly or not) on a
member that does.\<close>

theorem cycle_report_exact:
  assumes "well_shaped ms"
  shows "cycle_members ms = filter (\<lambda>x. \<exists>c. (c, c) \<in> (dep_rel ms)\<^sup>+ \<and> (c, x) \<in> (dep_rel ms)\<^sup>*) (map gm_name ms)"
  using assms by (simp add: cycle_members_eq acc_no_cycle)

end
