(* ===== verification/GameDayProps.thy ===== *)
theory GameDayProps
  imports GameDayConfig
begin

text \<open>
  What the game-day scheduler guarantees for a validated configuration: the invariant \<open>gd_inv\<close>
  (each member is pending, in flight or finished, a member in flight has only passed dependencies),
  kept by each operation of the loop; progress (a pass that leaves nothing running leaves nothing
  pending, which is where the absence of cycles is used); and the independence of the outcomes from
  the schedule.
\<close>

abbreviation m_name :: "gameday \<Rightarrow> nat \<Rightarrow> bytes" where
  "m_name g i \<equiv> gm_name (gd_members g ! i)"

abbreviation m_deps :: "gameday \<Rightarrow> nat \<Rightarrow> bytes list" where
  "m_deps g i \<equiv> gm_depends_on (gd_members g ! i)"

abbreviation m_count :: "gameday \<Rightarrow> nat" where
  "m_count g \<equiv> length (gd_members g)"

lemma names_inject:
  assumes "gameday_ok g" "i < m_count g" "j < m_count g" "m_name g i = m_name g j"
  shows "i = j"
proof -
  have "distinct (map gm_name (gd_members g))" using assms(1) by (simp add: gameday_ok_def well_shaped_def)
  then show ?thesis using assms(2-4) nth_eq_iff_index_eq [of "map gm_name (gd_members g)" i j] by simp
qed

lemma deps_named:
  assumes "gameday_ok g" "i < m_count g" "d \<in> set (m_deps g i)"
  shows "\<exists>j < m_count g. d = m_name g j" "d \<noteq> []"
proof -
  have "gd_members g ! i \<in> set (gd_members g)" using assms(2) by simp
  with assms(1,3) have "d \<in> gm_name ` set (gd_members g)" by (auto simp: gameday_ok_def well_shaped_def)
  then show "\<exists>j < m_count g. d = m_name g j" by (auto simp: in_set_conv_nth)
  with assms(1) show "d \<noteq> []" by (auto simp: gameday_ok_def)
qed

lemma blocked_by_none:
  "[] \<notin> set ds \<Longrightarrow> fst (blocked_by ds outs) = [] \<longleftrightarrow> (\<forall>d \<in> set ds. \<forall>o'. outs d = Some o' \<longrightarrow> o' = outcome_pass)"
  by (induction ds) (auto split: option.split)

lemma blocked_by_some:
  "blocked_by ds outs = (d, o') \<Longrightarrow> d \<noteq> [] \<Longrightarrow> d \<in> set ds \<and> outs d = Some o' \<and> o' \<noteq> outcome_pass"
  by (induction ds) (auto split: option.splits if_splits)

subsection \<open>The invariant\<close>

definition has_run :: "gameday \<Rightarrow> (nat \<Rightarrow> drill_summary \<Rightarrow> bool) \<Rightarrow> run_state \<Rightarrow> nat \<Rightarrow> bool" where
  "has_run g ok s i \<longleftrightarrow> (\<exists>d. mr_drill (rs_results s ! i) = Some d \<and> mr_outcome (rs_results s ! i) = ds_outcome d \<and> ok i d) \<and>
     ready (gd_members g ! i) (rs_outcomes s)"

definition skipped :: "gameday \<Rightarrow> bool \<Rightarrow> run_state \<Rightarrow> nat \<Rightarrow> bool" where
  "skipped g can s i \<longleftrightarrow> mr_drill (rs_results s ! i) = None \<and> mr_outcome (rs_results s ! i) = outcome_skipped \<and>
     (can \<or> (\<exists>d \<in> set (m_deps g i). \<exists>o'. rs_outcomes s d = Some o' \<and> o' \<noteq> outcome_pass))"

definition member_ok :: "gameday \<Rightarrow> bool \<Rightarrow> (nat \<Rightarrow> drill_summary \<Rightarrow> bool) \<Rightarrow> run_state \<Rightarrow> nat \<Rightarrow> bool" where
  "member_ok g can ok s i \<longleftrightarrow>
     (if rs_pending s ! i then i \<notin> set (rs_flight s) \<and> rs_outcomes s (m_name g i) = None \<and> mr_drill (rs_results s ! i) = None
      else if i \<in> set (rs_flight s) then rs_outcomes s (m_name g i) = None \<and> mr_drill (rs_results s ! i) = None \<and>
        ready (gd_members g ! i) (rs_outcomes s)
      else rs_outcomes s (m_name g i) = Some (mr_outcome (rs_results s ! i)) \<and> (has_run g ok s i \<or> skipped g can s i))"

definition gd_inv :: "gameday \<Rightarrow> bool \<Rightarrow> (nat \<Rightarrow> drill_summary \<Rightarrow> bool) \<Rightarrow> int \<Rightarrow> run_state \<Rightarrow> bool" where
  "gd_inv g can ok extra s \<longleftrightarrow> length (rs_pending s) = m_count g \<and> length (rs_results s) = m_count g \<and>
     distinct (rs_flight s) \<and> set (rs_flight s) \<subseteq> {..<m_count g} \<and>
     rs_running s + extra = int (length (rs_flight s)) \<and> (\<forall>i < m_count g. member_ok g can ok s i)"

lemma ready_mono:
  "ready m outs \<Longrightarrow> outs x = None \<Longrightarrow> ready m (outs(x \<mapsto> v))"
  by (auto simp: ready_def list_all_iff)

lemma member_ok_other:
  assumes "member_ok g can ok s i" "i \<noteq> j" "m_name g i \<noteq> m_name g j" "rs_outcomes s (m_name g j) = None"
    and "rs_pending s' ! i = rs_pending s ! i" "i \<in> set (rs_flight s') \<longleftrightarrow> i \<in> set (rs_flight s)"
    and "rs_results s' ! i = rs_results s ! i" "rs_outcomes s' = (rs_outcomes s)(m_name g j \<mapsto> v)"
  shows "member_ok g can ok s' i"
  using assms ready_mono [of "gd_members g ! i" "rs_outcomes s" "m_name g j" v]
  by (fastforce simp: member_ok_def has_run_def skipped_def split: if_splits)

lemma mark_skipped_inv:
  assumes g: "gameday_ok g" and inv: "gd_inv g can ok e s" and j: "j < m_count g" "rs_pending s ! j"
    and why: "can \<or> (\<exists>d \<in> set (m_deps g j). \<exists>o'. rs_outcomes s d = Some o' \<and> o' \<noteq> outcome_pass)"
  shows "gd_inv g can ok e (mark_skipped g j reason s)"
proof -
  let ?s = "mark_skipped g j reason s"
  from inv j have jm: "j \<notin> set (rs_flight s)" "rs_outcomes s (m_name g j) = None" "mr_drill (rs_results s ! j) = None"
    and len: "length (rs_pending s) = m_count g" "length (rs_results s) = m_count g"
    by (auto simp: gd_inv_def member_ok_def)
  have "member_ok g can ok ?s i" if i: "i < m_count g" for i
  proof (cases "i = j")
    case True
    have sk: "\<exists>d \<in> set (m_deps g j). \<exists>o'. rs_outcomes ?s d = Some o' \<and> o' \<noteq> outcome_pass" if "\<not> can"
    proof -
      from that why obtain d o' where d: "d \<in> set (m_deps g j)" "rs_outcomes s d = Some o'" "o' \<noteq> outcome_pass" by blast
      with jm(2) have "d \<noteq> m_name g j" by auto
      with d show ?thesis by (intro bexI [of _ d]) (simp_all add: mark_skipped_def)
    qed
    then have "skipped g can ?s j" using j jm len by (auto simp: skipped_def) (auto simp: mark_skipped_def)
    with True j jm len show ?thesis by (simp add: member_ok_def) (simp add: mark_skipped_def)
  next
    case False
    with names_inject [OF g i j(1)] have n: "m_name g i \<noteq> m_name g j" by blast
    from inv i have "member_ok g can ok s i" by (simp add: gd_inv_def)
    from member_ok_other [OF this False n jm(2), of ?s outcome_skipped] False show ?thesis
      by (simp add: mark_skipped_def)
  qed
  then show ?thesis using inv by (simp add: gd_inv_def mark_skipped_def)
qed

lemma skip_one_inv:
  assumes "gameday_ok g" "gd_inv g can ok e (fst sc)" "i < m_count g"
  shows "gd_inv g can ok e (fst (skip_one g i sc))"
proof -
  obtain s b where sc: "sc = (s, b)" by (cases sc)
  obtain d o' where b: "blocked_by (m_deps g i) (rs_outcomes s) = (d, o')" by (cases "blocked_by (m_deps g i) (rs_outcomes s)")
  from blocked_by_some [OF b] assms sc b show ?thesis
    by (auto simp: skip_one_def intro!: mark_skipped_inv)
qed

lemma skip_fold_inv:
  "gameday_ok g \<Longrightarrow> \<forall>i \<in> set is. i < m_count g \<Longrightarrow> gd_inv g can ok e (fst sc) \<Longrightarrow>
    gd_inv g can ok e (fst (fold (skip_one g) is sc))"
proof (induction "is" arbitrary: sc)
  case (Cons i "is")
  then show ?case using skip_one_inv [of g can ok e sc i] by simp
qed simp

lemma skip_fold_unchanged:
  "fold (skip_one g) is (s, b) = (s', False) \<Longrightarrow>
    s' = s \<and> \<not> b \<and> (\<forall>i \<in> set is. rs_pending s ! i \<longrightarrow> fst (blocked_by (m_deps g i) (rs_outcomes s)) = [])"
proof (induction "is" arbitrary: s b)
  case (Cons i "is")
  obtain s1 b1 where 1: "skip_one g i (s, b) = (s1, b1)" by fastforce
  with Cons.IH [of s1 b1] Cons.prems have "s' = s1" "\<not> b1"
    "\<forall>i \<in> set is. rs_pending s1 ! i \<longrightarrow> fst (blocked_by (m_deps g i) (rs_outcomes s1)) = []" by auto
  with 1 show ?case by (auto simp: skip_one_def split: if_splits prod.splits)
qed simp

definition unblocked :: "gameday \<Rightarrow> run_state \<Rightarrow> bool" where
  "unblocked g s \<longleftrightarrow> (\<forall>i < m_count g. rs_pending s ! i \<longrightarrow>
     (\<forall>d \<in> set (m_deps g i). \<forall>o'. rs_outcomes s d = Some o' \<longrightarrow> o' = outcome_pass))"

lemma skip_blocked_inv:
  "gameday_ok g \<Longrightarrow> gd_inv g can ok e s \<Longrightarrow> gd_inv g can ok e (skip_blocked g s) \<and> unblocked g (skip_blocked g s)"
proof (induction g s rule: skip_blocked.induct)
  case (1 g s)
  obtain s' b where p: "skip_pass g s = (s', b)" by fastforce
  have len: "length (rs_pending s) = m_count g" using 1(3) by (simp add: gd_inv_def)
  have inv: "gd_inv g can ok e s'"
    using skip_fold_inv [OF 1(2), of "[0..<m_count g]" can ok e "(s, False)"] 1(3) p by (simp add: skip_pass_def)
  show ?case
  proof (cases b)
    case True
    with 1(1) [OF _ p [symmetric] refl True 1(2) inv] p len show ?thesis by (simp add: skip_blocked.simps [of g s])
  next
    case False
    with p have "fold (skip_one g) [0..<m_count g] (s, False) = (s', False)" by (simp add: skip_pass_def)
    from skip_fold_unchanged [OF this] have s': "s' = s"
      "\<forall>i < m_count g. rs_pending s ! i \<longrightarrow> fst (blocked_by (m_deps g i) (rs_outcomes s)) = []" by auto
    have "unblocked g s"
      unfolding unblocked_def
    proof (intro allI impI)
      fix i assume i: "i < m_count g" "rs_pending s ! i"
      have "[] \<notin> set (m_deps g i)" using deps_named(2) [OF 1(2) i(1)] by blast
      from blocked_by_none [OF this, of "rs_outcomes s"] s'(2) i
      show "\<forall>d \<in> set (m_deps g i). \<forall>o'. rs_outcomes s d = Some o' \<longrightarrow> o' = outcome_pass" by blast
    qed
    with False p len inv s' show ?thesis by (simp add: skip_blocked.simps [of g s])
  qed
qed

lemma skip_rest_inv:
  "gameday_ok g \<Longrightarrow> gd_inv g True ok e s \<Longrightarrow> \<forall>i \<in> set is. i < m_count g \<Longrightarrow>
    gd_inv g True ok e (fold (skip_rest_one g) is s) \<and>
    (\<forall>i < m_count g. rs_pending (fold (skip_rest_one g) is s) ! i \<longrightarrow> rs_pending s ! i \<and> i \<notin> set is)"
proof (induction "is" arbitrary: s)
  case (Cons i "is")
  have inv: "gd_inv g True ok e (skip_rest_one g i s)"
    using Cons.prems by (auto simp: skip_rest_one_def intro: mark_skipped_inv)
  have "rs_pending (skip_rest_one g i s) ! k \<longrightarrow> rs_pending s ! k \<and> k \<noteq> i" if "k < m_count g" for k
    using that Cons.prems by (auto simp: skip_rest_one_def mark_skipped_def gd_inv_def nth_list_update)
  with Cons.IH [OF Cons.prems(1) inv] Cons.prems(3) show ?case by fastforce
qed simp

lemma skip_remaining_inv:
  assumes "gameday_ok g" "gd_inv g True ok e s"
  shows "gd_inv g True ok e (skip_remaining g s) \<and> (\<forall>i < m_count g. \<not> rs_pending (skip_remaining g s) ! i)"
  using skip_rest_inv [OF assms, of "[0..<m_count g]"] by (auto simp: skip_remaining_def)

lemma finished_cong [simp]:
  "has_run g ok (s\<lparr> rs_pending := p, rs_flight := f \<rparr>) i = has_run g ok s i"
  "skipped g can (s\<lparr> rs_pending := p, rs_flight := f \<rparr>) i = skipped g can s i"
  by (simp_all add: has_run_def skipped_def)

lemma launch_one_inv:
  assumes g: "gameday_ok g" and inv: "gd_inv g can ok e s" and j: "j < m_count g" "rs_pending s ! j"
    and r: "ready (gd_members g ! j) (rs_outcomes s)"
  shows "gd_inv g can ok (e + 1) (s\<lparr> rs_pending := (rs_pending s)[j := False], rs_flight := rs_flight s @ [j] \<rparr>)"
  using assms by (auto simp: gd_inv_def member_ok_def nth_list_update)

lemma launch_ready_inv:
  "gameday_ok g \<Longrightarrow> gd_inv g can ok l s \<Longrightarrow> \<forall>i \<in> set is. i < m_count g \<Longrightarrow> launch_ready g slots is l s = (s', k) \<Longrightarrow>
    gd_inv g can ok k s' \<and> l \<le> k \<and> (l \<le> slots \<longrightarrow> k \<le> slots) \<and> rs_outcomes s' = rs_outcomes s \<and> rs_running s' = rs_running s \<and>
    rs_results s' = rs_results s \<and>
    (\<forall>i < m_count g. rs_pending s' ! i \<longrightarrow> rs_pending s ! i \<and>
      (k < slots \<and> i \<in> set is \<longrightarrow> \<not> ready (gd_members g ! i) (rs_outcomes s)))"
proof (induction "is" arbitrary: l s)
  case (Cons i "is")
  show ?case
  proof (cases "l \<ge> slots \<or> \<not> rs_pending s ! i \<or> \<not> ready (gd_members g ! i) (rs_outcomes s)")
    case True
    with Cons show ?thesis by (auto split: if_splits)
  next
    case False
    let ?s = "s\<lparr> rs_pending := (rs_pending s)[i := False], rs_flight := rs_flight s @ [i] \<rparr>"
    from False Cons.prems have eq: "launch_ready g slots is (l + 1) ?s = (s', k)" by simp
    have inv: "gd_inv g can ok (l + 1) ?s"
      using False Cons.prems by (intro launch_one_inv) auto
    have i: "i < m_count g" "length (rs_pending s) = m_count g" using Cons.prems by (auto simp: gd_inv_def)
    from Cons.IH [OF Cons.prems(1) inv _ eq] Cons.prems(3)
    have IH: "gd_inv g can ok k s'" "l + 1 \<le> k" "l + 1 \<le> slots \<longrightarrow> k \<le> slots" "rs_outcomes s' = rs_outcomes s"
      "rs_running s' = rs_running s" "rs_results s' = rs_results s"
      "\<forall>m < m_count g. rs_pending s' ! m \<longrightarrow> (rs_pending s)[i := False] ! m \<and>
        (k < slots \<and> m \<in> set is \<longrightarrow> \<not> ready (gd_members g ! m) (rs_outcomes s))" by auto
    have "rs_pending s' ! m \<longrightarrow> rs_pending s ! m \<and> (k < slots \<and> m \<in> set (i # is) \<longrightarrow> \<not> ready (gd_members g ! m) (rs_outcomes s))"
      if "m < m_count g" for m
      using IH(7) [rule_format, OF that] i that by (cases "m = i") auto
    with IH False show ?thesis by auto
  qed
qed auto

lemma launch_all_inv:
  assumes "gameday_ok g" "gd_inv g can ok 0 s" "launch_ready g slots [0..<m_count g] 0 s = (s', k)"
  shows "gd_inv g can ok k s'" "0 \<le> k" "0 \<le> slots \<longrightarrow> k \<le> slots" "rs_outcomes s' = rs_outcomes s" "rs_running s' = rs_running s"
    "rs_results s' = rs_results s"
    "\<forall>i < m_count g. rs_pending s' ! i \<longrightarrow> rs_pending s ! i \<and> (k < slots \<longrightarrow> \<not> ready (gd_members g ! i) (rs_outcomes s))"
  using launch_ready_inv [OF assms(1,2) _ assms(3)] by auto


lemma skip_one_keeps: "rs_running (fst (skip_one g i sc)) = rs_running (fst sc)"
  by (cases sc) (simp add: skip_one_def mark_skipped_def split: prod.split)

lemma skip_fold_keeps: "rs_running (fst (fold (skip_one g) is sc)) = rs_running (fst sc)"
  by (induction "is" arbitrary: sc) (simp_all add: skip_one_keeps)

lemma skip_blocked_keeps: "rs_running (skip_blocked g s) = rs_running s"
proof (induction g s rule: skip_blocked.induct)
  case (1 g s)
  obtain s' b where p: "skip_pass g s = (s', b)" by fastforce
  have k: "rs_running s' = rs_running s"
    using skip_fold_keeps [of g "[0..<m_count g]" "(s, False)"] p by (simp add: skip_pass_def)
  show ?case
  proof (cases "length (rs_pending s) = m_count g \<and> b")
    case True
    with 1 [OF _ p [symmetric] refl] p k show ?thesis by (simp add: skip_blocked.simps [of g s])
  next
    case False
    with p k show ?thesis by (auto simp: skip_blocked.simps [of g s])
  qed
qed

lemma skip_remaining_keeps: "rs_running (skip_remaining g s) = rs_running s"
proof -
  have "rs_running (fold (skip_rest_one g) is s) = rs_running s" for "is"
    by (induction "is" arbitrary: s) (simp_all add: skip_rest_one_def mark_skipped_def)
  then show ?thesis by (simp add: skip_remaining_def)
qed

lemma round_inv:
  assumes g: "gameday_ok g" and inv: "gd_inv g can ok 0 s" and c: "c \<longrightarrow> can" and r: "0 \<le> rs_running s" "rs_running s \<le> parallelism g"
  shows "gd_inv g can ok 0 (gd_round g c s)" "rs_running (gd_round g c s) \<le> parallelism g"
    "rs_running (gd_round g c s) = 0 \<Longrightarrow> i < m_count g \<Longrightarrow> rs_pending (gd_round g c s) ! i \<Longrightarrow>
       \<exists>j < m_count g. m_name g j \<in> set (m_deps g i) \<and> rs_pending (gd_round g c s) ! j"
proof -
  define s1 where "s1 = skip_blocked g s"
  define s2 where "s2 = (if c then skip_remaining g s1 else s1)"
  obtain s3 k where l: "launch_ready g (parallelism g - rs_running s2) [0..<m_count g] 0 s2 = (s3, k)" by fastforce
  from skip_blocked_inv [OF g inv] have i1: "gd_inv g can ok 0 s1" "unblocked g s1" by (simp_all add: s1_def)
  have i2: "gd_inv g can ok 0 s2" "\<forall>i < m_count g. rs_pending s2 ! i \<longrightarrow> s2 = s1"
    using i1 skip_remaining_inv [OF g, of ok 0 s1] c by (auto simp: s2_def)
  note run = i2(1) [unfolded gd_inv_def]
  note launched = launch_all_inv [OF g i2(1) l]
  let ?s = "s3\<lparr> rs_running := rs_running s3 + k \<rparr>"
  have eq: "gd_round g c s = ?s"
    unfolding gd_round_def Let_def s1_def [symmetric] s2_def [symmetric] l by simp
  have cong: "member_ok g can ok (s3\<lparr> rs_running := x \<rparr>) i = member_ok g can ok s3 i" for i x
    by (simp add: member_ok_def has_run_def skipped_def)
  show "gd_inv g can ok 0 (gd_round g c s)" using launched(1) by (simp add: eq gd_inv_def cong)
  have run2: "rs_running s2 = rs_running s"
    by (simp add: s2_def s1_def skip_blocked_keeps skip_remaining_keeps)
  have total: "rs_running (gd_round g c s) = rs_running s + k" using launched(5) run2 by (simp add: eq)
  then show "rs_running (gd_round g c s) \<le> parallelism g" using launched(3) r run2 by simp
  assume z: "rs_running (gd_round g c s) = 0" and i: "i < m_count g" "rs_pending (gd_round g c s) ! i"
  have k0: "k = 0" "rs_running s = 0" using z total r launched(2) by auto
  have par: "parallelism g > 0" by (simp add: parallelism_def)
  from i eq have p3: "rs_pending s3 ! i" by simp
  from launched(7) i(1) p3 k0 par run2 have p2: "rs_pending s2 ! i" "\<not> ready (gd_members g ! i) (rs_outcomes s2)" by auto
  with i2(2) i(1) i1(2) have "unblocked g s2" by auto
  with p2 i(1) obtain d where d: "d \<in> set (m_deps g i)" "rs_outcomes s2 d = None"
    by (fastforce simp: unblocked_def ready_def list_all_iff)
  from deps_named(1) [OF g i(1) d(1)] obtain j where j: "j < m_count g" "d = m_name g j" by blast
  have "rs_flight s3 = []" using launched(1,5) k0 run2 by (simp add: gd_inv_def)
  moreover have "member_ok g can ok s3 j" using launched(1) j(1) by (simp add: gd_inv_def)
  ultimately have "rs_pending s3 ! j" using d(2) j(2) launched(4) by (auto simp: member_ok_def split: if_splits)
  with d(1) j eq show "\<exists>j < m_count g. m_name g j \<in> set (m_deps g i) \<and> rs_pending (gd_round g c s) ! j" by auto
qed

lemma receive_inv:
  assumes g: "gameday_ok g" and inv: "gd_inv g can ok 0 s" and i: "i \<in> set (rs_flight s)" and d: "ok i d"
  shows "gd_inv g can ok 0 (receive g i d ms s)" "rs_running (receive g i d ms s) = rs_running s - 1"
proof -
  let ?s = "receive g i d ms s"
  note I = inv [unfolded gd_inv_def]
  from I i have n: "i < m_count g" by auto
  with I i have m: "\<not> rs_pending s ! i" "rs_outcomes s (m_name g i) = None" "ready (gd_members g ! i) (rs_outcomes s)"
    by (auto simp: member_ok_def split: if_splits)
  have fl: "set (remove1 i (rs_flight s)) = set (rs_flight s) - {i}" using I by simp
  have "member_ok g can ok ?s j" if j: "j < m_count g" for j
  proof (cases "j = i")
    case True
    have "ready (gd_members g ! i) (rs_outcomes ?s)" using m(2,3) by (simp add: receive_def ready_mono)
    with True n m I d fl show ?thesis by (simp add: member_ok_def has_run_def receive_def)
  next
    case False
    with names_inject [OF g j n] have nn: "m_name g j \<noteq> m_name g i" by blast
    from I j have "member_ok g can ok s j" by blast
    from member_ok_other [OF this False nn m(2), of ?s "ds_outcome d"] False fl show ?thesis
      by (simp add: receive_def)
  qed
  moreover have "int (length (remove1 i (rs_flight s))) = int (length (rs_flight s)) - 1"
    using i length_pos_if_in_set [OF i] by (simp add: length_remove1 int_ops(6))
  ultimately show "gd_inv g can ok 0 ?s" using I by (auto simp: gd_inv_def receive_def)
qed (simp add: receive_def)

lemma start_inv: "gd_inv g can ok 0 (run_start g)"
  by (simp add: gd_inv_def run_start_def member_ok_def)

lemma gd_reach_inv:
  assumes "gameday_ok g" "gd_reach g can ok k s"
  shows "gd_inv g can ok 0 s \<and> 0 \<le> rs_running s \<and> rs_running s \<le> parallelism g"
  using assms(2)
proof induction
  case (start c)
  have "0 \<le> rs_running (run_start g)" "rs_running (run_start g) \<le> parallelism g"
    by (simp_all add: run_start_def parallelism_def)
  from round_inv(1,2) [OF assms(1) start_inv start this] show ?case by (auto simp: gd_inv_def)
next
  case (step k s i d c ms)
  then have inv: "gd_inv g can ok 0 s" and r: "0 \<le> rs_running s" "rs_running s \<le> parallelism g" by auto
  note rc = receive_inv [OF assms(1) inv step(3,4), of ms]
  have "0 \<le> rs_running (receive g i d ms s)" using rc(1) by (auto simp: gd_inv_def)
  from round_inv(1,2) [OF assms(1) rc(1) step(5) this] rc(2) r show ?case by (auto simp: gd_inv_def)
qed

text \<open>When nothing runs any more, nothing is left pending: the graph has no cycle.\<close>

lemma no_pending_left:
  assumes "gameday_ok g" "\<And>i. i < m_count g \<Longrightarrow> rs_pending s ! i \<Longrightarrow>
    \<exists>j < m_count g. m_name g j \<in> set (m_deps g i) \<and> rs_pending s ! j"
  shows "i < m_count g \<Longrightarrow> \<not> rs_pending s ! i"
proof -
  have acc: "x \<in> Wellfounded.acc (dep_rel (gd_members g)) \<Longrightarrow> \<forall>i < m_count g. x = m_name g i \<longrightarrow> \<not> rs_pending s ! i" for x
  proof (induction rule: acc_induct_rule, goal_cases)
    case (1 x)
    show ?case
    proof (intro allI impI notI)
      fix i assume i: "i < m_count g" "x = m_name g i" "rs_pending s ! i"
      from assms(2) [OF i(1,3)] obtain j where j: "j < m_count g" "m_name g j \<in> set (m_deps g i)" "rs_pending s ! j" by blast
      have "gd_members g ! i \<in> set (gd_members g)" using i(1) by simp
      with i(2) j(2) have "(m_name g j, x) \<in> dep_rel (gd_members g)" by (auto simp: dep_rel_def)
      with 1(2) j show False by blast
    qed
  qed
  have "acyclic (dep_rel (gd_members g))" using assms(1) by (simp add: gameday_ok_def)
  then show "i < m_count g \<Longrightarrow> \<not> rs_pending s ! i"
    using acc by (metis acyclic_iff_acc nth_mem)
qed

lemma gd_reach_done:
  assumes "gameday_ok g" "gd_reach g can ok k s" "rs_running s = 0" "i < m_count g"
  shows "\<not> rs_pending s ! i"
proof -
  obtain c s0 where s: "s = gd_round g c s0" "gd_inv g can ok 0 s0" "c \<longrightarrow> can" "0 \<le> rs_running s0" "rs_running s0 \<le> parallelism g"
    using assms(2)
  proof (cases rule: gd_reach.cases)
    case (start c)
    then show ?thesis using that [of c "run_start g"] start_inv by (simp add: run_start_def parallelism_def)
  next
    case (step k' s' i' d c ms)
    note 2 = step
    from gd_reach_inv [OF assms(1) 2(3)] have inv: "gd_inv g can ok 0 s'" "rs_running s' \<le> parallelism g" by auto
    note rc = receive_inv [OF assms(1) inv(1) 2(5,6), of ms]
    with inv(2) have "0 \<le> rs_running (receive g i' d ms s')" "rs_running (receive g i' d ms s') \<le> parallelism g"
      by (auto simp: gd_inv_def)
    with that [of c "receive g i' d ms s'"] 2 rc(1) show ?thesis by simp
  qed
  from no_pending_left [OF assms(1), of s i] round_inv(3) [OF assms(1) s(2-5)] assms(3,4) s(1)
  show ?thesis by blast
qed

subsection \<open>The number of receives\<close>

definition drills :: "run_state \<Rightarrow> drill_summary option list" where
  "drills s = map mr_drill (rs_results s)"

lemma drills_mark [simp]: "drills (mark_skipped g i r s) = drills s"
proof (cases "i < length (rs_results s)")
  case True
  then show ?thesis by (simp add: drills_def mark_skipped_def map_update list_update_same_conv)
qed (simp add: drills_def mark_skipped_def list_update_beyond)

lemma drills_skip_fold: "drills (fst (fold (skip_one g) is sc)) = drills (fst sc)"
proof (induction "is" arbitrary: sc)
  case (Cons i "is")
  have "drills (fst (skip_one g i sc)) = drills (fst sc)"
    by (cases sc) (simp add: skip_one_def split: prod.split)
  with Cons show ?case by simp
qed simp

lemma drills_skip_blocked: "drills (skip_blocked g s) = drills s"
proof (induction g s rule: skip_blocked.induct)
  case (1 g s)
  obtain s' b where p: "skip_pass g s = (s', b)" by fastforce
  have k: "drills s' = drills s"
    using drills_skip_fold [of g "[0..<m_count g]" "(s, False)"] p by (simp add: skip_pass_def)
  show ?case
  proof (cases "length (rs_pending s) = m_count g \<and> b")
    case True
    with 1 [OF _ p [symmetric] refl] p k show ?thesis by (simp add: skip_blocked.simps [of g s])
  next
    case False
    with p k show ?thesis by (auto simp: skip_blocked.simps [of g s])
  qed
qed

lemma drills_skip_rest: "drills (fold (skip_rest_one g) is s) = drills s"
  by (induction "is" arbitrary: s) (simp_all add: skip_rest_one_def)

lemma drills_launch: "drills (fst (launch_ready g slots is l s)) = drills s"
proof (induction "is" arbitrary: l s)
  case (Cons i "is")
  then show ?case by (simp add: drills_def)
qed simp

lemma drills_running [simp]: "drills (s\<lparr> rs_running := x \<rparr>) = drills s"
  by (simp add: drills_def)

lemma drills_round: "drills (gd_round g c s) = drills s"
proof -
  define s2 where "s2 = (if c then skip_remaining g (skip_blocked g s) else skip_blocked g s)"
  have "drills s2 = drills s" by (simp add: s2_def drills_skip_blocked skip_remaining_def drills_skip_rest)
  then show ?thesis unfolding gd_round_def Let_def s2_def [symmetric] by (simp add: split_def drills_launch)
qed

lemma gd_reach_count:
  assumes "gameday_ok g" "gd_reach g can ok k s"
  shows "length (drills s) = m_count g \<and> card {i. i < m_count g \<and> drills s ! i \<noteq> None} = k"
  using assms(2)
proof induction
  case (start c)
  have "{i. i < m_count g \<and> drills (run_start g) ! i \<noteq> None} = {}" by (auto simp: drills_def run_start_def)
  then show ?case by (simp add: drills_round) (simp add: drills_def run_start_def)
next
  case (step k s i d c ms)
  have inv: "gd_inv g can ok 0 s" using gd_reach_inv [OF assms(1) step(1)] by simp
  with step(3) have i: "i < m_count g" "length (rs_results s) = m_count g" "member_ok g can ok s i" by (auto simp: gd_inv_def)
  with step(3) have none: "drills s ! i = None" by (auto simp: member_ok_def drills_def split: if_splits)
  have dr: "drills (receive g i d ms s) = (drills s)[i := Some d]"
    by (simp add: drills_def receive_def map_update)
  have "{j. j < m_count g \<and> (drills s)[i := Some d] ! j \<noteq> None} =
      insert i {j. j < m_count g \<and> drills s ! j \<noteq> None}"
    using i step(6) by (auto simp: nth_list_update)
  moreover have "i \<notin> {j. j < m_count g \<and> drills s ! j \<noteq> None}" using none by simp
  ultimately show ?case using step(6) by (simp add: drills_round dr)
qed


subsection \<open>The properties\<close>

text \<open>C33: In a validated game-day, at every moment at most \<^verbatim>\<open>Parallelism()\<close> members run, none twice, the
counter agrees with the goroutines in flight, and every member that runs or has run was started
only after each of its dependencies had finished with outcome \<^verbatim>\<open>pass\<close>.\<close>

theorem members_start_after_dependencies:
  assumes "validate_gameday g = []" "gd_reach g can ok k s"
  shows "rs_running s = int (length (rs_flight s)) \<and> rs_running s \<le> parallelism g \<and> distinct (rs_flight s) \<and>
    (\<forall>i < m_count g. i \<in> set (rs_flight s) \<or> mr_drill (rs_results s ! i) \<noteq> None \<longrightarrow>
       (\<forall>d \<in> set (m_deps g i). rs_outcomes s d = Some outcome_pass))"
proof -
  have g: "gameday_ok g" using assms(1) by (simp add: validate_gameday_Nil)
  from gd_reach_inv [OF g assms(2)] have inv: "gd_inv g can ok 0 s" "rs_running s \<le> parallelism g" by auto
  have "\<forall>d \<in> set (m_deps g i). rs_outcomes s d = Some outcome_pass"
    if i: "i < m_count g" "i \<in> set (rs_flight s) \<or> mr_drill (rs_results s ! i) \<noteq> None" for i
  proof -
    have "member_ok g can ok s i" using inv(1) i(1) by (simp add: gd_inv_def)
    with i(2) have "ready (gd_members g ! i) (rs_outcomes s)"
      by (auto simp: member_ok_def has_run_def skipped_def split: if_splits)
    then show ?thesis by (simp add: ready_def list_all_iff)
  qed
  with inv show ?thesis by (auto simp: gd_inv_def)
qed

lemma terminal_member:
  assumes "gameday_ok g" "gd_reach g can ok k s" "rs_running s = 0" "i < m_count g"
  shows "rs_outcomes s (m_name g i) = Some (mr_outcome (rs_results s ! i)) \<and> (has_run g ok s i \<or> skipped g can s i)"
proof -
  from gd_reach_inv [OF assms(1,2)] assms(3,4) have "member_ok g can ok s i" "rs_flight s = []" by (auto simp: gd_inv_def)
  with gd_reach_done [OF assms] show ?thesis by (simp add: member_ok_def)
qed

text \<open>C34: A validated game-day always comes to an end: there are at most as many receives as members,
while something runs there is a member to receive from, and once nothing runs every member has an
outcome, its own or \<^verbatim>\<open>skipped\<close> because the run was cancelled or a dependency did not pass.\<close>

theorem game_day_completes:
  assumes "validate_gameday g = []" "gd_reach g can ok k s"
  shows "k \<le> m_count g \<and> (rs_running s \<noteq> 0 \<longrightarrow> rs_flight s \<noteq> []) \<and>
    (rs_running s = 0 \<longrightarrow> (\<forall>i < m_count g. \<not> rs_pending s ! i \<and>
       ((\<exists>d. mr_drill (rs_results s ! i) = Some d \<and> mr_outcome (rs_results s ! i) = ds_outcome d) \<or>
        mr_outcome (rs_results s ! i) = outcome_skipped \<and>
          (can \<or> (\<exists>d \<in> set (m_deps g i). rs_outcomes s d \<noteq> Some outcome_pass)))))"
proof -
  have g: "gameday_ok g" using assms(1) by (simp add: validate_gameday_Nil)
  have "card {i. i < m_count g \<and> drills s ! i \<noteq> None} \<le> card {..<m_count g}"
    by (intro card_mono) auto
  then have "k \<le> m_count g" using gd_reach_count [OF g assms(2)] by simp
  moreover have "rs_running s \<noteq> 0 \<longrightarrow> rs_flight s \<noteq> []"
    using gd_reach_inv [OF g assms(2)] by (auto simp: gd_inv_def)
  moreover have "\<not> rs_pending s ! i \<and> ((\<exists>d. mr_drill (rs_results s ! i) = Some d \<and> mr_outcome (rs_results s ! i) = ds_outcome d) \<or>
        mr_outcome (rs_results s ! i) = outcome_skipped \<and> (can \<or> (\<exists>d \<in> set (m_deps g i). rs_outcomes s d \<noteq> Some outcome_pass)))"
    if "rs_running s = 0" "i < m_count g" for i
  proof -
    have "\<not> rs_pending s ! i" using gd_reach_done [OF g assms(2) that] by simp
    moreover have "has_run g ok s i \<or> skipped g can s i" using terminal_member [OF g assms(2) that] by simp
    ultimately show ?thesis by (fastforce simp: has_run_def skipped_def)
  qed
  ultimately show ?thesis by blast
qed

text \<open>The outcomes of a finished run solve an equation that has one solution.\<close>

lemma terminal_equation:
  assumes "gameday_ok g" "gd_reach g False (\<lambda>i d. ds_outcome d = f i) k s" "rs_running s = 0" "i < m_count g"
  shows "mr_outcome (rs_results s ! i) =
    (if \<forall>d \<in> set (m_deps g i). rs_outcomes s d = Some outcome_pass then f i else outcome_skipped)"
  using terminal_member [OF assms] by (auto simp: has_run_def skipped_def ready_def list_all_iff)

text \<open>C35: Without cancellation the outcome of every member is decided by what the drills report, not
by the schedule: two runs of the same members, with any parallelism and any order of completion,
end with the same outcomes.\<close>

theorem schedule_independent:
  assumes "validate_gameday g = []" "validate_gameday g' = []" "gd_members g' = gd_members g"
    and "gd_reach g False (\<lambda>i d. ds_outcome d = f i) k s" "rs_running s = 0"
    and "gd_reach g' False (\<lambda>i d. ds_outcome d = f i) k' s'" "rs_running s' = 0"
  shows "map mr_outcome (rs_results s') = map mr_outcome (rs_results s)"
proof -
  have g: "gameday_ok g" "gameday_ok g'" using assms(1,2) by (simp_all add: validate_gameday_Nil)
  note eq = terminal_equation [OF g(1) assms(4,5)] and eq' = terminal_equation [OF g(2) assms(6,7), unfolded assms(3)]
  note out = terminal_member [OF g(1) assms(4,5)] and out' = terminal_member [OF g(2) assms(6,7), unfolded assms(3)]
  have same: "x \<in> Wellfounded.acc (dep_rel (gd_members g)) \<Longrightarrow>
      \<forall>i < m_count g. x = m_name g i \<longrightarrow> mr_outcome (rs_results s' ! i) = mr_outcome (rs_results s ! i)" for x
  proof (induction rule: acc_induct_rule, goal_cases)
    case (1 x)
    show ?case
    proof (intro allI impI)
      fix i assume i: "i < m_count g" "x = m_name g i"
      have "rs_outcomes s' d = rs_outcomes s d" if d: "d \<in> set (m_deps g i)" for d
      proof -
        obtain j where j: "j < m_count g" "d = m_name g j" using deps_named(1) [OF g(1) i(1) d] by blast
        have "gd_members g ! i \<in> set (gd_members g)" using i(1) by simp
        with i(2) d have "(d, x) \<in> dep_rel (gd_members g)" by (auto simp: dep_rel_def)
        with 1(2) j have "mr_outcome (rs_results s' ! j) = mr_outcome (rs_results s ! j)" by blast
        with out [OF j(1)] out' [OF j(1)] j(2) show ?thesis by simp
      qed
      then show "mr_outcome (rs_results s' ! i) = mr_outcome (rs_results s ! i)"
        using eq [OF i(1)] eq' [OF i(1)] by simp
    qed
  qed
  have len: "length (rs_results s') = m_count g" "length (rs_results s) = m_count g"
    using gd_reach_inv [OF g(1) assms(4)] gd_reach_inv [OF g(2) assms(6)] assms(3) by (auto simp: gd_inv_def)
  have "acyclic (dep_rel (gd_members g))" using g(1) by (simp add: gameday_ok_def)
  then have "mr_outcome (rs_results s' ! i) = mr_outcome (rs_results s ! i)" if "i < m_count g" for i
    using same that by (metis acyclic_iff_acc nth_mem)
  with len show ?thesis by (intro nth_equalityI) auto
qed

text \<open>The verdict of a finished game-day: it is \<^verbatim>\<open>pass\<close> exactly when every member ran and passed,
\<^verbatim>\<open>fail\<close> only when some member's own drill reported \<^verbatim>\<open>fail\<close> (never because of a skip), and
\<^verbatim>\<open>error\<close> otherwise.\<close>

theorem overall_outcome_exact:
  assumes "validate_gameday g = []" "gd_reach g can ok k s" "rs_running s = 0"
  shows "overall_outcome (rs_results s) =
    (if \<forall>i < m_count g. \<exists>d. mr_drill (rs_results s ! i) = Some d \<and> ds_outcome d = outcome_pass then outcome_pass
     else if \<exists>i < m_count g. \<exists>d. mr_drill (rs_results s ! i) = Some d \<and> ds_outcome d = outcome_fail then outcome_fail
     else outcome_error)"
proof -
  have g: "gameday_ok g" using assms(1) by (simp add: validate_gameday_Nil)
  have len: "length (rs_results s) = m_count g" using gd_reach_inv [OF g assms(2)] by (simp add: gd_inv_def)
  have ne: "outcome_skipped \<noteq> outcome_pass" "outcome_skipped \<noteq> outcome_fail"
    by (simp_all add: outcome_skipped_def outcome_pass_def outcome_fail_def)
  have one: "mr_outcome (rs_results s ! i) = v \<longleftrightarrow> (\<exists>d. mr_drill (rs_results s ! i) = Some d \<and> ds_outcome d = v)"
    if "i < m_count g" "v \<noteq> outcome_skipped" for i v
  proof -
    have "has_run g ok s i \<or> skipped g can s i" using terminal_member [OF g assms(2,3) that(1)] by simp
    with that(2) show ?thesis by (auto simp: has_run_def skipped_def)
  qed
  have "list_all (\<lambda>r. mr_outcome r = outcome_pass) (rs_results s) \<longleftrightarrow>
      (\<forall>i < m_count g. \<exists>d. mr_drill (rs_results s ! i) = Some d \<and> ds_outcome d = outcome_pass)"
    using one [of _ outcome_pass] ne by (auto simp: list_all_length len)
  moreover have "list_ex (\<lambda>r. mr_outcome r = outcome_fail) (rs_results s) \<longleftrightarrow>
      (\<exists>i < m_count g. \<exists>d. mr_drill (rs_results s ! i) = Some d \<and> ds_outcome d = outcome_fail)"
    using one [of _ outcome_fail] ne by (auto simp: list_ex_length len)
  ultimately show ?thesis by (simp add: overall_outcome_def)
qed

end
