(* ===== verification/GameDayWitnesses.thy ===== *)
theory GameDayWitnesses
  imports GameDayProps
begin

text \<open>
  The properties of the game-day applied to concrete configurations: three members in a diamond
  with two slots, and two members that depend on each other.
\<close>

subsection \<open>Game-day configurations\<close>

definition loop_members :: "gd_member list" where
  "loop_members = [\<lparr> gm_name = ''a'', gm_config = ''a.yaml'', gm_depends_on = [''b''] \<rparr>,
     \<lparr> gm_name = ''b'', gm_config = ''b.yaml'', gm_depends_on = [''a''] \<rparr>]"

definition sample_day :: gameday where
  "sample_day = \<lparr> gd_name = ''dr'', gd_timeout = 60, gd_max_parallel = 2,
     gd_members = [\<lparr> gm_name = ''a'', gm_config = ''a.yaml'', gm_depends_on = [] \<rparr>,
       \<lparr> gm_name = ''b'', gm_config = ''b.yaml'', gm_depends_on = [''a''] \<rparr>,
       \<lparr> gm_name = ''c'', gm_config = ''c.yaml'', gm_depends_on = [''a'', ''b''] \<rparr>],
     gd_hash = [], gd_path = [] \<rparr>"

lemma sample_day_valid: "validate_gameday sample_day = []"
  by code_simp

theorem gameday_validation_exact_witness:
  "validate_gameday sample_day = [] \<and> acyclic (dep_rel (gd_members sample_day)) \<and> well_shaped (gd_members sample_day)"
  using gameday_validation_exact [of sample_day] sample_day_valid by blast

theorem cycle_report_exact_witness:
  "filter (\<lambda>x. \<exists>c. (c, c) \<in> (dep_rel loop_members)\<^sup>+ \<and> (c, x) \<in> (dep_rel loop_members)\<^sup>*) (map gm_name loop_members) = [''a'', ''b'']"
proof -
  have w: "well_shaped loop_members" by (simp add: well_shaped_def loop_members_def)
  have "cycle_members loop_members = [''a'', ''b'']" by code_simp
  then show ?thesis unfolding cycle_report_exact [OF w] .
qed

subsection \<open>A run of the scheduler\<close>

definition drill_with :: "bytes \<Rightarrow> drill_summary" where
  "drill_with outcome = \<lparr> ds_outcome = outcome, ds_seq = 1, ds_evidence_path = [], ds_checks_passed = 0,
     ds_checks_total = 0, ds_restore_ms = None, ds_total_ms = None, ds_error_code = [] \<rparr>"

text \<open>Member \<open>a\<close> passes, \<open>b\<close> fails, so \<open>c\<close> is skipped.\<close>

definition reported :: "nat \<Rightarrow> bytes" where
  "reported i = (if i = 0 then outcome_pass else outcome_fail)"

definition day0 :: run_state where "day0 = gd_round sample_day False (run_start sample_day)"
definition day1 :: run_state where "day1 = gd_round sample_day False (receive sample_day 0 (drill_with outcome_pass) 5 day0)"
definition day2 :: run_state where "day2 = gd_round sample_day False (receive sample_day 1 (drill_with outcome_fail) 7 day1)"

lemma day_steps:
  "rs_running day0 \<noteq> 0" "0 \<in> set (rs_flight day0)" "rs_running day1 \<noteq> 0" "1 \<in> set (rs_flight day1)" "rs_running day2 = 0"
  by code_simp+

lemma day0_reach: "gd_reach sample_day False (\<lambda>i d. ds_outcome d = reported i) 0 day0"
  unfolding day0_def by (rule gd_reach.start) simp

lemma day1_reach: "gd_reach sample_day False (\<lambda>i d. ds_outcome d = reported i) (Suc 0) day1"
  unfolding day1_def
  by (rule gd_reach.step [OF day0_reach day_steps(1,2)]) (simp_all add: drill_with_def reported_def)

lemma day2_reach: "gd_reach sample_day False (\<lambda>i d. ds_outcome d = reported i) (Suc (Suc 0)) day2"
  unfolding day2_def
  by (rule gd_reach.step [OF day1_reach day_steps(3,4)]) (simp_all add: drill_with_def reported_def)

theorem members_start_after_dependencies_witness:
  "rs_flight day1 = [1] \<and> rs_outcomes day1 ''a'' = Some outcome_pass"
proof -
  have f: "rs_flight day1 = [1]" by code_simp
  have d: "''a'' \<in> set (m_deps sample_day 1)" "1 < m_count sample_day" by (simp_all add: sample_day_def)
  have "\<forall>d \<in> set (m_deps sample_day 1). rs_outcomes day1 d = Some outcome_pass"
    using members_start_after_dependencies [OF sample_day_valid day1_reach] d(2) f by simp
  with d(1) f show ?thesis by blast
qed

theorem game_day_completes_witness:
  "rs_running day2 = 0 \<and> \<not> rs_pending day2 ! 2 \<and> Suc (Suc 0) \<le> m_count sample_day"
proof -
  have "2 < m_count sample_day" by (simp add: sample_day_def)
  with game_day_completes [OF sample_day_valid day2_reach] day_steps(5) show ?thesis by blast
qed

definition serial_day :: gameday where
  "serial_day = sample_day\<lparr> gd_max_parallel := 1 \<rparr>"

definition serial0 :: run_state where "serial0 = gd_round serial_day False (run_start serial_day)"
definition serial1 :: run_state where "serial1 = gd_round serial_day False (receive serial_day 0 (drill_with outcome_pass) 5 serial0)"
definition serial2 :: run_state where "serial2 = gd_round serial_day False (receive serial_day 1 (drill_with outcome_fail) 7 serial1)"

lemma serial_steps:
  "validate_gameday serial_day = []" "rs_running serial0 \<noteq> 0" "0 \<in> set (rs_flight serial0)" "rs_running serial1 \<noteq> 0"
  "1 \<in> set (rs_flight serial1)" "rs_running serial2 = 0"
  by code_simp+

lemma serial2_reach: "gd_reach serial_day False (\<lambda>i d. ds_outcome d = reported i) (Suc (Suc 0)) serial2"
proof -
  have 0: "gd_reach serial_day False (\<lambda>i d. ds_outcome d = reported i) 0 serial0"
    unfolding serial0_def by (rule gd_reach.start) simp
  have 1: "gd_reach serial_day False (\<lambda>i d. ds_outcome d = reported i) (Suc 0) serial1"
    unfolding serial1_def
    by (rule gd_reach.step [OF 0 serial_steps(2,3)]) (simp_all add: drill_with_def reported_def)
  show ?thesis unfolding serial2_def
    by (rule gd_reach.step [OF 1 serial_steps(4,5)]) (simp_all add: drill_with_def reported_def)
qed

theorem schedule_independent_witness:
  "map mr_outcome (rs_results serial2) = map mr_outcome (rs_results day2) \<and>
   map mr_outcome (rs_results day2) = [outcome_pass, outcome_fail, outcome_skipped]"
proof -
  have m: "gd_members serial_day = gd_members sample_day" by (simp add: serial_day_def)
  have "map mr_outcome (rs_results day2) = [outcome_pass, outcome_fail, outcome_skipped]" by code_simp
  with schedule_independent [OF sample_day_valid serial_steps(1) m day2_reach day_steps(5) serial2_reach serial_steps(6)]
  show ?thesis by simp
qed

theorem overall_outcome_exact_witness: "overall_outcome (rs_results day2) = outcome_fail"
proof -
  have "mr_drill (rs_results day2 ! 1) = Some (drill_with outcome_fail)" "mr_drill (rs_results day2 ! 2) = None" by code_simp+
  moreover have "1 < m_count sample_day" "2 < m_count sample_day" by (simp_all add: sample_day_def)
  moreover have "ds_outcome (drill_with outcome_fail) = outcome_fail" by (simp add: drill_with_def)
  ultimately have
    "\<not> (\<forall>i < m_count sample_day. \<exists>d. mr_drill (rs_results day2 ! i) = Some d \<and> ds_outcome d = outcome_pass)"
    "\<exists>i < m_count sample_day. \<exists>d. mr_drill (rs_results day2 ! i) = Some d \<and> ds_outcome d = outcome_fail"
    by (metis option.distinct(1), blast)
  then show ?thesis
    unfolding overall_outcome_exact [OF sample_day_valid day2_reach day_steps(5)] by (simp only: if_not_P if_P if_False if_True)
qed

end
