(* ===== verification/BackupManifest.thy ===== *)
theory BackupManifest
  imports Decode
begin

text \<open>
  \<^verbatim>\<open>internal/manifest/manifest.go\<close> with \<^verbatim>\<open>internal/config/identifier.go\<close>: reading a backup
  manifest, validating it, measuring the artifact it describes (a file, or a tree in the canonical
  framing) and comparing the two. The file system is a parameter: what the operating system answers
  to each call. An operating-system error is \<open>NotExist\<close> or \<open>OsError\<close> with its text. Messages are
  kept as data, with the values they quote.
\<close>

subsection \<open>Identifiers (\<^verbatim>\<open>internal/config/identifier.go\<close>)\<close>

definition ident_start :: "char \<Rightarrow> bool" where
  "ident_start c \<longleftrightarrow> 65 \<le> code c \<and> code c \<le> 90 \<or> 97 \<le> code c \<and> code c \<le> 122 \<or> c = CHR ''_''"

definition identifier_part :: "bytes \<Rightarrow> bool" where
  "identifier_part s = (case s of [] \<Rightarrow> False | c # t \<Rightarrow> ident_start c \<and> list_all (\<lambda>d. ident_start d \<or> is_digit d) t)"

definition max_identifier_parts :: nat where "max_identifier_parts = 2"

datatype ident_error = TooManyParts bytes | BadIdentifier bytes

definition identifier_parts :: "bytes \<Rightarrow> ident_error + bytes list" where
  "identifier_parts name =
    (let parts = split_char (CHR ''.'') name
     in if length parts > max_identifier_parts then Inl (TooManyParts name)
        else if \<not> list_all identifier_part parts then Inl (BadIdentifier name)
        else Inr parts)"

subsection \<open>The manifest\<close>

definition manifest_schema_id :: bytes where "manifest_schema_id = ''probavi-manifest/2''"
definition manifest_schema_id_v1 :: bytes where "manifest_schema_id_v1 = ''probavi-manifest/1''"

definition manifest_schema_ids :: "bytes list" where
  "manifest_schema_ids = [manifest_schema_id, manifest_schema_id_v1]"

record expectation =
  ex_rows :: "int option"
  ex_rows_min :: "int option"
  ex_rows_max :: "int option"

record backup_manifest =
  mf_schema :: bytes
  mf_expected_checksum :: bytes
  mf_expected_size :: "int option"
  mf_created_at :: bytes
  mf_engine_version :: bytes
  mf_baseline :: "(bytes \<times> expectation) list option"

text \<open>\<open>None\<close> is the panic of dereferencing a nil bound.\<close>

definition satisfied :: "expectation \<Rightarrow> int \<Rightarrow> bool option" where
  "satisfied e n =
    (case ex_rows e of Some r \<Rightarrow> Some (n = r)
     | None \<Rightarrow> (case ex_rows_min e of None \<Rightarrow> None
       | Some lo \<Rightarrow> if n < lo then Some False
           else (case ex_rows_max e of None \<Rightarrow> None | Some hi \<Rightarrow> Some (n \<le> hi))))"

definition en_dash :: bytes where
  "en_dash = [CHR 0xE2, CHR 0x80, CHR 0x93]"

definition expectation_string :: "expectation \<Rightarrow> bytes option" where
  "expectation_string e =
    (case ex_rows e of Some r \<Rightarrow> Some (show_int r)
     | None \<Rightarrow> (case (ex_rows_min e, ex_rows_max e) of
          (Some lo, Some hi) \<Rightarrow> Some (show_int lo @ en_dash @ show_int hi) | _ \<Rightarrow> None))"

subsection \<open>Faults\<close>

datatype fault_message =
    ManifestNotFound bytes | ManifestUnreadable bytes bytes | NotADocument bytes | MoreThanOneDocument bytes
  | NoSchema bytes | UnknownSchema bytes bytes | AssertsNothing bytes | BadChecksum bytes bytes | NegativeSize bytes int
  | BaselineInV1 bytes | EmptyBaseline bytes | BadTable bytes bytes | BothForms bytes bytes | NoForm bytes bytes
  | NegativeRows bytes int bytes | OneBound bytes bytes | NegativeBound bytes bytes int int | InvertedBounds bytes int int bytes
  | SourceNotFound bytes | SourceUnreadable bytes bytes | NeitherFileNorTree bytes bytes | NoRegularFile bytes
  | TreeUnwalkable bytes bytes | FileUnreadable bytes bytes | LinkUnreadable bytes bytes
  | ManifestMismatch bytes bytes bytes bytes

record fault =
  fault_code :: bytes
  fault_message :: fault_message

definition code_invalid_request :: bytes where "code_invalid_request = ''invalid_request''"
definition code_source_not_found :: bytes where "code_source_not_found = ''source_not_found''"
definition code_source_unreadable :: bytes where "code_source_unreadable = ''source_unreadable''"
definition code_source_corrupt :: bytes where "code_source_corrupt = ''source_corrupt''"

definition invalid_request :: "fault_message \<Rightarrow> fault" where
  "invalid_request m = \<lparr> fault_code = code_invalid_request, fault_message = m \<rparr>"

subsection \<open>Validation\<close>

definition validate_expectation :: "bytes \<Rightarrow> bytes \<Rightarrow> expectation \<Rightarrow> fault option" where
  "validate_expectation path table e =
    (case identifier_parts table of Inl err \<Rightarrow> Some (invalid_request (BadTable path table))
     | Inr parts \<Rightarrow>
       let exact = ex_rows e \<noteq> None; ranged = ex_rows_min e \<noteq> None \<or> ex_rows_max e \<noteq> None in
       if exact \<and> ranged then Some (invalid_request (BothForms path table))
       else if \<not> exact \<and> \<not> ranged then Some (invalid_request (NoForm path table))
       else (case ex_rows e of
           Some r \<Rightarrow> if r < 0 then Some (invalid_request (NegativeRows path r table)) else None
         | None \<Rightarrow> (case (ex_rows_min e, ex_rows_max e) of
             (Some lo, Some hi) \<Rightarrow>
               if lo < 0 \<or> hi < 0 then Some (invalid_request (NegativeBound path table lo hi))
               else if lo > hi then Some (invalid_request (InvertedBounds path lo hi table)) else None
           | _ \<Rightarrow> Some (invalid_request (OneBound path table)))))"

fun first_fault :: "('a \<Rightarrow> fault option) \<Rightarrow> 'a list \<Rightarrow> fault option" where
  "first_fault f [] = None"
| "first_fault f (x # xs) = (case f x of Some e \<Rightarrow> Some e | None \<Rightarrow> first_fault f xs)"

definition validate_baseline :: "bytes \<Rightarrow> backup_manifest \<Rightarrow> fault option" where
  "validate_baseline path m =
    (case mf_baseline m of None \<Rightarrow> None
     | Some b \<Rightarrow>
       if mf_schema m = manifest_schema_id_v1 then Some (invalid_request (BaselineInV1 path))
       else if b = [] then Some (invalid_request (EmptyBaseline path))
       else first_fault (\<lambda>(table, e). validate_expectation path table e) (isort (by_key less_bytes) b))"

definition validate_manifest :: "bytes \<Rightarrow> backup_manifest \<Rightarrow> fault option" where
  "validate_manifest path m =
    (if mf_schema m = [] then Some (invalid_request (NoSchema path))
     else if mf_schema m \<notin> set manifest_schema_ids then Some (invalid_request (UnknownSchema path (mf_schema m)))
     else if mf_expected_checksum m = [] \<and> mf_expected_size m = None then Some (invalid_request (AssertsNothing path))
     else if mf_expected_checksum m \<noteq> [] \<and> \<not> sha256_ref (mf_expected_checksum m)
       then Some (invalid_request (BadChecksum path (mf_expected_checksum m)))
     else (case mf_expected_size m of
         Some n \<Rightarrow> if n < 0 then Some (invalid_request (NegativeSize path n)) else validate_baseline path m
       | None \<Rightarrow> validate_baseline path m))"

subsection \<open>Decoding with \<^verbatim>\<open>DisallowUnknownFields\<close>\<close>

definition expectation_names :: "bytes list" where
  "expectation_names = [''rows'', ''rows_min'', ''rows_max'']"

definition manifest_names :: "bytes list" where
  "manifest_names = [''schema'', ''expected_checksum'', ''expected_size_bytes'', ''created_at'', ''engine_version'', ''baseline'']"

definition int_value :: "json \<Rightarrow> bool" where
  "int_value v = (case v of JNull \<Rightarrow> True | JNum n \<Rightarrow> parse_int64 n \<noteq> None | _ \<Rightarrow> False)"

definition str_value :: "json \<Rightarrow> bool" where
  "str_value v = (case v of JNull \<Rightarrow> True | JStr s \<Rightarrow> True | _ \<Rightarrow> False)"

definition expectation_value :: "json \<Rightarrow> bool" where
  "expectation_value v = (case v of JNull \<Rightarrow> True
     | JObj ms \<Rightarrow> list_all (\<lambda>(k, w). field_name expectation_names k \<noteq> None \<and> int_value w) ms | _ \<Rightarrow> False)"

definition baseline_value :: "json \<Rightarrow> bool" where
  "baseline_value v = (case v of JNull \<Rightarrow> True | JObj ms \<Rightarrow> list_all (\<lambda>(k, w). expectation_value w) ms | _ \<Rightarrow> False)"

definition manifest_member :: "bytes \<times> json \<Rightarrow> bool" where
  "manifest_member = (\<lambda>(k, v). case field_name manifest_names k of None \<Rightarrow> False
     | Some f \<Rightarrow> if f = ''expected_size_bytes'' then int_value v
         else if f = ''baseline'' then baseline_value v else str_value v)"

text \<open>A pointer to an integer: null makes it nil.\<close>

definition int_pointer :: "json \<Rightarrow> int option" where
  "int_pointer v = (case v of JNum n \<Rightarrow> parse_int64 n | _ \<Rightarrow> None)"

definition zero_expectation :: expectation where
  "zero_expectation = \<lparr> ex_rows = None, ex_rows_min = None, ex_rows_max = None \<rparr>"

definition put_expectation :: "bytes \<times> json \<Rightarrow> expectation \<Rightarrow> expectation" where
  "put_expectation = (\<lambda>(k, v) e. let f = field_name expectation_names k in
     if f = Some ''rows'' then e\<lparr> ex_rows := int_pointer v \<rparr>
     else if f = Some ''rows_min'' then e\<lparr> ex_rows_min := int_pointer v \<rparr>
     else e\<lparr> ex_rows_max := int_pointer v \<rparr>)"

definition read_expectation :: "json \<Rightarrow> expectation" where
  "read_expectation v = (case v of JObj ms \<Rightarrow> fold put_expectation ms zero_expectation | _ \<Rightarrow> zero_expectation)"

definition read_baseline :: "json \<Rightarrow> (bytes \<times> expectation) list option \<Rightarrow> (bytes \<times> expectation) list option" where
  "read_baseline v old = (case v of
     JObj ms \<Rightarrow> Some (fold (\<lambda>(k, w). AList.update k (read_expectation w)) ms (case old of None \<Rightarrow> [] | Some b \<Rightarrow> b))
   | _ \<Rightarrow> None)"

definition put_manifest :: "bytes \<times> json \<Rightarrow> backup_manifest \<Rightarrow> backup_manifest" where
  "put_manifest = (\<lambda>(k, v) m. let f = field_name manifest_names k in
     if f = Some ''schema'' then m\<lparr> mf_schema := set_str v (mf_schema m) \<rparr>
     else if f = Some ''expected_checksum'' then m\<lparr> mf_expected_checksum := set_str v (mf_expected_checksum m) \<rparr>
     else if f = Some ''expected_size_bytes'' then m\<lparr> mf_expected_size := int_pointer v \<rparr>
     else if f = Some ''created_at'' then m\<lparr> mf_created_at := set_str v (mf_created_at m) \<rparr>
     else if f = Some ''engine_version'' then m\<lparr> mf_engine_version := set_str v (mf_engine_version m) \<rparr>
     else m\<lparr> mf_baseline := read_baseline v (mf_baseline m) \<rparr>)"

definition zero_manifest :: backup_manifest where
  "zero_manifest = \<lparr> mf_schema = [], mf_expected_checksum = [], mf_expected_size = None, mf_created_at = [],
     mf_engine_version = [], mf_baseline = None \<rparr>"

definition decode_manifest :: "json \<Rightarrow> backup_manifest option" where
  "decode_manifest v = (case v of JNull \<Rightarrow> Some zero_manifest
     | JObj ms \<Rightarrow> if list_all manifest_member ms then Some (fold put_manifest ms zero_manifest) else None
     | _ \<Rightarrow> None)"

subsection \<open>The file system\<close>

datatype os_error = NotExist bytes | OsError bytes

datatype file_mode = RegularFile | Directory | Symlink | OtherMode bytes

record file_info =
  fi_mode :: file_mode
  fi_size :: int

text \<open>
  \<open>fs_walk\<close> gives what \<^verbatim>\<open>filepath.WalkDir\<close> visits below a root, directories left out, as
  slash-separated relative paths with their types, in the order of the walk. \<open>fs_read\<close> is opening a
  file and reading it to its end.
\<close>

record file_system =
  fs_read :: "bytes \<Rightarrow> os_error + bytes"
  fs_stat :: "bytes \<Rightarrow> os_error + file_info"
  fs_lstat :: "bytes \<Rightarrow> os_error + file_info"
  fs_readlink :: "bytes \<Rightarrow> os_error + bytes"
  fs_walk :: "bytes \<Rightarrow> os_error + (bytes \<times> file_mode) list"
  fs_join :: "bytes \<Rightarrow> bytes \<Rightarrow> bytes"

definition reason_text :: "os_error \<Rightarrow> bytes" where
  "reason_text e = (case e of NotExist s \<Rightarrow> s | OsError s \<Rightarrow> s)"

definition unreadable :: "fault_message \<Rightarrow> fault" where
  "unreadable m = \<lparr> fault_code = code_source_unreadable, fault_message = m \<rparr>"

definition read_manifest :: "file_system \<Rightarrow> bytes \<Rightarrow> fault + backup_manifest \<times> bytes" where
  "read_manifest fs path =
    (case fs_read fs path of
       Inl (NotExist s) \<Rightarrow> Inl (invalid_request (ManifestNotFound path))
     | Inl (OsError s) \<Rightarrow> Inl (invalid_request (ManifestUnreadable path s))
     | Inr raw \<Rightarrow>
       (case decode_first raw of None \<Rightarrow> Inl (invalid_request (NotADocument path))
        | Some (v, again) \<Rightarrow>
          (case decode_manifest v of None \<Rightarrow> Inl (invalid_request (NotADocument path))
           | Some m \<Rightarrow> if again then Inl (invalid_request (MoreThanOneDocument path))
               else (case validate_manifest path m of Some e \<Rightarrow> Inl e | None \<Rightarrow> Inr (m, raw)))))"

subsection \<open>Measuring\<close>

record measurement =
  ms_checksum :: bytes
  ms_size :: int

definition digest_of :: "crypto \<Rightarrow> bytes \<Rightarrow> bytes" where
  "digest_of C raw = ''sha256:'' @ hex_encode (sha256 C raw)"

definition lstat_file :: "file_system \<Rightarrow> bytes \<Rightarrow> fault + file_info" where
  "lstat_file fs path = (case fs_lstat fs path of Inl e \<Rightarrow> Inl (unreadable (FileUnreadable path (reason_text e)))
     | Inr i \<Rightarrow> Inr i)"

definition hash_file :: "file_system \<Rightarrow> bytes \<Rightarrow> fault + bytes" where
  "hash_file fs path = (case fs_read fs path of Inl e \<Rightarrow> Inl (unreadable (FileUnreadable path (reason_text e)))
     | Inr b \<Rightarrow> Inr b)"

definition measure_file :: "crypto \<Rightarrow> file_system \<Rightarrow> bytes \<Rightarrow> file_info \<Rightarrow> bool \<Rightarrow> fault + measurement" where
  "measure_file C fs path info want =
    (if \<not> want then Inr \<lparr> ms_checksum = [], ms_size = fi_size info \<rparr>
     else andthen (hash_file fs path) (\<lambda>b. Inr \<lparr> ms_checksum = digest_of C b, ms_size = int (length b) \<rparr>))"

definition tree_entries :: "file_system \<Rightarrow> bytes \<Rightarrow> fault + bytes list \<times> nat" where
  "tree_entries fs root =
    (case fs_walk fs root of Inl e \<Rightarrow> Inl (unreadable (TreeUnwalkable root (reason_text e)))
     | Inr es \<Rightarrow> Inr (map fst (filter (\<lambda>(p, t). t = RegularFile \<or> t = Symlink) es),
         length (filter (\<lambda>(p, t). t = RegularFile) es)))"

text \<open>The hash is written to as the entries are met; its input so far is \<open>h\<close>.\<close>

fun tree_digest :: "file_system \<Rightarrow> bytes \<Rightarrow> bytes list \<Rightarrow> bytes \<Rightarrow> int \<Rightarrow> fault + bytes \<times> int" where
  "tree_digest fs root [] h acc = Inr (h, acc)"
| "tree_digest fs root (rel # rels) h acc =
    (let full = fs_join fs root rel in
     andthen (lstat_file fs full) (\<lambda>info.
       if fi_mode info = Symlink
       then (case fs_readlink fs full of Inl e \<Rightarrow> Inl (unreadable (LinkUnreadable full (reason_text e)))
             | Inr target \<Rightarrow> tree_digest fs root rels (h @ rel @ CHR 0x00 # CHR ''L'' # target @ [CHR 0x00]) acc)
       else andthen (hash_file fs full) (\<lambda>b.
         tree_digest fs root rels (h @ rel @ CHR 0x00 # show_int (fi_size info) @ CHR 0x00 # b) (acc + int (length b)))))"

fun tree_size :: "file_system \<Rightarrow> bytes \<Rightarrow> bytes list \<Rightarrow> int \<Rightarrow> fault + measurement" where
  "tree_size fs root [] acc = Inr \<lparr> ms_checksum = [], ms_size = acc \<rparr>"
| "tree_size fs root (rel # rels) acc =
    andthen (lstat_file fs (fs_join fs root rel)) (\<lambda>info.
      tree_size fs root rels (if fi_mode info \<noteq> Symlink then acc + fi_size info else acc))"

definition measure_tree :: "crypto \<Rightarrow> file_system \<Rightarrow> bytes \<Rightarrow> bool \<Rightarrow> fault + measurement" where
  "measure_tree C fs root want =
    andthen (tree_entries fs root) (\<lambda>(rels, regular).
      if regular = 0 then Inl \<lparr> fault_code = code_source_not_found, fault_message = NoRegularFile root \<rparr>
      else if \<not> want then tree_size fs root (isort less_bytes rels) 0
      else andthen (tree_digest fs root (isort less_bytes rels) [] 0) (\<lambda>(h, acc).
        Inr \<lparr> ms_checksum = digest_of C h, ms_size = acc \<rparr>))"

definition measure_source :: "crypto \<Rightarrow> file_system \<Rightarrow> bytes \<Rightarrow> bool \<Rightarrow> fault + measurement" where
  "measure_source C fs path want =
    (case fs_stat fs path of
       Inl (NotExist s) \<Rightarrow> Inl \<lparr> fault_code = code_source_not_found, fault_message = SourceNotFound path \<rparr>
     | Inl (OsError s) \<Rightarrow> Inl (unreadable (SourceUnreadable path s))
     | Inr info \<Rightarrow> (case fi_mode info of RegularFile \<Rightarrow> measure_file C fs path info want
         | Directory \<Rightarrow> measure_tree C fs path want
         | Symlink \<Rightarrow> Inl (unreadable (NeitherFileNorTree path ''L---------''))
         | OtherMode t \<Rightarrow> Inl (unreadable (NeitherFileNorTree path t))))"

subsection \<open>The verdict\<close>

definition describe_measurement :: "measurement \<Rightarrow> backup_manifest \<Rightarrow> bytes" where
  "describe_measurement v m =
    (let parts = (if mf_expected_checksum m \<noteq> [] then [ms_checksum v] else [])
           @ (if mf_expected_size m \<noteq> None then [show_int (ms_size v) @ '' bytes''] else [])
     in case parts of [a, b] \<Rightarrow> a @ '' ('' @ b @ '')'' | _ \<Rightarrow> concat parts)"

definition compare_measurement :: "bytes \<Rightarrow> bytes \<Rightarrow> backup_manifest \<Rightarrow> measurement \<Rightarrow> fault option" where
  "compare_measurement source path m got =
    (let checksum_bad = mf_expected_checksum m \<noteq> [] \<and> ms_checksum got \<noteq> mf_expected_checksum m;
         size_bad = (case mf_expected_size m of None \<Rightarrow> False | Some n \<Rightarrow> ms_size got \<noteq> n)
     in if \<not> checksum_bad \<and> \<not> size_bad then None
        else let want = \<lparr> ms_checksum = mf_expected_checksum m,
               ms_size = (case mf_expected_size m of None \<Rightarrow> 0 | Some n \<Rightarrow> n) \<rparr>
          in Some \<lparr> fault_code = code_source_corrupt,
               fault_message = ManifestMismatch source (describe_measurement got m) path (describe_measurement want m) \<rparr>)"

record manifest_result =
  mr_hash :: "bytes option"
  mr_match :: "bool option"
  mr_baseline :: "(bytes \<times> expectation) list option"

definition check_manifest :: "crypto \<Rightarrow> file_system \<Rightarrow> bytes \<Rightarrow> bytes \<Rightarrow> manifest_result \<times> fault option" where
  "check_manifest C fs source path =
    (case read_manifest fs path of
       Inl e \<Rightarrow> (\<lparr> mr_hash = None, mr_match = None, mr_baseline = None \<rparr>, Some e)
     | Inr (m, raw) \<Rightarrow>
       (case measure_source C fs source (mf_expected_checksum m \<noteq> []) of
          Inl e \<Rightarrow> (\<lparr> mr_hash = Some (digest_of C raw), mr_match = None, mr_baseline = mf_baseline m \<rparr>, Some e)
        | Inr got \<Rightarrow>
          (let e = compare_measurement source path m got
           in (\<lparr> mr_hash = Some (digest_of C raw), mr_match = Some (e = None), mr_baseline = mf_baseline m \<rparr>, e))))"

end
