(* ===== verification/ManifestProps.thy ===== *)
theory ManifestProps
  imports BackupManifest
begin

text \<open>
  Properties of the backup manifest check: the framing of a directory tree can be read back, so
  equal tree checksums mean equal trees (up to an explicit SHA-256 collision); the order of the
  directory walk does not matter; the verdict and the error code say exactly what was compared; and
  an accepted baseline can be reconciled without a missing bound.
\<close>

subsection \<open>The framing of a tree\<close>

datatype tree_item = LinkTo bytes | FileOf bytes

definition frame :: "bytes \<times> tree_item \<Rightarrow> bytes" where
  "frame = (\<lambda>(rel, item). case item of
     LinkTo target \<Rightarrow> rel @ CHR 0x00 # CHR ''L'' # target @ [CHR 0x00]
   | FileOf b \<Rightarrow> rel @ CHR 0x00 # show_int (int (length b)) @ CHR 0x00 # b)"

definition nul_free :: "bytes \<times> tree_item \<Rightarrow> bool" where
  "nul_free = (\<lambda>(rel, item). CHR 0x00 \<notin> set rel \<and> (case item of LinkTo t \<Rightarrow> CHR 0x00 \<notin> set t | FileOf b \<Rightarrow> True))"

lemma cut_point:
  fixes sep :: char
  assumes "b @ sep # a = b' @ sep # a'" "sep \<notin> set b" "sep \<notin> set b'"
  shows "b = b' \<and> a = a'"
  using arg_cong [OF assms(1), of "cut sep"] assms(2,3) by (simp add: cut_notin)

lemma show_int_inject: "show_int (int m) = show_int (int n) \<longleftrightarrow> m = n"
proof -
  have "show_nat m = show_nat n \<Longrightarrow> m = n" by (metis digits_val_show_nat)
  then show ?thesis by (auto simp: show_int_def)
qed

lemma show_size: "CHR 0x00 \<notin> set (show_int (int n))" "\<exists>c ds. show_int (int n) = c # ds \<and> c \<noteq> CHR ''L''"
proof -
  have d: "list_all is_digit (show_nat n)" by (rule show_nat_digits)
  then show "CHR 0x00 \<notin> set (show_int (int n))" by (auto simp: show_int_def list_all_iff is_digit_def)
  from d show "\<exists>c ds. show_int (int n) = c # ds \<and> c \<noteq> CHR ''L''"
    by (cases "show_nat n") (auto simp: show_int_def is_digit_def)
qed

lemma frame_inject:
  assumes "frame p @ s = frame q @ t" "nul_free p" "nul_free q"
  shows "p = q \<and> s = t"
proof -
  obtain r i r' i' where p: "p = (r, i)" and q: "q = (r', i')" by (cases p; cases q) auto
  note free = assms(2,3) [unfolded nul_free_def p q prod.case]
  show ?thesis
  proof (cases i)
    case (LinkTo a)
    show ?thesis
    proof (cases i')
      case (LinkTo b)
      from assms(1) have "r @ CHR 0x00 # (CHR ''L'' # a @ CHR 0x00 # s) = r' @ CHR 0x00 # (CHR ''L'' # b @ CHR 0x00 # t)"
        by (simp add: frame_def p q LinkTo \<open>i = LinkTo a\<close>)
      from cut_point [OF this] free have "r = r'" "a @ CHR 0x00 # s = b @ CHR 0x00 # t" by auto
      with cut_point [OF this(2)] free LinkTo \<open>i = LinkTo a\<close> show ?thesis by (simp add: p q)
    next
      case (FileOf b)
      from assms(1) have "r @ CHR 0x00 # (CHR ''L'' # a @ CHR 0x00 # s) = r' @ CHR 0x00 # (show_int (int (length b)) @ CHR 0x00 # b @ t)"
        by (simp add: frame_def p q LinkTo FileOf)
      from cut_point [OF this] free have "CHR ''L'' # a @ CHR 0x00 # s = show_int (int (length b)) @ CHR 0x00 # b @ t" by auto
      with show_size(2) [of "length b"] show ?thesis by auto
    qed
  next
    case (FileOf a)
    show ?thesis
    proof (cases i')
      case (LinkTo b)
      from assms(1) have "r @ CHR 0x00 # (show_int (int (length a)) @ CHR 0x00 # a @ s) = r' @ CHR 0x00 # (CHR ''L'' # b @ CHR 0x00 # t)"
        by (simp add: frame_def p q LinkTo FileOf)
      from cut_point [OF this] free have "show_int (int (length a)) @ CHR 0x00 # a @ s = CHR ''L'' # b @ CHR 0x00 # t" by auto
      with show_size(2) [of "length a"] show ?thesis by auto
    next
      case (FileOf b)
      from assms(1) have "r @ CHR 0x00 # (show_int (int (length a)) @ CHR 0x00 # a @ s) =
          r' @ CHR 0x00 # (show_int (int (length b)) @ CHR 0x00 # b @ t)"
        by (simp add: frame_def p q FileOf \<open>i = FileOf a\<close>)
      from cut_point [OF this] free have "r = r'"
        and "show_int (int (length a)) @ CHR 0x00 # a @ s = show_int (int (length b)) @ CHR 0x00 # b @ t" by auto
      with cut_point [OF this(2)] show_size(1) have "length a = length b" "a @ s = b @ t"
        by (auto simp: show_int_inject)
      with \<open>r = r'\<close> FileOf \<open>i = FileOf a\<close> show ?thesis by (simp add: p q)
    qed
  qed
qed

definition framing :: "(bytes \<times> tree_item) list \<Rightarrow> bytes" where
  "framing items = concat (map frame items)"

lemma frame_nonempty [simp]: "frame p \<noteq> []"
  by (auto simp: frame_def split: prod.splits tree_item.splits)

lemma frames_inject:
  "framing ps = framing qs \<Longrightarrow> list_all nul_free ps \<Longrightarrow> list_all nul_free qs \<Longrightarrow> ps = qs"
proof (induction ps arbitrary: qs)
  case Nil
  then show ?case by (cases qs) (auto simp: framing_def)
next
  case (Cons p ps)
  then obtain q qs' where qs: "qs = q # qs'" by (cases qs) (auto simp: framing_def)
  from Cons.prems have "frame p @ framing ps = frame q @ framing qs'" by (simp add: qs framing_def)
  with frame_inject Cons.prems have "p = q" "framing ps = framing qs'"
    by (auto simp: qs)
  with Cons show ?case by (simp add: qs)
qed

subsection \<open>What a tree holds\<close>

definition item_at :: "file_system \<Rightarrow> bytes \<Rightarrow> bytes \<Rightarrow> fault + tree_item" where
  "item_at fs root rel =
    (let full = fs_join fs root rel in
     andthen (lstat_file fs full) (\<lambda>info.
       if fi_mode info = Symlink
       then (case fs_readlink fs full of Inl e \<Rightarrow> Inl (unreadable (LinkUnreadable full (reason_text e)))
             | Inr target \<Rightarrow> Inr (LinkTo target))
       else map_sum (\<lambda>e. e) FileOf (hash_file fs full)))"

definition tree_contents :: "file_system \<Rightarrow> bytes \<Rightarrow> fault + (bytes \<times> tree_item) list" where
  "tree_contents fs root =
    andthen (tree_entries fs root) (\<lambda>(rels, regular).
      sequence (map (\<lambda>rel. map_sum (\<lambda>e. e) (Pair rel) (item_at fs root rel)) (isort less_bytes rels)))"

text \<open>Nothing below the root is written to while it is read, and a path is a C string.\<close>

definition still :: "file_system \<Rightarrow> bool" where
  "still fs \<longleftrightarrow> (\<forall>p info b. fs_lstat fs p = Inr info \<longrightarrow> fs_read fs p = Inr b \<longrightarrow> fi_mode info \<noteq> Symlink \<longrightarrow>
     fi_size info = int (length b))"

definition item_size :: "tree_item \<Rightarrow> int" where
  "item_size i = (case i of LinkTo t \<Rightarrow> 0 | FileOf b \<Rightarrow> int (length b))"

lemma tree_digest_frames:
  assumes "still fs" "tree_digest fs root rels h n = Inr (h', n')"
  shows "\<exists>items. sequence (map (\<lambda>rel. map_sum (\<lambda>e. e) (Pair rel) (item_at fs root rel)) rels) = Inr items \<and>
    h' = h @ framing items \<and> n' = n + sum_list (map (item_size \<circ> snd) items)"
  using assms(2)
proof (induction rels arbitrary: h n)
  case Nil
  then show ?case by (simp add: framing_def)
next
  case (Cons rel rels)
  let ?full = "fs_join fs root rel"
  from Cons.prems obtain info where info: "lstat_file fs ?full = Inr info"
    by (auto simp: Let_def andthen_Inr)
  show ?case
  proof (cases "fi_mode info = Symlink")
    case True
    with Cons.prems info obtain target where t: "fs_readlink fs ?full = Inr target"
      and rest: "tree_digest fs root rels (h @ frame (rel, LinkTo target)) n = Inr (h', n')"
      by (auto simp: Let_def frame_def split: sum.splits)
    from True info t have "item_at fs root rel = Inr (LinkTo target)" by (simp add: item_at_def)
    with Cons.IH [OF rest] show ?thesis by (auto simp: item_size_def framing_def)
  next
    case False
    with Cons.prems info obtain b where b: "hash_file fs ?full = Inr b"
      and rest: "tree_digest fs root rels (h @ rel @ CHR 0x00 # show_int (fi_size info) @ CHR 0x00 # b) (n + int (length b)) = Inr (h', n')"
      by (auto simp: Let_def andthen_Inr)
    from info b assms(1) False have "fi_size info = int (length b)"
      by (auto simp: still_def lstat_file_def hash_file_def split: sum.splits)
    then have "rel @ CHR 0x00 # show_int (fi_size info) @ CHR 0x00 # b = frame (rel, FileOf b)" by (simp add: frame_def)
    with rest have "tree_digest fs root rels (h @ frame (rel, FileOf b)) (n + int (length b)) = Inr (h', n')" by simp
    from Cons.IH [OF this] False info b show ?thesis by (auto simp: item_at_def item_size_def framing_def)
  qed
qed

lemma measure_tree_contents:
  assumes "still fs" "measure_tree C fs root True = Inr m"
  obtains items where "tree_contents fs root = Inr items"
    "ms_checksum m = digest_of C (framing items)"
    "ms_size m = sum_list (map (item_size \<circ> snd) items)"
proof -
  from assms(2) obtain rels regular h n where e: "tree_entries fs root = Inr (rels, regular)"
    and d: "tree_digest fs root (isort less_bytes rels) [] 0 = Inr (h, n)"
    and m: "m = \<lparr> ms_checksum = digest_of C h, ms_size = n \<rparr>"
    by (auto simp: measure_tree_def andthen_Inr split: if_splits)
  from tree_digest_frames [OF assms(1) d] that e m show ?thesis by (auto simp: tree_contents_def)
qed


subsection \<open>The order of the walk\<close>

lemma walk_only [simp]:
  "lstat_file (fs\<lparr> fs_walk := w \<rparr>) p = lstat_file fs p" "hash_file (fs\<lparr> fs_walk := w \<rparr>) p = hash_file fs p"
  by (simp_all add: lstat_file_def hash_file_def)

lemma tree_digest_walk [simp]: "tree_digest (fs\<lparr> fs_walk := w \<rparr>) root rels h n = tree_digest fs root rels h n"
  by (induction fs root rels h n rule: tree_digest.induct)
    (auto simp: Let_def fun_eq_iff split: sum.splits intro!: arg_cong2 [where f = andthen])

lemma tree_size_walk [simp]: "tree_size (fs\<lparr> fs_walk := w \<rparr>) root rels n = tree_size fs root rels n"
  by (induction fs root rels n rule: tree_size.induct) (simp add: fun_eq_iff)+

lemma tree_entries_walk:
  assumes "fs_walk fs root = Inr es" "mset es = mset es'" "distinct (map fst es)"
  obtains rels rels' regular where "tree_entries fs root = Inr (rels, regular)"
    "tree_entries (fs\<lparr> fs_walk := \<lambda>_. Inr es' \<rparr>) root = Inr (rels', regular)"
    "isort less_bytes rels = isort less_bytes rels'"
proof -
  let ?p = "\<lambda>(p :: bytes, t). t = RegularFile \<or> t = Symlink" and ?r = "\<lambda>(p :: bytes, t). t = RegularFile"
  from assms(2) have m: "mset (map fst (filter ?p es)) = mset (map fst (filter ?p es'))"
    and "mset (filter ?r es) = mset (filter ?r es')" by simp_all
  moreover have d: "distinct (map fst (filter ?p es))" by (rule distinct_map_filter [OF assms(3)])
  then have "distinct (map fst (filter ?p es'))" using mset_eq_imp_distinct_iff [OF m] by simp
  moreover have "set (map fst (filter ?p es)) = set (map fst (filter ?p es'))" by (rule mset_eq_setD [OF m])
  ultimately have "isort less_bytes (map fst (filter ?p es)) = isort less_bytes (map fst (filter ?p es'))"
    and "length (filter ?r es) = length (filter ?r es')"
    using bytord.isort_unique [OF d] mset_eq_length by blast+
  with that assms(1) show ?thesis by (simp add: tree_entries_def)
qed

text \<open>
  the measurement of a tree does not depend on the order in which the directory walk meets the
  entries (which is not byte order, and differs between file systems): only on which entries there
  are. The walk visits each path once.
\<close>

theorem walk_order_irrelevant:
  assumes "fs_walk fs root = Inr es" "distinct (map fst es)" "mset es = mset es'"
  shows "measure_tree C (fs\<lparr> fs_walk := \<lambda>_. Inr es' \<rparr>) root want = measure_tree C fs root want"
proof -
  from tree_entries_walk [OF assms(1,3,2)] obtain rels rels' regular where
    "tree_entries fs root = Inr (rels, regular)"
    "tree_entries (fs\<lparr> fs_walk := \<lambda>_. Inr es' \<rparr>) root = Inr (rels', regular)"
    "isort less_bytes rels = isort less_bytes rels'" .
  then show ?thesis by (simp add: measure_tree_def)
qed

subsection \<open>Verdict and error code\<close>

named_theorems fault_codes
declare code_invalid_request_def [fault_codes] code_source_not_found_def [fault_codes]
  code_source_unreadable_def [fault_codes] code_source_corrupt_def [fault_codes]
  invalid_request_def [fault_codes] unreadable_def [fault_codes]

definition measuring_code :: "fault \<Rightarrow> bool" where
  "measuring_code e \<longleftrightarrow> fault_code e = code_source_not_found \<or> fault_code e = code_source_unreadable"

lemma first_fault_code: "first_fault f xs = Some e \<Longrightarrow> (\<And>x e. f x = Some e \<Longrightarrow> P e) \<Longrightarrow> P e"
  by (induction xs) (auto split: option.splits)

lemma expectation_fault: "validate_expectation path table ex = Some e \<Longrightarrow> fault_code e = code_invalid_request"
  by (auto simp: validate_expectation_def Let_def invalid_request_def split: sum.splits option.splits if_splits)

lemma baseline_fault: "validate_baseline path m = Some e \<Longrightarrow> fault_code e = code_invalid_request"
  by (auto simp: validate_baseline_def invalid_request_def expectation_fault split: option.splits if_splits
      elim!: first_fault_code)

lemma validate_fault: "validate_manifest path m = Some e \<Longrightarrow> fault_code e = code_invalid_request"
  by (auto simp: validate_manifest_def invalid_request_def baseline_fault split: option.splits if_splits)

lemma read_fault: "read_manifest fs path = Inl e \<Longrightarrow> fault_code e = code_invalid_request"
  by (auto simp: read_manifest_def invalid_request_def validate_fault
      split: sum.splits os_error.splits option.splits if_splits)

lemma digest_fault: "tree_digest fs root rels h n = Inl e \<Longrightarrow> measuring_code e"
  by (induction rels arbitrary: h n)
    (auto simp: Let_def measuring_code_def unreadable_def lstat_file_def hash_file_def split: sum.splits if_splits)

lemma size_fault: "tree_size fs root rels n = Inl e \<Longrightarrow> measuring_code e"
  by (induction rels arbitrary: n)
    (auto simp: measuring_code_def unreadable_def lstat_file_def split: sum.splits)

lemma measure_fault: "measure_source C fs path want = Inl e \<Longrightarrow> measuring_code e"
  unfolding measure_source_def measure_file_def measure_tree_def tree_entries_def hash_file_def
  by (auto simp: andthen_Inl measuring_code_def unreadable_def
      dest!: digest_fault size_fault split: sum.splits os_error.splits file_mode.splits if_splits)

lemma distinct_codes:
  "code_invalid_request \<noteq> code_source_not_found" "code_invalid_request \<noteq> code_source_unreadable"
  "code_invalid_request \<noteq> code_source_corrupt" "code_source_corrupt \<noteq> code_source_not_found"
  "code_source_corrupt \<noteq> code_source_unreadable"
  by (simp_all add: fault_codes)

lemma compare_cases:
  "compare_measurement source path m got = None \<longleftrightarrow>
     (mf_expected_checksum m \<noteq> [] \<longrightarrow> ms_checksum got = mf_expected_checksum m) \<and>
     (\<forall>n. mf_expected_size m = Some n \<longrightarrow> ms_size got = n)"
  "compare_measurement source path m got = Some e \<Longrightarrow> fault_code e = code_source_corrupt"
  by (auto simp: compare_measurement_def Let_def split: option.splits if_splits)

text \<open>
  C30: what the result of a backup manifest check means. If the manifest cannot be read or is not valid, the fault is that of the reading, with the
  code invalid_request, and the record names no manifest. Otherwise the record names the hash of the manifest's bytes; if the artifact cannot
  be measured, the fault is that of the measuring, source_not_found or source_unreadable, and no
  verdict is recorded; if it is measured, the recorded verdict says whether the checksum and the size that the manifest asserts are the measured ones,
  there is no fault if they are, and the fault is source_corrupt if one of them is not. So each of these codes is given in its own case only.
\<close>

theorem manifest_verdict_exact:
  "case check_manifest C fs source path of (r, f) \<Rightarrow>
    (case read_manifest fs path of
       Inl e \<Rightarrow> f = Some e \<and> fault_code e = code_invalid_request \<and> mr_hash r = None \<and> mr_match r = None \<and> mr_baseline r = None
     | Inr (m, raw) \<Rightarrow> mr_hash r = Some (digest_of C raw) \<and> mr_baseline r = mf_baseline m \<and>
        (case measure_source C fs source (mf_expected_checksum m \<noteq> []) of
           Inl e \<Rightarrow> f = Some e \<and> fault_code e \<in> {code_source_not_found, code_source_unreadable} \<and> mr_match r = None
         | Inr got \<Rightarrow>
            let agreed = mf_expected_checksum m \<in> {[], ms_checksum got} \<and> mf_expected_size m \<in> {None, Some (ms_size got)}
            in mr_match r = Some agreed \<and> (if agreed then f = None else \<exists>e. f = Some e \<and> fault_code e = code_source_corrupt)))"
proof (cases "read_manifest fs path")
  case (Inl e)
  then show ?thesis using read_fault [OF Inl] by (simp add: check_manifest_def)
next
  case (Inr p)
  obtain m raw where p: "p = (m, raw)" by (cases p)
  show ?thesis
  proof (cases "measure_source C fs source (mf_expected_checksum m \<noteq> [])")
    case Failed: (Inl e)
    then show ?thesis using measure_fault [OF Failed] Inr by (auto simp: check_manifest_def p measuring_code_def)
  next
    case Measured: (Inr got)
    have "compare_measurement source path m got = None \<longleftrightarrow>
        mf_expected_checksum m \<in> {[], ms_checksum got} \<and> mf_expected_size m \<in> {None, Some (ms_size got)}"
      by (cases "mf_expected_size m") (auto simp: compare_cases(1))
    with Measured Inr compare_cases(2) [of source path m got] show ?thesis
      by (cases "compare_measurement source path m got") (simp_all add: check_manifest_def p Let_def)
  qed
qed

lemma read_manifest_valid:
  "read_manifest fs path = Inr (m, raw) \<Longrightarrow> fs_read fs path = Inr raw \<and> validate_manifest path m = None"
  by (auto simp: read_manifest_def split: sum.splits os_error.splits option.splits if_splits)

text \<open>
  A manifest that matched says something about the artifact. If the check ends without a fault,
  then the file was read, it asserts a checksum or a size, the artifact was measured, and every
  value it asserts is the measured one; the recorded hash is of the bytes of that file.
\<close>

theorem matched_manifest_holds:
  assumes "check_manifest C fs source path = (r, None)"
  shows "\<exists>m raw got. read_manifest fs path = Inr (m, raw) \<and> fs_read fs path = Inr raw \<and> mr_hash r = Some (digest_of C raw) \<and>
     measure_source C fs source (mf_expected_checksum m \<noteq> []) = Inr got \<and>
     (mf_expected_checksum m \<noteq> [] \<or> mf_expected_size m \<noteq> None) \<and>
     mf_expected_checksum m \<in> {[], ms_checksum got} \<and> mf_expected_size m \<in> {None, Some (ms_size got)}"
proof -
  from assms obtain m raw got where r: "read_manifest fs path = Inr (m, raw)"
    and g: "measure_source C fs source (mf_expected_checksum m \<noteq> []) = Inr got"
    and c: "compare_measurement source path m got = None" and h: "mr_hash r = Some (digest_of C raw)"
    by (auto simp: check_manifest_def Let_def split: sum.splits)
  from read_manifest_valid [OF r] have "mf_expected_checksum m \<noteq> [] \<or> mf_expected_size m \<noteq> None"
    and raw: "fs_read fs path = Inr raw" by (auto simp: validate_manifest_def split: if_splits)
  moreover from c have "mf_expected_checksum m \<in> {[], ms_checksum got}" "mf_expected_size m \<in> {None, Some (ms_size got)}"
    by (auto simp: compare_cases(1)) (cases "mf_expected_size m", auto)
  ultimately show ?thesis using r g h by (intro exI [of _ m] exI [of _ raw] exI [of _ got]) simp
qed

subsection \<open>Accepted baselines\<close>

lemma first_fault_None: "first_fault f xs = None \<longleftrightarrow> (\<forall>x \<in> set xs. f x = None)"
  by (induction xs) (auto split: option.splits)

lemma expectation_accepted:
  "validate_expectation path table e = None \<longleftrightarrow> is_ok (identifier_parts table) \<and>
     ((\<exists>n. e = \<lparr> ex_rows = Some n, ex_rows_min = None, ex_rows_max = None \<rparr> \<and> 0 \<le> n) \<or>
      (\<exists>lo hi. e = \<lparr> ex_rows = None, ex_rows_min = Some lo, ex_rows_max = Some hi \<rparr> \<and> 0 \<le> lo \<and> lo \<le> hi))"
  by (cases e) (auto simp: validate_expectation_def Let_def split: sum.splits option.splits if_splits)

lemma baseline_accepted:
  assumes "validate_manifest path m = None" "mf_baseline m = Some b" "(table, e) \<in> set b"
  shows "validate_expectation path table e = None" "mf_schema m = manifest_schema_id"
  using assms by (auto simp: validate_manifest_def validate_baseline_def manifest_schema_ids_def first_fault_None
      split: if_splits option.splits)

text \<open>
  A baseline that was accepted can be reconciled. For every table of the baseline of a manifest
  that was read, the table is an identifier a check can name, counting its rows gives a verdict
  (neither bound is a nil pointer that Satisfied or String would dereference), the expectation prints,
  and some number of rows satisfies it; baselines exist only in version 2.
\<close>

theorem accepted_baseline_usable:
  assumes "read_manifest fs path = Inr (m, raw)" "mf_baseline m = Some b" "(table, e) \<in> set b"
  shows "is_ok (identifier_parts table) \<and> satisfied e n \<noteq> None \<and> expectation_string e \<noteq> None \<and>
     (\<exists>k \<ge> 0. satisfied e k = Some True) \<and> mf_schema m = manifest_schema_id"
proof -
  from read_manifest_valid [OF assms(1)] have v: "validate_manifest path m = None" by simp
  note a = baseline_accepted [OF v assms(2,3)]
  from a(1) have "is_ok (identifier_parts table)" by (simp add: expectation_accepted)
  moreover from a(1) have "satisfied e n \<noteq> None \<and> expectation_string e \<noteq> None \<and> (\<exists>k \<ge> 0. satisfied e k = Some True)"
    unfolding expectation_accepted
    by (elim conjE disjE exE) (auto simp: satisfied_def expectation_string_def)
  ultimately show ?thesis using a(2) by blast
qed

end
