(* ===== verification/ManifestWitnesses.thy ===== *)
theory ManifestWitnesses
  imports ManifestProps Sample
begin

text \<open>
  The properties of the backup manifest check applied to a directory of two files and a link, and
  to a manifest that states its size and a baseline.
\<close>

definition sample_walk :: "(bytes \<times> file_mode) list" where
  "sample_walk = [(''a/b'', RegularFile), (''a.txt'', RegularFile), (''link'', Symlink)]"

definition sample_doc :: json where
  "sample_doc = JObj [(''schema'', JStr manifest_schema_id), (''expected_size_bytes'', JNum ''3''),
     (''baseline'', JObj [(''s.t'', JObj [(''rows_min'', JNum ''0''), (''rows_max'', JNum ''2'')])])]"

definition sample_manifest :: bytes where
  "sample_manifest = render quote_runes sample_doc"

definition sample_mode :: "bytes \<Rightarrow> file_mode" where
  "sample_mode p = (if p = ''/d'' then Directory else if p = ''/d/link'' \<or> p = ''m'' then Symlink else RegularFile)"

definition sample_fs_with :: "bytes \<Rightarrow> file_system" where
  "sample_fs_with raw = \<lparr> fs_read = (\<lambda>p. if p = ''m'' then Inr raw else if p = ''/d/a/b'' then Inr ''x'' else Inr ''yz''),
     fs_stat = (\<lambda>p. Inr \<lparr> fi_mode = sample_mode p, fi_size = 2 \<rparr>),
     fs_lstat = (\<lambda>p. Inr \<lparr> fi_mode = sample_mode p,
       fi_size = (if p = ''/d/a/b'' then 1 else 2) \<rparr>),
     fs_readlink = (\<lambda>p. Inr ''a.txt''), fs_walk = (\<lambda>r. Inr sample_walk), fs_join = (\<lambda>r p. r @ CHR ''/'' # p) \<rparr>"

abbreviation sample_fs :: file_system where
  "sample_fs \<equiv> sample_fs_with sample_manifest"

definition sample_items :: "(bytes \<times> tree_item) list" where
  "sample_items = [(''a.txt'', FileOf ''yz''), (''a/b'', FileOf ''x''), (''link'', LinkTo ''a.txt'')]"

definition sample_measured :: measurement where
  "sample_measured = \<lparr> ms_checksum = digest_of sample_crypto (framing sample_items), ms_size = 3 \<rparr>"

lemma sample_still: "still sample_fs"
  by (simp add: still_def sample_fs_with_def sample_mode_def)

lemma sample_tree: "tree_contents (sample_fs_with raw) ''/d'' = Inr sample_items"
  by code_simp

lemma sample_measure: "measure_tree sample_crypto (sample_fs_with raw) ''/d'' True = Inr sample_measured"
  by code_simp


theorem walk_order_irrelevant_witness:
  "measure_tree sample_crypto (sample_fs\<lparr> fs_walk := \<lambda>_. Inr (rev sample_walk) \<rparr>) ''/d'' True = Inr sample_measured"
proof -
  have "fs_walk sample_fs ''/d'' = Inr sample_walk" "distinct (map fst sample_walk)"
    by (simp_all add: sample_fs_with_def sample_walk_def)
  from walk_order_irrelevant [OF this, of "rev sample_walk"] sample_measure show ?thesis by simp
qed

definition sample_read :: "backup_manifest" where
  "sample_read = \<lparr> mf_schema = manifest_schema_id, mf_expected_checksum = [], mf_expected_size = Some 3, mf_created_at = [],
     mf_engine_version = [],
     mf_baseline = Some [(''s.t'', \<lparr> ex_rows = None, ex_rows_min = Some 0, ex_rows_max = Some 2 \<rparr>)] \<rparr>"

lemma sample_doc_parsed: "decode_first sample_manifest = Some (sample_doc, False)"
proof -
  have "num_ok ''3''" "num_ok ''0''" "num_ok ''2''" by code_simp+
  then have "parse_first (render quote_runes sample_doc) = Some (sample_doc, [])"
    by (intro cq.parse_first_render) (simp_all add: sample_doc_def manifest_schema_id_def ascii_valid max_depth_def)
  then show ?thesis by (simp add: decode_first_def sample_manifest_def)
qed

lemma small_ints: "parse_int64 ''3'' = Some 3" "parse_int64 ''0'' = Some 0" "parse_int64 ''2'' = Some 2"
  by (simp_all add: parse_digits is_digit_def digits_val_def digit_val_def)

lemma sample_table: "identifier_parts ''s.t'' = Inr [''s'', ''t'']"
  by code_simp

lemma sample_read: "read_manifest sample_fs ''m'' = Inr (sample_read, sample_manifest)"
proof -
  have "decode_manifest sample_doc = Some sample_read" "validate_manifest ''m'' sample_read = None"
    by (simp_all add: sample_doc_def sample_read_def decode_manifest_def manifest_member_def put_manifest_def field_name_def
        manifest_names_def int_value_def baseline_value_def expectation_value_def expectation_names_def str_value_def
        zero_manifest_def zero_expectation_def read_baseline_def read_expectation_def put_expectation_def int_pointer_def set_str_def
        small_ints validate_manifest_def manifest_schema_ids_def manifest_schema_id_def manifest_schema_id_v1_def
        validate_baseline_def validate_expectation_def sample_table)
  then show ?thesis using sample_doc_parsed by (simp add: read_manifest_def sample_fs_with_def)
qed

lemma sample_sized:
  "measure_source sample_crypto (sample_fs_with raw) ''/d'' False = Inr \<lparr> ms_checksum = [], ms_size = 3 \<rparr>"
  by code_simp

lemma sample_agrees: "compare_measurement source path sample_read \<lparr> ms_checksum = [], ms_size = 3 \<rparr> = None"
  by (simp add: compare_cases(1) sample_read_def)

lemma sample_unhashed: "mf_expected_checksum sample_read = []"
  by (simp add: sample_read_def)

theorem matched_manifest_holds_witness:
  "\<exists>m raw (got :: measurement). read_manifest sample_fs ''m'' = Inr (m, raw) \<and> fs_read sample_fs ''m'' = Inr raw \<and>
     mf_expected_size m \<in> {None, Some (ms_size got)}"
proof -
  have "check_manifest sample_crypto sample_fs ''/d'' ''m'' =
      (\<lparr> mr_hash = Some (digest_of sample_crypto sample_manifest), mr_match = Some True, mr_baseline = mf_baseline sample_read \<rparr>, None)"
    by (simp add: check_manifest_def sample_read sample_unhashed sample_sized sample_agrees)
  from matched_manifest_holds [OF this] obtain m raw and got :: measurement where "read_manifest sample_fs ''m'' = Inr (m, raw)"
    "fs_read sample_fs ''m'' = Inr raw" "mf_expected_size m \<in> {None, Some (ms_size got)}"
    by (elim exE conjE) (rule that; assumption)
  then show ?thesis by (intro exI conjI)
qed

theorem accepted_baseline_usable_witness:
  "satisfied \<lparr> ex_rows = None, ex_rows_min = Some 0, ex_rows_max = Some 2 \<rparr> 5 \<noteq> None"
  using accepted_baseline_usable [OF sample_read, of _ "''s.t''"] by (simp add: sample_read_def)

end
