(* ===== verification/Instants.thy ===== *)
theory Instants
  imports Records
begin

text \<open>
  Instants and durations as the code uses the standard library's \<^verbatim>\<open>time\<close>: an instant is its
  nanoseconds since 1970-01-01T00:00:00Z (an unbounded integer), a duration an \<^verbatim>\<open>int64\<close> of
  nanoseconds. \<open>parse_layout\<close> is \<^verbatim>\<open>time.ParseInLocation\<close> in UTC for the layout items that occur in
  \<^verbatim>\<open>internal/checks/runner.go\<close>, with the laxness of the library (one-digit hours, runs of spaces, a
  comma before a fraction, offsets up to 24:60); \<open>format_ts\<close> is \<^verbatim>\<open>Format(evidence.TimestampFormat)\<close>.
\<close>

subsection \<open>The calendar\<close>

definition days_before_year :: "int \<Rightarrow> int" where
  "days_before_year y = 365 * y + (y + 3) div 4 - (y + 99) div 100 + (y + 399) div 400"

definition days_in_year :: "nat \<Rightarrow> nat" where
  "days_in_year y = (if leap_year y then 366 else 365)"

definition days_before_month :: "nat \<Rightarrow> nat \<Rightarrow> nat" where
  "days_before_month y m = sum_list (map (days_in_month y) [1..<m])"

definition epoch_days :: int where "epoch_days = 719528"

definition nanos_per_second :: int where "nanos_per_second = 1000000000"

definition instant_of :: "nat \<Rightarrow> nat \<Rightarrow> nat \<Rightarrow> nat \<Rightarrow> nat \<Rightarrow> nat \<Rightarrow> nat \<Rightarrow> int \<Rightarrow> int" where
  "instant_of y mo d h mi s ns off =
    (((days_before_year (int y) + int (days_before_month y mo) + int d - 1 - epoch_days) * 86400
      + int (h * 3600 + mi * 60 + s) - off) * nanos_per_second) + int ns"

subsection \<open>Parsing\<close>

datatype layout_item = Lit char | Year | Month | Day | Hour | Minute | Second | Fraction
  | ZoneColon | ZoneBasic | ZoneHour | ZoneZ

record time_parts =
  tp_year :: nat
  tp_month :: nat
  tp_day :: nat
  tp_hour :: nat
  tp_minute :: nat
  tp_second :: nat
  tp_nanos :: nat
  tp_offset :: int

definition get_num :: "bool \<Rightarrow> bytes \<Rightarrow> (nat \<times> bytes) option" where
  "get_num fixed s = (case s of
     a # b # t \<Rightarrow> if \<not> is_digit a then None else if is_digit b then Some (digits_val [a, b], t)
       else if fixed then None else Some (digit_val a, b # t)
   | [a] \<Rightarrow> if is_digit a \<and> \<not> fixed then Some (digit_val a, []) else None
   | [] \<Rightarrow> None)"

definition put_num :: "nat option \<Rightarrow> (nat \<Rightarrow> bool) \<Rightarrow> bool \<Rightarrow> (nat \<Rightarrow> time_parts) \<Rightarrow> bytes \<Rightarrow> (time_parts \<times> bytes) option" where
  "put_num width ok fixed put s = (case width of
     Some n \<Rightarrow> if length s < n \<or> \<not> list_all is_digit (take n s) then None
       else if ok (digits_val (take n s)) then Some (put (digits_val (take n s)), drop n s) else None
   | None \<Rightarrow> (case get_num fixed s of None \<Rightarrow> None | Some (v, t) \<Rightarrow> if ok v then Some (put v, t) else None))"

text \<open>A fraction counts nine digits; further ones are read and dropped.\<close>

definition nanos_of :: "bytes \<Rightarrow> nat" where
  "nanos_of ds = digits_val (take 9 ds) * 10 ^ (9 - min 9 (length ds))"

definition read_zone :: "bytes \<Rightarrow> bytes \<Rightarrow> bytes \<Rightarrow> char \<Rightarrow> time_parts \<Rightarrow> bytes \<Rightarrow> (time_parts \<times> bytes) option" where
  "read_zone hh mm rest sgn_char p full =
    (case (get_num True hh, get_num True mm) of
       (Some (h, []), Some (m, [])) \<Rightarrow>
         if h > 24 \<or> m > 60 then None
         else if sgn_char = CHR ''+'' then Some (p\<lparr> tp_offset := int ((h * 60 + m) * 60) \<rparr>, rest)
         else if sgn_char = CHR ''-'' then Some (p\<lparr> tp_offset := - int ((h * 60 + m) * 60) \<rparr>, rest) else None
     | _ \<Rightarrow> None)"

definition parse_item :: "layout_item \<Rightarrow> time_parts \<Rightarrow> bytes \<Rightarrow> (time_parts \<times> bytes) option" where
  "parse_item i p s = (case i of
     Lit c \<Rightarrow> if c = CHR '' '' then (if s \<noteq> [] \<and> hd s \<noteq> c then None else Some (p, dropWhile (\<lambda>d. d = c) s))
       else if s \<noteq> [] \<and> hd s = c then Some (p, tl s) else None
   | Year \<Rightarrow> put_num (Some 4) (\<lambda>n. True) True (\<lambda>n. p\<lparr> tp_year := n \<rparr>) s
   | Month \<Rightarrow> put_num None (\<lambda>n. 1 \<le> n \<and> n \<le> 12) True (\<lambda>n. p\<lparr> tp_month := n \<rparr>) s
   | Day \<Rightarrow> put_num None (\<lambda>n. True) True (\<lambda>n. p\<lparr> tp_day := n \<rparr>) s
   | Hour \<Rightarrow> put_num None (\<lambda>n. n < 24) False (\<lambda>n. p\<lparr> tp_hour := n \<rparr>) s
   | Minute \<Rightarrow> put_num None (\<lambda>n. n < 60) True (\<lambda>n. p\<lparr> tp_minute := n \<rparr>) s
   | Second \<Rightarrow> put_num None (\<lambda>n. n < 60) True (\<lambda>n. p\<lparr> tp_second := n \<rparr>) s
   | Fraction \<Rightarrow> (case s of
       c # d # t \<Rightarrow> if (c = CHR ''.'' \<or> c = CHR '','') \<and> is_digit d
         then Some (p\<lparr> tp_nanos := nanos_of (takeWhile is_digit (d # t)) \<rparr>, dropWhile is_digit (d # t))
         else Some (p, s)
     | _ \<Rightarrow> Some (p, s))
   | ZoneColon \<Rightarrow> if length s < 6 \<or> s ! 3 \<noteq> CHR '':'' then None
       else read_zone (take 2 (drop 1 s)) (take 2 (drop 4 s)) (drop 6 s) (hd s) p s
   | ZoneBasic \<Rightarrow> if length s < 5 then None
       else read_zone (take 2 (drop 1 s)) (take 2 (drop 3 s)) (drop 5 s) (hd s) p s
   | ZoneHour \<Rightarrow> if length s < 3 then None else read_zone (take 2 (drop 1 s)) ''00'' (drop 3 s) (hd s) p s
   | ZoneZ \<Rightarrow> if s \<noteq> [] \<and> hd s = CHR ''Z'' then Some (p, tl s)
       else if length s < 6 \<or> s ! 3 \<noteq> CHR '':'' then None
       else read_zone (take 2 (drop 1 s)) (take 2 (drop 4 s)) (drop 6 s) (hd s) p s)"

fun parse_items :: "layout_item list \<Rightarrow> time_parts \<Rightarrow> bytes \<Rightarrow> time_parts option" where
  "parse_items [] p s = (if s = [] then Some p else None)"
| "parse_items (i # is) p s = (case parse_item i p s of None \<Rightarrow> None | Some (q, t) \<Rightarrow> parse_items is q t)"

definition no_parts :: time_parts where
  "no_parts = \<lparr> tp_year = 0, tp_month = 1, tp_day = 1, tp_hour = 0, tp_minute = 0, tp_second = 0, tp_nanos = 0, tp_offset = 0 \<rparr>"

definition parse_layout :: "layout_item list \<Rightarrow> bytes \<Rightarrow> int option" where
  "parse_layout l s = (case parse_items l no_parts s of None \<Rightarrow> None
     | Some p \<Rightarrow> if tp_day p < 1 \<or> tp_day p > days_in_month (tp_year p) (tp_month p) then None
         else Some (instant_of (tp_year p) (tp_month p) (tp_day p) (tp_hour p) (tp_minute p) (tp_second p) (tp_nanos p) (tp_offset p)))"

definition date_layout :: "layout_item list" where
  "date_layout = [Year, Lit CHR ''-'', Month, Lit CHR ''-'', Day]"

definition minute_layout :: "layout_item list" where
  "minute_layout = [Hour, Lit CHR '':'', Minute]"

definition second_layout :: "layout_item list" where
  "second_layout = minute_layout @ [Lit CHR '':'', Second, Fraction]"

definition rfc3339_nano :: "layout_item list" where
  "rfc3339_nano = date_layout @ [Lit CHR ''T''] @ second_layout @ [ZoneZ]"

definition timestamp_formats :: "layout_item list list" where
  "timestamp_formats =
    [date_layout @ [Lit CHR '' ''] @ second_layout @ [ZoneColon],
     date_layout @ [Lit CHR '' ''] @ second_layout @ [ZoneBasic],
     date_layout @ [Lit CHR '' ''] @ second_layout @ [ZoneHour],
     date_layout @ [Lit CHR '' ''] @ second_layout,
     rfc3339_nano,
     date_layout @ [Lit CHR ''T''] @ second_layout,
     date_layout @ [Lit CHR ''T''] @ minute_layout @ [ZoneZ],
     date_layout @ [Lit CHR ''T''] @ minute_layout]"

fun first_some :: "('a \<Rightarrow> 'b option) \<Rightarrow> 'a list \<Rightarrow> 'b option" where
  "first_some f [] = None"
| "first_some f (x # xs) = (case f x of Some y \<Rightarrow> Some y | None \<Rightarrow> first_some f xs)"

definition parse_timestamp :: "bytes \<Rightarrow> int option" where
  "parse_timestamp s = first_some (\<lambda>l. parse_layout l s) timestamp_formats"

subsection \<open>Formatting\<close>

definition pad :: "nat \<Rightarrow> nat \<Rightarrow> bytes" where
  "pad w n = replicate (w - length (show_nat n)) (CHR ''0'') @ show_nat n"

definition pad_int :: "nat \<Rightarrow> int \<Rightarrow> bytes" where
  "pad_int w i = (if i < 0 then CHR ''-'' # pad w (nat (- i)) else pad w (nat i))"

function year_loop :: "nat \<Rightarrow> nat \<Rightarrow> nat \<times> nat" where
  "year_loop y d = (if d < days_in_year y then (y, d) else year_loop (Suc y) (d - days_in_year y))"
  by pat_completeness auto
termination
  by (relation "measure snd") (auto simp: days_in_year_def)

function month_loop :: "nat \<Rightarrow> nat \<Rightarrow> nat \<Rightarrow> nat \<times> nat" where
  "month_loop y m d = (if 12 \<le> m \<or> d < days_in_month y m then (m, d) else month_loop y (Suc m) (d - days_in_month y m))"
  by pat_completeness auto
termination
  by (relation "measure (\<lambda>(y, m, d). 12 - m)") auto

declare year_loop.simps [simp del] month_loop.simps [simp del]

definition days_per_cycle :: int where "days_per_cycle = 146097"

text \<open>Year (the cycle of 400 years it lies in, and the year in the cycle), month, day.\<close>

definition civil :: "int \<Rightarrow> int \<times> nat \<times> nat \<times> nat" where
  "civil days = (let (n, doy) = year_loop 0 (nat (days mod days_per_cycle)); (m, d) = month_loop n 1 doy
     in (days div days_per_cycle, n, m, Suc d))"

definition format_ts :: "int \<Rightarrow> bytes" where
  "format_ts t =
    (let secs = t div nanos_per_second; millis = nat (t mod nanos_per_second) div 1000000;
         sod = nat (secs mod 86400); (cyc, n, m, d) = civil (secs div 86400 + epoch_days)
     in pad_int 4 (400 * cyc + int n) @ ''-'' @ pad 2 m @ ''-'' @ pad 2 d @ ''T'' @ pad 2 (sod div 3600) @ '':'' @
        pad 2 (sod div 60 mod 60) @ '':'' @ pad 2 (sod mod 60) @ ''.'' @ pad 3 millis @ ''Z'')"

lemma div_step:
  fixes x k :: int
  assumes "0 < k"
  shows "(x + k) div k = (x + (k - 1)) div k + (if k dvd x then 1 else 0)"
proof -
  define q r where "q = x div k" and "r = x mod k"
  with assms have x: "x = k * q + r" "0 \<le> r" "r < k" by simp_all
  from assms x have 1: "(x + k) div k = q + 1" by (intro int_div_pos_eq [of _ _ _ r]) (auto simp: algebra_simps)
  show ?thesis
  proof (cases "r = 0")
    case True
    with assms x have "(x + (k - 1)) div k = q" by (intro int_div_pos_eq [of _ _ _ "k - 1"]) auto
    moreover from True x have "k dvd x" by simp
    ultimately show ?thesis using 1 by simp
  next
    case False
    with assms x have "(x + (k - 1)) div k = q + 1" by (intro int_div_pos_eq [of _ _ _ "r - 1"]) (auto simp: algebra_simps)
    moreover from False r_def have "\<not> k dvd x" by (simp add: dvd_eq_mod_eq_0)
    ultimately show ?thesis using 1 by simp
  qed
qed

lemma days_year_step: "days_before_year (int y + 1) = days_before_year (int y) + int (days_in_year y)"
proof -
  have d: "(4::int) dvd int y \<longleftrightarrow> 4 dvd y" "(100::int) dvd int y \<longleftrightarrow> 100 dvd y" "(400::int) dvd int y \<longleftrightarrow> 400 dvd y"
    using int_dvd_int_iff [of 4 y] int_dvd_int_iff [of 100 y] int_dvd_int_iff [of 400 y] by simp_all
  have "400 dvd y \<Longrightarrow> 100 dvd y" "100 dvd y \<Longrightarrow> 4 dvd y"
    using dvd_trans [of 100 400 y] dvd_trans [of 4 100 y] by simp_all
  then show ?thesis
    using div_step [of 4 "int y"] div_step [of 100 "int y"] div_step [of 400 "int y"]
    by (auto simp: days_before_year_def days_in_year_def leap_year_def algebra_simps d split: if_splits)
qed

lemma days_cycle: "days_before_year (400 * c + y) = days_before_year y + days_per_cycle * c"
proof -
  have "(400 * c + y + 3) div 4 = 100 * c + (y + 3) div 4" "(400 * c + y + 99) div 100 = 4 * c + (y + 99) div 100"
    "(400 * c + y + 399) div 400 = c + (y + 399) div 400"
    using div_mult_self2 [of 4 "y + 3" "100 * c"] div_mult_self2 [of 100 "y + 99" "4 * c"] div_mult_self2 [of 400 "y + 399" c]
    by (simp_all add: algebra_simps)
  then show ?thesis by (simp add: days_before_year_def days_per_cycle_def)
qed

lemma year_loop_days:
  "year_loop y d = (n, r) \<Longrightarrow> days_before_year (int n) + int r = days_before_year (int y) + int d \<and> r < days_in_year n \<and> y \<le> n"
proof (induction y d rule: year_loop.induct)
  case (1 y d)
  show ?case
  proof (cases "d < days_in_year y")
    case True
    with 1 show ?thesis by (simp add: year_loop.simps)
  next
    case False
    with 1 have "year_loop (Suc y) (d - days_in_year y) = (n, r)" by (simp add: year_loop.simps)
    from "1.IH" [OF False this] False show ?thesis using days_year_step [of y] by (simp add: add.commute)
  qed
qed

lemma month_days: "days_before_month y (Suc m) = days_before_month y m + (if m = 0 then 0 else days_in_month y m)"
  by (cases m) (simp_all add: days_before_month_def)

lemma year_months: "days_before_month y 12 + days_in_month y 12 = days_in_year y"
  by (simp add: days_before_month_def days_in_month_def days_in_year_def upt_rec)

lemma month_loop_days:
  "month_loop y m d = (m', d') \<Longrightarrow> 1 \<le> m \<Longrightarrow> m \<le> 12 \<Longrightarrow> days_before_month y m + d < days_in_year y \<Longrightarrow>
    days_before_month y m' + d' = days_before_month y m + d \<and> d' < days_in_month y m' \<and> 1 \<le> m' \<and> m' \<le> 12"
proof (induction y m d rule: month_loop.induct)
  case (1 y m d)
  show ?case
  proof (cases "12 \<le> m \<or> d < days_in_month y m")
    case True
    with 1 year_months [of y] show ?thesis by (auto simp: month_loop.simps)
  next
    case False
    with 1 have l: "month_loop y (Suc m) (d - days_in_month y m) = (m', d')" by (simp add: month_loop.simps)
    from "1.IH" [OF False l] "1.prems" False month_days [of y m] show ?thesis by simp
  qed
qed

lemma days_mono: "a \<le> b \<Longrightarrow> days_before_year (int a) \<le> days_before_year (int b)"
  by (rule lift_Suc_mono_le [of "\<lambda>y. days_before_year (int y)"]) (use days_year_step in \<open>simp_all add: add.commute\<close>)

lemma leap_cycle: "leap_year (400 * k + n) = leap_year n"
proof -
  have "400 * k + n = n + 4 * (100 * k)" "400 * k + n = n + 100 * (4 * k)" "400 * k + n = n + 400 * k" by simp_all
  then have "4 dvd 400 * k + n \<longleftrightarrow> 4 dvd n" "100 dvd 400 * k + n \<longleftrightarrow> 100 dvd n" "400 dvd 400 * k + n \<longleftrightarrow> 400 dvd n"
    by (metis dvd_add_left_iff dvd_triv_left)+
  then show ?thesis by (simp add: leap_year_def)
qed

lemma month_cycle: "days_in_month (400 * k + n) m = days_in_month n m"
  by (simp add: days_in_month_def leap_cycle)

lemma before_month_cycle: "days_before_month (400 * k + n) m = days_before_month n m"
  by (simp add: days_before_month_def month_cycle cong: map_cong)

lemma civil_days:
  assumes "civil days = (c, n, m, d)"
  shows "days_before_year (400 * c + int n) + int (days_before_month n m) + int d - 1 = days"
    and "n < 400" "1 \<le> m" "m \<le> 12" "1 \<le> d" "d \<le> days_in_month n m" "c = days div days_per_cycle"
proof -
  let ?r = "nat (days mod days_per_cycle)"
  obtain n' doy where y: "year_loop 0 ?r = (n', doy)" by (cases "year_loop 0 ?r")
  obtain m' k where l: "month_loop n' 1 doy = (m', k)" by (cases "month_loop n' 1 doy")
  from assms y l have c: "c = days div days_per_cycle" and n: "n' = n" "m' = m" "d = Suc k" by (auto simp: civil_def)
  have r: "int ?r = days mod days_per_cycle" "days mod days_per_cycle < days_per_cycle" by (simp_all add: days_per_cycle_def)
  from year_loop_days [OF y] have yd: "days_before_year (int n) + int doy = days mod days_per_cycle" "doy < days_in_year n"
    using r by (simp_all add: n days_before_year_def)
  from month_loop_days [OF l] yd(2) have ml: "days_before_month n m + k = doy" "k < days_in_month n m" "1 \<le> m" "m \<le> 12"
    by (simp_all add: n days_before_month_def)
  show "n < 400"
  proof (rule ccontr)
    assume "\<not> n < 400"
    with days_mono [of 400 n] have "days_per_cycle \<le> days_before_year (int n)"
      by (simp add: days_before_year_def days_per_cycle_def)
    with yd(1) r show False by linarith
  qed
  have "days = days mod days_per_cycle + days_per_cycle * c" using c by simp
  with yd(1) ml(1) show "days_before_year (400 * c + int n) + int (days_before_month n m) + int d - 1 = days"
    by (simp add: days_cycle n(3))
  show "1 \<le> m" "m \<le> 12" "1 \<le> d" "d \<le> days_in_month n m" "c = days div days_per_cycle" using ml c n(3) by auto
qed

lemma length_show_nat: "0 < w \<Longrightarrow> n < 10 ^ w \<Longrightarrow> length (show_nat n) \<le> w"
proof (induction w arbitrary: n)
  case (Suc w)
  show ?case
  proof (cases "n < 10")
    case True
    then show ?thesis by (subst show_nat.simps) simp
  next
    case False
    with Suc.prems have "0 < w" by (cases w) auto
    moreover from Suc.prems have "n div 10 < 10 ^ w" by (simp add: less_mult_imp_div_less mult.commute)
    ultimately have "length (show_nat (n div 10)) \<le> w" by (rule Suc.IH)
    with False show ?thesis by (subst show_nat.simps) simp
  qed
qed simp

lemma digits_val_zeros: "digits_val (replicate k (CHR ''0'') @ ds) = digits_val ds"
  by (induction k) (simp_all add: digits_val_def digit_val_def)

lemma pad_digits: "list_all is_digit (pad w n)"
  using show_nat_digits [of n] by (auto simp: pad_def list_all_iff is_digit_def)

lemma pad_val [simp]: "digits_val (pad w n) = n"
  by (simp add: pad_def digits_val_zeros)

lemma pad_length: "0 < w \<Longrightarrow> n < 10 ^ w \<Longrightarrow> length (pad w n) = w"
  using length_show_nat [of w n] by (simp add: pad_def)

lemma pad2:
  assumes "n < 100"
  obtains a b where "pad 2 n = [a, b]" "is_digit a" "is_digit b" "digits_val [a, b] = n"
proof -
  have "length (pad 2 n) = 2" using assms by (intro pad_length) simp_all
  then obtain a b where "pad 2 n = [a, b]" by (auto simp: length_Suc_conv numeral_eq_Suc)
  with that pad_digits [of 2 n] pad_val [of 2 n] show ?thesis by simp
qed

lemma pad3:
  assumes "n < 1000"
  obtains a b c where "pad 3 n = [a, b, c]" "is_digit a" "is_digit b" "is_digit c" "digits_val [a, b, c] = n"
proof -
  have "length (pad 3 n) = 3" using assms by (intro pad_length) simp_all
  then obtain a b c where "pad 3 n = [a, b, c]" by (auto simp: length_Suc_conv numeral_eq_Suc)
  with that pad_digits [of 3 n] pad_val [of 3 n] show ?thesis by simp
qed

lemma pad4:
  assumes "n < 10000"
  obtains a b c d where "pad 4 n = [a, b, c, d]" "is_digit a" "is_digit b" "is_digit c" "is_digit d" "digits_val [a, b, c, d] = n"
proof -
  have "length (pad 4 n) = 4" using assms by (intro pad_length) simp_all
  then obtain a b c d where "pad 4 n = [a, b, c, d]" by (auto simp: length_Suc_conv numeral_eq_Suc)
  with that pad_digits [of 4 n] pad_val [of 4 n] show ?thesis by simp
qed

text \<open>The instants whose year has four digits: 0000-01-01T00:00:00Z up to the end of 9999.\<close>

definition first_instant :: int where "first_instant = - (epoch_days * 86400 * nanos_per_second)"
definition end_instant :: int where "end_instant = (25 * days_per_cycle - epoch_days) * 86400 * nanos_per_second"

definition four_digit_year :: "int \<Rightarrow> bool" where
  "four_digit_year t \<longleftrightarrow> first_instant \<le> t \<and> t < end_instant"

lemma hours: "a * 3600 + b * 60 + c = (a * 60 + b) * 60 + (c :: nat)"
  by simp

lemma format_parts:
  assumes "four_digit_year t"
  obtains y m d h mi s ms where "format_ts t = pad 4 y @ ''-'' @ pad 2 m @ ''-'' @ pad 2 d @ ''T'' @ pad 2 h @ '':'' @
        pad 2 mi @ '':'' @ pad 2 s @ ''.'' @ pad 3 ms @ ''Z''"
    "y < 10000" "1 \<le> m" "m \<le> 12" "1 \<le> d" "d \<le> days_in_month y m" "h < 24" "mi < 60" "s < 60" "ms < 1000"
    "instant_of y m d h mi s (ms * 1000000) 0 = t - t mod 1000000"
proof -
  define secs where "secs = t div nanos_per_second"
  define ns where "ns = nat (t mod nanos_per_second)"
  define sod where "sod = nat (secs mod 86400)"
  define days where "days = secs div 86400 + epoch_days"
  obtain c n m d where civ: "civil days = (c, n, m, d)" by (cases "civil days")
  note cd = civil_days [OF civ]
  have t: "t = ((days - epoch_days) * 86400 + int sod) * nanos_per_second + int ns"
    by (simp add: secs_def ns_def sod_def days_def nanos_per_second_def)
  have sod: "sod < 86400" and ns: "ns < 1000000000" by (simp_all add: sod_def ns_def nanos_per_second_def nat_less_iff)
  from assms have range: "0 \<le> days" "days < 25 * days_per_cycle"
    unfolding four_digit_year_def first_instant_def end_instant_def t using sod ns
    by (simp_all add: nanos_per_second_def epoch_days_def days_per_cycle_def)
  then have "0 \<le> c" "c < 25" using cd(7) by (simp_all add: days_per_cycle_def)
  then obtain k where k: "c = int k" "k < 25" by (metis nonneg_int_cases of_nat_less_numeral_iff)
  let ?y = "400 * k + n"
  have y: "?y < 10000" using cd(2) k by simp
  have "format_ts t = pad_int 4 (400 * c + int n) @ ''-'' @ pad 2 m @ ''-'' @ pad 2 d @ ''T'' @ pad 2 (sod div 3600) @ '':'' @
        pad 2 (sod div 60 mod 60) @ '':'' @ pad 2 (sod mod 60) @ ''.'' @ pad 3 (ns div 1000000) @ ''Z''"
    using civ by (simp add: format_ts_def Let_def secs_def ns_def sod_def days_def)
  moreover have "pad_int 4 (400 * c + int n) = pad 4 ?y" by (simp add: pad_int_def k nat_add_distrib nat_mult_distrib)
  moreover have "instant_of ?y m d (sod div 3600) (sod div 60 mod 60) (sod mod 60) (ns div 1000000 * 1000000) 0 = t - t mod 1000000"
  proof -
    have h: "sod div 3600 = sod div 60 div 60" using div_mult2_eq [of sod 60 60] by simp
    have "sod div 3600 * 3600 + sod div 60 mod 60 * 60 + sod mod 60 =
        (sod div 60 div 60 * 60 + sod div 60 mod 60) * 60 + sod mod 60"
      unfolding h by (rule hours)
    then have "int (sod div 3600 * 3600 + sod div 60 mod 60 * 60 + sod mod 60) = int sod"
      by (simp only: div_mult_mod_eq)
    moreover have "days_before_year (int ?y) + int (days_before_month ?y m) + int d - 1 = days"
      using cd(1) by (simp add: k before_month_cycle)
    moreover have "t mod 1000000 = int ns mod 1000000"
      using mod_mult_self3 [of "((days - epoch_days) * 86400 + int sod) * 1000" 1000000 "int ns"]
      by (simp add: t nanos_per_second_def mult.assoc)
    moreover have "int (ns div 1000000 * 1000000) = int ns - int ns mod 1000000"
      by (simp add: minus_mod_eq_div_mult [symmetric] zdiv_int zmod_int)
    ultimately show ?thesis unfolding instant_of_def by (simp add: t algebra_simps)
  qed
  ultimately show ?thesis using that [of ?y m d "sod div 3600" "sod div 60 mod 60" "sod mod 60" "ns div 1000000"] y cd sod ns
    by (simp add: month_cycle less_mult_imp_div_less)
qed

lemma format_chars:
  assumes "four_digit_year t"
  obtains y1 y2 y3 y4 m1 m2 d1 d2 h1 h2 i1 i2 s1 s2 n1 n2 n3 y m d h mi s ms where
    "format_ts t = y1 # y2 # y3 # y4 # CHR ''-'' # m1 # m2 # CHR ''-'' # d1 # d2 # CHR ''T'' #
       h1 # h2 # CHR '':'' # i1 # i2 # CHR '':'' # s1 # s2 # CHR ''.'' # n1 # n2 # n3 # ''Z''"
    "list_all is_digit [y1, y2, y3, y4, m1, m2, d1, d2, h1, h2, i1, i2, s1, s2, n1, n2, n3]"
    "digits_val [y1, y2, y3, y4] = y" "digits_val [m1, m2] = m" "digits_val [d1, d2] = d" "digits_val [h1, h2] = h"
    "digits_val [i1, i2] = mi" "digits_val [s1, s2] = s" "digits_val [n1, n2, n3] = ms"
    "1 \<le> m" "m \<le> 12" "1 \<le> d" "d \<le> days_in_month y m" "h < 24" "mi < 60" "s < 60"
    "instant_of y m d h mi s (ms * 1000000) 0 = t - t mod 1000000"
proof -
  from assms obtain y m d h mi s ms where f: "format_ts t = pad 4 y @ ''-'' @ pad 2 m @ ''-'' @ pad 2 d @ ''T'' @ pad 2 h @ '':'' @
        pad 2 mi @ '':'' @ pad 2 s @ ''.'' @ pad 3 ms @ ''Z''"
    and r: "y < 10000" "1 \<le> m" "m \<le> 12" "1 \<le> d" "d \<le> days_in_month y m" "h < 24" "mi < 60" "s < 60" "ms < 1000"
    and at: "instant_of y m d h mi s (ms * 1000000) 0 = t - t mod 1000000"
    by (rule format_parts)
  have "days_in_month y m < 100" by (simp add: days_in_month_def)
  with r have b: "m < 100" "d < 100" "h < 100" "mi < 100" "s < 100" by auto
  obtain y1 y2 y3 y4 where y: "pad 4 y = [y1, y2, y3, y4]" "is_digit y1" "is_digit y2" "is_digit y3" "is_digit y4"
    "digits_val [y1, y2, y3, y4] = y" using pad4 [OF r(1)] .
  obtain m1 m2 where m: "pad 2 m = [m1, m2]" "is_digit m1" "is_digit m2" "digits_val [m1, m2] = m" using pad2 [OF b(1)] .
  obtain d1 d2 where d: "pad 2 d = [d1, d2]" "is_digit d1" "is_digit d2" "digits_val [d1, d2] = d" using pad2 [OF b(2)] .
  obtain h1 h2 where h: "pad 2 h = [h1, h2]" "is_digit h1" "is_digit h2" "digits_val [h1, h2] = h" using pad2 [OF b(3)] .
  obtain i1 i2 where i: "pad 2 mi = [i1, i2]" "is_digit i1" "is_digit i2" "digits_val [i1, i2] = mi" using pad2 [OF b(4)] .
  obtain s1 s2 where s: "pad 2 s = [s1, s2]" "is_digit s1" "is_digit s2" "digits_val [s1, s2] = s" using pad2 [OF b(5)] .
  obtain n1 n2 n3 where n: "pad 3 ms = [n1, n2, n3]" "is_digit n1" "is_digit n2" "is_digit n3" "digits_val [n1, n2, n3] = ms"
    using pad3 [OF r(9)] .
  show ?thesis
    by (rule that [of y1 y2 y3 y4 m1 m2 d1 d2 h1 h2 i1 i2 s1 s2 n1 n2 n3 y m d h mi s ms])
      (use f r at y m d h i s n in simp_all)
qed

lemma format_valid:
  assumes "four_digit_year t"
  shows "valid_ts (format_ts t)"
  using assms by (rule format_chars) (simp add: valid_ts_def num2_def)

lemma parse_date:
  assumes "is_digit y1" "is_digit y2" "is_digit y3" "is_digit y4" "is_digit m1" "is_digit m2" "is_digit d1" "is_digit d2"
    "1 \<le> digits_val [m1, m2]" "digits_val [m1, m2] \<le> 12"
  shows "parse_items (date_layout @ is) p (y1 # y2 # y3 # y4 # CHR ''-'' # m1 # m2 # CHR ''-'' # d1 # d2 # rest) =
    parse_items is (p\<lparr> tp_year := digits_val [y1, y2, y3, y4], tp_month := digits_val [m1, m2], tp_day := digits_val [d1, d2] \<rparr>) rest"
  using assms by (simp add: date_layout_def parse_item_def put_num_def get_num_def)

lemma parse_clock:
  assumes "is_digit h1" "is_digit h2" "is_digit i1" "is_digit i2" "is_digit s1" "is_digit s2"
    "is_digit n1" "is_digit n2" "is_digit n3"
    "digits_val [h1, h2] < 24" "digits_val [i1, i2] < 60" "digits_val [s1, s2] < 60"
  shows "parse_items (second_layout @ [ZoneZ]) p
      (h1 # h2 # CHR '':'' # i1 # i2 # CHR '':'' # s1 # s2 # CHR ''.'' # n1 # n2 # n3 # ''Z'') =
    Some (p\<lparr> tp_hour := digits_val [h1, h2], tp_minute := digits_val [i1, i2], tp_second := digits_val [s1, s2],
      tp_nanos := digits_val [n1, n2, n3] * 1000000 \<rparr>)"
proof -
  have "\<not> is_digit (CHR ''Z'')" by (simp add: is_digit_def)
  with assms show ?thesis
    by (simp add: second_layout_def minute_layout_def parse_item_def put_num_def get_num_def nanos_of_def)
qed

lemma spaced_refused: "parse_item (Lit CHR '' '') p (CHR ''T'' # rest) = None"
  by (simp add: parse_item_def)

text \<open>
  A time the code prints is read back as the same instant to the millisecond, by the formats a
  freshness check accepts, and is a timestamp a record may carry, for every instant from the year 0
  to the end of the year 9999.
\<close>

theorem timestamp_roundtrip:
  assumes "four_digit_year t"
  shows "valid_ts (format_ts t) \<and> parse_timestamp (format_ts t) = Some (t - t mod 1000000)"
proof
  show "valid_ts (format_ts t)" using assms by (rule format_valid)
  from assms obtain y1 y2 y3 y4 m1 m2 d1 d2 h1 h2 i1 i2 s1 s2 n1 n2 n3 y m d h mi s ms where
    f: "format_ts t = y1 # y2 # y3 # y4 # CHR ''-'' # m1 # m2 # CHR ''-'' # d1 # d2 # CHR ''T'' #
       h1 # h2 # CHR '':'' # i1 # i2 # CHR '':'' # s1 # s2 # CHR ''.'' # n1 # n2 # n3 # ''Z''"
    and g: "list_all is_digit [y1, y2, y3, y4, m1, m2, d1, d2, h1, h2, i1, i2, s1, s2, n1, n2, n3]"
    and v: "digits_val [y1, y2, y3, y4] = y" "digits_val [m1, m2] = m" "digits_val [d1, d2] = d" "digits_val [h1, h2] = h"
      "digits_val [i1, i2] = mi" "digits_val [s1, s2] = s" "digits_val [n1, n2, n3] = ms"
    and r: "1 \<le> m" "m \<le> 12" "1 \<le> d" "d \<le> days_in_month y m" "h < 24" "mi < 60" "s < 60"
    and at: "instant_of y m d h mi s (ms * 1000000) 0 = t - t mod 1000000"
    by (rule format_chars)
  let ?rest = "CHR ''T'' # h1 # h2 # CHR '':'' # i1 # i2 # CHR '':'' # s1 # s2 # CHR ''.'' # n1 # n2 # n3 # ''Z''"
  have date: "parse_items (date_layout @ is) no_parts (format_ts t) =
      parse_items is (no_parts\<lparr> tp_year := y, tp_month := m, tp_day := d \<rparr>) ?rest" for "is"
    unfolding f by (subst parse_date) (use g v r in simp_all)
  have "parse_layout rfc3339_nano (format_ts t) = Some (t - t mod 1000000)"
    using parse_clock [of h1 h2 i1 i2 s1 s2 n1 n2 n3] g r v at
    by (simp add: parse_layout_def rfc3339_nano_def date) (simp add: parse_item_def no_parts_def)
  moreover have "parse_layout (date_layout @ Lit CHR '' '' # is) (format_ts t) = None" for "is"
    by (simp add: parse_layout_def date spaced_refused)
  ultimately show "parse_timestamp (format_ts t) = Some (t - t mod 1000000)"
    by (simp add: parse_timestamp_def timestamp_formats_def)
qed

theorem timestamp_roundtrip_witness:
  "valid_ts (format_ts 946684801250000000) \<and> parse_timestamp (format_ts 946684801250000000) = Some 946684801250000000"
  using timestamp_roundtrip [of 946684801250000000]
  by (simp add: four_digit_year_def first_instant_def end_instant_def epoch_days_def nanos_per_second_def days_per_cycle_def)

end
