(* ===== verification/DrillConfig.thy ===== *)
theory DrillConfig
  imports Instants BackupManifest
begin

text \<open>
  \<^verbatim>\<open>internal/config/config.go\<close>, \<^verbatim>\<open>scalar.go\<close> and \<^verbatim>\<open>builtins.go\<close>: the drill configuration, the registry of
  check kinds and the validation that reports every problem in one pass. Diagnostics are data with
  the values they print (their language is the translator's business). The YAML decoder is a
  dependency and \<^verbatim>\<open>net/url\<close> is only asked for a scheme and a host; both are parameters.
\<close>

subsection \<open>The registry of check kinds\<close>

definition k_service_healthy :: bytes where "k_service_healthy = ''service_healthy''"
definition k_table_exists :: bytes where "k_table_exists = ''table_exists''"
definition k_row_count :: bytes where "k_row_count = ''row_count''"
definition k_freshness :: bytes where "k_freshness = ''freshness''"
definition k_baseline :: bytes where "k_baseline = ''baseline''"
definition k_sql :: bytes where "k_sql = ''sql''"

definition param_identifier :: bytes where "param_identifier = ''identifier''"
definition param_integer :: bytes where "param_integer = ''integer''"
definition param_duration :: bytes where "param_duration = ''duration''"
definition param_string :: bytes where "param_string = ''string''"
definition param_scalar :: bytes where "param_scalar = ''scalar''"

record check_param =
  pm_name :: bytes
  pm_type :: bytes
  pm_required :: bool
  pm_doc :: bytes

record check_kind =
  ck_id :: bytes
  ck_name :: bytes
  ck_status :: bytes
  ck_builtin :: bool
  ck_params :: "check_param list"
  ck_requires :: bytes

definition table_param :: check_param where
  "table_param = \<lparr> pm_name = ''table'', pm_type = param_identifier, pm_required = True, pm_doc = 
     ''What the check is about: a table, collection, class, label or key prefix, depending on the engine. '' @
     ''The adapter decides what it names, and its README says which.'' \<rparr>"

definition em_dash :: bytes where
  "em_dash = [CHR 0xE2, CHR 0x80, CHR 0x94]"

definition check_kinds :: "check_kind list" where
  "check_kinds =
    [\<lparr> ck_id = k_service_healthy, ck_name = ''Engine answers the adapter's healthcheck'', ck_status = ''experimental'',
       ck_builtin = True, ck_params = [], ck_requires = [] \<rparr>,
     \<lparr> ck_id = k_table_exists, ck_name = ''Table exists and is queryable'', ck_status = ''experimental'',
       ck_builtin = True, ck_params = [table_param], ck_requires = [] \<rparr>,
     \<lparr> ck_id = k_row_count, ck_name = ''Row count within bounds'', ck_status = ''experimental'',
       ck_builtin = True, ck_params = [table_param,
        \<lparr> pm_name = ''min'', pm_type = param_integer, pm_required = False, pm_doc = ''Lower bound, inclusive.'' \<rparr>,
        \<lparr> pm_name = ''max'', pm_type = param_integer, pm_required = False, pm_doc = ''Upper bound, inclusive.'' \<rparr>],
       ck_requires = ''At least one of min, max.'' \<rparr>,
     \<lparr> ck_id = k_freshness, ck_name = ''Newest row younger than a maximum age'', ck_status = ''experimental'',
       ck_builtin = True, ck_params = [table_param,
        \<lparr> pm_name = ''column'', pm_type = param_identifier, pm_required = True, pm_doc = ''The dated field to take the maximum of '' @ em_dash @
          '' a column, property or attribute, named the way the engine names one.'' \<rparr>,
        \<lparr> pm_name = ''max_age'', pm_type = param_duration, pm_required = True, pm_doc = ''Maximum age of the newest row.'' \<rparr>],
       ck_requires = [] \<rparr>,
     \<lparr> ck_id = k_baseline, ck_name = ''Restored rows reconcile with the backup manifest's baseline'',
       ck_status = ''experimental'', ck_builtin = True, ck_params = [],
       ck_requires = ''target.source.manifest, declaring a baseline. The manifest names the tables to reconcile; '' @
         ''one entry produces one result per table, named baseline:<table>.'' \<rparr>,
     \<lparr> ck_id = k_sql, ck_name = ''Custom SQL assertion'', ck_status = ''experimental'', ck_builtin = False, ck_params =
       [\<lparr> pm_name = ''sql'', pm_type = param_string, pm_required = True, pm_doc = ''Statement run through the adapter-declared sql_runner.'' \<rparr>,
        \<lparr> pm_name = ''expect'', pm_type = param_scalar, pm_required = True, pm_doc = ''Expected single scalar result.'' \<rparr>,
        \<lparr> pm_name = ''name'', pm_type = param_string, pm_required = False, pm_doc = ''Check name recorded in evidence; defaults to the check index.'' \<rparr>],
       ck_requires = [] \<rparr>]"

definition lookup_check_kind :: "bytes \<Rightarrow> check_kind option" where
  "lookup_check_kind i = List.find (\<lambda>k. ck_id k = i) check_kinds"

subsection \<open>The configuration\<close>

text \<open>\<^verbatim>\<open>Scalar\<close>: set or not, and its canonical text; what YAML decodes it from.\<close>

record check_scalar =
  sc_set :: bool
  sc_value :: bytes

datatype yaml_scalar = YString bytes | YBool bool | YInt int | YInt64 int | YUint64 int | YOther bytes

definition unmarshal_scalar :: "yaml_scalar \<Rightarrow> bytes + check_scalar" where
  "unmarshal_scalar v = (case v of
     YString s \<Rightarrow> Inr \<lparr> sc_set = True, sc_value = s \<rparr>
   | YBool b \<Rightarrow> Inr \<lparr> sc_set = True, sc_value = (if b then ''true'' else ''false'') \<rparr>
   | YInt i \<Rightarrow> Inr \<lparr> sc_set = True, sc_value = show_int i \<rparr>
   | YInt64 i \<Rightarrow> Inr \<lparr> sc_set = True, sc_value = show_int i \<rparr>
   | YUint64 i \<Rightarrow> Inr \<lparr> sc_set = True, sc_value = show_int i \<rparr>
   | YOther t \<Rightarrow> Inl t)"

record source =
  src_kind :: bytes
  src_path :: bytes
  src_manifest :: bytes
  src_select :: bytes
  src_params :: "(bytes \<times> bytes) list"
  src_credential_env :: "bytes list"

text \<open>\<open>pt_parsed\<close> is \<^verbatim>\<open>parsedTime\<close>; the zero time is the instant \<open>zero_time\<close>.\<close>

record pitr =
  pt_target_time :: bytes
  pt_target_age :: int
  pt_parsed :: int

record target =
  tg_name :: bytes
  tg_adapter :: bytes
  tg_source :: source
  tg_options :: "(bytes \<times> bytes) list"
  tg_pitr :: "pitr option"

record sandbox_config =
  sb_provider :: bytes
  sb_params :: "(bytes \<times> bytes) list option"
  sb_timeout :: int

record check_config =
  ch_builtin :: bytes
  ch_table :: bytes
  ch_column :: bytes
  ch_min :: "int option"
  ch_max :: "int option"
  ch_max_age :: int
  ch_name :: bytes
  ch_sql :: bytes
  ch_expect :: check_scalar

record evidence_config =
  ec_path :: bytes
  ec_sign_key :: bytes

record webhook =
  wh_url :: bytes
  wh_url_env :: bytes
  wh_secret_env :: bytes
  wh_on :: "bytes list"

record drill_config =
  dc_target :: target
  dc_sandbox :: sandbox_config
  dc_checks :: "check_config list"
  dc_evidence :: evidence_config
  dc_metrics :: "bytes option"
  dc_notify :: "webhook list option"
  dc_hash :: bytes
  dc_path :: bytes

subsection \<open>Problems\<close>

datatype problem =
    MetricsTextfile | NotifyWebhooksRequired | WebhookURLNotBoth nat | WebhookURLEnvName nat bytes | WebhookURLShape nat
  | WebhookURLNeither nat | WebhookSecretEnvName nat bytes | WebhookUnknownOutcome nat bytes | WebhookDuplicateOutcome nat bytes
  | TargetNameRequired | AdapterMissing | AdapterNamePattern bytes | SourceKindRequired | CredentialEnvName bytes
  | SourceSelectValue bytes | SourceSelectTwice | PitrExactlyOne | PitrBadTargetTime bytes | PitrFutureTargetTime bytes
  | ProviderRequired | TimeoutRequired | ChecksRequired | EvidencePathRequired | SignKeyRequired
  | BuiltinOrSQLNotBoth nat | BuiltinOrSQL nat | ExpectOnlySQL nat | NameOnlySQL nat | UnknownBuiltin nat bytes
  | RequiresTable nat bytes | TableNotValid nat bytes | ColumnNotValid nat bytes | MinMaxNotValid nat bytes | MaxAgeNotValid nat bytes
  | RowCountBounds nat | RowCountNegative nat | RowCountMinMax nat int int | FreshnessColumn nat | FreshnessMaxAge nat
  | BaselineManifest nat | SQLExpect nat

definition add_if :: "bool \<Rightarrow> 'p \<Rightarrow> 'p list" where
  "add_if b p = (if b then [p] else [])"

definition env_name :: "bytes \<Rightarrow> bool" where
  "env_name s = identifier_part s"

definition is_lower :: "char \<Rightarrow> bool" where
  "is_lower c \<longleftrightarrow> 97 \<le> code c \<and> code c \<le> 122"

definition adapter_name_ok :: "bytes \<Rightarrow> bool" where
  "adapter_name_ok s = (case s of [] \<Rightarrow> False
     | c # t \<Rightarrow> (is_lower c \<or> is_digit c) \<and> list_all (\<lambda>d. is_lower d \<or> is_digit d \<or> d = CHR ''-'') t)"

definition select_param :: bytes where "select_param = ''select''"

definition select_policies :: "bytes list" where
  "select_policies = [''newest'', ''oldest'', ''random'']"

definition notify_outcomes :: "bytes list" where
  "notify_outcomes = [''pass'', ''fail'', ''error'', ''cancelled'']"

subsection \<open>Target, sandbox, evidence, notifications\<close>

definition validate_source :: "source \<Rightarrow> problem list" where
  "validate_source s =
    map CredentialEnvName (filter (\<lambda>n. \<not> env_name n) (src_credential_env s)) @
    (if src_select s = [] then []
     else add_if (src_select s \<notin> set select_policies) (SourceSelectValue (src_select s)) @
       add_if (map_of (src_params s) select_param \<noteq> None) SourceSelectTwice)"

definition pitr_clock_skew_grace :: int where "pitr_clock_skew_grace = 60 * nanos_per_second"

definition zero_time :: int where "zero_time = instant_of 1 1 1 0 0 0 0 0"

text \<open>\<^verbatim>\<open>validate\<close> caches the parsed time in the section it validates.\<close>

definition validate_pitr :: "int \<Rightarrow> pitr \<Rightarrow> pitr \<times> problem list" where
  "validate_pitr now pt =
    (let has_time = pt_target_time pt \<noteq> []; has_age = pt_target_age pt \<noteq> 0
     in if has_time = has_age then (pt, [PitrExactlyOne])
        else if \<not> has_time then (pt, [])
        else (case parse_layout rfc3339_nano (pt_target_time pt) of
            None \<Rightarrow> (pt, [PitrBadTargetTime (pt_target_time pt)])
          | Some ts \<Rightarrow> if ts > now + pitr_clock_skew_grace then (pt, [PitrFutureTargetTime (pt_target_time pt)])
              else (pt\<lparr> pt_parsed := ts \<rparr>, [])))"

definition resolve_pitr :: "int \<Rightarrow> pitr \<Rightarrow> int" where
  "resolve_pitr now pt = (if pt_parsed pt \<noteq> zero_time then pt_parsed pt else now - pt_target_age pt)"

definition validate_target :: "int \<Rightarrow> target \<Rightarrow> target \<times> problem list" where
  "validate_target now t =
    (let before = add_if (tg_name t = []) TargetNameRequired @
           (if tg_adapter t = [] then [AdapterMissing]
            else add_if (\<not> adapter_name_ok (tg_adapter t)) (AdapterNamePattern (tg_adapter t))) @
           add_if (src_kind (tg_source t) = []) SourceKindRequired @ validate_source (tg_source t)
     in case tg_pitr t of None \<Rightarrow> (t, before)
        | Some pt \<Rightarrow> let (pt', ps) = validate_pitr now pt in (t\<lparr> tg_pitr := Some pt' \<rparr>, before @ ps))"

definition validate_sandbox :: "sandbox_config \<Rightarrow> problem list" where
  "validate_sandbox s = add_if (sb_provider s = []) ProviderRequired @ add_if (sb_timeout s = 0) TimeoutRequired"

definition validate_evidence :: "evidence_config \<Rightarrow> problem list" where
  "validate_evidence e = add_if (ec_path e = []) EvidencePathRequired @ add_if (ec_sign_key e = []) SignKeyRequired"

fun validate_on :: "nat \<Rightarrow> bytes list \<Rightarrow> bytes set \<Rightarrow> problem list" where
  "validate_on i [] seen = []"
| "validate_on i (x # xs) seen =
    (if x \<notin> set notify_outcomes then [WebhookUnknownOutcome i x]
     else if x \<in> seen then [WebhookDuplicateOutcome i x] else []) @ validate_on i xs (insert x seen)"

text \<open>\<open>url\<close> is \<^verbatim>\<open>url.Parse\<close>: scheme and host, or an error.\<close>

definition validate_webhook :: "(bytes \<Rightarrow> (bytes \<times> bytes) option) \<Rightarrow> nat \<times> webhook \<Rightarrow> problem list" where
  "validate_webhook url = (\<lambda>(i, w).
    (if wh_url w \<noteq> [] \<and> wh_url_env w \<noteq> [] then [WebhookURLNotBoth i]
     else if wh_url_env w \<noteq> [] then add_if (\<not> env_name (wh_url_env w)) (WebhookURLEnvName i (wh_url_env w))
     else if wh_url w \<noteq> [] then
       (case url (wh_url w) of None \<Rightarrow> [WebhookURLShape i]
        | Some (scheme, host) \<Rightarrow> add_if (host = [] \<or> (scheme \<noteq> ''http'' \<and> scheme \<noteq> ''https'')) (WebhookURLShape i))
     else [WebhookURLNeither i]) @
    add_if (wh_secret_env w \<noteq> [] \<and> \<not> env_name (wh_secret_env w)) (WebhookSecretEnvName i (wh_secret_env w)) @
    validate_on i (wh_on w) {})"

definition validate_notify :: "(bytes \<Rightarrow> (bytes \<times> bytes) option) \<Rightarrow> webhook list \<Rightarrow> problem list" where
  "validate_notify url ws = (if ws = [] then [NotifyWebhooksRequired]
     else concat (map (validate_webhook url) (enumerate 0 ws)))"

subsection \<open>Checks\<close>

definition require_table :: "nat \<Rightarrow> check_config \<Rightarrow> problem list" where
  "require_table i c = add_if (ch_table c = []) (RequiresTable i (ch_builtin c))"

record fields =
  f_table :: bool
  f_column :: bool
  f_minmax :: bool
  f_max_age :: bool

definition no_fields :: fields where
  "no_fields = \<lparr> f_table = False, f_column = False, f_minmax = False, f_max_age = False \<rparr>"

definition all_fields :: fields where
  "all_fields = \<lparr> f_table = True, f_column = True, f_minmax = True, f_max_age = True \<rparr>"

definition forbid :: "nat \<Rightarrow> check_config \<Rightarrow> fields \<Rightarrow> problem list" where
  "forbid i c f =
    (let kind = (if ch_builtin c = [] then ''sql checks'' else ch_builtin c)
     in add_if (f_table f \<and> ch_table c \<noteq> []) (TableNotValid i kind) @
        add_if (f_column f \<and> ch_column c \<noteq> []) (ColumnNotValid i kind) @
        add_if (f_minmax f \<and> (ch_min c \<noteq> None \<or> ch_max c \<noteq> None)) (MinMaxNotValid i kind) @
        add_if (f_max_age f \<and> ch_max_age c \<noteq> 0) (MaxAgeNotValid i kind))"

definition negative :: "int option \<Rightarrow> bool" where
  "negative v = (case v of None \<Rightarrow> False | Some n \<Rightarrow> n < 0)"

definition validate_row_count :: "nat \<Rightarrow> check_config \<Rightarrow> problem list" where
  "validate_row_count i c = require_table i c @ forbid i c (no_fields\<lparr> f_column := True, f_max_age := True \<rparr>) @
    (if ch_min c = None \<and> ch_max c = None then [RowCountBounds i]
     else if negative (ch_min c) \<or> negative (ch_max c) then [RowCountNegative i]
     else (case (ch_min c, ch_max c) of
         (Some lo, Some hi) \<Rightarrow> add_if (lo > hi) (RowCountMinMax i lo hi) | _ \<Rightarrow> []))"

definition validate_freshness :: "nat \<Rightarrow> check_config \<Rightarrow> problem list" where
  "validate_freshness i c = require_table i c @ forbid i c (no_fields\<lparr> f_minmax := True \<rparr>) @
    add_if (ch_column c = []) (FreshnessColumn i) @ add_if (ch_max_age c = 0) (FreshnessMaxAge i)"

definition validate_baseline_check :: "nat \<Rightarrow> check_config \<Rightarrow> bool \<Rightarrow> problem list" where
  "validate_baseline_check i c has_manifest = forbid i c all_fields @ add_if (\<not> has_manifest) (BaselineManifest i)"

definition validate_builtin :: "nat \<Rightarrow> check_config \<Rightarrow> bool \<Rightarrow> problem list" where
  "validate_builtin i c has_manifest =
    add_if (sc_set (ch_expect c)) (ExpectOnlySQL i) @ add_if (ch_name c \<noteq> []) (NameOnlySQL i) @
    (case lookup_check_kind (ch_builtin c) of
       None \<Rightarrow> [UnknownBuiltin i (ch_builtin c)]
     | Some k \<Rightarrow>
       if \<not> ck_builtin k then [UnknownBuiltin i (ch_builtin c)]
       else if ck_id k = k_service_healthy then forbid i c all_fields
       else if ck_id k = k_table_exists then require_table i c @ forbid i c (all_fields\<lparr> f_table := False \<rparr>)
       else if ck_id k = k_row_count then validate_row_count i c
       else if ck_id k = k_freshness then validate_freshness i c
       else if ck_id k = k_baseline then validate_baseline_check i c has_manifest
       else [UnknownBuiltin i (ch_builtin c)])"

definition validate_sql :: "nat \<Rightarrow> check_config \<Rightarrow> problem list" where
  "validate_sql i c = add_if (\<not> sc_set (ch_expect c)) (SQLExpect i) @ forbid i c all_fields"

definition validate_check_config :: "bool \<Rightarrow> nat \<times> check_config \<Rightarrow> problem list" where
  "validate_check_config has_manifest = (\<lambda>(i, c).
    if ch_builtin c \<noteq> [] \<and> ch_sql c \<noteq> [] then [BuiltinOrSQLNotBoth i]
    else if ch_builtin c \<noteq> [] then validate_builtin i c has_manifest
    else if ch_sql c \<noteq> [] then validate_sql i c
    else [BuiltinOrSQL i])"

definition validate_check_list :: "drill_config \<Rightarrow> problem list" where
  "validate_check_list c = (if dc_checks c = [] then [ChecksRequired]
     else concat (map (validate_check_config (src_manifest (tg_source (dc_target c)) \<noteq> [])) (enumerate 0 (dc_checks c))))"

definition validate_config :: "(bytes \<Rightarrow> (bytes \<times> bytes) option) \<Rightarrow> int \<Rightarrow> drill_config \<Rightarrow> drill_config \<times> problem list" where
  "validate_config url now c =
    (let (t, ps) = validate_target now (dc_target c)
     in (c\<lparr> dc_target := t \<rparr>, ps @ validate_sandbox (dc_sandbox c) @ validate_check_list c @
       validate_evidence (dc_evidence c) @
       (case dc_metrics c of None \<Rightarrow> [] | Some file \<Rightarrow> add_if (file = []) MetricsTextfile) @
       (case dc_notify c of None \<Rightarrow> [] | Some ws \<Rightarrow> validate_notify url ws)))"

subsection \<open>Loading\<close>

text \<open>
  What the decoder does with a document: a value, nothing at all (\<^verbatim>\<open>io.EOF\<close>), an error, or a panic,
  which \<open>decode_yaml\<close> turns into an error.
\<close>

datatype 'c yaml_answer = YamlValue 'c | YamlEof | YamlError bytes | YamlPanic bytes

datatype load_error = ReadConfig bytes | ConfigEmpty bytes | ParseConfig bytes bytes | InvalidConfig bytes "problem list"

definition decode_yaml :: "'c yaml_answer \<Rightarrow> 'c yaml_answer" where
  "decode_yaml a = (case a of YamlPanic r \<Rightarrow> YamlError (''the YAML decoder could not read this document: '' @ r) | _ \<Rightarrow> a)"

definition load_config :: "crypto \<Rightarrow> (bytes \<Rightarrow> (bytes \<times> bytes) option) \<Rightarrow> (bytes \<Rightarrow> drill_config yaml_answer) \<Rightarrow> (bytes \<Rightarrow> bytes + bytes) \<Rightarrow>
    int \<Rightarrow> bytes \<Rightarrow> load_error + drill_config" where
  "load_config C url yaml read now path =
    (case read path of Inl e \<Rightarrow> Inl (ReadConfig e)
     | Inr raw \<Rightarrow>
       (case decode_yaml (yaml raw) of
          YamlEof \<Rightarrow> Inl (ConfigEmpty path)
        | YamlError e \<Rightarrow> Inl (ParseConfig path e)
        | YamlPanic e \<Rightarrow> Inl (ParseConfig path e)
        | YamlValue cfg \<Rightarrow>
          let (cfg', ps) = validate_config url now (cfg\<lparr> dc_hash := digest_of C raw, dc_path := path \<rparr>)
          in if ps = [] then Inr cfg' else Inl (InvalidConfig path ps)))"

end
