(* ===== verification/Redaction.thy ===== *)
theory Redaction
  imports GoText
begin

text \<open>
  \<^verbatim>\<open>internal/redact/redact.go\<close>: masking the known secrets of a drill. A nil redactor is \<open>None\<close>. The
  properties: the redactor does not depend on the order or the repetition of the values it is given,
  and a masked text holds no secret that could not be part of the placeholder.
\<close>

definition placeholder :: bytes where
  "placeholder = ''[redacted]''"

type_synonym redactor = "bytes list option"

text \<open>Longest first, then by bytes.\<close>

definition secret_before :: "bytes \<Rightarrow> bytes \<Rightarrow> bool" where
  "secret_before a b = (if length a \<noteq> length b then length b < length a else less_bytes a b)"

fun add_secrets :: "bytes list \<Rightarrow> bytes list \<Rightarrow> bytes list" where
  "add_secrets secrets [] = secrets"
| "add_secrets secrets (v # vs) =
    (if v = [] \<or> v \<in> set secrets then add_secrets secrets vs else add_secrets (secrets @ [v]) vs)"

definition new_redactor :: "bytes list \<Rightarrow> redactor" where
  "new_redactor values = Some (isort secret_before (add_secrets [] values))"

definition redact :: "redactor \<Rightarrow> bytes \<Rightarrow> bytes" where
  "redact r s = (case r of None \<Rightarrow> s | Some secrets \<Rightarrow> fold (\<lambda>secret t. replace_all t secret placeholder) secrets s)"

subsection \<open>Which secrets are held\<close>

interpretation secretord: key_order secret_before "\<lambda>_. True"
proof
  fix a b c :: bytes
  show "\<not> secret_before a a" by (simp add: secret_before_def bytord.irrefl)
  show "secret_before a b \<Longrightarrow> secret_before b c \<Longrightarrow> secret_before a c"
    using bytord.trans [of a b c] by (auto simp: secret_before_def split: if_splits)
  show "True \<Longrightarrow> True \<Longrightarrow> a \<noteq> b \<Longrightarrow> secret_before a b \<or> secret_before b a"
    using bytord.total [of a b] by (auto simp: secret_before_def)
qed

lemma set_add_secrets: "set (add_secrets ss vs) = set ss \<union> (set vs - {[]})"
  by (induction vs arbitrary: ss) auto

lemma distinct_add_secrets: "distinct ss \<Longrightarrow> distinct (add_secrets ss vs)"
  by (induction vs arbitrary: ss) auto

text \<open>
  the order and the repetition of the values given to a redactor, and empty values, do not
  matter: two lists with the same non-empty values give the same redactor, the longest secret first.
\<close>

theorem redactor_canonical:
  assumes "set vs - {[]} = set ws - {[]}"
  shows "new_redactor vs = new_redactor ws \<and>
    (\<exists>ss. new_redactor vs = Some ss \<and> set ss = set vs - {[]} \<and> sorted_wrt (\<lambda>a b. length a \<ge> length b) ss)"
proof -
  have "isort secret_before (add_secrets [] vs) = isort secret_before (add_secrets [] ws)"
    using assms by (intro secretord.isort_unique) (simp_all add: set_add_secrets distinct_add_secrets)
  moreover have "sorted_wrt secret_before (isort secret_before (add_secrets [] vs))"
    by (intro secretord.isort_sorted) (simp_all add: distinct_add_secrets)
  then have "sorted_wrt (\<lambda>a b. length a \<ge> length b) (isort secret_before (add_secrets [] vs))"
    by (rule sorted_wrt_mono_rel [rotated]) (simp add: secret_before_def split: if_splits)
  ultimately show ?thesis using assms by (intro conjI exI [of _ "isort secret_before (add_secrets [] vs)"])
    (simp_all add: new_redactor_def set_add_secrets)
qed

theorem redactor_canonical_witness: "new_redactor [''a'', ''longer'', ''a'', ''''] = new_redactor [''longer'', ''a'']"
proof -
  have "set [''a'', ''longer'', ''a'', ''''] - {[]} = set [''longer'', ''a''] - {[]}" by auto
  from redactor_canonical [OF this] show ?thesis by blast
qed

subsection \<open>Masking\<close>

definition bracket_free :: "bytes \<Rightarrow> bool" where
  "bracket_free t \<longleftrightarrow> CHR ''['' \<notin> set t \<and> CHR '']'' \<notin> set t"

lemma placeholder_brackets: "placeholder = CHR ''['' # ''redacted'' @ '']''"
  by (simp add: placeholder_def)

lemma replace_all_cases:
  "replace_all [] old new = []"
  "old \<noteq> [] \<Longrightarrow> prefix old (c # t) \<Longrightarrow> replace_all (c # t) old new = new @ replace_all (drop (length old) (c # t)) old new"
  "\<not> (old \<noteq> [] \<and> prefix old (c # t)) \<Longrightarrow> replace_all (c # t) old new = c # replace_all t old new"
  by (subst replace_all.simps; auto)+

lemma prefix_masked:
  "prefix p (replace_all s old placeholder) \<Longrightarrow> bracket_free p \<Longrightarrow> prefix p s"
proof (induction s arbitrary: p)
  case Nil
  then show ?case by (simp add: replace_all_cases)
next
  case (Cons c s)
  show ?case
  proof (cases "old \<noteq> [] \<and> prefix old (c # s)")
    case True
    then have "replace_all (c # s) old placeholder = placeholder @ replace_all (drop (length old) (c # s)) old placeholder"
      by (intro replace_all_cases) auto
    with Cons.prems show ?thesis by (cases p) (auto simp: placeholder_brackets bracket_free_def)
  next
    case False
    with Cons show ?thesis by (cases p) (auto simp: replace_all_cases bracket_free_def)
  qed
qed

lemma prefix_before: "prefix t (u @ x # v) \<Longrightarrow> x \<notin> set t \<Longrightarrow> prefix t u"
  by (induction u arbitrary: t) (auto simp: prefix_Cons)

lemma sublist_around: "sublist t (u @ x # v) \<Longrightarrow> x \<notin> set t \<Longrightarrow> sublist t u \<or> sublist t v"
proof (induction u)
  case Nil
  then show ?case by (auto simp: sublist_Cons_right prefix_Cons)
next
  case (Cons c u)
  from Cons.prems have "prefix t (c # u @ x # v) \<or> sublist t (u @ x # v)" by (simp add: sublist_Cons_right)
  then show ?case
  proof
    assume "prefix t (c # u @ x # v)"
    with prefix_before [of t "c # u" x v] Cons.prems(2) show ?thesis by (auto simp: sublist_Cons_right)
  next
    assume "sublist t (u @ x # v)"
    with Cons show ?thesis by (auto simp: sublist_Cons_right)
  qed
qed

definition hides_in_placeholder :: "bytes \<Rightarrow> bool" where
  "hides_in_placeholder t \<longleftrightarrow> \<not> bracket_free t \<or> sublist t ''redacted''"

lemma sublist_placeholder:
  assumes "sublist t (placeholder @ u)" "\<not> hides_in_placeholder t"
  shows "sublist t u"
proof -
  from assms have b: "CHR ''['' \<notin> set t" "CHR '']'' \<notin> set t" "\<not> sublist t ''redacted''"
    by (auto simp: hides_in_placeholder_def bracket_free_def)
  with assms(1) sublist_around [of t "[]" "CHR ''[''" "''redacted'' @ CHR '']'' # u"]
  have "t = [] \<or> sublist t (''redacted'' @ CHR '']'' # u)" by (auto simp: placeholder_brackets)
  with sublist_around [of t "''redacted''" "CHR '']''" u] b show ?thesis by auto
qed

lemma sublist_masked:
  "sublist t (replace_all s old placeholder) \<Longrightarrow> \<not> hides_in_placeholder t \<Longrightarrow> sublist t s \<and> t \<noteq> old"
proof (induction s old placeholder rule: replace_all.induct)
  case (1 s old)
  have t: "t \<noteq> []" "bracket_free t" using "1.prems" by (auto simp: hides_in_placeholder_def)
  show ?case
  proof (cases s)
    case Nil
    with "1.prems" t show ?thesis by (simp add: replace_all_cases)
  next
    case (Cons c u)
    show ?thesis
    proof (cases "old \<noteq> [] \<and> prefix old s")
      case True
      with "1.prems" Cons have "sublist t (placeholder @ replace_all (drop (length old) s) old placeholder)"
        using replace_all_cases(2) [of old c u placeholder] by simp
      from sublist_placeholder [OF this "1.prems"(2)] "1.hyps"(1) [OF Cons True] "1.prems"(2)
      have "sublist t (drop (length old) s)" "t \<noteq> old" by auto
      moreover have "sublist (drop (length old) s) s" by (rule suffix_imp_sublist [OF suffix_drop])
      ultimately show ?thesis by (meson sublist_order.order_trans)
    next
      case False
      with "1.prems" Cons have r: "sublist t (c # replace_all u old placeholder)"
        using replace_all_cases(3) [of old c u placeholder] by simp
      then show ?thesis unfolding sublist_Cons_right
      proof
        assume p: "prefix t (c # replace_all u old placeholder)"
        then have "prefix t (c # u)" using t prefix_masked [of "tl t" u old]
          by (cases t) (auto simp: bracket_free_def)
        moreover from this False t Cons have "t \<noteq> old" by auto
        ultimately show ?thesis using Cons by (auto intro: prefix_imp_sublist)
      next
        assume "sublist t (replace_all u old placeholder)"
        with "1.hyps"(2) [OF Cons False] "1.prems"(2) show ?thesis by (auto simp: Cons sublist_Cons_right)
      qed
    qed
  qed
qed

lemma sublist_redacted:
  "sublist t (fold (\<lambda>secret u. replace_all u secret placeholder) secrets s) \<Longrightarrow> \<not> hides_in_placeholder t \<Longrightarrow>
    sublist t s \<and> t \<notin> set secrets"
  by (induction secrets arbitrary: s) (auto dest: sublist_masked)

text \<open>
  A masked text holds no secret: whatever the text and the values a redactor was given, a
  non-empty value does not occur in the result, unless it holds a bracket or is itself a part of the
  word redacted (then the placeholder may spell it). Masking one secret never uncovers another, and
  nothing appears that was not in the text before.
\<close>

theorem masked_text_safe:
  assumes "v \<in> set values" "v \<noteq> []" "\<not> hides_in_placeholder v"
  shows "\<not> sublist v (redact (new_redactor values) s) \<and>
    (\<forall>t. sublist t (redact (new_redactor values) s) \<longrightarrow> sublist t s \<or> hides_in_placeholder t)"
  using sublist_redacted assms by (fastforce simp: redact_def new_redactor_def set_add_secrets)

theorem masked_text_safe_witness: "\<not> sublist ''s3cret'' (redact (new_redactor [''s3'', ''s3cret'']) ''key s3cret'')"
proof -
  have "\<not> hides_in_placeholder ''s3cret''"
    by (simp add: hides_in_placeholder_def bracket_free_def sublist_Cons_right)
  then show ?thesis using masked_text_safe [of "''s3cret''" "[''s3'', ''s3cret'']" "''key s3cret''"] by simp
qed

end
