(* ===== verification/GoErrors.thy ===== *)
theory GoErrors
  imports GoText
begin

text \<open>
  Go's errors and the two text functions that the drill's messages use. An error is its text with
  the protocol error (\<^verbatim>\<open>*adapter.Error\<close>) that \<^verbatim>\<open>errors.As\<close> finds in its chain, if any: wrapping with
  \<^verbatim>\<open>%w\<close> changes the text and keeps that. \<open>go_quote\<close> is \<^verbatim>\<open>%q\<close> (\<^verbatim>\<open>strconv.Quote\<close>), whose table of printable
  runes is a parameter, and \<open>map_runes\<close> is \<^verbatim>\<open>strings.Map\<close> with a mapping that drops nothing.
\<close>

record adapter_error =
  ae_code :: bytes
  ae_message :: bytes

record go_error =
  ge_text :: bytes
  ge_adapter :: "adapter_error option"

definition plain_error :: "bytes \<Rightarrow> go_error" where
  "plain_error s = \<lparr> ge_text = s, ge_adapter = None \<rparr>"

definition protocol_error :: "adapter_error \<Rightarrow> go_error" where
  "protocol_error e = \<lparr> ge_text = ''adapter error '' @ ae_code e @ '': '' @ ae_message e, ge_adapter = Some e \<rparr>"

definition wrap_error :: "bytes \<Rightarrow> go_error \<Rightarrow> go_error" where
  "wrap_error pre e = e\<lparr> ge_text := pre @ ge_text e \<rparr>"

lemma wrap_keeps_adapter [simp]: "ge_adapter (wrap_error p e) = ge_adapter e"
  by (simp add: wrap_error_def)

text \<open>\<^verbatim>\<open>strings.Join\<close>.\<close>

fun join_with :: "bytes \<Rightarrow> bytes list \<Rightarrow> bytes" where
  "join_with sep [] = []"
| "join_with sep [p] = p"
| "join_with sep (p # ps) = p @ sep @ join_with sep ps"

subsection \<open>Quoting\<close>

fun hex_pad :: "nat \<Rightarrow> nat \<Rightarrow> bytes" where
  "hex_pad 0 n = []"
| "hex_pad (Suc w) n = hex_pad w (n div 16) @ [hex_char (n mod 16)]"

definition quoted_rune :: "(nat \<Rightarrow> bool) \<Rightarrow> nat \<Rightarrow> bytes" where
  "quoted_rune printable r =
    (if r = 0x22 \<or> r = 0x5C then [CHR 0x5C, char_of r]
     else if printable r then encode_rune r
     else if r = 7 then [CHR 0x5C, CHR ''a''] else if r = 8 then [CHR 0x5C, CHR ''b'']
     else if r = 12 then [CHR 0x5C, CHR ''f''] else if r = 10 then [CHR 0x5C, CHR ''n'']
     else if r = 13 then [CHR 0x5C, CHR ''r''] else if r = 9 then [CHR 0x5C, CHR ''t'']
     else if r = 11 then [CHR 0x5C, CHR ''v'']
     else if r < 0x20 \<or> r = 0x7F then [CHR 0x5C, CHR ''x''] @ hex_pad 2 r
     else if r < 0x10000 then [CHR 0x5C, CHR ''u''] @ hex_pad 4 r
     else [CHR 0x5C, CHR ''U''] @ hex_pad 8 r)"

function quoted_body :: "(nat \<Rightarrow> bool) \<Rightarrow> bytes \<Rightarrow> bytes" where
  "quoted_body printable s =
    (if s = [] then []
     else if bad_rune (decode_rune s) then [CHR 0x5C, CHR ''x''] @ hex_pad 2 (code (hd s)) @ quoted_body printable (drop (snd (decode_rune s)) s)
     else quoted_rune printable (fst (decode_rune s)) @ quoted_body printable (drop (snd (decode_rune s)) s))"
  by pat_completeness auto
termination
  by (relation "measure (\<lambda>(p, s). length s)") (auto intro: drop_rune_shorter)

declare quoted_body.simps [simp del]

definition go_quote :: "(nat \<Rightarrow> bool) \<Rightarrow> bytes \<Rightarrow> bytes" where
  "go_quote printable s = CHR 0x22 # quoted_body printable s @ [CHR 0x22]"

subsection \<open>Mapping the runes of a text\<close>

definition map_runes :: "(nat \<Rightarrow> nat) \<Rightarrow> bytes \<Rightarrow> bytes" where
  "map_runes f s = concat (map (\<lambda>r. encode_rune (f r)) (runes s))"

lemma encoded_runes_valid: "valid_string (concat (map encode_rune rs))"
proof -
  have "concat (map encode_rune rs) = utf8_enc (map (\<lambda>r. if scalar r then r else rune_error) rs)"
    by (induction rs) (simp_all add: utf8_enc_def encode_rune_def)
  also have "valid_string \<dots>" by (rule valid_utf8_enc) auto
  finally show ?thesis .
qed

lemma map_runes_valid: "valid_string (map_runes f s)"
  using encoded_runes_valid [of "map f (runes s)"] by (simp add: map_runes_def comp_def)

lemma encode_rune_low:
  assumes "c \<in> set (encode_rune r)" "code c < 0x80"
  shows "code c = r"
proof (cases "r < 0x80")
  case True
  with assms(1) show ?thesis by (simp add: encode_rune_ascii)
next
  case False
  let ?r = "if scalar r then r else rune_error"
  have "encode_rune r = encode_rune ?r" "scalar ?r" "0x80 \<le> ?r" using False by (simp_all add: encode_rune_def) (simp add: rune_error_def)
  with assms show ?thesis using encode_rune_high [of ?r c] by simp
qed

lemma map_runes_low:
  assumes "c \<in> set (map_runes f s)" "code c < 0x80"
  shows "\<exists>r \<in> set (runes s). f r = code c"
  using assms encode_rune_low by (force simp: map_runes_def)

end
