(* ===== verification/AdapterProtocol.thy ===== *)
theory AdapterProtocol
  imports Instants GoErrors
begin

text \<open>
  \<^verbatim>\<open>internal/adapter/protocol.go\<close>: the payloads of the four operations, version negotiation, and the
  validation of a provision result, which stands between an adapter and the evidence record. The
  operations take what the session answered (a payload or an error) and the decoder of the payload's
  struct; \<open>formats\<close> holds the printable runes of \<^verbatim>\<open>%q\<close> and the text of \<^verbatim>\<open>%g\<close>.
\<close>

subsection \<open>Floating point\<close>

text \<open>A \<^verbatim>\<open>float64\<close>; \<open>Finite m e\<close> is \<open>m * 2 ^ e\<close>.\<close>

datatype float64 = Finite int int | PosInf | NegInf | NaN

definition float_above :: "float64 \<Rightarrow> int \<Rightarrow> bool" where
  "float_above f n = (case f of
     Finite m e \<Rightarrow> if 0 \<le> e then m * 2 ^ nat e > n else m > n * 2 ^ nat (- e)
   | PosInf \<Rightarrow> True | NegInf \<Rightarrow> False | NaN \<Rightarrow> False)"

definition float_negative :: "float64 \<Rightarrow> bool" where
  "float_negative f = (case f of Finite m e \<Rightarrow> m < 0 | PosInf \<Rightarrow> False | NegInf \<Rightarrow> True | NaN \<Rightarrow> False)"

fun bit_length :: "nat \<Rightarrow> nat" where
  "bit_length n = (if n = 0 then 0 else Suc (bit_length (n div 2)))"

declare bit_length.simps [simp del]

text \<open>The nearest number of 53 bits, ties to even.\<close>

definition round53 :: "nat \<Rightarrow> int \<Rightarrow> nat \<times> int" where
  "round53 n e = (let k = bit_length n - 53; q = n div 2 ^ k; r = n mod 2 ^ k
     in (if 2 * r > 2 ^ k \<or> (2 * r = 2 ^ k \<and> odd q) then Suc q else q, e + int k))"

text \<open>\<^verbatim>\<open>math.Round\<close>, half away from zero, of a magnitude.\<close>

definition round_half :: "nat \<Rightarrow> int \<Rightarrow> nat" where
  "round_half n e = (if 0 \<le> e then n * 2 ^ nat e else (2 * n + 2 ^ nat (- e)) div (2 * 2 ^ nat (- e)))"

text \<open>
  \<^verbatim>\<open>int64(math.Round(s * 1000))\<close>; a value that no \<^verbatim>\<open>int64\<close> holds converts to the least one, as on amd64.
\<close>

definition seconds_to_ms :: "float64 \<Rightarrow> int" where
  "seconds_to_ms s = (case s of
     Finite m e \<Rightarrow>
       let (q, x) = round53 (nat \<bar>m\<bar> * 1000) e; v = int (round_half q x)
       in if 2 ^ 63 \<le> v then - (2 ^ 63) else if m < 0 then - v else v
   | _ \<Rightarrow> - (2 ^ 63))"

subsection \<open>Payloads\<close>

record probe_identifier =
  pi_open :: bytes
  pi_close :: bytes
  pi_separator :: bytes

record source_kind =
  sk_kind :: bytes
  sk_pitr :: bool
  sk_select :: "bool option"

record sql_runner =
  sr_argv :: "bytes list"
  sr_env :: "(bytes \<times> bytes) list"

record probe_result =
  pb_name :: bytes
  pb_adapter_version :: bytes
  pb_protocol_versions :: "bytes list"
  pb_engine :: bytes
  pb_sources :: "source_kind list"
  pb_sql_runner :: sql_runner
  pb_verbs_required :: "bytes list"
  pb_identifier :: "probe_identifier option"
  pb_checks :: "(bytes \<times> bytes) list"

record provision_source =
  ps_kind :: bytes
  ps_path :: bytes
  ps_params :: "(bytes \<times> bytes) list option"
  ps_credential_env :: "bytes list option"

record provision_request =
  pq_source :: provision_source
  pq_scratch_dir :: bytes
  pq_options :: "(bytes \<times> bytes) list option"
  pq_target_time :: "bytes option"

record connection =
  cn_scheme :: bytes
  cn_host :: bytes
  cn_port :: int
  cn_database :: bytes
  cn_user :: bytes
  cn_password_env :: bytes

record source_identity =
  si_checksum :: bytes
  si_size :: int
  si_created_at :: "bytes option"

record phase_seconds =
  ph_engine_ready :: float64
  ph_transfer :: float64
  ph_restore :: float64

record provision_result =
  pr_connection :: connection
  pr_identity :: source_identity
  pr_timings :: phase_seconds
  pr_state :: bytes

record healthcheck_result =
  hr_healthy :: bool
  hr_detail :: bytes

record formats =
  fm_printable :: "nat \<Rightarrow> bool"
  fm_float :: "float64 \<Rightarrow> bytes"

subsection \<open>Versions\<close>

definition protocol_version :: bytes where "protocol_version = ''probavi-adapter/1''"
definition protocol_floor :: bytes where "protocol_floor = ''probavi-adapter/0''"

definition protocol_versions :: "bytes list" where
  "protocol_versions = [protocol_version, protocol_floor]"

definition highest_common :: "bytes list \<Rightarrow> bytes" where
  "highest_common theirs = (case List.find (\<lambda>v. v \<in> set theirs) protocol_versions of None \<Rightarrow> [] | Some v \<Rightarrow> v)"

text \<open>What a runner speaks: the floor until a probe has answered.\<close>

definition spoken_protocol :: "bytes \<Rightarrow> bytes" where
  "spoken_protocol negotiated = (if negotiated = [] then protocol_floor else negotiated)"

definition crash :: "bytes \<Rightarrow> adapter_error" where
  "crash msg = \<lparr> ae_code = ''adapter_crash'', ae_message = msg \<rparr>"

text \<open>\<^verbatim>\<open>%v\<close> of a slice of strings.\<close>

definition go_strings :: "bytes list \<Rightarrow> bytes" where
  "go_strings xs = CHR ''['' # join_with '' '' xs @ '']''"

definition probe_op :: "('p \<Rightarrow> bytes + probe_result) \<Rightarrow> bytes \<Rightarrow> go_error + 'p \<Rightarrow> (go_error + probe_result) \<times> bytes" where
  "probe_op unmarshal negotiated answer =
    (case answer of Inl e \<Rightarrow> (Inl e, negotiated)
     | Inr payload \<Rightarrow>
       (case unmarshal payload of Inl e \<Rightarrow> (Inl (protocol_error (crash (''probe payload: '' @ e))), negotiated)
        | Inr res \<Rightarrow>
          if pb_name res = [] then (Inl (protocol_error (crash ''probe payload: name is empty'')), negotiated)
          else if highest_common (pb_protocol_versions res) = []
          then (Inl (protocol_error \<lparr> ae_code = ''unsupported_protocol'', ae_message = ''adapter speaks '' @
              go_strings (pb_protocol_versions res) @ '', core speaks '' @ go_strings protocol_versions \<rparr>), negotiated)
          else (Inr res, highest_common (pb_protocol_versions res))))"

subsection \<open>Provision\<close>

definition max_timing_seconds :: int where "max_timing_seconds = (2 ^ 53 - 1) div 1000"

definition validate_timing_seconds :: "formats \<Rightarrow> bytes \<Rightarrow> float64 \<Rightarrow> adapter_error + unit" where
  "validate_timing_seconds fm field s =
    (if s = NaN then Inl (crash (''provision payload: timings.'' @ field @ '' is NaN''))
     else if s = PosInf \<or> s = NegInf then Inl (crash (''provision payload: timings.'' @ field @ '' is infinite''))
     else if float_negative s
     then Inl (crash (''provision payload: negative timings ('' @ field @ '' = '' @ fm_float fm s @ '')''))
     else if float_above s max_timing_seconds
     then Inl (crash (''provision payload: timings.'' @ field @ '' ('' @ fm_float fm s @ '') exceeds what an evidence record can represent''))
     else Inr ())"

definition upper_ascii :: "char \<Rightarrow> char" where
  "upper_ascii c = (if 97 \<le> code c \<and> code c \<le> 122 then char_of (code c - 32) else c)"

text \<open>
  RFC 3339 in either case. \<^verbatim>\<open>strings.ToUpper\<close> also changes other letters, but no letter outside ASCII
  becomes a T or a Z, and no other letter parses.
\<close>

definition parse_rfc3339 :: "bytes \<Rightarrow> int option" where
  "parse_rfc3339 s = (case parse_layout rfc3339_nano s of Some t \<Rightarrow> Some t
     | None \<Rightarrow> parse_layout rfc3339_nano (map upper_ascii s))"

definition normalize_created_at :: "formats \<Rightarrow> bytes option \<Rightarrow> adapter_error + bytes option" where
  "normalize_created_at fm created = (case created of None \<Rightarrow> Inr None
     | Some s \<Rightarrow> (case parse_rfc3339 s of
         None \<Rightarrow> Inl (crash (''provision payload: source_identity.created_at '' @ go_quote (fm_printable fm) s @ '' is not an RFC 3339 instant''))
       | Some t \<Rightarrow> Inr (Some (format_ts (t - t mod 1000000)))))"

definition timing_fields :: "provision_result \<Rightarrow> (bytes \<times> float64) list" where
  "timing_fields r = [(''engine_ready_seconds'', ph_engine_ready (pr_timings r)),
     (''transfer_seconds'', ph_transfer (pr_timings r)), (''restore_seconds'', ph_restore (pr_timings r))]"

text \<open>The result is returned with its normalized instant, also when a later field is refused.\<close>

definition validate_provision_result :: "formats \<Rightarrow> provision_result \<Rightarrow> provision_result \<times> adapter_error option" where
  "validate_provision_result fm r =
    (let id = pr_identity r in
     if \<not> sha256_ref (si_checksum id)
     then (r, Some (crash (''provision payload: source_identity.checksum '' @ go_quote (fm_printable fm) (si_checksum id) @ '' is not a sha256 reference'')))
     else if si_size id < 0
     then (r, Some (crash (''provision payload: source_identity.size_bytes is negative ('' @ show_int (si_size id) @ '')'')))
     else (case normalize_created_at fm (si_created_at id) of Inl e \<Rightarrow> (r, Some e)
       | Inr created \<Rightarrow>
         let r' = r\<lparr> pr_identity := id\<lparr> si_created_at := created \<rparr> \<rparr>
         in (case steps (map (\<lambda>(n, s). validate_timing_seconds fm n s) (timing_fields r)) of
              Inl e \<Rightarrow> (r', Some e)
            | Inr u \<Rightarrow> if cn_scheme (pr_connection r) = [] then (r', Some (crash ''provision payload: connection.scheme is empty''))
                else (r', None))))"

definition normalize_provision_request :: "provision_request \<Rightarrow> provision_request" where
  "normalize_provision_request q = q\<lparr>
     pq_source := (pq_source q)\<lparr> ps_params := Some (case ps_params (pq_source q) of None \<Rightarrow> [] | Some p \<Rightarrow> p),
        ps_credential_env := Some (case ps_credential_env (pq_source q) of None \<Rightarrow> [] | Some p \<Rightarrow> p) \<rparr>,
     pq_options := Some (case pq_options q of None \<Rightarrow> [] | Some p \<Rightarrow> p),
     pq_scratch_dir := (if pq_scratch_dir q = [] then ''/tmp'' else pq_scratch_dir q) \<rparr>"

definition provision_op :: "formats \<Rightarrow> ('p \<Rightarrow> bytes + provision_result) \<Rightarrow> bool \<Rightarrow> go_error + 'p \<Rightarrow>
    provision_result option \<times> go_error option" where
  "provision_op fm unmarshal verbs answer =
    (if \<not> verbs then (None, Some (plain_error ''provision: sandbox verbs are required''))
     else (case answer of Inl e \<Rightarrow> (None, Some e)
      | Inr payload \<Rightarrow>
        (case unmarshal payload of Inl e \<Rightarrow> (None, Some (protocol_error (crash (''provision payload: '' @ e))))
         | Inr res \<Rightarrow> (case validate_provision_result fm res of (r, e) \<Rightarrow> (Some r, map_option protocol_error e)))))"

subsection \<open>Healthcheck and teardown\<close>

definition normalize_state :: "bytes \<Rightarrow> bytes" where
  "normalize_state s = (if s = [] then ''{}'' else s)"

definition healthcheck_op :: "('p \<Rightarrow> bytes + healthcheck_result) \<Rightarrow> go_error + 'p \<Rightarrow> go_error + healthcheck_result" where
  "healthcheck_op unmarshal answer = (case answer of Inl e \<Rightarrow> Inl e
     | Inr payload \<Rightarrow> (case unmarshal payload of Inl e \<Rightarrow> Inl (protocol_error (crash (''healthcheck payload: '' @ e))) | Inr r \<Rightarrow> Inr r))"

definition teardown_reasons :: "bytes list" where
  "teardown_reasons = [''completed'', ''failed'', ''timeout'', ''cancelled'']"

text \<open>The session's answer comes second: an unknown reason is refused before a process starts.\<close>

definition teardown_op :: "formats \<Rightarrow> ('p \<Rightarrow> bytes + bool) \<Rightarrow> bytes \<Rightarrow> (unit \<Rightarrow> go_error + 'p) \<Rightarrow> go_error + bool" where
  "teardown_op fm unmarshal reason answer =
    (if reason \<notin> set teardown_reasons then Inl (plain_error (''teardown: invalid reason '' @ go_quote (fm_printable fm) reason))
     else (case answer () of Inl e \<Rightarrow> Inl e
      | Inr payload \<Rightarrow> (case unmarshal payload of Inl e \<Rightarrow> Inl (protocol_error (crash (''teardown payload: '' @ e))) | Inr r \<Rightarrow> Inr r)))"

end
