(* ===== verification/Checks.thy ===== *)
theory Checks
  imports DrillConfig Redaction AdapterProtocol
begin

text \<open>
  \<^verbatim>\<open>internal/checks/checks.go\<close> and \<^verbatim>\<open>runner.go\<close>: executing the checks of a drill through the
  adapter's \<^verbatim>\<open>sql_runner\<close> template and the sandbox. The world outside (the sandbox, the adapter's
  healthcheck, the clock) is a state of any type that the injected collaborators change; the code's
  own effects are the requests it sends to the sandbox and the lines it writes to the drill host's
  log, kept as histories. An infrastructure failure is an error, a failed check is a result.
\<close>

subsection \<open>Collaborators\<close>

record exec_request =
  rq_argv :: "bytes list"
  rq_env :: "(bytes \<times> bytes) list"

record exec_result =
  xr_exit :: int
  xr_stdout :: bytes
  xr_stderr :: bytes
  xr_truncated :: bool

record log_line =
  ll_runner :: bytes
  ll_exit :: int
  ll_stderr :: bytes
  ll_truncated :: bool

record 'w check_io =
  io_world :: 'w
  io_requests :: "exec_request list"
  io_log :: "log_line list"

record dialect =
  dl_statements :: "(bytes \<times> bytes) list"
  dl_open :: bytes
  dl_close :: bytes
  dl_separator :: bytes

record runner =
  rn_argv :: "bytes list"
  rn_env :: "(bytes \<times> bytes) list"

record db_target =
  db_user :: bytes
  db_database :: bytes
  db_password :: bytes

record 'w check_deps =
  dp_exec :: "exec_request \<Rightarrow> 'w \<Rightarrow> (go_error + exec_result) \<times> 'w"
  dp_healthcheck :: "'w \<Rightarrow> (go_error + bool \<times> bytes) \<times> 'w"
  dp_runner :: runner
  dp_target :: db_target
  dp_now :: "'w \<Rightarrow> int"
  dp_redact :: redactor
  dp_dialect :: dialect
  dp_baseline :: "(bytes \<times> expectation) list"

text \<open>
  \<open>NilBound\<close> is the panic of dereferencing a bound that is not there; \<open>Unrunnable\<close> the error for a
  configuration that the loader refuses.
\<close>

datatype run_error = EmptyRunner | PasswordInArgv | ExecFailed go_error | BadName ident_error | HealthcheckFailed go_error
  | Unrunnable | NilBound | CheckFailedAt bytes run_error

record check_outcome =
  co_name :: bytes
  co_ok :: bool
  co_newest :: "int option"
  co_detail :: bytes

subsection \<open>Dialect\<close>

definition zero_dialect :: dialect where
  "zero_dialect = \<lparr> dl_statements = [], dl_open = [], dl_close = [], dl_separator = [] \<rparr>"

text \<open>What a probe declares: how the engine spells identifiers, and statements per check kind.\<close>

definition dialect_from :: "probe_result option \<Rightarrow> dialect" where
  "dialect_from probe = (case probe of None \<Rightarrow> zero_dialect
     | Some p \<Rightarrow>
       let d = (case pb_identifier p of None \<Rightarrow> zero_dialect
         | Some i \<Rightarrow> zero_dialect\<lparr> dl_open := pi_open i, dl_close := pi_close i, dl_separator := pi_separator i \<rparr>)
       in d\<lparr> dl_statements := pb_checks p \<rparr>)"

text \<open>\<^verbatim>\<open>strings.NewReplacer\<close> with the two placeholders: one pass, the first that matches at each point.\<close>

definition ph_table :: bytes where "ph_table = ''{{table}}''"
definition ph_column :: bytes where "ph_column = ''{{column}}''"

function replace_names :: "bytes \<Rightarrow> bytes \<Rightarrow> bytes \<Rightarrow> bytes" where
  "replace_names table column s =
    (if s = [] then []
     else if prefix ph_table s then table @ replace_names table column (drop (length ph_table) s)
     else if prefix ph_column s then column @ replace_names table column (drop (length ph_column) s)
     else hd s # replace_names table column (tl s))"
  by pat_completeness auto
termination
  by (relation "measure (\<lambda>(table, column, s). length s)") (auto simp: ph_table_def ph_column_def)

declare replace_names.simps [simp del]

definition statement :: "dialect \<Rightarrow> bytes \<Rightarrow> bytes \<Rightarrow> bytes \<Rightarrow> bytes \<Rightarrow> bytes" where
  "statement d kind composed table column =
    (case map_of (dl_statements d) kind of None \<Rightarrow> composed | Some tmpl \<Rightarrow> replace_names table column tmpl)"

definition quote_ident :: "dialect \<Rightarrow> bytes \<Rightarrow> ident_error + bytes" where
  "quote_ident d name =
    (let (op, cl, sep) = (if dl_separator d \<noteq> [] then (dl_open d, dl_close d, dl_separator d)
           else ([CHR 0x22], [CHR 0x22], ''.''))
     in map_sum (\<lambda>e. e) (\<lambda>parts. join_with sep (map (\<lambda>p. op @ p @ cl) parts)) (identifier_parts name))"

subsection \<open>The runner\<close>

definition ph_user :: bytes where "ph_user = ''{{user}}''"
definition ph_database :: bytes where "ph_database = ''{{database}}''"
definition ph_sql :: bytes where "ph_sql = ''{{sql}}''"
definition ph_password :: bytes where "ph_password = ''{{password}}''"

definition runner_text :: "db_target \<Rightarrow> bytes \<Rightarrow> bytes \<Rightarrow> bytes" where
  "runner_text t sql s = replace_all (replace_all (replace_all s ph_user (db_user t)) ph_database (db_database t)) ph_sql sql"

definition render_runner :: "runner \<Rightarrow> db_target \<Rightarrow> bytes \<Rightarrow> run_error + bytes list \<times> (bytes \<times> bytes) list" where
  "render_runner r t sql =
    (if rn_argv r = [] then Inl EmptyRunner
     else if list_ex (sublist ph_password) (rn_argv r) then Inl PasswordInArgv
     else Inr (map (runner_text t sql) (rn_argv r),
       map (\<lambda>(k, v). (k, replace_all (runner_text t sql v) ph_password (db_password t))) (rn_env r)))"

definition mask :: "bytes \<Rightarrow> bytes \<Rightarrow> bytes" where
  "mask s secret = (if secret = [] then s else replace_all s secret placeholder)"

definition runner_log :: "'w check_deps \<Rightarrow> bytes \<Rightarrow> exec_result \<Rightarrow> log_line" where
  "runner_log deps name res =
    \<lparr> ll_runner = name, ll_exit = xr_exit res,
      ll_stderr = redact (dp_redact deps) (mask (trim_space (xr_stderr res)) (db_password (dp_target deps))),
      ll_truncated = xr_truncated res \<rparr>"

record query_result =
  qr_succeeded :: bool
  qr_value :: bytes
  qr_exit :: int

definition query :: "'w check_deps \<Rightarrow> bytes \<Rightarrow> 'w check_io \<Rightarrow> (run_error + query_result) \<times> 'w check_io" where
  "query deps sql io =
    (case render_runner (dp_runner deps) (dp_target deps) sql of
       Inl e \<Rightarrow> (Inl e, io)
     | Inr (argv, env) \<Rightarrow>
       let req = \<lparr> rq_argv = argv, rq_env = env \<rparr>;
           (answer, w) = dp_exec deps req (io_world io);
           io' = io\<lparr> io_world := w, io_requests := io_requests io @ [req] \<rparr>
       in case answer of Inl e \<Rightarrow> (Inl (ExecFailed e), io')
          | Inr res \<Rightarrow>
            if xr_exit res \<noteq> 0
            then (Inr \<lparr> qr_succeeded = False, qr_value = [], qr_exit = xr_exit res \<rparr>,
              io'\<lparr> io_log := io_log io' @ [runner_log deps (hd argv) res] \<rparr>)
            else (Inr \<lparr> qr_succeeded = True, qr_value = trim_space (xr_stdout res), qr_exit = 0 \<rparr>, io'))"

definition runner_failure :: "query_result \<Rightarrow> bytes" where
  "runner_failure out = ''sql_runner exited '' @ show_int (qr_exit out)"

subsection \<open>Durations\<close>

definition max_duration :: int where "max_duration = 2 ^ 63 - 1"

text \<open>\<^verbatim>\<open>Time.Sub\<close> saturates.\<close>

definition sub_instants :: "int \<Rightarrow> int \<Rightarrow> int" where
  "sub_instants t u = max (- max_duration - 1) (min max_duration (t - u))"

definition frac_text :: "nat \<Rightarrow> nat \<Rightarrow> bytes" where
  "frac_text w n = (let ds = rev (dropWhile (\<lambda>c. c = CHR ''0'') (rev (pad w n))) in if ds = [] then [] else CHR ''.'' # ds)"

definition micro_sign :: bytes where "micro_sign = [CHR 0xC2, CHR 0xB5]"

text \<open>\<^verbatim>\<open>Duration.String\<close>.\<close>

definition duration_text :: "nat \<Rightarrow> bytes" where
  "duration_text u =
    (if u = 0 then ''0s''
     else if u < 1000 then show_nat u @ ''ns''
     else if u < 1000000 then show_nat (u div 1000) @ frac_text 3 (u mod 1000) @ micro_sign @ ''s''
     else if u < 1000000000 then show_nat (u div 1000000) @ frac_text 6 (u mod 1000000) @ ''ms''
     else let secs = u div 1000000000; mins = secs div 60; hours = mins div 60
       in (if hours > 0 then show_nat hours @ ''h'' else []) @ (if mins > 0 then show_nat (mins mod 60) @ ''m'' else []) @
          show_nat (secs mod 60) @ frac_text 9 (u mod 1000000000) @ ''s'')"

definition duration_string :: "int \<Rightarrow> bytes" where
  "duration_string d = (if d < 0 then CHR ''-'' # duration_text (nat (- d)) else duration_text (nat d))"

subsection \<open>The built-in checks\<close>

text \<open>\<^verbatim>\<open>if err != nil { return }\<close> with the state threaded through.\<close>

primrec and_io :: "('e + 'a) \<times> 's \<Rightarrow> ('a \<Rightarrow> 's \<Rightarrow> ('e + 'b) \<times> 's) \<Rightarrow> ('e + 'b) \<times> 's" where
  "and_io (r, s) k = (case r of Inl e \<Rightarrow> (Inl e, s) | Inr a \<Rightarrow> k a s)"

definition bounds_text :: "int option \<Rightarrow> int option \<Rightarrow> run_error + bytes" where
  "bounds_text lo hi = (case (lo, hi) of
     (Some a, Some b) \<Rightarrow> Inr (''min '' @ show_int a @ '', max '' @ show_int b)
   | (Some a, None) \<Rightarrow> Inr (''min '' @ show_int a)
   | (None, Some b) \<Rightarrow> Inr (''max '' @ show_int b)
   | (None, None) \<Rightarrow> Inl NilBound)"

definition truncate_detail :: "redactor \<Rightarrow> bytes \<Rightarrow> bytes" where
  "truncate_detail r s = truncate_line (redact r s) (int max_detail_len)"

definition composed_count :: "bytes \<Rightarrow> bytes" where
  "composed_count ident = ''SELECT count(*) FROM '' @ ident"

definition run_table_exists :: "'w check_deps \<Rightarrow> bytes \<Rightarrow> 'w check_io \<Rightarrow> (run_error + bool \<times> bytes) \<times> 'w check_io" where
  "run_table_exists deps table io =
    (case quote_ident (dp_dialect deps) table of Inl e \<Rightarrow> (Inl (BadName e), io)
     | Inr ident \<Rightarrow>
       and_io (query deps (statement (dp_dialect deps) k_table_exists (composed_count ident @ '' WHERE 1=0'') ident []) io)
         (\<lambda>out io. (Inr (if \<not> qr_succeeded out then (False, ''table is not queryable: '' @ runner_failure out)
            else (True, ''table exists'')), io)))"

definition count_rows :: "'w check_deps \<Rightarrow> bytes \<Rightarrow> 'w check_io \<Rightarrow> (run_error + bytes + int) \<times> 'w check_io" where
  "count_rows deps table io =
    (case quote_ident (dp_dialect deps) table of Inl e \<Rightarrow> (Inl (BadName e), io)
     | Inr ident \<Rightarrow>
       and_io (query deps (statement (dp_dialect deps) k_row_count (composed_count ident) ident []) io)
         (\<lambda>out io. (Inr (if \<not> qr_succeeded out then Inl (''count query failed: '' @ runner_failure out)
            else case parse_int64 (qr_value out) of None \<Rightarrow> Inl ''count query returned unexpected output''
              | Some n \<Rightarrow> Inr n), io)))"

definition within :: "int option \<Rightarrow> int option \<Rightarrow> int \<Rightarrow> bool" where
  "within lo hi n \<longleftrightarrow> (case lo of None \<Rightarrow> True | Some a \<Rightarrow> a \<le> n) \<and> (case hi of None \<Rightarrow> True | Some b \<Rightarrow> n \<le> b)"

definition run_row_count :: "'w check_deps \<Rightarrow> check_config \<Rightarrow> 'w check_io \<Rightarrow> (run_error + bool \<times> bytes) \<times> 'w check_io" where
  "run_row_count deps c io =
    and_io (count_rows deps (ch_table c) io) (\<lambda>r io. case r of Inl why \<Rightarrow> (Inr (False, why), io)
      | Inr n \<Rightarrow> (map_sum (\<lambda>e. e) (\<lambda>b. (within (ch_min c) (ch_max c) n, show_int n @ '' rows ('' @ b @ '')''))
          (bounds_text (ch_min c) (ch_max c)), io))"

definition run_one_baseline :: "'w check_deps \<Rightarrow> bytes \<Rightarrow> expectation \<Rightarrow> 'w check_io \<Rightarrow> (run_error + bool \<times> bytes) \<times> 'w check_io" where
  "run_one_baseline deps table want io =
    and_io (count_rows deps table io) (\<lambda>r io. case r of Inl why \<Rightarrow> (Inr (False, why), io)
      | Inr n \<Rightarrow> (case (satisfied want n, expectation_string want) of
           (Some ok, Some text) \<Rightarrow> (Inr (ok, show_int n @ '' rows (backup manifest states '' @ text @ '')''), io)
         | _ \<Rightarrow> (Inl NilBound, io)))"

definition run_freshness :: "'w check_deps \<Rightarrow> check_config \<Rightarrow> 'w check_io \<Rightarrow>
    (run_error + bool \<times> bytes \<times> int option) \<times> 'w check_io" where
  "run_freshness deps c io =
    (case quote_ident (dp_dialect deps) (ch_table c) of Inl e \<Rightarrow> (Inl (BadName e), io)
     | Inr table \<Rightarrow>
       (case quote_ident (dp_dialect deps) (ch_column c) of Inl e \<Rightarrow> (Inl (BadName e), io)
        | Inr column \<Rightarrow>
          and_io (query deps (statement (dp_dialect deps) k_freshness (''SELECT max('' @ column @ '') FROM '' @ table) table column) io)
            (\<lambda>out io. (Inr
              (if \<not> qr_succeeded out then (False, ''freshness query failed: '' @ runner_failure out, None)
               else if qr_value out = [] then (False, ''table has no rows or only NULL timestamps'', None)
               else (case parse_timestamp (qr_value out) of
                   None \<Rightarrow> (False, ''timestamp column returned unparseable output'', None)
                 | Some newest \<Rightarrow>
                   let age = max 0 (sub_instants (dp_now deps (io_world io)) newest)
                   in (age \<le> ch_max_age c,
                       ''newest row is '' @ duration_string (age - age mod nanos_per_second) @ '' old (max_age '' @
                         duration_string (ch_max_age c) @ '')'', Some newest))), io))))"

definition run_sql :: "'w check_deps \<Rightarrow> bytes \<Rightarrow> bytes \<Rightarrow> 'w check_io \<Rightarrow> (run_error + bool \<times> bytes) \<times> 'w check_io" where
  "run_sql deps sql expect io =
    and_io (query deps sql io) (\<lambda>out io. (Inr
      (if \<not> qr_succeeded out then (False, ''query failed: '' @ runner_failure out)
       else if qr_value out \<noteq> expect then (False, ''query returned a different value than expected'')
       else (True, ''matched expectation'')), io))"

definition run_healthcheck :: "'w check_deps \<Rightarrow> 'w check_io \<Rightarrow> (run_error + bool \<times> bytes) \<times> 'w check_io" where
  "run_healthcheck deps io =
    (let (r, w) = dp_healthcheck deps (io_world io) in (map_sum HealthcheckFailed (\<lambda>x. x) r, io\<lparr> io_world := w \<rparr>))"

subsection \<open>Running the list\<close>

definition check_label :: "check_config \<Rightarrow> nat \<Rightarrow> bytes" where
  "check_label c i =
    (if ch_sql c \<noteq> [] then (if ch_name c \<noteq> [] then ''sql:'' @ ch_name c else ''sql:'' @ show_int (int i))
     else if ch_builtin c = k_table_exists \<or> ch_builtin c = k_row_count then ch_builtin c @ '':'' @ ch_table c
     else if ch_builtin c = k_freshness then ch_builtin c @ '':'' @ ch_table c @ ''.'' @ ch_column c
     else ch_builtin c)"

definition plain_result :: "(run_error + bool \<times> bytes) \<times> 's \<Rightarrow> (run_error + bool \<times> bytes \<times> int option) \<times> 's" where
  "plain_result = map_prod (map_sum (\<lambda>e. e) (\<lambda>(ok, d). (ok, d, None))) (\<lambda>s. s)"

definition run_kind :: "'w check_deps \<Rightarrow> check_config \<Rightarrow> 'w check_io \<Rightarrow> (run_error + bool \<times> bytes \<times> int option) \<times> 'w check_io" where
  "run_kind deps c io =
    (if ch_sql c \<noteq> [] then plain_result (run_sql deps (ch_sql c) (sc_value (ch_expect c)) io)
     else if ch_builtin c = k_service_healthy then plain_result (run_healthcheck deps io)
     else if ch_builtin c = k_table_exists then plain_result (run_table_exists deps (ch_table c) io)
     else if ch_builtin c = k_row_count then plain_result (run_row_count deps c io)
     else if ch_builtin c = k_freshness then run_freshness deps c io
     else (Inl Unrunnable, io))"

definition run_one :: "'w check_deps \<Rightarrow> check_config \<Rightarrow> nat \<Rightarrow> 'w check_io \<Rightarrow> (run_error + check_outcome) \<times> 'w check_io" where
  "run_one deps c i io =
    and_io (run_kind deps c io) (\<lambda>(ok, detail, newest) io.
      (Inr \<lparr> co_name = check_label c i, co_ok = ok, co_newest = newest, co_detail = truncate_detail (dp_redact deps) detail \<rparr>, io))"

fun run_tables :: "'w check_deps \<Rightarrow> (bytes \<times> expectation) list \<Rightarrow> 'w check_io \<Rightarrow>
    check_outcome list \<times> run_error option \<times> 'w check_io" where
  "run_tables deps [] io = ([], None, io)"
| "run_tables deps ((table, want) # ts) io =
    (case run_one_baseline deps table want io of
       (Inl e, io') \<Rightarrow> ([], Some e, io')
     | (Inr (ok, detail), io') \<Rightarrow>
       let (rs, e, io'') = run_tables deps ts io'
       in (\<lparr> co_name = k_baseline @ '':'' @ table, co_ok = ok, co_newest = None,
             co_detail = truncate_detail (dp_redact deps) detail \<rparr> # rs, e, io''))"

definition run_baseline :: "'w check_deps \<Rightarrow> 'w check_io \<Rightarrow> check_outcome list \<times> run_error option \<times> 'w check_io" where
  "run_baseline deps io = run_tables deps (isort (by_key less_bytes) (dp_baseline deps)) io"

fun run_checks_from :: "'w check_deps \<Rightarrow> nat \<Rightarrow> check_config list \<Rightarrow> 'w check_io \<Rightarrow>
    check_outcome list \<times> run_error option \<times> 'w check_io" where
  "run_checks_from deps i [] io = ([], None, io)"
| "run_checks_from deps i (c # cs) io =
    (if ch_builtin c = k_baseline then
       (case run_baseline deps io of (rs, e, io') \<Rightarrow>
          (case e of Some err \<Rightarrow> (rs, Some (CheckFailedAt k_baseline err), io')
           | None \<Rightarrow> (case run_checks_from deps (Suc i) cs io' of (rs', e', io'') \<Rightarrow> (rs @ rs', e', io''))))
     else
       (case run_one deps c i io of
          (Inl err, io') \<Rightarrow> ([], Some (CheckFailedAt (check_label c i) err), io')
        | (Inr r, io') \<Rightarrow> (case run_checks_from deps (Suc i) cs io' of (rs', e', io'') \<Rightarrow> (r # rs', e', io''))))"

definition run_checks :: "'w check_deps \<Rightarrow> check_config list \<Rightarrow> 'w check_io \<Rightarrow>
    check_outcome list \<times> run_error option \<times> 'w check_io" where
  "run_checks deps cs io = run_checks_from deps 0 cs io"

end
