(* ===== verification/ConfigProps.thy ===== *)
theory ConfigProps
  imports DrillConfig
begin

text \<open>
  Properties of drill configurations: what an accepted check is, the agreement of the registry of check
  kinds with the validation rules, and the instant a point-in-time recovery is resolved to.
\<close>

subsection \<open>Accepted checks\<close>

lemma add_if_Nil [simp]: "add_if b p = [] \<longleftrightarrow> \<not> b"
  by (simp add: add_if_def)

text \<open>What validation guarantees of one check.\<close>

lemma kinds_found:
  "lookup_check_kind b = Some k \<Longrightarrow> ck_id k = b"
  by (auto simp: lookup_check_kind_def find_Some_iff)

lemma kinds_distinct [simp]:
  "k_service_healthy \<noteq> k_table_exists" "k_service_healthy \<noteq> k_row_count"
  "k_service_healthy \<noteq> k_freshness" "k_service_healthy \<noteq> k_baseline"
  "k_service_healthy \<noteq> k_sql" "k_table_exists \<noteq> k_service_healthy"
  "k_table_exists \<noteq> k_row_count" "k_table_exists \<noteq> k_freshness"
  "k_table_exists \<noteq> k_baseline" "k_table_exists \<noteq> k_sql" "k_row_count \<noteq> k_service_healthy"
  "k_row_count \<noteq> k_table_exists" "k_row_count \<noteq> k_freshness" "k_row_count \<noteq> k_baseline"
  "k_row_count \<noteq> k_sql" "k_freshness \<noteq> k_service_healthy" "k_freshness \<noteq> k_table_exists"
  "k_freshness \<noteq> k_row_count" "k_freshness \<noteq> k_baseline" "k_freshness \<noteq> k_sql"
  "k_baseline \<noteq> k_service_healthy" "k_baseline \<noteq> k_table_exists" "k_baseline \<noteq> k_row_count"
  "k_baseline \<noteq> k_freshness" "k_baseline \<noteq> k_sql" "k_sql \<noteq> k_service_healthy"
  "k_sql \<noteq> k_table_exists" "k_sql \<noteq> k_row_count" "k_sql \<noteq> k_freshness"
  "k_sql \<noteq> k_baseline"
  by (simp_all add: k_service_healthy_def k_table_exists_def k_row_count_def k_freshness_def k_baseline_def k_sql_def)

lemma config_check:
  assumes "validate_check_config m (i, c) = []"
  shows "(ch_sql c \<noteq> [] \<and> ch_builtin c = []) \<or>
    (ch_sql c = [] \<and> ch_builtin c \<in> {k_service_healthy, k_table_exists, k_row_count, k_freshness, k_baseline} \<and>
     (ch_builtin c = k_row_count \<longrightarrow> ch_min c \<noteq> None \<or> ch_max c \<noteq> None) \<and> (ch_builtin c = k_baseline \<longrightarrow> m))"
proof (cases "ch_builtin c = []")
  case True
  with assms show ?thesis by (simp add: validate_check_config_def split: if_splits)
next
  case False
  with assms have s: "ch_sql c = []" and b: "validate_builtin i c m = []"
    by (simp_all add: validate_check_config_def split: if_splits)
  from b have "lookup_check_kind (ch_builtin c) \<noteq> None" by (simp add: validate_builtin_def split: option.splits)
  then obtain k where k: "lookup_check_kind (ch_builtin c) = Some k" by blast
  note id = kinds_found [OF k]
  from b have "(if \<not> ck_builtin k then [UnknownBuiltin i (ch_builtin c)]
       else if ch_builtin c = k_service_healthy then forbid i c all_fields
       else if ch_builtin c = k_table_exists then require_table i c @ forbid i c (all_fields\<lparr> f_table := False \<rparr>)
       else if ch_builtin c = k_row_count then validate_row_count i c
       else if ch_builtin c = k_freshness then validate_freshness i c
       else if ch_builtin c = k_baseline then validate_baseline_check i c m
       else [UnknownBuiltin i (ch_builtin c)]) = []"
    unfolding validate_builtin_def k option.case append_is_Nil_conv id by (elim conjE)
  moreover have "validate_row_count i c = [] \<Longrightarrow> ch_min c \<noteq> None \<or> ch_max c \<noteq> None"
    by (auto simp: validate_row_count_def split: if_splits)
  moreover have "validate_baseline_check i c m = [] \<Longrightarrow> m" by (simp add: validate_baseline_check_def)
  ultimately show ?thesis using s by (auto split: if_splits)
qed

lemma enumerate_Nil_iff: "concat (map f (enumerate n xs)) = [] \<longleftrightarrow> (\<forall>i < length xs. f (n + i, xs ! i) = [])"
  by (induction xs arbitrary: n) (auto simp: less_Suc_eq_0_disj)

definition runnable :: "check_config \<Rightarrow> bool" where
  "runnable c \<longleftrightarrow> (\<exists>m i. validate_check_config m (i, c) = [])"

lemma config_runnable:
  assumes "validate_config url now cfg = (cfg', [])"
  shows "dc_checks cfg' = dc_checks cfg" "list_all runnable (dc_checks cfg)"
proof -
  from assms show "dc_checks cfg' = dc_checks cfg" by (auto simp: validate_config_def split: prod.splits)
  from assms have "validate_check_list cfg = []" by (auto simp: validate_config_def split: prod.splits)
  then have "\<forall>i < length (dc_checks cfg). validate_check_config (src_manifest (tg_source (dc_target cfg)) \<noteq> []) (i, dc_checks cfg ! i) = []"
    by (cases "dc_checks cfg = []") (simp_all add: validate_check_list_def enumerate_Nil_iff del: concat_eq_Nil_conv)
  then show "list_all runnable (dc_checks cfg)" unfolding list_all_length runnable_def by blast
qed

subsection \<open>The registry and the rules\<close>

definition sets_param :: "check_config \<Rightarrow> bytes \<Rightarrow> bool" where
  "sets_param c p \<longleftrightarrow> p = ''table'' \<and> ch_table c \<noteq> [] \<or> p = ''column'' \<and> ch_column c \<noteq> [] \<or>
     p = ''min'' \<and> ch_min c \<noteq> None \<or> p = ''max'' \<and> ch_max c \<noteq> None \<or> p = ''max_age'' \<and> ch_max_age c \<noteq> 0 \<or>
     p = ''sql'' \<and> ch_sql c \<noteq> [] \<or> p = ''expect'' \<and> sc_set (ch_expect c) \<or> p = ''name'' \<and> ch_name c \<noteq> []"

definition check_param_names :: "bytes list" where
  "check_param_names = [''table'', ''column'', ''min'', ''max'', ''max_age'', ''sql'', ''expect'', ''name'']"

text \<open>What a kind's \<^verbatim>\<open>Requires\<close> states in prose.\<close>

definition kind_rule :: "bool \<Rightarrow> check_config \<Rightarrow> bytes \<Rightarrow> bool" where
  "kind_rule has_manifest c k =
    (if k = k_row_count then (ch_min c \<noteq> None \<or> ch_max c \<noteq> None) \<and> \<not> negative (ch_min c) \<and> \<not> negative (ch_max c) \<and>
       (case (ch_min c, ch_max c) of (Some lo, Some hi) \<Rightarrow> lo \<le> hi | _ \<Rightarrow> True)
     else k = k_baseline \<longrightarrow> has_manifest)"

definition kind_of :: "check_config \<Rightarrow> bytes" where
  "kind_of c = (if ch_builtin c = [] then k_sql else ch_builtin c)"

lemma lookups:
  "lookup_check_kind k_service_healthy = Some (check_kinds ! 0)" "lookup_check_kind k_table_exists = Some (check_kinds ! 1)"
  "lookup_check_kind k_row_count = Some (check_kinds ! 2)" "lookup_check_kind k_freshness = Some (check_kinds ! 3)"
  "lookup_check_kind k_baseline = Some (check_kinds ! 4)" "lookup_check_kind k_sql = Some (check_kinds ! 5)"
  by (simp_all add: lookup_check_kind_def check_kinds_def numeral_eq_Suc)

lemma lookup_only: "lookup_check_kind b = Some k \<Longrightarrow> b \<in> {k_service_healthy, k_table_exists, k_row_count, k_freshness, k_baseline, k_sql}"
  by (auto simp: lookup_check_kind_def check_kinds_def split: if_splits)

lemma kind_codes: "k_service_healthy \<noteq> []" "k_table_exists \<noteq> []" "k_row_count \<noteq> []" "k_freshness \<noteq> []" "k_baseline \<noteq> []" "k_sql \<noteq> []"
  by (simp_all add: k_service_healthy_def k_table_exists_def k_row_count_def k_freshness_def k_baseline_def k_sql_def)

definition params_ok :: "check_config \<Rightarrow> check_kind \<Rightarrow> bool" where
  "params_ok c k \<longleftrightarrow> (\<forall>p \<in> set check_param_names. sets_param c p \<longrightarrow> p \<in> pm_name ` set (ck_params k)) \<and>
     (\<forall>q \<in> set (ck_params k). pm_required q \<longrightarrow> sets_param c (pm_name q))"

definition bare :: "check_config \<Rightarrow> bool" where
  "bare c \<longleftrightarrow> ch_table c = [] \<and> ch_column c = [] \<and> ch_min c = None \<and> ch_max c = None \<and>
     ch_max_age c = 0 \<and> ch_sql c = [] \<and> \<not> sc_set (ch_expect c) \<and> ch_name c = []"

lemma sets_params:
  "sets_param c ''table'' \<longleftrightarrow> ch_table c \<noteq> []" "sets_param c ''column'' \<longleftrightarrow> ch_column c \<noteq> []"
  "sets_param c ''min'' \<longleftrightarrow> ch_min c \<noteq> None" "sets_param c ''max'' \<longleftrightarrow> ch_max c \<noteq> None"
  "sets_param c ''max_age'' \<longleftrightarrow> ch_max_age c \<noteq> 0" "sets_param c ''sql'' \<longleftrightarrow> ch_sql c \<noteq> []"
  "sets_param c ''expect'' \<longleftrightarrow> sc_set (ch_expect c)" "sets_param c ''name'' \<longleftrightarrow> ch_name c \<noteq> []"
  by (simp_all add: sets_param_def)

lemma params_at:
  "params_ok c (check_kinds ! 0) \<longleftrightarrow> bare c"
  "params_ok c (check_kinds ! 1) \<longleftrightarrow> ch_table c \<noteq> [] \<and> ch_column c = [] \<and> ch_min c = None \<and> ch_max c = None \<and>
     ch_max_age c = 0 \<and> ch_sql c = [] \<and> \<not> sc_set (ch_expect c) \<and> ch_name c = []"
  "params_ok c (check_kinds ! 2) \<longleftrightarrow> ch_table c \<noteq> [] \<and> ch_column c = [] \<and>
     ch_max_age c = 0 \<and> ch_sql c = [] \<and> \<not> sc_set (ch_expect c) \<and> ch_name c = []"
  "params_ok c (check_kinds ! 3) \<longleftrightarrow> ch_table c \<noteq> [] \<and> ch_column c \<noteq> [] \<and> ch_min c = None \<and> ch_max c = None \<and>
     ch_max_age c \<noteq> 0 \<and> ch_sql c = [] \<and> \<not> sc_set (ch_expect c) \<and> ch_name c = []"
  "params_ok c (check_kinds ! 4) \<longleftrightarrow> bare c"
  "params_ok c (check_kinds ! 5) \<longleftrightarrow> ch_table c = [] \<and> ch_column c = [] \<and> ch_min c = None \<and> ch_max c = None \<and>
     ch_max_age c = 0 \<and> ch_sql c \<noteq> [] \<and> sc_set (ch_expect c)"
  by (simp_all add: params_ok_def check_kinds_def table_param_def check_param_names_def sets_params numeral_eq_Suc bare_def) blast+

lemma builtin_flags: "ck_builtin (check_kinds ! 0)" "ck_builtin (check_kinds ! 1)" "ck_builtin (check_kinds ! 2)"
  "ck_builtin (check_kinds ! 3)" "ck_builtin (check_kinds ! 4)" "\<not> ck_builtin (check_kinds ! 5)"
  "ck_id (check_kinds ! 0) = k_service_healthy" "ck_id (check_kinds ! 1) = k_table_exists" "ck_id (check_kinds ! 2) = k_row_count"
  "ck_id (check_kinds ! 3) = k_freshness" "ck_id (check_kinds ! 4) = k_baseline"
  by (simp_all add: check_kinds_def numeral_eq_Suc)

lemma forbid_Nil:
  "forbid i c f = [] \<longleftrightarrow> (f_table f \<longrightarrow> ch_table c = []) \<and> (f_column f \<longrightarrow> ch_column c = []) \<and>
     (f_minmax f \<longrightarrow> ch_min c = None \<and> ch_max c = None) \<and> (f_max_age f \<longrightarrow> ch_max_age c = 0)"
  by (auto simp: forbid_def Let_def)

lemma rule_at:
  assumes "ch_builtin c = b" "b \<noteq> []" "lookup_check_kind b = Some k" "ck_builtin k" "ck_id k = b"
  shows "validate_check_config m (i, c) = [] \<longleftrightarrow> ch_sql c = [] \<and> \<not> sc_set (ch_expect c) \<and> ch_name c = [] \<and>
    (if b = k_service_healthy then forbid i c all_fields
       else if b = k_table_exists then require_table i c @ forbid i c (all_fields\<lparr> f_table := False \<rparr>)
       else if b = k_row_count then validate_row_count i c
       else if b = k_freshness then validate_freshness i c
       else if b = k_baseline then validate_baseline_check i c m
       else [UnknownBuiltin i b]) = []"
  using assms by (auto simp: validate_check_config_def validate_builtin_def)

lemma row_count_rule:
  "validate_row_count i c = [] \<longleftrightarrow> ch_table c \<noteq> [] \<and> ch_column c = [] \<and> ch_max_age c = 0 \<and> kind_rule m c k_row_count"
  by (auto simp: validate_row_count_def require_table_def forbid_Nil no_fields_def kind_rule_def split: option.splits)

definition declared_check :: "bool \<Rightarrow> check_config \<Rightarrow> bool" where
  "declared_check m c \<longleftrightarrow> (\<exists>k. lookup_check_kind (kind_of c) = Some k \<and> (ck_builtin k \<longleftrightarrow> ch_builtin c \<noteq> []) \<and>
     params_ok c k \<and> kind_rule m c (kind_of c))"

lemma declared_builtin:
  assumes "ch_builtin c = b" "lookup_check_kind b = Some (check_kinds ! n)" "ck_builtin (check_kinds ! n)" "b \<noteq> []"
  shows "declared_check m c \<longleftrightarrow> params_ok c (check_kinds ! n) \<and> kind_rule m c b"
  using assms by (simp add: declared_check_def kind_of_def)

text \<open>
  The registry of check kinds, from which the capabilities manifest is generated, is exactly what validation
  enforces. A check of the configuration is accepted if and only if its kind is registered (as a
  built-in when it is selected with builtin), it sets no parameter that the kind does not declare and
  every one the kind requires, and it meets the rule that the kind states in prose.
\<close>

theorem registry_matches_rules: "validate_check_config m (i, c) = [] \<longleftrightarrow> declared_check m c"
proof -
  consider "ch_builtin c = []" | "ch_builtin c = k_service_healthy" | "ch_builtin c = k_table_exists" | "ch_builtin c = k_row_count"
    | "ch_builtin c = k_freshness" | "ch_builtin c = k_baseline"
    | "ch_builtin c \<notin> {[], k_service_healthy, k_table_exists, k_row_count, k_freshness, k_baseline}" by blast
  then show ?thesis
  proof cases
    case 1
    then show ?thesis
      by (auto simp: declared_check_def kind_of_def lookups builtin_flags params_at kind_rule_def kind_codes
          validate_check_config_def validate_sql_def forbid_Nil all_fields_def)
  next
    case 2
    from rule_at [OF 2 kind_codes(1) lookups(1) builtin_flags(1,7)] declared_builtin [OF 2 lookups(1) builtin_flags(1) kind_codes(1)]
    show ?thesis by (simp add: forbid_Nil all_fields_def params_at bare_def kind_rule_def) blast
  next
    case 3
    from rule_at [OF 3 kind_codes(2) lookups(2) builtin_flags(2,8)] declared_builtin [OF 3 lookups(2) builtin_flags(2) kind_codes(2)]
    show ?thesis by (simp add: forbid_Nil all_fields_def params_at(2) [unfolded One_nat_def] require_table_def kind_rule_def) blast
  next
    case 4
    from rule_at [OF 4 kind_codes(3) lookups(3) builtin_flags(3,9)] declared_builtin [OF 4 lookups(3) builtin_flags(3) kind_codes(3)]
    show ?thesis by (simp add: params_at row_count_rule [of i c m]) blast
  next
    case 5
    from rule_at [OF 5 kind_codes(4) lookups(4) builtin_flags(4,10)] declared_builtin [OF 5 lookups(4) builtin_flags(4) kind_codes(4)]
    show ?thesis by (simp add: validate_freshness_def forbid_Nil no_fields_def params_at require_table_def kind_rule_def) blast
  next
    case 6
    from rule_at [OF 6 kind_codes(5) lookups(5) builtin_flags(5,11)] declared_builtin [OF 6 lookups(5) builtin_flags(5) kind_codes(5)]
    show ?thesis by (simp add: validate_baseline_check_def forbid_Nil all_fields_def params_at bare_def kind_rule_def) blast
  next
    case 7
    then have "lookup_check_kind (ch_builtin c) = None \<or> (\<exists>k. lookup_check_kind (ch_builtin c) = Some k \<and> \<not> ck_builtin k)"
      using lookup_only lookups(6) builtin_flags(6) by (cases "lookup_check_kind (ch_builtin c)") fastforce+
    with 7 show ?thesis
      by (auto simp: declared_check_def kind_of_def validate_check_config_def validate_builtin_def)
  qed
qed

subsection \<open>Point-in-time recovery\<close>

text \<open>
  The instant a drill recovers to. If validation accepts the section, then the target time resolves to
  the instant it names, which is at most a minute ahead of the clock that validated it, and a target age
  to that long before the start of the drill; except that the target time
  0001-01-01T00:00:00Z, the zero time, is taken for no target time and resolves to the start of the drill.
\<close>

theorem pitr_resolution:
  assumes "validate_pitr now pt = (pt', [])" "pt_parsed pt = zero_time"
  shows "case parse_layout rfc3339_nano (pt_target_time pt) of
      Some ts \<Rightarrow> resolve_pitr start pt' = (if ts = zero_time then start else ts) \<and> ts \<le> now + pitr_clock_skew_grace
    | None \<Rightarrow> pt_target_time pt = [] \<and> pt_target_age pt \<noteq> 0 \<and> resolve_pitr start pt' = start - pt_target_age pt"
proof -
  have "parse_layout rfc3339_nano [] = None"
    by (simp add: rfc3339_nano_def date_layout_def parse_layout_def parse_item_def put_num_def)
  with assms show ?thesis
    by (auto simp: validate_pitr_def resolve_pitr_def Let_def split: if_splits option.splits)
qed

end
