(* ===== verification/ChecksProps.thy ===== *)
theory ChecksProps
  imports Checks ConfigProps ManifestProps
begin

text \<open>
  Properties of the check runner: what it sends to the sandbox and writes to the log, that secrets
  and engine diagnostics stay out of results, one result per check, that accepted configurations
  run, and the verdict of a freshness check.
\<close>

subsection \<open>How a run extends the histories\<close>

text \<open>
  The statements that a check can send, from the dialect, the tables of the baseline and the check alone.
\<close>

definition quoted :: "dialect \<Rightarrow> bytes \<Rightarrow> bytes list" where
  "quoted dl name = (case quote_ident dl name of Inl e \<Rightarrow> [] | Inr i \<Rightarrow> [i])"

definition count_statements :: "dialect \<Rightarrow> bytes \<Rightarrow> bytes list" where
  "count_statements dl table = [statement dl k_row_count (composed_count i) i []. i \<leftarrow> quoted dl table]"

definition check_statements :: "dialect \<Rightarrow> bytes list \<Rightarrow> check_config \<Rightarrow> bytes list" where
  "check_statements dl tables c =
    (if ch_builtin c = k_baseline then concat (map (count_statements dl) tables)
     else if ch_sql c \<noteq> [] then [ch_sql c]
     else if ch_builtin c = k_table_exists
     then [statement dl k_table_exists (composed_count i @ '' WHERE 1=0'') i []. i \<leftarrow> quoted dl (ch_table c)]
     else if ch_builtin c = k_row_count then count_statements dl (ch_table c)
     else if ch_builtin c = k_freshness
     then [statement dl k_freshness (''SELECT max('' @ j @ '') FROM '' @ i) i j. i \<leftarrow> quoted dl (ch_table c), j \<leftarrow> quoted dl (ch_column c)]
     else [])"

definition request_ok :: "'w check_deps \<Rightarrow> bytes set \<Rightarrow> exec_request \<Rightarrow> bool" where
  "request_ok deps S rq \<longleftrightarrow> (\<exists>sql \<in> S. render_runner (dp_runner deps) (dp_target deps) sql = Inr (rq_argv rq, rq_env rq))"

definition log_ok :: "'w check_deps \<Rightarrow> bytes set \<Rightarrow> log_line \<Rightarrow> bool" where
  "log_ok deps S l \<longleftrightarrow> (\<exists>sql \<in> S. \<exists>res. l = runner_log deps (runner_text (dp_target deps) sql (hd (rn_argv (dp_runner deps)))) res) \<and>
     \<not> list_ex (sublist ph_password) (rn_argv (dp_runner deps))"

definition extends :: "'w check_deps \<Rightarrow> bytes set \<Rightarrow> 'w check_io \<Rightarrow> 'w check_io \<Rightarrow> bool" where
  "extends deps S io io' \<longleftrightarrow> (\<exists>rqs ls. io_requests io' = io_requests io @ rqs \<and> (\<forall>rq \<in> set rqs. request_ok deps S rq) \<and>
     io_log io' = io_log io @ ls \<and> (\<forall>l \<in> set ls. log_ok deps S l))"

lemma extends_refl [simp]: "extends deps S io io"
  by (auto simp: extends_def)

lemma extends_trans: "extends deps S a b \<Longrightarrow> extends deps S b c \<Longrightarrow> extends deps S a c"
  by (fastforce simp: extends_def)

lemma extends_mono: "extends deps S a b \<Longrightarrow> S \<subseteq> T \<Longrightarrow> extends deps T a b"
  unfolding extends_def request_ok_def log_ok_def by blast

lemma and_io_extends:
  assumes "extends deps S io (snd r)" "\<And>a s. extends deps S s (snd (k a s))"
  shows "extends deps S io (snd (and_io r k))"
proof (cases r)
  case (Pair a s)
  with assms(1) extends_trans [OF _ assms(2)] show ?thesis by (cases a) auto
qed

lemma query_extends:
  assumes "sql \<in> S"
  shows "extends deps S io (snd (query deps sql io))"
proof (cases "render_runner (dp_runner deps) (dp_target deps) sql")
  case (Inl e)
  then show ?thesis by (simp add: query_def)
next
  case (Inr p)
  obtain argv env where p: "p = (argv, env)" by (cases p)
  let ?rq = "\<lparr> rq_argv = argv, rq_env = env \<rparr>"
  obtain answer w where a: "dp_exec deps ?rq (io_world io) = (answer, w)" by (cases "dp_exec deps ?rq (io_world io)")
  have "request_ok deps S ?rq" using Inr assms by (auto simp: request_ok_def p)
  moreover have "log_ok deps S (runner_log deps (hd argv) res)" for res
  proof -
    from Inr have "\<not> list_ex (sublist ph_password) (rn_argv (dp_runner deps))"
      "hd argv = runner_text (dp_target deps) sql (hd (rn_argv (dp_runner deps)))"
      by (auto simp: p render_runner_def hd_map split: if_splits)
    with assms show ?thesis unfolding log_ok_def by metis
  qed
  ultimately show ?thesis using Inr a by (cases answer) (auto simp: query_def p extends_def Let_def)
qed

lemma count_rows_extends: "set (count_statements (dp_dialect deps) table) \<subseteq> S \<Longrightarrow> extends deps S io (snd (count_rows deps table io))"
  by (auto simp: count_rows_def count_statements_def quoted_def intro!: and_io_extends query_extends split: sum.splits)

lemma baseline_extends: "set (count_statements (dp_dialect deps) table) \<subseteq> S \<Longrightarrow> extends deps S io (snd (run_one_baseline deps table want io))"
  by (auto simp: run_one_baseline_def intro!: and_io_extends count_rows_extends split: sum.splits option.splits prod.splits)

lemma health_extends: "extends deps S io (snd (run_healthcheck deps io))"
  by (auto simp: run_healthcheck_def extends_def split: prod.splits)

lemma plain_snd [simp]: "snd (plain_result r) = snd r"
  by (simp add: plain_result_def)

lemma kind_extends:
  assumes "ch_builtin c \<noteq> k_baseline" "set (check_statements (dp_dialect deps) tables c) \<subseteq> S"
  shows "extends deps S io (snd (run_kind deps c io))"
proof -
  have s: "extends deps S io (snd (run_sql deps (ch_sql c) expect io))" if "ch_sql c \<noteq> []" for expect
    using assms that by (auto simp: run_sql_def check_statements_def intro!: and_io_extends query_extends)
  have t: "extends deps S io (snd (run_table_exists deps (ch_table c) io))" if "ch_sql c = []" "ch_builtin c = k_table_exists"
    using assms that by (auto simp: run_table_exists_def check_statements_def quoted_def intro!: and_io_extends query_extends split: sum.splits)
  have r: "extends deps S io (snd (run_row_count deps c io))" if "ch_sql c = []" "ch_builtin c \<noteq> k_table_exists" "ch_builtin c = k_row_count"
  proof -
    have "set (count_statements (dp_dialect deps) (ch_table c)) \<subseteq> S" using assms that by (simp add: check_statements_def)
    then show ?thesis by (auto simp: run_row_count_def intro!: and_io_extends count_rows_extends split: sum.splits)
  qed
  have f: "extends deps S io (snd (run_freshness deps c io))"
    if "ch_sql c = []" "ch_builtin c \<noteq> k_table_exists" "ch_builtin c \<noteq> k_row_count" "ch_builtin c = k_freshness"
  proof -
    have "set (check_statements (dp_dialect deps) tables c) =
        set [statement (dp_dialect deps) k_freshness (''SELECT max('' @ j @ '') FROM '' @ i) i j.
          i \<leftarrow> quoted (dp_dialect deps) (ch_table c), j \<leftarrow> quoted (dp_dialect deps) (ch_column c)]"
      using assms(1) that by (simp add: check_statements_def)
    with assms(2) show ?thesis
      unfolding run_freshness_def quoted_def by (auto intro!: and_io_extends query_extends split: sum.splits)
  qed
  show ?thesis using s t r f by (simp add: run_kind_def health_extends)
qed

lemma one_extends:
  assumes "ch_builtin c \<noteq> k_baseline" "set (check_statements (dp_dialect deps) tables c) \<subseteq> S"
  shows "extends deps S io (snd (run_one deps c i io))"
  using kind_extends [OF assms] unfolding run_one_def by (rule and_io_extends) (simp split: prod.splits)

lemma tables_extends:
  "run_tables deps ts io = (rs, e, io') \<Longrightarrow> \<forall>t \<in> fst ` set ts. set (count_statements (dp_dialect deps) t) \<subseteq> S \<Longrightarrow> extends deps S io io'"
proof (induction ts arbitrary: io rs e io')
  case (Cons t ts)
  obtain table want where t: "t = (table, want)" by (cases t)
  obtain r io1 where r: "run_one_baseline deps table want io = (r, io1)" by (cases "run_one_baseline deps table want io")
  with baseline_extends [of deps table S io want] Cons.prems(2) have one: "extends deps S io io1" by (simp add: t)
  show ?case
  proof (cases r)
    case (Inl err)
    with Cons.prems r one show ?thesis by (simp add: t)
  next
    case (Inr p)
    obtain rs' e' io2 where rest: "run_tables deps ts io1 = (rs', e', io2)" by (cases "run_tables deps ts io1")
    with Cons.IH Cons.prems(2) have "extends deps S io1 io2" by simp
    with Cons.prems(1) r one Inr rest show ?thesis by (cases p) (auto simp: t intro: extends_trans)
  qed
qed simp

text \<open>Everything a run of a list of checks may send.\<close>

definition run_statements :: "'w check_deps \<Rightarrow> check_config list \<Rightarrow> bytes set" where
  "run_statements deps cs = (\<Union>c \<in> set cs. set (check_statements (dp_dialect deps) (map fst (dp_baseline deps)) c))"

lemma run_extends: "run_checks_from deps i cs io = (rs, e, io') \<Longrightarrow> run_statements deps cs \<subseteq> S \<Longrightarrow> extends deps S io io'"
proof (induction cs arbitrary: i io rs e io')
  case (Cons c cs)
  from Cons.prems(2) have S: "set (check_statements (dp_dialect deps) (map fst (dp_baseline deps)) c) \<subseteq> S" "run_statements deps cs \<subseteq> S"
    by (simp_all add: run_statements_def)
  show ?case
  proof (cases "ch_builtin c = k_baseline")
    case True
    obtain rs1 e1 io1 where b: "run_baseline deps io = (rs1, e1, io1)" by (cases "run_baseline deps io")
    have "\<forall>t \<in> fst ` set (dp_baseline deps). set (count_statements (dp_dialect deps) t) \<subseteq> S"
      using S(1) True by (auto simp: check_statements_def)
    then have one: "extends deps S io io1" using tables_extends [OF b [unfolded run_baseline_def]] by simp
    show ?thesis
    proof (cases e1)
      case None
      obtain rs2 e2 io2 where "run_checks_from deps (Suc i) cs io1 = (rs2, e2, io2)" by (cases "run_checks_from deps (Suc i) cs io1")
      with Cons.IH [OF this S(2)] Cons.prems(1) True b one None show ?thesis by (auto intro: extends_trans)
    qed (use Cons.prems True b one in auto)
  next
    case False
    obtain r io1 where r: "run_one deps c i io = (r, io1)" by (cases "run_one deps c i io")
    with one_extends [OF False S(1), of io i] have one: "extends deps S io io1" by simp
    show ?thesis
    proof (cases r)
      case (Inr a)
      obtain rs2 e2 io2 where "run_checks_from deps (Suc i) cs io1 = (rs2, e2, io2)" by (cases "run_checks_from deps (Suc i) cs io1")
      with Cons.IH [OF this S(2)] Cons.prems(1) False r one Inr show ?thesis by (auto intro: extends_trans)
    qed (use Cons.prems False r one in auto)
  qed
qed simp

subsection \<open>Details\<close>

definition detail_ok :: "'w check_deps \<Rightarrow> check_outcome \<Rightarrow> bool" where
  "detail_ok deps r \<longleftrightarrow> (\<exists>d. co_detail r = truncate_detail (dp_redact deps) d)"

lemma tables_details: "run_tables deps ts io = (rs, e, io') \<Longrightarrow> list_all (detail_ok deps) rs"
  by (induction ts arbitrary: io rs e io')
    (auto simp: detail_ok_def Let_def split: prod.splits sum.splits, blast)

lemma one_detail: "run_one deps c i io = (Inr r, io') \<Longrightarrow> detail_ok deps r \<and> co_name r = check_label c i"
  by (cases "run_kind deps c io") (auto simp: run_one_def detail_ok_def split: sum.splits)

lemma run_details: "run_checks_from deps i cs io = (rs, e, io') \<Longrightarrow> list_all (detail_ok deps) rs"
proof (induction cs arbitrary: i io rs e io')
  case (Cons c cs)
  then show ?case
    by (auto simp: run_baseline_def split: if_splits prod.splits sum.splits option.splits dest: tables_details one_detail)
qed simp

subsection \<open>Secrets\<close>

lemma sublist_truncated:
  assumes "sublist v (truncate_line s m)" "CHR ''.'' \<notin> set v"
  shows "sublist v s"
proof -
  have pre: "prefix (take k s) s" for k by (rule take_is_prefix)
  from assms(2) have "sublist v (u @ ellipsis) \<Longrightarrow> sublist v u \<or> v = []" for u
    using sublist_around [of v u "CHR ''.''" "''..''"] sublist_around [of v "[]" "CHR ''.''" "''.''"]
      sublist_around [of v "[]" "CHR ''.''" "[]"] by (auto simp: ellipsis_def)
  moreover have "sublist v (take n ellipsis) \<Longrightarrow> v = []" for n
  proof -
    assume "sublist v (take n ellipsis)"
    then have "set v \<subseteq> set (take n ellipsis)" by (auto simp: sublist_def)
    then have "set v \<subseteq> set ellipsis" using set_take_subset [of n ellipsis] by blast
    with assms(2) show "v = []" by (cases v) (auto simp: ellipsis_def)
  qed
  moreover have "sublist v (take k s) \<Longrightarrow> sublist v s" for k
    using pre [of k] by (meson prefix_imp_sublist sublist_order.order_trans)
  ultimately show ?thesis using assms(1) by (fastforce simp: truncate_line_def split: if_splits)
qed

lemma runner_text_password [simp]: "runner_text (t\<lparr> db_password := pw \<rparr>) sql = runner_text t sql"
  by (simp add: runner_text_def fun_eq_iff)

lemma request_argv:
  "request_ok deps S rq \<Longrightarrow> \<exists>sql \<in> S. rq_argv rq = map (runner_text (dp_target deps) sql) (rn_argv (dp_runner deps)) \<and>
     \<not> list_ex (sublist ph_password) (rn_argv (dp_runner deps))"
proof -
  assume "request_ok deps S rq"
  then obtain sql where "sql \<in> S" "render_runner (dp_runner deps) (dp_target deps) sql = Inr (rq_argv rq, rq_env rq)"
    by (auto simp: request_ok_def)
  then show ?thesis by (intro bexI [of _ sql]) (auto simp: render_runner_def split: if_splits)
qed

lemma redact_keeps:
  "sublist v (redact (new_redactor values) s) \<Longrightarrow> \<not> hides_in_placeholder v \<Longrightarrow> sublist v s \<and> v \<notin> set values"
  using sublist_redacted [of v "isort secret_before (add_secrets [] values)" s]
  by (auto simp: redact_def new_redactor_def set_add_secrets hides_in_placeholder_def)

lemma log_masked:
  assumes "log_ok deps S l" "dp_redact deps = new_redactor values" "\<not> hides_in_placeholder v"
    and "v \<in> set values \<or> v = db_password (dp_target deps)"
  shows "\<not> sublist v (ll_stderr l)"
proof
  assume sub: "sublist v (ll_stderr l)"
  from assms(1) obtain name res where l: "l = runner_log deps name res" by (auto simp: log_ok_def)
  have ne: "v \<noteq> []" using assms(3) by (auto simp: hides_in_placeholder_def)
  from sub redact_keeps [OF _ assms(3)] have
    m: "sublist v (mask (trim_space (xr_stderr res)) (db_password (dp_target deps)))" and n: "v \<notin> set values"
    by (auto simp: l runner_log_def assms(2))
  from n assms(4) have "v = db_password (dp_target deps)" by simp
  with m ne sublist_masked [OF _ assms(3)] show False by (auto simp: mask_def)
qed

lemma detail_masked:
  assumes "detail_ok deps r" "dp_redact deps = new_redactor values" "v \<in> set values" "\<not> hides_in_placeholder v"
    and "CHR ''.'' \<notin> set v"
  shows "\<not> sublist v (co_detail r) \<and> length (co_detail r) \<le> max_detail_len"
proof -
  from assms(1) obtain d where d: "co_detail r = truncate_line (redact (dp_redact deps) d) (int max_detail_len)"
    by (auto simp: detail_ok_def truncate_detail_def)
  have "\<not> sublist v (redact (dp_redact deps) d)" using redact_keeps [OF _ assms(4)] assms(3) by (auto simp: assms(2))
  with sublist_truncated [OF _ assms(5)] have "\<not> sublist v (co_detail r)" by (auto simp: d)
  moreover have "length (co_detail r) \<le> max_detail_len"
    using truncate_length [of "redact (dp_redact deps) d" "int max_detail_len"] by (simp add: d)
  ultimately show ?thesis by simp
qed


subsection \<open>Diagnostics\<close>

text \<open>The same sandbox with other engine diagnostics.\<close>

definition rewrite_stderr :: "(bytes \<Rightarrow> bytes) \<Rightarrow> 'w check_deps \<Rightarrow> 'w check_deps" where
  "rewrite_stderr f deps = deps\<lparr> dp_exec := \<lambda>rq w. map_prod (map_sum (\<lambda>e. e) (\<lambda>r. r\<lparr> xr_stderr := f (xr_stderr r) \<rparr>)) (\<lambda>w. w)
     (dp_exec deps rq w) \<rparr>"

definition same_but_log :: "'w check_io \<Rightarrow> 'w check_io \<Rightarrow> bool" where
  "same_but_log a b \<longleftrightarrow> io_world a = io_world b \<and> io_requests a = io_requests b"

definition agree :: "'a \<times> 'w check_io \<Rightarrow> 'a \<times> 'w check_io \<Rightarrow> bool" where
  "agree p q \<longleftrightarrow> fst p = fst q \<and> same_but_log (snd p) (snd q)"

lemma rewrite_fields [simp]:
  "dp_healthcheck (rewrite_stderr f deps) = dp_healthcheck deps" "dp_runner (rewrite_stderr f deps) = dp_runner deps"
  "dp_target (rewrite_stderr f deps) = dp_target deps" "dp_now (rewrite_stderr f deps) = dp_now deps"
  "dp_redact (rewrite_stderr f deps) = dp_redact deps" "dp_dialect (rewrite_stderr f deps) = dp_dialect deps"
  "dp_baseline (rewrite_stderr f deps) = dp_baseline deps"
  by (simp_all add: rewrite_stderr_def)

lemma and_io_agree:
  assumes "agree p q" "\<And>a s t. same_but_log s t \<Longrightarrow> agree (k a s) (l a t)"
  shows "agree (and_io p k) (and_io q l)"
  using assms by (cases p; cases q; cases "fst p") (auto simp: agree_def)

lemma query_agree:
  assumes "same_but_log a b"
  shows "agree (query (rewrite_stderr f deps) sql a) (query deps sql b)"
proof (cases "render_runner (dp_runner deps) (dp_target deps) sql")
  case (Inl e)
  with assms show ?thesis by (simp add: query_def agree_def)
next
  case (Inr p)
  obtain argv env where p: "p = (argv, env)" by (cases p)
  let ?rq = "\<lparr> rq_argv = argv, rq_env = env \<rparr>"
  have w: "io_world a = io_world b" "io_requests a = io_requests b" using assms by (simp_all add: same_but_log_def)
  obtain answer w' where x: "dp_exec deps ?rq (io_world b) = (answer, w')" by (cases "dp_exec deps ?rq (io_world b)")
  then have "dp_exec (rewrite_stderr f deps) ?rq (io_world b) = (map_sum (\<lambda>e. e) (\<lambda>r. r\<lparr> xr_stderr := f (xr_stderr r) \<rparr>) answer, w')"
    by (simp add: rewrite_stderr_def)
  with Inr p x w show ?thesis by (cases answer) (auto simp: query_def agree_def same_but_log_def Let_def)
qed

lemma agree_same: "same_but_log s t \<Longrightarrow> x = y \<Longrightarrow> agree (x, s) (y, t)"
  by (simp add: agree_def)

lemma kind_agree:
  assumes "same_but_log a b"
  shows "agree (run_table_exists (rewrite_stderr f deps) table a) (run_table_exists deps table b)"
    "agree (count_rows (rewrite_stderr f deps) table a) (count_rows deps table b)"
    "agree (run_sql (rewrite_stderr f deps) sql expect a) (run_sql deps sql expect b)"
    "agree (run_freshness (rewrite_stderr f deps) c a) (run_freshness deps c b)"
    "agree (run_healthcheck (rewrite_stderr f deps) a) (run_healthcheck deps b)"
  unfolding run_table_exists_def count_rows_def run_sql_def run_freshness_def rewrite_fields
  by (auto intro!: and_io_agree query_agree agree_same assms split: sum.splits option.splits)
    (use assms in \<open>auto simp: run_healthcheck_def agree_def same_but_log_def Let_def split: prod.splits\<close>)

lemma count_agree:
  assumes "same_but_log a b"
  shows "agree (run_row_count (rewrite_stderr f deps) c a) (run_row_count deps c b)"
    "agree (run_one_baseline (rewrite_stderr f deps) table want a) (run_one_baseline deps table want b)"
  unfolding run_row_count_def run_one_baseline_def
  by (auto intro!: and_io_agree kind_agree agree_same assms split: sum.splits option.splits)

lemma plain_agree: "agree p q \<Longrightarrow> agree (plain_result p) (plain_result q)"
  by (simp add: agree_def plain_result_def)

lemma one_agree:
  assumes "same_but_log a b"
  shows "agree (run_one (rewrite_stderr f deps) c i a) (run_one deps c i b)"
proof -
  have "agree (run_kind (rewrite_stderr f deps) c a) (run_kind deps c b)"
    by (simp add: run_kind_def plain_agree kind_agree count_agree agree_same assms)
  then show ?thesis unfolding run_one_def rewrite_fields
    by (rule and_io_agree) (auto intro: agree_same split: prod.splits)
qed

lemma tables_agree:
  "same_but_log a b \<Longrightarrow> run_tables (rewrite_stderr f deps) ts a = (rs, e, a') \<Longrightarrow> run_tables deps ts b = (rs', e', b') \<Longrightarrow>
    rs = rs' \<and> e = e' \<and> same_but_log a' b'"
proof (induction ts arbitrary: a b rs e a' rs' e' b')
  case (Cons t ts)
  obtain table want where t: "t = (table, want)" by (cases t)
  obtain r1 a1 where x: "run_one_baseline (rewrite_stderr f deps) table want a = (r1, a1)"
    by (cases "run_one_baseline (rewrite_stderr f deps) table want a")
  obtain r2 b1 where y: "run_one_baseline deps table want b = (r2, b1)" by (cases "run_one_baseline deps table want b")
  from x y count_agree(2) [OF Cons.prems(1), of f deps table want] have s: "r1 = r2" "same_but_log a1 b1"
    by (auto simp: agree_def)
  obtain rs1 e1 a2 where u: "run_tables (rewrite_stderr f deps) ts a1 = (rs1, e1, a2)" by (cases "run_tables (rewrite_stderr f deps) ts a1")
  obtain rs2 e2 b2 where v: "run_tables deps ts b1 = (rs2, e2, b2)" by (cases "run_tables deps ts b1")
  show ?case
  proof (cases r2)
    case (Inl err)
    with Cons.prems(2,3) s x y show ?thesis by (simp add: t)
  next
    case (Inr p)
    obtain ok d where p: "p = (ok, d)" by (cases p)
    from Cons.prems(2,3) s(1) x y u v show ?thesis using Cons.IH [OF s(2) u v] by (simp add: t Inr p)
  qed
qed simp

lemma run_agree:
  "same_but_log a b \<Longrightarrow> run_checks_from (rewrite_stderr f deps) i cs a = (rs, e, a') \<Longrightarrow> run_checks_from deps i cs b = (rs', e', b') \<Longrightarrow>
    rs = rs' \<and> e = e' \<and> same_but_log a' b'"
proof (induction cs arbitrary: i a b rs e a' rs' e' b')
  case (Cons c cs)
  show ?case
  proof (cases "ch_builtin c = k_baseline")
    case True
    obtain r1 e1 a1 where x: "run_baseline (rewrite_stderr f deps) a = (r1, e1, a1)" by (cases "run_baseline (rewrite_stderr f deps) a")
    obtain r2 e2 b1 where y: "run_baseline deps b = (r2, e2, b1)" by (cases "run_baseline deps b")
    from tables_agree [OF Cons.prems(1) x [unfolded run_baseline_def rewrite_fields] y [unfolded run_baseline_def]]
    have s: "r1 = r2" "e1 = e2" "same_but_log a1 b1" by simp_all
    obtain rs1 f1 a2 where u: "run_checks_from (rewrite_stderr f deps) (Suc i) cs a1 = (rs1, f1, a2)"
      by (cases "run_checks_from (rewrite_stderr f deps) (Suc i) cs a1")
    obtain rs2 f2 b2 where v: "run_checks_from deps (Suc i) cs b1 = (rs2, f2, b2)" by (cases "run_checks_from deps (Suc i) cs b1")
    from Cons.prems(2,3) True x y u v s Cons.IH [OF s(3) u v] show ?thesis by (cases e2) simp_all
  next
    case False
    obtain r1 a1 where x: "run_one (rewrite_stderr f deps) c i a = (r1, a1)" by (cases "run_one (rewrite_stderr f deps) c i a")
    obtain r2 b1 where y: "run_one deps c i b = (r2, b1)" by (cases "run_one deps c i b")
    from x y one_agree [OF Cons.prems(1), of f deps c i] have s: "r1 = r2" "same_but_log a1 b1" by (auto simp: agree_def)
    obtain rs1 f1 a2 where u: "run_checks_from (rewrite_stderr f deps) (Suc i) cs a1 = (rs1, f1, a2)"
      by (cases "run_checks_from (rewrite_stderr f deps) (Suc i) cs a1")
    obtain rs2 f2 b2 where v: "run_checks_from deps (Suc i) cs b1 = (rs2, f2, b2)" by (cases "run_checks_from deps (Suc i) cs b1")
    from Cons.prems(2,3) False x y u v s Cons.IH [OF s(2) u v] show ?thesis by (cases r2) simp_all
  qed
qed simp

text \<open>
  No engine diagnostic reaches a record. Replacing what every command wrote on its standard error
  by anything else changes no result of a run of the checks (neither verdict, detail nor the newest instant),
  no error, no later command: only the drill host's log.
\<close>

theorem diagnostics_stay_out:
  "case run_checks (rewrite_stderr f deps) cs io of (rs, e, io1) \<Rightarrow>
   case run_checks deps cs io of (rs', e', io2) \<Rightarrow>
     rs = rs' \<and> e = e' \<and> io_world io1 = io_world io2 \<and> io_requests io1 = io_requests io2"
proof -
  obtain rs e io1 where x: "run_checks_from (rewrite_stderr f deps) 0 cs io = (rs, e, io1)"
    by (cases "run_checks_from (rewrite_stderr f deps) 0 cs io")
  obtain rs' e' io2 where y: "run_checks_from deps 0 cs io = (rs', e', io2)" by (cases "run_checks_from deps 0 cs io")
  from run_agree [OF _ x y] show ?thesis by (simp add: run_checks_def x y same_but_log_def)
qed

subsection \<open>One result per check\<close>

definition labels_of :: "'w check_deps \<Rightarrow> nat \<times> check_config \<Rightarrow> bytes list" where
  "labels_of deps = (\<lambda>(i, c). if ch_builtin c = k_baseline
     then map (\<lambda>t. k_baseline @ '':'' @ t) (isort less_bytes (map fst (dp_baseline deps))) else [check_label c i])"

lemma prefix_same_length: "prefix xs ys \<Longrightarrow> length xs = length ys \<Longrightarrow> xs = ys"
  by (auto simp: prefix_def)

lemma tables_names:
  "run_tables deps ts io = (rs, e, io') \<Longrightarrow> prefix (map co_name rs) (map (\<lambda>t. k_baseline @ '':'' @ t) (map fst ts)) \<and>
    (e = None \<longrightarrow> length rs = length ts)"
proof (induction ts arbitrary: io rs e io')
  case (Cons t ts)
  then show ?case by (cases t) (fastforce simp: Let_def split: prod.splits sum.splits)
qed simp

lemma run_names:
  "run_checks_from deps i cs io = (rs, e, io') \<Longrightarrow>
    prefix (map co_name rs) (concat (map (labels_of deps) (enumerate i cs))) \<and>
    (e = None \<longrightarrow> map co_name rs = concat (map (labels_of deps) (enumerate i cs)))"
proof (induction cs arbitrary: i io rs e io')
  case (Cons c cs)
  let ?rest = "concat (map (labels_of deps) (enumerate (Suc i) cs))"
  show ?case
  proof (cases "ch_builtin c = k_baseline")
    case True
    let ?ts = "isort (by_key less_bytes) (dp_baseline deps)"
    obtain rs1 e1 io1 where b: "run_tables deps ?ts io = (rs1, e1, io1)" by (cases "run_tables deps ?ts io")
    have l: "labels_of deps (i, c) = map (\<lambda>t. k_baseline @ '':'' @ t) (map fst ?ts)"
      using True by (simp add: labels_of_def map_fst_isort)
    note n = tables_names [OF b]
    show ?thesis
    proof (cases e1)
      case None
      with n have eq: "map co_name rs1 = labels_of deps (i, c)"
        by (intro prefix_same_length) (simp_all add: l)
      obtain rs2 e2 io2 where r: "run_checks_from deps (Suc i) cs io1 = (rs2, e2, io2)" by (cases "run_checks_from deps (Suc i) cs io1")
      with Cons.IH [OF r] Cons.prems True b None eq show ?thesis by (auto simp: run_baseline_def)
    next
      case (Some err)
      with Cons.prems True b n l show ?thesis by (auto simp: run_baseline_def intro: prefix_prefix)
    qed
  next
    case False
    obtain r io1 where x: "run_one deps c i io = (r, io1)" by (cases "run_one deps c i io")
    show ?thesis
    proof (cases r)
      case (Inr a)
      with x one_detail [of deps c i io a io1] False have "labels_of deps (i, c) = [co_name a]" by (simp add: labels_of_def)
      moreover obtain rs2 e2 io2 where r: "run_checks_from deps (Suc i) cs io1 = (rs2, e2, io2)"
        by (cases "run_checks_from deps (Suc i) cs io1")
      ultimately show ?thesis using Cons.IH [OF r] Cons.prems False x Inr by auto
    qed (use Cons.prems False x in auto)
  qed
qed simp

text \<open>
  A run of the checks gives one result per configured check, in the order of the configuration and under
  the check's record name, except that baseline gives one per table of the backup manifest, in byte
  order of the tables. If the infrastructure fails on the way, the results are those before the
  failure.
\<close>

theorem one_result_per_check:
  "case run_checks deps cs io of (rs, e, io') \<Rightarrow>
     prefix (map co_name rs) (concat (map (labels_of deps) (enumerate 0 cs))) \<and>
     (case e of None \<Rightarrow> map co_name rs = concat (map (labels_of deps) (enumerate 0 cs)) | Some _ \<Rightarrow> True)"
  using run_names [of deps 0 cs io] by (auto simp: run_checks_def split: prod.splits option.splits)

subsection \<open>Accepted configurations run\<close>

definition infrastructure :: "run_error \<Rightarrow> bool" where
  "infrastructure e \<longleftrightarrow> e \<noteq> Unrunnable \<and> e \<noteq> NilBound \<and> (\<forall>l f. e \<noteq> CheckFailedAt l f)"

lemma and_io_Inl: "fst (and_io r k) = Inl e \<Longrightarrow> fst r = Inl e \<or> (\<exists>a s. fst (k a s) = Inl e \<and> fst r = Inr a)"
  by (cases r; cases "fst r") auto

lemma query_error: "fst (query deps sql io) = Inl e \<Longrightarrow> infrastructure e"
  by (auto simp: query_def render_runner_def infrastructure_def Let_def split: if_splits prod.splits sum.splits)

lemma map_sum_Inl: "map_sum f g r = Inl b \<longleftrightarrow> (\<exists>a. r = Inl a \<and> b = f a)"
  by (cases r) auto

lemma kind_error:
  "fst (run_table_exists deps table io) = Inl e \<Longrightarrow> infrastructure e"
  "fst (count_rows deps table io) = Inl e \<Longrightarrow> infrastructure e"
  "fst (run_sql deps sql expect io) = Inl e \<Longrightarrow> infrastructure e"
  "fst (run_freshness deps c io) = Inl e \<Longrightarrow> infrastructure e"
  "fst (run_healthcheck deps io) = Inl e \<Longrightarrow> infrastructure e"
  unfolding run_table_exists_def count_rows_def run_sql_def run_freshness_def
  by (auto split: sum.splits dest!: and_io_Inl query_error simp: infrastructure_def)
    (auto simp: run_healthcheck_def map_sum_Inl split: prod.splits)

lemma row_count_error:
  assumes "fst (run_row_count deps c io) = Inl e" "ch_min c \<noteq> None \<or> ch_max c \<noteq> None"
  shows "infrastructure e"
  using and_io_Inl [OF assms(1) [unfolded run_row_count_def]] assms(2)
  by (auto dest: kind_error simp: bounds_text_def split: sum.splits option.splits) (metis sum.exhaust)+

lemma baseline_error:
  assumes "fst (run_one_baseline deps table want io) = Inl e" "validate_expectation path table want = None"
  shows "infrastructure e"
proof -
  from assms(2) have "satisfied want n \<noteq> None" "expectation_string want \<noteq> None" for n
    by (auto simp: expectation_accepted satisfied_def expectation_string_def)
  with and_io_Inl [OF assms(1) [unfolded run_one_baseline_def]] show ?thesis
    by (auto dest: kind_error split: sum.splits option.splits) (metis sum.exhaust)+
qed

lemma run_kind_error:
  assumes "fst (run_kind deps c io) = Inl e" "runnable c" "ch_builtin c \<noteq> k_baseline"
  shows "infrastructure e"
proof -
  from assms(2) obtain m i where v: "validate_check_config m (i, c) = []" by (auto simp: runnable_def)
  have p: "fst (plain_result r) = Inl e \<Longrightarrow> fst r = Inl e" for r :: "(run_error + bool \<times> bytes) \<times> 'a check_io"
    by (cases r; cases "fst r") (auto simp: plain_result_def)
  from config_check [OF v] assms(1,3) show ?thesis
    by (auto simp: run_kind_def dest!: p kind_error row_count_error split: if_splits)
qed

lemma tables_error:
  "run_tables deps ts io = (rs, Some e, io') \<Longrightarrow> \<forall>(t, w) \<in> set ts. validate_expectation path t w = None \<Longrightarrow> infrastructure e"
proof (induction ts arbitrary: io rs io')
  case (Cons t ts)
  obtain table want where t: "t = (table, want)" by (cases t)
  obtain r io1 where r: "run_one_baseline deps table want io = (r, io1)" by (cases "run_one_baseline deps table want io")
  obtain rs2 e2 io2 where u: "run_tables deps ts io1 = (rs2, e2, io2)" by (cases "run_tables deps ts io1")
  show ?case
  proof (cases r)
    case (Inl err)
    with Cons.prems r baseline_error [of deps table want io err path] show ?thesis by (simp add: t)
  next
    case (Inr p)
    with Cons.prems r u Cons.IH [of io1 rs2 io2] show ?thesis by (cases p) (simp add: t)
  qed
qed simp

lemma run_error_at:
  "run_checks_from deps i cs io = (rs, Some e, io') \<Longrightarrow> list_all runnable cs \<Longrightarrow>
    \<forall>(t, w) \<in> set (dp_baseline deps). validate_expectation path t w = None \<Longrightarrow> \<exists>l err. e = CheckFailedAt l err \<and> infrastructure err"
proof (induction cs arbitrary: i io rs io')
  case (Cons c cs)
  show ?case
  proof (cases "ch_builtin c = k_baseline")
    case True
    obtain r1 e1 io1 where x: "run_baseline deps io = (r1, e1, io1)" by (cases "run_baseline deps io")
    obtain rs2 e2 io2 where u: "run_checks_from deps (Suc i) cs io1 = (rs2, e2, io2)" by (cases "run_checks_from deps (Suc i) cs io1")
    show ?thesis
    proof (cases e1)
      case None
      with Cons.prems True x u Cons.IH [of "Suc i" io1 rs2 io2] show ?thesis by simp
    next
      case (Some err)
      with x have "run_tables deps (isort (by_key less_bytes) (dp_baseline deps)) io = (r1, Some err, io1)"
        by (simp add: run_baseline_def)
      from tables_error [OF this] Cons.prems(3) have "infrastructure err" by simp
      with Cons.prems True x Some show ?thesis by auto
    qed
  next
    case False
    obtain r io1 where x: "run_one deps c i io = (r, io1)" by (cases "run_one deps c i io")
    obtain rs2 e2 io2 where u: "run_checks_from deps (Suc i) cs io1 = (rs2, e2, io2)" by (cases "run_checks_from deps (Suc i) cs io1")
    show ?thesis
    proof (cases r)
      case (Inl err)
      with x have "fst (run_kind deps c io) = Inl err"
        by (cases "run_kind deps c io") (auto simp: run_one_def split: sum.splits)
      with run_kind_error [of deps c io err] Cons.prems False have "infrastructure err" by simp
      with Cons.prems False x Inl show ?thesis by auto
    next
      case (Inr a)
      with Cons.prems False x u Cons.IH [of "Suc i" io1 rs2 io2] show ?thesis by simp
    qed
  qed
qed simp

text \<open>
  An accepted configuration runs. If the loader found no problem in a drill configuration, and the baseline
  comes from an accepted backup manifest, then whatever the collaborators do, a run of the checks
  never meets a check it cannot run and never dereferences a bound that is not there: its only errors
  are the sandbox, the adapter's healthcheck, the adapter's runner template, or an unusable name.
\<close>

theorem accepted_checks_run:
  assumes "validate_config url now cfg = (cfg', [])"
    and "read_manifest fs path = Inr (m, raw)" "mf_baseline m = Some (dp_baseline deps) \<or> dp_baseline deps = []"
  shows "case run_checks deps (dc_checks cfg') io of (rs, e, io') \<Rightarrow>
    e = None \<or> (\<exists>l err. e = Some (CheckFailedAt l err) \<and> infrastructure err)"
proof -
  obtain rs e io' where run: "run_checks_from deps 0 (dc_checks cfg') io = (rs, e, io')"
    by (cases "run_checks_from deps 0 (dc_checks cfg') io")
  have "list_all runnable (dc_checks cfg')" using config_runnable [OF assms(1)] by simp
  moreover have "\<forall>(t, w) \<in> set (dp_baseline deps). validate_expectation path t w = None"
    using assms(3) baseline_accepted(1) read_manifest_valid [OF assms(2)] by auto
  ultimately show ?thesis using run run_error_at [of deps 0 "dc_checks cfg'" io rs _ io'] by (cases e) (auto simp: run_checks_def)
qed

subsection \<open>Freshness\<close>

lemma freshness_age:
  assumes "0 \<le> limit" "limit < max_duration"
  shows "max 0 (sub_instants now newest) \<le> limit \<longleftrightarrow> now - newest \<le> limit"
  using assms by (auto simp: sub_instants_def max_def min_def max_duration_def)

text \<open>
  The verdict of a freshness check. When the query ran and printed a time in one of the known formats, the check
  passes exactly when the newest row is at most max_age old, although the subtraction of instants
  saturates and a negative age is clamped; and the instant is reported whatever the verdict is. (The limit
  is below the longest duration, 292 years, at which every age would pass.)
\<close>

theorem freshness_exact:
  assumes "quote_ident (dp_dialect deps) (ch_table c) = Inr table" "quote_ident (dp_dialect deps) (ch_column c) = Inr column"
    and "query deps (statement (dp_dialect deps) k_freshness (''SELECT max('' @ column @ '') FROM '' @ table) table column) io = (Inr out, io1)"
    and "qr_succeeded out" "parse_timestamp (qr_value out) = Some newest"
    and "0 \<le> ch_max_age c" "ch_max_age c < max_duration"
  shows "\<exists>ok detail. run_freshness deps c io = (Inr (ok, detail, Some newest), io1) \<and>
    (ok \<longleftrightarrow> dp_now deps (io_world io1) - newest \<le> ch_max_age c)"
proof -
  have "parse_timestamp [] = None"
    by (simp add: parse_timestamp_def timestamp_formats_def rfc3339_nano_def date_layout_def parse_layout_def parse_item_def put_num_def)
  with assms(5) have "qr_value out \<noteq> []" by auto
  with assms(1-5) show ?thesis using freshness_age [OF assms(6,7)]
    by (simp add: run_freshness_def Let_def)
qed


end
