(* ===== verification/CheckWitnesses.thy ===== *)
theory CheckWitnesses
  imports ChecksProps ManifestWitnesses
begin

text \<open>The properties of configurations and of the check runner at concrete inputs.\<close>

definition plain_check :: check_config where
  "plain_check = \<lparr> ch_builtin = [], ch_table = [], ch_column = [], ch_min = None, ch_max = None, ch_max_age = 0,
     ch_name = ''one'', ch_sql = ''q'', ch_expect = \<lparr> sc_set = True, sc_value = ''1'' \<rparr> \<rparr>"

definition fresh_check :: check_config where
  "fresh_check = \<lparr> ch_builtin = k_freshness, ch_table = ''t'', ch_column = ''c'', ch_min = None, ch_max = None,
     ch_max_age = 3600 * nanos_per_second, ch_name = [], ch_sql = [], ch_expect = \<lparr> sc_set = False, sc_value = [] \<rparr> \<rparr>"

definition stub_deps :: "exec_result \<Rightarrow> unit check_deps" where
  "stub_deps res = \<lparr> dp_exec = (\<lambda>rq w. (Inr res, w)), dp_healthcheck = (\<lambda>w. (Inr (True, ''up''), w)),
     dp_runner = \<lparr> rn_argv = [''psql'', ''{{sql}}''], rn_env = [(''P'', ''{{password}}'')] \<rparr>,
     dp_target = \<lparr> db_user = ''u'', db_database = ''d'', db_password = ''hunter2'' \<rparr>, dp_now = (\<lambda>w. 946688400 * nanos_per_second),
     dp_redact = new_redactor [''s3cret''], dp_dialect = zero_dialect, dp_baseline = [] \<rparr>"

definition failing_result :: exec_result where
  "failing_result = \<lparr> xr_exit = 2, xr_stdout = [], xr_stderr = ''hunter2 s3cret'', xr_truncated = False \<rparr>"

definition fresh_io :: "unit check_io" where
  "fresh_io = \<lparr> io_world = (), io_requests = [], io_log = [] \<rparr>"

definition plain_request :: exec_request where
  "plain_request = \<lparr> rq_argv = [''psql'', ''q''], rq_env = [(''P'', ''hunter2'')] \<rparr>"

lemma stub_render:
  "render_runner (dp_runner (stub_deps r)) (dp_target (stub_deps r)) ''q'' = Inr ([''psql'', ''q''], [(''P'', ''hunter2'')])"
  by code_simp

lemma stub_run:
  "run_checks (stub_deps failing_result) [plain_check] fresh_io =
    ([\<lparr> co_name = check_label plain_check 0, co_ok = False, co_newest = None,
        co_detail = truncate_detail (dp_redact (stub_deps failing_result)) (''query failed: '' @ ''sql_runner exited '' @ show_int 2) \<rparr>], None,
     \<lparr> io_world = (), io_requests = [plain_request], io_log = [runner_log (stub_deps failing_result) ''psql'' failing_result] \<rparr>)"
proof -
  have "dp_exec (stub_deps failing_result) rq w = (Inr failing_result, w)" for rq w by (simp add: stub_deps_def)
  moreover have "xr_exit failing_result = 2" by (simp add: failing_result_def)
  moreover have "ch_sql plain_check = ''q''" "ch_builtin plain_check = []" by (simp_all add: plain_check_def)
  ultimately show ?thesis
    by (simp add: run_checks_def run_one_def run_kind_def plain_result_def run_sql_def query_def stub_render
        fresh_io_def plain_request_def runner_failure_def kind_codes [symmetric])
qed

lemma unhidden: "\<not> hides_in_placeholder ''s3cret''" "\<not> hides_in_placeholder ''hunter2''"
  by (simp_all add: hides_in_placeholder_def bracket_free_def sublist_Cons_right)


definition plain_config :: drill_config where
  "plain_config = \<lparr> dc_target = \<lparr> tg_name = ''n'', tg_adapter = ''pg'', tg_source = \<lparr> src_kind = ''k'', src_path = ''p'', src_manifest = [],
       src_select = [], src_params = [], src_credential_env = [] \<rparr>, tg_options = [], tg_pitr = None \<rparr>,
     dc_sandbox = \<lparr> sb_provider = ''docker'', sb_params = None, sb_timeout = 1 \<rparr>, dc_checks = [plain_check],
     dc_evidence = \<lparr> ec_path = ''e'', ec_sign_key = ''k'' \<rparr>, dc_metrics = None, dc_notify = None, dc_hash = [], dc_path = [] \<rparr>"

lemma plain_config_ok: "validate_config (\<lambda>_. None) 0 plain_config = (plain_config, [])"
  by (simp add: validate_config_def validate_target_def validate_source_def validate_sandbox_def validate_check_list_def
      validate_check_config_def validate_sql_def forbid_def validate_evidence_def plain_config_def plain_check_def
      adapter_name_ok_def is_lower_def add_if_def)

theorem accepted_checks_run_witness:
  "case run_checks (stub_deps failing_result) (dc_checks plain_config) fresh_io of (rs, e, io') \<Rightarrow>
    e = None \<or> (\<exists>l err. e = Some (CheckFailedAt l err) \<and> infrastructure err)"
  by (rule accepted_checks_run [OF plain_config_ok sample_read]) (simp add: stub_deps_def)

definition fresh_result :: exec_result where
  "fresh_result = \<lparr> xr_exit = 0, xr_stdout = ''2000-01-01T00:30Z'', xr_stderr = [], xr_truncated = False \<rparr>"

theorem pitr_resolution_witness:
  "resolve_pitr 0 \<lparr> pt_target_time = [], pt_target_age = 5, pt_parsed = zero_time \<rparr> = -5"
proof -
  have "validate_pitr 0 \<lparr> pt_target_time = [], pt_target_age = 5, pt_parsed = zero_time \<rparr> =
      (\<lparr> pt_target_time = [], pt_target_age = 5, pt_parsed = zero_time \<rparr>, [])"
    by (simp add: validate_pitr_def)
  from pitr_resolution [OF this, of 0] show ?thesis
    by (simp add: rfc3339_nano_def date_layout_def parse_layout_def parse_item_def put_num_def)
qed

lemma fresh_parsed: "parse_timestamp ''2000-01-01T00:30Z'' = Some (946686600 * nanos_per_second)"
proof -
  have n: "\<not> is_digit (CHR ''-'')" "\<not> is_digit (CHR '':'')" "\<not> is_digit (CHR ''Z'')" by (simp_all add: is_digit_def)

  have g: "list_all is_digit ''20013''" by (simp add: is_digit_def)
  have v: "digits_val ''2000'' = 2000" "digits_val ''01'' = 1" "digits_val ''00'' = 0" "digits_val ''30'' = 30"
    by (simp_all add: digits_val_def digit_val_def)
  have at: "instant_of 2000 (Suc 0) (Suc 0) 0 30 0 0 0 = 946686600 * nanos_per_second"
    by (simp add: instant_of_def days_before_year_def days_before_month_def epoch_days_def)
  have date: "parse_items (date_layout @ is) no_parts ''2000-01-01T00:30Z'' =
      parse_items is (no_parts\<lparr> tp_year := 2000, tp_month := 1, tp_day := 1 \<rparr>) ''T00:30Z''" for "is"
    using parse_date [of "CHR ''2''" "CHR ''0''" "CHR ''0''" "CHR ''0''" "CHR ''0''" "CHR ''1''" "CHR ''0''" "CHR ''1''" "is" no_parts "''T00:30Z''"]
      g by (simp add: v)
  have spaced: "parse_layout (date_layout @ Lit CHR '' '' # is) ''2000-01-01T00:30Z'' = None" for "is"
    by (simp add: parse_layout_def date parse_item_def)
  have minute: "parse_items (minute_layout @ is) p ''00:30Z'' = parse_items is (p\<lparr> tp_hour := 0, tp_minute := 30 \<rparr>) ''Z''" for "is" p
    using g n by (simp add: minute_layout_def parse_item_def put_num_def get_num_def v)
  let ?p = "no_parts\<lparr> tp_year := 2000, tp_month := 1, tp_day := 1 \<rparr>"
  have clock: "parse_items (date_layout @ Lit CHR ''T'' # minute_layout @ is) no_parts ''2000-01-01T00:30Z'' =
      parse_items is (?p\<lparr> tp_hour := 0, tp_minute := 30 \<rparr>) ''Z''" for "is"
    unfolding date by (simp add: parse_item_def minute)
  have seconds: "parse_items (date_layout @ Lit CHR ''T'' # second_layout @ is) no_parts ''2000-01-01T00:30Z'' = None" for "is"
    unfolding second_layout_def append.assoc clock by (simp add: parse_item_def)
  have "parse_layout rfc3339_nano ''2000-01-01T00:30Z'' = None"
    "parse_layout (date_layout @ [Lit CHR ''T''] @ second_layout) ''2000-01-01T00:30Z'' = None"
    using seconds [of "[ZoneZ]"] seconds [of "[]"] by (simp_all add: parse_layout_def rfc3339_nano_def)
  moreover have "parse_layout (date_layout @ [Lit CHR ''T''] @ minute_layout @ [ZoneZ]) ''2000-01-01T00:30Z'' =
      Some (946686600 * nanos_per_second)"
    using clock [of "[ZoneZ]"] by (simp add: parse_layout_def) (simp add: parse_item_def no_parts_def at days_in_month_def)
  ultimately show ?thesis by (simp add: parse_timestamp_def timestamp_formats_def spaced)
qed

lemma fresh_trimmed: "trim_space ''2000-01-01T00:30Z'' = ''2000-01-01T00:30Z''"
  by (rule trim_space_graphic) (simp_all add: graphic_def)

lemma fresh_names: "quote_ident zero_dialect ''t'' = Inr [CHR 0x22, CHR ''t'', CHR 0x22]"
    "quote_ident zero_dialect ''c'' = Inr [CHR 0x22, CHR ''c'', CHR 0x22]"
  by code_simp+

lemma stub_answers:
  assumes "xr_exit r = 0"
  shows "\<exists>io1. query (stub_deps r) sql fresh_io = (Inr \<lparr> qr_succeeded = True, qr_value = trim_space (xr_stdout r), qr_exit = 0 \<rparr>, io1)"
proof -
  have "\<not> list_ex (sublist ph_password) [''psql'', ''{{sql}}'']" by code_simp
  with assms show ?thesis by (simp add: query_def stub_deps_def render_runner_def Let_def fresh_io_def)
qed

theorem freshness_exact_witness:
  "\<exists>detail io1. run_freshness (stub_deps fresh_result) fresh_check fresh_io =
     (Inr (True, detail, Some (946686600 * nanos_per_second)), io1)"
proof -
  let ?d = "stub_deps fresh_result"
  have d: "dp_dialect ?d = zero_dialect" "dp_now ?d w = 946688400 * nanos_per_second" for w by (simp_all add: stub_deps_def)
  have c: "ch_table fresh_check = ''t''" "ch_column fresh_check = ''c''" "ch_max_age fresh_check = 3600 * nanos_per_second"
    by (simp_all add: fresh_check_def)
  obtain io1 where q: "query ?d (statement (dp_dialect ?d) k_freshness (''SELECT max('' @ [CHR 0x22, CHR ''c'', CHR 0x22] @ '') FROM '' @
      [CHR 0x22, CHR ''t'', CHR 0x22]) [CHR 0x22, CHR ''t'', CHR 0x22] [CHR 0x22, CHR ''c'', CHR 0x22]) fresh_io =
    (Inr \<lparr> qr_succeeded = True, qr_value = ''2000-01-01T00:30Z'', qr_exit = 0 \<rparr>, io1)"
    using stub_answers [of fresh_result] by (simp add: fresh_result_def fresh_trimmed) blast
  have "quote_ident (dp_dialect ?d) (ch_table fresh_check) = Inr [CHR 0x22, CHR ''t'', CHR 0x22]"
    "quote_ident (dp_dialect ?d) (ch_column fresh_check) = Inr [CHR 0x22, CHR ''c'', CHR 0x22]"
    by (simp_all add: d c fresh_names)
  from freshness_exact [OF this q _ _ _ _, of "946686600 * nanos_per_second"] obtain ok detail where
    r: "run_freshness ?d fresh_check fresh_io = (Inr (ok, detail, Some (946686600 * nanos_per_second)), io1)"
    and "ok \<longleftrightarrow> dp_now ?d (io_world io1) - 946686600 * nanos_per_second \<le> ch_max_age fresh_check"
    by (auto simp: fresh_parsed c nanos_per_second_def max_duration_def)
  then have ok by (simp add: d c nanos_per_second_def)
  with r show ?thesis by auto
qed

end
