(* ===== verification/Drill.thy ===== *)
theory Drill
  imports Checks
begin

text \<open>
  \<^verbatim>\<open>internal/core/core.go\<close> and \<^verbatim>\<open>clock.go\<close>: one drill, from the orphan sweep to the signed record. Every
  collaborator is injected in the code and is a parameter here, a function that changes a world of any
  type; the evidence store behind \<^verbatim>\<open>Appender\<close> has a state of its own. The calls that have effects are
  kept as a history, so the order of provision, checks, teardown and destruction can be stated. Log
  lines other than those of the check runner are not modelled. A \<^verbatim>\<open>defer\<close> is written out where the
  function returns, in reverse order.
\<close>

subsection \<open>Collaborators\<close>

type_synonym sandbox_id = bytes

record facts =
  fa_image_digest :: "bytes option"
  fa_memory_bytes :: "int option"
  fa_cpus_milli :: "int option"

datatype context_error = DeadlineExceeded | ContextCanceled

datatype append_cause = CauseInvalid | CauseTooLarge | CauseNotInteger | CauseOther

record append_fault =
  af_cause :: append_cause
  af_text :: bytes

text \<open>A failed provision may still have an answer, which carries the adapter's state.\<close>

datatype provision_answer = Provisioned provision_result | ProvisionFailed "provision_result option" go_error

datatype drill_call =
    CallSweep | CallProbe | CallCreate "(bytes \<times> bytes) list option"
  | CallProvision sandbox_id provision_request | CallChecks sandbox_id "exec_request list"
  | CallTeardown sandbox_id bytes bytes | CallDestroy sandbox_id | CallAppend evidence_record

record ('w, 's) drill =
  dv_config :: drill_config
  dv_version :: bytes
  dv_os :: bytes
  dv_arch :: bytes
  dv_password :: bytes
  dv_credentials :: "bytes list"
  dv_crypto :: crypto
  dv_formats :: formats
  dv_fault_text :: "fault_message \<Rightarrow> bytes"
  dv_now :: "'w \<Rightarrow> int \<times> 'w"
  dv_hostname :: "'w \<Rightarrow> bytes option"
  dv_executable :: "'w \<Rightarrow> bytes option"
  dv_probe_clock :: "'w \<Rightarrow> bytes option \<times> 'w"
  dv_lookup_env :: "bytes \<Rightarrow> bytes option"
  dv_files :: "'w \<Rightarrow> file_system"
  dv_ctx_err :: "'w \<Rightarrow> context_error option"
  dv_adapter_path :: bytes
  dv_protocol :: "'w \<Rightarrow> bytes"
  dv_probe :: "'w \<Rightarrow> (go_error + probe_result) \<times> 'w"
  dv_provision :: "provision_request \<Rightarrow> sandbox_id \<Rightarrow> 'w \<Rightarrow> provision_answer \<times> 'w"
  dv_healthcheck :: "connection \<Rightarrow> bytes \<Rightarrow> sandbox_id \<Rightarrow> 'w \<Rightarrow> (go_error + healthcheck_result) \<times> 'w"
  dv_teardown :: "bytes \<Rightarrow> bytes \<Rightarrow> sandbox_id \<Rightarrow> 'w \<Rightarrow> go_error option \<times> 'w"
  dv_sweep :: "'w \<Rightarrow> (go_error + bytes list) \<times> 'w"
  dv_create :: "(bytes \<times> bytes) list option \<Rightarrow> 'w \<Rightarrow> (go_error + sandbox_id) \<times> 'w"
  dv_scratch_dir :: "sandbox_id \<Rightarrow> bytes"
  dv_facts :: "sandbox_id \<Rightarrow> 'w \<Rightarrow> facts \<times> 'w"
  dv_exec :: "sandbox_id \<Rightarrow> exec_request \<Rightarrow> 'w \<Rightarrow> (go_error + exec_result) \<times> 'w"
  dv_destroy :: "sandbox_id \<Rightarrow> 'w \<Rightarrow> go_error option \<times> 'w"
  dv_append :: "evidence_record \<Rightarrow> 's \<Rightarrow> (evidence_record \<times> append_fault option) \<times> 's"

record ('w, 's) drill_io =
  di_world :: 'w
  di_store :: 's
  di_calls :: "drill_call list"
  di_log :: "log_line list"

definition called :: "drill_call \<Rightarrow> ('w \<Rightarrow> 'a \<times> 'w) \<Rightarrow> ('w, 's) drill_io \<Rightarrow> 'a \<times> ('w, 's) drill_io" where
  "called c f io = (let (a, w) = f (di_world io) in (a, io\<lparr> di_world := w, di_calls := di_calls io @ [c] \<rparr>))"

text \<open>A read of the clock, of the host or of the provider's facts: no call is recorded.\<close>

definition asked :: "('w \<Rightarrow> 'a \<times> 'w) \<Rightarrow> ('w, 's) drill_io \<Rightarrow> 'a \<times> ('w, 's) drill_io" where
  "asked f io = (let (a, w) = f (di_world io) in (a, io\<lparr> di_world := w \<rparr>))"

subsection \<open>Helpers\<close>

definition drill_redactor :: "('w, 's) drill \<Rightarrow> redactor" where
  "drill_redactor d = new_redactor (dv_credentials d @ [dv_password d])"

definition sanitize_message :: "bytes \<Rightarrow> bytes" where
  "sanitize_message s = truncate_line (map_runes (\<lambda>r. if r = 10 \<or> r = 13 then 32 else r) s) (int max_error_message_len)"

definition record_message :: "('w, 's) drill \<Rightarrow> bytes \<Rightarrow> bytes" where
  "record_message d s = sanitize_message (redact (drill_redactor d) s)"

definition safe_text :: "bytes \<Rightarrow> bytes \<Rightarrow> bytes" where
  "safe_text s substitute =
    (if s = [] \<or> \<not> valid_string s \<or> CHR 0x0D \<in> set s \<or> CHR 0x0A \<in> set s \<or> length s > 256 then substitute else s)"

text \<open>\<^verbatim>\<open>Duration.Milliseconds\<close> truncates towards zero.\<close>

definition ms_since :: "int \<Rightarrow> int \<Rightarrow> int" where
  "ms_since start now = (let d = sub_instants now start in if d < 0 then - (- d div 1000000) else d div 1000000)"

definition drill_host_id :: "('w, 's) drill \<Rightarrow> 'w \<Rightarrow> bytes" where
  "drill_host_id d w = take 16 (hex_encode (sha256 (dv_crypto d)
     (case dv_hostname d w of None \<Rightarrow> ''unknown-host'' | Some n \<Rightarrow> n)))"

definition digest_at :: "('w, 's) drill \<Rightarrow> 'w \<Rightarrow> bytes \<Rightarrow> bytes option" where
  "digest_at d w path = file_digest (dv_crypto d) (case fs_read (dv_files d w) path of Inl e \<Rightarrow> None | Inr b \<Rightarrow> Some b)"

definition self_digest :: "('w, 's) drill \<Rightarrow> 'w \<Rightarrow> bytes option" where
  "self_digest d w = (case dv_executable d w of None \<Rightarrow> None | Some path \<Rightarrow> digest_at d w path)"

definition clock_answer :: "bytes option \<Rightarrow> bool option" where
  "clock_answer out = (case out of None \<Rightarrow> None
     | Some s \<Rightarrow> if trim_space s = ''yes'' then Some True else if trim_space s = ''no'' then Some False else None)"

definition no_timings :: timings where
  "no_timings = \<lparr> t_provision = None, t_engine_ready = None, t_transfer = None, t_restore = None, t_validate = None, t_total = None \<rparr>"

definition no_backup :: "bytes \<Rightarrow> backup_info" where
  "no_backup kind = \<lparr> backup_kind = kind, backup_checksum = None, size_bytes = None, created_at = None,
     manifest_hash = None, manifest_match = None, newest_data_at = None \<rparr>"

definition no_resources :: resources where
  "no_resources = \<lparr> memory_bytes = None, cpus_milli = None \<rparr>"

definition base_record :: "('w, 's) drill \<Rightarrow> ('w, 's) drill_io \<Rightarrow> evidence_record \<times> ('w, 's) drill_io" where
  "base_record d io =
    (let cfg = dv_config d;
         (pitr_at, io) = (case tg_pitr (dc_target cfg) of None \<Rightarrow> (None, io)
           | Some pt \<Rightarrow> (let (now, io) = asked (dv_now d) io in (Some (format_ts (resolve_pitr now pt)), io)));
         w = di_world io
     in (\<lparr> rec_schema = schema_id, rec_seq = 0, rec_prev_hash = [], rec_ts = [],
           rec_drill = \<lparr> drill_name = tg_name (dc_target cfg), config_hash = dc_hash cfg, pitr_target = pitr_at \<rparr>,
           rec_backup = no_backup (src_kind (tg_source (dc_target cfg))),
           rec_adapter = \<lparr> adapter_name = tg_adapter (dc_target cfg), adapter_version = None,
             adapter_protocol = protocol_floor, adapter_digest = digest_at d w (dv_adapter_path d) \<rparr>,
           rec_sandbox = \<lparr> sandbox_provider = sb_provider (dc_sandbox cfg),
             sandbox_params = Some (case sb_params (dc_sandbox cfg) of None \<Rightarrow> [] | Some ps \<Rightarrow> ps),
             image_digest = None, sandbox_resources = no_resources \<rparr>,
           rec_timings = no_timings, rec_checks = Some [], rec_outcome = [], rec_error = None,
           rec_env = \<lparr> probavi_version = dv_version d, env_os = dv_os d, env_arch = dv_arch d,
             host_id = drill_host_id d w, probavi_digest = self_digest d w, clock_synchronised = None \<rparr>,
           rec_sig = None \<rparr>, io))"

subsection \<open>Outcomes\<close>

definition fail_codes :: "bytes list" where
  "fail_codes = [''source_not_found'', ''source_unreadable'', ''source_corrupt'', ''restore_failed'', ''check_failed'']"

definition code_outcome :: "bytes \<Rightarrow> outcome" where
  "code_outcome k = (if k \<in> set fail_codes then outcome_fail
     else if k = ''cancelled'' then outcome_cancelled else outcome_error)"

definition fail_record :: "evidence_record \<Rightarrow> outcome \<Rightarrow> bytes \<Rightarrow> bytes \<Rightarrow> evidence_record" where
  "fail_record r out k msg = r\<lparr> rec_outcome := out, rec_error := Some \<lparr> err_code = k, err_message = msg \<rparr> \<rparr>"

text \<open>The code and the message a drill-phase error is classified to, before the message is masked.\<close>

definition classified :: "('w, 's) drill \<Rightarrow> context_error option \<Rightarrow> go_error \<Rightarrow> bytes \<times> bytes" where
  "classified d ctx err =
    (let (k, msg) = (case ge_adapter err of None \<Rightarrow> (''internal'', ge_text err) | Some a \<Rightarrow> (ae_code a, ae_message a));
         (k, msg) = (case ctx of
             Some DeadlineExceeded \<Rightarrow> (''timeout'', ''drill wall-clock limit exceeded: '' @ msg)
           | Some ContextCanceled \<Rightarrow> (''cancelled'', ''drill cancelled: '' @ msg)
           | None \<Rightarrow> (k, msg))
     in if is_error_code k then (k, msg)
        else (''internal'', ''adapter '' @ tg_adapter (dc_target (dv_config d)) @ '' reported unregistered error code '' @
          go_quote (fm_printable (dv_formats d)) k @ '': '' @ msg))"

definition classify_error :: "('w, 's) drill \<Rightarrow> 'w \<Rightarrow> evidence_record \<Rightarrow> go_error \<Rightarrow> evidence_record" where
  "classify_error d w r err = (let (k, msg) = classified d (dv_ctx_err d w) err
     in fail_record r (code_outcome k) k (record_message d msg))"

text \<open>A core-side failure: a manifest fault, or the core's own with its text.\<close>

definition record_fault :: "('w, 's) drill \<Rightarrow> evidence_record \<Rightarrow> bytes \<times> bytes \<Rightarrow> evidence_record" where
  "record_fault d r f = fail_record r (if fst f \<in> set fail_codes then outcome_fail else outcome_error)
     (fst f) (record_message d (snd f))"

subsection \<open>What the probe settles\<close>

definition find_kind :: "probe_result \<Rightarrow> bytes \<Rightarrow> source_kind option" where
  "find_kind p kind = List.find (\<lambda>s. sk_kind s = kind) (pb_sources p)"

definition supports_kind :: "probe_result \<Rightarrow> bytes \<Rightarrow> bool" where
  "supports_kind p kind = list_ex (\<lambda>s. sk_kind s = kind) (pb_sources p)"

definition supports_pitr :: "probe_result \<Rightarrow> bytes \<Rightarrow> bool" where
  "supports_pitr p kind = (case find_kind p kind of None \<Rightarrow> False | Some s \<Rightarrow> sk_pitr s)"

definition selects_a_backup :: "probe_result \<Rightarrow> bytes \<Rightarrow> bool" where
  "selects_a_backup p kind =
    (case List.find (\<lambda>s. sk_kind s = kind \<and> sk_select s \<noteq> None) (pb_sources p) of
       Some s \<Rightarrow> sk_select s = Some True | None \<Rightarrow> True)"

definition refused_by_probe :: "('w, 's) drill \<Rightarrow> probe_result \<Rightarrow> evidence_record \<Rightarrow> evidence_record option" where
  "refused_by_probe d p r =
    (let t = dc_target (dv_config d); kind = src_kind (tg_source t); sel = src_select (tg_source t) in
     if \<not> supports_kind p kind
     then Some (fail_record r outcome_error ''unsupported_source'' (''adapter '' @ pb_name p @ '' does not support source kind '' @ kind))
     else if tg_pitr t \<noteq> None \<and> \<not> supports_pitr p kind
     then Some (fail_record r outcome_error ''unsupported_source'' (''source kind '' @ kind @
       '' does not support point-in-time recovery (adapter '' @ pb_name p @ '')''))
     else if sel \<noteq> [] \<and> \<not> selects_a_backup p kind
     then Some (fail_record r outcome_error ''invalid_request'' (''source kind '' @ kind @ '' chooses no backup, so select='' @ sel @
       '' cannot apply (adapter '' @ pb_name p @ '')''))
     else None)"

subsection \<open>The backup manifest\<close>

definition baseline_configured :: "drill_config \<Rightarrow> bool" where
  "baseline_configured cfg = list_ex (\<lambda>c. ch_builtin c = k_baseline) (dc_checks cfg)"

definition no_manifest :: manifest_result where
  "no_manifest = \<lparr> mr_hash = None, mr_match = None, mr_baseline = None \<rparr>"

definition check_backup_manifest :: "('w, 's) drill \<Rightarrow> 'w \<Rightarrow> manifest_result \<times> (bytes \<times> bytes) option" where
  "check_backup_manifest d w =
    (let src = tg_source (dc_target (dv_config d)) in
     if src_manifest src = [] then (no_manifest, None)
     else (case check_manifest (dv_crypto d) (dv_files d w) (src_path src) (src_manifest src) of
         (res, Some f) \<Rightarrow> (res, Some (fault_code f, dv_fault_text d (fault_message f)))
       | (res, None) \<Rightarrow>
         if (mr_baseline res = None \<or> mr_baseline res = Some []) \<and> baseline_configured (dv_config d)
         then (res, Some (''invalid_request'', ''a baseline check is configured, but the backup manifest at '' @ src_manifest src @
           '' declares no baseline; a check that would reconcile nothing is a configuration mistake''))
         else (res, None)))"

subsection \<open>Provisioning and checking\<close>

text \<open>A nil map is sent as an empty one.\<close>

definition source_params :: "source \<Rightarrow> (bytes \<times> bytes) list" where
  "source_params src = (if src_select src = [] then src_params src
     else (select_param, src_select src) # filter (\<lambda>p. fst p \<noteq> select_param) (src_params src))"

definition drill_provision_request :: "('w, 's) drill \<Rightarrow> sandbox_id \<Rightarrow> bytes option \<Rightarrow> provision_request" where
  "drill_provision_request d sbx target =
    (let t = dc_target (dv_config d); src = tg_source t in
     \<lparr> pq_source = \<lparr> ps_kind = src_kind src, ps_path = src_path src, ps_params = Some (source_params src),
         ps_credential_env = Some (src_credential_env src) \<rparr>,
       pq_scratch_dir = dv_scratch_dir d sbx, pq_options = Some (tg_options t), pq_target_time = target \<rparr>)"

definition sandbox_password_env :: bytes where
  "sandbox_password_env = ''PROBAVI_SANDBOX_PASSWORD''"

definition resolve_password :: "('w, 's) drill \<Rightarrow> bytes \<Rightarrow> bytes" where
  "resolve_password d env =
    (if env = [] then []
     else if env = sandbox_password_env then dv_password d
     else if env \<in> set (src_credential_env (tg_source (dc_target (dv_config d))))
     then (case dv_lookup_env d env of None \<Rightarrow> [] | Some v \<Rightarrow> v)
     else [])"

definition drill_check_deps :: "('w, 's) drill \<Rightarrow> probe_result \<Rightarrow> provision_result \<Rightarrow> sandbox_id \<Rightarrow>
    (bytes \<times> expectation) list option \<Rightarrow> 'w check_deps" where
  "drill_check_deps d p prov sbx baseline =
    \<lparr> dp_exec = dv_exec d sbx,
      dp_healthcheck = (\<lambda>w. map_prod (map_sum (\<lambda>e. e) (\<lambda>h. (hr_healthy h, hr_detail h))) (\<lambda>w. w)
        (dv_healthcheck d (pr_connection prov) (pr_state prov) sbx w)),
      dp_runner = \<lparr> rn_argv = sr_argv (pb_sql_runner p), rn_env = sr_env (pb_sql_runner p) \<rparr>,
      dp_target = \<lparr> db_user = cn_user (pr_connection prov), db_database = cn_database (pr_connection prov),
        db_password = resolve_password d (cn_password_env (pr_connection prov)) \<rparr>,
      dp_now = (\<lambda>w. fst (dv_now d w)),
      dp_redact = drill_redactor d,
      dp_dialect = dialect_from (Some p),
      dp_baseline = (case baseline of None \<Rightarrow> [] | Some b \<Rightarrow> b) \<rparr>"

fun run_error_go :: "run_error \<Rightarrow> go_error" where
  "run_error_go EmptyRunner = plain_error (''sql_runner template is empty '' @ em_dash @ '' the adapter'' @ [CHR 0x27] @ ''s probe did not declare one'')"
| "run_error_go PasswordInArgv = plain_error (''sql_runner argv contains {{password}} '' @ em_dash @ '' secrets belong in env values only'')"
| "run_error_go (ExecFailed e) = wrap_error ''sql_runner exec: '' e"
| "run_error_go (BadName (TooManyParts n)) = plain_error (''invalid identifier '' @ n @ '': at most schema.name'')"
| "run_error_go (BadName (BadIdentifier n)) = plain_error (''invalid identifier: '' @ n)"
| "run_error_go (HealthcheckFailed e) = e"
| "run_error_go Unrunnable = plain_error ''unrunnable check configuration''"
| "run_error_go NilBound = plain_error []"
| "run_error_go (CheckFailedAt l e) = wrap_error (''check '' @ l @ '': '') (run_error_go e)"

fun run_panics :: "run_error \<Rightarrow> bool" where
  "run_panics NilBound = True"
| "run_panics (CheckFailedAt l e) = run_panics e"
| "run_panics _ = False"

definition record_provision :: "evidence_record \<Rightarrow> provision_result \<Rightarrow> evidence_record" where
  "record_provision r res = r\<lparr>
     rec_backup := (rec_backup r)\<lparr> backup_checksum := Some (si_checksum (pr_identity res)),
       size_bytes := Some (si_size (pr_identity res)), created_at := si_created_at (pr_identity res) \<rparr>,
     rec_timings := (rec_timings r)\<lparr> t_engine_ready := Some (seconds_to_ms (ph_engine_ready (pr_timings res))),
       t_transfer := Some (seconds_to_ms (ph_transfer (pr_timings res))),
       t_restore := Some (seconds_to_ms (ph_restore (pr_timings res))) \<rparr> \<rparr>"

definition newer :: "int option \<Rightarrow> check_outcome \<Rightarrow> int option" where
  "newer best r = (case co_newest r of None \<Rightarrow> best
     | Some at \<Rightarrow> (case best of None \<Rightarrow> Some at | Some b \<Rightarrow> if at > b then Some at else best))"

definition drill_newest_data :: "check_outcome list \<Rightarrow> bytes option" where
  "drill_newest_data rs = map_option format_ts (foldl newer None rs)"

definition map_checks :: "check_outcome list \<Rightarrow> check_result list" where
  "map_checks = map (\<lambda>r. \<lparr> check_name = co_name r, check_ok = co_ok r,
     check_detail = (if co_detail r = [] then None else Some (co_detail r)) \<rparr>)"

definition count_failed :: "check_outcome list \<Rightarrow> nat" where
  "count_failed rs = length (filter (\<lambda>r. \<not> co_ok r) rs)"

definition run_drill_checks :: "('w, 's) drill \<Rightarrow> sandbox_id \<Rightarrow> 'w check_deps \<Rightarrow> ('w, 's) drill_io \<Rightarrow>
    (check_outcome list \<times> run_error option) \<times> ('w, 's) drill_io" where
  "run_drill_checks d sbx deps io =
    (let (rs, e, cio) = run_checks deps (dc_checks (dv_config d)) \<lparr> io_world = di_world io, io_requests = [], io_log = [] \<rparr>
     in ((rs, e), io\<lparr> di_world := io_world cio, di_calls := di_calls io @ [CallChecks sbx (io_requests cio)],
       di_log := di_log io @ io_log cio \<rparr>))"

definition teardown_reason :: "evidence_record \<Rightarrow> bytes" where
  "teardown_reason r =
    (if rec_outcome r = outcome_pass then ''completed''
     else if rec_outcome r = outcome_cancelled then ''cancelled''
     else if \<exists>e \<in> set_option (rec_error r). err_code e = ''timeout'' then ''timeout''
     else ''failed'')"

definition verdict :: "('w, 's) drill \<Rightarrow> 'w \<Rightarrow> evidence_record \<Rightarrow> check_outcome list \<Rightarrow> run_error option \<Rightarrow> evidence_record" where
  "verdict d w r rs e = (case e of
     Some err \<Rightarrow> classify_error d w r (run_error_go err)
   | None \<Rightarrow> if count_failed rs > 0
       then fail_record r outcome_fail ''check_failed'' (show_nat (count_failed rs) @ '' of '' @ show_nat (length rs) @ '' checks failed'')
       else r\<lparr> rec_outcome := outcome_pass \<rparr>)"

text \<open>The validation phase; the flag says that the checks panicked.\<close>

definition validate_phase :: "('w, 's) drill \<Rightarrow> probe_result \<Rightarrow> manifest_result \<Rightarrow> sandbox_id \<Rightarrow> provision_result \<Rightarrow>
    evidence_record \<Rightarrow> ('w, 's) drill_io \<Rightarrow> (evidence_record \<times> bool) \<times> ('w, 's) drill_io" where
  "validate_phase d p man sbx prov r io =
    (let r = record_provision r prov;
         (started, io) = asked (dv_now d) io;
         ((rs, e), io) = run_drill_checks d sbx (drill_check_deps d p prov sbx (mr_baseline man)) io
     in if \<exists>err \<in> set_option e. run_panics err then ((r, True), io)
        else let r = r\<lparr> rec_checks := Some (map_checks rs),
                   rec_backup := (rec_backup r)\<lparr> newest_data_at := drill_newest_data rs \<rparr> \<rparr>;
                 (now, io) = asked (dv_now d) io;
                 r = r\<lparr> rec_timings := (rec_timings r)\<lparr> t_validate := Some (ms_since started now) \<rparr> \<rparr>
             in ((verdict d (di_world io) r rs e, False), io))"

definition answer_state :: "provision_answer \<Rightarrow> bytes" where
  "answer_state a = (case a of Provisioned p \<Rightarrow> pr_state p | ProvisionFailed (Some p) e \<Rightarrow> pr_state p | ProvisionFailed None e \<Rightarrow> [])"

text \<open>The two deferred calls: the adapter's teardown, then the destruction of the sandbox.\<close>

definition clean_up :: "('w, 's) drill \<Rightarrow> sandbox_id \<Rightarrow> bytes \<Rightarrow> evidence_record \<Rightarrow> ('w, 's) drill_io \<Rightarrow> ('w, 's) drill_io" where
  "clean_up d sbx state r io =
    (let (e, io) = called (CallTeardown sbx state (teardown_reason r)) (dv_teardown d state (teardown_reason r) sbx) io;
         (e, io) = called (CallDestroy sbx) (dv_destroy d sbx) io
     in io)"

definition record_facts :: "evidence_record \<Rightarrow> facts \<Rightarrow> evidence_record" where
  "record_facts r f = r\<lparr> rec_sandbox := (rec_sandbox r)\<lparr> image_digest := fa_image_digest f,
     sandbox_resources := \<lparr> memory_bytes = fa_memory_bytes f, cpus_milli = fa_cpus_milli f \<rparr> \<rparr> \<rparr>"

definition in_sandbox :: "('w, 's) drill \<Rightarrow> probe_result \<Rightarrow> manifest_result \<Rightarrow> sandbox_id \<Rightarrow>
    evidence_record \<Rightarrow> ('w, 's) drill_io \<Rightarrow> (evidence_record \<times> bool) \<times> ('w, 's) drill_io" where
  "in_sandbox d p man sbx r io =
    (let (f, io) = asked (dv_facts d sbx) io;
         r = record_facts r f;
         req = drill_provision_request d sbx (pitr_target (rec_drill r));
         (answer, io) = called (CallProvision sbx req) (dv_provision d req sbx) io;
         ((r, panicked), io) = (case answer of
             ProvisionFailed res err \<Rightarrow> ((classify_error d (di_world io) r err, False), io)
           | Provisioned prov \<Rightarrow> validate_phase d p man sbx prov r io)
     in ((r, panicked), clean_up d sbx (answer_state answer) r io))"

definition create_failed :: "('w, 's) drill \<Rightarrow> 'w \<Rightarrow> evidence_record \<Rightarrow> go_error \<Rightarrow> evidence_record" where
  "create_failed d w r err =
    (let r = classify_error d w r (wrap_error ''create sandbox: '' err)
     in r\<lparr> rec_error := map_option (\<lambda>e. if err_code e = ''internal'' then e\<lparr> err_code := ''sandbox_error'' \<rparr> else e) (rec_error r) \<rparr>)"

definition sandbox_phase :: "('w, 's) drill \<Rightarrow> probe_result \<Rightarrow> manifest_result \<Rightarrow> evidence_record \<Rightarrow> ('w, 's) drill_io \<Rightarrow>
    (evidence_record \<times> bool) \<times> ('w, 's) drill_io" where
  "sandbox_phase d p man r io =
    (let (started, io) = asked (dv_now d) io;
         params = sb_params (dc_sandbox (dv_config d));
         (created, io) = called (CallCreate params) (dv_create d params) io
     in case created of
          Inl err \<Rightarrow> ((create_failed d (di_world io) r err, False), io)
        | Inr sbx \<Rightarrow>
          let (now, io) = asked (dv_now d) io
          in in_sandbox d p man sbx (r\<lparr> rec_timings := (rec_timings r)\<lparr> t_provision := Some (ms_since started now) \<rparr> \<rparr>) io)"

definition record_probe :: "('w, 's) drill \<Rightarrow> 'w \<Rightarrow> probe_result \<Rightarrow> evidence_record \<Rightarrow> evidence_record" where
  "record_probe d w p r = r\<lparr> rec_adapter := (rec_adapter r)\<lparr> adapter_version := Some (pb_adapter_version p),
     adapter_protocol := dv_protocol d w \<rparr> \<rparr>"

definition record_manifest :: "evidence_record \<Rightarrow> manifest_result \<Rightarrow> evidence_record" where
  "record_manifest r res = r\<lparr> rec_backup := (rec_backup r)\<lparr> manifest_hash := mr_hash res, manifest_match := mr_match res \<rparr> \<rparr>"

definition execute_drill :: "('w, 's) drill \<Rightarrow> evidence_record \<Rightarrow> ('w, 's) drill_io \<Rightarrow>
    (evidence_record \<times> bool) \<times> ('w, 's) drill_io" where
  "execute_drill d r io =
    (let (clock, io) = asked (dv_probe_clock d) io;
         r = r\<lparr> rec_env := (rec_env r)\<lparr> clock_synchronised := clock_answer clock \<rparr> \<rparr>;
         (swept, io) = called CallSweep (dv_sweep d) io;
         (probe, io) = called CallProbe (dv_probe d) io
     in case probe of
          Inl err \<Rightarrow> ((classify_error d (di_world io) r err, False), io)
        | Inr p \<Rightarrow>
          let r = record_probe d (di_world io) p r in
          (case refused_by_probe d p r of
             Some r' \<Rightarrow> ((r', False), io)
           | None \<Rightarrow>
             (case check_backup_manifest d (di_world io) of (res, fault) \<Rightarrow>
               let r = record_manifest r res in
               (case fault of
                  Some f \<Rightarrow> ((record_fault d r f, False), io)
                | None \<Rightarrow> sandbox_phase d p res r io))))"

subsection \<open>The run\<close>

definition append_to :: "('w, 's) drill \<Rightarrow> evidence_record \<Rightarrow> ('w, 's) drill_io \<Rightarrow>
    (evidence_record \<times> append_fault option) \<times> ('w, 's) drill_io" where
  "append_to d r io = (let (a, s) = dv_append d r (di_store io) in (a, io\<lparr> di_store := s, di_calls := di_calls io @ [CallAppend r] \<rparr>))"

definition rejected_by_shape :: "append_fault \<Rightarrow> bool" where
  "rejected_by_shape f \<longleftrightarrow> af_cause f \<noteq> CauseOther"

definition degraded_record :: "('w, 's) drill \<Rightarrow> 'w \<Rightarrow> int \<Rightarrow> evidence_record \<Rightarrow> append_fault \<Rightarrow> evidence_record" where
  "degraded_record d w now rejected cause =
    (let cfg = dv_config d; t = dc_target cfg in
     \<lparr> rec_schema = schema_id, rec_seq = 0, rec_prev_hash = [], rec_ts = format_ts now,
       rec_drill = \<lparr> drill_name = safe_text (tg_name t) ''unknown-drill'', config_hash = dc_hash cfg,
         pitr_target = pitr_target (rec_drill rejected) \<rparr>,
       rec_backup = no_backup (safe_text (src_kind (tg_source t)) ''unknown''),
       rec_adapter = \<lparr> adapter_name = safe_text (tg_adapter t) ''unknown'', adapter_version = None,
         adapter_protocol = protocol_version, adapter_digest = adapter_digest (rec_adapter rejected) \<rparr>,
       rec_sandbox = \<lparr> sandbox_provider = safe_text (sb_provider (dc_sandbox cfg)) ''unknown'', sandbox_params = Some [],
         image_digest = None, sandbox_resources = no_resources \<rparr>,
       rec_timings = no_timings\<lparr> t_total := t_total (rec_timings rejected) \<rparr>,
       rec_checks = Some [], rec_outcome = outcome_error,
       rec_error = Some \<lparr> err_code = ''internal'', err_message = record_message d
         (''evidence record replaced: the composed record was rejected ('' @ af_text cause @ ''); the drill reached outcome '' @
           go_quote (fm_printable (dv_formats d)) (rec_outcome rejected)) \<rparr>,
       rec_env = \<lparr> probavi_version = safe_text (dv_version d) ''unknown'', env_os = dv_os d, env_arch = dv_arch d,
         host_id = drill_host_id d w, probavi_digest = probavi_digest (rec_env rejected), clock_synchronised = None \<rparr>,
       rec_sig = None \<rparr>)"

definition append_degraded :: "('w, 's) drill \<Rightarrow> evidence_record \<Rightarrow> append_fault \<Rightarrow> ('w, 's) drill_io \<Rightarrow>
    evidence_record option \<times> ('w, 's) drill_io" where
  "append_degraded d rejected cause io =
    (if \<not> rejected_by_shape cause then (None, io)
     else let (now, io) = asked (dv_now d) io;
              ((r, fault), io) = append_to d (degraded_record d (di_world io) now rejected cause) io
          in (if fault = None then Some r else None, io))"

datatype run_end = Recorded evidence_record | NotRecorded evidence_record append_fault | RunPanicked

definition compose :: "('w, 's) drill \<Rightarrow> ('w, 's) drill_io \<Rightarrow> (evidence_record \<times> bool) \<times> ('w, 's) drill_io" where
  "compose d io =
    (let (start, io) = asked (dv_now d) io;
         (r, io) = base_record d io;
         ((r, panicked), io) = execute_drill d r io
     in if panicked then ((r, True), io)
        else let (now, io) = asked (dv_now d) io;
                 r = r\<lparr> rec_timings := (rec_timings r)\<lparr> t_total := Some (ms_since start now) \<rparr> \<rparr>;
                 (ts, io) = asked (dv_now d) io
             in ((r\<lparr> rec_ts := format_ts ts \<rparr>, False), io))"

definition run_drill :: "('w, 's) drill \<Rightarrow> ('w, 's) drill_io \<Rightarrow> run_end \<times> ('w, 's) drill_io" where
  "run_drill d io =
    (let ((r, panicked), io) = compose d io in
     if panicked then (RunPanicked, io)
     else let ((r, fault), io) = append_to d r io in
       (case fault of
          None \<Rightarrow> (Recorded r, io)
        | Some cause \<Rightarrow>
          (case append_degraded d r cause io of
             (Some r', io) \<Rightarrow> (Recorded r', io)
           | (None, io) \<Rightarrow> (NotRecorded r cause, io))))"

end
