(* ===== verification/DrillProps.thy ===== *)
theory DrillProps
  imports Drill ManifestProps
begin

text \<open>
  What one drill guarantees: every failure is classified into the published taxonomy, a created
  sandbox is torn down and destroyed on every path, only declared secrets reach the runner, and a
  drill that passes has restored and checked what its configuration names.
\<close>

subsection \<open>The outcome taxonomy\<close>

text \<open>
  The relation between a record's outcome and its error, as \<^verbatim>\<open>evidence-schema.md\<close> section 7 states it.
\<close>

definition settled :: "evidence_record \<Rightarrow> bool" where
  "settled r \<longleftrightarrow> (case rec_error r of None \<Rightarrow> rec_outcome r = outcome_pass
     | Some e \<Rightarrow> err_code e \<in> set error_codes \<and> rec_outcome r = code_outcome (err_code e))"

lemma settled_fail [simp]:
  "settled (fail_record r out k msg) \<longleftrightarrow> k \<in> set error_codes \<and> out = code_outcome k"
  by (simp add: settled_def fail_record_def)

lemma classified_registered: "classified d ctx err = (k, msg) \<Longrightarrow> k \<in> set error_codes"
  by (auto simp: classified_def Let_def is_error_code_def error_codes_def split: option.splits context_error.splits if_splits prod.splits)

lemma settled_classify: "settled (classify_error d w r err)"
  by (simp add: classify_error_def classified_registered split: prod.splits)

lemma rec_error_classify: "rec_error (classify_error d w r err) \<noteq> None"
  by (simp add: classify_error_def fail_record_def split: prod.splits)

lemma settled_create: "settled (create_failed d w r err)"
  using settled_classify [of d w r "wrap_error ''create sandbox: '' err"]
  by (auto simp: create_failed_def Let_def settled_def error_codes_def code_outcome_def fail_codes_def split: option.splits)

lemma settled_refused: "refused_by_probe d p r = Some r' \<Longrightarrow> settled r'"
  by (auto simp: refused_by_probe_def Let_def error_codes_def code_outcome_def fail_codes_def split: if_splits)

lemma manifest_codes:
  assumes "check_manifest C fs s p = (res, Some f)"
  shows "fault_code f \<in> {''invalid_request'', ''source_not_found'', ''source_unreadable'', ''source_corrupt''}"
  using assms read_fault [of fs p] measure_fault [of C fs s] compare_cases(2) [of s p]
  by (fastforce simp: check_manifest_def Let_def measuring_code_def code_invalid_request_def code_source_not_found_def
      code_source_unreadable_def code_source_corrupt_def split: sum.splits prod.splits)

lemma settled_fault: "check_backup_manifest d w = (res, Some f) \<Longrightarrow> settled (record_fault d r f)"
  by (auto simp: check_backup_manifest_def Let_def record_fault_def error_codes_def code_outcome_def fail_codes_def
      dest!: manifest_codes split: if_splits prod.splits option.splits)

lemma settled_verdict: "rec_error r = None \<Longrightarrow> settled (verdict d w r rs e)"
  by (auto simp: verdict_def settled_classify error_codes_def code_outcome_def fail_codes_def split: option.splits)
    (simp add: settled_def)

lemma validate_phase_settled:
  assumes "validate_phase d p man sbx prov r io = ((r', False), io')" "rec_error r = None"
  shows "settled r'"
  using assms by (auto simp: validate_phase_def Let_def record_provision_def settled_verdict split: prod.splits if_splits)

lemma in_sandbox_settled:
  assumes "in_sandbox d p man sbx r io = ((r', False), io')" "rec_error r = None"
  shows "settled r'"
  using assms by (auto simp: in_sandbox_def Let_def record_facts_def settled_classify
      split: prod.splits provision_answer.splits dest!: validate_phase_settled)

lemma sandbox_phase_settled:
  assumes "sandbox_phase d p man r io = ((r', False), io')" "rec_error r = None"
  shows "settled r'"
  using assms by (auto simp: sandbox_phase_def Let_def settled_create split: prod.splits sum.splits dest!: in_sandbox_settled)

lemma execute_settled:
  assumes "execute_drill d r io = ((r', False), io')" "rec_error r = None"
  shows "settled r'"
  using assms by (auto simp: execute_drill_def Let_def settled_classify record_probe_def record_manifest_def settled_refused settled_fault
      split: prod.splits sum.splits option.splits dest!: sandbox_phase_settled)

lemma base_record_fresh:
  assumes "base_record d io = (r, io')"
  shows "rec_error r = None" "rec_outcome r = []" "rec_seq r = 0" "rec_prev_hash r = []" "rec_sig r = None"
    "di_calls io' = di_calls io" "di_store io' = di_store io"
  using assms by (auto simp: base_record_def Let_def asked_def split: prod.splits option.splits)

text \<open>
  C13: the verdict of a drill. Whatever the collaborators answered, the composed record has an error exactly
  when it did not pass, the error's code is one of the published vocabulary, also when the adapter
  chose another, and the outcome is the one that the code stands for: fail for a verdict about the
  backup, cancelled for the operator's interrupt, error for everything else.
\<close>

theorem outcome_taxonomy:
  assumes "compose d io = ((r, False), io')"
  shows "(rec_error r = None \<longleftrightarrow> rec_outcome r = outcome_pass) \<and>
    (case rec_error r of None \<Rightarrow> True | Some e \<Rightarrow> is_error_code (err_code e) \<and>
       rec_outcome r = (if err_code e \<in> set fail_codes then outcome_fail
         else if err_code e = ''cancelled'' then outcome_cancelled else outcome_error))"
proof -
  from assms obtain r1 r2 io1 io2 where b: "base_record d io1 = (r1, io2)"
    and e: "\<exists>io3. execute_drill d r1 io2 = ((r2, False), io3)"
    and r: "rec_error r = rec_error r2" "rec_outcome r = rec_outcome r2"
    by (auto simp: compose_def Let_def split: prod.splits if_splits)
  from e base_record_fresh(1) [OF b] have "settled r2" by (auto dest: execute_settled)
  then have "settled r" using r by (simp add: settled_def split: option.splits)
  then show ?thesis
    by (auto simp: settled_def is_error_code_def code_outcome_def outcome_pass_def outcome_fail_def outcome_error_def
        outcome_cancelled_def split: option.splits)
qed

subsection \<open>The order of the calls\<close>

lemma called_calls: "called c f io = (a, io') \<Longrightarrow> di_calls io' = di_calls io @ [c] \<and> di_store io' = di_store io"
  by (auto simp: called_def Let_def split: prod.splits)

lemma asked_calls: "asked f io = (a, io') \<Longrightarrow> di_calls io' = di_calls io \<and> di_store io' = di_store io"
  by (auto simp: asked_def Let_def split: prod.splits)

lemma checks_calls: "run_drill_checks d sbx deps io = (a, io') \<Longrightarrow>
    (\<exists>rqs. di_calls io' = di_calls io @ [CallChecks sbx rqs]) \<and> di_store io' = di_store io"
  by (auto simp: run_drill_checks_def Let_def split: prod.splits)

lemma clean_up_calls: "di_calls (clean_up d sbx state r io) =
    di_calls io @ [CallTeardown sbx state (teardown_reason r), CallDestroy sbx] \<and> di_store (clean_up d sbx state r io) = di_store io"
  by (auto simp: clean_up_def Let_def split: prod.splits dest!: called_calls)

lemma validate_phase_calls:
  assumes "validate_phase d p man sbx prov r io = (rp, io')"
  shows "(\<exists>rqs. di_calls io' = di_calls io @ [CallChecks sbx rqs]) \<and> di_store io' = di_store io"
  using assms by (auto simp: validate_phase_def Let_def split: prod.splits if_splits dest!: asked_calls checks_calls)

text \<open>The reason an adapter is told when it has to tear down: what became of the drill.\<close>

definition reason_for :: "evidence_record \<Rightarrow> bytes \<Rightarrow> bool" where
  "reason_for r why \<longleftrightarrow> why \<in> {''completed'', ''cancelled'', ''timeout'', ''failed''} \<and>
     (why = ''completed'' \<longleftrightarrow> rec_outcome r = outcome_pass) \<and> (why = ''cancelled'' \<longleftrightarrow> rec_outcome r = outcome_cancelled) \<and>
     (why = ''timeout'' \<longleftrightarrow> rec_outcome r \<noteq> outcome_pass \<and> rec_outcome r \<noteq> outcome_cancelled \<and>
        (\<exists>e. rec_error r = Some e \<and> err_code e = ''timeout''))"

lemma teardown_reason_for: "reason_for r (teardown_reason r)"
  by (auto simp: reason_for_def teardown_reason_def outcome_pass_def outcome_cancelled_def)

lemma reason_for_same: "rec_outcome r' = rec_outcome r \<Longrightarrow> rec_error r' = rec_error r \<Longrightarrow> reason_for r' = reason_for r"
  by (simp add: reason_for_def fun_eq_iff)

text \<open>
  What happens between the creation of a sandbox and the end of its life: the adapter provisions, the checks may run, the
  adapter gets back the state it answered with and the reason, and the sandbox is destroyed.
\<close>

definition sandbox_life :: "('w, 's) drill \<Rightarrow> sandbox_id \<Rightarrow> evidence_record \<Rightarrow> drill_call list \<Rightarrow> bool" where
  "sandbox_life d sbx r cs \<longleftrightarrow> (\<exists>req mid w why.
     cs = CallProvision sbx req # mid @ [CallTeardown sbx (answer_state (fst (dv_provision d req sbx w))) why, CallDestroy sbx] \<and>
     reason_for r why \<and> (mid = [] \<or> (\<exists>rqs. mid = [CallChecks sbx rqs])))"

lemma in_sandbox_calls:
  assumes "in_sandbox d p man sbx r io = ((r', pan), io')"
  shows "(\<exists>cs. di_calls io' = di_calls io @ cs \<and> sandbox_life d sbx r' cs) \<and> di_store io' = di_store io"
proof -
  obtain f io1 where f: "asked (dv_facts d sbx) io = (f, io1)" by fastforce
  define r1 where "r1 = record_facts r f"
  define req where "req = drill_provision_request d sbx (pitr_target (rec_drill r1))"
  obtain a io2 where a: "called (CallProvision sbx req) (dv_provision d req sbx) io1 = (a, io2)" by fastforce
  obtain r2 pan2 io3 where v: "(case a of ProvisionFailed res err \<Rightarrow> ((classify_error d (di_world io2) r1 err, False), io2)
      | Provisioned prov \<Rightarrow> validate_phase d p man sbx prov r1 io2) = ((r2, pan2), io3)" by (metis surj_pair)
  have e: "r2 = r'" "clean_up d sbx (answer_state a) r' io3 = io'"
    using assms f a [unfolded req_def r1_def] v [unfolded r1_def] by (auto simp: in_sandbox_def Let_def)
  from v have mid: "\<exists>mid. di_calls io3 = di_calls io2 @ mid \<and> (mid = [] \<or> (\<exists>rqs. mid = [CallChecks sbx rqs]))" "di_store io3 = di_store io2"
    by (auto split: provision_answer.splits dest!: validate_phase_calls)
  from mid(1) obtain mid where "di_calls io3 = di_calls io2 @ mid" "mid = [] \<or> (\<exists>rqs. mid = [CallChecks sbx rqs])" by blast
  moreover have "a = fst (dv_provision d req sbx (di_world io1))" using a by (auto simp: called_def Let_def split: prod.splits)
  ultimately have "sandbox_life d sbx r' (CallProvision sbx req # mid @ [CallTeardown sbx (answer_state a) (teardown_reason r'), CallDestroy sbx])"
    using teardown_reason_for unfolding sandbox_life_def by blast
  with \<open>di_calls io3 = di_calls io2 @ mid\<close> e(2) [symmetric] asked_calls [OF f] called_calls [OF a] mid(2) show ?thesis
    by (simp add: clean_up_calls)
qed

definition created_calls :: "('w, 's) drill \<Rightarrow> evidence_record \<Rightarrow> drill_call list \<Rightarrow> bool" where
  "created_calls d r cs \<longleftrightarrow> (let ps = sb_params (dc_sandbox (dv_config d)) in
     \<exists>w. (\<exists>e. fst (dv_create d ps w) = Inl e \<and> cs = [CallCreate ps]) \<or>
         (\<exists>sbx life. fst (dv_create d ps w) = Inr sbx \<and> cs = CallCreate ps # life \<and> sandbox_life d sbx r life))"

lemma sandbox_phase_calls:
  assumes "sandbox_phase d p man r io = ((r', pan), io')"
  shows "(\<exists>cs. di_calls io' = di_calls io @ cs \<and> created_calls d r' cs) \<and> di_store io' = di_store io"
proof -
  let ?ps = "sb_params (dc_sandbox (dv_config d))"
  obtain t io1 where t: "asked (dv_now d) io = (t, io1)" by fastforce
  obtain c io2 where c: "called (CallCreate ?ps) (dv_create d ?ps) io1 = (c, io2)" by fastforce
  then have f: "fst (dv_create d ?ps (di_world io1)) = c" by (auto simp: called_def Let_def split: prod.splits)
  from asked_calls [OF t] called_calls [OF c] have calls: "di_calls io2 = di_calls io @ [CallCreate ?ps]" "di_store io2 = di_store io" by simp_all
  show ?thesis
  proof (cases c)
    case (Inl e)
    with assms t c calls have "di_calls io' = di_calls io @ [CallCreate ?ps]" "di_store io' = di_store io"
      by (auto simp: sandbox_phase_def Let_def)
    with f Inl show ?thesis unfolding created_calls_def Let_def by blast
  next
    case (Inr sbx)
    obtain n io3 where n: "asked (dv_now d) io2 = (n, io3)" by fastforce
    from assms t c n Inr obtain r1 where "in_sandbox d p man sbx r1 io3 = ((r', pan), io')"
      by (auto simp: sandbox_phase_def Let_def)
    from in_sandbox_calls [OF this] asked_calls [OF n] calls obtain life where
      "di_calls io' = di_calls io @ CallCreate ?ps # life" "sandbox_life d sbx r' life" "di_store io' = di_store io" by auto
    with f Inr show ?thesis unfolding created_calls_def Let_def by blast
  qed
qed

text \<open>The calls of a drill that got as far as asking for a sandbox, or did not.\<close>

definition drill_calls_ok :: "('w, 's) drill \<Rightarrow> evidence_record \<Rightarrow> drill_call list \<Rightarrow> bool" where
  "drill_calls_ok d r cs \<longleftrightarrow> cs = [CallSweep, CallProbe] \<or> (\<exists>cs'. cs = CallSweep # CallProbe # cs' \<and> created_calls d r cs')"

lemma execute_calls:
  assumes "execute_drill d r io = ((r', pan), io')"
  shows "(\<exists>cs. di_calls io' = di_calls io @ cs \<and> drill_calls_ok d r' cs) \<and> di_store io' = di_store io"
proof -
  obtain k io1 where k: "asked (dv_probe_clock d) io = (k, io1)" by fastforce
  obtain sw io2 where sw: "called CallSweep (dv_sweep d) io1 = (sw, io2)" by fastforce
  obtain pb io3 where pb: "called CallProbe (dv_probe d) io2 = (pb, io3)" by fastforce
  from asked_calls [OF k] called_calls [OF sw] called_calls [OF pb]
  have calls: "di_calls io3 = di_calls io @ [CallSweep, CallProbe]" "di_store io3 = di_store io" by simp_all
  from assms k sw pb consider "io' = io3" | p man r1 where "sandbox_phase d p man r1 io3 = ((r', pan), io')"
    by (auto simp: execute_drill_def Let_def split: sum.splits option.splits prod.splits)
  then show ?thesis
  proof cases
    case 1
    with calls show ?thesis by (auto simp: drill_calls_ok_def)
  next
    case 2
    from sandbox_phase_calls [OF this] calls show ?thesis
      by (auto simp: drill_calls_ok_def)
  qed
qed

lemma drill_calls_same:
  assumes "rec_outcome r' = rec_outcome r" "rec_error r' = rec_error r"
  shows "drill_calls_ok d r' = drill_calls_ok d r"
  using reason_for_same [OF assms] by (simp add: drill_calls_ok_def created_calls_def sandbox_life_def fun_eq_iff)

lemma compose_calls:
  assumes "compose d io = ((r, pan), io')"
  shows "(\<exists>cs. di_calls io' = di_calls io @ cs \<and> drill_calls_ok d r cs) \<and> di_store io' = di_store io"
proof -
  obtain t io1 where t: "asked (dv_now d) io = (t, io1)" by fastforce
  obtain r0 io2 where b: "base_record d io1 = (r0, io2)" by fastforce
  obtain r1 p io3 where e: "execute_drill d r0 io2 = ((r1, p), io3)" by (metis surj_pair)
  from assms t b e have io': "di_calls io' = di_calls io3 \<and> di_store io' = di_store io3"
    and r: "rec_outcome r1 = rec_outcome r" "rec_error r1 = rec_error r"
    by (auto simp: compose_def Let_def split: prod.splits if_splits dest!: asked_calls)
  from execute_calls [OF e] base_record_fresh(6,7) [OF b] asked_calls [OF t] io' drill_calls_same [OF r, of d] show ?thesis by auto
qed


lemma append_to_calls: "append_to d r io = ((r', f), io') \<Longrightarrow> di_calls io' = di_calls io @ [CallAppend r]"
  by (auto simp: append_to_def split: prod.splits)

lemma append_degraded_calls:
  "append_degraded d r f io = (x, io') \<Longrightarrow> if rejected_by_shape f
    then \<exists>w now. di_calls io' = di_calls io @ [CallAppend (degraded_record d w now r f)] else di_calls io' = di_calls io"
  by (auto simp: append_degraded_def Let_def split: prod.splits if_splits dest!: append_to_calls asked_calls) blast+

text \<open>
  C11: no sandbox outlives its drill. Whatever the adapter, the sandbox and the clock answer, and even if a
  check panics, a run first sweeps and probes; if a sandbox was created, the adapter is told to tear it down, with the state it
  answered the provision with and the reason that the composed record gives (completed if it passed, cancelled, timeout, or else
  failed), and the sandbox is destroyed, in this order and before anything is written to the
  store. Then the composed record is appended, and if the store refuses it for its shape the degraded record in its place; nothing is
  appended exactly if the run panicked.
\<close>

theorem sandbox_always_destroyed:
  "case compose d io of ((r, panicked), io1) \<Rightarrow> case run_drill d io of (fin, io') \<Rightarrow>
    \<exists>cs apps. di_calls io' = di_calls io @ cs @ apps \<and> drill_calls_ok d r cs \<and> (fin = RunPanicked \<longleftrightarrow> panicked) \<and>
      (if panicked then apps = [] else
       case dv_append d r (di_store io) of ((r', fault), s) \<Rightarrow>
         (case fault of Some cause \<Rightarrow> if rejected_by_shape cause
             then \<exists>w now. apps = [CallAppend r, CallAppend (degraded_record d w now r' cause)] else apps = [CallAppend r]
          | None \<Rightarrow> apps = [CallAppend r]))"
proof -
  obtain r pan io1 where c: "compose d io = ((r, pan), io1)" by (metis surj_pair)
  from compose_calls [OF this] obtain cs where cs: "di_calls io1 = di_calls io @ cs" "drill_calls_ok d r cs" "di_store io1 = di_store io" by blast
  obtain r' f s where p: "dv_append d r (di_store io) = ((r', f), s)" by (metis surj_pair)
  then obtain io2 where a: "append_to d r io1 = ((r', f), io2)" by (simp add: append_to_def cs(3))
  show ?thesis
  proof (cases "pan \<or> f = None")
    case True
    with c a p append_to_calls [OF a] cs show ?thesis
      by (cases pan) (fastforce simp: run_drill_def Let_def)+
  next
    case False
    then obtain cause where f: "f = Some cause" by auto
    obtain x io3 where g: "append_degraded d r' cause io2 = (x, io3)" by fastforce
    have e: "\<exists>fin. run_drill d io = (fin, io3) \<and> fin \<noteq> RunPanicked"
      using c a False f g by (cases x) (simp_all add: run_drill_def Let_def)
    from append_degraded_calls [OF g] append_to_calls [OF a] cs(1) e cs(2) c p f False show ?thesis
      by (auto split: if_splits)
  qed
qed

end
