(* ===== verification/DrillRecord.thy ===== *)
theory DrillRecord
  imports DrillProps Sample
begin

text \<open>
  A drill that ran leaves exactly one record. The degraded record that replaces one the store
  refused is valid and fits whatever the collaborators said, so the store accepts it; the locale
  \<open>appender\<close> is the contract of \<^verbatim>\<open>core.Appender\<close> that the drill relies on, interpreted on the evidence
  store.
\<close>

subsection \<open>Messages\<close>

lemma sanitize_shape:
  "valid_string (sanitize_message s)" "length (sanitize_message s) \<le> max_error_message_len"
  "CHR 0x0A \<notin> set (sanitize_message s)" "CHR 0x0D \<notin> set (sanitize_message s)"
proof -
  let ?f = "\<lambda>r. if r = 10 \<or> r = 13 then 32 else r"
  show "valid_string (sanitize_message s)"
    unfolding sanitize_message_def by (rule truncate_valid) (rule map_runes_valid)
  show "length (sanitize_message s) \<le> max_error_message_len"
    using truncate_length [of "map_runes ?f s" "int max_error_message_len"] by (simp add: sanitize_message_def)
  have "c \<notin> set (map_runes ?f s)" if "code c = 10 \<or> code c = 13" for c
    using map_runes_low [of c ?f s] that by (auto split: if_splits)
  then show "CHR 0x0A \<notin> set (sanitize_message s)" "CHR 0x0D \<notin> set (sanitize_message s)"
    unfolding sanitize_message_def by (fastforce dest: truncate_set)+
qed

lemma record_message_line: "validate_line f (record_message d s) max_error_message_len = Inr ()" "valid_string (record_message d s)"
  using sanitize_shape [of "redact (drill_redactor d) s"] by (simp_all add: record_message_def validate_line_def)

lemma safe_text_shape:
  assumes "valid_string b" "b \<noteq> []" "length b \<le> 256"
  shows "valid_string (safe_text s b)" "safe_text s b \<noteq> []" "length (safe_text s b) \<le> 256"
  using assms by (auto simp: safe_text_def)

subsection \<open>The length of a record\<close>

primrec json_bound :: "json \<Rightarrow> nat" where
  "json_bound JNull = 4"
| "json_bound (JBool b) = 5"
| "json_bound (JNum n) = length n"
| "json_bound (JStr s) = 6 * length s + 2"
| "json_bound (JArr vs) = 2 + sum_list (map (\<lambda>n. n + 1) (map json_bound vs))"
| "json_bound (JObj ms) = 2 + sum_list (map (\<lambda>p. 6 * length (fst p) + 4 + snd p) (map (map_prod (\<lambda>k. k) json_bound) ms))"

lemma length_runes: "length (runes s) \<le> length s"
proof (induction s rule: runes.induct)
  case (1 s)
  show ?case
  proof (cases "s = []")
    case False
    with 1 drop_rune_shorter [of s] show ?thesis by (subst runes.simps) simp
  qed simp
qed

lemma length_encode_rune: "length (encode_rune r) \<le> 4"
  by (simp add: encode_rune_def encode_scalar_def)

lemma length_escape: "length (escape_rune r) \<le> 6"
  using length_encode_rune [of r] by (simp add: escape_rune_def)

lemma str_size_bound: "str_size s \<le> 6 * length s + 2"
proof -
  have "sum_list (map (\<lambda>r. length (escape_rune r)) rs) \<le> 6 * length rs" for rs
    by (induction rs) (use length_escape in \<open>force simp: add_mono\<close>)+
  from this [of "runes s"] length_runes [of s] show ?thesis
    by (simp add: str_size_def quote_runes_def length_concat comp_def)
qed

lemma json_size_bound: "json_size v \<le> json_bound v"
proof (induction v rule: json_induct)
  case (Arr vs)
  then have "sum_list (map json_size vs) + length vs \<le> sum_list (map (\<lambda>v. json_bound v + 1) vs)"
  proof (induction vs)
    case (Cons v vs)
    moreover have "json_size v \<le> json_bound v" using Cons.prems by simp
    ultimately show ?case by fastforce
  qed simp
  then show ?case by (simp add: comp_def)
next
  case (Obj ms)
  then have "sum_list (map (\<lambda>p. str_size (fst p) + 1 + json_size (snd p)) ms) + length ms \<le>
      sum_list (map (\<lambda>p. 6 * length (fst p) + 4 + json_bound (snd p)) ms)"
  proof (induction ms)
    case (Cons p ms)
    moreover have "json_size (snd p) \<le> json_bound (snd p)" using Cons.prems by (cases p) auto
    ultimately show ?case using str_size_bound [of "fst p"] by fastforce
  qed simp
  then show ?case by (simp add: comp_def)
qed (use str_size_bound in auto)

subsection \<open>The degraded record\<close>

text \<open>
  What the host must be like: the clock names a year of four digits and does not run backwards past
  the start of the drill, and the platform strings are short UTF-8.
\<close>

definition platform_ok :: "('w, 's) drill \<Rightarrow> bool" where
  "platform_ok d \<longleftrightarrow> crypto_ok (dv_crypto d) \<and> sha256_ref (dc_hash (dv_config d)) \<and>
     (\<forall>s \<in> {dv_os d, dv_arch d}. s \<noteq> [] \<and> valid_string s \<and> length s \<le> 256)"

definition core_values_ok :: "evidence_record \<Rightarrow> bool" where
  "core_values_ok r \<longleftrightarrow> (\<forall>s. pitr_target (rec_drill r) = Some s \<longrightarrow> valid_ts s) \<and>
     (\<forall>s. adapter_digest (rec_adapter r) = Some s \<longrightarrow> sha256_ref s) \<and>
     (\<forall>s. probavi_digest (rec_env r) = Some s \<longrightarrow> sha256_ref s) \<and>
     (\<exists>n. t_total (rec_timings r) = Some n \<and> 0 \<le> n \<and> n \<le> max_safe_integer)"

lemma plain_texts: "valid_string ''unknown-drill''" "valid_string ''unknown''" "valid_string protocol_version"
    "valid_string schema_id" "valid_string ''internal''" "valid_string ''ed25519''" "valid_string []"
  by (rule plain_valid; simp add: protocol_version_def schema_id_def plain_char_def)+

lemma host_id_shape: "crypto_ok (dv_crypto d) \<Longrightarrow> host_id_ok (drill_host_id d w)"
  using hex_encode_lower by (simp add: host_id_ok_def drill_host_id_def crypto_okD list_all_iff) (meson in_set_takeD)

lemma digest_at_ref: "crypto_ok (dv_crypto d) \<Longrightarrow> digest_at d w path = Some s \<Longrightarrow> sha256_ref s"
  by (auto simp: digest_at_def file_digest_def sha256_ref_def hash_prefix_def hex_encode_lower crypto_okD split: sum.splits option.splits)

lemma degraded_valid:
  assumes "platform_ok d" "core_values_ok r" "four_digit_year now"
  shows "validate (degraded_record d w now r cause) = Inr ()"
proof -
  let ?g = "degraded_record d w now r cause"
  have ts: "valid_ts (format_ts now)" using format_valid [OF assms(3)] .
  have os: "dv_os d \<noteq> []" "valid_string (dv_os d)" "dv_arch d \<noteq> []" "valid_string (dv_arch d)" "sha256_ref (dc_hash (dv_config d))"
    "host_id_ok (drill_host_id d w)" using assms(1) host_id_shape by (auto simp: platform_ok_def)
  have sf: "valid_string (safe_text s ''unknown-drill'')" "safe_text s ''unknown-drill'' \<noteq> []"
    "valid_string (safe_text s ''unknown'')" "safe_text s ''unknown'' \<noteq> []" for s
    using safe_text_shape [of "''unknown-drill''" s] safe_text_shape [of "''unknown''" s] plain_texts by simp_all
  have "validate_utf8 ?g = Inr ()"
    using os sf plain_texts record_message_line(2) [of d]
    by (simp add: validate_utf8_def utf8_fields_def degraded_record_def Let_def no_backup_def)
  moreover have "validate_identity ?g = Inr ()"
    using os sf ts assms(2) by (simp add: validate_identity_def degraded_record_def Let_def validate_ts_def core_values_ok_def)
  moreover have "validate_outcome ?g = Inr ()"
    using record_message_line(1) [of _ d] by (simp add: validate_outcome_def degraded_record_def Let_def outcome_error_def outcome_pass_def)
  moreover have "validate_checks ?g = Inr ()" by (simp add: validate_checks_def degraded_record_def Let_def)
  moreover have "validate_nested ?g = Inr ()"
    using os sf assms(2)
    by (auto simp: validate_nested_def degraded_record_def Let_def no_backup_def validate_timings_def non_negative_def
        no_timings_def validate_env_def core_values_ok_def protocol_version_def)
  ultimately show ?thesis by (simp add: validate_parts)
qed

lemma length_show_int:
  assumes "\<bar>n\<bar> \<le> max_safe_integer"
  shows "length (show_int n) \<le> 17"
proof -
  from assms have "nat \<bar>n\<bar> < 10 ^ 16" by (simp add: max_safe_integer_def nat_less_iff)
  then have "length (show_nat (nat \<bar>n\<bar>)) \<le> 16" by (intro length_show_nat) simp_all
  then show ?thesis by (auto simp: show_int_def)
qed

lemma sha256_ref_length: "sha256_ref s \<Longrightarrow> length s = 71" and valid_ts_length: "valid_ts s \<Longrightarrow> length s = 24"
  and host_id_length: "host_id_ok s \<Longrightarrow> length s = 16"
  by (simp_all add: sha256_ref_def valid_ts_def host_id_ok_def)

lemma opt_str_bound: "(\<And>s. p = Some s \<Longrightarrow> length s \<le> n) \<Longrightarrow> json_bound (json_opt JStr p) \<le> 6 * n + 4"
  by (cases p) (fastforce simp: json_opt_def)+

lemma degraded_size:
  assumes "platform_ok d" "core_values_ok r" "four_digit_year now"
    and "0 \<le> n" "n \<le> max_safe_integer" "length ph \<le> 71"
    and "\<forall>s. sg = Some s \<longrightarrow> length (sig_alg s) \<le> 16 \<and> length (sig_key_id s) \<le> 16 \<and> length (sig_b64 s) \<le> 88"
  shows "json_bound (record_json ((degraded_record d w now r cause)\<lparr> rec_seq := n, rec_prev_hash := ph, rec_sig := sg \<rparr>)) \<le> max_record_bytes"
proof -
  have os: "length (dv_os d) \<le> 256" "length (dv_arch d) \<le> 256" "length (dc_hash (dv_config d)) = 71"
    "length (format_ts now) = 24"
    using assms(1) format_valid [OF assms(3)]
    by (simp_all add: platform_ok_def sha256_ref_length valid_ts_length)
  have host: "length (drill_host_id d w) = 16"
    using assms(1) by (intro host_id_length host_id_shape) (simp add: platform_ok_def)
  have sf: "length (safe_text s ''unknown-drill'') \<le> 256" "length (safe_text s ''unknown'') \<le> 256" for s
    using safe_text_shape(3) [of "''unknown-drill''" s] safe_text_shape(3) [of "''unknown''" s] plain_texts by simp_all
  have msg: "length (record_message d m) \<le> 512" for m
    using sanitize_shape(2) by (simp add: record_message_def max_error_message_len_def)
  from assms(2) obtain t where t: "t_total (rec_timings r) = Some t" "length (show_int t) \<le> 17"
    using length_show_int by (auto simp: core_values_ok_def)
  have p: "json_bound (json_opt JStr (pitr_target (rec_drill r))) \<le> 148"
    "json_bound (json_opt JStr (adapter_digest (rec_adapter r))) \<le> 430"
    "json_bound (json_opt JStr (probavi_digest (rec_env r))) \<le> 430"
    using assms(2) opt_str_bound [of _ 24] opt_str_bound [of _ 71]
    by (force simp: core_values_ok_def sha256_ref_length valid_ts_length)+
  have s: "length (show_int n) \<le> 17" using assms(4,5) by (intro length_show_int) simp
  have sgb: "(case sg of None \<Rightarrow> [] | Some s \<Rightarrow> [(''sig'', sig_json s)]) = [] \<or>
      (\<exists>s. (case sg of None \<Rightarrow> [] | Some s \<Rightarrow> [(''sig'', sig_json s)]) = [(''sig'', sig_json s)] \<and> json_bound (sig_json s) \<le> 1000)"
    using assms(7) by (cases sg) (auto simp: sig_json_def)
  let ?g = "degraded_record d w now r cause"
  have "json_bound (drill_json (rec_drill ?g)) \<le> 2400"
    using os(3) sf(1) [of "tg_name (dc_target (dv_config d))"] p(1) by (simp add: drill_json_def degraded_record_def Let_def)
  moreover have "json_bound (backup_json (rec_backup ?g)) \<le> 2400"
    using sf(2) [of "src_kind (tg_source (dc_target (dv_config d)))"]
    by (simp add: backup_json_def degraded_record_def Let_def no_backup_def json_opt_def)
  moreover have "json_bound (adapter_json (rec_adapter ?g)) \<le> 2500"
    using sf(2) [of "tg_adapter (dc_target (dv_config d))"] p(2)
    by (simp add: adapter_json_def degraded_record_def Let_def) (simp add: json_opt_def protocol_version_def)
  moreover have "json_bound (sandbox_json (rec_sandbox ?g)) \<le> 2500"
    using sf(2) [of "sb_provider (dc_sandbox (dv_config d))"]
    by (simp add: sandbox_json_def degraded_record_def Let_def json_opt_def params_json_def resources_json_def no_resources_def)
  moreover have "json_bound (timings_json (rec_timings ?g)) \<le> 1000"
    using t by (simp add: timings_json_def degraded_record_def Let_def json_opt_def no_timings_def)
  moreover obtain m where m: "rec_error ?g = Some \<lparr> err_code = ''internal'', err_message = record_message d m \<rparr>"
    by (simp add: degraded_record_def Let_def)
  then have "json_bound (json_opt error_json (rec_error ?g)) \<le> 4000"
    using msg [of m] by (simp add: error_json_def json_opt_def)
  moreover have "json_bound (env_json (rec_env ?g)) \<le> 6500"
    using os host sf(2) [of "dv_version d"] p(3) by (simp add: env_json_def degraded_record_def Let_def) (simp add: json_opt_def)
  moreover have "json_bound (json_opt (\<lambda>cs. JArr (map check_json cs)) (rec_checks ?g)) \<le> 10"
    "length (rec_ts ?g) = 24" "rec_schema ?g = schema_id" "rec_outcome ?g = outcome_error"
    using os(4) by (simp_all add: degraded_record_def Let_def json_opt_def)
  ultimately show ?thesis
    using sgb s assms(6) by (auto simp: record_json_def record_members_def max_record_bytes_def schema_id_def outcome_error_def)
qed

subsection \<open>The store behind the drill\<close>

lemma map_sum_Inl_id: "map_sum (\<lambda>e. e) g r = Inl e \<longleftrightarrow> r = Inl e"
  by (cases r) auto

lemma sequence_Inl: "sequence rs = Inl e \<Longrightarrow> Inl e \<in> set rs"
  by (induction rs rule: sequence.induct) (auto simp: map_sum_Inl_id)

lemma canonical_errors:
  "append_canonical v = Inl e \<Longrightarrow> e \<noteq> ParseJson \<and> e \<noteq> TrailingData"
proof (induction v arbitrary: e rule: json_induct)
  case (Arr vs)
  from Arr.prems have "Inl e \<in> set (map append_canonical vs)" by (auto simp: andthen_Inl dest: sequence_Inl)
  then obtain v where "v \<in> set vs" "append_canonical v = Inl e" by (auto dest: sym)
  with Arr.IH show ?case by blast
next
  case (Obj ms)
  from Obj.prems have "Inl e \<in> canonical_member ` set (map (map_prod (\<lambda>k. k) append_canonical) ms)"
    by (auto simp: andthen_Inl dest!: sequence_Inl)
  then obtain k v where kv: "(k, v) \<in> set ms" "canonical_member (k, append_canonical v) = Inl e" by force
  then have "append_canonical v = Inl e \<or> e = BadUtf8"
    by (auto simp: canonical_member_def append_canonical_string_def andthen_Inl split: if_splits)
  with Obj.IH [OF kv(1)] show ?case by auto
qed (auto simp: append_canonical_number_def append_canonical_string_def split: if_splits option.splits)

definition append_cause_of :: "store_error \<Rightarrow> append_cause" where
  "append_cause_of e = (case e of
     ChainFieldsSet \<Rightarrow> CauseInvalid | RecordInvalid v \<Rightarrow> CauseInvalid | NotCanonicalizable BadUtf8 \<Rightarrow> CauseInvalid
   | NotCanonicalizable (NotInteger n) \<Rightarrow> CauseNotInteger | NotCanonicalizable (UnsafeInteger n) \<Rightarrow> CauseNotInteger
   | TooLarge n \<Rightarrow> CauseTooLarge | _ \<Rightarrow> CauseOther)"

text \<open>The store as an \<^verbatim>\<open>Appender\<close>, on a disk that takes what is written; \<open>txt\<close> gives the error texts.\<close>

definition store_append :: "crypto \<Rightarrow> (store_error \<Rightarrow> bytes) \<Rightarrow> evidence_record \<Rightarrow> store \<Rightarrow>
    (evidence_record \<times> append_fault option) \<times> store" where
  "store_append C txt r st = (case append_record C Written st r of (st', r', res) \<Rightarrow>
     ((r', case res of Inl e \<Rightarrow> Some \<lparr> af_cause = append_cause_of e, af_text = txt e \<rparr> | Inr u \<Rightarrow> None), st'))"

definition store_ready :: "crypto \<Rightarrow> keyring option \<Rightarrow> store \<Rightarrow> bool" where
  "store_ready C kr st \<longleftrightarrow> crypto_ok C \<and> store_ok C kr st \<and> signer_in C (st_signer st) kr \<and> \<not> st_broken st \<and>
     0 \<le> st_next_seq st \<and> st_next_seq st \<le> max_safe_integer"

definition store_lines :: "store \<Rightarrow> bytes list" where
  "store_lines st = record_lines (st_file st)"

text \<open>A record as the drill hands it over: no chain fields, and the strings that validation leaves out are UTF-8.\<close>

definition unchained :: "evidence_record \<Rightarrow> bool" where
  "unchained r \<longleftrightarrow> rec_sig r = None \<and> rec_seq r = 0 \<and> rec_prev_hash r = [] \<and> appendable r"

definition always_fits :: "evidence_record \<Rightarrow> bool" where
  "always_fits r \<longleftrightarrow> unchained r \<and> validate r = Inr () \<and> ints_safe r \<and>
     (\<forall>n ph sg. 0 \<le> n \<and> n \<le> max_safe_integer \<and> length ph \<le> 71 \<and>
       (\<forall>s. sg = Some s \<longrightarrow> length (sig_alg s) \<le> 16 \<and> length (sig_key_id s) \<le> 16 \<and> length (sig_b64 s) \<le> 88) \<longrightarrow>
       json_bound (record_json (r\<lparr> rec_seq := n, rec_prev_hash := ph, rec_sig := sg \<rparr>)) \<le> max_record_bytes)"

text \<open>A record without the fields that the store sets.\<close>

definition content :: "evidence_record \<Rightarrow> evidence_record" where
  "content r = r\<lparr> rec_seq := 0, rec_prev_hash := [], rec_sig := None \<rparr>"

lemma content_unchained: "unchained r \<Longrightarrow> content r = r"
  by (simp add: unchained_def content_def)

text \<open>The contract of \<^verbatim>\<open>core.Appender\<close>, as far as the drill relies on it.\<close>

locale appender =
  fixes append :: "evidence_record \<Rightarrow> 's \<Rightarrow> (evidence_record \<times> append_fault option) \<times> 's"
    and entries :: "'s \<Rightarrow> bytes list"
    and ready :: "'s \<Rightarrow> bool"
  assumes written: "ready s \<Longrightarrow> unchained r \<Longrightarrow> append r s = ((r', None), s') \<Longrightarrow>
      \<exists>line. entries s' = entries s @ [line] \<and> canonicalize_record r' = Inr line \<and> content r' = r"
    and refused: "ready s \<Longrightarrow> unchained r \<Longrightarrow> append r s = ((r', Some f), s') \<Longrightarrow> s' = s \<and> r' = r \<and> rejected_by_shape f"
    and accepted: "ready s \<Longrightarrow> always_fits r \<Longrightarrow> snd (fst (append r s)) = None"
begin

lemma run_records:
  assumes "dv_append d = append" "ready (di_store io1)" "compose d io = ((r, False), io1)" "unchained r"
    and "\<And>w w' cause. always_fits (degraded_record d w (fst (dv_now d w')) r cause)"
  shows "\<exists>rec line io'. run_drill d io = (Recorded rec, io') \<and> entries (di_store io') = entries (di_store io1) @ [line] \<and>
    canonicalize_record rec = Inr line \<and>
    (case snd (fst (append r (di_store io1))) of None \<Rightarrow> rec = fst (fst (append r (di_store io1))) \<and> content rec = r
     | Some cause \<Rightarrow> \<exists>w now. content rec = degraded_record d w now r cause)"
proof -
  obtain r1 f s1 where a: "append r (di_store io1) = ((r1, f), s1)" by (metis surj_pair)
  show ?thesis
  proof (cases f)
    case None
    with a assms(3) have "run_drill d io = (Recorded r1, snd (run_drill d io))" "di_store (snd (run_drill d io)) = s1"
      by (simp_all add: run_drill_def Let_def append_to_def assms(1))
    with written [OF assms(2,4) a [unfolded None]] a None show ?thesis by fastforce
  next
    case (Some cause)
    from refused [OF assms(2,4) a [unfolded Some]] have k: "s1 = di_store io1" "r1 = r" "rejected_by_shape cause" by simp_all
    let ?io = "io1\<lparr> di_store := s1, di_calls := di_calls io1 @ [CallAppend r] \<rparr>"
    obtain now io2 where now: "asked (dv_now d) ?io = (now, io2)" by fastforce
    then have s2: "di_store io2 = di_store io1" and t: "now = fst (dv_now d (di_world ?io))"
      using k(1) by (auto simp: asked_def split: prod.splits)
    let ?g = "degraded_record d (di_world io2) now r cause"
    obtain r3 f3 s3 where g: "append ?g (di_store io1) = ((r3, f3), s3)" by (metis surj_pair)
    have n: "f3 = None" using accepted [OF assms(2) assms(5)] g unfolding t by (metis fst_conv snd_conv)
    have u: "unchained ?g" using assms(5) unfolding t by (simp add: always_fits_def)
    have "run_drill d io = (Recorded r3, snd (run_drill d io))" "di_store (snd (run_drill d io)) = s3"
      using a Some k now g n s2 assms(3)
      by (simp_all add: run_drill_def Let_def append_to_def assms(1) append_degraded_def)
    with written [OF assms(2) u g [unfolded n]] a Some show ?thesis by fastforce
  qed
qed

end

lemma record_canonical_errors:
  assumes "validate r = Inr ()" "\<forall>s \<in> set (unchecked_strings r). valid_string s" "params_distinct r"
    and "canonicalize_record r = Inl e"
  shows "e \<noteq> ParseJson \<and> e \<noteq> TrailingData"
  using canonicalize_record_eq [OF assms(1-3)] assms(4) canonical_errors by simp

lemma chained_strings:
  assumes "store_ready C kr st" "appendable r" "sg = None \<or> sg = Some \<lparr> sig_alg = ''ed25519'', sig_key_id = key_id (st_signer st), sig_b64 = b64_encode b \<rparr>"
  shows "\<forall>s \<in> set (unchecked_strings (r\<lparr> rec_seq := st_next_seq st, rec_prev_hash := st_prev_hash st, rec_sig := sg \<rparr>)). valid_string s"
    "params_distinct (r\<lparr> rec_seq := st_next_seq st, rec_prev_hash := st_prev_hash st, rec_sig := sg \<rparr>)"
proof -
  have "valid_string (hd_hash (store_head st))"
    using chain_hash_valid [of C] assms(1) sha256_ref_ascii by (auto simp: store_ready_def store_ok_def)
  then have "valid_string (st_prev_hash st)" by (simp add: store_head_def)
  moreover have "valid_string (key_id (st_signer st))" using assms(1) signer_key_valid by (auto simp: store_ready_def signer_in_def)
  ultimately show "\<forall>s \<in> set (unchecked_strings (r\<lparr> rec_seq := st_next_seq st, rec_prev_hash := st_prev_hash st, rec_sig := sg \<rparr>)). valid_string s"
    using assms(2,3) plain_texts b64_encode_valid
    by (intro unchecked_ok) (auto simp: appendable_def v3_strings_ok_def)
  show "params_distinct (r\<lparr> rec_seq := st_next_seq st, rec_prev_hash := st_prev_hash st, rec_sig := sg \<rparr>)"
    using assms(2) by (simp add: appendable_def params_distinct_def)
qed

lemma sealed_error_cause:
  assumes "store_ready C kr st" "appendable r" "rec_sig r = None"
    and "sealed C st (r\<lparr> rec_seq := st_next_seq st, rec_prev_hash := st_prev_hash st \<rparr>) = Inl e"
  shows "append_cause_of e \<noteq> CauseOther"
proof -
  let ?r = "r\<lparr> rec_seq := st_next_seq st, rec_prev_hash := st_prev_hash st \<rparr>"
  have c: "c \<noteq> ParseJson \<and> c \<noteq> TrailingData" if e: "e = NotCanonicalizable c" for c
  proof (cases "canonicalize_record ?r")
    case (Inl x)
    with assms(4) e have v: "validate ?r = Inr ()" "x = c" by (auto simp: sealed_def split: sum.splits)
    have "?r = r\<lparr> rec_seq := st_next_seq st, rec_prev_hash := st_prev_hash st, rec_sig := None \<rparr>" using assms(3) by simp
    with record_canonical_errors [of ?r c] chained_strings [OF assms(1,2), of None] v Inl show ?thesis by metis
  next
    case (Inr m)
    let ?s = "\<lparr> sig_alg = ''ed25519'', sig_key_id = key_id (st_signer st), sig_b64 = b64_encode (ed_sign C (seed (st_signer st)) m) \<rparr>"
    from Inr assms(4) e have "validate ?r = Inr ()" "canonicalize_record (?r\<lparr> rec_sig := Some ?s \<rparr>) = Inl c"
      by (auto simp: sealed_def Let_def split: sum.splits if_splits)
    with record_canonical_errors [of "?r\<lparr> rec_sig := Some ?s \<rparr>" c] chained_strings [OF assms(1,2), of "Some ?s"] show ?thesis
      by simp
  qed
  have "(\<exists>v. e = RecordInvalid v) \<or> (\<exists>c. e = NotCanonicalizable c) \<or> (\<exists>n. e = TooLarge n)"
    using assms(4) by (auto simp: sealed_def Let_def split: sum.splits if_splits)
  then show ?thesis using c by (auto simp: append_cause_of_def split: canon_error.splits)
qed

lemma store_appendE:
  assumes "store_append C txt r st = ((r', f), st')" "store_ready C kr st" "unchained r"
  obtains (refused) e where "sealed C st (r\<lparr> rec_seq := st_next_seq st, rec_prev_hash := st_prev_hash st \<rparr>) = Inl e"
      "r' = r" "f = Some \<lparr> af_cause = append_cause_of e, af_text = txt e \<rparr>" "st' = st"
    | (written) line where "sealed C st (r\<lparr> rec_seq := st_next_seq st, rec_prev_hash := st_prev_hash st \<rparr>) = Inr (r', line)"
      "f = None" "st_file st' = st_file st @ line @ [newline]"
proof (cases "sealed C st (r\<lparr> rec_seq := st_next_seq st, rec_prev_hash := st_prev_hash st \<rparr>)")
  case (Inl e)
  with assms have "r' = r" "f = Some \<lparr> af_cause = append_cause_of e, af_text = txt e \<rparr>" "st' = st"
    by (auto simp: store_append_def append_record_def Let_def store_ready_def unchained_def)
  with Inl refused show ?thesis by blast
next
  case (Inr x)
  obtain r2 line where x: "x = (r2, line)" by (cases x)
  with Inr assms have "r' = r2" "f = None" "st_file st' = st_file st @ line @ [newline]"
    by (auto simp: store_append_def append_record_def Let_def store_ready_def unchained_def write_line_def)
  with Inr x written show ?thesis by blast
qed

lemma store_append_written:
  assumes "store_ready C kr st" "unchained r" "store_append C txt r st = ((r', None), st')"
  shows "\<exists>line. store_lines st' = store_lines st @ [line] \<and> canonicalize_record r' = Inr line \<and> content r' = r"
  using assms(3,1,2)
proof (cases rule: store_appendE)
  case (written line)
  from written(1) have c: "canonicalize_record r' = Inr line" by (auto elim!: sealedE)
  have "content r' = content r" using written(1) by (auto simp: content_def elim!: sealedE)
  with assms(2) have same: "content r' = r" by (simp add: content_unchained)
  obtain st2 r2 res where a: "append_record C Written st r = (st2, r2, res)" by (metis prod_cases3)
  with assms(3) have st2: "st2 = st'" "res = Inr ()" by (auto simp: store_append_def split: sum.splits)
  have k: "crypto_ok C" "store_ok C kr st" "appendable r" "signer_in C (st_signer st) kr"
    using assms(1,2) by (simp_all add: store_ready_def unchained_def)
  from append_written [OF a k] st2 obtain l where l: "accepts C kr (store_head st) l" "newline \<notin> set l"
      "st_file st' = st_file st @ l @ [newline]" by auto
  with written(3) have "l = line" by simp
  with l c same record_lines_snoc [of "st_file st" line] accepts_parsed [OF l(1)] assms(1) show ?thesis
    by (auto simp: store_lines_def store_ready_def store_ok_def)
qed simp

lemma store_append_refused:
  assumes "store_ready C kr st" "unchained r" "store_append C txt r st = ((r', Some f), st')"
  shows "st' = st \<and> r' = r \<and> rejected_by_shape f"
  using assms(3,1,2)
proof (cases rule: store_appendE)
  case (refused e)
  with sealed_error_cause [OF assms(1) _ _ refused(1)] assms(2) show ?thesis
    by (auto simp: rejected_by_shape_def unchained_def)
qed simp

lemma store_append_accepts:
  assumes "store_ready C kr st" "always_fits r"
  shows "snd (fst (store_append C txt r st)) = None"
proof -
  let ?r = "r\<lparr> rec_seq := st_next_seq st, rec_prev_hash := st_prev_hash st \<rparr>"
  have u: "unchained r" "appendable r" using assms(2) by (simp_all add: always_fits_def unchained_def)
  have v: "validate ?r = Inr ()" and i: "ints_safe (?r\<lparr> rec_sig := sg \<rparr>)" for sg
    using assms by (auto simp: always_fits_def ints_safe_def ints_of_def store_ready_def)
  have "length (st_prev_hash st) \<le> 71"
    using chain_hash_valid [of C] assms(1) sha256_ref_length by (fastforce simp: store_ready_def store_ok_def store_head_def)
  then have fits: "json_bound (record_json (?r\<lparr> rec_sig := sg \<rparr>)) \<le> max_record_bytes"
    if "\<forall>s. sg = Some s \<longrightarrow> length (sig_alg s) \<le> 16 \<and> length (sig_key_id s) \<le> 16 \<and> length (sig_b64 s) \<le> 88" for sg
    using assms that by (simp add: always_fits_def store_ready_def)
  have can: "\<exists>t. canonicalize_record (?r\<lparr> rec_sig := sg \<rparr>) = Inr t \<and> length t \<le> json_bound (record_json (?r\<lparr> rec_sig := sg \<rparr>))"
    if "sg = None \<or> (\<exists>b. sg = Some \<lparr> sig_alg = ''ed25519'', sig_key_id = key_id (st_signer st), sig_b64 = b64_encode b \<rparr>)" for sg
  proof -
    from that have s: "\<forall>s \<in> set (unchecked_strings (?r\<lparr> rec_sig := sg \<rparr>)). valid_string s" "params_distinct (?r\<lparr> rec_sig := sg \<rparr>)"
      using chained_strings [OF assms(1) u(2), of sg] by auto
    have vs: "validate (?r\<lparr> rec_sig := sg \<rparr>) = Inr ()" using v by simp
    from append_canonical_norm [OF record_canonical_ok [OF vs i s(1)]] obtain t where
      t: "append_canonical (record_json (?r\<lparr> rec_sig := sg \<rparr>)) = Inr t" by blast
    with canonicalize_record_eq [OF vs s] canonical_length [OF t] json_size_bound show ?thesis by auto
  qed
  have "?r\<lparr> rec_sig := None \<rparr> = ?r" using u(1) by (simp add: unchained_def)
  with can [of None] obtain m where m: "canonicalize_record ?r = Inr m" by auto
  let ?s = "\<lparr> sig_alg = ''ed25519'', sig_key_id = key_id (st_signer st), sig_b64 = b64_encode (ed_sign C (seed (st_signer st)) m) \<rparr>"
  have "length (key_id (st_signer st)) \<le> 16"
    using assms(1) by (auto simp: store_ready_def signer_in_def signer_ok_def new_signer_def public_key_id_def) (metis length_take min.cobounded2 signer.select_convs(2))
  moreover have "length (b64_encode (ed_sign C (seed (st_signer st)) m)) = 88"
    using assms(1) by (simp add: length_b64 store_ready_def crypto_okD)
  ultimately have "json_bound (record_json (?r\<lparr> rec_sig := Some ?s \<rparr>)) \<le> max_record_bytes" by (intro fits) simp
  with can [of "Some ?s"] obtain line where "canonicalize_record (?r\<lparr> rec_sig := Some ?s \<rparr>) = Inr line" "length line \<le> max_record_bytes" by fastforce
  with v m have s: "sealed C st ?r = Inr (?r\<lparr> rec_sig := Some ?s \<rparr>, line)" by (simp add: sealed_def Let_def)
  obtain r' f st' where a: "store_append C txt r st = ((r', f), st')" by (metis surj_pair)
  from a assms(1) u(1) show ?thesis
  proof (cases rule: store_appendE)
    case (refused e)
    with s show ?thesis by simp
  qed (simp add: a)
qed

interpretation es: appender "store_append C txt" store_lines "store_ready C kr"
  by unfold_locales (use store_append_written store_append_refused store_append_accepts in blast)+

end
