(* ===== verification/DrillRun.thy ===== *)
theory DrillRun
  imports DrillRecord ChecksProps
begin

text \<open>
  The run as a whole: what the composed record carries from start to end, that one signed record is
  left whatever happened, what a pass stands for, and that no undeclared variable of the drill
  host's environment has any influence.
\<close>

subsection \<open>What a run does not touch\<close>

lemma pad_ascii: "c \<in> set (pad w n) \<Longrightarrow> code c < 0x80"
  using pad_digits [of w n] by (auto simp: list_all_iff is_digit_def)

lemma format_ts_utf8: "valid_string (format_ts t)"
  by (intro ascii_valid) (auto simp: format_ts_def pad_int_def Let_def split: prod.splits if_splits dest: pad_ascii)

text \<open>The fields that \<open>execute_drill\<close> must leave alone, and the strings that validation does not look at.\<close>

definition carried :: "evidence_record \<Rightarrow> evidence_record \<Rightarrow> bool" where
  "carried b r \<longleftrightarrow> rec_sig r = rec_sig b \<and> rec_seq r = rec_seq b \<and> rec_prev_hash r = rec_prev_hash b \<and>
     rec_drill r = rec_drill b \<and> adapter_digest (rec_adapter r) = adapter_digest (rec_adapter b) \<and>
     probavi_digest (rec_env r) = probavi_digest (rec_env b) \<and> sandbox_params (rec_sandbox r) = sandbox_params (rec_sandbox b) \<and>
     (v3_strings_ok b \<longrightarrow> v3_strings_ok r)"

lemma carried_refl: "carried r r"
  by (simp add: carried_def)

lemma carried_trans: "carried a b \<Longrightarrow> carried b c \<Longrightarrow> carried a c"
  by (simp add: carried_def)

lemma carried_fail [simp]: "carried b (fail_record r out k msg) = carried b r"
  by (simp add: carried_def fail_record_def v3_strings_ok_def)

lemma carried_classify [simp]: "carried b (classify_error d w r err) = carried b r"
  by (simp add: classify_error_def split: prod.splits)

lemma carried_error [simp]: "carried b (r\<lparr> rec_error := e \<rparr>) = carried b r"
  by (simp add: carried_def v3_strings_ok_def)

lemma carried_create [simp]: "carried b (create_failed d w r err) = carried b r"
  by (simp add: create_failed_def Let_def)

lemma carried_steps [simp]:
  "carried b (r\<lparr> rec_timings := t \<rparr>) = carried b r"
  "carried b (record_provision r p) = carried b r"
  "carried b (r\<lparr> rec_checks := cs \<rparr>) = carried b r"
  "carried b (record_fault d r f) = carried b r"
  "carried b (record_probe d w pb r) = carried b r"
  "carried b (r\<lparr> rec_ts := ts \<rparr>) = carried b r"
  "carried b (r\<lparr> rec_outcome := out \<rparr>) = carried b r"
  by (simp_all add: carried_def v3_strings_ok_def record_provision_def record_fault_def fail_record_def record_probe_def)

lemma carried_verdict [simp]: "carried b (verdict d w r rs e) = carried b r"
  by (cases e) (simp_all add: verdict_def)

lemma v3_steps:
  assumes "v3_strings_ok r" "\<forall>s. x = Some s \<longrightarrow> valid_string s"
  shows "v3_strings_ok (r\<lparr> rec_backup := (rec_backup r)\<lparr> newest_data_at := x \<rparr> \<rparr>)"
    "v3_strings_ok (r\<lparr> rec_backup := (rec_backup r)\<lparr> manifest_hash := x, manifest_match := m \<rparr> \<rparr>)"
    "v3_strings_ok (r\<lparr> rec_sandbox := (rec_sandbox r)\<lparr> image_digest := x, sandbox_resources := res \<rparr> \<rparr>)"
  using assms unfolding v3_strings_ok_def by simp_all

lemma carried_newest:
  assumes "carried b r"
  shows "carried b (r\<lparr> rec_backup := (rec_backup r)\<lparr> newest_data_at := drill_newest_data rs \<rparr> \<rparr>)"
proof -
  have "\<forall>s. drill_newest_data rs = Some s \<longrightarrow> valid_string s" using format_ts_utf8 by (auto simp: drill_newest_data_def)
  with assms v3_steps(1) [of r] show ?thesis by (simp add: carried_def)
qed

lemma carried_manifest:
  assumes "check_backup_manifest d w = (res, f)" "crypto_ok (dv_crypto d)"
  shows "\<forall>b r. carried b r \<longrightarrow> carried b (record_manifest r res)"
proof -
  have v: "valid_string (digest_of (dv_crypto d) raw)" for raw
    using line_hash_ref [OF assms(2), of raw] by (intro sha256_ref_ascii) (simp add: digest_of_def line_hash_def hash_prefix_def)
  have "mr_hash res = None \<or> (\<exists>raw. mr_hash res = Some (digest_of (dv_crypto d) raw))"
    using assms(1) by (auto simp: check_backup_manifest_def Let_def no_manifest_def check_manifest_def
        split: if_splits prod.splits option.splits sum.splits)
  with v have "\<forall>h. mr_hash res = Some h \<longrightarrow> valid_string h" by auto
  with v3_steps(2) show ?thesis by (simp add: carried_def record_manifest_def)
qed

definition facts_utf8 :: "('w, 's) drill \<Rightarrow> bool" where
  "facts_utf8 d \<longleftrightarrow> (\<forall>sbx w s. fa_image_digest (fst (dv_facts d sbx w)) = Some s \<longrightarrow> valid_string s)"

lemma carried_facts:
  assumes "carried b r" "asked (dv_facts d sbx) io = (f, io')" "facts_utf8 d"
  shows "carried b (record_facts r f)"
proof -
  have "fst (dv_facts d sbx (di_world io)) = f" using assms(2) by (auto simp: asked_def split: prod.splits)
  with assms(3) have "\<forall>s. fa_image_digest f = Some s \<longrightarrow> valid_string s" unfolding facts_utf8_def by metis
  with assms(1) v3_steps(3) [of r] show ?thesis by (simp add: carried_def record_facts_def)
qed

lemma validate_phase_carried:
  assumes "validate_phase d p man sbx prov r io = ((r', pan), io')" "carried b r"
  shows "carried b r'"
proof -
  have "carried b (r\<lparr> rec_checks := cs, rec_backup := (rec_backup r)\<lparr> newest_data_at := drill_newest_data rs \<rparr> \<rparr>)"
    if "carried b r" for cs rs r using carried_newest [of b "r\<lparr> rec_checks := cs \<rparr>" rs] that by simp
  with assms show ?thesis by (auto simp: validate_phase_def Let_def split: prod.splits if_splits)
qed

lemma in_sandbox_carried:
  assumes "in_sandbox d p man sbx r io = ((r', pan), io')" "carried b r" "facts_utf8 d"
  shows "carried b r'"
  using assms by (auto simp: in_sandbox_def Let_def split: prod.splits provision_answer.splits
      dest!: validate_phase_carried intro: carried_facts)

lemma sandbox_phase_carried:
  assumes "sandbox_phase d p man r io = ((r', pan), io')" "carried b r" "facts_utf8 d"
  shows "carried b r'"
  using assms by (auto simp: sandbox_phase_def Let_def split: prod.splits sum.splits dest!: in_sandbox_carried)

lemma execute_carried:
  assumes "execute_drill d r io = ((r', pan), io')" "facts_utf8 d" "crypto_ok (dv_crypto d)"
  shows "carried r r'"
proof -
  have "carried r (r\<lparr> rec_env := (rec_env r)\<lparr> clock_synchronised := k \<rparr> \<rparr>)" for k by (simp add: carried_def v3_strings_ok_def)
  then show ?thesis
    using assms by (auto simp: execute_drill_def Let_def refused_by_probe_def split: prod.splits sum.splits option.splits if_splits
        dest!: sandbox_phase_carried carried_manifest)
qed

subsection \<open>One record per run\<close>

definition drill_host_ok :: "('w, 's) drill \<Rightarrow> bool" where
  "drill_host_ok d \<longleftrightarrow> platform_ok d \<and> facts_utf8 d \<and> (\<forall>w. four_digit_year (fst (dv_now d w))) \<and>
     (\<forall>pt w. tg_pitr (dc_target (dv_config d)) = Some pt \<longrightarrow> four_digit_year (resolve_pitr (fst (dv_now d w)) pt)) \<and>
     (\<forall>ps. sb_params (dc_sandbox (dv_config d)) = Some ps \<longrightarrow> distinct (map fst ps))"

lemma ms_since_bound: "ms_since start now \<le> max_safe_integer"
proof -
  have "sub_instants now start \<le> max_duration" by (simp add: sub_instants_def max_duration_def)
  then have "sub_instants now start div 1000000 \<le> max_duration div 1000000" by (rule zdiv_mono1) simp
  moreover have "0 \<le> - sub_instants now start div 1000000" if "sub_instants now start < 0"
    using that by (intro pos_imp_zdiv_nonneg_iff [THEN iffD2]) auto
  ultimately show ?thesis by (auto simp: ms_since_def Let_def max_duration_def max_safe_integer_def)
qed

lemma base_record_ok:
  assumes "base_record d io = (b, io')" "drill_host_ok d"
  shows "v3_strings_ok b" "params_distinct b" "\<forall>s. pitr_target (rec_drill b) = Some s \<longrightarrow> valid_ts s"
    "\<forall>s. adapter_digest (rec_adapter b) = Some s \<longrightarrow> sha256_ref s" "\<forall>s. probavi_digest (rec_env b) = Some s \<longrightarrow> sha256_ref s"
proof -
  have C: "crypto_ok (dv_crypto d)" using assms(2) by (simp add: drill_host_ok_def platform_ok_def)
  from assms(1) show "v3_strings_ok b"
    by (auto simp: base_record_def Let_def v3_strings_ok_def no_backup_def split: prod.splits)
  from assms show "params_distinct b"
    by (auto simp: base_record_def Let_def params_distinct_def drill_host_ok_def split: prod.splits option.splits)
  from assms show "\<forall>s. pitr_target (rec_drill b) = Some s \<longrightarrow> valid_ts s"
    by (auto simp: base_record_def Let_def asked_def drill_host_ok_def split: prod.splits option.splits intro!: format_valid)
      (metis fst_conv)+
  from assms(1) C show "\<forall>s. adapter_digest (rec_adapter b) = Some s \<longrightarrow> sha256_ref s"
    by (auto simp: base_record_def Let_def digest_at_ref split: prod.splits)
  from assms(1) C show "\<forall>s. probavi_digest (rec_env b) = Some s \<longrightarrow> sha256_ref s"
    by (auto simp: base_record_def Let_def digest_at_ref self_digest_def split: prod.splits option.splits)
qed

lemma compose_carried:
  assumes "compose d io = ((r, False), io')" "drill_host_ok d"
  shows "\<exists>b io1 io2. base_record d io1 = (b, io2) \<and> carried b r" "\<exists>n. t_total (rec_timings r) = Some n \<and> n \<le> max_safe_integer"
proof -
  obtain t io1 where t: "asked (dv_now d) io = (t, io1)" by fastforce
  obtain b io2 where b: "base_record d io1 = (b, io2)" by fastforce
  obtain r1 p io3 where e: "execute_drill d b io2 = ((r1, p), io3)" by (metis surj_pair)
  have "facts_utf8 d" "crypto_ok (dv_crypto d)" using assms(2) by (simp_all add: drill_host_ok_def platform_ok_def)
  with execute_carried [OF e] have c: "carried b r1" .
  from assms(1) t b e have "carried b1 r1 = carried b1 r" and n: "\<exists>now. t_total (rec_timings r) = Some (ms_since t now)" for b1
    by (auto simp: compose_def Let_def split: prod.splits if_splits)
  with c b show "\<exists>b io1 io2. base_record d io1 = (b, io2) \<and> carried b r" by blast
  from n show "\<exists>n. t_total (rec_timings r) = Some n \<and> n \<le> max_safe_integer" using ms_since_bound by blast
qed

lemma composed_values:
  assumes "compose d io = ((r, False), io')" "drill_host_ok d" "t_total (rec_timings r) = Some ms" "0 \<le> ms"
  shows "unchained r" "core_values_ok r"
proof -
  obtain b io1 io2 where b: "base_record d io1 = (b, io2)" "carried b r" using compose_carried(1) [OF assms(1,2)] by blast
  note k = base_record_ok [OF b(1) assms(2)] base_record_fresh [OF b(1)]
  from k b(2) show "unchained r" by (simp add: carried_def unchained_def appendable_def params_distinct_def)
  from k b(2) assms(3,4) compose_carried(2) [OF assms(1,2)] show "core_values_ok r" by (auto simp: carried_def core_values_ok_def)
qed

lemma degraded_always_fits:
  assumes "drill_host_ok d" "core_values_ok r"
  shows "always_fits (degraded_record d w (fst (dv_now d w')) r cause)"
proof -
  let ?g = "degraded_record d w (fst (dv_now d w')) r cause"
  have p: "platform_ok d" "four_digit_year (fst (dv_now d w'))" using assms(1) by (simp_all add: drill_host_ok_def)
  have u: "unchained ?g"
    by (simp add: unchained_def appendable_def params_distinct_def v3_strings_ok_def degraded_record_def Let_def no_backup_def)
  have "ints_safe ?g"
    using assms(2) by (auto simp: ints_safe_def ints_of_def degraded_record_def Let_def no_backup_def no_timings_def no_resources_def
        core_values_ok_def max_safe_integer_def)
  with u degraded_valid [OF p(1) assms(2) p(2)] degraded_size [OF p(1) assms(2) p(2)] show ?thesis
    unfolding always_fits_def by blast
qed

lemma store_append_fault:
  assumes "store_ready C kr st" "unchained r"
  shows "fst (store_append C txt r st) =
    (case sealed C st (r\<lparr> rec_seq := st_next_seq st, rec_prev_hash := st_prev_hash st \<rparr>) of
       Inr (sealed_record, text) \<Rightarrow> (sealed_record, None) | Inl e \<Rightarrow> (r, Some \<lparr> af_cause = append_cause_of e, af_text = txt e \<rparr>))"
proof -
  obtain r' f st' where a: "store_append C txt r st = ((r', f), st')" by (metis surj_pair)
  from a assms show ?thesis by (cases rule: store_appendE) (simp_all add: a)
qed

lemma sealed_text: "sealed C st r = Inr (r', line) \<Longrightarrow> canonicalize_record r' = Inr line"
  by (auto elim!: sealedE)

text \<open>
  C10: a drill that ran leaves a record. Let the store be open and its disk take what is written. Then
  whatever the adapter, the sandbox, the engine and the check results said, a run whose checks do not panic (those of a configuration
  that the loader accepts never do) appends exactly one
  line to the log, the canonical text of a record that it returns. If the store can seal the composed record, that is the composed
  record with the store's sequence number, previous hash and signature; only if it cannot, it is the degraded record that names the refusal. It
  needs a host whose clock
  did not run backwards during the drill and names years of four digits, platform strings that are
  short, parameters with distinct names, and facts about the image in UTF-8.
\<close>

theorem one_record_per_run:
  assumes "drill_host_ok d" "dv_append d = store_append C txt" "store_ready C kr (di_store io)"
    and "compose d io = ((r, False), io1)" "t_total (rec_timings r) = Some ms" "0 \<le> ms"
  shows "\<exists>rec line io'. run_drill d io = (Recorded rec, io') \<and> store_lines (di_store io') = store_lines (di_store io) @ [line] \<and>
    canonicalize_record rec = Inr line \<and>
    (case sealed C (di_store io) (r\<lparr> rec_seq := st_next_seq (di_store io), rec_prev_hash := st_prev_hash (di_store io) \<rparr>) of
       Inr (sealed_record, text) \<Rightarrow> rec = sealed_record \<and> line = text \<and> content rec = r
     | Inl e \<Rightarrow> \<exists>w now. content rec = degraded_record d w now r \<lparr> af_cause = append_cause_of e, af_text = txt e \<rparr>)"
proof -
  have s: "di_store io1 = di_store io" using compose_calls [OF assms(4)] by blast
  note u = composed_values(1) [OF assms(4,1,5,6)]
  show ?thesis
    using es.run_records [OF assms(2) _ assms(4) u degraded_always_fits [OF assms(1) composed_values(2) [OF assms(4,1,5,6)]]]
      assms(3) s store_append_fault [OF assms(3) u, of "txt"] sealed_text [of C "di_store io"]
    by (fastforce split: sum.splits prod.splits)
qed

subsection \<open>What a pass stands for\<close>

lemma code_outcome_not_pass [simp]: "code_outcome k \<noteq> outcome_pass"
  by (simp add: code_outcome_def outcome_pass_def outcome_fail_def outcome_cancelled_def outcome_error_def)

lemma fail_outcome [simp]: "rec_outcome (fail_record r out k msg) = out"
  by (simp add: fail_record_def)

lemma classify_not_pass [simp]: "rec_outcome (classify_error d w r err) \<noteq> outcome_pass"
  by (simp add: classify_error_def split: prod.splits)

lemma refused_not_pass: "refused_by_probe d p r = Some r' \<Longrightarrow> rec_outcome r' \<noteq> outcome_pass"
  by (auto simp: refused_by_probe_def Let_def outcome_pass_def outcome_error_def split: if_splits)

lemma fault_not_pass [simp]: "rec_outcome (record_fault d r f) \<noteq> outcome_pass"
  by (simp add: record_fault_def outcome_pass_def outcome_fail_def outcome_error_def)

lemma create_not_pass [simp]: "rec_outcome (create_failed d w r err) \<noteq> outcome_pass"
  by (simp add: create_failed_def Let_def)

lemma fail_not_pass [simp]: "outcome_fail \<noteq> outcome_pass"
  by (simp add: outcome_pass_def outcome_fail_def)

lemma verdict_pass: "rec_outcome (verdict d w r rs e) = outcome_pass \<longleftrightarrow> e = None \<and> (\<forall>c \<in> set rs. co_ok c)"
  by (cases e) (auto simp: verdict_def count_failed_def filter_empty_conv)

text \<open>The evidence of a pass, as a statement about a probe, a manifest, a sandbox, a provision and results.\<close>

definition restored :: "('w, 's) drill \<Rightarrow> evidence_record \<Rightarrow> probe_result \<Rightarrow> manifest_result \<Rightarrow> sandbox_id \<Rightarrow>
    provision_result \<Rightarrow> check_outcome list \<Rightarrow> bool" where
  "restored d r p man sbx prov rs \<longleftrightarrow>
     (\<exists>w. fst (dv_provision d (drill_provision_request d sbx (pitr_target (rec_drill r))) sbx w) = Provisioned prov) \<and>
     (\<exists>cio cio'. run_checks (drill_check_deps d p prov sbx (mr_baseline man)) (dc_checks (dv_config d)) cio = (rs, None, cio')) \<and>
     (\<forall>c \<in> set rs. co_ok c) \<and> rec_checks r = Some (map_checks rs) \<and>
     backup_checksum (rec_backup r) = Some (si_checksum (pr_identity prov)) \<and>
     manifest_match (rec_backup r) = mr_match man \<and> manifest_hash (rec_backup r) = mr_hash man"

lemma validate_phase_pass:
  assumes "validate_phase d p man sbx prov r io = ((r', False), io')" "rec_outcome r' = outcome_pass"
  shows "\<exists>rs. (\<exists>cio cio'. run_checks (drill_check_deps d p prov sbx (mr_baseline man)) (dc_checks (dv_config d)) cio = (rs, None, cio')) \<and>
     (\<forall>c \<in> set rs. co_ok c) \<and> rec_checks r' = Some (map_checks rs) \<and> rec_drill r' = rec_drill r \<and>
     backup_checksum (rec_backup r') = Some (si_checksum (pr_identity prov)) \<and> manifest_match (rec_backup r') = manifest_match (rec_backup r) \<and>
     manifest_hash (rec_backup r') = manifest_hash (rec_backup r)"
proof -
  from assms obtain rs e cio cio' r1 w where
    c: "run_checks (drill_check_deps d p prov sbx (mr_baseline man)) (dc_checks (dv_config d)) cio = (rs, e, cio')"
    and r': "r' = verdict d w r1 rs e" and r1: "rec_checks r1 = Some (map_checks rs)" "rec_drill r1 = rec_drill r"
      "backup_checksum (rec_backup r1) = Some (si_checksum (pr_identity prov))" "manifest_match (rec_backup r1) = manifest_match (rec_backup r)"
      "manifest_hash (rec_backup r1) = manifest_hash (rec_backup r)"
    by (auto simp: validate_phase_def Let_def run_drill_checks_def record_provision_def split: prod.splits if_splits)
  from assms(2) r' have e: "e = None" "\<forall>c \<in> set rs. co_ok c" by (simp_all add: verdict_pass)
  then have "rec_checks r' = rec_checks r1" "rec_drill r' = rec_drill r1" "rec_backup r' = rec_backup r1"
    by (simp_all add: r' verdict_def count_failed_def filter_empty_conv)
  with c e r1 show ?thesis by auto
qed

lemma in_sandbox_pass:
  assumes "in_sandbox d p man sbx r io = ((r', False), io')" "rec_outcome r' = outcome_pass"
    and "manifest_match (rec_backup r) = mr_match man" "manifest_hash (rec_backup r) = mr_hash man"
  shows "\<exists>prov rs. restored d r' p man sbx prov rs"
proof -
  obtain f io1 where f: "asked (dv_facts d sbx) io = (f, io1)" by fastforce
  have same: "rec_drill (record_facts r f) = rec_drill r" "rec_backup (record_facts r f) = rec_backup r" by (simp_all add: record_facts_def)
  define req where "req = drill_provision_request d sbx (pitr_target (rec_drill r))"
  obtain a io2 where a: "called (CallProvision sbx req) (dv_provision d req sbx) io1 = (a, io2)" by fastforce
  obtain r2 pan2 io3 where v: "(case a of ProvisionFailed res err \<Rightarrow> ((classify_error d (di_world io2) (record_facts r f) err, False), io2)
      | Provisioned prov \<Rightarrow> validate_phase d p man sbx prov (record_facts r f) io2) = ((r2, pan2), io3)" by (metis surj_pair)
  have "r2 = r'" "\<not> pan2" using assms(1) f a [unfolded req_def] v by (auto simp: in_sandbox_def Let_def same)
  with v assms(2) obtain prov where p: "a = Provisioned prov" "validate_phase d p man sbx prov (record_facts r f) io2 = ((r', False), io3)"
    by (auto split: provision_answer.splits)
  have "fst (dv_provision d req sbx (di_world io1)) = Provisioned prov" using a p(1) by (auto simp: called_def split: prod.splits)
  with validate_phase_pass [OF p(2) assms(2)] assms(3,4) show ?thesis
    unfolding restored_def same req_def by (intro exI [of _ prov]) (elim exE conjE, intro exI conjI; simp)
qed

lemma sandbox_phase_entered:
  assumes "sandbox_phase d p man r io = ((r', pan), io')" "rec_outcome r' = outcome_pass"
  shows "\<exists>sbx r2 io4. in_sandbox d p man sbx r2 io4 = ((r', pan), io') \<and> rec_backup r2 = rec_backup r \<and>
    (\<exists>w. fst (dv_create d (sb_params (dc_sandbox (dv_config d))) w) = Inr sbx)"
proof -
  let ?ps = "sb_params (dc_sandbox (dv_config d))"
  obtain t io1 where t: "asked (dv_now d) io = (t, io1)" by fastforce
  obtain c io2 where c: "called (CallCreate ?ps) (dv_create d ?ps) io1 = (c, io2)" by fastforce
  then have w: "fst (dv_create d ?ps (di_world io1)) = c" by (auto simp: called_def Let_def split: prod.splits)
  show ?thesis
  proof (cases c)
    case (Inl e)
    with assms t c show ?thesis by (auto simp: sandbox_phase_def Let_def)
  next
    case (Inr sbx)
    obtain n io3 where "asked (dv_now d) io2 = (n, io3)" by fastforce
    with assms(1) t c Inr w show ?thesis by (auto simp: sandbox_phase_def Let_def) force
  qed
qed

lemma execute_pass:
  assumes "execute_drill d r io = ((r', False), io')" "rec_outcome r' = outcome_pass" "rec_error r = None"
  shows "\<exists>p man sbx prov rs. (\<exists>w. fst (dv_probe d w) = Inr p) \<and> refused_by_probe d p r = None \<and>
    (\<exists>w. check_backup_manifest d w = (man, None)) \<and> (\<exists>w. fst (dv_create d (sb_params (dc_sandbox (dv_config d))) w) = Inr sbx) \<and>
    restored d r' p man sbx prov rs"
proof -
  obtain k io1 where k: "asked (dv_probe_clock d) io = (k, io1)" by fastforce
  obtain sw io2 where sw: "called CallSweep (dv_sweep d) io1 = (sw, io2)" by fastforce
  obtain pb io3 where pb: "called CallProbe (dv_probe d) io2 = (pb, io3)" by fastforce
  then have w: "fst (dv_probe d (di_world io2)) = pb" by (auto simp: called_def split: prod.splits)
  have ref: "refused_by_probe d p r1 = None \<longleftrightarrow> refused_by_probe d p r = None" for p r1 by (simp add: refused_by_probe_def Let_def)
  let ?r1 = "\<lambda>p. record_probe d (di_world io3) p (r\<lparr> rec_env := (rec_env r)\<lparr> clock_synchronised := clock_answer k \<rparr> \<rparr>)"
  note ex = assms(1) [unfolded execute_drill_def Let_def k sw pb, simplified k sw pb prod.case]
  obtain p where p1: "pb = Inr p" using ex assms(2) by (cases pb) auto
  have p2: "refused_by_probe d p (?r1 p) = None"
  proof (cases "refused_by_probe d p (?r1 p)")
    case (Some r2)
    with ex p1 refused_not_pass [OF Some] assms(2) show ?thesis by simp
  qed
  obtain man fault where m: "check_backup_manifest d (di_world io3) = (man, fault)" by fastforce
  have f: "fault = None" using ex p1 p2 m assms(2) by (cases fault) auto
  have sp: "sandbox_phase d p man (record_manifest (?r1 p) man) io3 = ((r', False), io')" using ex p1 p2 m f by simp
  have p: "pb = Inr p" "refused_by_probe d p r = None" "check_backup_manifest d (di_world io3) = (man, None)"
    using p1 p2 ref m f by auto
  from sandbox_phase_entered [OF sp] assms(2) obtain sbx r2 io4 where i: "in_sandbox d p man sbx r2 io4 = ((r', False), io')"
    "rec_backup r2 = rec_backup (record_manifest (?r1 p) man)"
    and s: "\<exists>w. fst (dv_create d (sb_params (dc_sandbox (dv_config d))) w) = Inr sbx" by auto
  from in_sandbox_pass [OF i(1) assms(2)] i(2) have "\<exists>prov rs. restored d r' p man sbx prov rs" by (simp add: record_manifest_def)
  with p w s show ?thesis by blast
qed

text \<open>A manifest that raised no fault was read, and what it gives is the text's own hash and baseline.\<close>

definition manifest_agreed :: "('w, 's) drill \<Rightarrow> manifest_result \<Rightarrow> bool" where
  "manifest_agreed d man \<longleftrightarrow> (let src = tg_source (dc_target (dv_config d)) in
     if src_manifest src = [] then man = no_manifest
     else \<exists>w m raw got. read_manifest (dv_files d w) (src_manifest src) = Inr (m, raw) \<and>
       measure_source (dv_crypto d) (dv_files d w) (src_path src) (mf_expected_checksum m \<noteq> []) = Inr got \<and>
       mf_expected_checksum m \<in> {[], ms_checksum got} \<and> mf_expected_size m \<in> {None, Some (ms_size got)} \<and>
       mr_hash man = Some (digest_of (dv_crypto d) raw) \<and> mr_match man = Some True \<and> mr_baseline man = mf_baseline m)"

lemma check_agreed:
  assumes "check_backup_manifest d w = (man, None)"
  shows "manifest_agreed d man"
proof (cases "src_manifest (tg_source (dc_target (dv_config d))) = []")
  case True
  with assms show ?thesis by (simp add: check_backup_manifest_def manifest_agreed_def)
next
  case False
  let ?src = "tg_source (dc_target (dv_config d))"
  from assms False have "check_manifest (dv_crypto d) (dv_files d w) (src_path ?src) (src_manifest ?src) = (man, None)"
    by (auto simp: check_backup_manifest_def Let_def split: prod.splits option.splits if_splits)
  then obtain m raw got where "read_manifest (dv_files d w) (src_manifest ?src) = Inr (m, raw)"
    "measure_source (dv_crypto d) (dv_files d w) (src_path ?src) (mf_expected_checksum m \<noteq> []) = Inr got"
    and c: "compare_measurement (src_path ?src) (src_manifest ?src) m got = None"
    and "man = \<lparr> mr_hash = Some (digest_of (dv_crypto d) raw), mr_match = Some True, mr_baseline = mf_baseline m \<rparr>"
    by (auto simp: check_manifest_def Let_def split: sum.splits)
  moreover from c have "mf_expected_checksum m \<in> {[], ms_checksum got}" "mf_expected_size m \<in> {None, Some (ms_size got)}"
    by (auto simp: compare_cases(1)) (cases "mf_expected_size m", auto)
  ultimately show ?thesis using False unfolding manifest_agreed_def Let_def by (simp del: insert_iff) blast
qed

text \<open>
  C12: what a passed drill stands for. If the composed record says pass, then the adapter probed and supports the
  configured source kind, with point-in-time recovery and backup selection if the configuration asks for
  them; the backup manifest, if one is named, was read, the artifact was measured and agreed with it, and the record says
  so with the hash of the manifest's text; the adapter reported a restore of the configured source to the recorded target time into
  the sandbox that was created,
  whose checksum is recorded; and every configured check ran and succeeded, none left out: the record's
  checks are one per configured check, and for baseline one per table of that manifest.
\<close>

theorem pass_means_restored:
  assumes "compose d io = ((r, False), io')" "rec_outcome r = outcome_pass"
  shows "\<exists>p man sbx prov rs. (\<exists>w. fst (dv_probe d w) = Inr p) \<and> manifest_agreed d man \<and>
    (\<exists>w. fst (dv_create d (sb_params (dc_sandbox (dv_config d))) w) = Inr sbx) \<and> restored d r p man sbx prov rs \<and>
    map check_name (the (rec_checks r)) =
      concat (map (labels_of (drill_check_deps d p prov sbx (mr_baseline man))) (enumerate 0 (dc_checks (dv_config d)))) \<and>
    (let t = dc_target (dv_config d); kind = src_kind (tg_source t) in supports_kind p kind \<and>
      (tg_pitr t \<noteq> None \<longrightarrow> supports_pitr p kind) \<and> (src_select (tg_source t) \<noteq> [] \<longrightarrow> selects_a_backup p kind))"
proof -
  from assms obtain b r1 io1 io2 io3 where b: "base_record d io1 = (b, io2)" and e: "execute_drill d b io2 = ((r1, False), io3)"
    and r: "rec_outcome r1 = rec_outcome r" "rec_checks r1 = rec_checks r" "rec_drill r1 = rec_drill r" "rec_backup r1 = rec_backup r"
    by (auto simp: compose_def Let_def split: prod.splits if_splits)
  from assms(2) r(1) have "rec_outcome r1 = outcome_pass" by simp
  from execute_pass [OF e this base_record_fresh(1) [OF b]] obtain p man sbx prov rs w where
    p: "\<exists>w. fst (dv_probe d w) = Inr p" "refused_by_probe d p b = None" "check_backup_manifest d w = (man, None)"
    "\<exists>w. fst (dv_create d (sb_params (dc_sandbox (dv_config d))) w) = Inr sbx" "restored d r1 p man sbx prov rs"
    by blast
  from p(5) have res: "restored d r p man sbx prov rs" by (simp add: restored_def r)
  then obtain cio cio' where "run_checks (drill_check_deps d p prov sbx (mr_baseline man)) (dc_checks (dv_config d)) cio = (rs, None, cio')"
    and checks: "rec_checks r = Some (map_checks rs)"
    by (auto simp: restored_def)
  then have "map co_name rs = concat (map (labels_of (drill_check_deps d p prov sbx (mr_baseline man))) (enumerate 0 (dc_checks (dv_config d))))"
    using run_names [of "drill_check_deps d p prov sbx (mr_baseline man)" 0 "dc_checks (dv_config d)" cio] by (auto simp: run_checks_def)
  then have names: "map check_name (the (rec_checks r)) =
      concat (map (labels_of (drill_check_deps d p prov sbx (mr_baseline man))) (enumerate 0 (dc_checks (dv_config d))))"
    by (simp add: checks map_checks_def comp_def)
  from p(1,2,4) res names check_agreed [OF p(3)] show ?thesis
    by (intro exI [of _ p] exI [of _ man] exI [of _ sbx] exI [of _ prov] exI [of _ rs])
      (auto simp: refused_by_probe_def Let_def split: if_splits)
qed


subsection \<open>Accepted configurations complete\<close>

lemma manifest_baseline:
  assumes "check_manifest C fs source path = (res, f)" "mr_baseline res = Some b"
  shows "\<forall>(t, w) \<in> set b. validate_expectation path t w = None"
proof -
  from assms obtain m raw where "read_manifest fs path = Inr (m, raw)" "mf_baseline m = Some b"
    by (auto simp: check_manifest_def Let_def split: sum.splits)
  with baseline_accepted(1) [of path m b] read_manifest_valid show ?thesis by auto
qed

lemma backup_baseline:
  assumes "check_backup_manifest d w = (man, f)"
  shows "\<exists>path. \<forall>b. mr_baseline man = Some b \<longrightarrow> (\<forall>(t, w) \<in> set b. validate_expectation path t w = None)"
  using assms manifest_baseline
  by (fastforce simp: check_backup_manifest_def no_manifest_def Let_def split: if_splits prod.splits option.splits)

lemma infrastructure_no_panic: "infrastructure e \<Longrightarrow> \<not> run_panics e"
  by (cases e) (auto simp: infrastructure_def)

lemma validate_phase_completes:
  assumes "list_all runnable (dc_checks (dv_config d))" "\<exists>f w. check_backup_manifest d w = (man, f)"
  shows "\<exists>r' io'. validate_phase d p man sbx prov r io = ((r', False), io')"
proof -
  obtain path where path: "\<forall>b. mr_baseline man = Some b \<longrightarrow> (\<forall>(t, w) \<in> set b. validate_expectation path t w = None)"
    using assms(2) by (blast dest: backup_baseline)
  let ?deps = "drill_check_deps d p prov sbx (mr_baseline man)"
  have base: "\<forall>(t, w) \<in> set (dp_baseline ?deps). validate_expectation path t w = None"
    using path by (cases "mr_baseline man") (auto simp: drill_check_deps_def)
  have none: "\<not> (\<exists>err \<in> set_option e. run_panics err)" if "run_checks ?deps (dc_checks (dv_config d)) cio = (rs, e, cio')" for cio rs e cio'
  proof (cases e)
    case (Some err)
    with that have "run_checks_from ?deps 0 (dc_checks (dv_config d)) cio = (rs, Some err, cio')" by (simp add: run_checks_def)
    from run_error_at [OF this assms(1) base] infrastructure_no_panic Some show ?thesis by auto
  qed simp
  then show ?thesis by (auto simp: validate_phase_def run_drill_checks_def Let_def split: prod.splits)
qed

lemma in_sandbox_completes:
  assumes "list_all runnable (dc_checks (dv_config d))" "\<exists>f w. check_backup_manifest d w = (man, f)"
  shows "\<exists>r' io'. in_sandbox d p man sbx r io = ((r', False), io')"
  using validate_phase_completes [OF assms]
  by (auto simp: in_sandbox_def Let_def split: prod.splits provision_answer.splits) (metis Pair_inject)+

lemma execute_completes:
  assumes "list_all runnable (dc_checks (dv_config d))"
  shows "\<exists>r' io'. execute_drill d r io = ((r', False), io')"
proof -
  have "\<exists>r' io'. sandbox_phase d p man r io = ((r', False), io')" if "\<exists>f w. check_backup_manifest d w = (man, f)" for p man r io
    using in_sandbox_completes [OF assms that] by (auto simp: sandbox_phase_def Let_def split: prod.splits sum.splits)
  then show ?thesis by (auto simp: execute_drill_def Let_def split: prod.splits sum.splits option.splits) metis+
qed

text \<open>
  C14: an accepted drill completes. If the loader found no problem in the configuration, then whatever the
  adapter, the sandbox, the clock, the file system and the store answer, the run ends and does not
  panic. If it returns a record without an error, the store took exactly that record, at the first attempt the composed one or, after
  refusing it for its shape, at the second the degraded one. Otherwise the caller gets the error of the first
  attempt: either the store failed for another reason and was not asked again, or it refused the degraded record too.
\<close>

theorem accepted_drill_completes:
  assumes "validate_config url now cfg = (dv_config d, [])"
  shows "\<exists>r io1 fin io'. compose d io = ((r, False), io1) \<and> run_drill d io = (fin, io') \<and>
    (case dv_append d r (di_store io) of ((r1, fault), s1) \<Rightarrow>
      (case fault of None \<Rightarrow> fin = Recorded r1 \<and> di_store io' = s1
       | Some cause \<Rightarrow> if \<not> rejected_by_shape cause then fin = NotRecorded r1 cause \<and> di_store io' = s1
           else \<exists>w now. case dv_append d (degraded_record d w now r1 cause) s1 of ((r2, fault2), s2) \<Rightarrow>
             di_store io' = s2 \<and> fin = (if fault2 = None then Recorded r2 else NotRecorded r1 cause)))"
proof -
  have run: "list_all runnable (dc_checks (dv_config d))" using config_runnable [OF assms] by simp
  obtain t io1 where t: "asked (dv_now d) io = (t, io1)" by fastforce
  obtain b io2 where b: "base_record d io1 = (b, io2)" by fastforce
  obtain r0 io3 where "execute_drill d b io2 = ((r0, False), io3)" using execute_completes [OF run] by blast
  with t b have "\<exists>r io1. compose d io = ((r, False), io1)" by (simp add: compose_def Let_def split: prod.split)
  then obtain r io1 where c: "compose d io = ((r, False), io1)" by blast
  obtain fin io' where f: "run_drill d io = (fin, io')" by fastforce
  have s: "di_store io1 = di_store io" using compose_calls [OF c] by blast
  obtain r1 fault s1 where a: "dv_append d r (di_store io) = ((r1, fault), s1)" by (metis surj_pair)
  show ?thesis
  proof (cases "\<exists>cause. fault = Some cause \<and> rejected_by_shape cause")
    case False
    with c f s a have "case fault of None \<Rightarrow> fin = Recorded r1 \<and> di_store io' = s1
        | Some cause \<Rightarrow> \<not> rejected_by_shape cause \<and> fin = NotRecorded r1 cause \<and> di_store io' = s1"
      by (auto simp: run_drill_def append_to_def append_degraded_def Let_def split: option.splits)
    with c f a show ?thesis by (auto split: option.splits)
  next
    case True
    then obtain cause where cause: "fault = Some cause" "rejected_by_shape cause" by blast
    obtain n io2 where n: "asked (dv_now d) (io1\<lparr> di_store := s1, di_calls := di_calls io1 @ [CallAppend r] \<rparr>) = (n, io2)" by fastforce
    then have s2: "di_store io2 = s1" by (auto simp: asked_def Let_def split: prod.splits)
    obtain r2 fault2 s2 where g: "dv_append d (degraded_record d (di_world io2) n r1 cause) s1 = ((r2, fault2), s2)" by (metis surj_pair)
    from c f s a cause n s2 g have "di_store io' = s2 \<and> fin = (if fault2 = None then Recorded r2 else NotRecorded r1 cause)"
      by (auto simp: run_drill_def append_to_def append_degraded_def Let_def split: if_splits)
    then have "\<exists>w now. case dv_append d (degraded_record d w now r1 cause) s1 of ((r2, fault2), s2) \<Rightarrow>
        di_store io' = s2 \<and> fin = (if fault2 = None then Recorded r2 else NotRecorded r1 cause)"
      by (intro exI [of _ "di_world io2"] exI [of _ n]) (simp add: g)
    with c f a cause show ?thesis by (intro exI [of _ r] exI [of _ io1] exI [of _ fin] exI [of _ io']) simp
  qed
qed

end
