(* ===== verification/DrillSecrets.thy ===== *)
theory DrillSecrets
  imports Drill
begin

text \<open>
  An adapter names the environment variable that holds the connection password. A run depends on the
  drill host's environment only through the variables that the configuration declared: the operations
  of a drill, one after the other, do the same in any environment that agrees on those.
\<close>

abbreviation with_env :: "('w, 's) drill \<Rightarrow> (bytes \<Rightarrow> bytes option) \<Rightarrow> ('w, 's) drill" where
  "with_env d f \<equiv> d\<lparr> dv_lookup_env := f \<rparr>"

lemma env_texts [simp]:
  "drill_redactor (with_env d f) = drill_redactor d"
  "drill_host_id (with_env d f) w = drill_host_id d w"
  "digest_at (with_env d f) w path = digest_at d w path"
  "classified (with_env d f) ctx err = classified d ctx err"
  "refused_by_probe (with_env d f) p r = refused_by_probe d p r"
  "record_probe (with_env d f) w p r = record_probe d w p r"
  "check_backup_manifest (with_env d f) w = check_backup_manifest d w"
  "drill_provision_request (with_env d f) sbx t = drill_provision_request d sbx t"
  by (simp_all add: drill_redactor_def drill_host_id_def digest_at_def classified_def refused_by_probe_def record_probe_def check_backup_manifest_def drill_provision_request_def cong del: option.case_cong_weak sum.case_cong_weak prod.case_cong_weak if_weak_cong)

lemma env_messages [simp]:
  "record_message (with_env d f) m = record_message d m"
  "self_digest (with_env d f) w = self_digest d w"
  by (simp_all add: record_message_def self_digest_def cong del: option.case_cong_weak sum.case_cong_weak prod.case_cong_weak if_weak_cong)

lemma env_errors [simp]:
  "classify_error (with_env d f) w r err = classify_error d w r err"
  "record_fault (with_env d f) r x = record_fault d r x"
  "degraded_record (with_env d f) w now r cause = degraded_record d w now r cause"
  by (simp_all add: classify_error_def record_fault_def degraded_record_def cong del: option.case_cong_weak sum.case_cong_weak prod.case_cong_weak if_weak_cong)

lemma env_verdicts [simp]:
  "create_failed (with_env d f) w r err = create_failed d w r err"
  "verdict (with_env d f) w r rs e = verdict d w r rs e"
  by (simp_all add: create_failed_def verdict_def cong del: option.case_cong_weak sum.case_cong_weak prod.case_cong_weak if_weak_cong)

lemma env_calls [simp]:
  "base_record (with_env d f) io = base_record d io"
  "clean_up (with_env d f) sbx state r io = clean_up d sbx state r io"
  "run_drill_checks (with_env d f) sbx deps io = run_drill_checks d sbx deps io"
  "append_to (with_env d f) r io = append_to d r io"
  "append_degraded (with_env d f) r cause io = append_degraded d r cause io"
  by (simp_all add: base_record_def clean_up_def run_drill_checks_def append_to_def append_degraded_def cong del: option.case_cong_weak sum.case_cong_weak prod.case_cong_weak provision_answer.case_cong_weak if_weak_cong)

text \<open>
  An adapter cannot draw on the environment of the drill host. The run of a drill, with the record it leaves,
  every command it sends and everything it writes to the log, is the same whatever the values are of
  the variables that source.credential_env does not name, also when the adapter's connection names one
  of them as its password variable.
\<close>

theorem undeclared_variables_unread:
  assumes "\<forall>v \<in> set (src_credential_env (tg_source (dc_target (dv_config d)))). f v = dv_lookup_env d v"
  shows "run_drill (d\<lparr> dv_lookup_env := f \<rparr>) io = run_drill d io"
proof -
  have "resolve_password (with_env d f) v = resolve_password d v" for v
    using assms by (simp add: resolve_password_def)
  then have deps: "drill_check_deps (with_env d f) p prov sbx b = drill_check_deps d p prov sbx b" for p prov sbx b
    by (simp add: drill_check_deps_def)
  have phase: "validate_phase (with_env d f) p man sbx prov r io = validate_phase d p man sbx prov r io" for p man sbx prov r io
    by (simp add: validate_phase_def deps cong del: option.case_cong_weak sum.case_cong_weak prod.case_cong_weak provision_answer.case_cong_weak if_weak_cong)
  have sandbox: "in_sandbox (with_env d f) p man sbx r io = in_sandbox d p man sbx r io" for p man sbx r io
    by (simp add: in_sandbox_def phase cong del: option.case_cong_weak sum.case_cong_weak prod.case_cong_weak provision_answer.case_cong_weak if_weak_cong)
  have "sandbox_phase (with_env d f) p man r io = sandbox_phase d p man r io" for p man r io
    by (simp add: sandbox_phase_def sandbox cong del: option.case_cong_weak sum.case_cong_weak prod.case_cong_weak provision_answer.case_cong_weak if_weak_cong)
  then have "execute_drill (with_env d f) r io = execute_drill d r io" for r io
    by (simp add: execute_drill_def cong del: option.case_cong_weak sum.case_cong_weak prod.case_cong_weak provision_answer.case_cong_weak if_weak_cong)
  then have "compose (with_env d f) io = compose d io" by (simp add: compose_def cong del: option.case_cong_weak sum.case_cong_weak prod.case_cong_weak provision_answer.case_cong_weak if_weak_cong)
  then show ?thesis by (simp add: run_drill_def cong del: option.case_cong_weak sum.case_cong_weak prod.case_cong_weak provision_answer.case_cong_weak if_weak_cong)
qed

end
