(* ===== verification/AdapterProps.thy ===== *)
theory AdapterProps
  imports AdapterProtocol
begin

text \<open>
  The boundary between an adapter and the record: version negotiation, and what a provision result
  that passed validation puts into the evidence.
\<close>

subsection \<open>Rounding\<close>

lemma bit_length_low: "0 < n \<Longrightarrow> 2 ^ (bit_length n - 1) \<le> n"
proof (induction n rule: bit_length.induct)
  case (1 n)
  show ?case
  proof (cases "n = 1")
    case False
    with 1 have "0 < n div 2" by simp
    with 1 have "2 ^ (bit_length (n div 2) - 1) \<le> n div 2" by simp
    moreover have "bit_length n = Suc (bit_length (n div 2))" "0 < bit_length (n div 2)"
      using 1 \<open>0 < n div 2\<close> by (simp_all add: bit_length.simps [of n] bit_length.simps [of "n div 2"])
    ultimately have "2 ^ (bit_length n - 1) \<le> 2 * (n div 2)" by (cases "bit_length (n div 2)") auto
    then show ?thesis by linarith
  qed (simp add: bit_length.simps)
qed

lemma round_half_bound:
  assumes "q \<le> b * 2 ^ nat (- x) + c" "2 * c \<le> 2 ^ nat (- x)" "x < 0"
  shows "round_half q x \<le> b + 1"
proof -
  let ?d = "2 ^ nat (- x) :: nat"
  have "2 * q + ?d \<le> 2 * (b * ?d) + 2 * c + ?d" using assms(1) by simp
  also have "\<dots> \<le> (b + 1) * (2 * ?d)" using assms(2) by (simp add: algebra_simps)
  finally have "(2 * q + ?d) div (2 * ?d) \<le> (b + 1) * (2 * ?d) div (2 * ?d)" by (rule div_le_mono)
  with assms(3) show ?thesis by (simp add: round_half_def)
qed

lemma rounded_bound:
  assumes "if 0 \<le> e then n * 2 ^ nat e \<le> b else n \<le> b * 2 ^ nat (- e)" "b + 1 < 2 ^ 53" "round53 n e = (q', x)"
  shows "round_half q' x \<le> b + 1"
proof (cases "bit_length n \<le> 53")
  case True
  then have q: "q' = n" "x = e" using assms(3) by (auto simp: round53_def)
  show ?thesis
  proof (cases "0 \<le> e")
    case True
    with assms(1) q show ?thesis by (simp add: round_half_def)
  next
    case False
    with assms(1) q show ?thesis by (intro round_half_bound [of _ _ _ 0]) simp_all
  qed
next
  case False
  define k where "k = bit_length n - 53"
  define q where "q = n div 2 ^ k"
  have pos: "0 < n" using False by (cases n) (auto simp: bit_length.simps)
  have "bit_length n - 1 = 52 + k" using False by (simp add: k_def)
  with bit_length_low [OF pos] have n: "2 ^ (52 + k) \<le> n" by simp
  have qn: "q * 2 ^ k \<le> n" by (simp add: q_def)
  have q52: "2 ^ 52 \<le> q" using div_le_mono [OF n, of "2 ^ k"] by (simp add: q_def power_add)
  have q': "q' \<le> q + 1" "x = e + int k" using assms(3) by (auto simp: round53_def Let_def k_def q_def)
  have "1 \<le> k" using False by (simp add: k_def)
  then have "(2::nat) ^ 53 \<le> 2 ^ (52 + k)" by (intro power_increasing) simp_all
  with n have n53: "2 ^ 53 \<le> n" by linarith
  have e: "e < 0"
  proof (rule ccontr)
    assume "\<not> e < 0"
    with assms(1) have "n * 1 \<le> b" by (meson dual_order.trans linorder_not_less mult_le_mono2 one_le_power one_le_numeral)
    with n53 assms(2) show False by linarith
  qed
  have nb: "n \<le> b * 2 ^ nat (- e)" using assms(1) e by simp
  consider "0 < x" | "x = 0" | "x < 0" by linarith
  then show ?thesis
  proof cases
    case 1
    then have "nat (- e) < k" using q'(2) e by linarith
    then have "(2::nat) ^ k = 2 ^ nat (- e) * 2 ^ (k - nat (- e))" by (simp flip: power_add)
    then have "(q * 2 ^ (k - nat (- e))) * 2 ^ nat (- e) = q * 2 ^ k" by simp
    with qn nb have "(q * 2 ^ (k - nat (- e))) * 2 ^ nat (- e) \<le> b * 2 ^ nat (- e)" by linarith
    then have "q * 2 ^ (k - nat (- e)) \<le> b" by simp
    moreover have "(2::nat) ^ 1 \<le> 2 ^ (k - nat (- e))" using \<open>nat (- e) < k\<close> by (intro power_increasing) simp_all
    ultimately have "2 ^ 52 * 2 \<le> b" using mult_le_mono [OF q52] by fastforce
    with assms(2) show ?thesis by simp
  next
    case 2
    then have "k = nat (- e)" using q'(2) e by linarith
    with qn nb have "q * 2 ^ k \<le> b * 2 ^ k" using le_trans by blast
    then have "q \<le> b" by simp
    with q' 2 show ?thesis by (simp add: round_half_def)
  next
    case 3
    then have "nat (- e) = k + nat (- x)" using q'(2) e by linarith
    then have "b * 2 ^ nat (- e) = (b * 2 ^ nat (- x)) * 2 ^ k" by (simp add: power_add)
    with qn nb have "q * 2 ^ k \<le> (b * 2 ^ nat (- x)) * 2 ^ k" by linarith
    then have "q \<le> b * 2 ^ nat (- x)" by simp
    with q'(1) have "q' \<le> b * 2 ^ nat (- x) + 1" by simp
    moreover have "(2::nat) ^ 1 \<le> 2 ^ nat (- x)" using 3 by (intro power_increasing) simp_all
    ultimately show ?thesis using 3 by (intro round_half_bound [of _ _ _ 1]) simp_all
  qed
qed

lemma timing_bound:
  assumes "validate_timing_seconds fm field s = Inr ()"
  shows "0 \<le> seconds_to_ms s \<and> seconds_to_ms s \<le> max_safe_integer"
proof -
  from assms obtain m e where s: "s = Finite m e" "0 \<le> m" "\<not> float_above (Finite m e) max_timing_seconds"
    by (cases s) (auto simp: validate_timing_seconds_def float_negative_def split: if_splits)
  let ?b = "9007199254740 :: nat"
  have M: "max_timing_seconds = int ?b" by (simp add: max_timing_seconds_def)
  obtain q x where r: "round53 (nat \<bar>m\<bar> * 1000) e = (q, x)" by fastforce
  have "if 0 \<le> e then nat m * 1000 * 2 ^ nat e \<le> ?b * 1000 else nat m * 1000 \<le> ?b * 1000 * 2 ^ nat (- e)"
  proof (cases "0 \<le> e")
    case True
    with s have "int (nat m * 2 ^ nat e) \<le> int ?b" by (simp add: float_above_def M)
    then have "nat m * 2 ^ nat e \<le> ?b" by (simp only: of_nat_le_iff)
    with True show ?thesis by simp
  next
    case False
    with s have "int (nat m) \<le> int (?b * 2 ^ nat (- e))" by (simp add: float_above_def M)
    then have "nat m \<le> ?b * 2 ^ nat (- e)" by (simp only: of_nat_le_iff)
    with False show ?thesis by simp
  qed
  from rounded_bound [OF this _ r [unfolded abs_of_nonneg [OF s(2)]]] have "round_half q x \<le> ?b * 1000 + 1" by simp
  with r s show ?thesis by (simp add: seconds_to_ms_def max_safe_integer_def)
qed

subsection \<open>What a validated result puts into a record\<close>

lemma validated_result:
  assumes "validate_provision_result fm res = (res', None)"
  shows "sha256_ref (si_checksum (pr_identity res'))" "0 \<le> si_size (pr_identity res')" "pr_timings res' = pr_timings res"
    "si_checksum (pr_identity res') = si_checksum (pr_identity res)" "si_size (pr_identity res') = si_size (pr_identity res)"
    "normalize_created_at fm (si_created_at (pr_identity res)) = Inr (si_created_at (pr_identity res'))"
    "\<forall>(n, s) \<in> set (timing_fields res). validate_timing_seconds fm n s = Inr ()"
  using assms by (auto simp: validate_provision_result_def Let_def split: if_splits sum.splits)

text \<open>
  What an adapter's provision result puts into the evidence. A result that passed the client's validation has
  a checksum that is a SHA-256 reference and a size that is not negative; the three phase times,
  converted from floating point seconds with the rounding of the machine, are milliseconds that are not
  negative and fit the range of integers the canonical form takes; and the creation instant is written
  in the record's form whenever it lies, in UTC, in the years 0 to 9999.
\<close>

theorem provision_recordable:
  assumes "validate_provision_result fm res = (res', None)"
  shows "sha256_ref (si_checksum (pr_identity res')) \<and> 0 \<le> si_size (pr_identity res') \<and>
    (\<forall>s \<in> {ph_engine_ready (pr_timings res'), ph_transfer (pr_timings res'), ph_restore (pr_timings res')}.
      0 \<le> seconds_to_ms s \<and> seconds_to_ms s \<le> max_safe_integer) \<and>
    (case si_created_at (pr_identity res) of None \<Rightarrow> si_created_at (pr_identity res') = None
     | Some text \<Rightarrow> \<exists>t. parse_rfc3339 text = Some t \<and>
         (four_digit_year (t - t mod 1000000) \<longrightarrow> (\<exists>s. si_created_at (pr_identity res') = Some s \<and> valid_ts s)))"
proof -
  note v = validated_result [OF assms]
  have "\<forall>s \<in> {ph_engine_ready (pr_timings res'), ph_transfer (pr_timings res'), ph_restore (pr_timings res')}.
      0 \<le> seconds_to_ms s \<and> seconds_to_ms s \<le> max_safe_integer"
    using v(3,7) timing_bound by (force simp: timing_fields_def)
  moreover have "case si_created_at (pr_identity res) of None \<Rightarrow> si_created_at (pr_identity res') = None
     | Some text \<Rightarrow> \<exists>t. parse_rfc3339 text = Some t \<and>
         (four_digit_year (t - t mod 1000000) \<longrightarrow> (\<exists>s. si_created_at (pr_identity res') = Some s \<and> valid_ts s))"
    using v(6) format_valid by (auto simp: normalize_created_at_def split: option.splits dest!: sym [of "Some _" "si_created_at (pr_identity res')"])
  ultimately show ?thesis using v(1,2) by blast
qed

text \<open>
  Version negotiation. A probe that succeeds chooses the highest version that both sides speak, and one
  fails with unsupported_protocol exactly when a named adapter shares none; until then, and after a
  failure, what the runner speaks is what it spoke before: for a fresh runner the floor.
\<close>

theorem negotiation_exact:
  "case probe_op unmarshal old (Inr payload) of (answer, new) \<Rightarrow>
    (case answer of
       Inr res \<Rightarrow> new = (if protocol_version \<in> set (pb_protocol_versions res) then protocol_version else protocol_floor) \<and>
         new \<in> set (pb_protocol_versions res) \<and> spoken_protocol new = new
     | Inl e \<Rightarrow> new = old \<and> (ge_adapter e \<noteq> None) \<and>
         (ae_code (the (ge_adapter e)) = ''unsupported_protocol'' \<longleftrightarrow>
           (\<exists>res. unmarshal payload = Inr res \<and> pb_name res \<noteq> [] \<and> set (pb_protocol_versions res) \<inter> set protocol_versions = {})))"
  by (auto simp: probe_op_def protocol_error_def crash_def highest_common_def protocol_versions_def protocol_version_def
      protocol_floor_def spoken_protocol_def split: sum.splits if_splits option.splits)

end
