(* ===== verification/DrillWitnesses.thy ===== *)
theory DrillWitnesses
  imports DrillRun DrillSecrets AdapterProps CheckWitnesses
begin

text \<open>A drill that passes, on collaborators that always answer, and the properties at it.\<close>

definition drill_config_sample :: drill_config where
  "drill_config_sample = plain_config\<lparr> dc_hash := genesis_prev_hash \<rparr>"

definition probe_sample :: probe_result where
  "probe_sample = \<lparr> pb_name = ''pg'', pb_adapter_version = ''1'', pb_protocol_versions = [protocol_version], pb_engine = ''e'',
     pb_sources = [\<lparr> sk_kind = ''k'', sk_pitr = False, sk_select = None \<rparr>], pb_sql_runner = \<lparr> sr_argv = [''psql''], sr_env = [] \<rparr>,
     pb_verbs_required = [], pb_identifier = None, pb_checks = [] \<rparr>"

definition provision_sample :: provision_result where
  "provision_sample = \<lparr> pr_connection = \<lparr> cn_scheme = ''s'', cn_host = [], cn_port = 1, cn_database = ''d'', cn_user = ''u'', cn_password_env = [] \<rparr>,
     pr_identity = \<lparr> si_checksum = genesis_prev_hash, si_size = 3, si_created_at = None \<rparr>,
     pr_timings = \<lparr> ph_engine_ready = Finite 3 (- 1), ph_transfer = Finite 0 0, ph_restore = Finite 5 0 \<rparr>, pr_state = ''st'' \<rparr>"

definition exec_sample :: exec_result where
  "exec_sample = \<lparr> xr_exit = 0, xr_stdout = ''1'', xr_stderr = [], xr_truncated = False \<rparr>"

definition no_files :: file_system where
  "no_files = \<lparr> fs_read = (\<lambda>p. Inl (NotExist p)), fs_stat = (\<lambda>p. Inl (NotExist p)), fs_lstat = (\<lambda>p. Inl (NotExist p)),
     fs_readlink = (\<lambda>p. Inl (NotExist p)), fs_walk = (\<lambda>p. Inl (NotExist p)), fs_join = (\<lambda>a b. a @ b) \<rparr>"

definition drill_sample :: "(unit, store) drill" where
  "drill_sample = \<lparr> dv_config = drill_config_sample, dv_version = ''1'', dv_os = ''linux'', dv_arch = ''amd64'', dv_password = ''pw'',
     dv_credentials = [], dv_crypto = sample_crypto, dv_formats = \<lparr> fm_printable = (\<lambda>r. r < 0x7F), fm_float = (\<lambda>f. ''x'') \<rparr>,
     dv_fault_text = (\<lambda>m. ''fault''), dv_now = (\<lambda>w. (0, w)), dv_hostname = (\<lambda>w. Some ''h''), dv_executable = (\<lambda>w. None),
     dv_probe_clock = (\<lambda>w. (None, w)), dv_lookup_env = (\<lambda>v. None), dv_files = (\<lambda>w. no_files), dv_ctx_err = (\<lambda>w. None),
     dv_adapter_path = ''p'', dv_protocol = (\<lambda>w. protocol_version), dv_probe = (\<lambda>w. (Inr probe_sample, w)),
     dv_provision = (\<lambda>q s w. (Provisioned provision_sample, w)), dv_healthcheck = (\<lambda>c st s w. (Inr \<lparr> hr_healthy = True, hr_detail = [] \<rparr>, w)),
     dv_teardown = (\<lambda>st why s w. (None, w)), dv_sweep = (\<lambda>w. (Inr [], w)), dv_create = (\<lambda>ps w. (Inr ''sbx'', w)),
     dv_scratch_dir = (\<lambda>s. ''/tmp''), dv_facts = (\<lambda>s w. (\<lparr> fa_image_digest = None, fa_memory_bytes = None, fa_cpus_milli = None \<rparr>, w)),
     dv_exec = (\<lambda>s q w. (Inr exec_sample, w)), dv_destroy = (\<lambda>s w. (None, w)), dv_append = store_append sample_crypto (\<lambda>e. ''e'') \<rparr>"

definition io_sample :: "(unit, store) drill_io" where
  "io_sample = \<lparr> di_world = (), di_store = sample_store, di_calls = [], di_log = [] \<rparr>"

lemma checks_pass:
  "\<exists>rq. run_checks (drill_check_deps drill_sample probe_sample provision_sample sbx b) (dc_checks drill_config_sample)
      \<lparr> io_world = (), io_requests = [], io_log = [] \<rparr> =
    ([\<lparr> co_name = check_label plain_check 0, co_ok = True, co_newest = None,
        co_detail = truncate_detail (drill_redactor drill_sample) ''matched expectation'' \<rparr>], None,
     \<lparr> io_world = (), io_requests = rq, io_log = [] \<rparr>)"
proof -
  let ?deps = "drill_check_deps drill_sample probe_sample provision_sample sbx b"
  have "\<not> sublist ph_password ''psql''" by code_simp
  then obtain argv env where "render_runner (dp_runner ?deps) (dp_target ?deps) ''q'' = Inr (argv, env)"
    by (auto simp: render_runner_def drill_check_deps_def probe_sample_def)
  moreover have "dp_exec ?deps rq w = (Inr exec_sample, w)" for rq w by (simp add: drill_check_deps_def drill_sample_def)
  moreover have "trim_space ''1'' = ''1''" by (rule trim_space_graphic) (simp_all add: graphic_def)
  moreover have "ch_sql plain_check = ''q''" "ch_builtin plain_check = []" "ch_expect plain_check = \<lparr> sc_set = True, sc_value = ''1'' \<rparr>"
    by (simp_all add: plain_check_def)
  moreover have "dp_redact ?deps = drill_redactor drill_sample" by (simp add: drill_check_deps_def)
  moreover have "dc_checks drill_config_sample = [plain_check]" by (simp add: drill_config_sample_def plain_config_def)
  ultimately show ?thesis
    by (simp add: run_checks_def run_one_def run_kind_def plain_result_def run_sql_def query_def exec_sample_def kind_codes [symmetric])
qed

lemma sample_asked [simp]: "asked (dv_now drill_sample) io = (0, io)" "asked (dv_probe_clock drill_sample) io = (None, io)"
    "asked (dv_facts drill_sample sbx) io = (\<lparr> fa_image_digest = None, fa_memory_bytes = None, fa_cpus_milli = None \<rparr>, io)"
  by (simp_all add: asked_def drill_sample_def)

lemma sample_called [simp]:
  "called c (dv_sweep drill_sample) io = (Inr [], io\<lparr> di_calls := di_calls io @ [c] \<rparr>)"
  "called c (dv_probe drill_sample) io = (Inr probe_sample, io\<lparr> di_calls := di_calls io @ [c] \<rparr>)"
  "called c (dv_create drill_sample ps) io = (Inr ''sbx'', io\<lparr> di_calls := di_calls io @ [c] \<rparr>)"
  "called c (dv_provision drill_sample q sbx) io = (Provisioned provision_sample, io\<lparr> di_calls := di_calls io @ [c] \<rparr>)"
  by (simp_all add: called_def drill_sample_def)

lemma sample_validated:
  "\<exists>r' io'. validate_phase drill_sample probe_sample man sbx provision_sample r io = ((r', False), io') \<and> rec_outcome r' = outcome_pass"
proof -
  obtain rq where "run_checks (drill_check_deps drill_sample probe_sample provision_sample sbx (mr_baseline man)) (dc_checks drill_config_sample)
      \<lparr> io_world = (), io_requests = [], io_log = [] \<rparr> =
    ([\<lparr> co_name = check_label plain_check 0, co_ok = True, co_newest = None,
        co_detail = truncate_detail (drill_redactor drill_sample) ''matched expectation'' \<rparr>], None,
     \<lparr> io_world = (), io_requests = rq, io_log = [] \<rparr>)" using checks_pass by blast
  moreover have "dv_config drill_sample = drill_config_sample" by (simp add: drill_sample_def)
  ultimately show ?thesis
    by (simp add: validate_phase_def Let_def run_drill_checks_def verdict_def count_failed_def)
qed

lemma sample_executed:
  "\<exists>r' io'. execute_drill drill_sample r io = ((r', False), io') \<and> rec_outcome r' = outcome_pass"
proof -
  have t: "tg_source (dc_target (dv_config drill_sample)) = \<lparr> src_kind = ''k'', src_path = ''p'', src_manifest = [], src_select = [], src_params = [],
      src_credential_env = [] \<rparr>" "tg_pitr (dc_target (dv_config drill_sample)) = None"
    by (simp_all add: drill_sample_def drill_config_sample_def plain_config_def)
  have ref: "refused_by_probe drill_sample probe_sample r = None" for r
    by (simp add: refused_by_probe_def t supports_kind_def probe_sample_def)
  have man: "check_backup_manifest drill_sample w = (no_manifest, None)" for w by (simp add: check_backup_manifest_def t)
  have "\<exists>r' io'. in_sandbox drill_sample probe_sample man sbx r io = ((r', False), io') \<and> rec_outcome r' = outcome_pass" for man sbx r io
    using sample_validated by (simp add: in_sandbox_def Let_def) (metis (no_types, lifting) case_prod_conv)
  then show ?thesis by (simp add: execute_drill_def Let_def ref man sandbox_phase_def)
qed

lemma sample_composed:
  "\<exists>r io'. compose drill_sample io_sample = ((r, False), io') \<and> rec_outcome r = outcome_pass \<and> t_total (rec_timings r) = Some 0"
proof -
  obtain b io1 where b: "base_record drill_sample io_sample = (b, io1)" by fastforce
  obtain r io2 where "execute_drill drill_sample b io1 = ((r, False), io2)" "rec_outcome r = outcome_pass" using sample_executed by blast
  with b show ?thesis by (simp add: compose_def Let_def ms_since_def sub_instants_def max_duration_def)
qed

theorem outcome_taxonomy_witness:
  "\<exists>r io'. compose drill_sample io_sample = ((r, False), io') \<and> rec_error r = None"
  using sample_composed outcome_taxonomy by metis

lemma sample_host: "drill_host_ok drill_sample"
proof -
  have "valid_string ''linux''" "valid_string ''amd64''" by (rule plain_valid; simp add: plain_char_def)+
  moreover have "four_digit_year 0" by (simp add: four_digit_year_def first_instant_def end_instant_def epoch_days_def nanos_per_second_def days_per_cycle_def)
  ultimately show ?thesis
    using sample_crypto_ok genesis_ref
    by (simp add: drill_host_ok_def platform_ok_def facts_utf8_def drill_sample_def drill_config_sample_def plain_config_def)
qed

theorem one_record_per_run_witness:
  "\<exists>rec io'. run_drill drill_sample io_sample = (Recorded rec, io') \<and> length (store_lines (di_store io')) = 1"
proof -
  obtain r io' where c: "compose drill_sample io_sample = ((r, False), io')" "t_total (rec_timings r) = Some 0" using sample_composed by blast
  have "store_ready sample_crypto (Some sample_keys) (di_store io_sample)"
    using sample_store_ok sample_signer_in sample_crypto_ok
    by (simp add: store_ready_def io_sample_def) (simp add: sample_store_def max_safe_integer_def)
  moreover have "dv_append drill_sample = store_append sample_crypto (\<lambda>e. ''e'')" by (simp add: drill_sample_def)
  moreover have "store_lines (di_store io_sample) = []" by (simp add: io_sample_def sample_store_def store_lines_def record_lines_def)
  ultimately show ?thesis using one_record_per_run [OF sample_host _ _ c(1,2)] by fastforce
qed

theorem pass_means_restored_witness:
  "\<exists>r io'. compose drill_sample io_sample = ((r, False), io') \<and> map check_name (the (rec_checks r)) = [check_label plain_check 0]"
proof -
  obtain r io' where c: "compose drill_sample io_sample = ((r, False), io')" "rec_outcome r = outcome_pass" using sample_composed by blast
  have "dc_checks (dv_config drill_sample) = [plain_check]" by (simp add: drill_sample_def drill_config_sample_def plain_config_def)
  moreover have "labels_of deps (i, plain_check) = [check_label plain_check i]" for deps i by (simp add: labels_of_def plain_check_def kind_codes [symmetric])
  ultimately have "map check_name (the (rec_checks r)) = [check_label plain_check 0]"
    using pass_means_restored [OF c] by auto
  with c(1) show ?thesis by (intro exI [of _ r] exI [of _ io']) simp
qed

lemma second_append_ends:
  "case q of ((r2, fault), s2) \<Rightarrow> s = s2 \<and> fin = (if fault = None then Recorded r2 else NotRecorded r1 cause) \<Longrightarrow> fin \<noteq> RunPanicked"
  by (auto split: prod.splits if_splits)

theorem accepted_drill_completes_witness:
  "\<exists>r io1 fin io'. compose drill_sample io_sample = ((r, False), io1) \<and> run_drill drill_sample io_sample = (fin, io') \<and> fin \<noteq> RunPanicked"
proof -
  have "validate_config (\<lambda>_. None) 0 drill_config_sample = (drill_config_sample, [])"
    by (simp add: drill_config_sample_def validate_config_def validate_target_def validate_source_def validate_sandbox_def
        validate_check_list_def validate_check_config_def validate_sql_def forbid_def validate_evidence_def plain_config_def plain_check_def
        adapter_name_ok_def is_lower_def add_if_def)
  then have "validate_config (\<lambda>_. None) 0 drill_config_sample = (dv_config drill_sample, [])" by (simp add: drill_sample_def)
  from accepted_drill_completes [OF this, of io_sample] obtain r io1 fin io' where
    c: "compose drill_sample io_sample = ((r, False), io1)" "run_drill drill_sample io_sample = (fin, io')"
    and e: "case dv_append drill_sample r (di_store io_sample) of ((r1, fault), s1) \<Rightarrow>
      (case fault of None \<Rightarrow> fin = Recorded r1 \<and> di_store io' = s1
       | Some cause \<Rightarrow> if \<not> rejected_by_shape cause then fin = NotRecorded r1 cause \<and> di_store io' = s1
           else \<exists>w now. case dv_append drill_sample (degraded_record drill_sample w now r1 cause) s1 of ((r2, fault2), s2) \<Rightarrow>
             di_store io' = s2 \<and> fin = (if fault2 = None then Recorded r2 else NotRecorded r1 cause))"
    by (elim exE conjE) (rule that; assumption)
  obtain r1 fault s1 where "dv_append drill_sample r (di_store io_sample) = ((r1, fault), s1)" by (metis surj_pair)
  with e have "fin \<noteq> RunPanicked" by (auto split: option.splits if_splits dest: second_append_ends)
  with c show ?thesis by blast
qed

theorem undeclared_variables_unread_witness:
  "run_drill (drill_sample\<lparr> dv_lookup_env := (\<lambda>v. Some ''secret'') \<rparr>) io_sample = run_drill drill_sample io_sample"
  by (rule undeclared_variables_unread) (simp add: drill_sample_def drill_config_sample_def plain_config_def)

theorem provision_recordable_witness: "0 \<le> seconds_to_ms (Finite 3 (- 1)) \<and> seconds_to_ms (Finite 3 (- 1)) \<le> max_safe_integer"
proof -
  let ?fm = "\<lparr> fm_printable = (\<lambda>r. False), fm_float = (\<lambda>f. []) \<rparr>"
  have "validate_provision_result ?fm provision_sample = (provision_sample, None)"
    using genesis_ref by (simp add: validate_provision_result_def provision_sample_def normalize_created_at_def timing_fields_def
        validate_timing_seconds_def float_negative_def float_above_def max_timing_seconds_def steps.simps)
  from provision_recordable [OF this] show ?thesis by (simp add: provision_sample_def)
qed

end
