(* ===== verification/AdapterWire.thy ===== *)
theory AdapterWire
  imports Decode AdapterProtocol
begin

text \<open>
  The messages an adapter writes (internal/adapter/protocol.go, verbs.go) as \<^verbatim>\<open>json.Unmarshal\<close> reads them:
  the envelope of a line, the sandbox call in it, the arguments of the two verbs. A
  \<^verbatim>\<open>json.RawMessage\<close> is the parsed value, absent if the key was. The rules for names, null and
  repeated keys are those of \<open>Decode\<close>. \<open>parse_float64\<close> is \<^verbatim>\<open>strconv.ParseFloat\<close> on a JSON number, and
  \<open>seconds_to_duration\<close> what the core makes of a timeout in seconds.
\<close>

subsection \<open>Numbers with a fraction\<close>

text \<open>Sign, digits and power of ten of a JSON number.\<close>

definition exponent_of :: "bytes \<Rightarrow> int" where
  "exponent_of s = (case s of [] \<Rightarrow> 0
     | c # t \<Rightarrow> if c = CHR ''-'' then - int (digits_val t) else if c = CHR ''+'' then int (digits_val t) else int (digits_val s))"

definition decimal_of :: "bytes \<Rightarrow> bool \<times> nat \<times> int" where
  "decimal_of s =
    (let neg = (s \<noteq> [] \<and> hd s = CHR ''-''); body = (if neg then tl s else s);
         mant = takeWhile (\<lambda>c. c \<noteq> CHR ''e'' \<and> c \<noteq> CHR ''E'') body;
         (whole, frac, found) = cut (CHR ''.'') mant
     in (neg, digits_val (whole @ frac), exponent_of (drop (Suc (length mant)) body) - int (length frac)))"

text \<open>
  The nearest \<^verbatim>\<open>float64\<close>, ties to even, with the exponent of the least one as floor: \<open>n * 2 ^ e\<close>, where the last
  bit of \<open>n\<close> stands for everything below it.
\<close>

definition round_float :: "nat \<Rightarrow> int \<Rightarrow> nat \<times> int" where
  "round_float n e =
    (let k = max (bit_length n - 53) (nat (- 1074 - e)); q = n div 2 ^ k; r = n mod 2 ^ k
     in (if 2 * r > 2 ^ k \<or> (2 * r = 2 ^ k \<and> odd q) then Suc q else q, e + int k))"

text \<open>Enough bits of a decimal fraction: one more than its denominator has, down to the least exponent, and one that says whether anything is left.\<close>

definition binary_of :: "nat \<Rightarrow> int \<Rightarrow> nat \<times> int" where
  "binary_of m x =
    (if 0 \<le> x then (m * 10 ^ nat x, 0)
     else let d = 10 ^ nat (- x); k = bit_length d + 1080; q = m * 2 ^ k div d
          in (2 * q + (if m * 2 ^ k mod d = 0 then 0 else 1), - int k - 1))"

definition too_large :: "nat \<Rightarrow> int \<Rightarrow> bool" where
  "too_large q e \<longleftrightarrow> (if 0 \<le> e then q * 2 ^ nat e \<ge> 2 ^ 1024 else q \<ge> 2 ^ 1024 * 2 ^ nat (- e))"

definition parse_float64 :: "bytes \<Rightarrow> float64 option" where
  "parse_float64 s =
    (case decimal_of s of (neg, m, x) \<Rightarrow>
     (case binary_of m x of (n, e) \<Rightarrow>
     (case round_float n e of (q, e') \<Rightarrow>
       if too_large q e' then None else Some (Finite (if neg then - int q else int q) e'))))"

text \<open>
  \<^verbatim>\<open>time.Duration(s * float64(time.Second))\<close>: the product is rounded, the conversion cuts towards zero, and
  what no \<^verbatim>\<open>int64\<close> holds becomes the least one, as on amd64.
\<close>

definition seconds_to_duration :: "float64 \<Rightarrow> int" where
  "seconds_to_duration s = (case s of
     Finite m e \<Rightarrow>
       let (q, x) = round_float (nat \<bar>m\<bar> * 1000000000) e;
           v = (if 0 \<le> x then int q * 2 ^ nat x else int q div 2 ^ nat (- x))
       in if 2 ^ 63 \<le> v then - (2 ^ 63) else if m < 0 then - v else v
   | _ \<Rightarrow> - (2 ^ 63))"

subsection \<open>Nested structs\<close>

text \<open>A struct, in place: only an object changes it.\<close>

definition set_members :: "bytes list \<Rightarrow> (bytes \<Rightarrow> json \<Rightarrow> 'r \<Rightarrow> 'r) \<Rightarrow> json \<Rightarrow> 'r \<Rightarrow> 'r" where
  "set_members names put v old = (case v of
     JObj ms \<Rightarrow> fold (\<lambda>(k, w) r. case field_name names k of None \<Rightarrow> r | Some n \<Rightarrow> put n w r) ms old
   | _ \<Rightarrow> old)"

subsection \<open>The envelope\<close>

record sandbox_call =
  sc_call_id :: bytes
  sc_verb :: bytes
  sc_args :: "json option"

record wire_error =
  we_code :: bytes
  we_message :: bytes
  we_retryable :: bool
  we_detail :: "json option"

record envelope =
  ev_protocol :: bytes
  ev_request_id :: bytes
  ev_op :: bytes
  ev_payload :: "json option"
  ev_call :: "sandbox_call option"
  ev_ok :: "bool option"
  ev_error :: "wire_error option"

text \<open>The members whose Go type is a raw message take any value and are left out of the shapes.\<close>

definition call_shape :: shape where
  "call_shape = SStruct [(''call_id'', SStr), (''verb'', SStr)]"

definition error_shape :: shape where
  "error_shape = SStruct [(''code'', SStr), (''message'', SStr), (''retryable'', SBool)]"

definition envelope_shape :: shape where
  "envelope_shape = SStruct [(''protocol'', SStr), (''request_id'', SStr), (''op'', SStr),
     (''sandbox_call'', call_shape), (''ok'', SBool), (''error'', error_shape)]"

definition call_names :: "bytes list" where "call_names = [''call_id'', ''verb'', ''args'']"
definition error_names :: "bytes list" where "error_names = [''code'', ''message'', ''retryable'', ''detail'']"
definition envelope_names :: "bytes list" where
  "envelope_names = [''protocol'', ''request_id'', ''op'', ''payload'', ''sandbox_call'', ''ok'', ''error'']"

definition set_bool :: "json \<Rightarrow> bool \<Rightarrow> bool" where
  "set_bool v old = (case v of JBool b \<Rightarrow> b | _ \<Rightarrow> old)"

definition put_call :: "bytes \<times> json \<Rightarrow> sandbox_call \<Rightarrow> sandbox_call" where
  "put_call = (\<lambda>(k, v) c. let f = field_name call_names k in
     if f = Some ''call_id'' then c\<lparr> sc_call_id := set_str v (sc_call_id c) \<rparr>
     else if f = Some ''verb'' then c\<lparr> sc_verb := set_str v (sc_verb c) \<rparr>
     else if f = Some ''args'' then c\<lparr> sc_args := Some v \<rparr>
     else c)"

definition put_error :: "bytes \<times> json \<Rightarrow> wire_error \<Rightarrow> wire_error" where
  "put_error = (\<lambda>(k, v) e. let f = field_name error_names k in
     if f = Some ''code'' then e\<lparr> we_code := set_str v (we_code e) \<rparr>
     else if f = Some ''message'' then e\<lparr> we_message := set_str v (we_message e) \<rparr>
     else if f = Some ''retryable'' then e\<lparr> we_retryable := set_bool v (we_retryable e) \<rparr>
     else if f = Some ''detail'' then e\<lparr> we_detail := Some v \<rparr>
     else e)"

text \<open>A pointer to a struct: null makes it nil, an object fills what it points at.\<close>

definition set_struct :: "(bytes \<times> json \<Rightarrow> 'r \<Rightarrow> 'r) \<Rightarrow> 'r \<Rightarrow> json \<Rightarrow> 'r option \<Rightarrow> 'r option" where
  "set_struct put zero v old = (case v of JNull \<Rightarrow> None
     | JObj ms \<Rightarrow> Some (fold put ms (case old of None \<Rightarrow> zero | Some s \<Rightarrow> s))
     | _ \<Rightarrow> old)"

definition put_envelope :: "bytes \<times> json \<Rightarrow> envelope \<Rightarrow> envelope" where
  "put_envelope = (\<lambda>(k, v) e. let f = field_name envelope_names k in
     if f = Some ''protocol'' then e\<lparr> ev_protocol := set_str v (ev_protocol e) \<rparr>
     else if f = Some ''request_id'' then e\<lparr> ev_request_id := set_str v (ev_request_id e) \<rparr>
     else if f = Some ''op'' then e\<lparr> ev_op := set_str v (ev_op e) \<rparr>
     else if f = Some ''payload'' then e\<lparr> ev_payload := Some v \<rparr>
     else if f = Some ''sandbox_call'' then e\<lparr> ev_call := set_struct put_call
       \<lparr> sc_call_id = [], sc_verb = [], sc_args = None \<rparr> v (ev_call e) \<rparr>
     else if f = Some ''ok'' then e\<lparr> ev_ok := (case v of JNull \<Rightarrow> None | JBool b \<Rightarrow> Some b | _ \<Rightarrow> ev_ok e) \<rparr>
     else if f = Some ''error'' then e\<lparr> ev_error := set_struct put_error
       \<lparr> we_code = [], we_message = [], we_retryable = False, we_detail = None \<rparr> v (ev_error e) \<rparr>
     else e)"

definition zero_envelope :: envelope where
  "zero_envelope = \<lparr> ev_protocol = [], ev_request_id = [], ev_op = [], ev_payload = None, ev_call = None, ev_ok = None, ev_error = None \<rparr>"

text \<open>\<^verbatim>\<open>json.Unmarshal\<close> into a struct: a null changes nothing, an object must fit.\<close>

definition unmarshal_struct :: "shape \<Rightarrow> (bytes \<times> json \<Rightarrow> 'r \<Rightarrow> 'r) \<Rightarrow> 'r \<Rightarrow> json \<Rightarrow> 'r option" where
  "unmarshal_struct sh put zero v =
    (if \<not> conforms v sh then None else case v of JObj ms \<Rightarrow> Some (fold put ms zero) | _ \<Rightarrow> Some zero)"

definition unmarshal_envelope :: "bytes \<Rightarrow> envelope option" where
  "unmarshal_envelope line = (case unmarshal_tree line of None \<Rightarrow> None
     | Some v \<Rightarrow> unmarshal_struct envelope_shape put_envelope zero_envelope v)"

subsection \<open>Arguments of the verbs\<close>

record exec_args =
  xa_argv :: "bytes list"
  xa_env :: "(bytes \<times> bytes) list"
  xa_stdin_b64 :: bytes
  xa_timeout :: float64

definition exec_shape :: shape where
  "exec_shape = SStruct [(''argv'', SSlice SStr), (''env'', SMap SStr), (''stdin_b64'', SStr)]"

definition exec_names :: "bytes list" where
  "exec_names = [''argv'', ''env'', ''stdin_b64'', ''timeout_seconds'']"

text \<open>An array decodes into the slice that is there, element by element; null leaves an element alone.\<close>

definition set_strs :: "json \<Rightarrow> bytes list \<Rightarrow> bytes list" where
  "set_strs v old = (case v of JNull \<Rightarrow> []
     | JArr vs \<Rightarrow> map (\<lambda>(i, w). set_str w (if i < length old then old ! i else [])) (enumerate 0 vs)
     | _ \<Rightarrow> old)"

text \<open>An object adds to the map that is there; a null value is the empty string.\<close>

definition set_map :: "json \<Rightarrow> (bytes \<times> bytes) list \<Rightarrow> (bytes \<times> bytes) list" where
  "set_map v old = (case v of JNull \<Rightarrow> []
     | JObj ms \<Rightarrow> fold (\<lambda>(k, w) m. AList.update k (set_str w []) m) ms old
     | _ \<Rightarrow> old)"

definition set_float :: "json \<Rightarrow> float64 \<Rightarrow> float64" where
  "set_float v old = (case v of JNum n \<Rightarrow> (case parse_float64 n of Some f \<Rightarrow> f | None \<Rightarrow> old) | _ \<Rightarrow> old)"

definition float_fits :: "json \<Rightarrow> bool" where
  "float_fits v = (case v of JNull \<Rightarrow> True | JNum n \<Rightarrow> parse_float64 n \<noteq> None | _ \<Rightarrow> False)"

definition put_exec :: "bytes \<times> json \<Rightarrow> exec_args \<Rightarrow> exec_args" where
  "put_exec = (\<lambda>(k, v) a. let f = field_name exec_names k in
     if f = Some ''argv'' then a\<lparr> xa_argv := set_strs v (xa_argv a) \<rparr>
     else if f = Some ''env'' then a\<lparr> xa_env := set_map v (xa_env a) \<rparr>
     else if f = Some ''stdin_b64'' then a\<lparr> xa_stdin_b64 := set_str v (xa_stdin_b64 a) \<rparr>
     else if f = Some ''timeout_seconds'' then a\<lparr> xa_timeout := set_float v (xa_timeout a) \<rparr>
     else a)"

definition zero_exec :: exec_args where
  "zero_exec = \<lparr> xa_argv = [], xa_env = [], xa_stdin_b64 = [], xa_timeout = Finite 0 0 \<rparr>"

definition timeouts_fit :: "json \<Rightarrow> bool" where
  "timeouts_fit v = (case v of JObj ms \<Rightarrow> list_all (\<lambda>(k, w). field_name exec_names k = Some ''timeout_seconds'' \<longrightarrow> float_fits w) ms
     | _ \<Rightarrow> True)"

text \<open>Absent arguments are no JSON at all.\<close>

definition unmarshal_exec :: "json option \<Rightarrow> exec_args option" where
  "unmarshal_exec a = (case a of None \<Rightarrow> None
     | Some v \<Rightarrow> if timeouts_fit v then unmarshal_struct exec_shape put_exec zero_exec v else None)"

record put_file_args =
  pa_source :: bytes
  pa_dest :: bytes
  pa_mode :: bytes

definition put_file_shape :: shape where
  "put_file_shape = SStruct [(''source_path'', SStr), (''dest_path'', SStr), (''mode'', SStr)]"

definition put_put_file :: "bytes \<times> json \<Rightarrow> put_file_args \<Rightarrow> put_file_args" where
  "put_put_file = (\<lambda>(k, v) a. let f = field_name [''source_path'', ''dest_path'', ''mode''] k in
     if f = Some ''source_path'' then a\<lparr> pa_source := set_str v (pa_source a) \<rparr>
     else if f = Some ''dest_path'' then a\<lparr> pa_dest := set_str v (pa_dest a) \<rparr>
     else if f = Some ''mode'' then a\<lparr> pa_mode := set_str v (pa_mode a) \<rparr>
     else a)"

definition unmarshal_put_file :: "json option \<Rightarrow> put_file_args option" where
  "unmarshal_put_file a = (case a of None \<Rightarrow> None
     | Some v \<Rightarrow> unmarshal_struct put_file_shape put_put_file \<lparr> pa_source = [], pa_dest = [], pa_mode = [] \<rparr> v)"

end
