(* ===== verification/GoPath.thy ===== *)
theory GoPath
  imports GoText
begin

text \<open>
  \<^verbatim>\<open>filepath.Clean\<close> on a Unix path, as the source of a \<^verbatim>\<open>put_file\<close> call is judged by it. The library
  walks the path with a cursor and an output buffer; here its components are pushed on a stack: an
  empty component and a dot change nothing, two dots drop the last component if there is one to drop,
  vanish at the root, and stay in front of a relative path. \<open>clean_normal\<close> is what the guard of the
  adapter protocol rests on: a cleaned path has two dots only at the front of a relative path.
\<close>

definition dot :: bytes where "dot = ''.''"
definition dotdot :: bytes where "dotdot = ''..''"

abbreviation c_slash :: char where "c_slash \<equiv> CHR ''/''"

text \<open>The stack holds the last component first.\<close>

definition clean_step :: "bool \<Rightarrow> bytes \<Rightarrow> bytes list \<Rightarrow> bytes list" where
  "clean_step rooted c st =
    (if c = [] \<or> c = dot then st
     else if c = dotdot then
       (case st of
          [] \<Rightarrow> if rooted then [] else [dotdot]
        | p # t \<Rightarrow> if p = dotdot then dotdot # st else t)
     else c # st)"

definition rooted_path :: "bytes \<Rightarrow> bool" where
  "rooted_path p \<longleftrightarrow> p \<noteq> [] \<and> hd p = c_slash"

definition clean_components :: "bytes \<Rightarrow> bytes list" where
  "clean_components p = rev (fold (clean_step (rooted_path p)) (split_char c_slash p) [])"

fun join_path :: "bytes list \<Rightarrow> bytes" where
  "join_path [] = []"
| "join_path [c] = c"
| "join_path (c # cs) = c @ c_slash # join_path cs"

definition clean_path :: "bytes \<Rightarrow> bytes" where
  "clean_path p =
    (if rooted_path p then c_slash # join_path (clean_components p)
     else if clean_components p = [] then dot else join_path (clean_components p))"

subsection \<open>What a cleaned path looks like\<close>

definition plain_component :: "bytes \<Rightarrow> bool" where
  "plain_component c \<longleftrightarrow> c \<noteq> [] \<and> c \<noteq> dot \<and> c \<noteq> dotdot \<and> c_slash \<notin> set c"

text \<open>Two dots, as many as needed, then plain components; no two dots after the root.\<close>

definition normal_components :: "bool \<Rightarrow> bytes list \<Rightarrow> bool" where
  "normal_components rooted cs \<longleftrightarrow>
    (\<exists>n ps. cs = replicate n dotdot @ ps \<and> list_all plain_component ps \<and> (rooted \<longrightarrow> n = 0))"

lemma split_char_no_sep: "c \<in> set (split_char sep s) \<Longrightarrow> sep \<notin> set c"
  by (induction sep s arbitrary: c rule: split_char.induct) (auto split: list.splits if_splits)

lemma clean_step_normal:
  assumes "normal_components rooted (rev st)" "c_slash \<notin> set c"
  shows "normal_components rooted (rev (clean_step rooted c st))"
proof -
  obtain n ps where st: "rev st = replicate n dotdot @ ps" "list_all plain_component ps" "rooted \<longrightarrow> n = 0"
    using assms(1) by (auto simp: normal_components_def)
  consider "c = [] \<or> c = dot" | "c = dotdot" | "plain_component c" using assms(2) by (auto simp: plain_component_def)
  then show ?thesis
  proof cases
    case 1
    with assms(1) show ?thesis by (simp add: clean_step_def)
  next
    case 2
    have d: "dotdot \<noteq> [] \<and> dotdot \<noteq> dot" by (simp add: dotdot_def dot_def)
    show ?thesis
    proof (cases ps rule: rev_cases)
      case Nil
      then have "st = replicate n dotdot" using st(1) by (metis append.right_neutral rev_replicate rev_rev_ident)
      moreover have "clean_step rooted dotdot (replicate n dotdot) = replicate (if rooted then 0 else Suc n) dotdot"
        using d st(3) by (cases n) (auto simp: clean_step_def)
      ultimately show ?thesis using 2 unfolding normal_components_def
        by (intro exI [of _ "if rooted then 0 else Suc n"] exI [of _ "[]"]) simp
    next
      case (snoc qs q)
      then have "st = q # rev (replicate n dotdot @ qs)" using st(1) by (metis append.assoc rev.simps(2) rev_append rev_rev_ident rev_singleton_conv rev_swap)
      moreover have "q \<noteq> dotdot" using st(2) snoc by (simp add: plain_component_def)
      ultimately have "rev (clean_step rooted c st) = replicate n dotdot @ qs" using 2 d by (simp add: clean_step_def)
      with st(2,3) snoc show ?thesis by (auto simp: normal_components_def)
    qed
  next
    case 3
    then have "rev (clean_step rooted c st) = replicate n dotdot @ (ps @ [c])"
      using st(1) by (simp add: clean_step_def plain_component_def)
    with 3 st(2,3) show ?thesis unfolding normal_components_def by (intro exI [of _ n] exI [of _ "ps @ [c]"]) simp
  qed
qed

lemma clean_normal: "normal_components (rooted_path p) (clean_components p)"
proof -
  have "normal_components r (rev (fold (clean_step r) cs st))"
    if "normal_components r (rev st)" "\<forall>c \<in> set cs. c_slash \<notin> set c" for r cs st
    using that by (induction cs arbitrary: st) (auto intro: clean_step_normal)
  moreover have "normal_components r (rev [])" for r by (simp add: normal_components_def)
  ultimately show ?thesis unfolding clean_components_def using split_char_no_sep by metis
qed

lemma clean_path_nonempty: "clean_path p \<noteq> []"
proof (cases "rooted_path p \<or> clean_components p = []")
  case True
  then show ?thesis by (auto simp: clean_path_def dot_def)
next
  case False
  then obtain c cs where c: "clean_components p = c # cs" by (cases "clean_components p") auto
  obtain n ps where n: "clean_components p = replicate n dotdot @ ps" "list_all plain_component ps"
    using clean_normal [of p] by (auto simp: normal_components_def)
  have "c \<noteq> []" using c n by (cases n) (auto simp: dotdot_def plain_component_def)
  with False c show ?thesis by (cases cs) (auto simp: clean_path_def)
qed

subsection \<open>Below a root\<close>

lemma split_char_join: "split_char sep (a @ sep # b) = split_char sep a @ split_char sep b"
  by (induction a) (auto split: list.splits)

lemma split_char_single: "sep \<notin> set a \<Longrightarrow> split_char sep a = [a]"
  by (induction a) auto

lemma split_join_path: "cs \<noteq> [] \<Longrightarrow> \<forall>c \<in> set cs. c_slash \<notin> set c \<Longrightarrow> split_char c_slash (join_path cs) = cs"
  by (induction cs rule: join_path.induct) (simp_all add: split_char_single split_char_join)

lemma rooted_components_plain: "rooted_path p \<Longrightarrow> list_all plain_component (clean_components p)"
  using clean_normal [of p] by (auto simp: normal_components_def)

lemma clean_path_rooted: "rooted_path (clean_path p) = rooted_path p"
proof (cases "rooted_path p")
  case False
  show ?thesis
  proof (cases "clean_components p")
    case (Cons c ds)
    obtain n ps where cs: "c # ds = replicate n dotdot @ ps" "list_all plain_component ps"
      using clean_normal [of p] Cons by (auto simp: normal_components_def)
    then have "c \<noteq> [] \<and> c_slash \<notin> set c"
      by (cases n) (auto simp: dotdot_def plain_component_def)
    then obtain x t where "c = x # t" "x \<noteq> c_slash" by (cases c) auto
    then have "\<exists>u. join_path (c # ds) = x # u" by (cases ds) auto
    with False Cons \<open>x \<noteq> c_slash\<close> show ?thesis by (auto simp: clean_path_def rooted_path_def)
  qed (simp add: False clean_path_def, simp add: rooted_path_def dot_def)
qed (simp add: clean_path_def rooted_path_def)

text \<open>Below an absolute root, a cleaned path goes down only.\<close>

lemma below_root_plain:
  assumes "rooted_path root" "clean_path p = clean_path root @ c_slash # rest"
  shows "list_all plain_component (split_char c_slash rest)"
proof -
  have r: "rooted_path p" using assms by (metis append_is_Nil_conv clean_path_rooted hd_append2 rooted_path_def)
  let ?cs = "clean_components root" and ?ds = "clean_components p"
  have plain: "list_all plain_component ?cs" "list_all plain_component ?ds" using rooted_components_plain assms(1) r by auto
  have e: "join_path ?ds = join_path ?cs @ c_slash # rest" using assms r by (simp add: clean_path_def)
  have ds: "?ds \<noteq> []" using e by (cases ?ds) auto
  have sl: "\<forall>c \<in> set ?cs. c_slash \<notin> set c" "\<forall>c \<in> set ?ds. c_slash \<notin> set c" using plain by (auto simp: list_all_iff plain_component_def)
  have "?ds = split_char c_slash (join_path ?cs) @ split_char c_slash rest"
    using split_join_path [OF ds sl(2)] by (simp add: e split_char_join)
  with plain(2) show ?thesis by simp
qed

subsection \<open>The guard of put_file\<close>

text \<open>What the operating system answers about a path inside a directory opened as an \<^verbatim>\<open>os.Root\<close>.\<close>

datatype root_answer = RootStat | RootMissing | RootRefused

definition source_guard :: "(bytes \<Rightarrow> bytes \<Rightarrow> root_answer) \<Rightarrow> bytes \<Rightarrow> bytes \<Rightarrow> bytes + bytes" where
  "source_guard stat source requested =
    (let root = clean_path source; clean = clean_path requested;
         outside = Inl (''put_file source '' @ clean @ '' is outside the drill's backup source '' @ root)
     in if clean = root then Inr clean
        else if \<not> prefix (root @ [c_slash]) clean then outside
        else (case stat root (drop (length root + 1) clean) of
            RootStat \<Rightarrow> Inr clean
          | RootMissing \<Rightarrow> Inl (''put_file source '' @ clean @ '' does not exist under the drill's backup source '' @ root)
          | RootRefused \<Rightarrow> outside))"

text \<open>What a path the guard lets through is.\<close>

definition confined :: "(bytes \<Rightarrow> bytes \<Rightarrow> root_answer) \<Rightarrow> bytes \<Rightarrow> bytes \<Rightarrow> bool" where
  "confined stat source path \<longleftrightarrow> path = clean_path source \<or>
    (\<exists>rest. path = clean_path source @ c_slash # rest \<and> stat (clean_path source) rest = RootStat \<and>
      (rooted_path source \<longrightarrow> list_all plain_component (split_char c_slash rest)))"

lemma guard_confines:
  assumes "source_guard stat source requested = Inr path"
  shows "confined stat source path"
proof (cases "path = clean_path source")
  case False
  with assms obtain rest where "path = clean_path requested" "clean_path requested = clean_path source @ c_slash # rest"
    "stat (clean_path source) rest = RootStat"
    by (auto simp: source_guard_def Let_def prefix_def split: if_splits root_answer.splits) (metis append.assoc append_Cons append_Nil)
  with below_root_plain [of source requested rest] show ?thesis unfolding confined_def by blast
qed (simp add: confined_def)

end
