(* ===== verification/AdapterSession.thy ===== *)
theory AdapterSession
  imports AdapterWire GoPath Checks
begin

text \<open>
  One operation with an adapter (internal/adapter/session.go, verbs.go): a fresh process, one request,
  sandbox calls mediated while they come, one final response, the process reaped. The process,
  its pipes, the deadlines and the sandbox are parameters that thread a world; what the core does
  to them is kept as a history of events. An adapter can go on calling for ever, so the read
  loop has fuel: \<open>None\<close> is a conversation that is still going on.
\<close>

subsection \<open>Collaborators\<close>

record exec_call =
  ex_argv :: "bytes list"
  ex_env :: "(bytes \<times> bytes) list"
  ex_stdin :: bytes
  ex_timeout :: int

text \<open>A duration is kept in nanoseconds; its form in JSON is not modelled.\<close>

record timed_result =
  tr_result :: exec_result
  tr_duration :: int

datatype verb_value = ExecValue int bytes bytes bool int | PutFileValue int int

record sandbox_result =
  vr_call_id :: bytes
  vr_ok :: bool
  vr_value :: "verb_value option"
  vr_error :: "wire_error option"

text \<open>A line to the adapter, before \<^verbatim>\<open>json.Marshal\<close>: protocol, request id, and operation with payload or result.\<close>

datatype wire_frame = RequestFrame bytes bytes bytes json | ResultFrame bytes bytes sandbox_result

datatype write_answer = Written | PipeClosed | WriteFault bytes

datatype scan_answer = Scanned bytes | LineTooLong | ScanFault bytes | NoMoreLines

record wait_fault =
  wf_text :: bytes
  wf_cancelled :: bool

record 'w adapter_host =
  ho_start :: "bytes list \<Rightarrow> 'w \<Rightarrow> (bytes + unit) \<times> 'w"
  ho_write :: "wire_frame \<Rightarrow> 'w \<Rightarrow> write_answer \<times> 'w"
  ho_scan :: "'w \<Rightarrow> scan_answer \<times> 'w"
  ho_close_stdin :: "'w \<Rightarrow> 'w"
  ho_close_stdout :: "'w \<Rightarrow> 'w"
  ho_close_stderr :: "'w \<Rightarrow> 'w"
  ho_kill :: "'w \<Rightarrow> 'w"
  ho_drained :: "'w \<Rightarrow> bool \<times> 'w"
  ho_exits :: "'w \<Rightarrow> bool \<times> 'w"
  ho_reap :: "'w \<Rightarrow> wait_fault option \<times> 'w"
  ho_root :: "'w \<Rightarrow> bytes \<Rightarrow> bytes \<Rightarrow> root_answer"
  ho_exec :: "exec_call \<Rightarrow> 'w \<Rightarrow> (bytes + timed_result) \<times> 'w"
  ho_put :: "bytes \<Rightarrow> bytes \<Rightarrow> bytes \<Rightarrow> 'w \<Rightarrow> (bytes + int \<times> int) \<times> 'w"
  ho_json_error :: "bytes \<Rightarrow> bytes"
  ho_printable :: "nat \<Rightarrow> bool"

datatype session_event =
    EvStart "bytes list" | EvWrite wire_frame | EvExec exec_call | EvPut bytes bytes bytes
  | EvCloseStdin | EvKill | EvReap | EvWarn bytes

record 'w session_io =
  si_world :: 'w
  si_events :: "session_event list"

definition doing :: "session_event \<Rightarrow> ('w \<Rightarrow> 'a \<times> 'w) \<Rightarrow> 'w session_io \<Rightarrow> 'a \<times> 'w session_io" where
  "doing e f io = (case f (si_world io) of (a, w) \<Rightarrow> (a, io\<lparr> si_world := w, si_events := si_events io @ [e] \<rparr>))"

definition asking :: "('w \<Rightarrow> 'a \<times> 'w) \<Rightarrow> 'w session_io \<Rightarrow> 'a \<times> 'w session_io" where
  "asking f io = (case f (si_world io) of (a, w) \<Rightarrow> (a, io\<lparr> si_world := w \<rparr>))"

definition affecting :: "session_event \<Rightarrow> ('w \<Rightarrow> 'w) \<Rightarrow> 'w session_io \<Rightarrow> 'w session_io" where
  "affecting e f io = io\<lparr> si_world := f (si_world io), si_events := si_events io @ [e] \<rparr>"

text \<open>What one operation's session holds: the guard is the configured backup source, where there is one.\<close>

record 'w session =
  se_host :: "'w adapter_host"
  se_op :: bytes
  se_request_id :: bytes
  se_protocol :: bytes
  se_verbs :: bool
  se_guard :: "bytes option"
  se_secrets :: "bytes list"

subsection \<open>Sandbox calls\<close>

definition verb_error :: "bytes \<Rightarrow> bytes \<Rightarrow> bool \<Rightarrow> bytes \<Rightarrow> sandbox_result" where
  "verb_error cid k retryable msg =
    \<lparr> vr_call_id = cid, vr_ok = False, vr_value = None,
      vr_error = Some \<lparr> we_code = k, we_message = msg, we_retryable = retryable, we_detail = None \<rparr> \<rparr>"

text \<open>The variables whose value is a secret, each named once, in order.\<close>

definition audit_names :: "bytes list \<Rightarrow> (bytes \<times> bytes) list \<Rightarrow> bytes list" where
  "audit_names secrets env = (if secrets = [] then []
     else isort less_bytes (map fst (filter (\<lambda>(k, v). v \<in> set secrets) env)))"

definition audit_check :: "bytes list \<Rightarrow> (bytes \<times> bytes) list \<Rightarrow> 'w session_io \<Rightarrow> 'w session_io" where
  "audit_check secrets env io = io\<lparr> si_events := si_events io @ map EvWarn (audit_names secrets env) \<rparr>"

definition dispatch_exec :: "'w session \<Rightarrow> sandbox_call \<Rightarrow> 'w session_io \<Rightarrow> sandbox_result \<times> 'w session_io" where
  "dispatch_exec s c io =
    (case unmarshal_exec (sc_args c) of
       None \<Rightarrow> (verb_error (sc_call_id c) ''invalid_request'' False ''malformed exec args'', io)
     | Some a \<Rightarrow>
       if xa_argv a = [] then (verb_error (sc_call_id c) ''invalid_request'' False ''malformed exec args'', io)
       else let io = audit_check (se_secrets s) (xa_env a) io in
       (case b64_decode (xa_stdin_b64 a) of
          None \<Rightarrow> (verb_error (sc_call_id c) ''invalid_request'' False ''exec stdin_b64 is not valid base64'', io)
        | Some stdin \<Rightarrow>
          let x = \<lparr> ex_argv = xa_argv a, ex_env = xa_env a, ex_stdin = stdin, ex_timeout = seconds_to_duration (xa_timeout a) \<rparr>;
              (res, io) = doing (EvExec x) (ho_exec (se_host s) x) io
          in (case res of
                Inl e \<Rightarrow> (verb_error (sc_call_id c) ''sandbox_error'' True (''exec: '' @ e), io)
              | Inr t \<Rightarrow> let r = tr_result t in
                (\<lparr> vr_call_id = sc_call_id c, vr_ok = True, vr_value = Some (ExecValue (xr_exit r) (b64_encode (xr_stdout r))
                     (b64_encode (xr_stderr r)) (xr_truncated r) (tr_duration t)), vr_error = None \<rparr>, io))))"

definition dispatch_put_file :: "'w session \<Rightarrow> sandbox_call \<Rightarrow> 'w session_io \<Rightarrow> sandbox_result \<times> 'w session_io" where
  "dispatch_put_file s c io =
    (case unmarshal_put_file (sc_args c) of
       None \<Rightarrow> (verb_error (sc_call_id c) ''invalid_request'' False ''malformed put_file args'', io)
     | Some a \<Rightarrow>
       if pa_source a = [] \<or> pa_dest a = [] then (verb_error (sc_call_id c) ''invalid_request'' False ''malformed put_file args'', io)
       else (case se_guard s of
          None \<Rightarrow> (verb_error (sc_call_id c) ''invalid_request'' False ''put_file is not permitted in this operation'', io)
        | Some source \<Rightarrow>
          (case source_guard (ho_root (se_host s) (si_world io)) source (pa_source a) of
             Inl e \<Rightarrow> (verb_error (sc_call_id c) ''invalid_request'' False e, io)
           | Inr path \<Rightarrow>
             let (res, io) = doing (EvPut path (pa_dest a) (pa_mode a)) (ho_put (se_host s) path (pa_dest a) (pa_mode a)) io
             in (case res of
                   Inl e \<Rightarrow> (verb_error (sc_call_id c) ''sandbox_error'' True (''put_file: '' @ e), io)
                 | Inr (copied, duration) \<Rightarrow>
                   (\<lparr> vr_call_id = sc_call_id c, vr_ok = True, vr_value = Some (PutFileValue copied duration), vr_error = None \<rparr>, io)))))"

definition dispatch_verb :: "'w session \<Rightarrow> sandbox_call \<Rightarrow> 'w session_io \<Rightarrow> sandbox_result \<times> 'w session_io" where
  "dispatch_verb s c io =
    (if sc_verb c = ''exec'' then dispatch_exec s c io
     else if sc_verb c = ''put_file'' then dispatch_put_file s c io
     else (verb_error (sc_call_id c) ''invalid_request'' False (''unknown sandbox verb: '' @ sc_verb c), io))"

subsection \<open>The conversation\<close>

definition max_line_bytes :: int where "max_line_bytes = 4 * 2 ^ 20"

definition read_message :: "'w session \<Rightarrow> 'w session_io \<Rightarrow> (adapter_error + envelope) \<times> 'w session_io" where
  "read_message s io =
    (let (a, io) = asking (ho_scan (se_host s)) io; op = se_op s; q = go_quote (ho_printable (se_host s)) in
     case a of
       LineTooLong \<Rightarrow> (Inl (crash (op @ '': message exceeds the '' @ show_int max_line_bytes @ '' byte frame limit'')), io)
     | ScanFault e \<Rightarrow> (Inl (crash (op @ '': read adapter stdout: '' @ e)), io)
     | NoMoreLines \<Rightarrow> (Inl (crash (op @ '': adapter exited without a final response'')), io)
     | Scanned line \<Rightarrow>
       (case unmarshal_envelope line of
          None \<Rightarrow> (Inl (crash (op @ '': stdout is not a protocol message: '' @ ho_json_error (se_host s) line)), io)
        | Some env \<Rightarrow>
          if ev_protocol env \<noteq> se_protocol s
          then (Inl (crash (op @ '': message protocol '' @ q (ev_protocol env) @ '', want '' @ q (se_protocol s))), io)
          else if ev_request_id env \<noteq> se_request_id s
          then (Inl (crash (op @ '': message request_id '' @ q (ev_request_id env) @ '' does not echo '' @ q (se_request_id s))), io)
          else (Inr env, io)))"

fun read_loop :: "nat \<Rightarrow> 'w session \<Rightarrow> 'w session_io \<Rightarrow> (adapter_error + envelope) option \<times> 'w session_io" where
  "read_loop 0 s io = (None, io)"
| "read_loop (Suc n) s io =
    (case read_message s io of
       (Inl e, io) \<Rightarrow> (Some (Inl e), io)
     | (Inr env, io) \<Rightarrow>
       (case ev_call env of
          Some c \<Rightarrow>
            if \<not> se_verbs s then (Some (Inl (crash (se_op s @ '': sandbox_call is a protocol violation in this operation''))), io)
            else (case dispatch_verb s c io of (res, io) \<Rightarrow>
              let f = ResultFrame (se_protocol s) (se_request_id s) res in
              (case doing (EvWrite f) (ho_write (se_host s) f) io of
                 (WriteFault e, io) \<Rightarrow> (Some (Inl (crash (se_op s @ '': write sandbox_result: '' @ e))), io)
               | (_, io) \<Rightarrow> read_loop n s io))
        | None \<Rightarrow>
            if ev_ok env \<noteq> None then (Some (Inr env), io)
            else (Some (Inl (crash (se_op s @ '': message is neither sandbox_call nor final response''))), io)))"

subsection \<open>The process\<close>

definition wait_process :: "'w adapter_host \<Rightarrow> 'w session_io \<Rightarrow> wait_fault option \<times> 'w session_io" where
  "wait_process h io =
    (let (drained, io) = asking (ho_drained h) io;
         io = (if drained then io else affecting EvKill (\<lambda>w. ho_close_stderr h (ho_kill h w)) io);
         (exits, io) = asking (ho_exits h) io;
         io = (if exits then io else affecting EvKill (ho_kill h) io);
         (fault, io) = doing EvReap (ho_reap h) io
     in if fault = None \<and> \<not> (drained \<and> exits)
        then (Some \<lparr> wf_text = ''adapter lingered past the grace period and was killed'', wf_cancelled = False \<rparr>, io)
        else (fault, io))"

text \<open>An early return: both pipes are closed, the process is killed and reaped, its last words are noise.\<close>

definition finish_process :: "'w adapter_host \<Rightarrow> 'w session_io \<Rightarrow> 'w session_io" where
  "finish_process h io =
    (let io = affecting EvCloseStdin (ho_close_stdin h) io;
         io = io\<lparr> si_world := ho_close_stdout h (si_world io) \<rparr>;
         io = affecting EvKill (ho_kill h) io
     in snd (wait_process h io))"

definition adapter_error_of :: "wire_error \<Rightarrow> adapter_error" where
  "adapter_error_of e = \<lparr> ae_code = we_code e, ae_message = we_message e \<rparr>"

definition final_answer :: "bytes \<Rightarrow> envelope \<Rightarrow> go_error + json option" where
  "final_answer op env =
    (if ev_ok env = Some True then Inr (ev_payload env)
     else Inl (protocol_error (case ev_error env of None \<Rightarrow> crash (op @ '': ok=false without error object'') | Some e \<Rightarrow> adapter_error_of e)))"

definition session_verdict :: "bytes \<Rightarrow> adapter_error + envelope \<Rightarrow> wait_fault option \<Rightarrow> go_error + json option" where
  "session_verdict op final fault =
    (case (final, fault) of
       (Inl e, None) \<Rightarrow> Inl (protocol_error e)
     | (Inl e, Some f) \<Rightarrow> Inl (protocol_error (crash (ae_message e @ '' (process: '' @ wf_text f @ '')'')))
     | (Inr env, None) \<Rightarrow> final_answer op env
     | (Inr env, Some f) \<Rightarrow> if \<not> wf_cancelled f then Inl (protocol_error (crash (op @ '': '' @ wf_text f))) else final_answer op env)"

subsection \<open>The runner\<close>

record runner_options =
  ro_path :: bytes
  ro_credential_env :: "bytes list"
  ro_env :: "(bytes \<times> bytes) list"
  ro_lookup :: "bytes \<Rightarrow> bytes option"

definition baseline_env :: "bytes list" where
  "baseline_env = [''PATH'', ''HOME'', ''LANG'', ''TZ'']"

fun allowed_env :: "(bytes \<Rightarrow> bytes option) \<Rightarrow> bytes list \<Rightarrow> bytes set \<Rightarrow> bytes list" where
  "allowed_env look [] seen = []"
| "allowed_env look (n # ns) seen =
    (if n \<in> seen then allowed_env look ns seen
     else (case look n of None \<Rightarrow> [] | Some v \<Rightarrow> [n @ CHR ''='' # v]) @ allowed_env look ns (insert n seen))"

definition build_env :: "runner_options \<Rightarrow> bytes list" where
  "build_env o' = allowed_env (ro_lookup o') (baseline_env @ ro_credential_env o') {} @
     isort less_bytes (map (\<lambda>(k, v). k @ CHR ''='' # v) (ro_env o'))"

definition secret_values :: "runner_options \<Rightarrow> bytes list" where
  "secret_values o' = concat (map (\<lambda>n. case ro_lookup o' n of None \<Rightarrow> [] | Some v \<Rightarrow> if v = [] then [] else [v]) (ro_credential_env o')) @
     filter (\<lambda>v. v \<noteq> []) (map snd (ro_env o'))"

definition request_id :: "bytes \<Rightarrow> bytes" where
  "request_id random = ''r-'' @ hex_encode random"

definition adapter_do :: "nat \<Rightarrow> 'w adapter_host \<Rightarrow> runner_options \<Rightarrow> bytes \<Rightarrow> bytes \<Rightarrow> bytes \<Rightarrow> json \<Rightarrow> bool \<Rightarrow> bytes option \<Rightarrow>
    'w session_io \<Rightarrow> (go_error + json option) option \<times> 'w session_io" where
  "adapter_do fuel h o' negotiated random op payload verbs guard io =
    (let protocol = (if op = ''probe'' then protocol_floor else spoken_protocol negotiated);
         s = \<lparr> se_host = h, se_op = op, se_request_id = request_id random, se_protocol = protocol, se_verbs = verbs,
               se_guard = guard, se_secrets = secret_values o' \<rparr>;
         (started, io) = asking (ho_start h (build_env o')) io
     in case started of
          Inl e \<Rightarrow> (Some (Inl (plain_error e)), io)
        | Inr u \<Rightarrow>
          let io = io\<lparr> si_events := si_events io @ [EvStart (build_env o')] \<rparr>;
              f = RequestFrame protocol (request_id random) op payload;
              (w, io) = doing (EvWrite f) (ho_write h f) io
          in (case w of
                WriteFault e \<Rightarrow> (Some (Inl (protocol_error (crash (op @ '': write request: '' @ e)))), finish_process h io)
              | _ \<Rightarrow>
                (case read_loop fuel s io of
                   (None, io) \<Rightarrow> (None, io)
                 | (Some final, io) \<Rightarrow>
                   let io = affecting EvCloseStdin (ho_close_stdin h) io;
                       (fault, io) = wait_process h io
                   in (Some (session_verdict op final fault), io))))"

text \<open>The four operations, with what each may ask of the sandbox.\<close>

datatype adapter_op = OpProbe | OpProvision provision_request | OpHealthcheck | OpTeardown bytes

definition op_name :: "adapter_op \<Rightarrow> bytes" where
  "op_name op = (case op of OpProbe \<Rightarrow> ''probe'' | OpProvision q \<Rightarrow> ''provision''
     | OpHealthcheck \<Rightarrow> ''healthcheck'' | OpTeardown why \<Rightarrow> ''teardown'')"

definition op_guard :: "adapter_op \<Rightarrow> bytes option" where
  "op_guard op = (case op of OpProvision q \<Rightarrow> Some (ps_path (pq_source q)) | _ \<Rightarrow> None)"

definition run_op :: "nat \<Rightarrow> 'w adapter_host \<Rightarrow> runner_options \<Rightarrow> bytes \<Rightarrow> bytes \<Rightarrow> adapter_op \<Rightarrow> json \<Rightarrow> bool \<Rightarrow>
    'w session_io \<Rightarrow> (go_error + json option) option \<times> 'w session_io" where
  "run_op fuel h o' negotiated random op payload verbs io =
    adapter_do fuel h o' negotiated random (op_name op) payload (op \<noteq> OpProbe \<and> verbs) (op_guard op) io"

end
