(* ===== verification/SessionProps.thy ===== *)
theory SessionProps
  imports AdapterSession
begin

text \<open>
  What an operation with an adapter may do to the sandbox and to the drill host, that its process is
  always reaped, which answers are believed, that a conversation ends if the adapter's output does,
  and what the adapter's environment holds.
\<close>

subsection \<open>Histories\<close>

definition grows :: "(session_event \<Rightarrow> bool) \<Rightarrow> 'w session_io \<Rightarrow> 'w session_io \<Rightarrow> bool" where
  "grows P io io' \<longleftrightarrow> (\<exists>es. si_events io' = si_events io @ es \<and> list_all P es)"

lemma grows_refl [simp]: "grows P io io"
  by (simp add: grows_def)

lemma grows_trans: "grows P a b \<Longrightarrow> grows P b c \<Longrightarrow> grows P a c"
  by (auto simp: grows_def)

lemma grows_doing: "doing e f io = (a, io') \<Longrightarrow> P e \<Longrightarrow> grows P io io'"
  by (auto simp: doing_def grows_def split: prod.splits)

lemma grows_asking: "asking f io = (a, io') \<Longrightarrow> grows P io io'"
  by (auto simp: asking_def grows_def split: prod.splits)

lemma grows_affecting: "P e \<Longrightarrow> grows P io (affecting e f io)"
  by (simp add: affecting_def grows_def)

lemma grows_audit: "(\<And>n. P (EvWarn n)) \<Longrightarrow> grows P io (audit_check secrets env io)"
  by (auto simp: audit_check_def grows_def list_all_iff)

text \<open>What an event may be in a session: a copy is confined to the guarded source, a command needs the verbs.\<close>

definition permitted :: "'w session \<Rightarrow> session_event \<Rightarrow> bool" where
  "permitted s e \<longleftrightarrow> (case e of
     EvPut path dest mode \<Rightarrow> se_verbs s \<and> (\<exists>source w. se_guard s = Some source \<and> confined (ho_root (se_host s) w) source path)
   | EvExec x \<Rightarrow> se_verbs s \<and> ex_argv x \<noteq> []
   | EvStart env \<Rightarrow> False | EvReap \<Rightarrow> False | _ \<Rightarrow> True)"

lemma dispatch_exec_permitted:
  assumes "dispatch_exec s c io = (r, io')" "se_verbs s"
  shows "grows (permitted s) io io'"
proof -
  have p: "permitted s (EvWarn n)" "ex_argv x \<noteq> [] \<Longrightarrow> permitted s (EvExec x)" for n x
    using assms(2) by (simp_all add: permitted_def)
  from assms(1) p show ?thesis
    by (auto simp: dispatch_exec_def Let_def split: option.splits if_splits prod.splits sum.splits
        intro: grows_audit grows_trans [OF grows_audit grows_doing])
qed

lemma dispatch_put_permitted:
  assumes "dispatch_put_file s c io = (r, io')" "se_verbs s"
  shows "grows (permitted s) io io'"
proof -
  have "permitted s (EvPut path d m)" if "se_guard s = Some source" "source_guard (ho_root (se_host s) w) source q = Inr path" for path d m source w q
    using assms(2) that(1) guard_confines [OF that(2)] by (auto simp: permitted_def)
  with assms(1) show ?thesis
    by (auto simp: dispatch_put_file_def Let_def split: option.splits if_splits prod.splits sum.splits intro: grows_doing)
qed

lemma dispatch_permitted: "dispatch_verb s c io = (r, io') \<Longrightarrow> se_verbs s \<Longrightarrow> grows (permitted s) io io'"
  by (auto simp: dispatch_verb_def split: if_splits intro: dispatch_exec_permitted dispatch_put_permitted)

lemma read_message_grows: "read_message s io = (a, io') \<Longrightarrow> grows P io io'"
  by (auto simp: read_message_def Let_def split: prod.splits scan_answer.splits option.splits if_splits dest: grows_asking)

lemma loop_permitted: "read_loop n s io = (a, io') \<Longrightarrow> grows (permitted s) io io'"
proof (induction n arbitrary: io)
  case (Suc n)
  obtain m io1 where m: "read_message s io = (m, io1)" by fastforce
  note g1 = read_message_grows [OF m, of "permitted s"]
  have "grows (permitted s) io1 io'" if env: "m = Inr env" and c: "ev_call env = Some c" and v: "se_verbs s" for env c
  proof -
    obtain res io2 where d: "dispatch_verb s c io1 = (res, io2)" by fastforce
    define f where "f = ResultFrame (se_protocol s) (se_request_id s) res"
    obtain w io3 where w: "doing (EvWrite f) (ho_write (se_host s) f) io2 = (w, io3)" by fastforce
    have g3: "grows (permitted s) io1 io3"
      using dispatch_permitted [OF d v] grows_doing [OF w, of "permitted s"] by (auto simp: permitted_def intro: grows_trans)
    have "grows (permitted s) io3 io'"
      using Suc.prems Suc.IH [of io3] v d w m env c by (cases w) (auto simp: f_def)
    with g3 show ?thesis by (rule grows_trans)
  qed
  with Suc.prems m g1 show ?case
    by (auto split: sum.splits option.splits if_splits intro: grows_trans)
qed simp

subsection \<open>A process per operation\<close>

lemma wait_events:
  assumes "wait_process h io = (f, io')"
  shows "\<exists>ks. si_events io' = si_events io @ ks @ [EvReap] \<and> set ks \<subseteq> {EvKill}"
  using assms by (auto simp: wait_process_def asking_def doing_def affecting_def Let_def split: prod.splits if_splits)

lemma finish_events:
  "\<exists>ks. si_events (finish_process h io) = si_events io @ ks @ [EvReap] \<and> set ks \<subseteq> {EvKill, EvCloseStdin}"
proof -
  define io2 where "io2 = affecting EvKill (ho_kill h) ((affecting EvCloseStdin (ho_close_stdin h) io)\<lparr> si_world :=
    ho_close_stdout h (si_world (affecting EvCloseStdin (ho_close_stdin h) io)) \<rparr>)"
  obtain f io3 where w: "wait_process h io2 = (f, io3)" by fastforce
  have "finish_process h io = io3" using w by (simp add: finish_process_def Let_def io2_def)
  moreover have "si_events io2 = si_events io @ [EvCloseStdin, EvKill]" by (simp add: io2_def affecting_def)
  ultimately show ?thesis using wait_events [OF w] by (auto intro: exI [of _ "EvCloseStdin # EvKill # ks" for ks])
qed

definition op_session :: "'w adapter_host \<Rightarrow> runner_options \<Rightarrow> bytes \<Rightarrow> bytes \<Rightarrow> adapter_op \<Rightarrow> bool \<Rightarrow> 'w session" where
  "op_session h o' negotiated random op verbs =
    \<lparr> se_host = h, se_op = op_name op, se_request_id = request_id random,
      se_protocol = (if op_name op = ''probe'' then protocol_floor else spoken_protocol negotiated),
      se_verbs = (op \<noteq> OpProbe \<and> verbs), se_guard = op_guard op, se_secrets = secret_values o' \<rparr>"

lemma run_op_events:
  assumes "run_op fuel h o' negotiated random op payload verbs io = (r, io')"
  shows "\<exists>es. si_events io' = si_events io @ es \<and>
    (case r of None \<Rightarrow> \<exists>mid. es = EvStart (build_env o') # mid \<and> list_all (permitted (op_session h o' negotiated random op verbs)) mid
     | Some a \<Rightarrow> es = [] \<or> (\<exists>mid. es = EvStart (build_env o') # mid @ [EvReap] \<and>
         list_all (permitted (op_session h o' negotiated random op verbs)) mid))"
proof -
  let ?s = "op_session h o' negotiated random op verbs"
  obtain st io1 where st: "asking (ho_start h (build_env o')) io = (st, io1)" by fastforce
  then have e1: "si_events io1 = si_events io" by (auto simp: asking_def split: prod.splits)
  define io2 where "io2 = io1\<lparr> si_events := si_events io1 @ [EvStart (build_env o')] \<rparr>"
  define f where "f = RequestFrame (se_protocol ?s) (request_id random) (op_name op) payload"
  obtain w io3 where w: "doing (EvWrite f) (ho_write h f) io2 = (w, io3)" by fastforce
  have e3: "si_events io3 = si_events io @ EvStart (build_env o') # [EvWrite f]"
    using w e1 by (auto simp: doing_def io2_def split: prod.splits)
  have ok: "permitted ?s (EvWrite f)" "permitted ?s EvKill" "permitted ?s EvCloseStdin" by (simp_all add: permitted_def)
  show ?thesis
  proof (cases st)
    case (Inl e)
    with assms st e1 show ?thesis by (auto simp: run_op_def adapter_do_def Let_def)
  next
    case (Inr u)
    show ?thesis
    proof (cases "\<exists>e. w = WriteFault e")
      case True
      then have "\<exists>a. r = Some a \<and> io' = finish_process h io3"
        using assms st Inr w by (auto simp: run_op_def adapter_do_def Let_def f_def io2_def op_session_def)
      moreover obtain ks where "si_events (finish_process h io3) = si_events io3 @ ks @ [EvReap]" "set ks \<subseteq> {EvKill, EvCloseStdin}"
        using finish_events by blast
      ultimately show ?thesis using e3 ok by (auto simp: list_all_iff intro!: exI [of _ "EvWrite f # ks"])
    next
      case False
      obtain l io4 where l: "read_loop fuel ?s io3 = (l, io4)" by fastforce
      from loop_permitted [OF l] obtain es where es: "si_events io4 = si_events io3 @ es" "list_all (permitted ?s) es"
        by (auto simp: grows_def)
      have step: "(case l of None \<Rightarrow> (None, io4) | Some final \<Rightarrow> (case wait_process h (affecting EvCloseStdin (ho_close_stdin h) io4) of
          (fault, io) \<Rightarrow> (Some (session_verdict (op_name op) final fault), io))) = (r, io')"
        using assms st Inr w False l
        by (cases w; cases l) (auto simp: run_op_def adapter_do_def Let_def f_def io2_def op_session_def)
      show ?thesis
      proof (cases l)
        case None
        with step es e3 ok show ?thesis by auto
      next
        case (Some final)
        obtain fault io5 where wp: "wait_process h (affecting EvCloseStdin (ho_close_stdin h) io4) = (fault, io5)" by fastforce
        obtain ks where ks: "si_events io5 = si_events io4 @ EvCloseStdin # ks @ [EvReap]" "set ks \<subseteq> {EvKill}"
          using wait_events [OF wp] by (auto simp: affecting_def)
        with Some step wp es e3 ok show ?thesis
          by (auto simp: list_all_iff intro!: exI [of _ "EvWrite f # es @ EvCloseStdin # ks"])
      qed
    qed
  qed
qed

text \<open>What an operation may do, said of the operation.\<close>

definition allowed_event :: "'w adapter_host \<Rightarrow> adapter_op \<Rightarrow> bool \<Rightarrow> session_event \<Rightarrow> bool" where
  "allowed_event h op verbs e \<longleftrightarrow> (case e of
     EvPut path dest mode \<Rightarrow> verbs \<and> (\<exists>q w. op = OpProvision q \<and> confined (ho_root h w) (ps_path (pq_source q)) path)
   | EvExec x \<Rightarrow> verbs \<and> op \<noteq> OpProbe \<and> ex_argv x \<noteq> []
   | EvStart env \<Rightarrow> False | EvReap \<Rightarrow> False | _ \<Rightarrow> True)"

lemma permitted_allowed: "permitted (op_session h o' negotiated random op verbs) e \<Longrightarrow> allowed_event h op verbs e"
  by (cases e) (auto simp: permitted_def allowed_event_def op_session_def op_guard_def split: adapter_op.splits)

text \<open>
  C22: the sandbox calls of an adapter are mediated and its process is reaped. Whatever the adapter writes, at
  every moment of an operation the history is one start with the allow-listed environment and then only
  permitted events, closed by one reap once the operation has returned. A probe touches no
  sandbox; a file is copied during provision only, and only the configured backup source itself or a
  path that the operating system resolved inside it and that, under an absolute source, goes down only;
  no command is empty.
\<close>

theorem session_mediated:
  "case run_op fuel h o' negotiated random op payload verbs io of (r, io') \<Rightarrow> \<exists>es. si_events io' = si_events io @ es \<and>
    (case r of None \<Rightarrow> \<exists>mid. es = EvStart (build_env o') # mid \<and> list_all (allowed_event h op verbs) mid
     | Some a \<Rightarrow> es = [] \<or> (\<exists>mid. es = EvStart (build_env o') # mid @ [EvReap] \<and> list_all (allowed_event h op verbs) mid))"
proof -
  obtain r io' where run: "run_op fuel h o' negotiated random op payload verbs io = (r, io')" by fastforce
  have "list_all (permitted (op_session h o' negotiated random op verbs)) es \<Longrightarrow> list_all (allowed_event h op verbs) es" for es
    by (auto simp: list_all_iff intro: permitted_allowed)
  with run_op_events [OF run] run show ?thesis by (cases r) fastforce+
qed

subsection \<open>Which answer is believed\<close>

definition echoes :: "'w session \<Rightarrow> envelope \<Rightarrow> bool" where
  "echoes s env \<longleftrightarrow> ev_protocol env = se_protocol s \<and> ev_request_id env = se_request_id s \<and>
    (\<exists>line w. fst (ho_scan (se_host s) w) = Scanned line \<and> unmarshal_envelope line = Some env)"

lemma read_message_echoes: "read_message s io = (Inr env, io') \<Longrightarrow> echoes s env"
  by (auto simp: read_message_def Let_def asking_def echoes_def split: prod.splits scan_answer.splits option.splits if_splits)
    (metis fst_conv)

lemma loop_final:
  "read_loop n s io = (Some (Inr env), io') \<Longrightarrow> echoes s env \<and> ev_call env = None \<and> ev_ok env \<noteq> None"
proof (induction n arbitrary: io)
  case (Suc n)
  then show ?case
    by (auto simp: Let_def split: prod.splits sum.splits option.splits if_splits write_answer.splits dest: read_message_echoes)
qed simp

lemma wait_fault_reaped:
  assumes "wait_process h io = (f, io')" "f = None \<or> (\<exists>x. f = Some x \<and> wf_cancelled x)"
  shows "\<exists>w. fst (ho_reap h w) = f"
proof -
  from assms have "\<exists>io1. doing EvReap (ho_reap h) io1 = (f, io')"
    by (auto simp: wait_process_def Let_def split: prod.splits if_splits)
  then obtain io1 where "doing EvReap (ho_reap h) io1 = (f, io')" by blast
  then have "fst (ho_reap h (si_world io1)) = f" by (auto simp: doing_def split: prod.splits)
  then show ?thesis by blast
qed

text \<open>
  C23: an answer is believed only from an adapter that ended well. If an operation returns a payload, then
  a line that the adapter wrote decodes to a final response with ok true, for this request and in
  the version spoken, whose payload it is; and the process was reaped without a fault, or
  with one that only says the core itself cancelled it.
\<close>

theorem answer_trusted:
  assumes "run_op fuel h o' negotiated random op payload verbs io = (Some (Inr answer), io')"
  shows "\<exists>env fault. echoes (op_session h o' negotiated random op verbs) env \<and> ev_call env = None \<and> ev_ok env = Some True \<and>
    answer = ev_payload env \<and> (\<exists>w. fst (ho_reap h w) = fault) \<and> (fault = None \<or> (\<exists>f. fault = Some f \<and> wf_cancelled f))"
proof -
  let ?s = "op_session h o' negotiated random op verbs"
  from assms obtain final io1 io2 io3 fault where loop: "read_loop fuel ?s io1 = (Some final, io2)"
    and wait: "wait_process h io3 = (fault, io')" and v: "session_verdict (op_name op) final fault = Inr answer"
    by (auto simp: run_op_def adapter_do_def Let_def op_session_def split: prod.splits sum.splits option.splits write_answer.splits)
  from v obtain env where env: "final = Inr env" "final_answer (op_name op) env = Inr answer"
    "fault = None \<or> (\<exists>f. fault = Some f \<and> wf_cancelled f)"
    by (auto simp: session_verdict_def split: sum.splits option.splits if_splits)
  then have "ev_ok env = Some True" "answer = ev_payload env" by (auto simp: final_answer_def split: if_splits)
  with loop_final [of fuel ?s io1 env io2] loop env wait_fault_reaped [OF wait env(3)] show ?thesis by blast
qed

subsection \<open>The conversation ends\<close>

text \<open>An adapter whose output is finite: \<open>left\<close> bounds the lines it still writes.\<close>

definition output_bounded :: "'w adapter_host \<Rightarrow> ('w \<Rightarrow> nat) \<Rightarrow> bool" where
  "output_bounded h left \<longleftrightarrow>
    (\<forall>w. case ho_scan h w of (Scanned line, w') \<Rightarrow> left w' < left w | _ \<Rightarrow> True) \<and>
    (\<forall>env w. left (snd (ho_start h env w)) \<le> left w) \<and> (\<forall>f w. left (snd (ho_write h f w)) \<le> left w) \<and>
    (\<forall>x w. left (snd (ho_exec h x w)) \<le> left w) \<and> (\<forall>p d m w. left (snd (ho_put h p d m w)) \<le> left w)"

lemma bounded_steps:
  assumes "output_bounded h left"
  shows "ho_exec h x w = (a, w') \<Longrightarrow> left w' \<le> left w" "ho_put h q d m w = (b, w') \<Longrightarrow> left w' \<le> left w"
    "ho_write h f w = (c, w') \<Longrightarrow> left w' \<le> left w" "ho_start h env w = (st, w') \<Longrightarrow> left w' \<le> left w"
    "ho_scan h w = (Scanned line, w') \<Longrightarrow> left w' < left w"
proof -
  from assms have b: "left (snd (ho_exec h x w)) \<le> left w" "left (snd (ho_put h q d m w)) \<le> left w"
    "left (snd (ho_write h f w)) \<le> left w" "left (snd (ho_start h env w)) \<le> left w"
    "case ho_scan h w of (Scanned line, w') \<Rightarrow> left w' < left w | _ \<Rightarrow> True"
    unfolding output_bounded_def by auto
  show "ho_exec h x w = (a, w') \<Longrightarrow> left w' \<le> left w" using b(1) by simp
  show "ho_put h q d m w = (b, w') \<Longrightarrow> left w' \<le> left w" using b(2) by simp
  show "ho_write h f w = (c, w') \<Longrightarrow> left w' \<le> left w" using b(3) by simp
  show "ho_start h env w = (st, w') \<Longrightarrow> left w' \<le> left w" using b(4) by simp
  show "ho_scan h w = (Scanned line, w') \<Longrightarrow> left w' < left w" using b(5) by simp
qed

lemma dispatch_left:
  assumes "output_bounded (se_host s) left" "dispatch_verb s c io = (r, io')"
  shows "left (si_world io') \<le> left (si_world io)"
  using assms(2)
  by (auto simp: dispatch_verb_def dispatch_exec_def dispatch_put_file_def audit_check_def doing_def Let_def
      split: if_splits option.splits prod.splits sum.splits dest: bounded_steps(1,2) [OF assms(1)])

lemma message_left:
  assumes "output_bounded (se_host s) left" "read_message s io = (Inr env, io')"
  shows "left (si_world io') < left (si_world io)"
  using assms(2)
  by (auto simp: read_message_def Let_def asking_def split: prod.splits scan_answer.splits option.splits if_splits
      dest: bounded_steps(5) [OF assms(1)])

lemma loop_ends:
  "output_bounded (se_host s) left \<Longrightarrow> left (si_world io) < n \<Longrightarrow> \<exists>r io'. r \<noteq> None \<and> (\<forall>m > left (si_world io). read_loop m s io = (r, io'))"
proof (induction n arbitrary: io)
  case (Suc n)
  note B = Suc.prems(1)
  obtain a io1 where m: "read_message s io = (a, io1)" by fastforce
  have pos: "m > left (si_world io) \<Longrightarrow> \<exists>k. m = Suc k" for m by (cases m) auto
  show ?case
  proof (cases "\<exists>env c. a = Inr env \<and> ev_call env = Some c \<and> se_verbs s")
    case False
    with m have "\<exists>r. r \<noteq> None \<and> (\<forall>k. read_loop (Suc k) s io = (r, io1))"
      by (cases a; cases "ev_call (projr a)"; cases "ev_ok (projr a)") auto
    with pos show ?thesis by blast
  next
    case True
    then obtain env c where env: "a = Inr env" "ev_call env = Some c" "se_verbs s" by blast
    obtain res io2 where d: "dispatch_verb s c io1 = (res, io2)" by fastforce
    define f where "f = ResultFrame (se_protocol s) (se_request_id s) res"
    obtain w io3 where w: "doing (EvWrite f) (ho_write (se_host s) f) io2 = (w, io3)" by fastforce
    have l3: "left (si_world io3) < left (si_world io)"
      using message_left [OF B] m env(1) dispatch_left [OF B d] w
      by (fastforce simp: doing_def split: prod.splits dest: bounded_steps(3) [OF B])
    show ?thesis
    proof (cases "\<exists>e. w = WriteFault e")
      case True
      with m env d w have "\<exists>r. r \<noteq> None \<and> (\<forall>k. read_loop (Suc k) s io = (r, io3))" by (auto simp: f_def)
      with pos show ?thesis by blast
    next
      case False
      with m env d w have step: "read_loop (Suc k) s io = read_loop k s io3" for k by (cases w) (auto simp: f_def)
      have "left (si_world io3) < n" using l3 Suc.prems(2) by simp
      from Suc.IH [OF B this] obtain r io' where r: "r \<noteq> None" "\<And>m. m > left (si_world io3) \<Longrightarrow> read_loop m s io3 = (r, io')" by blast
      have "read_loop m s io = (r, io')" if gt: "m > left (si_world io)" for m
      proof -
        obtain k where k: "m = Suc k" using pos [OF gt] by blast
        with gt l3 have "k > left (si_world io3)" by simp
        with r(2) [of k] step [of k] k show ?thesis by simp
      qed
      with r(1) show ?thesis by blast
    qed
  qed
qed simp

text \<open>
  C24: an operation returns if the adapter's output is finite. However the adapter uses the conversation, if
  at most \<open>left\<close> lines are still to come, then with more fuel than that the operation returns, and
  with the same result and history whatever the fuel; so fuel decides nothing but how long an
  endless conversation is followed.
\<close>

theorem operation_returns:
  assumes "output_bounded h left"
  shows "\<exists>r io'. r \<noteq> None \<and> (\<forall>fuel > left (si_world io). run_op fuel h o' negotiated random op payload verbs io = (r, io'))"
proof -
  let ?s = "op_session h o' negotiated random op verbs"
  obtain st io1 where st: "asking (ho_start h (build_env o')) io = (st, io1)" by fastforce
  then have l1: "left (si_world io1) \<le> left (si_world io)"
    using bounded_steps(4) [OF assms] by (fastforce simp: asking_def split: prod.splits)
  define io2 where "io2 = io1\<lparr> si_events := si_events io1 @ [EvStart (build_env o')] \<rparr>"
  define f where "f = RequestFrame (se_protocol ?s) (request_id random) (op_name op) payload"
  obtain w io3 where w: "doing (EvWrite f) (ho_write h f) io2 = (w, io3)" by fastforce
  then have l3: "left (si_world io3) \<le> left (si_world io)"
    using l1 bounded_steps(3) [OF assms] by (fastforce simp: doing_def io2_def split: prod.splits)
  have B: "output_bounded (se_host ?s) left" using assms by (simp add: op_session_def)
  from loop_ends [OF B lessI, of io3] obtain r io4 where
    r: "r \<noteq> None" "\<And>m. m > left (si_world io3) \<Longrightarrow> read_loop m ?s io3 = (r, io4)" by blast
  have "\<exists>a io'. \<forall>fuel > left (si_world io). run_op fuel h o' negotiated random op payload verbs io = (Some a, io')"
  proof (cases "(\<exists>e. st = Inl e) \<or> (\<exists>e. w = WriteFault e)")
    case True
    with st w show ?thesis
      by (cases st) (auto simp: run_op_def adapter_do_def Let_def io2_def f_def op_session_def)
  next
    case False
    then obtain u where u: "st = Inr u" by (cases st) auto
    obtain final where final: "r = Some final" using r(1) by blast
    obtain fault io5 where wp: "wait_process h (affecting EvCloseStdin (ho_close_stdin h) io4) = (fault, io5)" by fastforce
    have "run_op fuel h o' negotiated random op payload verbs io = (Some (session_verdict (op_name op) final fault), io5)"
      if "fuel > left (si_world io)" for fuel
    proof -
      have "read_loop fuel ?s io3 = (Some final, io4)" using r(2) [of fuel] that l3 final by simp
      with st u w False wp show ?thesis
        by (cases w) (auto simp: run_op_def adapter_do_def Let_def io2_def f_def op_session_def)
    qed
    then show ?thesis by blast
  qed
  then show ?thesis by blast
qed

subsection \<open>What the adapter's environment holds\<close>

definition env_entry :: "bytes \<Rightarrow> bytes \<Rightarrow> bytes" where
  "env_entry n v = n @ CHR ''='' # v"

lemma allowed_env_names:
  "\<exists>names. distinct names \<and> set names = set ns - seen \<and>
    allowed_env look ns seen = concat (map (\<lambda>n. map (env_entry n) (case look n of None \<Rightarrow> [] | Some v \<Rightarrow> [v])) names)"
proof (induction ns arbitrary: seen)
  case (Cons n ns)
  show ?case
  proof (cases "n \<in> seen")
    case True
    with Cons.IH [of seen] show ?thesis by (simp add: insert_absorb)
  next
    case False
    obtain names where n: "distinct names" "set names = set ns - insert n seen"
      "allowed_env look ns (insert n seen) = concat (map (\<lambda>n. map (env_entry n) (case look n of None \<Rightarrow> [] | Some v \<Rightarrow> [v])) names)"
      using Cons.IH [of "insert n seen"] by (elim exE conjE) 
    have "allowed_env look (n # ns) seen = concat (map (\<lambda>n. map (env_entry n) (case look n of None \<Rightarrow> [] | Some v \<Rightarrow> [v])) (n # names))"
      using False by (simp add: n(3) env_entry_def split: option.splits)
    moreover have "distinct (n # names)" "set (n # names) = set (n # ns) - seen" using n(1,2) False by auto
    ultimately show ?thesis by blast
  qed
qed (simp add: exI [of _ "[]"])

lemma mset_map_order: "mset xs = mset (map f ys) \<Longrightarrow> \<exists>zs. mset zs = mset ys \<and> xs = map f zs"
proof (induction ys arbitrary: xs)
  case (Cons y ys)
  then have "f y \<in> set xs" by (metis list.set_intros(1) list.simps(9) set_mset_mset)
  then obtain as bs where xs: "xs = as @ f y # bs" by (metis split_list)
  with Cons.prems have "mset (as @ bs) = mset (map f ys)" by simp
  then obtain zs where zs: "mset zs = mset ys" "as @ bs = map f zs" using Cons.IH by blast
  have "as = map f (take (length as) zs)" "bs = map f (drop (length as) zs)"
    by (metis append_eq_conv_conj take_map zs(2), metis append_eq_conv_conj drop_map zs(2))
  moreover have "mset (take (length as) zs @ y # drop (length as) zs) = mset (y # ys)"
    using zs(1) by (metis append_take_drop_id mset_append union_mset_add_mset_right mset.simps(2))
  ultimately show ?case using xs by (intro exI [of _ "take (length as) zs @ y # drop (length as) zs"]) simp
qed simp

text \<open>
  The adapter gets the allow-listed environment and nothing else. Its environment is one entry for each name that
  is a baseline variable or a declared credential and is set, no name twice, followed by the
  explicit extras; and what its messages are audited for are exactly the non-empty values of the
  declared credentials and of the extras.
\<close>

theorem adapter_env_exact:
  "(\<exists>names extras. distinct names \<and> set names = set (baseline_env @ ro_credential_env o') \<and> mset extras = mset (ro_env o') \<and>
     build_env o' = concat (map (\<lambda>n. map (env_entry n) (case ro_lookup o' n of None \<Rightarrow> [] | Some v \<Rightarrow> [v])) names) @
       map (\<lambda>(k, v). env_entry k v) extras) \<and>
   set (secret_values o') = ({v. \<exists>n \<in> set (ro_credential_env o'). ro_lookup o' n = Some v} \<union> snd ` set (ro_env o')) - {[]}"
proof -
  obtain names where names: "distinct names" "set names = set (baseline_env @ ro_credential_env o')"
    "allowed_env (ro_lookup o') (baseline_env @ ro_credential_env o') {} =
       concat (map (\<lambda>n. map (env_entry n) (case ro_lookup o' n of None \<Rightarrow> [] | Some v \<Rightarrow> [v])) names)"
    using allowed_env_names [of "baseline_env @ ro_credential_env o'" "{}" "ro_lookup o'"] by auto
  have "mset (isort less_bytes (map (\<lambda>(k, v). k @ CHR ''='' # v) (ro_env o'))) = mset (map (\<lambda>(k, v). env_entry k v) (ro_env o'))"
    by (simp add: env_entry_def)
  then obtain extras where "mset extras = mset (ro_env o')"
    "isort less_bytes (map (\<lambda>(k, v). k @ CHR ''='' # v) (ro_env o')) = map (\<lambda>(k, v). env_entry k v) extras"
    using mset_map_order [of _ "\<lambda>(k, v). env_entry k v" "ro_env o'"] by metis
  with names have "build_env o' = concat (map (\<lambda>n. map (env_entry n) (case ro_lookup o' n of None \<Rightarrow> [] | Some v \<Rightarrow> [v])) names) @
       map (\<lambda>(k, v). env_entry k v) extras" by (simp add: build_env_def)
  moreover have "set (secret_values o') = ({v. \<exists>n \<in> set (ro_credential_env o'). ro_lookup o' n = Some v} \<union> snd ` set (ro_env o')) - {[]}"
    by (auto simp: secret_values_def split: option.splits if_splits) force
  ultimately show ?thesis using names(1,2) \<open>mset extras = mset (ro_env o')\<close> by blast
qed

end
