(* ===== verification/AdapterStderr.thy ===== *)
theory AdapterStderr
  imports Lines
begin

text \<open>
  How the core reads an adapter's standard error (internal/adapter/session.go, readCappedLine and
  drainStderr): line by line to the end, at most a limit of each line kept, the rest of an over-long line read
  and dropped. The reader underneath hands out chunks; the theorem at the end says what is logged without them.
\<close>

definition trim_line_end :: "bytes \<Rightarrow> bytes" where
  "trim_line_end s = rev (dropWhile (\<lambda>c. c = CHR 0x0D \<or> c = newline) (rev s))"

text \<open>One chunk added to what is kept of the line.\<close>

definition keep_chunk :: "nat \<Rightarrow> bytes \<Rightarrow> bytes \<Rightarrow> bool \<Rightarrow> bytes \<times> bool" where
  "keep_chunk limit chunk buf truncated =
    (if length buf < limit then
       (if length chunk > limit - length buf then (buf @ take (limit - length buf) chunk, True) else (buf @ chunk, truncated))
     else if chunk \<noteq> [] then (buf, True)
     else (buf, truncated))"

text \<open>The line, whether it was longer, how the reader ended, and what is left.\<close>

function read_capped :: "nat \<Rightarrow> bool \<Rightarrow> nat \<Rightarrow> bytes \<Rightarrow> bool \<Rightarrow> bytes \<Rightarrow> bytes \<times> bool \<times> slice_end \<times> bytes" where
  "read_capped n fault limit buf truncated s =
    (case read_slice (buffer_size n) fault s of (chunk, fin, rest) \<Rightarrow>
     (case keep_chunk limit chunk buf truncated of (buf', truncated') \<Rightarrow>
       if fin = BufferFull then read_capped n fault limit buf' truncated' rest
       else (trim_line_end buf', truncated', fin, rest)))"
  by pat_completeness auto
termination
  by (relation "measure (\<lambda>(n, fault, limit, buf, truncated, s). length s)")
    (auto simp: read_slice_def Let_def buffer_size_def split: if_splits)

declare read_capped.simps [simp del]

subsection \<open>The chunks do not matter\<close>

text \<open>The text up to and with the next newline, or to the end.\<close>

definition next_line :: "bytes \<Rightarrow> bytes" where
  "next_line s = takeWhile (\<lambda>c. c \<noteq> newline) s @ (if newline \<in> set s then [newline] else [])"

definition capped :: "nat \<Rightarrow> bytes \<Rightarrow> bytes \<times> bool" where
  "capped limit l = (trim_line_end (take limit l), limit < length l)"

lemma keep_chunk_take:
  "keep_chunk limit chunk (take limit l) (limit < length l) = (take limit (l @ chunk), limit < length (l @ chunk))"
  by (auto simp: keep_chunk_def min_def)

lemma takeWhile_no: "newline \<notin> set t \<Longrightarrow> takeWhile (\<lambda>c. c \<noteq> newline) (t @ d) = t @ takeWhile (\<lambda>c. c \<noteq> newline) d"
  by (induction t) auto

lemma next_line_at: "newline \<notin> set l \<Longrightarrow> next_line (l @ newline # r) = l @ [newline]"
  by (simp add: next_line_def takeWhile_no)

lemma next_line_last: "newline \<notin> set s \<Longrightarrow> next_line s = s"
  using takeWhile_no [of s "[]"] by (simp add: next_line_def)

lemma next_line_prefix: "newline \<notin> set t \<Longrightarrow> next_line (t @ d) = t @ next_line d"
  by (auto simp: next_line_def takeWhile_no)

lemma next_line_shorter: "newline \<in> set s \<Longrightarrow> length (drop (length (next_line s)) s) < length s"
  by (auto simp: next_line_at dest!: split_list_first)

lemma read_slice_cases:
  assumes "0 < n"
  obtains (delim) "read_slice n fault s = (next_line s, Delim, drop (length (next_line s)) s)" "newline \<in> set s"
    | (more) t d where "s = t @ d" "t \<noteq> []" "newline \<notin> set t" "read_slice n fault s = (t, BufferFull, d)"
    | (over) "read_slice n fault s = (s, if fault then Fault else AtEof, [])" "newline \<notin> set s"
proof -
  define h where "h = takeWhile (\<lambda>c. c \<noteq> newline) (take n s)"
  show ?thesis
  proof (cases "length h < length (take n s)")
    case True
    from takeWhile_take_less [OF True [unfolded h_def]] have
      h: "h = takeWhile (\<lambda>c. c \<noteq> newline) s" "length (takeWhile (\<lambda>c. c \<noteq> newline) s) < length s" by (auto simp: h_def)
    then have nl: "newline \<in> set s" by (simp add: takeWhile_short)
    have "read_slice n fault s = (h @ [newline], Delim, drop (Suc (length h)) s)" using True by (simp add: read_slice_def h_def Let_def)
    with nl h(1) show ?thesis by (intro delim) (simp_all add: next_line_def)
  next
    case False
    then have "length h = length (take n s)" unfolding h_def by (meson le_neq_implies_less length_takeWhile_le)
    from takeWhile_take_full [OF this [unfolded h_def]] have no: "newline \<notin> set (take n s)" by auto
    show ?thesis
    proof (cases "n \<le> length s")
      case True
      with False assms no show ?thesis
        by (intro more [of "take n s" "drop n s"]) (auto simp: read_slice_def h_def Let_def)
    next
      case small: False
      with False no show ?thesis by (intro over) (auto simp: read_slice_def h_def Let_def)
    qed
  qed
qed

lemma read_capped_spec:
  "newline \<notin> set l \<Longrightarrow> read_capped n fault limit (take limit l) (limit < length l) s =
    (fst (capped limit (l @ next_line s)), snd (capped limit (l @ next_line s)),
     if newline \<in> set s then Delim else if fault then Fault else AtEof, drop (length (next_line s)) s)"
proof (induction "length s" arbitrary: l s rule: less_induct)
  case less
  have N: "0 < buffer_size n" by (simp add: buffer_size_def)
  show ?case
  proof (cases rule: read_slice_cases [OF N, of fault s, case_names delim more over])
    case delim
    then show ?thesis by (subst read_capped.simps) (simp add: keep_chunk_take capped_def)
  next
    case (more t d)
    have "newline \<notin> set (l @ t)" using less.prems more(3) by simp
    moreover have "length d < length s" using more(1,2) by simp
    ultimately have "read_capped n fault limit (take limit (l @ t)) (limit < length (l @ t)) d =
      (fst (capped limit ((l @ t) @ next_line d)), snd (capped limit ((l @ t) @ next_line d)),
       if newline \<in> set d then Delim else if fault then Fault else AtEof, drop (length (next_line d)) d)" by (rule less.hyps [rotated])
    moreover have "read_capped n fault limit (take limit l) (limit < length l) s =
      read_capped n fault limit (take limit (l @ t)) (limit < length (l @ t)) d"
      by (subst read_capped.simps) (simp add: more(4) keep_chunk_take del: take_append length_append)
    ultimately show ?thesis using more(1,3) by (simp add: next_line_prefix)
  next
    case over
    then have "next_line s = s" by (simp add: next_line_last)
    with over show ?thesis by (subst read_capped.simps) (simp add: keep_chunk_take capped_def)
  qed
qed

lemma read_capped_start:
  "read_capped n fault limit [] False s = (fst (capped limit (next_line s)), snd (capped limit (next_line s)),
     if newline \<in> set s then Delim else if fault then Fault else AtEof, drop (length (next_line s)) s)"
  using read_capped_spec [of "[]" n fault limit s] by simp

subsection \<open>Draining\<close>

text \<open>What is logged of the whole stream.\<close>

function drain_stderr :: "nat \<Rightarrow> bool \<Rightarrow> nat \<Rightarrow> bytes \<Rightarrow> (bytes \<times> bool) list" where
  "drain_stderr n fault limit s =
    (case read_capped n fault limit [] False s of (line, truncated, fin, rest) \<Rightarrow>
       (if line \<noteq> [] \<or> truncated then [(line, truncated)] else []) @ (if fin = Delim then drain_stderr n fault limit rest else []))"
  by pat_completeness auto
termination
  by (relation "measure (\<lambda>(n, fault, limit, s). length s)")
    (auto simp: read_capped_start split: if_splits dest: next_line_shorter)

declare drain_stderr.simps [simp del]

definition text_lines :: "bytes \<Rightarrow> bytes list" where
  "text_lines s = (let ps = split_char newline s in map (\<lambda>p. p @ [newline]) (butlast ps) @ [last ps])"

lemma split_char_line:
  "newline \<notin> set l \<Longrightarrow> split_char newline (l @ newline # r) = l # split_char newline r"
  by (induction l) auto

lemma split_char_rest: "newline \<notin> set s \<Longrightarrow> split_char newline s = [s]"
  by (induction s) auto

lemma text_lines_step:
  "text_lines s = (if newline \<in> set s then next_line s # text_lines (drop (length (next_line s)) s) else [s])"
proof (cases "newline \<in> set s")
  case True
  then obtain l r where "s = l @ newline # r" "newline \<notin> set l" by (metis split_list_first)
  then show ?thesis by (simp add: text_lines_def Let_def split_char_line next_line_at)
qed (simp add: text_lines_def split_char_rest)

text \<open>
  An adapter's standard error is read to the end whatever it writes. Over every buffer size, what is logged
  is the lines of the whole stream in order, each cut to the limit and without its line end, the
  empty ones left out: no line is lost or split by the reader's chunks, and one over the limit costs
  only its own tail.
\<close>

theorem stderr_drained:
  "drain_stderr n fault limit s = filter (\<lambda>p. p \<noteq> ([], False)) (map (capped limit) (text_lines s))"
proof (induction "length s" arbitrary: s rule: less_induct)
  case less
  have c: "capped limit l = (fst (capped limit l), snd (capped limit l))" for l by simp
  show ?case
  proof (cases "newline \<in> set s")
    case True
    let ?r = "drop (length (next_line s)) s"
    have "length ?r < length s" by (rule next_line_shorter [OF True])
    from less.hyps [OF this] True show ?thesis
      by (subst drain_stderr.simps, subst text_lines_step) (auto simp: read_capped_start prod_eq_iff)
  next
    case False
    then have "next_line s = s" by (simp add: next_line_last)
    with False show ?thesis by (subst drain_stderr.simps, subst text_lines_step) (auto simp: read_capped_start prod_eq_iff)
  qed
qed

end
