(* ===== verification/SessionWitnesses.thy ===== *)
theory SessionWitnesses
  imports SessionProps AdapterStderr Canonical
begin

text \<open>An adapter that answers with one line, and the properties of a session at it.\<close>

definition answer_doc :: json where
  "answer_doc = JObj [(''protocol'', JStr ''probavi-adapter/0''), (''request_id'', JStr ''r-00''), (''ok'', JBool True), (''payload'', JNull)]"

definition answer_line :: bytes where
  "answer_line = render quote_runes answer_doc"

definition answer_envelope :: envelope where
  "answer_envelope = zero_envelope\<lparr> ev_protocol := protocol_floor, ev_request_id := ''r-00'', ev_ok := Some True, ev_payload := Some JNull \<rparr>"

lemma answer_decodes: "unmarshal_envelope answer_line = Some answer_envelope"
proof -
  have "parse_first (render quote_runes answer_doc) = Some (answer_doc, [])"
    by (intro cq.parse_first_render) (simp_all add: answer_doc_def ascii_valid max_depth_def)
  then have "unmarshal_tree answer_line = Some answer_doc" by (simp add: unmarshal_tree_def answer_line_def skip_ws_def)
  moreover have "conforms answer_doc envelope_shape"
    by (simp add: answer_doc_def envelope_shape_def field_name_def)
  ultimately show ?thesis
    by (simp add: unmarshal_envelope_def unmarshal_struct_def answer_doc_def put_envelope_def field_name_def envelope_names_def
        answer_envelope_def zero_envelope_def set_str_def protocol_floor_def)
qed

text \<open>The world is the number of lines still to be written.\<close>

definition one_answer :: "nat adapter_host" where
  "one_answer = \<lparr> ho_start = (\<lambda>env w. (Inr (), w)), ho_write = (\<lambda>f w. (Written, w)),
     ho_scan = (\<lambda>w. if w = 0 then (NoMoreLines, 0) else (Scanned answer_line, w - 1)),
     ho_close_stdin = (\<lambda>w. w), ho_close_stdout = (\<lambda>w. w), ho_close_stderr = (\<lambda>w. w), ho_kill = (\<lambda>w. w),
     ho_drained = (\<lambda>w. (True, w)), ho_exits = (\<lambda>w. (True, w)), ho_reap = (\<lambda>w. (None, w)), ho_root = (\<lambda>w r p. RootRefused),
     ho_exec = (\<lambda>x w. (Inl [], w)), ho_put = (\<lambda>s d m w. (Inl [], w)), ho_json_error = (\<lambda>l. []), ho_printable = (\<lambda>r. True) \<rparr>"

definition plain_options :: runner_options where
  "plain_options = \<lparr> ro_path = ''p'', ro_credential_env = [], ro_env = [], ro_lookup = (\<lambda>n. None) \<rparr>"

definition fresh_session :: "nat session_io" where
  "fresh_session = \<lparr> si_world = 1, si_events = [] \<rparr>"

lemma answer_run:
  "\<exists>io'. run_op 1 one_answer plain_options [] [CHR 0x00] OpProbe (JObj []) False fresh_session = (Some (Inr (Some JNull)), io')"
proof -
  have id: "request_id [CHR 0x00] = ''r-00''" by code_simp
  show ?thesis
    by (simp add: run_op_def adapter_do_def Let_def asking_def doing_def affecting_def one_answer_def fresh_session_def op_name_def
        read_message_def answer_decodes answer_envelope_def zero_envelope_def id session_verdict_def final_answer_def wait_process_def)
qed

theorem answer_trusted_witness:
  "\<exists>env :: envelope. ev_ok env = Some True \<and> ev_payload env = Some JNull \<and> ev_request_id env = ''r-00''"
proof -
  obtain io' where run: "run_op 1 one_answer plain_options [] [CHR 0x00] OpProbe (JObj []) False fresh_session = (Some (Inr (Some JNull)), io')"
    using answer_run by blast
  have id: "request_id [CHR 0x00] = ''r-00''" by code_simp
  from answer_trusted [OF run] obtain env where "echoes (op_session one_answer plain_options [] [CHR 0x00] OpProbe False) env"
    "ev_ok env = Some True" "Some JNull = ev_payload env" by blast
  with id have "ev_ok env = Some True \<and> ev_payload env = Some JNull \<and> ev_request_id env = ''r-00''"
    by (simp add: echoes_def op_session_def)
  then show ?thesis by blast
qed

theorem operation_returns_witness:
  "\<exists>r io'. r \<noteq> None \<and> (\<forall>fuel > 1. run_op fuel one_answer plain_options [] [CHR 0x00] OpProbe (JObj []) False fresh_session = (r, io'))"
proof -
  have "output_bounded one_answer (\<lambda>w. w)" by (simp add: output_bounded_def one_answer_def)
  from operation_returns [OF this, of fresh_session] show ?thesis by (simp add: fresh_session_def)
qed

end
