(* ===== verification/SandboxBase.thy ===== *)
theory SandboxBase
  imports AdapterSession Drill Lines
begin

text \<open>
  What the sandbox providers share (internal/sandbox): the environment prelude, the parameter
  gate, ownership of a sandbox by a process, the host id, the capture cap, and the command-line
  tool they drive (internal/sandbox/cli). The tool, the kernel and the file system answer from a world; the
  commands sent are kept as a history. The locale \<open>sweeper\<close> is the contract of an orphan sweep: what it
  removes was judged an orphan before.
\<close>

subsection \<open>Text\<close>

text \<open>\<^verbatim>\<open>strings.Fields\<close>: the maximal runs of runes that are no white space.\<close>

function fields_from :: "bytes \<Rightarrow> bytes \<Rightarrow> bytes list" where
  "fields_from cur s =
    (if s = [] then (if cur = [] then [] else [cur])
     else let (r, w) = decode_rune s in
       if r \<in> set space_runes then (if cur = [] then [] else [cur]) @ fields_from [] (drop w s)
       else fields_from (cur @ take w s) (drop w s))"
  by pat_completeness auto
termination
  by (relation "measure (\<lambda>(cur, s). length s)") (auto simp: neq_Nil_conv, (metis drop_rune_shorter_Cons snd_conv)+)

declare fields_from.simps [simp del]

definition text_fields :: "bytes \<Rightarrow> bytes list" where
  "text_fields s = fields_from [] s"

text \<open>\<^verbatim>\<open>strings.ToLower\<close>, as far as its ASCII letters go: two runes outside ASCII become one.\<close>

definition to_lower :: "bytes \<Rightarrow> bytes" where
  "to_lower s = map_runes (\<lambda>r. if 65 \<le> r \<and> r \<le> 90 then r + 32 else if r = 0x130 then 0x69 else if r = 0x212A then 0x6B else r) s"

text \<open>\<^verbatim>\<open>strings.CutSuffix\<close>.\<close>

definition cut_suffix :: "bytes \<Rightarrow> bytes \<Rightarrow> bytes option" where
  "cut_suffix s suf = (if suffix suf s then Some (take (length s - length suf) s) else None)"

definition cli_first_line :: "bytes \<Rightarrow> bytes" where
  "cli_first_line b = fst (cut newline (trim_space b))"

text \<open>A map's entries by name.\<close>

definition sorted_entries :: "(bytes \<times> bytes) list \<Rightarrow> (bytes \<times> bytes) list" where
  "sorted_entries m = isort (by_key less_bytes) m"

subsection \<open>The environment prelude\<close>

definition env_start :: "char \<Rightarrow> bool" where
  "env_start c \<longleftrightarrow> (65 \<le> code c \<and> code c \<le> 90) \<or> (97 \<le> code c \<and> code c \<le> 122) \<or> c = CHR ''_''"

definition valid_env_name :: "bytes \<Rightarrow> bool" where
  "valid_env_name n \<longleftrightarrow> n \<noteq> [] \<and> env_start (hd n) \<and> list_all (\<lambda>c. env_start c \<or> is_digit c) (tl n)"

definition prelude_program :: bytes where
  "prelude_program = '' while [ '' @ CHR 0x22 # ''$n'' @ CHR 0x22 #
     '' -gt 0 ]; do IFS= read -r probavi_env || exit 125; export '' @ CHR 0x22 # ''$probavi_env'' @ CHR 0x22 #
     ''; n=$((n-1)); done; unset probavi_env; exec '' @ CHR 0x22 # ''$@'' @ [CHR 0x22]"

definition env_prelude_script :: "nat \<Rightarrow> bytes" where
  "env_prelude_script n = ''n='' @ show_nat n @ CHR '';'' # prelude_program"

definition invalid_params :: "bytes \<Rightarrow> bytes" where
  "invalid_params msg = ''invalid sandbox params: '' @ msg"

fun prelude_lines :: "(nat \<Rightarrow> bool) \<Rightarrow> (bytes \<times> bytes) list \<Rightarrow> bytes + bytes" where
  "prelude_lines pr [] = Inr []"
| "prelude_lines pr ((k, v) # m) =
    (if \<not> valid_env_name k then Inl (invalid_params (go_quote pr k @ '' is not a usable environment variable name for the sandbox''))
     else if newline \<in> set v \<or> CHR 0x0D \<in> set v
     then Inl (invalid_params (''environment value for '' @ k @ '' contains a newline and cannot be passed to the sandbox''))
     else map_sum (\<lambda>e. e) (\<lambda>t. k @ CHR ''='' # v @ newline # t) (prelude_lines pr m))"

definition env_prelude_lines :: "(nat \<Rightarrow> bool) \<Rightarrow> (bytes \<times> bytes) list \<Rightarrow> bytes + bytes" where
  "env_prelude_lines pr env = prelude_lines pr (sorted_entries env)"

text \<open>What a command gets in front of it, and what goes in front of its input, to set its environment.\<close>

definition with_prelude :: "(nat \<Rightarrow> bool) \<Rightarrow> exec_call \<Rightarrow> bytes + bytes list \<times> bytes" where
  "with_prelude pr x =
    (if ex_env x = [] then Inr ([], ex_stdin x)
     else map_sum (\<lambda>e. e) (\<lambda>lines. ([''sh'', ''-c'', env_prelude_script (length (ex_env x)), ''sh''], lines @ ex_stdin x))
       (env_prelude_lines pr (ex_env x)))"

subsection \<open>Parameters\<close>

record param =
  pm_name :: bytes
  pm_family :: bool
  pm_required :: bool
  pm_default :: bytes

record descriptor =
  ds_id :: bytes
  ds_params :: "param list"

definition param_key :: "param \<Rightarrow> bytes" where
  "param_key p = (if pm_family p then pm_name p @ ''<NAME>'' else pm_name p)"

definition lookup_param :: "descriptor \<Rightarrow> bytes \<Rightarrow> param option" where
  "lookup_param d key = List.find (\<lambda>p. if pm_family p then prefix (pm_name p) key else key = pm_name p) (ds_params d)"

definition param_keys :: "descriptor \<Rightarrow> bytes list" where
  "param_keys d = map param_key (ds_params d)"

definition unknown_param_error :: "(nat \<Rightarrow> bool) \<Rightarrow> descriptor \<Rightarrow> bytes \<Rightarrow> bytes" where
  "unknown_param_error pr d key = invalid_params (''unknown '' @ ds_id d @ '' sandbox param '' @ go_quote pr key @ '' (supported: '' @
     join_with '', '' (param_keys d) @ '')'')"

definition unhandled_param_error :: "(nat \<Rightarrow> bool) \<Rightarrow> descriptor \<Rightarrow> bytes \<Rightarrow> bytes" where
  "unhandled_param_error pr d key = invalid_params (ds_id d @ '' sandbox param '' @ go_quote pr key @ '' is declared but not implemented'')"

subsection \<open>Owners\<close>

text \<open>What the kernel says about a pid: whether a signal can be sent or is forbidden, and its stat line.\<close>

record kernel =
  kn_signal :: "int \<Rightarrow> bool"
  kn_stat :: "int \<Rightarrow> bytes option"

definition representable_as_pid :: "int \<Rightarrow> bool" where
  "representable_as_pid pid \<longleftrightarrow> 0 < pid \<and> pid \<le> 2 ^ 31 - 1"

definition process_alive :: "kernel \<Rightarrow> int \<Rightarrow> bool" where
  "process_alive k pid \<longleftrightarrow> representable_as_pid pid \<and> kn_signal k pid"

definition start_token_from :: "bytes \<Rightarrow> bytes option" where
  "start_token_from raw =
    (if CHR '')'' \<notin> set raw then None
     else let fs = text_fields (rev (takeWhile (\<lambda>c. c \<noteq> CHR '')'') (rev raw)))
          in if length fs \<le> 19 then None else Some (fs ! 19))"

definition process_start_token :: "kernel \<Rightarrow> int \<Rightarrow> bytes option" where
  "process_start_token k pid = Option.bind (kn_stat k pid) start_token_from"

definition owner_id :: "kernel \<Rightarrow> int \<Rightarrow> bytes" where
  "owner_id k pid = (case process_start_token k pid of None \<Rightarrow> show_int pid | Some t \<Rightarrow> show_int pid @ CHR ''-'' # t)"

definition owner_alive :: "kernel \<Rightarrow> bytes \<Rightarrow> bool" where
  "owner_alive k i =
    (case cut (CHR ''-'') i of (pid_text, token, has_token) \<Rightarrow>
     (case parse_int64 pid_text of None \<Rightarrow> False
      | Some pid \<Rightarrow> if pid \<le> 0 \<or> \<not> process_alive k pid then False
        else if \<not> has_token then True
        else (case process_start_token k pid of None \<Rightarrow> True | Some t \<Rightarrow> t = token)))"

subsection \<open>The host\<close>

definition sandbox_host_id :: "crypto \<Rightarrow> bytes \<Rightarrow> bytes \<Rightarrow> bytes" where
  "sandbox_host_id C machine host = take 16 (hex_encode (sha256 C (machine @ CHR 0x00 # host)))"

fun machine_id_from :: "(bytes \<Rightarrow> bytes option) \<Rightarrow> bytes list \<Rightarrow> bytes" where
  "machine_id_from readf [] = []"
| "machine_id_from readf (p # ps) =
    (case readf p of None \<Rightarrow> machine_id_from readf ps
     | Some raw \<Rightarrow> if trim_space raw \<noteq> [] then trim_space raw else machine_id_from readf ps)"

subsection \<open>The command-line tool\<close>

definition max_capture_bytes :: nat where "max_capture_bytes = 256 * 1024"

text \<open>One \<^verbatim>\<open>Write\<close> of the capturing writer; it always reports the whole chunk as written.\<close>

definition limited_write :: "bytes \<times> bool \<Rightarrow> bytes \<Rightarrow> bytes \<times> bool" where
  "limited_write = (\<lambda>(buf, truncated) p.
     if max_capture_bytes \<le> length buf then (buf, True)
     else if length p > max_capture_bytes - length buf then (buf @ take (max_capture_bytes - length buf) p, True)
     else (buf @ p, truncated))"

datatype cli_stdin = NoStdin | TextStdin bytes | FileStdin bytes

record cli_call =
  cl_stdin :: cli_stdin
  cl_env :: "bytes list"
  cl_bin :: bytes
  cl_args :: "bytes list"

text \<open>A failure to spawn or a dead context, or what the tool wrote and how it exited.\<close>

datatype cli_answer = CliFailed bytes | CliRan bytes bytes bool int

text \<open>
  \<open>cv_wait\<close> is the choice between an interval passing (\<open>None\<close>) and the context's end; \<open>cv_random\<close> four random
  bytes; \<open>cv_float\<close> is \<^verbatim>\<open>strconv.ParseFloat\<close> on the spellings \<open>parse_go_float\<close> does not read.
\<close>

record 'w cli_host =
  cv_run :: "cli_call \<Rightarrow> 'w \<Rightarrow> cli_answer \<times> 'w"
  cv_wait :: "'w \<Rightarrow> bytes option \<times> 'w"
  cv_stat :: "bytes \<Rightarrow> 'w \<Rightarrow> bytes + int"
  cv_open :: "bytes \<Rightarrow> 'w \<Rightarrow> bytes + bytes"
  cv_fstat :: "bytes \<Rightarrow> 'w \<Rightarrow> bytes + int"
  cv_random :: "'w \<Rightarrow> bytes option \<times> 'w"
  cv_elapsed :: "'w \<Rightarrow> int"
  cv_kernel :: "'w \<Rightarrow> kernel"
  cv_float :: "bytes \<Rightarrow> float64 option"
  cv_json_error :: "bytes \<Rightarrow> bytes"
  cv_printable :: "nat \<Rightarrow> bool"

record 'w cli_io =
  cw_world :: 'w
  cw_calls :: "cli_call list"

definition cli_run :: "'w cli_host \<Rightarrow> cli_call \<Rightarrow> 'w cli_io \<Rightarrow> cli_answer \<times> 'w cli_io" where
  "cli_run h c io = (case cv_run h c (cw_world io) of (a, w) \<Rightarrow> (a, io\<lparr> cw_world := w, cw_calls := cw_calls io @ [c] \<rparr>))"

definition cli_wait :: "'w cli_host \<Rightarrow> 'w cli_io \<Rightarrow> bytes option \<times> 'w cli_io" where
  "cli_wait h io = (case cv_wait h (cw_world io) of (a, w) \<Rightarrow> (a, io\<lparr> cw_world := w \<rparr>))"

definition exited :: "bytes \<Rightarrow> int \<Rightarrow> bytes \<Rightarrow> bytes" where
  "exited what n stderr = what @ '' exited '' @ show_int n @ '': '' @ cli_first_line stderr"

text \<open>The fields every provider has: the pid of this process and the host id.\<close>

record provider =
  pv_pid :: int
  pv_host :: bytes

definition random_suffix :: "'w cli_host \<Rightarrow> int \<Rightarrow> 'w cli_io \<Rightarrow> bytes \<times> 'w cli_io" where
  "random_suffix h pid io = (case cv_random h (cw_world io) of (b, w) \<Rightarrow>
     ((case b of None \<Rightarrow> CHR ''p'' # show_int pid | Some b \<Rightarrow> hex_encode b), io\<lparr> cw_world := w \<rparr>))"

text \<open>A missing key of a Go map reads as the empty string.\<close>

definition param_value :: "(bytes \<times> bytes) list \<Rightarrow> bytes \<Rightarrow> bytes" where
  "param_value ps k = (case map_of ps k of None \<Rightarrow> [] | Some v \<Rightarrow> v)"

text \<open>\<^verbatim>\<open>strconv.ParseUint(mode, 8, 32)\<close> succeeds.\<close>

definition octal_mode :: "bytes \<Rightarrow> bool" where
  "octal_mode m \<longleftrightarrow> m \<noteq> [] \<and> list_all (\<lambda>c. is_digit c \<and> digit_val c < 8) m \<and>
     foldl (\<lambda>n c. n * 8 + digit_val c) 0 m < (2 :: nat) ^ 32"

definition effective_mode :: "bytes \<Rightarrow> bytes" where
  "effective_mode mode = (if mode = [] then ''0600'' else mode)"

definition no_facts :: facts where
  "no_facts = \<lparr> fa_image_digest = None, fa_memory_bytes = None, fa_cpus_milli = None \<rparr>"

subsection \<open>Floating point\<close>

definition lower_ascii :: "bytes \<Rightarrow> bytes" where
  "lower_ascii s = map (\<lambda>c. if 65 \<le> code c \<and> code c \<le> 90 then char_of (code c + 32) else c) s"

text \<open>The decimal spellings: digits with at most one point, and an exponent.\<close>

definition decimal_float :: "bytes \<Rightarrow> bool" where
  "decimal_float s =
    (let mant = takeWhile (\<lambda>c. c \<noteq> CHR ''e'' \<and> c \<noteq> CHR ''E'') s; (whole, frac, found) = cut (CHR ''.'') mant;
         ex = drop (length mant) s; body = (if tl ex \<noteq> [] \<and> hd (tl ex) \<in> {CHR ''+'', CHR ''-''} then tl (tl ex) else tl ex)
     in list_all is_digit (whole @ frac) \<and> whole @ frac \<noteq> [] \<and> (ex = [] \<or> body \<noteq> [] \<and> list_all is_digit body))"

text \<open>\<^verbatim>\<open>strconv.ParseFloat(s, 64)\<close>: the special values, the decimal numbers; hexadecimal and underscores are \<open>other\<close>'s.\<close>

definition parse_go_float :: "(bytes \<Rightarrow> float64 option) \<Rightarrow> bytes \<Rightarrow> float64 option" where
  "parse_go_float other s =
    (let signed = (s \<noteq> [] \<and> hd s \<in> {CHR ''+'', CHR ''-''}); neg = (signed \<and> hd s = CHR ''-'');
         body = (if signed then tl s else s)
     in if lower_ascii body \<in> {''inf'', ''infinity''} then Some (if neg then NegInf else PosInf)
        else if lower_ascii s = ''nan'' then Some NaN
        else if decimal_float body then parse_float64 (if neg then s else body)
        else other s)"

definition float_from :: "bool \<Rightarrow> nat \<Rightarrow> int \<Rightarrow> float64" where
  "float_from neg n e = (case round_float n e of (q, x) \<Rightarrow>
     if too_large q x then (if neg then NegInf else PosInf) else Finite (if neg then - int q else int q) x)"

text \<open>The product with a positive whole number.\<close>

definition float_times :: "float64 \<Rightarrow> nat \<Rightarrow> float64" where
  "float_times f k = (case f of Finite m e \<Rightarrow> float_from (m < 0) (nat \<bar>m\<bar> * k) e | _ \<Rightarrow> f)"

definition float_not_positive :: "float64 \<Rightarrow> bool" where
  "float_not_positive f = (case f of Finite m e \<Rightarrow> m \<le> 0 | NegInf \<Rightarrow> True | _ \<Rightarrow> False)"

text \<open>The conversion to \<^verbatim>\<open>int64\<close> on amd64: what it cannot hold becomes the least one.\<close>

definition int64_of :: "int \<Rightarrow> int" where
  "int64_of v = (if v < - (2 ^ 63) \<or> 2 ^ 63 \<le> v then - (2 ^ 63) else v)"

definition float_to_int64 :: "float64 \<Rightarrow> int" where
  "float_to_int64 f = (case f of
     Finite m e \<Rightarrow> let v = (if 0 \<le> e then \<bar>m\<bar> * 2 ^ nat e else \<bar>m\<bar> div 2 ^ nat (- e)) in int64_of (if m < 0 then - v else v)
   | _ \<Rightarrow> - (2 ^ 63))"

definition round_to_int64 :: "float64 \<Rightarrow> int" where
  "round_to_int64 f = (case f of
     Finite m e \<Rightarrow> let v = int (round_half (nat \<bar>m\<bar>) e) in int64_of (if m < 0 then - v else v)
   | _ \<Rightarrow> - (2 ^ 63))"

subsection \<open>Orphan sweeps\<close>

text \<open>The loop over what was listed: each is judged, an orphan is removed, the first error ends it.\<close>

fun sweep_each :: "('i \<Rightarrow> 'w cli_io \<Rightarrow> (bytes + bool) \<times> 'w cli_io) \<Rightarrow> ('i \<Rightarrow> 'w cli_io \<Rightarrow> bytes option \<times> 'w cli_io) \<Rightarrow>
    ('i \<Rightarrow> bytes) \<Rightarrow> 'i list \<Rightarrow> bytes list \<Rightarrow> 'w cli_io \<Rightarrow> (bytes list \<times> bytes option) \<times> 'w cli_io" where
  "sweep_each orphan remove ident [] removed io = ((removed, None), io)"
| "sweep_each orphan remove ident (i # is) removed io =
    (case orphan i io of
       (Inl e, io) \<Rightarrow> ((removed, Some e), io)
     | (Inr b, io) \<Rightarrow>
       if \<not> b then sweep_each orphan remove ident is removed io
       else (case remove i io of
          (Some e, io) \<Rightarrow> ((removed, Some (''sweep orphan '' @ ident i @ '': '' @ e)), io)
        | (None, io) \<Rightarrow> sweep_each orphan remove ident is (removed @ [ident i]) io))"

text \<open>
  The contract of a sweep: judging removes nothing, removing touches only what it was asked for, a verdict has
  its reason. \<open>target\<close> reads what a command removes.
\<close>

locale sweeper =
  fixes orphan :: "'i \<Rightarrow> 'w cli_io \<Rightarrow> (bytes + bool) \<times> 'w cli_io"
    and remove :: "'i \<Rightarrow> 'w cli_io \<Rightarrow> bytes option \<times> 'w cli_io"
    and ident :: "'i \<Rightarrow> bytes"
    and target :: "cli_call \<Rightarrow> bytes option"
    and unowned :: "'i \<Rightarrow> bool"
  assumes judging: "orphan i io = (r, io') \<Longrightarrow> \<exists>cs. cw_calls io' = cw_calls io @ cs \<and> list_all (\<lambda>c. target c = None) cs"
    and removing: "remove i io = (e, io') \<Longrightarrow> \<exists>cs. cw_calls io' = cw_calls io @ cs \<and> list_all (\<lambda>c. target c \<in> {None, Some (ident i)}) cs"
    and verdict: "orphan i io = (Inr True, io') \<Longrightarrow> unowned i"
begin

definition spares :: "'i set \<Rightarrow> cli_call list \<Rightarrow> bool" where
  "spares S cs \<longleftrightarrow> (\<forall>c \<in> set cs. \<forall>k. target c = Some k \<longrightarrow> (\<exists>i \<in> S. ident i = k \<and> unowned i))"

lemma spares_none: "list_all (\<lambda>c. target c = None) cs \<Longrightarrow> spares S cs"
  by (auto simp: spares_def list_all_iff)

lemma spares_append: "spares S (cs @ ds) \<longleftrightarrow> spares S cs \<and> spares S ds"
  by (auto simp: spares_def)

lemma spares_mono: "spares S cs \<Longrightarrow> S \<subseteq> T \<Longrightarrow> spares T cs"
  by (fastforce simp: spares_def)

lemma sweep_spares:
  "sweep_each orphan remove ident is removed io = ((removed', e), io') \<Longrightarrow>
    (\<exists>cs. cw_calls io' = cw_calls io @ cs \<and> spares (set is) cs) \<and> set removed' \<subseteq> set removed \<union> ident ` {i \<in> set is. unowned i}"
proof (induction "is" arbitrary: removed io)
  case (Cons i "is")
  obtain b io1 where b: "orphan i io = (b, io1)" by fastforce
  from judging [OF b] obtain cs1 where c1: "cw_calls io1 = cw_calls io @ cs1" "spares (set (i # is)) cs1"
    by (blast intro: spares_none)
  have sub: "set is \<subseteq> set (i # is)" by auto
  consider (err) x where "b = Inl x" | (kept) "b = Inr False" | (gone) "b = Inr True" by (cases b) auto
  then show ?case
  proof cases
    case kept
    with Cons.prems b have "sweep_each orphan remove ident is removed io1 = ((removed', e), io')" by simp
    from Cons.IH [OF this] c1 sub show ?thesis by (fastforce simp: spares_append intro: spares_mono)
  next
    case gone
    with verdict b have u: "unowned i" by blast
    obtain x io2 where x: "remove i io1 = (x, io2)" by fastforce
    from removing [OF x] obtain cs2 where cs2: "cw_calls io2 = cw_calls io1 @ cs2" "list_all (\<lambda>c. target c \<in> {None, Some (ident i)}) cs2" by blast
    with u c1 have c2: "cw_calls io2 = cw_calls io @ cs1 @ cs2" "spares (set (i # is)) (cs1 @ cs2)"
      by (auto simp: spares_append) (auto simp: spares_def list_all_iff)
    show ?thesis
    proof (cases x)
      case None
      with Cons.prems b x gone have "sweep_each orphan remove ident is (removed @ [ident i]) io2 = ((removed', e), io')" by simp
      from Cons.IH [OF this] obtain cs3 where "cw_calls io' = cw_calls io2 @ cs3" "spares (set is) cs3"
        "set removed' \<subseteq> set (removed @ [ident i]) \<union> ident ` {i \<in> set is. unowned i}" by blast
      with c2 sub u show ?thesis by (fastforce simp: spares_append intro: spares_mono)
    next
      case (Some y)
      with Cons.prems b x gone c2 show ?thesis by auto
    qed
  next
    case err
    with Cons.prems b c1 show ?thesis by auto
  qed
qed (simp add: spares_def)

lemma sweep_removes_unowned:
  assumes "sweep_each orphan remove ident is [] io = ((removed, e), io')"
  shows "\<exists>cs. cw_calls io' = cw_calls io @ cs \<and>
    (\<forall>c \<in> set cs. \<forall>k. target c = Some k \<longrightarrow> k \<in> ident ` {i \<in> set is. unowned i}) \<and> set removed \<subseteq> ident ` {i \<in> set is. unowned i}"
  using sweep_spares [OF assms] by (fastforce simp: spares_def)

end

subsection \<open>What the prelude carries\<close>

text \<open>
  The prelude's script as a POSIX shell runs it. The shell's own arithmetic is a parameter: what \<^verbatim>\<open>[ "$n" -gt 0 ]\<close> and
  \<^verbatim>\<open>$((n-1))\<close> do with any text, and which names the shell gives a meaning of its own. Variables and the names that are exported are the state, and the
  script's counter \<^verbatim>\<open>n\<close> and its line \<^verbatim>\<open>probavi_env\<close> are variables among the others. \<open>None\<close> is what is left to the shell: a special name,
  a line that assigns nothing, a zero byte, arithmetic on a text that is no number.
\<close>

record shell =
  sh_positive :: "bytes \<Rightarrow> bool"
  sh_less_one :: "bytes \<Rightarrow> bytes option"
  sh_special :: "bytes \<Rightarrow> bool"

text \<open>Either the script exits, or the command is executed with an environment and the rest of the input.\<close>

datatype prelude_end = PreludeExits nat | PreludeExecs "bytes \<rightharpoonup> bytes" bytes

definition counter :: bytes where "counter = ''n''"
definition prelude_line :: bytes where "prelude_line = ''probavi_env''"

definition shell_var :: "(bytes \<rightharpoonup> bytes) \<Rightarrow> bytes \<Rightarrow> bytes" where
  "shell_var vars k = (case vars k of None \<Rightarrow> [] | Some v \<Rightarrow> v)"

lemma cut_shorter: "cut sep s = (a, b, True) \<Longrightarrow> length b < length s"
  by (auto dest: cut_found)

function prelude_loop :: "shell \<Rightarrow> (bytes \<rightharpoonup> bytes) \<Rightarrow> bytes list \<Rightarrow> bytes \<Rightarrow> prelude_end option" where
  "prelude_loop sh vars exported stdin =
    (if \<not> sh_positive sh (shell_var vars counter)
     then Some (PreludeExecs (\<lambda>k. if k \<in> set exported \<and> k \<noteq> prelude_line then vars k else None) stdin)
     else (case cut newline stdin of (line, rest, found) \<Rightarrow>
       if \<not> found then Some (PreludeExits 125)
       else (case cut (CHR ''='') line of (k, v, assigned) \<Rightarrow>
         if \<not> assigned \<or> \<not> valid_env_name k \<or> sh_special sh k \<or> CHR 0x00 \<in> set line then None
         else let vars' = vars(prelude_line \<mapsto> line, k \<mapsto> v)
           in (case sh_less_one sh (shell_var vars' counter) of None \<Rightarrow> None
               | Some m \<Rightarrow> prelude_loop sh (vars'(counter \<mapsto> m)) (k # exported) rest))))"
  by pat_completeness auto
termination
  by (relation "measure (\<lambda>(sh, vars, exported, stdin). length stdin)") (auto dest!: cut_shorter [OF sym])

declare prelude_loop.simps [simp del]

text \<open>\<^verbatim>\<open>sh -c\<close> of the script, in a process that inherited an environment.\<close>

definition run_prelude :: "shell \<Rightarrow> (bytes \<times> bytes) list \<Rightarrow> bytes \<Rightarrow> bytes \<Rightarrow> prelude_end option" where
  "run_prelude sh inherited script stdin =
    (case cut (CHR '';'') script of (assign, program, found) \<Rightarrow>
       if found \<and> prefix (counter @ ''='') assign \<and> program = prelude_program
       then prelude_loop sh ((map_of inherited)(counter \<mapsto> drop (length counter + 1) assign)) (map fst inherited) stdin
       else None)"

text \<open>What every shell does with the numbers the script itself writes.\<close>

definition shell_ok :: "shell \<Rightarrow> bool" where
  "shell_ok sh \<longleftrightarrow> (\<forall>k. sh_positive sh (show_nat k) = (k > 0)) \<and> (\<forall>k. sh_less_one sh (show_nat (Suc k)) = Some (show_nat k))"

definition carried_env :: "shell \<Rightarrow> (bytes \<times> bytes) list \<Rightarrow> bool" where
  "carried_env sh m \<longleftrightarrow> (\<forall>(k, v) \<in> set m. k \<noteq> counter \<and> k \<noteq> prelude_line \<and> \<not> sh_special sh k \<and> CHR 0x00 \<notin> set v)"

lemma env_name_plain: "valid_env_name n \<Longrightarrow> newline \<notin> set n \<and> CHR ''='' \<notin> set n \<and> CHR 0x00 \<notin> set n"
  by (cases n) (auto simp: valid_env_name_def env_start_def is_digit_def list_all_iff)

lemma run_prelude_script:
  "run_prelude sh inherited (env_prelude_script n) stdin =
    prelude_loop sh ((map_of inherited)(counter \<mapsto> show_nat n)) (map fst inherited) stdin"
proof -
  have "CHR '';'' \<notin> set (show_nat n)" using show_nat_digits [of n] by (auto simp: list_all_iff is_digit_def)
  then have "cut (CHR '';'') (env_prelude_script n) = (''n='' @ show_nat n, prelude_program, True)"
    using cut_notin [of "CHR '';''" "''n='' @ show_nat n" prelude_program] by (simp add: env_prelude_script_def)
  then show ?thesis by (simp add: run_prelude_def counter_def)
qed

text \<open>One line of the block, whatever its name and the counter are.\<close>

lemma prelude_step:
  assumes "sh_positive sh (shell_var vars counter)" "valid_env_name k" "newline \<notin> set v" "CHR 0x00 \<notin> set v" "\<not> sh_special sh k"
    and "sh_less_one sh (shell_var (vars(prelude_line \<mapsto> k @ CHR ''='' # v, k \<mapsto> v)) counter) = Some m"
  shows "prelude_loop sh vars exported (k @ CHR ''='' # v @ newline # rest) =
    prelude_loop sh (vars(prelude_line \<mapsto> k @ CHR ''='' # v, k \<mapsto> v, counter \<mapsto> m)) (k # exported) rest"
proof -
  note k = env_name_plain [OF assms(2)]
  have "cut newline ((k @ CHR ''='' # v) @ newline # rest) = (k @ CHR ''='' # v, rest, True)"
    using k assms(3) by (intro cut_notin) auto
  moreover have "cut (CHR ''='') (k @ CHR ''='' # v) = (k, v, True)" using k by (intro cut_notin) simp
  ultimately show ?thesis
    using assms k by (subst prelude_loop.simps) (simp add: Let_def)
qed

lemma foldl_upd_same:
  "f x = g x \<Longrightarrow> foldl (\<lambda>f (k, v). f(k \<mapsto> v)) f m x = foldl (\<lambda>f (k, v). f(k \<mapsto> v)) g m x"
proof (induction m arbitrary: f g)
  case (Cons p m)
  obtain k v where p: "p = (k, v)" by fastforce
  have "(f(k \<mapsto> v)) x = (g(k \<mapsto> v)) x" using Cons.prems by simp
  from Cons.IH [where f = "f(k \<mapsto> v)" and g = "g(k \<mapsto> v)", OF this] show ?case by (simp only: p foldl_Cons prod.case)
qed simp

lemma prelude_loop_carries:
  "prelude_lines pr m = Inr t \<Longrightarrow> shell_ok sh \<Longrightarrow> carried_env sh m \<Longrightarrow> vars counter = Some (show_nat (length m)) \<Longrightarrow>
    \<exists>e. prelude_loop sh vars exported (t @ s) = Some (PreludeExecs e s) \<and>
      (\<forall>x. x \<noteq> counter \<longrightarrow> x \<noteq> prelude_line \<longrightarrow>
        e x = (if x \<in> set exported \<union> fst ` set m then foldl (\<lambda>f (k, v). f(k \<mapsto> v)) vars m x else None))"
proof (induction m arbitrary: t vars exported)
  case Nil
  then have "\<not> sh_positive sh (shell_var vars counter)" by (simp add: shell_ok_def shell_var_def)
  with Nil(1) show ?case by (subst prelude_loop.simps) simp
next
  case (Cons p m)
  obtain k v where p: "p = (k, v)" by fastforce
  with Cons.prems(1) obtain u where u: "prelude_lines pr m = Inr u" "t = k @ CHR ''='' # v @ newline # u"
    and ok: "valid_env_name k" "newline \<notin> set v" by (auto simp: map_sum_Inr split: if_splits)
  have c: "k \<noteq> counter" "k \<noteq> prelude_line" "\<not> sh_special sh k" "CHR 0x00 \<notin> set v" "carried_env sh m"
    using Cons.prems(3) by (auto simp: carried_env_def p)
  have d: "counter \<noteq> prelude_line" by (simp add: counter_def prelude_line_def)
  let ?vars = "vars(prelude_line \<mapsto> k @ CHR ''='' # v, k \<mapsto> v, counter \<mapsto> show_nat (length m))"
  have pos: "sh_positive sh (shell_var vars counter)" using Cons.prems(2,4) by (simp add: shell_ok_def shell_var_def p)
  have "shell_var (vars(prelude_line \<mapsto> k @ CHR ''='' # v, k \<mapsto> v)) counter = show_nat (Suc (length m))"
    using c(1) d Cons.prems(4) by (simp add: shell_var_def p)
  then have less: "sh_less_one sh (shell_var (vars(prelude_line \<mapsto> k @ CHR ''='' # v, k \<mapsto> v)) counter) = Some (show_nat (length m))"
    using Cons.prems(2) by (simp add: shell_ok_def)
  have step: "prelude_loop sh vars exported (t @ s) = prelude_loop sh ?vars (k # exported) (u @ s)"
    using prelude_step [OF pos ok c(4,3) less, of exported "u @ s"] u(2) by simp
  from Cons.IH [of u ?vars "k # exported", OF u(1) Cons.prems(2) c(5) fun_upd_same] obtain e where
    e: "prelude_loop sh ?vars (k # exported) (u @ s) = Some (PreludeExecs e s)"
    "\<And>x. x \<noteq> counter \<Longrightarrow> x \<noteq> prelude_line \<Longrightarrow>
      e x = (if x \<in> set (k # exported) \<union> fst ` set m then foldl (\<lambda>f (k, v). f(k \<mapsto> v)) ?vars m x else None)" by blast
  have "foldl (\<lambda>f (k, v). f(k \<mapsto> v)) ?vars m x = foldl (\<lambda>f (k, v). f(k \<mapsto> v)) (vars(k \<mapsto> v)) m x"
    if "x \<noteq> counter" "x \<noteq> prelude_line" for x by (rule foldl_upd_same) (use that in simp)
  with e step show ?case by (intro exI [of _ e]) (auto simp: p)
qed

lemma foldl_map_upds: "distinct (map fst m) \<Longrightarrow> foldl (\<lambda>f (k, v). f(k \<mapsto> v)) f m x = (f ++ map_of m) x"
proof (induction m arbitrary: f)
  case (Cons p m)
  obtain k v where p: "p = (k, v)" by fastforce
  have "map_of m k = None" using Cons.prems by (simp add: p map_of_eq_None_iff)
  then have s: "(f(k \<mapsto> v) ++ map_of m) x = (f ++ map_of (p # m)) x" by (auto simp: p map_add_def split: option.split)
  have "foldl (\<lambda>f (k, v). f(k \<mapsto> v)) f (p # m) x = (f(k \<mapsto> v) ++ map_of m) x"
    using Cons.IH [of "f(k \<mapsto> v)"] Cons.prems by (simp add: p del: fun_upd_apply)
  with s show ?case by (simp only:)
qed simp

lemma map_of_sorted_entries: "distinct (map fst m) \<Longrightarrow> map_of (sorted_entries m) = map_of m \<and> distinct (map fst (sorted_entries m))"
proof -
  assume d: "distinct (map fst m)"
  have "mset (map fst (sorted_entries m)) = mset (map fst m)" by (simp add: sorted_entries_def)
  with d have "distinct (map fst (sorted_entries m))" by (metis mset_eq_imp_distinct_iff)
  moreover from this d have "map_of (sorted_entries m) = map_of m" by (intro map_of_eqI) (auto simp: sorted_entries_def)
  ultimately show ?thesis by simp
qed


text \<open>A shell that counts, for the concrete cases.\<close>

definition plain_shell :: shell where
  "plain_shell = \<lparr> sh_positive = (\<lambda>v. digits_val v > 0), sh_less_one = (\<lambda>v. Some (show_nat (digits_val v - 1))), sh_special = (\<lambda>k. False) \<rparr>"

lemma plain_shell_ok: "shell_ok plain_shell"
  by (simp add: shell_ok_def plain_shell_def)


text \<open>
  The exclusion of \<^verbatim>\<open>n\<close> is needed. The name is accepted, and the value takes the place of the script's counter: with the
  value 2, the script takes one more line than it was sent, the first of the command's own input, and makes it a variable.
\<close>

theorem counter_overwritten:
  assumes "shell_ok sh" "\<not> sh_special sh ''n''" "\<not> sh_special sh ''A''"
  shows "\<exists>block e. env_prelude_lines pr [(''n'', ''2'')] = Inr block \<and>
    run_prelude sh [] (env_prelude_script 1) (block @ ''A=1'' @ [newline]) = Some (PreludeExecs e []) \<and> e ''A'' = Some ''1''"
proof -
  have n: "valid_env_name ''n''" "valid_env_name ''A''" by (simp_all add: valid_env_name_def env_start_def)
  have s: "show_nat 0 = ''0''" "show_nat 1 = ''1''" "show_nat 2 = ''2''" by code_simp+
  have p: "sh_positive sh ''1''" "\<not> sh_positive sh ''0''" "sh_less_one sh ''2'' = Some ''1''" "sh_less_one sh ''1'' = Some ''0''"
    using assms(1) s unfolding shell_ok_def by (metis less_numeral_extra(1), metis less_irrefl, metis numeral_2_eq_2 One_nat_def, metis One_nat_def)
  have b: "env_prelude_lines pr [(''n'', ''2'')] = Inr (''n'' @ CHR ''='' # ''2'' @ newline # [])"
    using n by (simp add: env_prelude_lines_def sorted_entries_def)
  let ?v1 = "Map.empty(counter \<mapsto> ''1'', prelude_line \<mapsto> ''n'' @ CHR ''='' # ''2'', ''n'' \<mapsto> ''2'', counter \<mapsto> ''1'')"
  have "prelude_loop sh (Map.empty(counter \<mapsto> ''1'')) [] (''n'' @ CHR ''='' # ''2'' @ newline # ''A'' @ CHR ''='' # ''1'' @ newline # []) =
      prelude_loop sh ?v1 [''n''] (''A'' @ CHR ''='' # ''1'' @ newline # [])"
    using n p assms(2) by (intro prelude_step) (simp_all add: shell_var_def counter_def prelude_line_def)
  also have "\<dots> = prelude_loop sh (?v1(prelude_line \<mapsto> ''A'' @ CHR ''='' # ''1'', ''A'' \<mapsto> ''1'', counter \<mapsto> ''0'')) [''A'', ''n''] []"
    using n p assms(3) by (intro prelude_step) (simp_all add: shell_var_def counter_def prelude_line_def)
  finally have l: "prelude_loop sh (Map.empty(counter \<mapsto> ''1'')) [] (''n=2'' @ newline # ''A=1'' @ [newline]) =
      prelude_loop sh (?v1(prelude_line \<mapsto> ''A'' @ CHR ''='' # ''1'', ''A'' \<mapsto> ''1'', counter \<mapsto> ''0'')) [''A'', ''n''] []" by simp
  have "\<exists>e. prelude_loop sh (?v1(prelude_line \<mapsto> ''A'' @ CHR ''='' # ''1'', ''A'' \<mapsto> ''1'', counter \<mapsto> ''0'')) [''A'', ''n''] [] =
      Some (PreludeExecs e []) \<and> e ''A'' = Some ''1''"
    using p by (subst prelude_loop.simps) (simp add: shell_var_def counter_def prelude_line_def)
  then have "\<exists>e. prelude_loop sh (Map.empty(counter \<mapsto> ''1'')) [] (''n=2'' @ newline # ''A=1'' @ [newline]) = Some (PreludeExecs e []) \<and> e ''A'' = Some ''1''"
    unfolding l .
  with b s(2) show ?thesis by (simp add: run_prelude_script)
qed

end
