(* ===== verification/SandboxDocker.thy ===== *)
theory SandboxDocker
  imports SandboxBase
begin

text \<open>
  \<^verbatim>\<open>internal/sandbox/docker/docker.go\<close>: the provider that drives the docker command line. The wait for a
  running container has fuel: \<open>None\<close> is a wait that neither the container nor the context has ended.
  The properties: what a sweep removes, what a command line can carry, and what run arguments look like.
\<close>

definition docker_params :: descriptor where
  "docker_params = \<lparr> ds_id = ''docker'', ds_params =
    [\<lparr> pm_name = ''image'', pm_family = False, pm_required = True, pm_default = [] \<rparr>,
     \<lparr> pm_name = ''network'', pm_family = False, pm_required = False, pm_default = ''none'' \<rparr>,
     \<lparr> pm_name = ''memory'', pm_family = False, pm_required = False, pm_default = [] \<rparr>,
     \<lparr> pm_name = ''cpus'', pm_family = False, pm_required = False, pm_default = [] \<rparr>,
     \<lparr> pm_name = ''command'', pm_family = False, pm_required = False, pm_default = [] \<rparr>,
     \<lparr> pm_name = ''env.'', pm_family = True, pm_required = False, pm_default = [] \<rparr>] \<rparr>"

definition label_sandbox :: bytes where "label_sandbox = ''com.probavi.sandbox''"
definition label_pid :: bytes where "label_pid = ''com.probavi.pid''"
definition label_host :: bytes where "label_host = ''com.probavi.host''"

definition docker_call :: "cli_stdin \<Rightarrow> bytes list \<Rightarrow> bytes list \<Rightarrow> cli_call" where
  "docker_call stdin env args = \<lparr> cl_stdin = stdin, cl_env = env, cl_bin = ''docker'', cl_args = args \<rparr>"

subsection \<open>Creating\<close>

fun docker_options :: "(nat \<Rightarrow> bool) \<Rightarrow> descriptor \<Rightarrow> (bytes \<times> bytes) list \<Rightarrow> bytes + bytes list" where
  "docker_options pr d [] = Inr []"
| "docker_options pr d ((k, v) # ps) =
    (case lookup_param d k of
       None \<Rightarrow> Inl (unknown_param_error pr d k)
     | Some spec \<Rightarrow>
       andthen
         (if pm_name spec \<in> {''image'', ''network'', ''command''} then Inr []
          else if pm_name spec = ''memory'' then Inr [''--memory'', v]
          else if pm_name spec = ''cpus'' then Inr [''--cpus'', v]
          else if pm_name spec = ''env.'' then
            (let name = (if prefix ''env.'' k then drop 4 k else k) in
             if \<not> valid_env_name name then Inl (invalid_params (go_quote pr name @ '' is not a valid environment variable name''))
             else Inr [''-e'', name @ CHR ''='' # v])
          else Inl (unhandled_param_error pr d k))
         (\<lambda>args. map_sum (\<lambda>e. e) ((@) args) (docker_options pr d ps)))"

definition docker_run_args :: "(nat \<Rightarrow> bool) \<Rightarrow> bytes \<Rightarrow> bytes \<Rightarrow> descriptor \<Rightarrow> bytes \<Rightarrow> (bytes \<times> bytes) list \<Rightarrow> bytes + bytes list" where
  "docker_run_args pr owner host d rnd ps =
    (if param_value ps ''image'' = [] then Inl (invalid_params (CHR 0x22 # ''image'' @ CHR 0x22 # '' is required for the docker provider''))
     else let network = (case map_of ps ''network'' of None \<Rightarrow> ''none'' | Some n \<Rightarrow> n) in
       map_sum (\<lambda>e. e) (\<lambda>opts.
         [''run'', ''-d'', ''--name'', ''probavi-sbx-'' @ rnd, ''--label'', label_sandbox @ ''=1'',
          ''--label'', label_pid @ CHR ''='' # owner, ''--label'', label_host @ CHR ''='' # host, ''--network'', network] @
         opts @ [param_value ps ''image''] @ text_fields (param_value ps ''command''))
       (docker_options pr d (sorted_entries ps)))"

definition already_gone :: "bytes \<Rightarrow> bytes \<Rightarrow> bool" where
  "already_gone stderr what \<longleftrightarrow> sublist (''no such '' @ what) (to_lower stderr)"

definition docker_remove :: "'w cli_host \<Rightarrow> bytes \<Rightarrow> 'w cli_io \<Rightarrow> bytes option \<times> 'w cli_io" where
  "docker_remove h i io =
    (case cli_run h (docker_call NoStdin [] [''rm'', ''-f'', ''-v'', i]) io of
       (CliFailed e, io) \<Rightarrow> (Some e, io)
     | (CliRan out err truncated n, io) \<Rightarrow>
       if n \<noteq> 0 \<and> \<not> already_gone err ''container'' then (Some (exited ''docker rm'' n err), io) else (None, io))"

definition docker_destroy :: "'w cli_host \<Rightarrow> bytes \<Rightarrow> 'w cli_io \<Rightarrow> bytes option \<times> 'w cli_io" where
  "docker_destroy h i io = (case docker_remove h i io of (e, io) \<Rightarrow> (map_option (\<lambda>e. ''destroy sandbox: '' @ e) e, io))"

text \<open>The wait: \<open>Some None\<close> is a running container, \<open>Some (Some e)\<close> gives up with \<open>e\<close>.\<close>

fun docker_await :: "nat \<Rightarrow> 'w cli_host \<Rightarrow> bytes \<Rightarrow> 'w cli_io \<Rightarrow> bytes option option \<times> 'w cli_io" where
  "docker_await 0 h i io = (None, io)"
| "docker_await (Suc n) h i io =
    (case cli_run h (docker_call NoStdin [] [''inspect'', ''-f'', ''{{.State.Running}}'', i]) io of
       (CliFailed e, io) \<Rightarrow> (Some (Some (''await sandbox '' @ i @ '': '' @ e)), io)
     | (CliRan out err truncated x, io) \<Rightarrow>
       if x = 0 \<and> trim_space out = ''true'' then (Some None, io)
       else (case cli_wait h io of
          (Some e, io) \<Rightarrow> (Some (Some (''sandbox '' @ i @ '' never reached running state: '' @ e)), io)
        | (None, io) \<Rightarrow> docker_await n h i io))"

definition docker_create :: "nat \<Rightarrow> 'w cli_host \<Rightarrow> provider \<Rightarrow> (bytes \<times> bytes) list \<Rightarrow> 'w cli_io \<Rightarrow>
    (bytes + bytes) option \<times> 'w cli_io" where
  "docker_create fuel h p ps io =
    (let (rnd, io) = random_suffix h (pv_pid p) io; owner = owner_id (cv_kernel h (cw_world io)) (pv_pid p) in
     case docker_run_args (cv_printable h) owner (pv_host p) docker_params rnd ps of
       Inl e \<Rightarrow> (Some (Inl e), io)
     | Inr args \<Rightarrow>
       (case cli_run h (docker_call NoStdin [] args) io of
          (CliFailed e, io) \<Rightarrow> (Some (Inl (''create sandbox: '' @ e)), io)
        | (CliRan out err truncated n, io) \<Rightarrow>
          if n \<noteq> 0 then (Some (Inl (''create sandbox: '' @ exited ''docker run'' n err)), io)
          else let i = trim_space out in
            (case docker_await fuel h i io of
               (None, io) \<Rightarrow> (None, io)
             | (Some None, io) \<Rightarrow> (Some (Inr i), io)
             | (Some (Some e), io) \<Rightarrow> (case docker_destroy h i io of (derr, io) \<Rightarrow> (Some (Inl e), io)))))"

subsection \<open>Sweeping\<close>

definition docker_label_format :: bytes where
  "docker_label_format = ''{{ index .Config.Labels '' @ CHR 0x22 # label_host @ CHR 0x22 # '' }}|{{ index .Config.Labels '' @ CHR 0x22 #
     label_pid @ CHR 0x22 # '' }}''"

text \<open>The verdict on what inspect wrote.\<close>

definition docker_labels_orphaned :: "provider \<Rightarrow> (bytes \<Rightarrow> bool) \<Rightarrow> bytes \<Rightarrow> bool" where
  "docker_labels_orphaned p alive out =
    (case cut (CHR ''|'') (trim_space out) of (host, owner, found) \<Rightarrow>
       if \<not> found then True else if host \<noteq> [] \<and> host \<noteq> pv_host p then False else \<not> alive owner)"

definition docker_is_orphan :: "'w cli_host \<Rightarrow> provider \<Rightarrow> bytes \<Rightarrow> 'w cli_io \<Rightarrow> (bytes + bool) \<times> 'w cli_io" where
  "docker_is_orphan h p i io =
    (case cli_run h (docker_call NoStdin [] [''inspect'', ''-f'', docker_label_format, i]) io of
       (CliFailed e, io) \<Rightarrow> (Inl (''inspect '' @ i @ '': '' @ e), io)
     | (CliRan out err truncated n, io) \<Rightarrow>
       if n \<noteq> 0 then
         (if already_gone err ''object'' then (Inr False, io)
          else (Inl (''inspect '' @ i @ '': '' @ exited ''docker inspect'' n err), io))
       else (Inr (docker_labels_orphaned p (owner_alive (cv_kernel h (cw_world io))) out), io))"

definition docker_sweep :: "'w cli_host \<Rightarrow> provider \<Rightarrow> 'w cli_io \<Rightarrow> (bytes list \<times> bytes option) \<times> 'w cli_io" where
  "docker_sweep h p io =
    (case cli_run h (docker_call NoStdin [] [''ps'', ''-aq'', ''--filter'', ''label='' @ label_sandbox @ ''=1'']) io of
       (CliFailed e, io) \<Rightarrow> (([], Some (''list sandbox containers: '' @ e)), io)
     | (CliRan out err truncated n, io) \<Rightarrow>
       if n \<noteq> 0 then (([], Some (''list sandbox containers: '' @ exited ''docker ps'' n err)), io)
       else sweep_each (docker_is_orphan h p) (docker_remove h) (\<lambda>i. i) (text_fields out) [] io)"

subsection \<open>The verbs\<close>

definition docker_exec_args :: "bytes \<Rightarrow> exec_call \<Rightarrow> bytes list" where
  "docker_exec_args i x =
    [''exec''] @ (if ex_stdin x \<noteq> [] then [''-i''] else []) @ concat (map (\<lambda>(k, v). [''-e'', k]) (sorted_entries (ex_env x))) @ [i] @ ex_argv x"

definition docker_exec :: "'w cli_host \<Rightarrow> bytes \<Rightarrow> exec_call \<Rightarrow> 'w cli_io \<Rightarrow> (bytes + timed_result) \<times> 'w cli_io" where
  "docker_exec h i x io =
    (let env = map (\<lambda>(k, v). k @ CHR ''='' # v) (sorted_entries (ex_env x)) in
     case cli_run h (docker_call (TextStdin (ex_stdin x)) env (docker_exec_args i x)) io of
       (CliFailed e, io) \<Rightarrow> (Inl (''exec in sandbox '' @ i @ '': '' @ e), io)
     | (CliRan out err truncated n, io) \<Rightarrow>
       (Inr \<lparr> tr_result = \<lparr> xr_exit = n, xr_stdout = out, xr_stderr = err, xr_truncated = truncated \<rparr>, tr_duration = cv_elapsed h (cw_world io) \<rparr>, io))"

definition owner_pattern :: "bytes \<Rightarrow> bool" where
  "owner_pattern s = (case cut (CHR '':'') s of (u, g, found) \<Rightarrow>
     found \<and> u \<noteq> [] \<and> g \<noteq> [] \<and> list_all is_digit u \<and> list_all is_digit g)"

definition identity_script :: bytes where
  "identity_script = ''echo '' @ CHR 0x22 # ''$(id -u):$(id -g)'' @ [CHR 0x22]"

definition ownership_script :: bytes where
  "ownership_script = ''chown -R -- '' @ CHR 0x22 # ''$1'' @ CHR 0x22 # '' '' @ CHR 0x22 # ''$2'' @ CHR 0x22 # '' && chmod -- '' @
     CHR 0x22 # ''$3'' @ CHR 0x22 # '' '' @ CHR 0x22 # ''$2'' @ [CHR 0x22]"

definition docker_put_file :: "'w cli_host \<Rightarrow> bytes \<Rightarrow> bytes \<Rightarrow> bytes \<Rightarrow> bytes \<Rightarrow> 'w cli_io \<Rightarrow> (bytes + int \<times> int) \<times> 'w cli_io" where
  "docker_put_file h i source dest mode0 io =
    (let mode = effective_mode mode0; inside = '' in sandbox '' @ i in
     if \<not> octal_mode mode then (Inl (invalid_params (''mode '' @ go_quote (cv_printable h) mode @ '' is not octal'')), io)
     else (case cv_stat h source (cw_world io) of
       Inl e \<Rightarrow> (Inl (''put_file source: '' @ e), io)
     | Inr nbytes \<Rightarrow>
       (case cli_run h (docker_call NoStdin [] [''cp'', source, i @ CHR '':'' # dest]) io of
          (CliFailed e, io) \<Rightarrow> (Inl (''copy into sandbox '' @ i @ '': '' @ e), io)
        | (CliRan o1 e1 t1 n1, io) \<Rightarrow>
          if n1 \<noteq> 0 then (Inl (''copy into sandbox '' @ i @ '': '' @ exited ''docker cp'' n1 e1), io)
          else (case cli_run h (docker_call NoStdin [] [''exec'', i, ''sh'', ''-c'', identity_script]) io of
             (CliFailed e, io) \<Rightarrow> (Inl (''resolve exec identity'' @ inside @ '': '' @ e), io)
           | (CliRan o2 e2 t2 n2, io) \<Rightarrow>
             if n2 \<noteq> 0 then (Inl (''resolve exec identity'' @ inside @ '':'' @ exited [] n2 e2), io)
             else let owner = trim_space o2 in
               if \<not> owner_pattern owner
               then (Inl (''resolve exec identity'' @ inside @ '': unexpected id output '' @ go_quote (cv_printable h) owner), io)
               else (case cli_run h (docker_call NoStdin [] [''exec'', ''-u'', ''0'', i, ''sh'', ''-c'', ownership_script, ''sh'', owner, dest, mode]) io of
                  (CliFailed e, io) \<Rightarrow> (Inl (''apply ownership and mode'' @ inside @ '': '' @ e), io)
                | (CliRan o3 e3 t3 n3, io) \<Rightarrow>
                  if n3 \<noteq> 0 then (Inl (''apply ownership and mode'' @ inside @ '':'' @ exited [] n3 e3), io)
                  else (Inr (nbytes, cv_elapsed h (cw_world io)), io))))))"

subsection \<open>Facts\<close>

definition docker_facts_format :: bytes where
  "docker_facts_format = ''{{.Image}}|{{.HostConfig.Memory}}|{{.HostConfig.NanoCpus}}''"

definition digest_or_nil :: "bytes \<Rightarrow> bytes option" where
  "digest_or_nil s = (if sha256_ref s then Some s else None)"

definition positive_or_nil :: "bytes \<Rightarrow> int \<Rightarrow> int option" where
  "positive_or_nil s unit = (case parse_int64 (trim_space s) of None \<Rightarrow> None
     | Some n \<Rightarrow> if n \<le> 0 then None else if n div unit \<le> 0 then None else Some (n div unit))"

definition docker_facts_of :: "bytes \<Rightarrow> facts" where
  "docker_facts_of out = (case split_char (CHR ''|'') (trim_space out) of
     [img, memory, cpus] \<Rightarrow> \<lparr> fa_image_digest = digest_or_nil img, fa_memory_bytes = positive_or_nil memory 1,
        fa_cpus_milli = positive_or_nil cpus 1000000 \<rparr>
   | _ \<Rightarrow> no_facts)"

definition docker_facts :: "'w cli_host \<Rightarrow> bytes \<Rightarrow> 'w cli_io \<Rightarrow> facts \<times> 'w cli_io" where
  "docker_facts h i io =
    (case cli_run h (docker_call NoStdin [] [''inspect'', ''-f'', docker_facts_format, i]) io of
       (CliRan out err truncated n, io) \<Rightarrow> (if n = 0 then docker_facts_of out else no_facts, io)
     | (CliFailed e, io) \<Rightarrow> (no_facts, io))"

end
