(* ===== verification/SandboxK8s.thy ===== *)
theory SandboxK8s
  imports SandboxBase
begin

text \<open>
  \<^verbatim>\<open>internal/sandbox/k8s/k8s.go\<close>: the provider that drives \<^verbatim>\<open>kubectl\<close>. A sandbox is a Job with one pod. The Job object
  is the struct of the code and its form under \<^verbatim>\<open>json.Marshal\<close>; the lists \<^verbatim>\<open>kubectl\<close> answers with are decoded as
  \<^verbatim>\<open>json.Unmarshal\<close> does. The wait for a running pod has fuel: \<open>None\<close> is a wait that nothing has ended yet.
\<close>

subsection \<open>The parameters and the Job\<close>

definition k8s_params :: descriptor where
  "k8s_params = \<lparr> ds_id = ''k8s'', ds_params =
    [\<lparr> pm_name = ''image'', pm_family = False, pm_required = True, pm_default = [] \<rparr>,
     \<lparr> pm_name = ''namespace'', pm_family = False, pm_required = False, pm_default = ''default'' \<rparr>,
     \<lparr> pm_name = ''memory'', pm_family = False, pm_required = False, pm_default = [] \<rparr>,
     \<lparr> pm_name = ''cpus'', pm_family = False, pm_required = False, pm_default = [] \<rparr>,
     \<lparr> pm_name = ''command'', pm_family = False, pm_required = False, pm_default = [] \<rparr>,
     \<lparr> pm_name = ''env.'', pm_family = True, pm_required = False, pm_default = [] \<rparr>] \<rparr>"

definition k8s_label_sandbox :: bytes where "k8s_label_sandbox = ''com.probavi.sandbox''"
definition k8s_label_pid :: bytes where "k8s_label_pid = ''com.probavi.pid''"
definition k8s_label_host :: bytes where "k8s_label_host = ''com.probavi.host''"

definition active_deadline_seconds :: int where "active_deadline_seconds = 7200"
definition ttl_seconds_after_finished :: int where "ttl_seconds_after_finished = 600"
definition put_file_attempts :: nat where "put_file_attempts = 3"

record job_metadata =
  jm_name :: bytes
  jm_labels :: "(bytes \<times> bytes) list"

record resource_spec =
  rl_limits :: "(bytes \<times> bytes) list"
  rl_requests :: "(bytes \<times> bytes) list"

record job_container =
  jc_name :: bytes
  jc_image :: bytes
  jc_command :: "bytes list"
  jc_env :: "(bytes \<times> bytes) list"
  jc_resources :: "resource_spec option"

record pod_spec =
  po_restart :: bytes
  po_automount :: bool
  po_links :: bool
  po_seccomp :: bytes
  po_containers :: "job_container list"

record pod_template =
  pt_metadata :: job_metadata
  pt_spec :: pod_spec

record job_spec =
  js_backoff :: int
  js_deadline :: int
  js_ttl :: int
  js_template :: pod_template

record job_manifest =
  jf_api :: bytes
  jf_kind :: bytes
  jf_metadata :: job_metadata
  jf_spec :: job_spec

text \<open>\<^verbatim>\<open>json.Marshal\<close>: a map is written by name, an empty member marked \<^verbatim>\<open>omitempty\<close> is left out.\<close>

definition string_map_json :: "(bytes \<times> bytes) list \<Rightarrow> json" where
  "string_map_json m = JObj (map (\<lambda>(k, v). (k, JStr v)) (sorted_entries m))"

definition metadata_json :: "job_metadata \<Rightarrow> json" where
  "metadata_json m = JObj
    ((if jm_name m = [] then [] else [(''name'', JStr (jm_name m))]) @
     (if jm_labels m = [] then [] else [(''labels'', string_map_json (jm_labels m))]))"

definition resource_json :: "resource_spec \<Rightarrow> json" where
  "resource_json r = JObj
    ((if rl_limits r = [] then [] else [(''limits'', string_map_json (rl_limits r))]) @
     (if rl_requests r = [] then [] else [(''requests'', string_map_json (rl_requests r))]))"

definition container_json :: "job_container \<Rightarrow> json" where
  "container_json c = JObj
    ([(''name'', JStr (jc_name c)), (''image'', JStr (jc_image c))] @
     (if jc_command c = [] then [] else [(''command'', JArr (map JStr (jc_command c)))]) @
     (if jc_env c = [] then [] else [(''env'', JArr (map (\<lambda>(n, v). JObj [(''name'', JStr n), (''value'', JStr v)]) (jc_env c)))]) @
     (case jc_resources c of None \<Rightarrow> [] | Some r \<Rightarrow> [(''resources'', resource_json r)]))"

definition pod_spec_json :: "pod_spec \<Rightarrow> json" where
  "pod_spec_json p = JObj
    [(''restartPolicy'', JStr (po_restart p)), (''automountServiceAccountToken'', JBool (po_automount p)),
     (''enableServiceLinks'', JBool (po_links p)),
     (''securityContext'', JObj [(''seccompProfile'', JObj [(''type'', JStr (po_seccomp p))])]),
     (''containers'', JArr (map container_json (po_containers p)))]"

definition job_json :: "job_manifest \<Rightarrow> json" where
  "job_json m = JObj
    [(''apiVersion'', JStr (jf_api m)), (''kind'', JStr (jf_kind m)), (''metadata'', metadata_json (jf_metadata m)),
     (''spec'', JObj
       [(''backoffLimit'', JNum (show_int (js_backoff (jf_spec m)))),
        (''activeDeadlineSeconds'', JNum (show_int (js_deadline (jf_spec m)))),
        (''ttlSecondsAfterFinished'', JNum (show_int (js_ttl (jf_spec m)))),
        (''template'', JObj [(''metadata'', metadata_json (pt_metadata (js_template (jf_spec m)))),
           (''spec'', pod_spec_json (pt_spec (js_template (jf_spec m))))])])]"

text \<open>One parameter, in the order of the names: the limits so far and the environment so far.\<close>

fun k8s_options :: "(nat \<Rightarrow> bool) \<Rightarrow> descriptor \<Rightarrow> (bytes \<times> bytes) list \<Rightarrow> (bytes \<times> bytes) list \<Rightarrow> (bytes \<times> bytes) list \<Rightarrow>
    bytes + (bytes \<times> bytes) list \<times> (bytes \<times> bytes) list" where
  "k8s_options pr d [] limits env = Inr (limits, env)"
| "k8s_options pr d ((k, v) # ps) limits env =
    (case lookup_param d k of
       None \<Rightarrow> Inl (unknown_param_error pr d k)
     | Some spec \<Rightarrow>
       if pm_name spec \<in> {''image'', ''namespace'', ''command''} then k8s_options pr d ps limits env
       else if pm_name spec = ''memory'' then k8s_options pr d ps (limits @ [(''memory'', v)]) env
       else if pm_name spec = ''cpus'' then k8s_options pr d ps (limits @ [(''cpu'', v)]) env
       else if pm_name spec = ''env.'' then
         (let name = (if prefix ''env.'' k then drop 4 k else k) in
          if \<not> valid_env_name name then Inl (invalid_params (go_quote pr name @ '' is not a valid environment variable name''))
          else k8s_options pr d ps limits (env @ [(name, v)]))
       else Inl (unhandled_param_error pr d k))"

definition k8s_namespace :: "(bytes \<times> bytes) list \<Rightarrow> bytes" where
  "k8s_namespace ps = (if param_value ps ''namespace'' = [] then ''default'' else param_value ps ''namespace'')"

definition k8s_manifest :: "(nat \<Rightarrow> bool) \<Rightarrow> bytes \<Rightarrow> bytes \<Rightarrow> descriptor \<Rightarrow> bytes \<Rightarrow> (bytes \<times> bytes) list \<Rightarrow> bytes + job_manifest \<times> bytes" where
  "k8s_manifest pr owner host d rnd ps =
    (if param_value ps ''image'' = [] then Inl (invalid_params (CHR 0x22 # ''image'' @ CHR 0x22 # '' is required for the k8s provider''))
     else map_sum (\<lambda>e. e) (\<lambda>(limits, env).
       let labels = [(k8s_label_sandbox, ''1''), (k8s_label_pid, owner), (k8s_label_host, host)];
           container = \<lparr> jc_name = ''sandbox'', jc_image = param_value ps ''image'', jc_command = text_fields (param_value ps ''command''),
             jc_env = env, jc_resources = (if limits = [] then None else Some \<lparr> rl_limits = limits, rl_requests = limits \<rparr>) \<rparr>
       in (\<lparr> jf_api = ''batch/v1'', jf_kind = ''Job'',
             jf_metadata = \<lparr> jm_name = ''probavi-sbx-'' @ rnd, jm_labels = labels \<rparr>,
             jf_spec = \<lparr> js_backoff = 0, js_deadline = active_deadline_seconds, js_ttl = ttl_seconds_after_finished,
               js_template = \<lparr> pt_metadata = \<lparr> jm_name = [], jm_labels = labels \<rparr>,
                 pt_spec = \<lparr> po_restart = ''Never'', po_automount = False, po_links = False, po_seccomp = ''RuntimeDefault'',
                   po_containers = [container] \<rparr> \<rparr> \<rparr> \<rparr>, k8s_namespace ps))
       (k8s_options pr d (sorted_entries ps) [] []))"

subsection \<open>What \<^verbatim>\<open>kubectl\<close> answers\<close>

record job_item =
  ji_name :: bytes
  ji_namespace :: bytes
  ji_labels :: "(bytes \<times> bytes) list"

record pod_item =
  pq_name :: bytes
  pq_phase :: bytes
  pq_waiting :: "bytes option list"

text \<open>An array fills the slice that is there; null makes it nil.\<close>

definition set_slice :: "(json \<Rightarrow> 'r \<Rightarrow> 'r) \<Rightarrow> 'r \<Rightarrow> json \<Rightarrow> 'r list \<Rightarrow> 'r list" where
  "set_slice put zero v old = (case v of JNull \<Rightarrow> []
     | JArr vs \<Rightarrow> map (\<lambda>(i, w). put w (if i < length old then old ! i else zero)) (enumerate 0 vs)
     | _ \<Rightarrow> old)"

definition job_list_shape :: shape where
  "job_list_shape = SStruct [(''items'', SSlice (SStruct [(''metadata'',
     SStruct [(''name'', SStr), (''namespace'', SStr), (''labels'', SMap SStr)])]))]"

definition set_job_item :: "json \<Rightarrow> job_item \<Rightarrow> job_item" where
  "set_job_item = set_members [''metadata''] (\<lambda>n. set_members [''name'', ''namespace'', ''labels''] (\<lambda>f v i.
     if f = ''name'' then i\<lparr> ji_name := set_str v (ji_name i) \<rparr>
     else if f = ''namespace'' then i\<lparr> ji_namespace := set_str v (ji_namespace i) \<rparr>
     else i\<lparr> ji_labels := set_map v (ji_labels i) \<rparr>))"

definition zero_job :: job_item where
  "zero_job = \<lparr> ji_name = [], ji_namespace = [], ji_labels = [] \<rparr>"

definition unmarshal_jobs :: "bytes \<Rightarrow> job_item list option" where
  "unmarshal_jobs raw = (case unmarshal_tree raw of None \<Rightarrow> None
     | Some v \<Rightarrow> if \<not> conforms v job_list_shape then None
         else Some (set_members [''items''] (\<lambda>n. set_slice set_job_item zero_job) v []))"

definition pod_list_shape :: shape where
  "pod_list_shape = SStruct [(''items'', SSlice (SStruct
     [(''metadata'', SStruct [(''name'', SStr)]),
      (''status'', SStruct [(''phase'', SStr), (''containerStatuses'', SSlice (SStruct
         [(''state'', SStruct [(''waiting'', SStruct [(''reason'', SStr)])])]))])]))]"

text \<open>The state of a container: the reason it waits for, if it waits.\<close>

definition set_waiting :: "json \<Rightarrow> bytes option \<Rightarrow> bytes option" where
  "set_waiting = set_members [''state''] (\<lambda>n. set_members [''waiting''] (\<lambda>m w old. case w of
     JNull \<Rightarrow> None
   | JObj ms \<Rightarrow> Some (set_members [''reason''] (\<lambda>r. set_str) w (case old of None \<Rightarrow> [] | Some s \<Rightarrow> s))
   | _ \<Rightarrow> old))"

definition set_pod_item :: "json \<Rightarrow> pod_item \<Rightarrow> pod_item" where
  "set_pod_item = set_members [''metadata'', ''status''] (\<lambda>n.
     if n = ''metadata'' then set_members [''name''] (\<lambda>f v i. i\<lparr> pq_name := set_str v (pq_name i) \<rparr>)
     else set_members [''phase'', ''containerStatuses''] (\<lambda>f v i.
       if f = ''phase'' then i\<lparr> pq_phase := set_str v (pq_phase i) \<rparr>
       else i\<lparr> pq_waiting := set_slice set_waiting None v (pq_waiting i) \<rparr>))"

definition zero_pod :: pod_item where
  "zero_pod = \<lparr> pq_name = [], pq_phase = [], pq_waiting = [] \<rparr>"

definition unmarshal_pods :: "bytes \<Rightarrow> pod_item list option" where
  "unmarshal_pods raw = (case unmarshal_tree raw of None \<Rightarrow> None
     | Some v \<Rightarrow> if \<not> conforms v pod_list_shape then None
         else Some (set_members [''items''] (\<lambda>n. set_slice set_pod_item zero_pod) v []))"

subsection \<open>Creating and destroying\<close>

record k8s_sandbox =
  kb_job :: bytes
  kb_pod :: bytes
  kb_namespace :: bytes

definition k8s_id :: "k8s_sandbox \<Rightarrow> bytes" where
  "k8s_id s = kb_namespace s @ CHR ''/'' # kb_job s"

definition kubectl_call :: "cli_stdin \<Rightarrow> bytes list \<Rightarrow> cli_call" where
  "kubectl_call stdin args = \<lparr> cl_stdin = stdin, cl_env = [], cl_bin = ''kubectl'', cl_args = args \<rparr>"

definition k8s_remove :: "'w cli_host \<Rightarrow> bytes \<Rightarrow> bytes \<Rightarrow> 'w cli_io \<Rightarrow> bytes option \<times> 'w cli_io" where
  "k8s_remove h ns job io =
    (case cli_run h (kubectl_call NoStdin [''delete'', ''job'', ''-n'', ns, job, ''--cascade=foreground'', ''--ignore-not-found'']) io of
       (CliFailed e, io) \<Rightarrow> (Some e, io)
     | (CliRan out err truncated n, io) \<Rightarrow> (if n \<noteq> 0 then Some (exited ''kubectl delete'' n err) else None, io))"

definition k8s_destroy :: "'w cli_host \<Rightarrow> k8s_sandbox \<Rightarrow> 'w cli_io \<Rightarrow> bytes option \<times> 'w cli_io" where
  "k8s_destroy h s io = (case k8s_remove h (kb_namespace s) (kb_job s) io of (e, io) \<Rightarrow> (map_option (\<lambda>e. ''destroy sandbox: '' @ e) e, io))"

text \<open>Name, phase and the last reason a container waits for.\<close>

definition pod_of :: "pod_item list \<Rightarrow> bytes \<times> bytes \<times> bytes" where
  "pod_of items = (case items of [] \<Rightarrow> ([], [], [])
     | p # t \<Rightarrow> (pq_name p, pq_phase p, fold (\<lambda>r acc. case r of None \<Rightarrow> acc | Some r \<Rightarrow> r) (pq_waiting p) []))"

definition k8s_pod_status :: "'w cli_host \<Rightarrow> k8s_sandbox \<Rightarrow> 'w cli_io \<Rightarrow> (bytes + bytes \<times> bytes \<times> bytes) \<times> 'w cli_io" where
  "k8s_pod_status h s io =
    (let await = ''await sandbox '' @ k8s_id s @ '': '' in
     case cli_run h (kubectl_call NoStdin [''get'', ''pods'', ''-n'', kb_namespace s, ''-l'', ''job-name='' @ kb_job s, ''-o'', ''json'']) io of
       (CliFailed e, io) \<Rightarrow> (Inl (await @ e), io)
     | (CliRan out err truncated n, io) \<Rightarrow>
       if n \<noteq> 0 then (Inl (await @ exited ''kubectl get pods'' n err), io)
       else (case unmarshal_pods out of
          None \<Rightarrow> (Inl (await @ ''parse pod list: '' @ cv_json_error h out), io)
        | Some items \<Rightarrow> (Inr (pod_of items), io)))"

text \<open>The wait: \<open>Inr\<close> is the name of the running pod, \<open>Inl\<close> the error that ends it.\<close>

fun k8s_await :: "nat \<Rightarrow> 'w cli_host \<Rightarrow> k8s_sandbox \<Rightarrow> bytes \<Rightarrow> 'w cli_io \<Rightarrow> (bytes + bytes) option \<times> 'w cli_io" where
  "k8s_await 0 h s recent io = (None, io)"
| "k8s_await (Suc fuel) h s recent io =
    (case k8s_pod_status h s io of
       (Inl e, io) \<Rightarrow> (Some (Inl e), io)
     | (Inr (name, phase, reason), io) \<Rightarrow>
       if phase = ''Running'' then (Some (Inr name), io)
       else if phase = ''Failed'' \<or> phase = ''Succeeded''
       then (Some (Inl (''sandbox '' @ k8s_id s @ '' pod '' @ name @ '' ended with phase '' @ phase @ '' before the drill started'')), io)
       else let state = (if phase = [] then recent else if reason \<noteq> [] then phase @ '' ('' @ reason @ '')'' else phase) in
         (case cli_wait h io of
            (Some e, io) \<Rightarrow> (Some (Inl (''sandbox '' @ k8s_id s @ '' never reached running state (last: '' @ state @ ''): '' @ e)), io)
          | (None, io) \<Rightarrow> k8s_await fuel h s state io))"

definition k8s_create :: "nat \<Rightarrow> 'w cli_host \<Rightarrow> provider \<Rightarrow> (bytes \<times> bytes) list \<Rightarrow> 'w cli_io \<Rightarrow>
    (bytes + k8s_sandbox) option \<times> 'w cli_io" where
  "k8s_create fuel h p ps io =
    (let (rnd, io) = random_suffix h (pv_pid p) io; owner = owner_id (cv_kernel h (cw_world io)) (pv_pid p) in
     case k8s_manifest (cv_printable h) owner (pv_host p) k8s_params rnd ps of
       Inl e \<Rightarrow> (Some (Inl e), io)
     | Inr (m, ns) \<Rightarrow>
       (case cli_run h (kubectl_call (TextStdin (marshal (job_json m))) [''create'', ''-n'', ns, ''-f'', ''-'']) io of
          (CliFailed e, io) \<Rightarrow> (Some (Inl (''create sandbox: '' @ e)), io)
        | (CliRan out err truncated n, io) \<Rightarrow>
          if n \<noteq> 0 then (Some (Inl (''create sandbox: '' @ exited ''kubectl create'' n err)), io)
          else let s = \<lparr> kb_job = jm_name (jf_metadata m), kb_pod = [], kb_namespace = ns \<rparr> in
            (case k8s_await fuel h s ''no pod yet'' io of
               (None, io) \<Rightarrow> (None, io)
             | (Some (Inr pod), io) \<Rightarrow> (Some (Inr (s\<lparr> kb_pod := pod \<rparr>)), io)
             | (Some (Inl e), io) \<Rightarrow> (case k8s_destroy h s io of (derr, io) \<Rightarrow> (Some (Inl e), io)))))"

subsection \<open>Sweeping\<close>

definition k8s_is_orphan :: "provider \<Rightarrow> (bytes \<Rightarrow> bool) \<Rightarrow> (bytes \<times> bytes) list \<Rightarrow> bool" where
  "k8s_is_orphan p alive labels =
    (if param_value labels k8s_label_host \<noteq> pv_host p then False else \<not> alive (param_value labels k8s_label_pid))"

definition job_id :: "job_item \<Rightarrow> bytes" where
  "job_id i = ji_namespace i @ CHR ''/'' # ji_name i"

definition k8s_judge :: "'w cli_host \<Rightarrow> provider \<Rightarrow> job_item \<Rightarrow> 'w cli_io \<Rightarrow> (bytes + bool) \<times> 'w cli_io" where
  "k8s_judge h p i io = (Inr (k8s_is_orphan p (owner_alive (cv_kernel h (cw_world io))) (ji_labels i)), io)"

definition k8s_sweep :: "'w cli_host \<Rightarrow> provider \<Rightarrow> 'w cli_io \<Rightarrow> (bytes list \<times> bytes option) \<times> 'w cli_io" where
  "k8s_sweep h p io =
    (case cli_run h (kubectl_call NoStdin [''get'', ''jobs'', ''--all-namespaces'', ''-l'', k8s_label_sandbox @ ''=1'', ''-o'', ''json'']) io of
       (CliFailed e, io) \<Rightarrow> (([], Some (''list sandbox jobs: '' @ e)), io)
     | (CliRan out err truncated n, io) \<Rightarrow>
       if n \<noteq> 0 then (([], Some (''list sandbox jobs: '' @ exited ''kubectl get'' n err)), io)
       else (case unmarshal_jobs out of
          None \<Rightarrow> (([], Some (''parse sandbox job list: '' @ cv_json_error h out)), io)
        | Some items \<Rightarrow> sweep_each (k8s_judge h p) (\<lambda>i. k8s_remove h (ji_namespace i) (ji_name i)) job_id items [] io))"

subsection \<open>The verbs\<close>

definition k8s_exec_args :: "k8s_sandbox \<Rightarrow> exec_call \<Rightarrow> bytes list \<Rightarrow> bytes list" where
  "k8s_exec_args s x shell = [''exec'', ''-n'', kb_namespace s] @
     (if ex_stdin x \<noteq> [] \<or> ex_env x \<noteq> [] then [''-i''] else []) @ [kb_pod s, ''--''] @ shell @ ex_argv x"

definition k8s_exec :: "'w cli_host \<Rightarrow> k8s_sandbox \<Rightarrow> exec_call \<Rightarrow> 'w cli_io \<Rightarrow> (bytes + timed_result) \<times> 'w cli_io" where
  "k8s_exec h s x io =
    (case with_prelude (cv_printable h) x of
       Inl e \<Rightarrow> (Inl e, io)
     | Inr (shell, stdin) \<Rightarrow>
       (case cli_run h (kubectl_call (TextStdin stdin) (k8s_exec_args s x shell)) io of
          (CliFailed e, io) \<Rightarrow> (Inl (''exec in sandbox '' @ k8s_id s @ '': '' @ e), io)
        | (CliRan out err truncated n, io) \<Rightarrow>
          (Inr \<lparr> tr_result = \<lparr> xr_exit = n, xr_stdout = out, xr_stderr = err, xr_truncated = truncated \<rparr>, tr_duration = cv_elapsed h (cw_world io) \<rparr>, io)))"

definition stream_script :: bytes where
  "stream_script = ''cat > '' @ CHR 0x22 # ''$1'' @ CHR 0x22 # '' && wc -c < '' @ CHR 0x22 # ''$1'' @ [CHR 0x22]"

definition stream_once :: "'w cli_host \<Rightarrow> k8s_sandbox \<Rightarrow> bytes \<Rightarrow> bytes \<Rightarrow> 'w cli_io \<Rightarrow> (bytes + int) \<times> 'w cli_io" where
  "stream_once h s source dest io =
    (let copy = ''copy into sandbox '' @ k8s_id s @ '': '' in
     case cv_open h source (cw_world io) of
       Inl e \<Rightarrow> (Inl (''put_file source: '' @ e), io)
     | Inr content \<Rightarrow>
       (case cli_run h (kubectl_call (FileStdin content)
            [''exec'', ''-n'', kb_namespace s, ''-i'', kb_pod s, ''--'', ''sh'', ''-c'', stream_script, ''sh'', dest]) io of
          (CliFailed e, io) \<Rightarrow> (Inl (copy @ e), io)
        | (CliRan out err truncated n, io) \<Rightarrow>
          if n \<noteq> 0 then (Inl (''copy into sandbox '' @ k8s_id s @ '':'' @ exited [] n err), io)
          else (case parse_int64 (trim_space out) of
             None \<Rightarrow> (Inl (copy @ ''the pod reported no byte count ('' @ go_quote (cv_printable h) (cli_first_line out) @ '') '' @ encode_rune 0x2014 @
               '' the sandbox image needs a POSIX wc for the transfer to be verifiable''), io)
           | Some landed \<Rightarrow> (Inr landed, io))))"

text \<open>The attempts that are left, and what the last one landed.\<close>

fun stream_loop :: "nat \<Rightarrow> 'w cli_host \<Rightarrow> k8s_sandbox \<Rightarrow> bytes \<Rightarrow> bytes \<Rightarrow> int \<Rightarrow> int \<Rightarrow> 'w cli_io \<Rightarrow> (bytes + int) \<times> 'w cli_io" where
  "stream_loop 0 h s source dest want recent io =
    (Inl (''copy into sandbox '' @ k8s_id s @ '': '' @ dest @ '' received '' @ show_int recent @ '' of '' @ show_int want @ '' bytes on each of '' @
       show_nat put_file_attempts @ '' attempts '' @ encode_rune 0x2014 @ '' the pod is not draining the exec stream; the artifact is not what was sent''), io)"
| "stream_loop (Suc n) h s source dest want recent io =
    (case stream_once h s source dest io of
       (Inl e, io) \<Rightarrow> (Inl e, io)
     | (Inr landed, io) \<Rightarrow> if landed = want then (Inr landed, io) else stream_loop n h s source dest want landed io)"

definition k8s_put_file :: "'w cli_host \<Rightarrow> k8s_sandbox \<Rightarrow> bytes \<Rightarrow> bytes \<Rightarrow> bytes \<Rightarrow> 'w cli_io \<Rightarrow> (bytes + int \<times> int) \<times> 'w cli_io" where
  "k8s_put_file h s source dest mode0 io =
    (let mode = effective_mode mode0; change = ''chmod in sandbox '' @ k8s_id s in
     if \<not> octal_mode mode then (Inl (invalid_params (''mode '' @ go_quote (cv_printable h) mode @ '' is not octal'')), io)
     else (case cv_stat h source (cw_world io) of
       Inl e \<Rightarrow> (Inl (''put_file source: '' @ e), io)
     | Inr want \<Rightarrow>
       (case stream_loop put_file_attempts h s source dest want 0 io of
          (Inl e, io) \<Rightarrow> (Inl e, io)
        | (Inr landed, io) \<Rightarrow>
          (case cli_run h (kubectl_call NoStdin [''exec'', ''-n'', kb_namespace s, kb_pod s, ''--'', ''chmod'', mode, dest]) io of
             (CliFailed e, io) \<Rightarrow> (Inl (change @ '': '' @ e), io)
           | (CliRan out err truncated n, io) \<Rightarrow>
             if n \<noteq> 0 then (Inl (change @ '':'' @ exited [] n err), io)
             else (Inr (landed, cv_elapsed h (cw_world io)), io)))))"

subsection \<open>Facts\<close>

definition facts_path :: bytes where
  "facts_path = ''{.status.containerStatuses[0].imageID} {.spec.containers[0].resources.limits.memory} '' @
     ''{.spec.containers[0].resources.limits.cpu}''"

definition image_digest_or_nil :: "bytes \<Rightarrow> bytes option" where
  "image_digest_or_nil i = (case cut (CHR ''@'') i of (repo, digest, found) \<Rightarrow> if found \<and> sha256_ref digest then Some digest else None)"

definition scaled_or_nil :: "(bytes \<Rightarrow> float64 option) \<Rightarrow> bytes \<Rightarrow> nat \<Rightarrow> int option" where
  "scaled_or_nil other s factor = (case parse_go_float other (trim_space s) of None \<Rightarrow> None
     | Some f \<Rightarrow> if float_not_positive f then None
         else let v = float_to_int64 (float_times f factor) in if v \<le> 0 then None else Some v)"

definition memory_suffixes :: "(bytes \<times> nat) list" where
  "memory_suffixes = [(''Ki'', 2 ^ 10), (''Mi'', 2 ^ 20), (''Gi'', 2 ^ 30), (''Ti'', 2 ^ 40),
     (''k'', 1000), (''M'', 1000 * 1000), (''G'', 1000 * 1000 * 1000), (''T'', 10 ^ 12)]"

fun quantity_in :: "(bytes \<Rightarrow> float64 option) \<Rightarrow> bytes \<Rightarrow> (bytes \<times> nat) list \<Rightarrow> int option" where
  "quantity_in other q [] = scaled_or_nil other q 1"
| "quantity_in other q ((suf, factor) # ms) =
    (case cut_suffix q suf of Some num \<Rightarrow> scaled_or_nil other num factor | None \<Rightarrow> quantity_in other q ms)"

definition quantity_bytes :: "(bytes \<Rightarrow> float64 option) \<Rightarrow> bytes \<Rightarrow> int option" where
  "quantity_bytes other q = quantity_in other q memory_suffixes"

definition quantity_milli :: "(bytes \<Rightarrow> float64 option) \<Rightarrow> bytes \<Rightarrow> int option" where
  "quantity_milli other q = (case cut_suffix q ''m'' of Some num \<Rightarrow> scaled_or_nil other num 1 | None \<Rightarrow> scaled_or_nil other q 1000)"

definition k8s_facts_of :: "(bytes \<Rightarrow> float64 option) \<Rightarrow> bytes \<Rightarrow> facts" where
  "k8s_facts_of other out = (let fs = text_fields out in
     \<lparr> fa_image_digest = (if length fs > 0 then image_digest_or_nil (fs ! 0) else None),
       fa_memory_bytes = (if length fs > 1 then quantity_bytes other (fs ! 1) else None),
       fa_cpus_milli = (if length fs > 2 then quantity_milli other (fs ! 2) else None) \<rparr>)"

definition k8s_facts :: "'w cli_host \<Rightarrow> k8s_sandbox \<Rightarrow> 'w cli_io \<Rightarrow> facts \<times> 'w cli_io" where
  "k8s_facts h s io =
    (case cli_run h (kubectl_call NoStdin [''get'', ''pod'', kb_pod s, ''-n'', kb_namespace s, ''-o'', ''jsonpath='' @ facts_path]) io of
       (CliRan out err truncated n, io) \<Rightarrow> (if n = 0 then k8s_facts_of (cv_float h) out else no_facts, io)
     | (CliFailed e, io) \<Rightarrow> (no_facts, io))"

end
