(* ===== verification/SandboxRemote.thy ===== *)
theory SandboxRemote
  imports SandboxBase GoPath
begin

text \<open>
  \<^verbatim>\<open>internal/sandbox/remotehost/remotehost.go\<close>: the provider for a host without containers, driven over \<^verbatim>\<open>ssh\<close>. A
  sandbox is a systemd slice and a workspace directory. \<open>shell_words\<close> is the reference reader of the remote
  POSIX shell that the quoting is held against. Parameter: the tools' answers (\<open>cli_host\<close>).
\<close>

definition default_workspace_root :: bytes where "default_workspace_root = ''/var/lib/probavi-drills''"
definition name_prefix :: bytes where "name_prefix = ''probavi-sbx-''"
definition min_systemd_version :: int where "min_systemd_version = 244"
definition hard_deadline_seconds :: nat where "hard_deadline_seconds = 7200"

abbreviation q1 :: bytes where "q1 \<equiv> CHR 0x22 # ''$1'' @ [CHR 0x22]"
abbreviation q2 :: bytes where "q2 \<equiv> CHR 0x22 # ''$2'' @ [CHR 0x22]"
abbreviation q3 :: bytes where "q3 \<equiv> CHR 0x22 # ''$3'' @ [CHR 0x22]"

definition setup_script :: bytes where
  "setup_script = ''mkdir -p '' @ CHR 0x22 # ''$1/scratch'' @ CHR 0x22 # '' && chmod 700 '' @ q1 @ '' && printf '' @ CHR 0x27 # ''%s'' @ CHR 0x5C #
     ''n'' @ CHR 0x27 # '' '' @ q2 @ '' > '' @ CHR 0x22 # ''$1/owner'' @ [CHR 0x22]"

definition destroy_script :: bytes where
  "destroy_script = ''set -e; if systemctl --quiet is-active -- '' @ q1 @ ''; then systemctl kill --signal=SIGKILL -- '' @ q1 @
     ''; systemctl stop -- '' @ q1 @ ''; fi; if systemctl --quiet is-active -- '' @ q2 @ ''; then systemctl stop -- '' @ q2 @ ''; fi; rm -rf -- '' @ q3"

definition list_script :: bytes where
  "list_script = ''[ -d '' @ q1 @ '' ] || exit 0; ls -1 -- '' @ q1"

definition owner_script :: bytes where
  "owner_script = ''if [ ! -d '' @ q1 @ '' ]; then echo GONE; elif [ ! -e '' @ CHR 0x22 # ''$1/owner'' @ CHR 0x22 #
     '' ]; then echo MISSING; else cat -- '' @ CHR 0x22 # ''$1/owner'' @ CHR 0x22 # ''; fi''"

definition put_file_script :: bytes where
  "put_file_script = ''cat > '' @ q1 @ '' && chmod '' @ q2 @ '' '' @ q1"

subsection \<open>Parameters\<close>

definition remote_params :: descriptor where
  "remote_params = \<lparr> ds_id = ''remotehost'', ds_params =
    [\<lparr> pm_name = ''workspace_root'', pm_family = False, pm_required = False, pm_default = default_workspace_root \<rparr>,
     \<lparr> pm_name = ''memory'', pm_family = False, pm_required = False, pm_default = [] \<rparr>,
     \<lparr> pm_name = ''cpus'', pm_family = False, pm_required = False, pm_default = [] \<rparr>] \<rparr>"

record settings =
  se_root :: bytes
  se_props :: "bytes list"

text \<open>Digits, a fraction, a suffix.\<close>

definition memory_pattern :: "bytes \<Rightarrow> bool" where
  "memory_pattern v =
    (let body = (if v \<noteq> [] \<and> last v \<in> set ''KMGTPE'' then butlast v else v); (whole, frac, found) = cut (CHR ''.'') body
     in whole \<noteq> [] \<and> list_all is_digit whole \<and> (found \<longrightarrow> frac \<noteq> [] \<and> list_all is_digit frac))"

fun parse_settings :: "'w cli_host \<Rightarrow> descriptor \<Rightarrow> (bytes \<times> bytes) list \<Rightarrow> settings \<Rightarrow> bytes + settings" where
  "parse_settings h d [] st = Inr st"
| "parse_settings h d ((k, v) # ps) st =
    (case lookup_param d k of
       None \<Rightarrow> Inl (unknown_param_error (cv_printable h) d k)
     | Some spec \<Rightarrow>
       if pm_name spec = ''workspace_root'' then
         (if \<not> prefix ''/'' v then Inl (invalid_params (''workspace_root '' @ go_quote (cv_printable h) v @ '' must be an absolute path''))
          else parse_settings h d ps (st\<lparr> se_root := clean_path v \<rparr>))
       else if pm_name spec = ''memory'' then
         (if \<not> memory_pattern v then Inl (invalid_params (''memory '' @ go_quote (cv_printable h) v @ '' is not a systemd size (bytes or K/M/G/T suffix)''))
          else parse_settings h d ps (st\<lparr> se_props := se_props st @ [''MemoryMax='' @ v] \<rparr>))
       else if pm_name spec = ''cpus'' then
         (let refused = Inl (invalid_params (''cpus '' @ go_quote (cv_printable h) v @ '' is not a positive CPU count'')) in
          case parse_go_float (cv_float h) v of
            None \<Rightarrow> refused
          | Some f \<Rightarrow> if float_not_positive f then refused
              else parse_settings h d ps (st\<lparr> se_props := se_props st @ [''CPUQuota='' @ show_int (round_to_int64 (float_times f 100)) @ ''%''] \<rparr>))
       else Inl (unhandled_param_error (cv_printable h) d k))"

definition parse_params :: "'w cli_host \<Rightarrow> descriptor \<Rightarrow> (bytes \<times> bytes) list \<Rightarrow> bytes + settings" where
  "parse_params h d ps = parse_settings h d (sorted_entries ps) \<lparr> se_root = default_workspace_root, se_props = [] \<rparr>"

record remote_provider = provider +
  rp_target :: bytes
  rp_root :: bytes

definition env_target :: bytes where "env_target = ''PROBAVI_SSH_TARGET''"

text \<open>The target is what the environment names, the empty string if it names none.\<close>

definition new_remote :: "'w cli_host \<Rightarrow> int \<Rightarrow> bytes \<Rightarrow> bytes \<Rightarrow> (bytes \<times> bytes) list \<Rightarrow> bytes + remote_provider" where
  "new_remote h pid host target ps =
    (if target = [] then Inl (''remotehost provider: '' @ env_target @ '' must be set (user@host of the dedicated drill target; environment-only by design, docs/sandbox-bare-host.md '' @
       encode_rune 0xA7 @ ''6)'')
     else if prefix ''-'' target then Inl (''remotehost provider: '' @ env_target @ '' '' @ go_quote (cv_printable h) target @ '' must not begin with '' @
       go_quote (cv_printable h) ''-'' @ '' '' @ encode_rune 0x2014 @ '' it would be read as an ssh option'')
     else map_sum (\<lambda>e. e) (\<lambda>st. \<lparr> pv_pid = pid, pv_host = host, rp_target = target, rp_root = se_root st \<rparr>) (parse_params h remote_params ps))"

subsection \<open>The remote command\<close>

definition sh_quote :: "bytes \<Rightarrow> bytes" where
  "sh_quote s = CHR 0x27 # concat (map (\<lambda>c. if c = CHR 0x27 then [CHR 0x27, CHR 0x5C, CHR 0x27, CHR 0x27] else [c]) s) @ [CHR 0x27]"

definition ssh_call :: "remote_provider \<Rightarrow> cli_stdin \<Rightarrow> bytes list \<Rightarrow> cli_call" where
  "ssh_call p stdin argv = \<lparr> cl_stdin = stdin, cl_env = [], cl_bin = ''ssh'',
     cl_args = [''-o'', ''BatchMode=yes'', rp_target p, join_with '' '' (map sh_quote argv)] \<rparr>"

definition ssh :: "'w cli_host \<Rightarrow> remote_provider \<Rightarrow> cli_stdin \<Rightarrow> bytes list \<Rightarrow> 'w cli_io \<Rightarrow> cli_answer \<times> 'w cli_io" where
  "ssh h p stdin argv io = cli_run h (ssh_call p stdin argv) io"

record remote_sandbox =
  rs_name :: bytes
  rs_workspace :: bytes
  rs_user :: bytes

definition path_join2 :: "bytes \<Rightarrow> bytes \<Rightarrow> bytes" where
  "path_join2 a b = clean_path (a @ CHR ''/'' # b)"

definition slice_of :: "bytes \<Rightarrow> bytes" where "slice_of name = name @ ''.slice''"
definition reaper_of :: "bytes \<Rightarrow> bytes" where "reaper_of name = name @ ''-reaper''"

definition exec_prefix :: "remote_sandbox \<Rightarrow> bytes list" where
  "exec_prefix s = [''systemd-run'', ''--quiet'', ''--collect'', ''--wait'', ''--pipe'', ''--slice='' @ slice_of (rs_name s),
     ''-p'', ''User='' @ rs_user s, ''-p'', ''WorkingDirectory='' @ rs_workspace s, ''-p'', ''KillMode=process'', ''--'']"

subsection \<open>Creating and destroying\<close>

definition probe_systemd :: "'w cli_host \<Rightarrow> remote_provider \<Rightarrow> 'w cli_io \<Rightarrow> bytes option \<times> 'w cli_io" where
  "probe_systemd h p io =
    (case ssh h p NoStdin [''systemctl'', ''--version''] io of
       (CliFailed e, io) \<Rightarrow> (Some (''probe target systemd: '' @ e), io)
     | (CliRan out err truncated n, io) \<Rightarrow>
       if n \<noteq> 0 then (Some (''probe target systemd: '' @ exited ''systemctl'' n err), io)
       else let fs = text_fields (cli_first_line out);
          unparsed = ''probe target systemd: cannot parse version from '' @ go_quote (cv_printable h) (cli_first_line out) in
         if length fs < 2 \<or> hd fs \<noteq> ''systemd'' then (Some unparsed, io)
         else (case parse_int64 (fs ! 1) of None \<Rightarrow> (Some unparsed, io)
            | Some version \<Rightarrow> if version < min_systemd_version
                then (Some (''target systemd '' @ show_int version @ '' is older than the required '' @ show_int min_systemd_version @
                  '' (docs/sandbox-bare-host.md '' @ encode_rune 0xA7 @ ''3)''), io)
                else (None, io)))"

definition remote_user :: "'w cli_host \<Rightarrow> remote_provider \<Rightarrow> 'w cli_io \<Rightarrow> (bytes + bytes) \<times> 'w cli_io" where
  "remote_user h p io =
    (case ssh h p NoStdin [''id'', ''-un''] io of
       (CliFailed e, io) \<Rightarrow> (Inl (''resolve remote user: '' @ e), io)
     | (CliRan out err truncated n, io) \<Rightarrow>
       if n \<noteq> 0 then (Inl (''resolve remote user: '' @ exited ''id'' n err), io)
       else if trim_space out = [] then (Inl ''resolve remote user: id -un returned nothing'', io)
       else (Inr (trim_space out), io))"

definition remote_destroy :: "'w cli_host \<Rightarrow> remote_provider \<Rightarrow> bytes \<Rightarrow> bytes \<Rightarrow> 'w cli_io \<Rightarrow> bytes option \<times> 'w cli_io" where
  "remote_destroy h p name workspace io =
    (case ssh h p NoStdin [''sh'', ''-c'', destroy_script, ''sh'', slice_of name, reaper_of name @ ''.timer'', workspace] io of
       (CliFailed e, io) \<Rightarrow> (Some e, io)
     | (CliRan out err truncated n, io) \<Rightarrow> (if n \<noteq> 0 then Some (exited ''remote cleanup'' n err) else None, io))"

definition remote_destroy_sandbox :: "'w cli_host \<Rightarrow> remote_provider \<Rightarrow> remote_sandbox \<Rightarrow> 'w cli_io \<Rightarrow> bytes option \<times> 'w cli_io" where
  "remote_destroy_sandbox h p s io =
    (case remote_destroy h p (rs_name s) (rs_workspace s) io of (e, io) \<Rightarrow> (map_option (\<lambda>e. ''destroy sandbox: '' @ e) e, io))"

text \<open>One command of the setup: an error has its name, and maybe advice.\<close>

definition setup_step :: "'w cli_host \<Rightarrow> remote_provider \<Rightarrow> bytes \<Rightarrow> bytes \<Rightarrow> bytes \<Rightarrow> bytes list \<Rightarrow> 'w cli_io \<Rightarrow> bytes option \<times> 'w cli_io" where
  "setup_step h p name what advice argv io =
    (case ssh h p NoStdin argv io of
       (CliFailed e, io) \<Rightarrow> (Some (name @ '': '' @ e), io)
     | (CliRan out err truncated n, io) \<Rightarrow> (if n \<noteq> 0 then Some (name @ '':'' @ exited what n err @ advice) else None, io))"

definition reaper_script :: "remote_sandbox \<Rightarrow> bytes" where
  "reaper_script s = ''systemctl kill --signal=SIGKILL '' @ sh_quote (slice_of (rs_name s)) @ ''; systemctl stop '' @ sh_quote (slice_of (rs_name s)) @
     ''; rm -rf '' @ sh_quote (rs_workspace s)"

text \<open>The commands of the setup, in their order: name, tool, advice, arguments.\<close>

definition setup_steps :: "remote_provider \<Rightarrow> bytes \<Rightarrow> remote_sandbox \<Rightarrow> settings \<Rightarrow> (bytes \<times> bytes \<times> bytes \<times> bytes list) list" where
  "setup_steps p owner s st =
    [(''create workspace'', [], [], [''sh'', ''-c'', setup_script, ''sh'', rs_workspace s, pv_host p @ CHR '' '' # owner]),
     (''verify transient unit rights'', '' systemd-run'', '' (is the polkit rule from README.md installed for the drill user?)'', exec_prefix s @ [''true''])] @
    (if se_props st = [] then []
     else [(''apply resource caps'', '' set-property'', [], [''systemctl'', ''set-property'', ''--runtime'', slice_of (rs_name s)] @ se_props st)]) @
    [(''arm deadline backstop'', '' systemd-run'', [],
      [''systemd-run'', ''--quiet'', ''--collect'', ''--unit='' @ reaper_of (rs_name s), ''--on-active='' @ show_nat hard_deadline_seconds,
       ''--timer-property=AccuracySec=1m'', ''sh'', ''-c'', reaper_script s])]"

fun run_steps :: "'w cli_host \<Rightarrow> remote_provider \<Rightarrow> (bytes \<times> bytes \<times> bytes \<times> bytes list) list \<Rightarrow> 'w cli_io \<Rightarrow> bytes option \<times> 'w cli_io" where
  "run_steps h p [] io = (None, io)"
| "run_steps h p ((name, what, advice, argv) # rest) io =
    (case setup_step h p name what advice argv io of
       (Some e, io) \<Rightarrow> (Some e, io)
     | (None, io) \<Rightarrow> run_steps h p rest io)"

definition remote_setup :: "'w cli_host \<Rightarrow> remote_provider \<Rightarrow> remote_sandbox \<Rightarrow> settings \<Rightarrow> 'w cli_io \<Rightarrow> bytes option \<times> 'w cli_io" where
  "remote_setup h p s st io = run_steps h p (setup_steps p (owner_id (cv_kernel h (cw_world io)) (pv_pid p)) s st) io"

definition remote_create :: "'w cli_host \<Rightarrow> remote_provider \<Rightarrow> (bytes \<times> bytes) list \<Rightarrow> 'w cli_io \<Rightarrow> (bytes + remote_sandbox) \<times> 'w cli_io" where
  "remote_create h p ps io =
    (case parse_params h remote_params ps of
       Inl e \<Rightarrow> (Inl e, io)
     | Inr st \<Rightarrow>
       (case probe_systemd h p io of
          (Some e, io) \<Rightarrow> (Inl e, io)
        | (None, io) \<Rightarrow>
          (case remote_user h p io of
             (Inl e, io) \<Rightarrow> (Inl e, io)
           | (Inr user, io) \<Rightarrow>
             let (rnd, io) = random_suffix h (pv_pid p) io; name = name_prefix @ rnd;
                 s = \<lparr> rs_name = name, rs_workspace = path_join2 (se_root st) name, rs_user = user \<rparr>
             in (case remote_setup h p s st io of
                   (None, io) \<Rightarrow> (Inr s, io)
                 | (Some e, io) \<Rightarrow> (case remote_destroy_sandbox h p s io of (derr, io) \<Rightarrow> (Inl e, io))))))"

subsection \<open>Sweeping\<close>

text \<open>The verdict on what the owner script wrote.\<close>

definition marker_orphaned :: "bytes \<Rightarrow> (bytes \<Rightarrow> bool) \<Rightarrow> bytes \<Rightarrow> bool" where
  "marker_orphaned host alive out =
    (let marker = trim_space out in
     if marker = ''GONE'' then False else if marker = ''MISSING'' then True
     else (case text_fields marker of
       [owner_host, owner] \<Rightarrow> if owner_host \<noteq> host then False else \<not> alive owner
     | _ \<Rightarrow> True))"

definition remote_is_orphan :: "'w cli_host \<Rightarrow> remote_provider \<Rightarrow> bytes \<Rightarrow> 'w cli_io \<Rightarrow> (bytes + bool) \<times> 'w cli_io" where
  "remote_is_orphan h p name io =
    (case ssh h p NoStdin [''sh'', ''-c'', owner_script, ''sh'', path_join2 (rp_root p) name] io of
       (CliFailed e, io) \<Rightarrow> (Inl (''read owner marker of '' @ name @ '': '' @ e), io)
     | (CliRan out err truncated n, io) \<Rightarrow>
       if n \<noteq> 0 then (Inl (''read owner marker of '' @ name @ '':'' @ exited [] n err), io)
       else (Inr (marker_orphaned (pv_host p) (owner_alive (cv_kernel h (cw_world io))) out), io))"

definition remote_sweep :: "'w cli_host \<Rightarrow> remote_provider \<Rightarrow> 'w cli_io \<Rightarrow> (bytes list \<times> bytes option) \<times> 'w cli_io" where
  "remote_sweep h p io =
    (case ssh h p NoStdin [''sh'', ''-c'', list_script, ''sh'', rp_root p] io of
       (CliFailed e, io) \<Rightarrow> (([], Some (''list sandbox workspaces: '' @ e)), io)
     | (CliRan out err truncated n, io) \<Rightarrow>
       if n \<noteq> 0 then (([], Some (''list sandbox workspaces:'' @ exited [] n err)), io)
       else sweep_each (remote_is_orphan h p) (\<lambda>name. remote_destroy h p name (path_join2 (rp_root p) name)) (\<lambda>name. name)
         (filter (prefix name_prefix) (split_char newline out)) [] io)"

subsection \<open>The verbs\<close>

definition remote_exec :: "'w cli_host \<Rightarrow> remote_provider \<Rightarrow> remote_sandbox \<Rightarrow> exec_call \<Rightarrow> 'w cli_io \<Rightarrow> (bytes + timed_result) \<times> 'w cli_io" where
  "remote_exec h p s x io =
    (case with_prelude (cv_printable h) x of
       Inl e \<Rightarrow> (Inl e, io)
     | Inr (shell, stdin) \<Rightarrow>
       (case ssh h p (TextStdin stdin) (exec_prefix s @ shell @ ex_argv x) io of
          (CliFailed e, io) \<Rightarrow> (Inl (''exec in sandbox '' @ rs_name s @ '': '' @ e), io)
        | (CliRan out err truncated n, io) \<Rightarrow>
          (Inr \<lparr> tr_result = \<lparr> xr_exit = n, xr_stdout = out, xr_stderr = err, xr_truncated = truncated \<rparr>, tr_duration = cv_elapsed h (cw_world io) \<rparr>, io)))"

definition remote_put_file :: "'w cli_host \<Rightarrow> remote_provider \<Rightarrow> remote_sandbox \<Rightarrow> bytes \<Rightarrow> bytes \<Rightarrow> bytes \<Rightarrow> 'w cli_io \<Rightarrow>
    (bytes + int \<times> int) \<times> 'w cli_io" where
  "remote_put_file h p s source dest mode0 io =
    (let mode = effective_mode mode0 in
     if \<not> octal_mode mode then (Inl (invalid_params (''mode '' @ go_quote (cv_printable h) mode @ '' is not octal'')), io)
     else (case cv_open h source (cw_world io) of
       Inl e \<Rightarrow> (Inl (''put_file source: '' @ e), io)
     | Inr content \<Rightarrow>
       (case cv_fstat h source (cw_world io) of
          Inl e \<Rightarrow> (Inl (''put_file source: '' @ e), io)
        | Inr nbytes \<Rightarrow>
          (case ssh h p (FileStdin content) [''sh'', ''-c'', put_file_script, ''sh'', dest, mode] io of
             (CliFailed e, io) \<Rightarrow> (Inl (''copy into sandbox '' @ rs_name s @ '': '' @ e), io)
           | (CliRan out err truncated n, io) \<Rightarrow>
             if n \<noteq> 0 then (Inl (''copy into sandbox '' @ rs_name s @ '':'' @ exited [] n err), io)
             else (Inr (nbytes, cv_elapsed h (cw_world io)), io)))))"

subsection \<open>Facts\<close>

definition prop_memory_max :: bytes where "prop_memory_max = ''MemoryMax''"
definition prop_cpu_quota :: bytes where "prop_cpu_quota = ''CPUQuotaPerSecUSec''"

definition facts_script :: bytes where
  "facts_script = ''systemctl show --property='' @ prop_memory_max @ '' --property='' @ prop_cpu_quota @ '' -- '' @ q1 @ '' 2>/dev/null || true''"

definition unit_properties :: "bytes \<Rightarrow> (bytes \<times> bytes) list" where
  "unit_properties out = fold (\<lambda>line m. case cut (CHR ''='') (trim_space line) of (name, v, found) \<Rightarrow>
     if found \<and> name \<noteq> [] then AList.update name v m else m) (split_char newline out) []"

definition bytes_or_nil :: "bytes \<Rightarrow> int option" where
  "bytes_or_nil v = (case parse_int64 (trim_space v) of None \<Rightarrow> None | Some n \<Rightarrow> if n \<le> 0 then None else Some n)"

definition quota_units :: "(bytes \<times> nat) list" where
  "quota_units = [(''min'', 60000000), (''ms'', 1000), (''us'', 1), (''s'', 1000000), (''h'', 3600000000), (''d'', 86400000000)]"

fun quota_component :: "(bytes \<Rightarrow> float64 option) \<Rightarrow> bytes \<Rightarrow> (bytes \<times> nat) list \<Rightarrow> float64 option" where
  "quota_component other f [] = None"
| "quota_component other f ((suf, usec) # us) =
    (case cut_suffix f suf of None \<Rightarrow> quota_component other f us
     | Some digits \<Rightarrow> (case parse_go_float other digits of None \<Rightarrow> None
        | Some x \<Rightarrow> if float_negative x then None else Some (float_times x usec)))"

definition quota_component_usec :: "(bytes \<Rightarrow> float64 option) \<Rightarrow> bytes \<Rightarrow> float64 option" where
  "quota_component_usec other f = quota_component other f quota_units"

text \<open>The sum of two magnitudes; one that is not finite stays so, as the conversion at the end treats both alike.\<close>

definition float_plus :: "float64 \<Rightarrow> float64 \<Rightarrow> float64" where
  "float_plus a b = (case (a, b) of
     (Finite m e, Finite n x) \<Rightarrow> let z = min e x in float_from False (nat m * 2 ^ nat (e - z) + nat n * 2 ^ nat (x - z)) z
   | (Finite m e, _) \<Rightarrow> b
   | _ \<Rightarrow> a)"

text \<open>A magnitude divided by a thousand: enough bits of the quotient and one that says whether anything is left.\<close>

definition float_per_mille :: "float64 \<Rightarrow> float64" where
  "float_per_mille f = (case f of
     Finite m e \<Rightarrow> let n = nat m * 2 ^ 70 in float_from False (2 * (n div 1000) + (if n mod 1000 = 0 then 0 else 1)) (e - 71)
   | _ \<Rightarrow> f)"

fun quota_sum :: "(bytes \<Rightarrow> float64 option) \<Rightarrow> bytes list \<Rightarrow> float64 \<Rightarrow> float64 option" where
  "quota_sum other [] acc = Some acc"
| "quota_sum other (f # fs) acc = (case quota_component_usec other f of None \<Rightarrow> None | Some n \<Rightarrow> quota_sum other fs (float_plus acc n))"

definition quota_milli :: "(bytes \<Rightarrow> float64 option) \<Rightarrow> bytes \<Rightarrow> int option" where
  "quota_milli other v =
    (if text_fields v = [] then None
     else case quota_sum other (text_fields v) (Finite 0 0) of None \<Rightarrow> None
       | Some usec \<Rightarrow> let milli = round_to_int64 (float_per_mille usec) in if milli \<le> 0 then None else Some milli)"

definition remote_facts_of :: "(bytes \<Rightarrow> float64 option) \<Rightarrow> bytes \<Rightarrow> facts" where
  "remote_facts_of other out = (let props = unit_properties out in
     \<lparr> fa_image_digest = None, fa_memory_bytes = bytes_or_nil (param_value props prop_memory_max),
       fa_cpus_milli = quota_milli other (param_value props prop_cpu_quota) \<rparr>)"

definition remote_facts :: "'w cli_host \<Rightarrow> remote_provider \<Rightarrow> remote_sandbox \<Rightarrow> 'w cli_io \<Rightarrow> facts \<times> 'w cli_io" where
  "remote_facts h p s io =
    (case ssh h p NoStdin [''sh'', ''-c'', facts_script, ''sh'', slice_of (rs_name s)] io of
       (CliRan out err truncated n, io) \<Rightarrow> (if n = 0 then remote_facts_of (cv_float h) out else no_facts, io)
     | (CliFailed e, io) \<Rightarrow> (no_facts, io))"

end
