(* ===== verification/SandboxProps.thy ===== *)
theory SandboxProps
  imports SandboxDocker SandboxK8s SandboxRemote
begin

text \<open>
  What the three sandbox providers promise: whose sandboxes a sweep may remove (each provider is an
  interpretation of \<open>sweeper\<close>), that a failed creation removes what it started, that the value of an
  environment variable is on no command line, how the remote shell and systemd-run read a remote command.
\<close>

subsection \<open>Owners\<close>

lemma show_int_no_dash: "0 < i \<Longrightarrow> CHR ''-'' \<notin> set (show_int i)"
  using show_nat_digits [of "nat i"] by (auto simp: show_int_def is_digit_def list_all_iff)

lemma cut_absent: "sep \<notin> set s \<Longrightarrow> cut sep s = (s, [], False)"
  by (induction s) auto

lemma owner_alive_bare:
  "0 < pid \<Longrightarrow> pid < 2 ^ 63 \<Longrightarrow> owner_alive k (show_int pid) \<longleftrightarrow> process_alive k pid"
  by (simp add: owner_alive_def cut_absent show_int_no_dash parse_show_int)

lemma owner_alive_token:
  "0 < pid \<Longrightarrow> pid < 2 ^ 63 \<Longrightarrow> owner_alive k (show_int pid @ CHR ''-'' # t) \<longleftrightarrow>
    process_alive k pid \<and> (case process_start_token k pid of None \<Rightarrow> True | Some u \<Rightarrow> u = t)"
  by (simp add: owner_alive_def cut_notin show_int_no_dash parse_show_int split: option.split)

text \<open>
  C18: what an owner label decides. The label a process wrote when it created a sandbox counts as alive in a later
  state of the kernel exactly if a process with that pid answers now and nothing shows that it is another one: wherever
  the start token could be read both times, it is the same. So a live owner is always recognised, and a pid that
  was given to a new process is not mistaken for the old one while tokens can be read.
\<close>

theorem owner_label_exact:
  assumes "0 < pid" "pid \<le> 2 ^ 31 - 1"
  shows "owner_alive now (owner_id created pid) \<longleftrightarrow> kn_signal now pid \<and>
    (process_start_token created pid = None \<or> process_start_token now pid = None \<or>
     process_start_token now pid = process_start_token created pid)"
proof -
  from assms have "process_alive now pid \<longleftrightarrow> kn_signal now pid" by (simp add: process_alive_def representable_as_pid_def)
  with assms show ?thesis
    by (cases "process_start_token created pid")
      (auto simp: owner_id_def owner_alive_bare owner_alive_token split: option.split)
qed

lemma fields_ascii:
  "code c < 128 \<Longrightarrow> fields_from cur (c # s) =
    (if code c \<in> set space_runes then (if cur = [] then [] else [cur]) @ fields_from [] s else fields_from (cur @ [c]) s)"
  "fields_from cur [] = (if cur = [] then [] else [cur])"
  by (subst fields_from.simps, simp add: decode_rune_def Let_def)+

theorem owner_label_exact_witness:
  "\<not> owner_alive \<lparr> kn_signal = (\<lambda>p. True), kn_stat = (\<lambda>p. Some ''7 (x) S 0 0 0 0 0 0 0 0 0 0 0 0 0 0 0 0 0 0 22'') \<rparr>
      (owner_id \<lparr> kn_signal = (\<lambda>p. True), kn_stat = (\<lambda>p. Some ''7 (x) S 0 0 0 0 0 0 0 0 0 0 0 0 0 0 0 0 0 0 11'') \<rparr> 7)"
proof -
  have "start_token_from ''7 (x) S 0 0 0 0 0 0 0 0 0 0 0 0 0 0 0 0 0 0 22'' = Some ''22''"
    "start_token_from ''7 (x) S 0 0 0 0 0 0 0 0 0 0 0 0 0 0 0 0 0 0 11'' = Some ''11''"
    by (simp_all add: start_token_from_def text_fields_def fields_ascii space_runes_def)
  then show ?thesis by (subst owner_label_exact) (simp_all add: process_start_token_def)
qed

subsection \<open>The remote shell\<close>

text \<open>
  The words a POSIX shell makes of a command line of quoted and plain text: \<open>None\<close> if it would do anything but
  run one command with these words.
\<close>

definition shell_plain :: "char \<Rightarrow> bool" where
  "shell_plain c \<longleftrightarrow> is_digit c \<or> (65 \<le> code c \<and> code c \<le> 90) \<or> (97 \<le> code c \<and> code c \<le> 122) \<or> c \<in> set ''_-./:=,+@%^'' \<or> 128 \<le> code c"

definition word_so_far :: "bytes option \<Rightarrow> bytes" where
  "word_so_far cur = (case cur of None \<Rightarrow> [] | Some w \<Rightarrow> w)"

fun shell_words :: "bool \<Rightarrow> bytes option \<Rightarrow> bytes \<Rightarrow> bytes list option" where
  "shell_words quoted cur [] = (if quoted then None else Some (case cur of None \<Rightarrow> [] | Some w \<Rightarrow> [w]))"
| "shell_words quoted cur (c # s) =
    (if quoted then shell_words (c \<noteq> CHR 0x27) (Some (if c = CHR 0x27 then word_so_far cur else word_so_far cur @ [c])) s
     else if c = CHR 0x27 then shell_words True (Some (word_so_far cur)) s
     else if c = CHR 0x5C then (case s of [] \<Rightarrow> None
       | d # t \<Rightarrow> if d = newline then None else shell_words False (Some (word_so_far cur @ [d])) t)
     else if c = CHR '' '' then (case cur of None \<Rightarrow> shell_words False None s | Some w \<Rightarrow> map_option ((#) w) (shell_words False None s))
     else if shell_plain c then shell_words False (Some (word_so_far cur @ [c])) s
     else None)"

lemma shell_words_body:
  "shell_words True cur (concat (map (\<lambda>c. if c = CHR 0x27 then [CHR 0x27, CHR 0x5C, CHR 0x27, CHR 0x27] else [c]) s) @ CHR 0x27 # t) =
     shell_words False (Some (word_so_far cur @ s)) t"
  by (induction s arbitrary: cur) (auto simp: word_so_far_def)

lemma shell_words_quote: "shell_words False None (sh_quote s @ t) = shell_words False (Some s) t"
  by (simp add: sh_quote_def shell_words_body word_so_far_def)

lemma shell_words_join: "shell_words False None (join_with '' '' (map sh_quote argv)) = Some argv"
proof (induction argv rule: induct_list012)
  case (2 w)
  then show ?case using shell_words_quote [of w "[]"] by simp
next
  case (3 w v ws)
  then show ?case using shell_words_quote [of w] by simp
qed simp

text \<open>
  Quoting for the remote shell is transparent. Whatever bytes the arguments of a remote command hold (quotes, spaces,
  newlines, dollar signs, semicolons), a POSIX shell that reads the line \<open>ssh\<close> sends makes exactly these
  arguments of it, as one command.
\<close>

theorem remote_quoting_transparent:
  "cl_args (ssh_call p stdin argv) = [''-o'', ''BatchMode=yes'', rp_target p, line] \<Longrightarrow> shell_words False None line = Some argv"
  by (auto simp: ssh_call_def shell_words_join)

theorem remote_quoting_transparent_witness:
  "shell_words False None ([CHR 0x27] @ ''rm'' @ [CHR 0x27] @ '' '' @ [CHR 0x27] @ ''a; b $x'' @ [CHR 0x27, CHR 0x5C, CHR 0x27, CHR 0x27, CHR 0x27]) =
     Some [''rm'', ''a; b $x'' @ [CHR 0x27]]"
  by (rule remote_quoting_transparent [of "\<lparr> pv_pid = 1, pv_host = [], rp_target = ''u@h'', rp_root = [] \<rparr>" NoStdin])
    (simp add: ssh_call_def sh_quote_def)

subsection \<open>Command lines\<close>

definition command_lines :: "'r \<times> 'w cli_io \<Rightarrow> bytes list list" where
  "command_lines r = map cl_args (cw_calls (snd r))"

lemma cli_run_lines:
  "cli_run h c io = (a, io') \<Longrightarrow> map cl_args (cw_calls io') = map cl_args (cw_calls io) @ [cl_args c]"
  by (auto simp: cli_run_def split: prod.splits)

lemma docker_exec_lines:
  "command_lines (docker_exec h i x io) = map cl_args (cw_calls io) @ [docker_exec_args i x]"
  by (auto simp: command_lines_def docker_exec_def docker_call_def Let_def dest: cli_run_lines split: prod.split cli_answer.split)

lemma k8s_exec_lines:
  "with_prelude (cv_printable h) x = Inr (shell, stdin) \<Longrightarrow>
    command_lines (k8s_exec h s x io) = map cl_args (cw_calls io) @ [k8s_exec_args s x shell]"
  by (auto simp: command_lines_def k8s_exec_def kubectl_call_def dest: cli_run_lines split: prod.split cli_answer.split)

lemma remote_exec_lines:
  "with_prelude (cv_printable h) x = Inr (shell, stdin) \<Longrightarrow>
    command_lines (remote_exec h p s x io) =
      map cl_args (cw_calls io) @ [[''-o'', ''BatchMode=yes'', rp_target p, join_with '' '' (map sh_quote (exec_prefix s @ shell @ ex_argv x))]]"
  by (auto simp: command_lines_def remote_exec_def ssh_def ssh_call_def dest: cli_run_lines split: prod.split cli_answer.split)

lemma with_prelude_shell:
  "env_prelude_lines pr (ex_env x) = Inr block \<Longrightarrow>
    with_prelude pr x = Inr (if ex_env x = [] then [] else [''sh'', ''-c'', env_prelude_script (length (ex_env x)), ''sh''],
      if ex_env x = [] then ex_stdin x else block @ ex_stdin x)"
  by (simp add: with_prelude_def)

lemma sorted_entries_length [simp]: "length (sorted_entries m) = length m"
  by (simp add: sorted_entries_def)

lemma entries_names: "map f (sorted_entries a) = map f (sorted_entries b) \<Longrightarrow> length a = length b"
  by (metis length_map sorted_entries_length)

lemma names_only: "map fst a = map fst b \<Longrightarrow> map (\<lambda>(k, v). g k) a = map (\<lambda>(k, v). g k) b"
  by (metis (mono_tags, lifting) case_prod_beta map_eq_conv map_map comp_apply)

text \<open>
  C20: the value of an environment variable is on no command line. Whatever else is equal, two environments with the same
  names make docker start with exactly the same arguments. For Kubernetes and for the bare host over ssh there is one command line for both: an
  environment that the prelude accepts starts the tool with that line, and one it refuses (a value with a line break, an unusable name) starts nothing. So what \<^verbatim>\<open>ps\<close> shows on the
  drill host, and what crosses to the target, depends on the names and on whether anything is started, and on nothing else of the values.
\<close>

theorem environment_off_command_lines:
  assumes "map fst (sorted_entries e1) = map fst (sorted_entries e2)"
  shows "command_lines (docker_exec h i (x\<lparr> ex_env := e1 \<rparr>) io) = command_lines (docker_exec h i (x\<lparr> ex_env := e2 \<rparr>) io) \<and>
    (\<exists>line. \<forall>e \<in> {e1, e2}. command_lines (k8s_exec h s (x\<lparr> ex_env := e \<rparr>) io) =
      map cl_args (cw_calls io) @ (case env_prelude_lines (cv_printable h) e of Inr block \<Rightarrow> [line] | Inl refusal \<Rightarrow> [])) \<and>
    (\<exists>line. \<forall>e \<in> {e1, e2}. command_lines (remote_exec h p t (x\<lparr> ex_env := e \<rparr>) io) =
      map cl_args (cw_calls io) @ (case env_prelude_lines (cv_printable h) e of Inr block \<Rightarrow> [line] | Inl refusal \<Rightarrow> []))"
proof -
  have len: "length e1 = length e2" using entries_names [OF assms] .
  have d: "docker_exec_args i (x\<lparr> ex_env := e1 \<rparr>) = docker_exec_args i (x\<lparr> ex_env := e2 \<rparr>)"
    using names_only [OF assms, of "\<lambda>k. [''-e'', k]"] by (simp add: docker_exec_args_def)
  let ?shell = "if e1 = [] then [] else [''sh'', ''-c'', env_prelude_script (length e1), ''sh'']"
  have w: "with_prelude (cv_printable h) (x\<lparr> ex_env := e \<rparr>) = (case env_prelude_lines (cv_printable h) e of
      Inr block \<Rightarrow> Inr (?shell, if e1 = [] then ex_stdin x else block @ ex_stdin x) | Inl refusal \<Rightarrow> Inl refusal)"
    if "length e = length e1" for e
  proof -
    have "e = [] \<longleftrightarrow> e1 = []" using that by (metis length_0_conv)
    with that show ?thesis by (cases "e = []") (auto simp: with_prelude_def env_prelude_lines_def sorted_entries_def split: sum.split)
  qed
  have k: "command_lines (k8s_exec h s (x\<lparr> ex_env := e \<rparr>) io) = map cl_args (cw_calls io) @
      (case env_prelude_lines (cv_printable h) e of Inr block \<Rightarrow> [k8s_exec_args s (x\<lparr> ex_env := e1 \<rparr>) ?shell] | Inl refusal \<Rightarrow> [])" if "length e = length e1" for e
  proof (cases "env_prelude_lines (cv_printable h) e")
    case (Inl y)
    with w [OF that] show ?thesis by (simp add: command_lines_def k8s_exec_def)
  next
    case (Inr block)
    have "e = [] \<longleftrightarrow> e1 = []" using that by (metis length_0_conv)
    then have "k8s_exec_args s (x\<lparr> ex_env := e \<rparr>) sh = k8s_exec_args s (x\<lparr> ex_env := e1 \<rparr>) sh" for sh by (simp add: k8s_exec_args_def)
    with k8s_exec_lines [OF w [OF that, unfolded Inr sum.case]] Inr show ?thesis by simp
  qed
  have r: "command_lines (remote_exec h p t (x\<lparr> ex_env := e \<rparr>) io) = map cl_args (cw_calls io) @
      (case env_prelude_lines (cv_printable h) e of Inl refusal \<Rightarrow> [] | Inr block \<Rightarrow>
        [[''-o'', ''BatchMode=yes'', rp_target p, join_with '' '' (map sh_quote (exec_prefix t @ ?shell @ ex_argv x))]])" if "length e = length e1" for e
  proof (cases "env_prelude_lines (cv_printable h) e")
    case (Inl y)
    with w [OF that] show ?thesis by (simp add: command_lines_def remote_exec_def)
  next
    case (Inr block)
    with remote_exec_lines [OF w [OF that, unfolded Inr sum.case]] show ?thesis by simp
  qed
  show ?thesis
    using len k r unfolding docker_exec_lines d
    by (intro conjI refl exI [of _ "k8s_exec_args s (x\<lparr> ex_env := e1 \<rparr>) ?shell"]
        exI [of _ "[''-o'', ''BatchMode=yes'', rp_target p, join_with '' '' (map sh_quote (exec_prefix t @ ?shell @ ex_argv x))]"]) auto
qed

text \<open>
  An adapter's command cannot change the unit it runs in. Every command line that executing on a bare host sends is
  read by the remote shell as one command whose words are the provider's \<^verbatim>\<open>systemd-run\<close> options, the terminator, and then
  the prelude and the adapter's arguments; the words before the first terminator (all that \<^verbatim>\<open>systemd-run\<close> takes for its own options) are the
  provider's, so no argument of the adapter can name another user, slice or property.
\<close>

theorem payload_after_terminator:
  "command_lines (remote_exec h p s x io) = map cl_args (cw_calls io) \<or>
   (\<exists>line words shell. command_lines (remote_exec h p s x io) = map cl_args (cw_calls io) @ [[''-o'', ''BatchMode=yes'', rp_target p, line]] \<and>
     shell_words False None line = Some words \<and> words = exec_prefix s @ shell @ ex_argv x \<and>
     takeWhile (\<lambda>w. w \<noteq> ''--'') words = butlast (exec_prefix s))"
proof (cases "with_prelude (cv_printable h) x")
  case (Inl e)
  then show ?thesis by (simp add: command_lines_def remote_exec_def)
next
  case (Inr b)
  then obtain shell stdin where b: "with_prelude (cv_printable h) x = Inr (shell, stdin)" by (cases b) auto
  have "takeWhile (\<lambda>w. w \<noteq> ''--'') (exec_prefix s @ shell @ ex_argv x) = butlast (exec_prefix s)"
    by (simp add: exec_prefix_def slice_of_def)
  with remote_exec_lines [OF b] shell_words_join show ?thesis by blast
qed

text \<open>How \<^verbatim>\<open>docker run\<close> reads its arguments, for the flags that take a value in the next word: up to the first word that is no flag.\<close>

fun run_options :: "bytes list \<Rightarrow> ((bytes \<times> bytes) list \<times> bytes list) option" where
  "run_options [] = None"
| "run_options (w # ws) =
    (if w = ''-d'' then map_option (apfst ((#) (w, []))) (run_options ws)
     else if prefix ''-'' w then (case ws of [] \<Rightarrow> None | v # t \<Rightarrow> map_option (apfst ((#) (w, v))) (run_options t))
     else Some ([], w # ws))"

lemma docker_options_read:
  "docker_options pr d ps = Inr args \<Longrightarrow> \<not> prefix ''-'' img \<Longrightarrow>
    \<exists>opts. run_options (args @ img # rest) = Some (opts, img # rest) \<and> fst ` set opts \<subseteq> {''--memory'', ''--cpus'', ''-e''}"
proof (induction ps arbitrary: args)
  case (Cons kv ps)
  obtain k v where kv: "kv = (k, v)" by fastforce
  from Cons.prems(1) kv obtain a b where ab: "args = a @ b" "docker_options pr d ps = Inr b"
    "a = [] \<or> (\<exists>f u. a = [f, u] \<and> f \<in> {''--memory'', ''--cpus'', ''-e''})"
    by (auto simp: andthen_Inr map_sum_Inr Let_def split: option.splits if_splits)
  from Cons.IH [OF ab(2) Cons.prems(2)] obtain opts where o: "run_options (b @ img # rest) = Some (opts, img # rest)"
    "fst ` set opts \<subseteq> {''--memory'', ''--cpus'', ''-e''}" by blast
  from ab(3) show ?case
  proof
    assume "a = []"
    with ab o show ?thesis by auto
  next
    assume "\<exists>f u. a = [f, u] \<and> f \<in> {''--memory'', ''--cpus'', ''-e''}"
    then obtain f u where "a = [f, u]" "f \<in> {''--memory'', ''--cpus'', ''-e''}" by blast
    with ab o show ?thesis by (intro exI [of _ "(f, u) # opts"]) auto
  qed
qed auto

text \<open>
  A docker sandbox publishes no port. If the run arguments are accepted and the image does not begin with a dash, then docker reads from
  them exactly the provider's options, the image, and the words of the command: the flags are detaching, a name, labels, the
  network, memory, cpus and environment, whatever the parameters hold; the network is \<^verbatim>\<open>none\<close> unless a parameter names one.
\<close>

theorem no_published_ports:
  assumes "docker_run_args pr owner host d rnd ps = Inr args" "\<not> prefix ''-'' (param_value ps ''image'')"
  shows "\<exists>opts. run_options (tl args) = Some (opts, param_value ps ''image'' # text_fields (param_value ps ''command'')) \<and>
    fst ` set opts \<subseteq> {''-d'', ''--name'', ''--label'', ''--network'', ''--memory'', ''--cpus'', ''-e''} \<and>
    map_of opts ''--network'' = Some (case map_of ps ''network'' of None \<Rightarrow> ''none'' | Some n \<Rightarrow> n)"
proof -
  from assms(1) obtain opts0 where o0: "docker_options pr d (sorted_entries ps) = Inr opts0"
    and args: "args = [''run'', ''-d'', ''--name'', ''probavi-sbx-'' @ rnd, ''--label'', label_sandbox @ ''=1'',
          ''--label'', label_pid @ CHR ''='' # owner, ''--label'', label_host @ CHR ''='' # host, ''--network'',
          case map_of ps ''network'' of None \<Rightarrow> ''none'' | Some n \<Rightarrow> n] @ opts0 @ [param_value ps ''image''] @ text_fields (param_value ps ''command'')"
    by (auto simp: docker_run_args_def map_sum_Inr Let_def split: if_splits)
  from docker_options_read [OF o0 assms(2), of "text_fields (param_value ps ''command'')"]
  obtain opts where "run_options (opts0 @ param_value ps ''image'' # text_fields (param_value ps ''command'')) =
      Some (opts, param_value ps ''image'' # text_fields (param_value ps ''command''))"
    "fst ` set opts \<subseteq> {''--memory'', ''--cpus'', ''-e''}" by blast
  then show ?thesis by (auto simp: args)
qed

end
