(* ===== verification/SandboxSweep.thy ===== *)
theory SandboxSweep
  imports SandboxProps
begin

text \<open>
  The orphan sweeps of the three providers as interpretations of \<open>sweeper\<close>, and what follows: the sandbox of a live
  process and the sandbox of another host are left alone. The locale's facts say what was removed
  had a reason; the reason is spelled out here per provider from the answers of its tool.
\<close>

subsection \<open>Docker\<close>

definition docker_target :: "cli_call \<Rightarrow> bytes option" where
  "docker_target c = (case cl_args c of [a, b, d, i] \<Rightarrow> if [a, b, d] = [''rm'', ''-f'', ''-v''] then Some i else None | _ \<Rightarrow> None)"

definition docker_unowned :: "'w cli_host \<Rightarrow> provider \<Rightarrow> bytes \<Rightarrow> bool" where
  "docker_unowned h p i \<longleftrightarrow> (\<exists>w out err t w'. cv_run h (docker_call NoStdin [] [''inspect'', ''-f'', docker_label_format, i]) w = (CliRan out err t 0, w') \<and>
     docker_labels_orphaned p (owner_alive (cv_kernel h w')) out)"

interpretation docker_sweeper: sweeper "docker_is_orphan h p" "docker_remove h" "\<lambda>i. i" docker_target "docker_unowned h p" for h p
proof unfold_locales
  fix i io r io'
  assume "docker_is_orphan h p i io = (r, io')"
  then show "\<exists>cs. cw_calls io' = cw_calls io @ cs \<and> list_all (\<lambda>c. docker_target c = None) cs"
    by (auto simp: docker_is_orphan_def cli_run_def docker_call_def docker_target_def split: prod.splits cli_answer.splits if_splits)
next
  fix i io e io'
  assume "docker_remove h i io = (e, io')"
  then show "\<exists>cs. cw_calls io' = cw_calls io @ cs \<and> list_all (\<lambda>c. docker_target c \<in> {None, Some i}) cs"
    by (auto simp: docker_remove_def cli_run_def docker_call_def docker_target_def split: prod.splits cli_answer.splits if_splits)
next
  fix i io io'
  assume "docker_is_orphan h p i io = (Inr True, io')"
  then show "docker_unowned h p i"
    by (fastforce simp: docker_is_orphan_def docker_unowned_def cli_run_def split: prod.splits cli_answer.splits if_splits)
qed

lemma docker_sweep_spared:
  assumes "docker_sweep h p io = ((removed, e), io')"
  shows "\<exists>cs. cw_calls io' = cw_calls io @ cs \<and> (\<forall>c \<in> set cs. \<forall>k. docker_target c = Some k \<longrightarrow> docker_unowned h p k) \<and>
    (\<forall>k \<in> set removed. docker_unowned h p k)"
proof -
  obtain a io1 where a: "cli_run h (docker_call NoStdin [] [''ps'', ''-aq'', ''--filter'', ''label='' @ label_sandbox @ ''=1'']) io = (a, io1)" by fastforce
  then have c1: "cw_calls io1 = cw_calls io @ [docker_call NoStdin [] [''ps'', ''-aq'', ''--filter'', ''label='' @ label_sandbox @ ''=1'']]"
    "docker_target (docker_call NoStdin [] [''ps'', ''-aq'', ''--filter'', ''label='' @ label_sandbox @ ''=1'']) = None"
    by (auto simp: cli_run_def docker_target_def docker_call_def split: prod.splits)
  show ?thesis
  proof (cases "\<exists>out err t. a = CliRan out err t 0")
    case True
    with assms a obtain ids where "sweep_each (docker_is_orphan h p) (docker_remove h) (\<lambda>i. i) ids [] io1 = ((removed, e), io')"
      by (auto simp: docker_sweep_def)
    from docker_sweeper.sweep_removes_unowned [OF this] c1 show ?thesis by fastforce
  next
    case False
    with assms a c1 show ?thesis by (cases a) (auto simp: docker_sweep_def)
  qed
qed

definition sent :: "'w cli_io \<Rightarrow> 'w cli_io \<Rightarrow> cli_call list" where
  "sent io io' = drop (length (cw_calls io)) (cw_calls io')"

lemma sent_append: "cw_calls io' = cw_calls io @ cs \<Longrightarrow> sent io io' = cs"
  by (simp add: sent_def)

text \<open>
  C16: a docker sweep leaves alone what is not an orphan of this host. If the labels of a container name another drill host, or an
  owner that is alive whenever it is asked for, then the sweep sends no removal of that container and does not report it
  as removed, whatever else is on the daemon and whichever commands fail.
\<close>

theorem docker_sweep_spares:
  assumes sweep: "docker_sweep h p io = ((removed, e), io')"
    and labels: "\<And>w out err t w'. cv_run h (docker_call NoStdin [] [''inspect'', ''-f'', docker_label_format, i]) w = (CliRan out err t 0, w') \<Longrightarrow>
      trim_space out = host @ CHR ''|'' # owner"
    and host: "CHR ''|'' \<notin> set host"
    and owned: "host \<noteq> [] \<and> host \<noteq> pv_host p \<or> (\<forall>w. owner_alive (cv_kernel h w) owner)"
  shows "docker_call NoStdin [] [''rm'', ''-f'', ''-v'', i] \<notin> set (sent io io') \<and> i \<notin> set removed"
proof -
  have "\<not> docker_unowned h p i"
    using labels owned cut_notin [OF host, of owner] by (auto simp: docker_unowned_def docker_labels_orphaned_def)
  moreover from docker_sweep_spared [OF sweep] obtain cs where cs: "cw_calls io' = cw_calls io @ cs"
    "\<forall>c \<in> set cs. \<forall>k. docker_target c = Some k \<longrightarrow> docker_unowned h p k" "\<forall>k \<in> set removed. docker_unowned h p k" by blast
  moreover have "docker_target (docker_call NoStdin [] [''rm'', ''-f'', ''-v'', i]) = Some i"
    by (simp add: docker_target_def docker_call_def)
  ultimately show ?thesis using sent_append [OF cs(1)] by blast
qed

text \<open>A world in which every command succeeds and writes what \<open>answer\<close> says.\<close>

definition answering :: "(cli_call \<Rightarrow> bytes) \<Rightarrow> unit cli_host" where
  "answering answer = \<lparr> cv_run = (\<lambda>c w. (CliRan (answer c) [] False 0, w)), cv_wait = (\<lambda>w. (Some ''context deadline exceeded'', w)),
     cv_stat = (\<lambda>f w. Inr 3), cv_open = (\<lambda>f w. Inr ''abc''), cv_fstat = (\<lambda>f w. Inr 3), cv_random = (\<lambda>w. (Some ''abcd'', w)),
     cv_elapsed = (\<lambda>w. 1), cv_kernel = (\<lambda>w. \<lparr> kn_signal = (\<lambda>p. p = 5), kn_stat = (\<lambda>p. None) \<rparr>), cv_float = (\<lambda>s. None),
     cv_json_error = (\<lambda>s. ''unexpected end of JSON input''), cv_printable = (\<lambda>r. True) \<rparr>"

abbreviation idle :: "unit cli_io" where "idle \<equiv> \<lparr> cw_world = (), cw_calls = [] \<rparr>"

definition sample_provider :: provider where "sample_provider = \<lparr> pv_pid = 9, pv_host = ''h1'' \<rparr>"

lemma answering_run [simp]: "cv_run (answering a) c w = (CliRan (a c) [] False 0, w)"
  by (simp add: answering_def)

lemma pair_parts: "r = ((fst (fst r), snd (fst r)), snd r)"
  by simp

theorem docker_sweep_spares_witness:
  "''c1'' \<notin> set (fst (fst (docker_sweep (answering (\<lambda>c. if hd (cl_args c) = ''ps'' then ''c1'' else ''h1|5'')) sample_provider idle)))"
proof -
  have "trim_space ''h1|5'' = ''h1'' @ CHR ''|'' # ''5''" by (subst trim_space_graphic) (simp_all add: graphic_def)
  moreover have "owner_alive (cv_kernel (answering a) w) ''5''" for a w
  proof -
    have "parse_int64 ''5'' = Some 5" by (simp add: parse_int64_def is_digit_def digits_val_def digit_val_def)
    then show ?thesis by (simp add: owner_alive_def answering_def process_alive_def representable_as_pid_def)
  qed
  ultimately show ?thesis
    by (intro conjunct2 [OF docker_sweep_spares [OF pair_parts, where host = "''h1''" and owner = "''5''"]]) (auto simp: docker_call_def)
qed

subsection \<open>Kubernetes\<close>

definition k8s_target :: "cli_call \<Rightarrow> bytes option" where
  "k8s_target c = (case cl_args c of a # b # d # ns # job # rest \<Rightarrow> if [a, b, d] = [''delete'', ''job'', ''-n''] then Some (ns @ CHR ''/'' # job) else None | _ \<Rightarrow> None)"

definition k8s_unowned :: "'w cli_host \<Rightarrow> provider \<Rightarrow> job_item \<Rightarrow> bool" where
  "k8s_unowned h p i \<longleftrightarrow> (\<exists>w. k8s_is_orphan p (owner_alive (cv_kernel h w)) (ji_labels i))"

interpretation k8s_sweeper: sweeper "k8s_judge h p" "\<lambda>i. k8s_remove h (ji_namespace i) (ji_name i)" job_id k8s_target "k8s_unowned h p" for h p
proof unfold_locales
  fix i io r io'
  assume "k8s_judge h p i io = (r, io')"
  then show "\<exists>cs. cw_calls io' = cw_calls io @ cs \<and> list_all (\<lambda>c. k8s_target c = None) cs"
    by (auto simp: k8s_judge_def)
next
  fix i :: job_item and io e io'
  assume "k8s_remove h (ji_namespace i) (ji_name i) io = (e, io')"
  then show "\<exists>cs. cw_calls io' = cw_calls io @ cs \<and> list_all (\<lambda>c. k8s_target c \<in> {None, Some (job_id i)}) cs"
    by (auto simp: k8s_remove_def cli_run_def kubectl_call_def k8s_target_def job_id_def split: prod.splits cli_answer.splits if_splits)
next
  fix i io io'
  assume "k8s_judge h p i io = (Inr True, io')"
  then show "k8s_unowned h p i" by (auto simp: k8s_judge_def k8s_unowned_def)
qed

definition list_jobs_call :: cli_call where
  "list_jobs_call = kubectl_call NoStdin [''get'', ''jobs'', ''--all-namespaces'', ''-l'', k8s_label_sandbox @ ''=1'', ''-o'', ''json'']"

text \<open>
  A Kubernetes sweep leaves alone what is not an orphan of this host. If every job that any listing shows under a namespace and a name
  carries the label of another host, or of an owner that is alive whenever it is asked for, then the sweep sends no
  deletion of that job and does not report it as removed.
\<close>

theorem k8s_sweep_spares:
  assumes sweep: "k8s_sweep h p io = ((removed, e), io')"
    and labels: "\<And>w out err t w' items. cv_run h list_jobs_call w = (CliRan out err t 0, w') \<Longrightarrow> unmarshal_jobs out = Some items \<Longrightarrow>
      \<forall>i \<in> set items. job_id i = ns @ CHR ''/'' # name \<longrightarrow>
        param_value (ji_labels i) k8s_label_host \<noteq> pv_host p \<or> (\<forall>w. owner_alive (cv_kernel h w) (param_value (ji_labels i) k8s_label_pid))"
  shows "kubectl_call NoStdin [''delete'', ''job'', ''-n'', ns, name, ''--cascade=foreground'', ''--ignore-not-found''] \<notin> set (sent io io') \<and>
    ns @ CHR ''/'' # name \<notin> set removed"
proof -
  let ?del = "kubectl_call NoStdin [''delete'', ''job'', ''-n'', ns, name, ''--cascade=foreground'', ''--ignore-not-found'']"
  obtain a w1 where a: "cv_run h list_jobs_call (cw_world io) = (a, w1)" by fastforce
  have del: "k8s_target ?del = Some (ns @ CHR ''/'' # name)" "k8s_target list_jobs_call = None" "?del \<noteq> list_jobs_call"
    by (simp_all add: k8s_target_def kubectl_call_def list_jobs_call_def)
  show ?thesis
  proof (cases "\<exists>out err t items. a = CliRan out err t 0 \<and> unmarshal_jobs out = Some items")
    case True
    then obtain out err t items where ok: "a = CliRan out err t 0" "unmarshal_jobs out = Some items" by blast
    have "sweep_each (k8s_judge h p) (\<lambda>i. k8s_remove h (ji_namespace i) (ji_name i)) job_id items []
        (io\<lparr> cw_world := w1, cw_calls := cw_calls io @ [list_jobs_call] \<rparr>) = ((removed, e), io')"
      using sweep a ok by (simp add: k8s_sweep_def cli_run_def list_jobs_call_def)
    from k8s_sweeper.sweep_removes_unowned [OF this] obtain cs where cs: "cw_calls io' = cw_calls io @ list_jobs_call # cs"
      "\<forall>c \<in> set cs. \<forall>k. k8s_target c = Some k \<longrightarrow> k \<in> job_id ` {i \<in> set items. k8s_unowned h p i}"
      "set removed \<subseteq> job_id ` {i \<in> set items. k8s_unowned h p i}" by auto
    have "ns @ CHR ''/'' # name \<notin> job_id ` {i \<in> set items. k8s_unowned h p i}"
    proof
      assume "ns @ CHR ''/'' # name \<in> job_id ` {i \<in> set items. k8s_unowned h p i}"
      then obtain i where i: "i \<in> set items" "job_id i = ns @ CHR ''/'' # name" "k8s_unowned h p i" by auto
      with labels [OF a [unfolded ok(1)] ok(2)] show False by (auto simp: k8s_unowned_def k8s_is_orphan_def split: if_splits)
    qed
    with cs del sent_append [OF cs(1)] show ?thesis by auto
  next
    case False
    with sweep a del have "cw_calls io' = cw_calls io @ [list_jobs_call] \<and> removed = []"
      by (cases a) (auto simp: k8s_sweep_def cli_run_def list_jobs_call_def split: if_splits option.splits)
    with del sent_append [of io' io] show ?thesis by auto
  qed
qed

definition sample_jobs :: json where
  "sample_jobs = JObj [(''items'', JArr [JObj [(''metadata'', JObj [(''name'', JStr ''j''), (''namespace'', JStr ''d''),
     (''labels'', JObj [(''com.probavi.host'', JStr ''h2'')])])]])]"

lemma sample_jobs_read:
  "unmarshal_jobs (render quote_runes sample_jobs) = Some [\<lparr> ji_name = ''j'', ji_namespace = ''d'', ji_labels = [(''com.probavi.host'', ''h2'')] \<rparr>]"
proof -
  have "parse_first (render quote_runes sample_jobs) = Some (sample_jobs, [])"
    by (intro cq.parse_first_render) (simp_all add: sample_jobs_def ascii_valid max_depth_def)
  then have "unmarshal_tree (render quote_runes sample_jobs) = Some sample_jobs" by (simp add: unmarshal_tree_def skip_ws_def)
  then show ?thesis
    by (simp add: unmarshal_jobs_def sample_jobs_def job_list_shape_def field_name_def set_members_def set_slice_def set_job_item_def zero_job_def
        set_str_def set_map_def enumerate_eq_zip)
qed

theorem k8s_sweep_spares_witness:
  "''d/j'' \<notin> set (fst (fst (k8s_sweep (answering (\<lambda>c. render quote_runes sample_jobs)) sample_provider idle)))"
proof -
  have "''d'' @ CHR ''/'' # ''j'' \<notin> set (fst (fst (k8s_sweep (answering (\<lambda>c. render quote_runes sample_jobs)) sample_provider idle)))"
    by (intro conjunct2 [OF k8s_sweep_spares [OF pair_parts]])
      (auto simp: sample_jobs_read param_value_def sample_provider_def k8s_label_host_def)
  then show ?thesis by simp
qed

subsection \<open>The bare host\<close>

definition remote_target :: "cli_call \<Rightarrow> bytes option" where
  "remote_target c = (case cl_args c of [o1, o2, host, line] \<Rightarrow>
     (case shell_words False None line of Some [a, b, script, d, unit, timer, workspace] \<Rightarrow>
        if [a, b, script, d] = [''sh'', ''-c'', destroy_script, ''sh''] then cut_suffix unit ''.slice'' else None
      | _ \<Rightarrow> None)
   | _ \<Rightarrow> None)"

definition owner_call :: "remote_provider \<Rightarrow> bytes \<Rightarrow> cli_call" where
  "owner_call p name = ssh_call p NoStdin [''sh'', ''-c'', owner_script, ''sh'', path_join2 (rp_root p) name]"

definition destroy_call :: "remote_provider \<Rightarrow> bytes \<Rightarrow> cli_call" where
  "destroy_call p name = ssh_call p NoStdin [''sh'', ''-c'', destroy_script, ''sh'', slice_of name, reaper_of name @ ''.timer'', path_join2 (rp_root p) name]"

definition remote_unowned :: "'w cli_host \<Rightarrow> remote_provider \<Rightarrow> bytes \<Rightarrow> bool" where
  "remote_unowned h p name \<longleftrightarrow> (\<exists>w out err t w'. cv_run h (owner_call p name) w = (CliRan out err t 0, w') \<and>
     marker_orphaned (pv_host p) (owner_alive (cv_kernel h w')) out)"

lemma remote_target_words:
  "remote_target (ssh_call p stdin argv) = (case argv of [a, b, script, d, unit, timer, workspace] \<Rightarrow>
     if [a, b, script, d] = [''sh'', ''-c'', destroy_script, ''sh''] then cut_suffix unit ''.slice'' else None | _ \<Rightarrow> None)"
  by (simp add: remote_target_def ssh_call_def shell_words_join)

lemma cut_slice [simp]: "cut_suffix (slice_of name) ''.slice'' = Some name"
  by (simp add: cut_suffix_def slice_of_def suffix_def)

lemma destroy_target: "remote_target (destroy_call p name) = Some name"
  by (simp add: destroy_call_def remote_target_words)

interpretation remote_sweeper: sweeper "remote_is_orphan h p" "\<lambda>name. remote_destroy h p name (path_join2 (rp_root p) name)" "\<lambda>i. i" remote_target
  "remote_unowned h p" for h p
proof unfold_locales
  fix i io r io'
  assume "remote_is_orphan h p i io = (r, io')"
  then show "\<exists>cs. cw_calls io' = cw_calls io @ cs \<and> list_all (\<lambda>c. remote_target c = None) cs"
    by (auto simp: remote_is_orphan_def ssh_def cli_run_def remote_target_words split: prod.splits cli_answer.splits if_splits)
next
  fix i io e io'
  assume "remote_destroy h p i (path_join2 (rp_root p) i) io = (e, io')"
  then show "\<exists>cs. cw_calls io' = cw_calls io @ cs \<and> list_all (\<lambda>c. remote_target c \<in> {None, Some i}) cs"
    by (auto simp: remote_destroy_def ssh_def cli_run_def remote_target_words split: prod.splits cli_answer.splits if_splits)
next
  fix i io io'
  assume "remote_is_orphan h p i io = (Inr True, io')"
  then show "remote_unowned h p i"
    by (fastforce simp: remote_is_orphan_def remote_unowned_def owner_call_def ssh_def cli_run_def split: prod.splits cli_answer.splits if_splits)
qed

definition list_call :: "remote_provider \<Rightarrow> cli_call" where
  "list_call p = ssh_call p NoStdin [''sh'', ''-c'', list_script, ''sh'', rp_root p]"

text \<open>
  C17: a sweep of a bare host leaves alone what is not an orphan of this host, and nothing that does not carry the name of a sandbox. If
  the owner marker of a workspace reads as another drill host's, or as an owner that is alive whenever it is asked for, or the
  name lacks the prefix, then the sweep sends no teardown of it and does not report it as removed.
\<close>

theorem remote_sweep_spares:
  assumes sweep: "remote_sweep h p io = ((removed, e), io')"
    and owned: "\<And>w out err t w'. cv_run h (owner_call p name) w = (CliRan out err t 0, w') \<Longrightarrow> prefix name_prefix name \<Longrightarrow>
      trim_space out \<noteq> ''MISSING'' \<and> text_fields (trim_space out) = [host, owner] \<and>
      (host \<noteq> pv_host p \<or> (\<forall>w. owner_alive (cv_kernel h w) owner))"
  shows "destroy_call p name \<notin> set (sent io io') \<and> name \<notin> set removed"
proof -
  obtain a w1 where a: "cv_run h (list_call p) (cw_world io) = (a, w1)" by fastforce
  have none: "remote_target (list_call p) = None" by (simp add: list_call_def remote_target_words)
  then have ne: "destroy_call p name \<noteq> list_call p" using destroy_target [of p name] by auto
  show ?thesis
  proof (cases "\<exists>out err t. a = CliRan out err t 0")
    case True
    then obtain out err t where ok: "a = CliRan out err t 0" by blast
    let ?names = "filter (prefix name_prefix) (split_char newline out)"
    have "sweep_each (remote_is_orphan h p) (\<lambda>name. remote_destroy h p name (path_join2 (rp_root p) name)) (\<lambda>i. i) ?names []
        (io\<lparr> cw_world := w1, cw_calls := cw_calls io @ [list_call p] \<rparr>) = ((removed, e), io')"
      using sweep a ok by (simp add: remote_sweep_def ssh_def cli_run_def list_call_def)
    from remote_sweeper.sweep_removes_unowned [OF this] obtain cs where cs: "cw_calls io' = cw_calls io @ list_call p # cs"
      "\<forall>c \<in> set cs. \<forall>k. remote_target c = Some k \<longrightarrow> k \<in> {i \<in> set ?names. remote_unowned h p i}"
      "set removed \<subseteq> {i \<in> set ?names. remote_unowned h p i}" by auto
    have "name \<notin> {i \<in> set ?names. remote_unowned h p i}"
    proof
      assume "name \<in> {i \<in> set ?names. remote_unowned h p i}"
      then have "prefix name_prefix name" "remote_unowned h p name" by auto
      with owned show False by (fastforce simp: remote_unowned_def marker_orphaned_def split: if_splits)
    qed
    with cs ne destroy_target sent_append [OF cs(1)] show ?thesis by auto
  next
    case False
    with sweep a have "cw_calls io' = cw_calls io @ [list_call p] \<and> removed = []"
      by (cases a) (auto simp: remote_sweep_def ssh_def cli_run_def list_call_def split: if_splits)
    with ne sent_append [of io' io] show ?thesis by auto
  qed
qed

lemma ssh_call_inject: "ssh_call p a x = ssh_call p b y \<Longrightarrow> x = y"
  by (auto simp: ssh_call_def) (metis option.inject shell_words_join)

definition sample_remote :: remote_provider where
  "sample_remote = \<lparr> pv_pid = 9, pv_host = ''h1'', rp_target = ''u@t'', rp_root = ''/w'' \<rparr>"

theorem remote_sweep_spares_witness:
  "''probavi-sbx-a'' \<notin> set (fst (fst (remote_sweep
    (answering (\<lambda>c. if c = list_call sample_remote then ''probavi-sbx-a'' else ''h2 5'')) sample_remote idle)))"
proof -
  have t: "trim_space ''h2 5'' = ''h2 5''" by (rule trim_space_graphic) (simp_all add: graphic_def)
  have f: "text_fields ''h2 5'' = [''h2'', ''5'']" by (simp add: text_fields_def fields_ascii space_runes_def)
  have n: "owner_call sample_remote name \<noteq> list_call sample_remote" for name
    by (auto simp: owner_call_def list_call_def owner_script_def list_script_def dest!: ssh_call_inject)
  show ?thesis
    by (intro conjunct2 [OF remote_sweep_spares [OF pair_parts, where host = "''h2''" and owner = "''5''"]])
      (auto simp: t f n sample_remote_def [THEN arg_cong [where f = pv_host]])
qed

end
