(* ===== verification/SandboxLife.thy ===== *)
theory SandboxLife
  imports SandboxSweep
begin

text \<open>
  Creating and filling a sandbox: a creation that fails after its runtime accepted it ends with the removal of
  what was created, a copy into a pod that is reported as complete was counted in full.
\<close>

lemma cli_run_calls: "cli_run h c io = (a, io') \<Longrightarrow> cw_calls io' = cw_calls io @ [c] \<and> cv_run h c (cw_world io) = (a, cw_world io')"
  by (auto simp: cli_run_def split: prod.splits)

lemma docker_destroy_last:
  "docker_destroy h i io = (e, io') \<Longrightarrow> last (cw_calls io') = docker_call NoStdin [] [''rm'', ''-f'', ''-v'', i]"
  by (auto simp: docker_destroy_def docker_remove_def split: prod.splits cli_answer.splits if_splits dest!: cli_run_calls)

lemma k8s_destroy_last:
  "k8s_destroy h s io = (e, io') \<Longrightarrow> last (cw_calls io') =
    kubectl_call NoStdin [''delete'', ''job'', ''-n'', kb_namespace s, kb_job s, ''--cascade=foreground'', ''--ignore-not-found'']"
  by (auto simp: k8s_destroy_def k8s_remove_def split: prod.splits cli_answer.splits if_splits dest!: cli_run_calls)

text \<open>
  A failed creation leaks no container. If the run arguments are accepted and \<^verbatim>\<open>docker run\<close> succeeds, but creating still
  returns an error (the container never reached the running state, or asking failed), then the last command sent is the forced removal of
  exactly the container that was started, with its volumes.
\<close>

theorem failed_create_removes_container:
  assumes "docker_create fuel h p ps io = (Some (Inl e), io')"
    and "random_suffix h (pv_pid p) io = (rnd, io0)"
    and "docker_run_args (cv_printable h) (owner_id (cv_kernel h (cw_world io0)) (pv_pid p)) (pv_host p) docker_params rnd ps = Inr args"
    and "cv_run h (docker_call NoStdin [] args) (cw_world io0) = (CliRan out err t 0, w)"
  shows "last (cw_calls io') = docker_call NoStdin [] [''rm'', ''-f'', ''-v'', trim_space out]"
  using assms by (auto simp: docker_create_def cli_run_def Let_def split: prod.splits option.splits dest: docker_destroy_last)

text \<open>The same of a Job: it is deleted, with its pod.\<close>

theorem failed_create_deletes_job:
  assumes "k8s_create fuel h p ps io = (Some (Inl e), io')"
    and "random_suffix h (pv_pid p) io = (rnd, io0)"
    and "k8s_manifest (cv_printable h) (owner_id (cv_kernel h (cw_world io0)) (pv_pid p)) (pv_host p) k8s_params rnd ps = Inr (m, ns)"
    and "cv_run h (kubectl_call (TextStdin (marshal (job_json m))) [''create'', ''-n'', ns, ''-f'', ''-'']) (cw_world io0) = (CliRan out err t 0, w)"
  shows "last (cw_calls io') = kubectl_call NoStdin [''delete'', ''job'', ''-n'', ns, jm_name (jf_metadata m), ''--cascade=foreground'', ''--ignore-not-found'']"
  using assms by (auto simp: k8s_create_def cli_run_def Let_def split: prod.splits option.splits sum.splits dest: k8s_destroy_last)

definition version_call :: "remote_provider \<Rightarrow> cli_call" where
  "version_call p = ssh_call p NoStdin [''systemctl'', ''--version'']"

definition user_call :: "remote_provider \<Rightarrow> cli_call" where
  "user_call p = ssh_call p NoStdin [''id'', ''-un'']"

lemma probe_calls: "probe_systemd h p io = (e, io') \<Longrightarrow> cw_calls io' = cw_calls io @ [version_call p]"
  by (auto simp: probe_systemd_def ssh_def version_call_def Let_def split: prod.splits cli_answer.splits if_splits option.splits dest!: cli_run_calls)

lemma user_calls: "remote_user h p io = (r, io') \<Longrightarrow> cw_calls io' = cw_calls io @ [user_call p]"
  by (auto simp: remote_user_def ssh_def user_call_def split: prod.splits cli_answer.splits if_splits dest!: cli_run_calls)

lemma probe_user_calls:
  assumes "probe_systemd h p io = (None, io1)" "remote_user h p io1 = (r, io2)"
  shows "cw_calls io2 = cw_calls io @ [version_call p, user_call p]"
  using probe_calls [OF assms(1)] user_calls [OF assms(2)] by simp

definition step_call :: "remote_provider \<Rightarrow> bytes \<times> bytes \<times> bytes \<times> bytes list \<Rightarrow> cli_call" where
  "step_call p t = (case t of (name, what, advice, argv) \<Rightarrow> ssh_call p NoStdin argv)"

lemma step_calls: "setup_step h p name what advice argv io = (e, io') \<Longrightarrow> cw_calls io' = cw_calls io @ [step_call p (name, what, advice, argv)]"
  by (auto simp: setup_step_def ssh_def step_call_def split: prod.splits cli_answer.splits if_splits dest!: cli_run_calls)

lemma run_steps_failed:
  "run_steps h p todo io = (Some e, io') \<Longrightarrow>
    \<exists>k. 0 < k \<and> k \<le> length todo \<and> cw_calls io' = cw_calls io @ map (step_call p) (take k todo)"
proof (induction todo arbitrary: io)
  case (Cons t todo)
  obtain name what advice argv where t: "t = (name, what, advice, argv)" by (cases t)
  obtain r io1 where r: "setup_step h p name what advice argv io = (r, io1)" by fastforce
  note c = step_calls [OF r, folded t]
  show ?case
  proof (cases r)
    case None
    with Cons.prems t r have "run_steps h p todo io1 = (Some e, io')" by simp
    from Cons.IH [OF this] obtain k where "0 < k" "k \<le> length todo" "cw_calls io' = cw_calls io1 @ map (step_call p) (take k todo)" by blast
    with c show ?thesis by (intro exI [of _ "Suc k"]) simp
  next
    case (Some x)
    with Cons.prems t r have "io' = io1" by simp
    with c show ?thesis by (intro exI [of _ 1]) simp
  qed
qed simp

definition teardown_call :: "remote_provider \<Rightarrow> remote_sandbox \<Rightarrow> cli_call" where
  "teardown_call p s = ssh_call p NoStdin [''sh'', ''-c'', destroy_script, ''sh'', slice_of (rs_name s), reaper_of (rs_name s) @ ''.timer'', rs_workspace s]"

lemma destroy_calls: "remote_destroy_sandbox h p s io = (e, io') \<Longrightarrow> cw_calls io' = cw_calls io @ [teardown_call p s]"
  by (auto simp: remote_destroy_sandbox_def remote_destroy_def ssh_def teardown_call_def
      split: prod.splits cli_answer.splits if_splits dest!: cli_run_calls)

lemma suffix_calls: "random_suffix h pid io = (r, io') \<Longrightarrow> cw_calls io' = cw_calls io"
  by (auto simp: random_suffix_def split: prod.splits)

text \<open>
  C19: a failed creation on a bare host is torn down. If it returns an error, then either it sent nothing or at most the two probes that
  create nothing; or after them it drew a random suffix, sent some of the commands of the setup, the first and others in their order, all for the sandbox of the
  name with that suffix and its workspace under the configured root, and then, last, the teardown of this same sandbox: the command that kills and
  stops its slice, stops its timer and removes its workspace.
\<close>

theorem failed_create_tears_down:
  assumes "remote_create h p ps io = (Inl e, io')"
  shows "sent io io' \<in> {[], [version_call p], [version_call p, user_call p]} \<or>
    (\<exists>st user io2 rnd io3 s k. parse_params h remote_params ps = Inr st \<and>
      sent io io2 = [version_call p, user_call p] \<and> random_suffix h (pv_pid p) io2 = (rnd, io3) \<and>
      s = \<lparr> rs_name = name_prefix @ rnd, rs_workspace = path_join2 (se_root st) (name_prefix @ rnd), rs_user = user \<rparr> \<and> 0 < k \<and>
      sent io io' = [version_call p, user_call p] @
        map (step_call p) (take k (setup_steps p (owner_id (cv_kernel h (cw_world io3)) (pv_pid p)) s st)) @ [teardown_call p s])"
proof (cases "parse_params h remote_params ps")
  case (Inl x)
  with assms show ?thesis by (simp add: remote_create_def sent_def)
next
  case (Inr st)
  obtain a io1 where a: "probe_systemd h p io = (a, io1)" by fastforce
  obtain u io2 where u: "remote_user h p io1 = (u, io2)" by fastforce
  show ?thesis
  proof (cases "a = None \<and> (\<exists>user. u = Inr user)")
    case True
    then obtain user where t: "a = None" "u = Inr user" by blast
    obtain rnd io3 where rnd: "random_suffix h (pv_pid p) io2 = (rnd, io3)" by fastforce
    let ?s = "\<lparr> rs_name = name_prefix @ rnd, rs_workspace = path_join2 (se_root st) (name_prefix @ rnd), rs_user = user \<rparr>"
    obtain f io4 where f: "remote_setup h p ?s st io3 = (f, io4)" by fastforce
    with assms Inr a u t rnd obtain x derr where "f = Some x" and d: "remote_destroy_sandbox h p ?s io4 = (derr, io')"
      by (auto simp: remote_create_def Let_def split: option.splits prod.splits)
    with f obtain k where k: "0 < k" "cw_calls io4 = cw_calls io3 @
        map (step_call p) (take k (setup_steps p (owner_id (cv_kernel h (cw_world io3)) (pv_pid p)) ?s st))"
      unfolding remote_setup_def by (blast dest: run_steps_failed)
    have "cw_calls io2 = cw_calls io @ [version_call p, user_call p]" using probe_user_calls a u t by blast
    with k(2) suffix_calls [OF rnd] destroy_calls [OF d] have "sent io io2 = [version_call p, user_call p]"
      "sent io io' = [version_call p, user_call p] @
        map (step_call p) (take k (setup_steps p (owner_id (cv_kernel h (cw_world io3)) (pv_pid p)) ?s st)) @ [teardown_call p ?s]"
      by (simp_all add: sent_def)
    with Inr rnd k(1) show ?thesis by blast
  next
    case False
    then have "cw_calls io' = cw_calls io @ [version_call p] \<or> cw_calls io' = cw_calls io @ [version_call p, user_call p]"
      using assms Inr a u probe_calls [OF a] user_calls [OF u]
      by (cases a; cases u) (auto simp: remote_create_def)
    then show ?thesis by (auto simp: sent_def)
  qed
qed

subsection \<open>Copying into a pod\<close>

definition stream_call :: "k8s_sandbox \<Rightarrow> bytes \<Rightarrow> bytes \<Rightarrow> cli_call" where
  "stream_call s content dest = kubectl_call (FileStdin content)
     [''exec'', ''-n'', kb_namespace s, ''-i'', kb_pod s, ''--'', ''sh'', ''-c'', stream_script, ''sh'', dest]"

lemma stream_once_counted:
  assumes "stream_once h s source dest io = (Inr landed, io')"
  shows "\<exists>content out err t. cv_open h source (cw_world io) = Inr content \<and> cw_calls io' = cw_calls io @ [stream_call s content dest] \<and>
    cv_run h (stream_call s content dest) (cw_world io) = (CliRan out err t 0, cw_world io') \<and> parse_int64 (trim_space out) = Some landed"
  using assms by (auto simp: stream_once_def stream_call_def Let_def split: sum.splits prod.splits cli_answer.splits if_splits option.splits dest!: cli_run_calls)

lemma stream_loop_counted:
  "stream_loop n h s source dest want sofar io = (Inr landed, io') \<Longrightarrow> landed = want \<and>
    (\<exists>cs content out err t w. cw_calls io' = cw_calls io @ cs @ [stream_call s content dest] \<and> length cs < n \<and>
      cv_run h (stream_call s content dest) w = (CliRan out err t 0, cw_world io') \<and> parse_int64 (trim_space out) = Some want)"
proof (induction n arbitrary: sofar io)
  case (Suc n)
  obtain r io1 where r: "stream_once h s source dest io = (r, io1)" by fastforce
  with Suc.prems obtain l where l: "r = Inr l" by (cases r) auto
  from stream_once_counted [OF r [unfolded l]] obtain content out err t where c: "cw_calls io1 = cw_calls io @ [stream_call s content dest]"
    "cv_run h (stream_call s content dest) (cw_world io) = (CliRan out err t 0, cw_world io1)" "parse_int64 (trim_space out) = Some l" by blast
  show ?case
  proof (cases "l = want")
    case True
    with Suc.prems r l have "io' = io1" "landed = want" by auto
    with c True have "landed = want" "cw_calls io' = cw_calls io @ [] @ [stream_call s content dest]" "length ([] :: cli_call list) < Suc n"
      "cv_run h (stream_call s content dest) (cw_world io) = (CliRan out err t 0, cw_world io')" "parse_int64 (trim_space out) = Some want" by simp_all
    then show ?thesis by blast
  next
    case False
    with Suc.prems r l have "stream_loop n h s source dest want l io1 = (Inr landed, io')" by simp
    from Suc.IH [OF this] obtain cs content' out' err' t' w where "landed = want"
      "cw_calls io' = cw_calls io1 @ cs @ [stream_call s content' dest]" "length cs < n"
      "cv_run h (stream_call s content' dest) w = (CliRan out' err' t' 0, cw_world io')" "parse_int64 (trim_space out') = Some want" by blast
    with c have "landed = want" "cw_calls io' = cw_calls io @ (stream_call s content dest # cs) @ [stream_call s content' dest]"
      "length (stream_call s content dest # cs) < Suc n" "cv_run h (stream_call s content' dest) w = (CliRan out' err' t' 0, cw_world io')"
      "parse_int64 (trim_space out') = Some want" by simp_all
    then show ?thesis by blast
  qed
qed simp

text \<open>
  A short copy into a pod is never reported as complete. If putting a file returns a number of bytes, then that is the size the
  host's file had when it was asked for, at most three transfers were sent, and the pod itself counted exactly that many bytes after the
  last of them, before the mode was set.
\<close>

theorem pod_copy_counted:
  assumes "k8s_put_file h s source dest mode io = (Inr (n, d), io')"
  shows "cv_stat h source (cw_world io) = Inr n \<and>
    (\<exists>cs content out err t w w'. sent io io' = cs @ [stream_call s content dest,
        kubectl_call NoStdin [''exec'', ''-n'', kb_namespace s, kb_pod s, ''--'', ''chmod'', effective_mode mode, dest]] \<and> length cs < 3 \<and>
      cv_run h (stream_call s content dest) w = (CliRan out err t 0, w') \<and> parse_int64 (trim_space out) = Some n)"
proof -
  from assms obtain want landed io1 a where s: "cv_stat h source (cw_world io) = Inr want"
    "stream_loop put_file_attempts h s source dest want 0 io = (Inr landed, io1)" "landed = n"
    and c: "cli_run h (kubectl_call NoStdin [''exec'', ''-n'', kb_namespace s, kb_pod s, ''--'', ''chmod'', effective_mode mode, dest]) io1 = (a, io')"
    by (auto simp: k8s_put_file_def Let_def split: if_splits sum.splits prod.splits cli_answer.splits)
  from stream_loop_counted [OF s(2)] obtain cs content out err t w where l: "landed = want"
    "cw_calls io1 = cw_calls io @ cs @ [stream_call s content dest]" "length cs < put_file_attempts"
    "cv_run h (stream_call s content dest) w = (CliRan out err t 0, cw_world io1)" "parse_int64 (trim_space out) = Some want" by blast
  from l(2) cli_run_calls [OF c] have "sent io io' = cs @ [stream_call s content dest,
      kubectl_call NoStdin [''exec'', ''-n'', kb_namespace s, kb_pod s, ''--'', ''chmod'', effective_mode mode, dest]]"
    by (simp add: sent_def)
  with s l show ?thesis unfolding put_file_attempts_def by blast
qed

subsection \<open>At concrete inputs\<close>

lemma name_c1: "trim_space ''c1'' = ''c1''"
  by (rule trim_space_graphic) (simp_all add: graphic_def)

lemma sample_suffix: "random_suffix (answering a) pid idle = (hex_encode ''abcd'', idle)"
  by (simp add: random_suffix_def answering_def)

lemma answering_random [simp]: "cv_random (answering a) w = (Some ''abcd'', w)"
  by (simp add: answering_def)

lemma answering_wait [simp]: "cv_wait (answering a) w = (Some ''context deadline exceeded'', w)"
  by (simp add: answering_def)

theorem failed_create_removes_container_witness:
  "last (cw_calls (snd (docker_create 1 (answering (\<lambda>c. ''c1'')) sample_provider [(''image'', ''pg'')] idle))) =
    docker_call NoStdin [] [''rm'', ''-f'', ''-v'', ''c1'']"
proof -
  let ?h = "answering (\<lambda>c. ''c1'')"
  obtain rnd where rnd: "\<And>a pid. random_suffix (answering a) pid idle = (rnd, idle)" using sample_suffix by blast
  obtain args where args: "docker_run_args (cv_printable ?h) (owner_id (cv_kernel ?h ()) 9) ''h1'' docker_params rnd [(''image'', ''pg'')] = Inr args"
    by (simp add: docker_run_args_def param_value_def sorted_entries_def lookup_param_def docker_params_def Let_def)
  obtain e io' where c: "docker_create 1 ?h sample_provider [(''image'', ''pg'')] idle = (Some (Inl e), io')"
    by (simp add: docker_create_def rnd args sample_provider_def cli_run_def cli_wait_def name_c1 docker_destroy_def docker_remove_def Let_def)
  from failed_create_removes_container [OF c, of rnd idle args "''c1''" "[]" False "()"] args c
  show ?thesis by (simp add: rnd sample_provider_def name_c1)
qed

definition bare_target :: "unit cli_host" where
  "bare_target = (answering (\<lambda>c. []))\<lparr> cv_run := (\<lambda>c w. (if c = version_call sample_remote then CliRan ''systemd 255'' [] False 0
     else if c = user_call sample_remote then CliRan ''u'' [] False 0 else CliRan [] ''denied'' False 1, w)) \<rparr>"

lemma bare_texts:
  "trim_space ''systemd 255'' = ''systemd 255''" "trim_space ''u'' = ''u''" "text_fields ''systemd 255'' = [''systemd'', ''255'']"
  "parse_int64 ''255'' = Some 255" "cut newline ''systemd 255'' = (''systemd 255'', [], False)"
  by (rule trim_space_graphic, simp_all add: graphic_def)+
    (simp_all add: text_fields_def fields_ascii space_runes_def parse_int64_def is_digit_def digits_val_def digit_val_def)

lemma probes_differ: "user_call p \<noteq> version_call p"
  by (auto simp: user_call_def version_call_def dest!: ssh_call_inject)

theorem failed_create_tears_down_witness:
  "let io' = snd (remote_create bare_target sample_remote [] idle) in
    sent idle io' \<in> {[], [version_call sample_remote], [version_call sample_remote, user_call sample_remote]} \<or>
    (\<exists>s. last (sent idle io') = teardown_call sample_remote s)"
proof -
  have v: "ssh_call sample_remote NoStdin [''systemctl'', ''--version''] = version_call sample_remote"
    "ssh_call sample_remote NoStdin [''id'', ''-un''] = user_call sample_remote" by (simp_all add: version_call_def user_call_def)
  have n: "ssh_call sample_remote NoStdin (''sh'' # x) \<noteq> version_call sample_remote" "ssh_call sample_remote NoStdin (''sh'' # x) \<noteq> user_call sample_remote" for x
    by (auto simp: user_call_def version_call_def dest!: ssh_call_inject)
  obtain e io' where "remote_create bare_target sample_remote [] idle = (Inl e, io')"
    by (simp add: remote_create_def parse_params_def sorted_entries_def probe_systemd_def remote_user_def ssh_def v cli_run_def bare_target_def
        bare_texts probes_differ cli_first_line_def min_systemd_version_def random_suffix_def Let_def remote_setup_def setup_steps_def setup_step_def n
        remote_destroy_sandbox_def remote_destroy_def split: prod.split)
  from failed_create_tears_down [OF this] this show ?thesis by (fastforce simp: Let_def)
qed

theorem pod_copy_counted_witness:
  "fst (k8s_put_file (answering (\<lambda>c. ''3'')) \<lparr> kb_job = ''j'', kb_pod = ''p'', kb_namespace = ''d'' \<rparr> ''f'' ''/tmp/f'' [] idle) = Inr (3, 1) \<and>
    cv_stat (answering (\<lambda>c. ''3'')) ''f'' () = Inr 3"
proof -
  let ?h = "answering (\<lambda>c. ''3'')" and ?s = "\<lparr> kb_job = ''j'', kb_pod = ''p'', kb_namespace = ''d'' \<rparr>"
  have t: "trim_space ''3'' = ''3''" "parse_int64 ''3'' = Some 3"
    by (rule trim_space_graphic, simp_all add: graphic_def parse_int64_def is_digit_def digits_val_def digit_val_def)
  have o: "cv_open ?h f w = Inr ''abc''" "cv_stat ?h f w = Inr 3" "cv_elapsed ?h w = 1" for f w by (simp_all add: answering_def)
  obtain io' where c: "k8s_put_file ?h ?s ''f'' ''/tmp/f'' [] idle = (Inr (3, 1), io')"
    by (simp add: k8s_put_file_def effective_mode_def octal_mode_def is_digit_def digit_val_def put_file_attempts_def o t stream_once_def cli_run_def
        numeral_3_eq_3)
  from pod_copy_counted [OF c] c show ?thesis by simp
qed

definition sample_exec :: exec_call where
  "sample_exec = \<lparr> ex_argv = [''psql''], ex_env = [], ex_stdin = ''select 1'', ex_timeout = 0 \<rparr>"

definition sample_box :: remote_sandbox where
  "sample_box = \<lparr> rs_name = ''probavi-sbx-a'', rs_workspace = ''/w/probavi-sbx-a'', rs_user = ''drill'' \<rparr>"

theorem environment_off_command_lines_witness:
  "\<exists>line. \<forall>v \<in> {''one'', ''two''}.
    command_lines (remote_exec (answering (\<lambda>c. [])) sample_remote sample_box (sample_exec\<lparr> ex_env := [(''PGPASSWORD'', v)] \<rparr>) idle) = [line]"
proof -
  have v: "valid_env_name ''PGPASSWORD''" by (simp add: valid_env_name_def env_start_def)
  have e: "env_prelude_lines pr [(''PGPASSWORD'', ''one'')] = Inr (''PGPASSWORD=one'' @ [newline])"
    "env_prelude_lines pr [(''PGPASSWORD'', ''two'')] = Inr (''PGPASSWORD=two'' @ [newline])" for pr
    using v by (simp_all add: env_prelude_lines_def sorted_entries_def)
  have "map fst (sorted_entries [(''PGPASSWORD'', ''one'')]) = map fst (sorted_entries [(''PGPASSWORD'', ''two'')])"
    by (simp add: sorted_entries_def)
  then show ?thesis
    using conjunct2 [OF conjunct2 [OF environment_off_command_lines [of "[(''PGPASSWORD'', ''one'')]" "[(''PGPASSWORD'', ''two'')]"
      "answering (\<lambda>c. [])" "[]" sample_exec idle undefined sample_remote sample_box]]] by (simp add: e)
qed

theorem no_published_ports_witness:
  "\<exists>args opts. docker_run_args (\<lambda>r. True) ''9'' ''h'' docker_params ''r'' [(''image'', ''pg''), (''memory'', ''-p80:80'')] = Inr args \<and>
    run_options (tl args) = Some (opts, [''pg'']) \<and>
    fst ` set opts \<subseteq> {''-d'', ''--name'', ''--label'', ''--network'', ''--memory'', ''--cpus'', ''-e''} \<and>
    map_of opts ''--network'' = Some ''none''"
proof -
  obtain args where args: "docker_run_args (\<lambda>r. True) ''9'' ''h'' docker_params ''r'' [(''image'', ''pg''), (''memory'', ''-p80:80'')] = Inr args"
    by (simp add: docker_run_args_def param_value_def sorted_entries_def lookup_param_def docker_params_def Let_def less_bytes_def)
  have "text_fields [] = []" by (simp add: text_fields_def fields_ascii)
  with no_published_ports [OF args] args show ?thesis by (simp add: param_value_def)
qed

end
