(* ===== verification/Delivery.thy ===== *)
theory Delivery
  imports DrillConfig Records Canonical GoPath GoErrors
begin

text \<open>
  Sending what a drill found: notifications (internal/notify) and evidence pushes (internal/push). The two packages
  have separate loops with one retry rule; here both are instances of \<open>retry\<close>, and the locale \<open>delivery\<close> is the contract that
  makes the rule. Parameters: the HTTP client, the wait between attempts, \<^verbatim>\<open>net/url\<close>, SHA-256, the table of
  printable runes. Every request made is kept with its answer.
\<close>

subsection \<open>Requests and answers\<close>

record http_request =
  rq_url :: bytes
  rq_headers :: "(bytes \<times> bytes) list"
  rq_body :: bytes

text \<open>\<^verbatim>\<open>*url.Error\<close> carries the operation and the URL in its text.\<close>

datatype http_error = UrlError bytes bytes bytes | OtherError bytes

text \<open>A status with the first bytes of the body, if they could be read and the body closed.\<close>

datatype http_answer = NoAnswer http_error | Answered int "bytes option"

record 'w web =
  wb_do :: "http_request \<Rightarrow> 'w \<Rightarrow> http_answer \<times> 'w"
  wb_wait :: "nat \<Rightarrow> 'w \<Rightarrow> bytes option \<times> 'w"
  wb_parse_url :: "bytes \<Rightarrow> (bytes \<times> bytes) option"
  wb_join_path :: "bytes \<Rightarrow> bytes \<Rightarrow> bytes"
  wb_printable :: "nat \<Rightarrow> bool"

record 'w web_io =
  wi_world :: 'w
  wi_log :: "(http_request \<times> http_answer) list"

definition send_request :: "'w web \<Rightarrow> http_request \<Rightarrow> 'w web_io \<Rightarrow> http_answer \<times> 'w web_io" where
  "send_request h rq io = (case wb_do h rq (wi_world io) of (a, w) \<Rightarrow> (a, io\<lparr> wi_world := w, wi_log := wi_log io @ [(rq, a)] \<rparr>))"

definition wait_backoff :: "'w web \<Rightarrow> nat \<Rightarrow> 'w web_io \<Rightarrow> bytes option \<times> 'w web_io" where
  "wait_backoff h ms io = (case wb_wait h ms (wi_world io) of (e, w) \<Rightarrow> (e, io\<lparr> wi_world := w \<rparr>))"

text \<open>The URL of an error does not leave: only what it wraps does.\<close>

definition post_error :: "http_error \<Rightarrow> bytes" where
  "post_error e = ''post: '' @ (case e of UrlError op url inner \<Rightarrow> inner | OtherError t \<Rightarrow> t)"

definition absolute_http :: "'w web \<Rightarrow> bytes \<Rightarrow> bool" where
  "absolute_http h url = (case wb_parse_url h url of None \<Rightarrow> False
     | Some (scheme, host) \<Rightarrow> host \<noteq> [] \<and> (scheme = ''http'' \<or> scheme = ''https''))"

subsection \<open>Signatures\<close>

definition xor_char :: "nat \<Rightarrow> char \<Rightarrow> char" where
  "xor_char n c = char_of (xor n (code c))"

text \<open>\<^verbatim>\<open>crypto/hmac\<close> over SHA-256.\<close>

definition hmac_sha256 :: "crypto \<Rightarrow> bytes \<Rightarrow> bytes \<Rightarrow> bytes" where
  "hmac_sha256 C key msg =
    (let short = (if length key > 64 then sha256 C key else key); k = short @ replicate (64 - length short) (CHR 0x00)
     in sha256 C (map (xor_char 0x5C) k @ sha256 C (map (xor_char 0x36) k @ msg)))"

definition header_signature :: bytes where "header_signature = ''X-Probavi-Signature-256''"

definition signature_headers :: "crypto \<Rightarrow> bytes option \<Rightarrow> bytes \<Rightarrow> (bytes \<times> bytes) list" where
  "signature_headers C secret body = (case secret of None \<Rightarrow> []
     | Some s \<Rightarrow> [(header_signature, ''sha256='' @ hex_encode (hmac_sha256 C s body))])"

subsection \<open>The retry rule\<close>

definition attempts :: nat where "attempts = 3"
definition backoff :: "nat list" where "backoff = [1000, 2000]"

text \<open>A post succeeds, or fails for good (\<open>False\<close>) or for now (\<open>True\<close>).\<close>

fun retry :: "('w web_io \<Rightarrow> (bool \<times> bytes + 'r) \<times> 'w web_io) \<Rightarrow> (nat \<Rightarrow> 'w web_io \<Rightarrow> bytes option \<times> 'w web_io) \<Rightarrow>
    nat \<Rightarrow> nat \<Rightarrow> bytes \<Rightarrow> 'w web_io \<Rightarrow> (bytes + 'r) \<times> 'w web_io" where
  "retry post wait 0 attempt recent io = (Inl (''after '' @ show_nat attempts @ '' attempts: '' @ recent), io)"
| "retry post wait (Suc left) attempt recent io =
    (case (if attempt > 0 then wait (backoff ! min (attempt - 1) (length backoff - 1)) io else (None, io)) of
       (Some e, io) \<Rightarrow> (Inl (''delivery aborted: '' @ e), io)
     | (None, io) \<Rightarrow>
       (case post io of
          (Inr r, io) \<Rightarrow> (Inr r, io)
        | (Inl (retryable, e), io) \<Rightarrow> if \<not> retryable then (Inl e, io) else retry post wait left (Suc attempt) e io))"

locale delivery =
  fixes post :: "'w web_io \<Rightarrow> (bool \<times> bytes + 'r) \<times> 'w web_io"
    and wait :: "nat \<Rightarrow> 'w web_io \<Rightarrow> bytes option \<times> 'w web_io"
    and rq :: http_request
    and verdict :: "http_answer \<Rightarrow> bool \<times> bytes + 'r"
  assumes posting: "post io = (r, io') \<Longrightarrow> \<exists>a. wi_log io' = wi_log io @ [(rq, a)] \<and> r = verdict a"
    and waiting: "wait ms io = (e, io') \<Longrightarrow> wi_log io' = wi_log io"
begin

lemma retry_log:
  "retry post wait n k recent io = (res, io') \<Longrightarrow> \<exists>as. wi_log io' = wi_log io @ map (Pair rq) as \<and> length as \<le> n \<and>
    list_all (\<lambda>a. \<exists>e. verdict a = Inl (True, e)) (butlast as) \<and> (as = [] \<longrightarrow> k > 0 \<or> n = 0) \<and>
    (case res of Inr r \<Rightarrow> as \<noteq> [] \<and> verdict (last as) = Inr r | Inl e \<Rightarrow> list_all (\<lambda>a. \<exists>f. verdict a = Inl f) as)"
proof (induction n arbitrary: k recent io)
  case (Suc n)
  obtain w io1 where w: "(if k > 0 then wait (backoff ! min (k - 1) (length backoff - 1)) io else (None, io)) = (w, io1)" by fastforce
  then have l1: "wi_log io1 = wi_log io" by (auto split: if_splits dest: waiting)
  show ?case
  proof (cases w)
    case (Some e)
    with w have "k > 0" by (auto split: if_splits)
    with Suc.prems w Some l1 show ?thesis by (intro exI [of _ "[]"]) auto
  next
    case None
    obtain r io2 where r: "post io1 = (r, io2)" by fastforce
    from posting [OF r] obtain a where a: "wi_log io2 = wi_log io1 @ [(rq, a)]" "r = verdict a" by blast
    consider (ok) x where "r = Inr x" | (dead) e where "r = Inl (False, e)" | (again) e where "r = Inl (True, e)"
      by (cases r) auto
    then show ?thesis
    proof cases
      case again
      with Suc.prems w None r have "retry post wait n (Suc k) e io2 = (res, io')" by simp
      from Suc.IH [OF this] obtain as where as: "wi_log io' = wi_log io2 @ map (Pair rq) as" "length as \<le> n" "list_all (\<lambda>a. \<exists>e. verdict a = Inl (True, e)) (butlast as)"
        "case res of Inr r \<Rightarrow> as \<noteq> [] \<and> verdict (last as) = Inr r | Inl e \<Rightarrow> list_all (\<lambda>a. \<exists>f. verdict a = Inl f) as" by blast
      have t: "\<exists>e. verdict a = Inl (True, e)" "\<exists>f. verdict a = Inl f" using again a(2) by auto
      show ?thesis
        using as a l1 again t by (intro exI [of _ "a # as"]) (auto split: sum.splits)
    next
      case ok
      moreover from ok a(2) have "verdict a = Inr x" by simp
      ultimately show ?thesis using Suc.prems w None r a(1) l1 by (intro exI [of _ "[a]"]) auto
    next
      case dead
      moreover from dead a(2) have "verdict a = Inl (False, e)" by simp
      ultimately show ?thesis using Suc.prems w None r a(1) l1 by (intro exI [of _ "[a]"]) auto
    qed
  qed
qed auto

end

subsection \<open>Pushing an evidence log\<close>

definition push_schema_id :: bytes where "push_schema_id = ''probavi-evidence-push/1''"
definition max_log_bytes :: nat where "max_log_bytes = 64 * 2 ^ 20"
definition max_reason :: nat where "max_reason = 500"
definition max_path :: nat where "max_path = 128"
definition max_segments :: nat where "max_segments = 8"

definition segment_char :: "char \<Rightarrow> bool" where
  "segment_char c \<longleftrightarrow> is_digit c \<or> (65 \<le> code c \<and> code c \<le> 90) \<or> (97 \<le> code c \<and> code c \<le> 122) \<or> c \<in> {CHR ''_'', CHR ''-''}"

definition path_segment :: "bytes \<Rightarrow> bool" where
  "path_segment s \<longleftrightarrow> s \<noteq> [] \<and> segment_char (hd s) \<and> list_all (\<lambda>c. segment_char c \<or> c = CHR ''.'') (tl s) \<and> length s \<le> 64"

definition validate_path :: "(nat \<Rightarrow> bool) \<Rightarrow> bytes \<Rightarrow> bytes option" where
  "validate_path pr p =
    (let segments = split_char (CHR ''/'') p in
     if p = [] then Some ''destination path is empty''
     else if length p > max_path then Some (''destination path is '' @ show_nat (length p) @ '' characters, more than the '' @ show_nat max_path @ '' allowed'')
     else if length segments > max_segments
     then Some (''destination path has '' @ show_nat (length segments) @ '' segments, more than the '' @ show_nat max_segments @ '' allowed'')
     else (case List.find (\<lambda>s. \<not> path_segment s) segments of None \<Rightarrow> None
       | Some s \<Rightarrow> Some (''path segment '' @ go_quote pr s @ '' is not 1-64 characters of A-Z a-z 0-9 . _ - starting with anything but a dot'')))"

record push_options =
  pu_url :: bytes
  pu_path :: bytes
  pu_token :: bytes
  pu_secret :: "bytes option"
  pu_version :: bytes

record push_client =
  pc_url :: bytes
  pc_token :: bytes
  pc_secret :: "bytes option"
  pc_version :: bytes

definition new_push :: "'w web \<Rightarrow> push_options \<Rightarrow> bytes + push_client" where
  "new_push h p = (case validate_path (wb_printable h) (pu_path p) of
     Some e \<Rightarrow> Inl e
   | None \<Rightarrow> if \<not> absolute_http h (pu_url p) then Inl ''destination is not an absolute http(s) URL''
       else Inr \<lparr> pc_url = wb_join_path h (pu_url p) (pu_path p), pc_token = pu_token p, pc_secret = pu_secret p, pc_version = pu_version p \<rparr>)"

text \<open>The log: what opening, \<^verbatim>\<open>Stat\<close> and reading say.\<close>

record log_file =
  lg_open :: "bytes option"
  lg_stat :: "bytes + bool \<times> int"
  lg_bytes :: bytes
  lg_fault :: "bytes option"

definition oversize :: "bytes \<Rightarrow> bytes" where
  "oversize path = path @ '' is larger than the '' @ show_nat max_log_bytes @ ''-byte push limit''"

definition read_log :: "bytes \<Rightarrow> log_file \<Rightarrow> bytes + bytes" where
  "read_log path f = (case lg_open f of
     Some e \<Rightarrow> Inl e
   | None \<Rightarrow> (case lg_stat f of
       Inl e \<Rightarrow> Inl (''stat '' @ path @ '': '' @ e)
     | Inr (dir, nbytes) \<Rightarrow>
       if dir then Inl (path @ '' is a directory, not an evidence log'')
       else if nbytes > int max_log_bytes then Inl (oversize path)
       else let body = take (max_log_bytes + 1) (lg_bytes f) in
         (case (if length body > max_log_bytes then None else lg_fault f) of
            Some e \<Rightarrow> Inl (''read '' @ path @ '': '' @ e)
          | None \<Rightarrow> if length body > max_log_bytes then Inl (oversize path) else Inr body)))"

text \<open>The runes of the answer's one line: a space is written before the next visible rune, if something was written.\<close>

fun reason_runes :: "(nat \<Rightarrow> bool) \<Rightarrow> bool \<Rightarrow> nat list \<Rightarrow> nat list \<Rightarrow> nat list" where
  "reason_runes pr pending out [] = out"
| "reason_runes pr pending out (r # rs) =
    (if r \<in> set space_runes then reason_runes pr (out \<noteq> []) out rs
     else if r = rune_error \<or> \<not> pr r then reason_runes pr pending out rs
     else reason_runes pr False (if pending then out @ [0x20, r] else out @ [r]) rs)"

definition refusal_reason :: "(nat \<Rightarrow> bool) \<Rightarrow> bytes \<Rightarrow> bytes" where
  "refusal_reason pr body = (let out = reason_runes pr False [] (runes body) in
     concat (map encode_rune (if length out > max_reason then take max_reason out @ [0x2026] else out)))"

definition refusal_text :: "int \<Rightarrow> bytes \<Rightarrow> bytes" where
  "refusal_text status reason = (if reason = [] then ''response status '' @ show_int status
     else ''response status '' @ show_int status @ '': '' @ reason)"

definition push_request :: "crypto \<Rightarrow> push_client \<Rightarrow> bytes \<Rightarrow> http_request" where
  "push_request C c body = \<lparr> rq_url = pc_url c,
     rq_headers = [(''Content-Type'', ''application/x-ndjson''), (''User-Agent'', ''probavi/'' @ pc_version c),
         (''X-Probavi-Evidence-Push-Version'', push_schema_id)] @
       (if pc_token c \<noteq> [] then [(''Authorization'', ''Bearer '' @ pc_token c)] else []) @ signature_headers C (pc_secret c) body,
     rq_body = body \<rparr>"

definition push_verdict :: "(nat \<Rightarrow> bool) \<Rightarrow> http_answer \<Rightarrow> bool \<times> bytes + int" where
  "push_verdict pr a = (case a of
     NoAnswer e \<Rightarrow> Inl (True, post_error e)
   | Answered status body \<Rightarrow>
     let reason = refusal_reason pr (case body of None \<Rightarrow> [] | Some b \<Rightarrow> b) in
     if 200 \<le> status \<and> status < 300 then Inr status
     else if status \<ge> 500 then Inl (True, refusal_text status reason)
     else Inl (False, refusal_text status reason))"

definition push_post :: "'w web \<Rightarrow> crypto \<Rightarrow> push_client \<Rightarrow> bytes \<Rightarrow> 'w web_io \<Rightarrow> (bool \<times> bytes + int) \<times> 'w web_io" where
  "push_post h C c body io = (case send_request h (push_request C c body) io of (a, io) \<Rightarrow> (push_verdict (wb_printable h) a, io))"

text \<open>The status and the number of bytes sent.\<close>

definition push_log :: "'w web \<Rightarrow> crypto \<Rightarrow> push_client \<Rightarrow> bytes \<Rightarrow> 'w web_io \<Rightarrow> (bytes + int \<times> nat) \<times> 'w web_io" where
  "push_log h C c body io = (case retry (push_post h C c body) (wait_backoff h) attempts 0 [] io of
     (Inl e, io) \<Rightarrow> (Inl e, io) | (Inr status, io) \<Rightarrow> (Inr (status, length body), io))"

interpretation push_delivery: delivery "push_post h C c body" "wait_backoff h" "push_request C c body" "push_verdict (wb_printable h)" for h C c body
  by unfold_locales (auto simp: push_post_def send_request_def wait_backoff_def split: prod.splits)

subsection \<open>Notifications\<close>

definition notification_schema_id :: bytes where "notification_schema_id = ''probavi-notification/1''"
definition notification_event :: bytes where "notification_event = ''drill.completed''"

record notification_payload =
  np_schema :: bytes
  np_event :: bytes
  np_ts :: bytes
  np_drill :: bytes
  np_config_hash :: bytes
  np_adapter :: bytes
  np_outcome :: bytes
  np_seq :: int
  np_checks_passed :: nat
  np_checks_total :: nat
  np_restore :: "int option"
  np_total :: "int option"
  np_error :: "(bytes \<times> bytes) option"
  np_probavi_version :: bytes

definition checks_of :: "evidence_record \<Rightarrow> check_result list" where
  "checks_of r = (case rec_checks r of None \<Rightarrow> [] | Some cs \<Rightarrow> cs)"

definition passed_count :: "evidence_record \<Rightarrow> nat" where
  "passed_count r = length (filter check_ok (checks_of r))"

definition new_payload :: "evidence_record \<Rightarrow> notification_payload" where
  "new_payload r = \<lparr> np_schema = notification_schema_id, np_event = notification_event, np_ts = rec_ts r,
     np_drill = drill_name (rec_drill r), np_config_hash = config_hash (rec_drill r), np_adapter = adapter_name (rec_adapter r),
     np_outcome = rec_outcome r, np_seq = rec_seq r, np_checks_passed = passed_count r, np_checks_total = length (checks_of r),
     np_restore = t_restore (rec_timings r), np_total = t_total (rec_timings r),
     np_error = map_option (\<lambda>e. (err_code e, err_message e)) (rec_error r), np_probavi_version = probavi_version (rec_env r) \<rparr>"

definition nullable_int :: "int option \<Rightarrow> json" where
  "nullable_int i = (case i of None \<Rightarrow> JNull | Some n \<Rightarrow> JNum (show_int n))"

definition payload_json :: "notification_payload \<Rightarrow> json" where
  "payload_json p = JObj
    [(''schema'', JStr (np_schema p)), (''event'', JStr (np_event p)), (''ts'', JStr (np_ts p)),
     (''drill'', JObj [(''name'', JStr (np_drill p)), (''config_hash'', JStr (np_config_hash p))]),
     (''adapter'', JStr (np_adapter p)), (''outcome'', JStr (np_outcome p)), (''seq'', JNum (show_int (np_seq p))),
     (''checks_passed'', JNum (show_nat (np_checks_passed p))), (''checks_total'', JNum (show_nat (np_checks_total p))),
     (''timings_ms'', JObj [(''restore'', nullable_int (np_restore p)), (''total'', nullable_int (np_total p))]),
     (''error'', case np_error p of None \<Rightarrow> JNull | Some (c, m) \<Rightarrow> JObj [(''code'', JStr c), (''message'', JStr m)]),
     (''probavi_version'', JStr (np_probavi_version p))]"

record resolved_hook =
  rh_index :: nat
  rh_url :: bytes
  rh_secret :: "bytes option"
  rh_on :: "bytes list"

record notifier =
  nt_hooks :: "resolved_hook list"
  nt_version :: bytes

definition on_set :: "bytes list \<Rightarrow> bytes list" where
  "on_set xs = (if xs = [] then [outcome_pass, outcome_fail, outcome_error, outcome_cancelled] else xs)"

text \<open>\<open>getenv\<close> answers with the empty string for a variable that is not set.\<close>

definition resolve_hook :: "'w web \<Rightarrow> (bytes \<Rightarrow> bytes) \<Rightarrow> nat \<times> webhook \<Rightarrow> bytes + resolved_hook" where
  "resolve_hook h getenv = (\<lambda>(i, w).
    (let at = ''notify.webhooks['' @ show_nat i @ '']: '';
         unset = (\<lambda>n. at @ ''environment variable '' @ n @ '' is unset or empty'');
         url = (if wh_url_env w \<noteq> [] then getenv (wh_url_env w) else wh_url w)
     in if wh_url_env w \<noteq> [] \<and> url = [] then Inl (unset (wh_url_env w))
        else if \<not> absolute_http h url then Inl (at @ ''resolved url is not an absolute http(s) URL'')
        else if wh_secret_env w \<noteq> [] \<and> getenv (wh_secret_env w) = [] then Inl (unset (wh_secret_env w))
        else Inr \<lparr> rh_index = i, rh_url = url, rh_secret = (if wh_secret_env w \<noteq> [] then Some (getenv (wh_secret_env w)) else None), rh_on = on_set (wh_on w) \<rparr>))"

definition new_notifier :: "'w web \<Rightarrow> (bytes \<Rightarrow> bytes) \<Rightarrow> webhook list \<Rightarrow> bytes \<Rightarrow> bytes + notifier" where
  "new_notifier h getenv ws version =
    map_sum (\<lambda>e. e) (\<lambda>hs. \<lparr> nt_hooks = hs, nt_version = version \<rparr>) (sequence (map (resolve_hook h getenv) (enumerate 0 ws)))"

definition notify_request :: "crypto \<Rightarrow> bytes \<Rightarrow> resolved_hook \<Rightarrow> bytes \<Rightarrow> http_request" where
  "notify_request C version k body = \<lparr> rq_url = rh_url k,
     rq_headers = [(''Content-Type'', ''application/json''), (''User-Agent'', ''probavi/'' @ version), (''X-Probavi-Event'', notification_event)] @
       signature_headers C (rh_secret k) body,
     rq_body = body \<rparr>"

definition notify_verdict :: "http_answer \<Rightarrow> bool \<times> bytes + unit" where
  "notify_verdict a = (case a of
     NoAnswer e \<Rightarrow> Inl (True, post_error e)
   | Answered status body \<Rightarrow>
     if 200 \<le> status \<and> status < 300 then Inr ()
     else Inl (status \<ge> 500, ''response status '' @ show_int status))"

definition notify_post :: "'w web \<Rightarrow> crypto \<Rightarrow> bytes \<Rightarrow> resolved_hook \<Rightarrow> bytes \<Rightarrow> 'w web_io \<Rightarrow> (bool \<times> bytes + unit) \<times> 'w web_io" where
  "notify_post h C version k body io = (case send_request h (notify_request C version k body) io of (a, io) \<Rightarrow> (notify_verdict a, io))"

definition deliver :: "'w web \<Rightarrow> crypto \<Rightarrow> bytes \<Rightarrow> resolved_hook \<Rightarrow> bytes \<Rightarrow> 'w web_io \<Rightarrow> (bytes + unit) \<times> 'w web_io" where
  "deliver h C version k body io = retry (notify_post h C version k body) (wait_backoff h) attempts 0 [] io"

interpretation notify_delivery: delivery "notify_post h C version k body" "wait_backoff h" "notify_request C version k body" notify_verdict
  for h C version k body
  by unfold_locales (auto simp: notify_post_def send_request_def wait_backoff_def split: prod.splits)

fun send_hooks :: "'w web \<Rightarrow> crypto \<Rightarrow> bytes \<Rightarrow> bytes \<Rightarrow> bytes \<Rightarrow> resolved_hook list \<Rightarrow> 'w web_io \<Rightarrow> bytes list \<times> 'w web_io" where
  "send_hooks h C version verdict body [] io = ([], io)"
| "send_hooks h C version verdict body (k # ks) io =
    (if verdict \<notin> set (rh_on k) then send_hooks h C version verdict body ks io
     else (case deliver h C version k body io of
        (Inl e, io) \<Rightarrow> (case send_hooks h C version verdict body ks io of (es, io) \<Rightarrow> ((''webhook['' @ show_nat (rh_index k) @ '']: '' @ e) # es, io))
      | (Inr u, io) \<Rightarrow> send_hooks h C version verdict body ks io))"

text \<open>\<^verbatim>\<open>errors.Join\<close>: one line each, nothing if there is none.\<close>

definition send_notifications :: "'w web \<Rightarrow> crypto \<Rightarrow> notifier \<Rightarrow> evidence_record \<Rightarrow> 'w web_io \<Rightarrow> bytes option \<times> 'w web_io" where
  "send_notifications h C n r io =
    (case send_hooks h C (nt_version n) (rec_outcome r) (marshal (payload_json (new_payload r))) (nt_hooks n) io of
       (es, io) \<Rightarrow> (if es = [] then None else Some (join_with [CHR 0x0A] es), io))"

end
