(* ===== verification/DeliveryProps.thy ===== *)
theory DeliveryProps
  imports Delivery
begin

text \<open>
  What a delivery promises: the retry rule as the receiver sees it, that one receiver cannot keep another from being
  tried, that a destination path stays below its URL, that a receiver's refusal cannot write to a terminal.
\<close>

definition accepted :: "http_answer \<Rightarrow> bool" where
  "accepted a \<longleftrightarrow> (case a of NoAnswer e \<Rightarrow> False | Answered s b \<Rightarrow> 200 \<le> s \<and> s < 300)"

definition transient_answer :: "http_answer \<Rightarrow> bool" where
  "transient_answer a \<longleftrightarrow> (case a of NoAnswer e \<Rightarrow> True | Answered s b \<Rightarrow> 500 \<le> s)"

lemma push_verdict_cases:
  "push_verdict pr a = Inr n \<longleftrightarrow> (\<exists>b. a = Answered n b) \<and> accepted a"
  "(\<exists>e. push_verdict pr a = Inl (True, e)) \<longleftrightarrow> transient_answer a"
  "(\<exists>b e. push_verdict pr a = Inl (b, e)) \<longleftrightarrow> \<not> accepted a"
  by (auto simp: push_verdict_def accepted_def transient_answer_def Let_def split: http_answer.splits if_splits)

lemma notify_verdict_cases:
  "notify_verdict a = Inr u \<longleftrightarrow> accepted a"
  "(\<exists>e. notify_verdict a = Inl (True, e)) \<longleftrightarrow> transient_answer a"
  "(\<exists>b e. notify_verdict a = Inl (b, e)) \<longleftrightarrow> \<not> accepted a"
  by (auto simp: notify_verdict_def accepted_def transient_answer_def split: http_answer.splits if_splits)

text \<open>
  C36: the retry rule of a push. A push sends between one and three requests, each of them the same: to the one URL, with the whole log as its
  body and, if there is a secret, its HMAC. Only a transport error or a status of 500 and above is followed by another request: a redirect or
  a refusal is never tried again. It reports success exactly with the status of a last answer between 200 and 299, and
  then the size of the log; if it reports an error, no answer was an acceptance.
\<close>

theorem push_retry_rule:
  assumes "push_log h C c body io = (res, io')"
  shows "\<exists>as. wi_log io' = wi_log io @ map (Pair (push_request C c body)) as \<and> 1 \<le> length as \<and> length as \<le> 3 \<and>
    list_all transient_answer (butlast as) \<and>
    (case res of Inr (status, n) \<Rightarrow> n = length body \<and> accepted (last as) \<and> (\<exists>b. last as = Answered status b)
     | Inl e \<Rightarrow> list_all (\<lambda>a. \<not> accepted a) as)"
proof -
  obtain r where r: "retry (push_post h C c body) (wait_backoff h) attempts 0 [] io = (r, io')"
    "res = map_sum (\<lambda>e. e) (\<lambda>s. (s, length body)) r"
    using assms by (auto simp: push_log_def split: prod.splits sum.splits)
  from push_delivery.retry_log [OF r(1)] obtain as where as: "wi_log io' = wi_log io @ map (Pair (push_request C c body)) as"
    "length as \<le> attempts" "list_all (\<lambda>a. \<exists>e. push_verdict (wb_printable h) a = Inl (True, e)) (butlast as)" "as = [] \<longrightarrow> (0 :: nat) < 0 \<or> attempts = 0"
    "case r of Inr r \<Rightarrow> as \<noteq> [] \<and> push_verdict (wb_printable h) (last as) = Inr r | Inl e \<Rightarrow> list_all (\<lambda>a. \<exists>f. push_verdict (wb_printable h) a = Inl f) as"
    by blast
  then have "1 \<le> length as" "length as \<le> 3" by (auto simp: attempts_def Suc_le_eq)
  with as r(2) show ?thesis
    by (intro exI [of _ as]) (cases r, auto simp: push_verdict_cases)
qed

subsection \<open>Notifications\<close>

lemma deliver_rule:
  assumes "deliver h C version k body io = (res, io')"
  shows "\<exists>as. wi_log io' = wi_log io @ map (Pair (notify_request C version k body)) as \<and> 1 \<le> length as \<and> length as \<le> 3 \<and>
    list_all transient_answer (butlast as) \<and> (res = Inr () \<longleftrightarrow> accepted (last as))"
proof -
  from notify_delivery.retry_log [OF assms [unfolded deliver_def]] obtain as where as: "wi_log io' = wi_log io @ map (Pair (notify_request C version k body)) as"
    "length as \<le> attempts" "list_all (\<lambda>a. \<exists>e. notify_verdict a = Inl (True, e)) (butlast as)" "as = [] \<longrightarrow> (0 :: nat) < 0 \<or> attempts = 0"
    "case res of Inr r \<Rightarrow> as \<noteq> [] \<and> notify_verdict (last as) = Inr r | Inl e \<Rightarrow> list_all (\<lambda>a. \<exists>f. notify_verdict a = Inl f) as"
    by blast
  then have "1 \<le> length as" "length as \<le> 3" "as \<noteq> []" by (auto simp: attempts_def Suc_le_eq)
  with as show ?thesis
    by (intro exI [of _ as]) (cases res, auto simp: notify_verdict_cases list_all_iff dest: last_in_set)
qed

text \<open>What one webhook got: nothing if the outcome is filtered out, else one to three requests.\<close>

definition hook_share :: "bytes \<Rightarrow> resolved_hook \<Rightarrow> http_answer list \<Rightarrow> bool" where
  "hook_share verdict k as \<longleftrightarrow> (if verdict \<in> set (rh_on k) then 1 \<le> length as \<and> length as \<le> 3 \<and> list_all transient_answer (butlast as) else as = [])"

definition hook_requests :: "crypto \<Rightarrow> bytes \<Rightarrow> bytes \<Rightarrow> resolved_hook \<times> http_answer list \<Rightarrow> (http_request \<times> http_answer) list" where
  "hook_requests C version body = (\<lambda>(k, as). map (Pair (notify_request C version k body)) as)"

lemma send_hooks_shares:
  "send_hooks h C version verdict body ks io = (es, io') \<Longrightarrow>
    \<exists>ass. wi_log io' = wi_log io @ concat (map (hook_requests C version body) (zip ks ass)) \<and> list_all2 (hook_share verdict) ks ass \<and>
      (es = [] \<longleftrightarrow> list_all (\<lambda>as. as = [] \<or> accepted (last as)) ass)"
proof (induction ks arbitrary: io es)
  case (Cons k ks)
  show ?case
  proof (cases "verdict \<in> set (rh_on k)")
    case False
    with Cons.prems have "send_hooks h C version verdict body ks io = (es, io')" by simp
    from Cons.IH [OF this] obtain ass where "wi_log io' = wi_log io @ concat (map (hook_requests C version body) (zip ks ass))"
      "list_all2 (hook_share verdict) ks ass" "es = [] \<longleftrightarrow> list_all (\<lambda>as. as = [] \<or> accepted (last as)) ass" by blast
    with False show ?thesis by (intro exI [of _ "[] # ass"]) (simp add: hook_requests_def hook_share_def [of verdict k])
  next
    case True
    obtain r io1 where r: "deliver h C version k body io = (r, io1)" by fastforce
    obtain es1 where rest: "send_hooks h C version verdict body ks io1 = (es1, io')" "es = [] \<longleftrightarrow> r = Inr () \<and> es1 = []"
      using Cons.prems True r by (auto split: sum.splits prod.splits)
    from deliver_rule [OF r] obtain as where as: "wi_log io1 = wi_log io @ map (Pair (notify_request C version k body)) as"
      "1 \<le> length as" "length as \<le> 3" "list_all transient_answer (butlast as)" "r = Inr () \<longleftrightarrow> accepted (last as)" by blast
    from Cons.IH [OF rest(1)] obtain ass where "wi_log io' = wi_log io1 @ concat (map (hook_requests C version body) (zip ks ass))"
      "list_all2 (hook_share verdict) ks ass" "es1 = [] \<longleftrightarrow> list_all (\<lambda>as. as = [] \<or> accepted (last as)) ass" by blast
    with True as rest(2) show ?thesis by (intro exI [of _ "as # ass"]) (auto simp: hook_requests_def hook_share_def [of verdict k])
  qed
qed simp

text \<open>
  Webhooks are independent of each other. Sending a notification makes, webhook after webhook in the order of the configuration, one to three
  requests to each whose filter takes the outcome and none to the others, all with the same body; only transport errors and statuses of 500
  and above are retried, whatever happened at the webhooks before. It reports no error exactly if each of them ended with an accepting answer.
\<close>

theorem webhooks_independent:
  assumes "send_notifications h C n r io = (e, io')"
  shows "\<exists>ass. wi_log io' = wi_log io @ concat (map (hook_requests C (nt_version n) (marshal (payload_json (new_payload r)))) (zip (nt_hooks n) ass)) \<and>
    list_all2 (hook_share (rec_outcome r)) (nt_hooks n) ass \<and> (e = None \<longleftrightarrow> list_all (\<lambda>as. as = [] \<or> accepted (last as)) ass)"
proof -
  obtain es where es: "send_hooks h C (nt_version n) (rec_outcome r) (marshal (payload_json (new_payload r))) (nt_hooks n) io = (es, io')"
    "e = None \<longleftrightarrow> es = []"
    using assms by (auto simp: send_notifications_def split: prod.splits if_splits)
  from send_hooks_shares [OF es(1)] es(2) show ?thesis by simp
qed

subsection \<open>Destination paths\<close>

lemma segment_not_slash: "segment_char c \<Longrightarrow> c \<noteq> CHR ''/'' \<and> c \<noteq> CHR ''.''"
  by (auto simp: segment_char_def is_digit_def)

lemma path_segment_plain:
  assumes "path_segment s"
  shows "plain_component s" "list_all (\<lambda>c. segment_char c \<or> c = CHR ''.'') s"
  using assms segment_not_slash by (cases s; fastforce simp: path_segment_def plain_component_def dot_def dotdot_def list_all_iff)+

lemma plain_clean:
  "list_all plain_component cs \<Longrightarrow> fold (clean_step r) cs st = rev cs @ st"
  by (induction cs arbitrary: st) (auto simp: clean_step_def plain_component_def)

lemma join_path_head: "join_path ((c # x) # xs) = c # join_path (x # xs)"
  by (cases xs) simp_all

lemma join_split: "join_path (split_char c_slash s) = s"
proof (induction s)
  case (Cons c s)
  obtain x xs where x: "split_char c_slash s = x # xs" by (cases "split_char c_slash s") auto
  with Cons show ?case by (auto simp: join_path_head)
qed simp

text \<open>
  C37: a destination path stays below its URL and means itself. If a path is accepted, then it is relative, it has at most eight segments and 128 bytes, no
  segment is empty, a dot, two dots or begins with a dot, cleaning it changes nothing, and none of its bytes needs an escape or begins a
  query or a fragment.
\<close>

theorem accepted_path_stays_below:
  assumes "validate_path pr p = None"
  shows "p \<noteq> [] \<and> length p \<le> 128 \<and> length (split_char c_slash p) \<le> 8 \<and> \<not> rooted_path p \<and> clean_path p = p \<and>
    list_all (\<lambda>s. plain_component s \<and> hd s \<noteq> CHR ''.'') (split_char c_slash p) \<and>
    list_all (\<lambda>c. segment_char c \<or> c = CHR ''.'' \<or> c = c_slash) p"
proof -
  from assms have p: "p \<noteq> []" "length p \<le> 128" "length (split_char c_slash p) \<le> 8" "\<forall>s \<in> set (split_char c_slash p). path_segment s"
    by (auto simp: validate_path_def Let_def max_path_def max_segments_def find_None_iff split: if_splits option.splits)
  then have plain: "list_all plain_component (split_char c_slash p)" by (simp add: list_all_iff path_segment_plain)
  have rooted: "\<not> rooted_path p"
  proof
    assume "rooted_path p"
    then obtain t where "p = c_slash # t" by (cases p) (auto simp: rooted_path_def)
    with plain show False by (simp add: plain_component_def)
  qed
  have clean: "clean_components p = split_char c_slash p"
    using plain_clean [OF plain, of "rooted_path p" "[]"] by (simp add: clean_components_def)
  then have "clean_path p = p" using rooted join_split [of p] by (simp add: clean_path_def)
  moreover have "list_all (\<lambda>s. plain_component s \<and> hd s \<noteq> CHR ''.'') (split_char c_slash p)"
    using p(4) segment_not_slash by (fastforce simp: list_all_iff path_segment_plain path_segment_def)
  moreover have "set (join_path cs) \<subseteq> {c_slash} \<union> \<Union> (set ` set cs)" for cs by (induction cs rule: join_path.induct) auto
  from this [of "split_char c_slash p"] join_split [of p] p(4) path_segment_plain(2)
  have "list_all (\<lambda>c. segment_char c \<or> c = CHR ''.'' \<or> c = c_slash) p" by (fastforce simp: list_all_iff)
  ultimately show ?thesis using p rooted by simp
qed

subsection \<open>Refusals\<close>

text \<open>Runes that are a space or visible, no space at either end, no two spaces together.\<close>

definition tidy :: "(nat \<Rightarrow> bool) \<Rightarrow> nat list \<Rightarrow> bool" where
  "tidy pr out \<longleftrightarrow> set out \<subseteq> insert 0x20 {r. r \<notin> set space_runes \<and> r \<noteq> rune_error \<and> pr r} \<and>
    takeWhile ((=) 0x20) out = [] \<and> takeWhile ((=) 0x20) (rev out) = [] \<and> successively (\<lambda>a b. \<not> (a = 0x20 \<and> b = 0x20)) out"

lemma space_is_space: "0x20 \<in> set space_runes"
  by (simp add: space_runes_def)

lemma tidy_snoc:
  assumes "tidy pr out" "r \<notin> set space_runes" "r \<noteq> rune_error" "pr r"
  shows "tidy pr (out @ [r])" "out \<noteq> [] \<Longrightarrow> tidy pr (out @ [0x20, r])"
proof -
  have r: "r \<noteq> 0x20" using assms(2) space_is_space by auto
  have tw: "takeWhile ((=) 0x20) (out @ u @ [r]) = []" if "u = [] \<or> out \<noteq> []" for u
    using assms(1) r that by (cases out) (auto simp: tidy_def split: if_splits)
  have "successively (\<lambda>a b. \<not> (a = 0x20 \<and> b = 0x20)) (out @ [r])"
    using assms(1) r by (simp only: tidy_def successively_append_iff) simp
  with assms r tw [of "[]"] show "tidy pr (out @ [r])" by (simp add: tidy_def)
  assume ne: "out \<noteq> []"
  then have "last out \<noteq> 0x20" using assms(1) by (cases out rule: rev_cases) (auto simp: tidy_def split: if_splits)
  then have "successively (\<lambda>a b. \<not> (a = 0x20 \<and> b = 0x20)) (out @ [0x20, r])"
    using assms(1) r by (simp only: tidy_def successively_append_iff) simp
  with assms r ne tw [of "[0x20]"] show "tidy pr (out @ [0x20, r])" by (simp add: tidy_def)
qed

lemma reason_runes_tidy:
  "tidy pr out \<Longrightarrow> (pending \<Longrightarrow> out \<noteq> []) \<Longrightarrow> tidy pr (reason_runes pr pending out rs)"
proof (induction pr pending out rs rule: reason_runes.induct)
  case (2 pr pending out r rs)
  show ?case
  proof (cases "r \<in> set space_runes \<or> r = rune_error \<or> \<not> pr r")
    case True
    with 2 show ?thesis by auto
  next
    case False
    with 2 tidy_snoc [OF 2(4)] show ?thesis by auto
  qed
qed simp

text \<open>
  C38: a receiver's reason cannot write to a terminal. Whatever bytes a receiver answers with, the reason that is printed is the encoding of at most
  501 runes, each a plain space, the ellipsis, or a printable rune that is neither white space nor the replacement character (no control
  character, no escape sequence), on one line, with no space in front and no two spaces together.
\<close>

theorem refusal_reason_harmless:
  "\<exists>rs. refusal_reason pr body = concat (map encode_rune rs) \<and> length rs \<le> 501 \<and>
    set rs \<subseteq> {0x20, 0x2026} \<union> {r. r \<notin> set space_runes \<and> r \<noteq> rune_error \<and> pr r} \<and>
    takeWhile ((=) 0x20) rs = [] \<and> successively (\<lambda>a b. \<not> (a = 0x20 \<and> b = 0x20)) rs"
proof -
  define out where "out = reason_runes pr False [] (runes body)"
  have t: "tidy pr out" unfolding out_def by (rule reason_runes_tidy) (simp_all add: tidy_def)
  show ?thesis
  proof (cases "length out > max_reason")
    case False
    with t show ?thesis
      by (intro exI [of _ out]) (auto simp: refusal_reason_def out_def [symmetric] max_reason_def tidy_def)
  next
    case True
    define front where "front = take max_reason out"
    then obtain u where u: "out = front @ u" by (metis append_take_drop_id)
    have ne: "front \<noteq> []" using True by (auto simp: front_def max_reason_def)
    then obtain a as where a: "front = a # as" by (cases front) auto
    with t u have "a \<noteq> 0x20" by (auto simp: tidy_def split: if_splits)
    with a have hd: "takeWhile ((=) 0x20) (front @ [0x2026]) = []" by simp
    from t u have "successively (\<lambda>a b. \<not> (a = 0x20 \<and> b = 0x20)) front"
      by (simp only: tidy_def successively_append_iff)
    then have su: "successively (\<lambda>a b. \<not> (a = 0x20 \<and> b = 0x20)) (front @ [0x2026])"
      by (simp only: successively_append_iff) simp
    from t u have se: "set (front @ [0x2026]) \<subseteq> {0x20, 0x2026} \<union> {r. r \<notin> set space_runes \<and> r \<noteq> rune_error \<and> pr r}"
      by (auto simp: tidy_def)
    have le: "length (front @ [0x2026]) \<le> 501" by (simp add: front_def max_reason_def)
    have "refusal_reason pr body = concat (map encode_rune (front @ [0x2026]))"
      using True unfolding refusal_reason_def out_def [symmetric] front_def Let_def by simp
    with hd su se le show ?thesis by blast
  qed
qed

subsection \<open>At concrete inputs\<close>

text \<open>A receiver that is overloaded once and then accepts; the world counts the requests.\<close>

definition flaky :: "nat web" where
  "flaky = \<lparr> wb_do = (\<lambda>rq w. (Answered (if w = 0 then 503 else 204) None, w + 1)), wb_wait = (\<lambda>ms w. (None, w)),
     wb_parse_url = (\<lambda>u. Some (''https'', ''h'')), wb_join_path = (\<lambda>u p. u @ p), wb_printable = (\<lambda>r. 0x20 \<le> r \<and> r < 0x7F) \<rparr>"

definition plain_crypto :: crypto where
  "plain_crypto = \<lparr> sha256 = (\<lambda>m. replicate 32 (CHR 0x00)), ed_public = (\<lambda>s. s), ed_sign = (\<lambda>s m. m), ed_verify = (\<lambda>p m s. True) \<rparr>"

definition plain_client :: push_client where
  "plain_client = \<lparr> pc_url = ''https://h/l.jsonl'', pc_token = ''t'', pc_secret = None, pc_version = ''1'' \<rparr>"

abbreviation unsent :: "nat web_io" where "unsent \<equiv> \<lparr> wi_world = 0, wi_log = [] \<rparr>"

theorem push_retry_rule_witness:
  "fst (push_log flaky plain_crypto plain_client ''abc'' unsent) = Inr (204, 3) \<and>
   (\<exists>as. wi_log (snd (push_log flaky plain_crypto plain_client ''abc'' unsent)) = map (Pair (push_request plain_crypto plain_client ''abc'')) as \<and> length as \<le> 3)"
proof -
  obtain io' where p: "push_log flaky plain_crypto plain_client ''abc'' unsent = (Inr (204, 3), io')"
    by (simp add: push_log_def attempts_def numeral_3_eq_3 push_post_def send_request_def wait_backoff_def flaky_def push_verdict_def)
  from push_retry_rule [OF p] p show ?thesis by auto
qed

definition two_hooks :: notifier where
  "two_hooks = \<lparr> nt_hooks = [\<lparr> rh_index = 0, rh_url = ''https://a'', rh_secret = None, rh_on = [outcome_fail] \<rparr>,
     \<lparr> rh_index = 1, rh_url = ''https://b'', rh_secret = None, rh_on = [outcome_pass] \<rparr>], nt_version = ''1'' \<rparr>"

theorem webhooks_independent_witness:
  "\<exists>r :: evidence_record. rec_outcome r = outcome_pass \<and>
    (\<exists>a b. wi_log (snd (send_notifications flaky plain_crypto two_hooks r unsent)) =
      concat (map (hook_requests plain_crypto ''1'' (marshal (payload_json (new_payload r)))) (zip (nt_hooks two_hooks) [a, b])) \<and> a = [] \<and> b \<noteq> [])"
proof -
  obtain r :: evidence_record where r: "rec_outcome r = outcome_pass" by (metis evidence_record.select_convs(11))
  have ne: "outcome_pass \<noteq> outcome_fail" by (simp add: outcome_pass_def outcome_fail_def)
  obtain e io' where s: "send_notifications flaky plain_crypto two_hooks r unsent = (e, io')" by fastforce
  from webhooks_independent [OF s] obtain ass where l: "wi_log io' = concat (map (hook_requests plain_crypto ''1'' (marshal (payload_json (new_payload r)))) (zip (nt_hooks two_hooks) ass))"
    "list_all2 (hook_share (rec_outcome r)) (nt_hooks two_hooks) ass" by (auto simp: two_hooks_def)
  from l(2) obtain a b where "ass = [a, b]" "a = []" "b \<noteq> []"
    using r ne by (auto simp: two_hooks_def hook_share_def list_all2_Cons1 Suc_le_eq)
  with l(1) s r show ?thesis by (intro exI [of _ r]) auto
qed

theorem accepted_path_stays_below_witness:
  "clean_path ''a/b.jsonl'' = ''a/b.jsonl'' \<and> \<not> rooted_path ''a/b.jsonl''"
proof -
  have "validate_path (\<lambda>r. True) ''a/b.jsonl'' = None"
    by (simp add: validate_path_def Let_def max_path_def max_segments_def path_segment_def segment_char_def is_digit_def)
  from accepted_path_stays_below [OF this] show ?thesis by blast
qed

end
