(* ===== verification/Metrics.thy ===== *)
theory Metrics
  imports SandboxK8s SandboxRemote Delivery Instants
begin

text \<open>
  \<^verbatim>\<open>internal/metrics/metrics.go\<close>: the text file for Prometheus and the rolling restore durations it carries. The log
  is scanned as \<^verbatim>\<open>bufio.Scanner\<close> does; the quantile is computed in floating point, as in the code. Parameters: \<^verbatim>\<open>strconv.FormatFloat\<close>
  (\<open>ff\<close>) and the file system, whose operations are kept in their order.
\<close>

subsection \<open>Scanning the log\<close>

definition trend_window :: nat where "trend_window = 100"

definition drop_cr :: "bytes \<Rightarrow> bytes" where
  "drop_cr l = (if l \<noteq> [] \<and> last l = CHR 0x0D then butlast l else l)"

text \<open>The lines, up to one the buffer cannot hold, and the error that ended the scan.\<close>

definition scan_log :: "bytes \<Rightarrow> bytes option \<Rightarrow> bytes list \<times> bytes option" where
  "scan_log content fault =
    (let parts = split_char newline content; lines = (if last parts = [] then butlast parts else parts);
         fitting = takeWhile (\<lambda>l. length l < max_record_bytes) lines
     in (map drop_cr fitting, if length fitting < length lines then Some ''bufio.Scanner: token too long'' else fault))"

record trend_view =
  tv_drill :: bytes
  tv_restore :: "int option"

definition set_int_pointer :: "json \<Rightarrow> int option \<Rightarrow> int option" where
  "set_int_pointer v old = (case v of JNull \<Rightarrow> None | JNum n \<Rightarrow> parse_int64 n | _ \<Rightarrow> old)"

definition put_trend :: "bytes \<Rightarrow> json \<Rightarrow> trend_view \<Rightarrow> trend_view" where
  "put_trend n v t =
    (if n = ''drill'' then set_members [''name'', ''config_hash'', ''pitr_target'']
       (\<lambda>m w t. if m = ''name'' then t\<lparr> tv_drill := set_str w (tv_drill t) \<rparr> else t) v t
     else if n = ''timings_ms'' then set_members [''provision'', ''engine_ready'', ''transfer'', ''restore'', ''validate'', ''total'']
       (\<lambda>m w t. if m = ''restore'' then t\<lparr> tv_restore := set_int_pointer w (tv_restore t) \<rparr> else t) v t
     else t)"

text \<open>\<^verbatim>\<open>json.Unmarshal\<close> into a record, as far as the trend reads it; \<open>None\<close> is a line that is skipped.\<close>

definition unmarshal_trend :: "bytes \<Rightarrow> trend_view option" where
  "unmarshal_trend line = (case unmarshal_tree line of None \<Rightarrow> None
     | Some v \<Rightarrow> if \<not> conforms v record_shape then None
         else Some (set_members record_names put_trend v \<lparr> tv_drill = [], tv_restore = None \<rparr>))"

definition restore_sample :: "bytes \<Rightarrow> bytes \<Rightarrow> int option" where
  "restore_sample name line = (case unmarshal_trend line of None \<Rightarrow> None
     | Some t \<Rightarrow> if tv_drill t \<noteq> name then None else tv_restore t)"

text \<open>The ring: it grows to the window, then the oldest slot is overwritten.\<close>

definition ring_step :: "int \<Rightarrow> int list \<times> nat \<Rightarrow> int list \<times> nat" where
  "ring_step x = (\<lambda>(ring, count).
     (if length ring < trend_window then ring @ [x] else ring[count mod trend_window := x], count + 1))"

fun ring_of :: "bytes \<Rightarrow> bytes list \<Rightarrow> int list \<times> nat \<Rightarrow> int list \<times> nat" where
  "ring_of name [] st = st"
| "ring_of name (l # ls) st = ring_of name ls (case restore_sample name l of None \<Rightarrow> st | Some x \<Rightarrow> ring_step x st)"

subsection \<open>Quantiles\<close>

text \<open>The constants of the code as \<^verbatim>\<open>float64\<close>: a half, 0.95 and 0.9999999.\<close>

definition q50 :: float64 where "q50 = Finite 1 (- 1)"
definition q95 :: float64 where "q95 = Finite 4278419646001971 (- 52)"
definition almost_one :: float64 where "almost_one = Finite 9007198354021067 (- 53)"

definition rank_of :: "nat \<Rightarrow> float64 \<Rightarrow> int" where
  "rank_of n q = (let rank = float_to_int64 (float_plus (float_times q n) almost_one);
     low = (if rank < 1 then 1 else rank) in if low > int n then int n else low)"

definition quantile :: "int list \<Rightarrow> float64 \<Rightarrow> int" where
  "quantile xs q = xs ! nat (rank_of (length xs) q - 1)"

record trend =
  td_samples :: nat
  td_p50 :: int
  td_p95 :: int
  td_max :: int

definition trend_of :: "int list \<Rightarrow> trend" where
  "trend_of ring = (if ring = [] then \<lparr> td_samples = 0, td_p50 = 0, td_p95 = 0, td_max = 0 \<rparr>
     else let s = sort ring in \<lparr> td_samples = length s, td_p50 = quantile s q50, td_p95 = quantile s q95, td_max = last s \<rparr>)"

text \<open>The log: the error of opening it, or what can be read of it and the error after that.\<close>

definition restore_trend :: "bytes + bytes \<times> bytes option \<Rightarrow> bytes \<Rightarrow> bytes + trend" where
  "restore_trend log name = (case log of
     Inl e \<Rightarrow> Inl (''open evidence log: '' @ e)
   | Inr (content, fault) \<Rightarrow>
     (case scan_log content fault of
        (lines, Some e) \<Rightarrow> Inl (''scan evidence log: '' @ e)
      | (lines, None) \<Rightarrow> Inr (trend_of (fst (ring_of name lines ([], 0))))))"

subsection \<open>Rendering\<close>

text \<open>\<^verbatim>\<open>float64(n) / 1000\<close>.\<close>

definition millis_to_seconds :: "int \<Rightarrow> float64" where
  "millis_to_seconds n = (case float_per_mille (float_from False (nat \<bar>n\<bar>) 0) of
     Finite m e \<Rightarrow> Finite (if n < 0 then - m else m) e | f \<Rightarrow> f)"

text \<open>Three digits of a fraction, one of which may be a sign.\<close>

definition millis_field :: "bytes \<Rightarrow> nat option" where
  "millis_field s = (let signed = (hd s = CHR ''+'' \<or> hd s = CHR ''-''); ds = (if signed then tl s else s) in
     if \<not> list_all is_digit ds \<or> (hd s = CHR ''-'' \<and> digits_val ds > 0) then None else Some (digits_val ds))"

text \<open>\<^verbatim>\<open>time.Parse(evidence.TimestampFormat, ts)\<close>.\<close>

definition parse_record_ts :: "bytes \<Rightarrow> int option" where
  "parse_record_ts s =
    (let front = take (length s - 5) s; tail = drop (length s - 5) s in
     if length s < 5 \<or> tail ! 0 \<notin> {CHR ''.'', CHR '',''} \<or> tail ! 4 \<noteq> CHR ''Z'' then None
     else (case millis_field (take 3 (tl tail)) of None \<Rightarrow> None
       | Some ms \<Rightarrow> map_option (\<lambda>t. t + int ms * 1000000)
           (parse_layout (date_layout @ [Lit CHR ''T''] @ minute_layout @ [Lit CHR '':'', Second]) front)))"

definition escape_label :: "bytes \<Rightarrow> bytes" where
  "escape_label v = concat (map (\<lambda>c. if c = CHR 0x5C then [CHR 0x5C, CHR 0x5C] else if c = CHR 0x22 then [CHR 0x5C, CHR 0x22]
     else if c = newline then [CHR 0x5C, CHR ''n''] else [c]) v)"

definition write_metric :: "bytes \<Rightarrow> bytes \<Rightarrow> bytes \<Rightarrow> bytes \<Rightarrow> bytes" where
  "write_metric name help label v = ''# HELP '' @ name @ '' '' @ help @ [newline] @ ''# TYPE '' @ name @ '' gauge'' @ [newline] @
     name @ ''{'' @ label @ ''} '' @ v @ [newline]"

definition rolling_name :: bytes where "rolling_name = ''probavi_restore_duration_rolling_seconds''"

definition render_trend :: "(float64 \<Rightarrow> bytes) \<Rightarrow> bytes \<Rightarrow> trend option \<Rightarrow> bytes" where
  "render_trend ff label t = (case t of None \<Rightarrow> [] | Some t \<Rightarrow> if td_samples t = 0 then [] else
     ''# HELP '' @ rolling_name @ '' Rolling restore-duration quantiles over the most recent drills (window '' @ show_nat trend_window @ '').'' @ [newline] @
     ''# TYPE '' @ rolling_name @ '' gauge'' @ [newline] @
     concat (map (\<lambda>(q, ms). rolling_name @ ''{'' @ label @ '',quantile='' @ [CHR 0x22] @ q @ [CHR 0x22] @ ''} '' @ ff (millis_to_seconds ms) @ [newline])
       [(''0.5'', td_p50 t), (''0.95'', td_p95 t), (''1'', td_max t)]) @
     write_metric ''probavi_restore_trend_samples'' ''Number of restore-duration samples inside the rolling window.'' label (show_nat (td_samples t)))"

definition render_metrics :: "(float64 \<Rightarrow> bytes) \<Rightarrow> evidence_record \<Rightarrow> trend option \<Rightarrow> bytes option" where
  "render_metrics ff r t = (case parse_record_ts (rec_ts r) of None \<Rightarrow> None
   | Some ts \<Rightarrow>
     let label = ''drill='' @ [CHR 0x22] @ escape_label (drill_name (rec_drill r)) @ [CHR 0x22]; at = ff (millis_to_seconds (ts div 1000000)) in Some (
     (case t_restore (rec_timings r) of None \<Rightarrow> []
      | Some ms \<Rightarrow> write_metric ''probavi_restore_duration_seconds'' ''Duration of the engine restore phase of the last drill.'' label (ff (millis_to_seconds ms))) @
     write_metric ''probavi_checks_passed'' ''Number of checks that passed in the last drill.'' label (show_nat (passed_count r)) @
     write_metric ''probavi_checks_total'' ''Number of checks executed in the last drill.'' label (show_nat (length (checks_of r))) @
     write_metric ''probavi_last_run_timestamp_seconds'' (''Unix time of the last drill'' @ [CHR 0x27] @ ''s evidence record.'') label at @
     (if rec_outcome r = outcome_pass
      then write_metric ''probavi_last_success_timestamp_seconds'' ''Unix time of the last drill that proved the backup restorable.'' label at else []) @
     render_trend ff label t))"

subsection \<open>Writing the file\<close>

datatype file_op = MakeTemp bytes bytes | WriteAll bytes bytes | SetMode bytes nat | CloseFile bytes | RenameFile bytes bytes | RemoveFile bytes

text \<open>\<open>dk_temp\<close> is the name \<^verbatim>\<open>os.CreateTemp\<close> chose, or its error; \<open>dk_do\<close> is the error of any other operation.\<close>

record 'w disk =
  dk_temp :: "bytes \<Rightarrow> bytes \<Rightarrow> 'w \<Rightarrow> (bytes + bytes) \<times> 'w"
  dk_do :: "file_op \<Rightarrow> 'w \<Rightarrow> bytes option \<times> 'w"

record 'w disk_io =
  di_world :: 'w
  di_ops :: "file_op list"

definition file_do :: "'w disk \<Rightarrow> file_op \<Rightarrow> 'w disk_io \<Rightarrow> bytes option \<times> 'w disk_io" where
  "file_do d op io = (case dk_do d op (di_world io) of (e, w) \<Rightarrow> (e, io\<lparr> di_world := w, di_ops := di_ops io @ [op] \<rparr>))"

text \<open>\<^verbatim>\<open>filepath.Dir\<close> and \<^verbatim>\<open>filepath.Base\<close> of a cleaned path.\<close>

definition dir_of :: "bytes \<Rightarrow> bytes" where
  "dir_of p = clean_path (rev (dropWhile (\<lambda>c. c \<noteq> c_slash) (rev p)))"

definition base_of :: "bytes \<Rightarrow> bytes" where
  "base_of p = (let b = rev (takeWhile (\<lambda>c. c \<noteq> c_slash) (rev p)) in if b = [] then ''/'' else b)"

text \<open>After a failure: \<open>ops\<close> are still done, and every error is reported.\<close>

fun clean_after :: "'w disk \<Rightarrow> bytes list \<Rightarrow> file_op list \<Rightarrow> 'w disk_io \<Rightarrow> bytes option \<times> 'w disk_io" where
  "clean_after d errs [] io = (Some (join_with [newline] errs), io)"
| "clean_after d errs (op # ops) io = (case file_do d op io of
     (None, io) \<Rightarrow> clean_after d errs ops io | (Some e, io) \<Rightarrow> clean_after d (errs @ [e]) ops io)"

definition publish :: "'w disk \<Rightarrow> bytes \<Rightarrow> bytes \<Rightarrow> 'w disk_io \<Rightarrow> bytes option \<times> 'w disk_io" where
  "publish d path0 content io =
    (let path = clean_path path0; dir = dir_of path; pat = base_of path @ ''.*.tmp'' in
     case dk_temp d dir pat (di_world io) of
       (Inl e, w) \<Rightarrow> (Some (''create metrics tempfile: '' @ e), io\<lparr> di_world := w, di_ops := di_ops io @ [MakeTemp dir pat] \<rparr>)
     | (Inr name, w) \<Rightarrow>
       let io = io\<lparr> di_world := w, di_ops := di_ops io @ [MakeTemp dir pat] \<rparr> in
       (case file_do d (WriteAll name content) io of
          (Some e, io) \<Rightarrow> clean_after d [''write metrics tempfile: '' @ e] [CloseFile name, RemoveFile name] io
        | (None, io) \<Rightarrow>
          (case file_do d (SetMode name 420) io of
             (Some e, io) \<Rightarrow> clean_after d [''set metrics file mode: '' @ e] [CloseFile name, RemoveFile name] io
           | (None, io) \<Rightarrow>
             (case file_do d (CloseFile name) io of
                (Some e, io) \<Rightarrow> clean_after d [''close metrics tempfile: '' @ e] [RemoveFile name] io
              | (None, io) \<Rightarrow>
                (case file_do d (RenameFile name path) io of
                   (Some e, io) \<Rightarrow> clean_after d [''publish metrics file: '' @ e] [RemoveFile name] io
                 | (None, io) \<Rightarrow> (None, io))))))"

definition write_textfile :: "'w disk \<Rightarrow> (float64 \<Rightarrow> bytes) \<Rightarrow> bytes \<Rightarrow> evidence_record \<Rightarrow> trend option \<Rightarrow> 'w disk_io \<Rightarrow>
    (unit + bytes option) \<times> 'w disk_io" where
  "write_textfile d ff path r t io = (case render_metrics ff r t of None \<Rightarrow> (Inl (), io)
     | Some content \<Rightarrow> (case publish d path content io of (e, io) \<Rightarrow> (Inr e, io)))"

end
