(* ===== verification/MetricsProps.thy ===== *)
theory MetricsProps
  imports Metrics AdapterProps StoreAccept "HOL-Library.Multiset"
begin

text \<open>
  What the metrics file says and how it is published: the trend is the nearest-rank quantile of exactly the last
  hundred restores, and the file at the published name is only ever a whole one.
\<close>

subsection \<open>The ring\<close>

definition samples_of :: "bytes \<Rightarrow> bytes list \<Rightarrow> int list" where
  "samples_of name ls = List.map_filter (restore_sample name) ls"

lemma ring_of_samples: "ring_of name ls st = fold ring_step (samples_of name ls) st"
  by (induction ls arbitrary: st) (auto simp: samples_of_def map_filter_simps split: option.split)

text \<open>The window in the order of the log: from the slot that is overwritten next.\<close>

definition window :: "int list \<times> nat \<Rightarrow> int list" where
  "window = (\<lambda>(ring, count). if length ring < trend_window then ring else drop (count mod trend_window) ring @ take (count mod trend_window) ring)"

definition ring_ok :: "int list \<times> nat \<Rightarrow> bool" where
  "ring_ok = (\<lambda>(ring, count). length ring = min count trend_window)"

lemma ring_step_window:
  assumes "ring_ok st"
  shows "ring_ok (ring_step x st) \<and> snd (ring_step x st) = Suc (snd st) \<and>
    window (ring_step x st) = (if length (fst st) < trend_window then window st @ [x] else tl (window st) @ [x])"
proof -
  obtain ring count where st: "st = (ring, count)" by fastforce
  let ?n = trend_window and ?k = "count mod trend_window"
  have n: "?n > 0" by (simp add: trend_window_def)
  show ?thesis
  proof (cases "length ring < ?n")
    case True
    with assms st have "length ring = count" by (simp add: ring_ok_def)
    moreover have "Suc count mod ?n = 0" if "\<not> Suc count < ?n"
    proof -
      from that True calculation have "Suc count = ?n" by simp
      then show ?thesis by simp
    qed
    ultimately show ?thesis using True st
      by (cases "Suc count < ?n") (auto simp: ring_step_def ring_ok_def window_def)
  next
    case False
    with assms st have len: "length ring = ?n" "?n \<le> count" by (auto simp: ring_ok_def min_def split: if_splits)
    have k: "?k < ?n" using n by simp
    obtain a y b where r: "ring = a @ y # b" "length a = ?k"
      using id_take_nth_drop [of ?k ring] len k by (metis length_take min.absorb4)
    have step: "ring_step x st = (a @ x # b, Suc count)" using False st r by (simp add: ring_step_def list_update_append)
    have w: "window st = y # b @ a" using st r len by (simp add: window_def)
    show ?thesis
    proof (cases "Suc ?k < ?n")
      case True
      then have "Suc count mod ?n = Suc ?k" by (simp add: mod_Suc)
      with step w st r len show ?thesis by (simp add: window_def ring_ok_def)
    next
      case last: False
      with k have "Suc ?k = ?n" by simp
      moreover have "?k + (1 + length b) = ?n" using r len by simp
      then have "length b = 0" using calculation by linarith
      ultimately have "Suc count mod ?n = 0" "b = []" by (simp_all add: mod_Suc)
      with step w st r len show ?thesis by (simp add: window_def ring_ok_def)
    qed
  qed
qed

lemma ring_window:
  "ring_ok (fold ring_step xs ([], 0)) \<and> snd (fold ring_step xs ([], 0)) = length xs \<and>
    window (fold ring_step xs ([], 0)) = drop (length xs - trend_window) xs"
proof (induction xs rule: rev_induct)
  case (snoc x xs)
  let ?st = "fold ring_step xs ([], 0)"
  from snoc have ok: "ring_ok ?st" "snd ?st = length xs" "window ?st = drop (length xs - trend_window) xs" by auto
  then have len: "length (fst ?st) = min (length xs) trend_window" by (auto simp: ring_ok_def split: prod.splits)
  show ?case
  proof (cases "length xs < trend_window")
    case True
    with ring_step_window [OF ok(1), of x] ok len show ?thesis by simp
  next
    case False
    then have "tl (drop (length xs - trend_window) xs) = drop (Suc (length xs) - trend_window) xs"
      by (simp add: tl_drop drop_Suc Suc_diff_le)
    moreover have "drop (Suc 0 - trend_window) [x] = [x]" by (simp add: trend_window_def)
    ultimately show ?thesis using False ring_step_window [OF ok(1), of x] ok len by simp
  qed
qed (simp add: ring_ok_def window_def trend_window_def)

lemma window_mset: "mset (window st) = mset (fst st)"
  by (cases st) (simp add: window_def flip: mset_append, metis append_take_drop_id mset_append union_commute)

lemma sort_window: "sort (fst (fold ring_step xs ([], 0))) = sort (drop (length xs - trend_window) xs)"
  using window_mset [of "fold ring_step xs ([], 0)"] ring_window [of xs]
  by (metis mset_sort properties_for_sort sorted_sort)

subsection \<open>Ranks\<close>

lemma bit_length_le: "n < 2 ^ b \<Longrightarrow> bit_length n \<le> b"
proof (rule ccontr)
  assume "n < 2 ^ b" "\<not> bit_length n \<le> b"
  then have "b \<le> bit_length n - 1" "0 < n" by (cases n; simp add: bit_length.simps [of 0])+
  then have "(2::nat) ^ b \<le> 2 ^ (bit_length n - 1)" by (intro power_increasing) simp_all
  with bit_length_low [OF \<open>0 < n\<close>] \<open>n < 2 ^ b\<close> show False by linarith
qed

text \<open>Rounding to 53 bits moves a number by at most half of the last place it keeps.\<close>

lemma round_float_near:
  assumes "n < 2 ^ (53 + j)" "- 1074 \<le> e" "round_float n e = (q, x)"
  shows "\<exists>k \<le> j. x = e + int k \<and> 2 * (q * 2 ^ k) \<le> 2 * n + 2 ^ k \<and> 2 * n \<le> 2 * (q * 2 ^ k) + 2 ^ k"
proof -
  define k where "k = bit_length n - 53"
  have k: "k \<le> j" using bit_length_le [OF assms(1)] by (simp add: k_def)
  define d where "d = n div 2 ^ k"
  define r where "r = n mod 2 ^ k"
  have n: "n = d * 2 ^ k + r" "r < 2 ^ k" using div_mult_mod_eq [of n "2 ^ k"] by (simp_all only: d_def r_def) simp_all
  have "q = (if 2 * r > 2 ^ k \<or> (2 * r = 2 ^ k \<and> odd d) then Suc d else d)" "x = e + int k"
    using assms(2, 3) by (auto simp: round_float_def Let_def k_def d_def r_def max_def split: if_splits)
  moreover have "2 * (q * 2 ^ k) \<le> 2 * n + 2 ^ k \<and> 2 * n \<le> 2 * (q * 2 ^ k) + 2 ^ k"
  proof (cases "q = Suc d")
    case True
    with calculation(1) have "2 ^ k \<le> 2 * r" by (auto split: if_splits)
    with True n show ?thesis by (simp add: algebra_simps)
  next
    case False
    with calculation(1) have "2 * r \<le> 2 ^ k" "q = d" by (auto split: if_splits)
    with n show ?thesis by simp
  qed
  ultimately show ?thesis using k by blast
qed

lemma not_too_large:
  assumes "x < 0" "q < 2 ^ 1024"
  shows "\<not> too_large q x"
proof -
  have "q < B \<Longrightarrow> 1 \<le> c \<Longrightarrow> \<not> B * c \<le> q" for B c :: nat
    by (metis le_trans mult.right_neutral mult_le_mono2 not_less)
  from this [OF assms(2), of "2 ^ nat (- x)"] assms(1) show ?thesis by (simp only: too_large_def) simp
qed

lemma rounded_from:
  assumes "n < 2 ^ (53 + j)" "- 1074 \<le> e" "e + int j < 0" "j \<le> 100"
  shows "\<exists>q k. float_from False n e = Finite (int q) (e + int k) \<and> k \<le> j \<and> 2 * (q * 2 ^ k) \<le> 2 * n + 2 ^ k \<and> 2 * n \<le> 2 * (q * 2 ^ k) + 2 ^ k"
proof -
  obtain q x where r: "round_float n e = (q, x)" by fastforce
  from round_float_near [OF assms(1, 2) r] obtain k where k: "k \<le> j" "x = e + int k" "2 * (q * 2 ^ k) \<le> 2 * n + 2 ^ k"
    "2 * n \<le> 2 * (q * 2 ^ k) + 2 ^ k" by blast
  have "q * 1 \<le> q * 2 ^ k" by (intro mult_le_mono2) simp
  moreover have "(2::nat) ^ k \<le> 2 ^ j" using k(1) by (intro power_increasing) simp_all
  moreover have "(2::nat) ^ (53 + j) = 9007199254740992 * 2 ^ j" "(2::nat) ^ (54 + j) = 18014398509481984 * 2 ^ j" by (simp_all add: power_add)
  moreover have "(1::nat) \<le> 2 ^ j" by simp
  ultimately have "q < 2 ^ (54 + j)" using k(3) assms(1) by linarith
  moreover have "(2::nat) ^ (54 + j) \<le> 2 ^ 1024" using assms(4) by (intro power_increasing) simp_all
  ultimately have "\<not> too_large q x" using k assms(3) by (intro not_too_large) auto
  with r k show ?thesis by (auto simp: float_from_def)
qed

lemma int_near:
  fixes q n k :: nat
  assumes "2 * (q * 2 ^ k) \<le> 2 * n + 2 ^ k" "2 * n \<le> 2 * (q * 2 ^ k) + 2 ^ k" "k \<le> j"
  shows "\<bar>2 * (int q * 2 ^ k) - 2 * int n\<bar> \<le> 2 ^ j"
proof -
  have "(2::nat) ^ k \<le> 2 ^ j" using assms(3) by (intro power_increasing) simp_all
  with assms have "2 * (q * 2 ^ k) \<le> 2 * n + 2 ^ j" "2 * n \<le> 2 * (q * 2 ^ k) + 2 ^ j" by linarith+
  then have "int (2 * (q * 2 ^ k)) \<le> int (2 * n + 2 ^ j)" "int (2 * n) \<le> int (2 * (q * 2 ^ k) + 2 ^ j)" by (simp_all only: of_nat_le_iff)
  then show ?thesis by simp
qed

text \<open>The sum with 0.9999999 is computed to within 128 units of its last bit, and the conversion cuts it.\<close>

lemma plus_almost_one:
  assumes "q * 2 ^ nat (x + 53) < 2 ^ 60" "- 53 \<le> x"
  shows "\<exists>V. float_to_int64 (float_plus (Finite (int q) x) almost_one) = V div 2 ^ 53 \<and>
    \<bar>V - (int (q * 2 ^ nat (x + 53)) + 9007198354021067)\<bar> \<le> 128 \<and> V \<ge> 0"
proof -
  let ?n = "q * 2 ^ nat (x + 53) + 9007198354021067"
  have sum: "float_plus (Finite (int q) x) almost_one = float_from False ?n (- 53)"
    using assms(2) by (simp add: float_plus_def almost_one_def Let_def min_def)
  have "?n < 2 ^ (53 + 8)" using assms(1) by simp
  from rounded_from [OF this, of "- 53"] obtain r k where r: "float_from False ?n (- 53) = Finite (int r) (- 53 + int k)" "k \<le> 8"
    "2 * (r * 2 ^ k) \<le> 2 * ?n + 2 ^ k" "2 * ?n \<le> 2 * (r * 2 ^ k) + 2 ^ k" by auto
  define V where "V = int r * 2 ^ k"
  from int_near [OF r(3, 4, 2)] have near: "\<bar>V - int ?n\<bar> \<le> 128" by (simp add: V_def)
  have pow: "(2::int) ^ 53 = 2 ^ nat (53 - int k) * 2 ^ k" proof -
    have "nat (53 - int k) + k = 53" using r(2) by simp
    then show ?thesis by (simp only: power_add [symmetric])
  qed
  have cut: "int r div 2 ^ nat (53 - int k) = V div 2 ^ 53" unfolding V_def pow by (simp add: mult.commute)
  have "V \<ge> 0" by (simp add: V_def)
  moreover have "int (q * 2 ^ nat (x + 53)) < 2 ^ 60" using assms(1) by (metis of_nat_less_iff of_nat_numeral of_nat_power)
  then have "V < 2 ^ 62" using near by simp
  then have "V div 2 ^ 53 < 2 ^ 9" by simp
  moreover have "0 \<le> V div 2 ^ 53" using \<open>V \<ge> 0\<close> by simp
  ultimately have "float_to_int64 (Finite (int r) (- 53 + int k)) = V div 2 ^ 53"
    using r(2) cut by (simp add: float_to_int64_def int64_of_def)
  with near \<open>V \<ge> 0\<close> sum r(1) show ?thesis by (intro exI [of _ V]) simp
qed

lemma clamp_rank:
  assumes "float_to_int64 (float_plus (float_times q n) almost_one) = r" "1 \<le> r" "r \<le> int n"
  shows "rank_of n q = r"
  using assms by (simp add: rank_of_def)

lemma ceiling_95:
  assumes "1 \<le> n" "n \<le> 100" "\<bar>V - (2 * (4278419646001971 * n) + 9007198354021067)\<bar> \<le> (200 :: int)"
  shows "V div 2 ^ 53 = (95 * n + 99) div 100"
proof -
  have "list_all (\<lambda>n :: int. (2 * (4278419646001971 * n) + 9007198354021067 - 200) div 9007199254740992 = (95 * n + 99) div 100 \<and>
    (2 * (4278419646001971 * n) + 9007198354021067 + 200) div 9007199254740992 = (95 * n + 99) div 100) [1..100]" by code_simp
  then have "(2 * (4278419646001971 * n) + 9007198354021067 - 200) div 2 ^ 53 = (95 * n + 99) div 100"
    "(2 * (4278419646001971 * n) + 9007198354021067 + 200) div 2 ^ 53 = (95 * n + 99) div 100"
    using assms(1, 2) by (auto simp: list_all_iff)
  moreover have "(2 * (4278419646001971 * n) + 9007198354021067 - 200) div 2 ^ 53 \<le> V div 2 ^ 53"
    "V div 2 ^ 53 \<le> (2 * (4278419646001971 * n) + 9007198354021067 + 200) div 2 ^ 53"
    using assms(3) by (intro zdiv_mono1; simp)+
  ultimately show ?thesis by simp
qed

lemma rank_95: "1 \<le> n \<Longrightarrow> n \<le> 100 \<Longrightarrow> rank_of n q95 = (95 * int n + 99) div 100"
proof (rule clamp_rank)
  assume n: "1 \<le> n" "n \<le> 100"
  let ?m = "4278419646001971 * n"
  have t: "float_times q95 n = float_from False ?m (- 52)" by (simp add: float_times_def q95_def)
  have "?m < 2 ^ (53 + 6)" using n by simp
  from rounded_from [OF this, of "- 52"] obtain q k where q: "float_times q95 n = Finite (int q) (- 52 + int k)" "k \<le> 6"
    "2 * (q * 2 ^ k) \<le> 2 * ?m + 2 ^ k" "2 * ?m \<le> 2 * (q * 2 ^ k) + 2 ^ k" using t by auto
  from int_near [OF q(3, 4, 2)] have near: "\<bar>2 * (int q * 2 ^ k) - 2 * int ?m\<bar> \<le> 64" by simp
  have e: "nat (- 52 + int k + 53) = Suc k" by simp
  have "int (q * 2 ^ Suc k) = 2 * (int q * 2 ^ k)" by simp
  with near n have "int (q * 2 ^ Suc k) < 2 ^ 60" by simp
  then have "q * 2 ^ Suc k < 2 ^ 60" by (metis of_nat_less_iff of_nat_numeral of_nat_power)
  with plus_almost_one [of q "- 52 + int k"] obtain V where V: "float_to_int64 (float_plus (float_times q95 n) almost_one) = V div 2 ^ 53"
    "\<bar>V - (int (q * 2 ^ Suc k) + 9007198354021067)\<bar> \<le> 128" unfolding q(1) e by auto
  have "\<bar>V - (2 * (4278419646001971 * int n) + 9007198354021067)\<bar> \<le> 200" using V(2) near by simp
  with ceiling_95 [of "int n" V] n V(1) show "float_to_int64 (float_plus (float_times q95 n) almost_one) = (95 * int n + 99) div 100" by simp
  show "1 \<le> (95 * int n + 99) div 100" "(95 * int n + 99) div 100 \<le> int n" using n by simp_all
qed

lemma rank_50: "1 \<le> n \<Longrightarrow> n \<le> 100 \<Longrightarrow> rank_of n q50 = (int n + 1) div 2"
proof (rule clamp_rank)
  assume n: "1 \<le> n" "n \<le> 100"
  have "n < 2 ^ (53 + 0)" using n by simp
  from rounded_from [OF this, of "- 1"] have t: "float_times q50 n = Finite (int n) (- 1)"
    by (auto simp: float_times_def q50_def)
  have "n * 2 ^ nat (- 1 + 53) < 2 ^ 60" using n by simp
  from plus_almost_one [OF this] obtain V where V: "float_to_int64 (float_plus (float_times q50 n) almost_one) = V div 2 ^ 53"
    "\<bar>V - (int (n * 2 ^ 52) + 9007198354021067)\<bar> \<le> 128" unfolding t by auto
  have "V div 9007199254740992 = (int n + 1) div 2" using V(2) by simp
  with V(1) show "float_to_int64 (float_plus (float_times q50 n) almost_one) = (int n + 1) div 2" by simp
  show "1 \<le> (int n + 1) div 2" "(int n + 1) div 2 \<le> int n" using n by simp_all
qed

subsection \<open>The trend\<close>

text \<open>The nearest rank of a sample: the least one with at least \<open>p\<close> percent of the samples at or below it.\<close>

definition nearest_rank :: "int list \<Rightarrow> int \<Rightarrow> int" where
  "nearest_rank xs p = sort xs ! nat ((p * int (length xs) + 99) div 100 - 1)"

lemma sorted_last_Max: "sorted xs \<Longrightarrow> xs \<noteq> [] \<Longrightarrow> last xs = Max (set xs)"
  by (cases xs rule: rev_cases) (auto simp: sorted_append intro!: Max_eqI [symmetric])

text \<open>
  C39: the trend is what it says. If a trend is returned, the whole log was read; it counts the restores of this drill among the last hundred of them,
  in the order of the log, and the three numbers are the nearest-rank median, the nearest-rank 95th percentile and the greatest of exactly those:
  the ring buffer, the floating-point ranks and the constant 0.9999999 neither lose nor misplace a sample.
\<close>

theorem restore_trend_exact:
  assumes "restore_trend (Inr (content, fault)) name = Inr t" "scan_log content fault = (lines, err)"
    and "recent = drop (length (samples_of name lines) - 100) (samples_of name lines)"
  shows "err = None \<and> td_samples t = length recent \<and>
    (if recent = [] then t = \<lparr> td_samples = 0, td_p50 = 0, td_p95 = 0, td_max = 0 \<rparr>
     else td_p50 t = nearest_rank recent 50 \<and> td_p95 t = nearest_rank recent 95 \<and> td_max t = Max (set recent))"
proof -
  let ?ring = "fst (fold ring_step (samples_of name lines) ([], 0))"
  from assms(1, 2) have err: "err = None" and t: "t = trend_of ?ring"
    by (auto simp: restore_trend_def ring_of_samples split: option.splits)
  have s: "sort ?ring = sort recent" using sort_window [of "samples_of name lines"] assms(3) by (simp add: trend_window_def)
  have len: "length ?ring = length recent" by (metis length_sort s)
  have small: "length recent \<le> 100" using assms(3) by simp
  show ?thesis
  proof (cases "recent = []")
    case True
    with len t err show ?thesis by (simp add: trend_of_def)
  next
    case False
    then have n: "1 \<le> length recent" by (simp add: Suc_le_eq)
    from False len have "?ring \<noteq> []" by auto
    then have tr: "td_samples t = length recent" "td_p50 t = quantile (sort recent) q50" "td_p95 t = quantile (sort recent) q95" "td_max t = last (sort recent)"
      using t s len by (simp_all add: trend_of_def Let_def)
    have "(50 * int (length recent) + 99) div 100 = (int (length recent) + 1) div 2" by simp
    then have "td_p50 t = nearest_rank recent 50" "td_p95 t = nearest_rank recent 95"
      using tr rank_50 [OF n small] rank_95 [OF n small] by (simp_all add: quantile_def nearest_rank_def)
    moreover have "last (sort recent) = Max (set recent)" using False by (metis length_0_conv length_sort set_sort sorted_last_Max sorted_sort)
    ultimately show ?thesis using tr err False by simp
  qed
qed

subsection \<open>Publishing\<close>

lemma file_do_ops: "file_do d op io = (e, io') \<Longrightarrow> di_ops io' = di_ops io @ [op]"
  by (auto simp: file_do_def split: prod.splits)

lemma clean_after_ops: "clean_after d errs ops io = (e, io') \<Longrightarrow> di_ops io' = di_ops io @ ops \<and> e \<noteq> None"
  by (induction d errs ops io rule: clean_after.induct) (auto split: prod.splits option.splits dest: file_do_ops)

text \<open>
  C40: a reader of the metrics file never sees half of one, and no failure leaves a temporary file. Publishing first asks for a temporary file in the
  destination's own directory. If none can be created, nothing else is done and an error is reported. Otherwise no error means that exactly these operations followed: the
  whole content was written to the temporary file, its mode set, the file closed, and only then renamed to the destination. An error means that one of three sequences followed:
  each writes to the temporary file only, closes it, and ends with its removal, and only in the last one, where the renaming itself failed, does an operation name the destination.
\<close>

theorem metrics_published_whole:
  assumes "publish d path content io = (e, io')" "dest = clean_path path"
  shows "case dk_temp d (dir_of dest) (base_of dest @ ''.*.tmp'') (di_world io) of
    (Inl why, w) \<Rightarrow> e \<noteq> None \<and> di_ops io' = di_ops io @ [MakeTemp (dir_of dest) (base_of dest @ ''.*.tmp'')]
  | (Inr tmp, w) \<Rightarrow> \<exists>ops. di_ops io' = di_ops io @ MakeTemp (dir_of dest) (base_of dest @ ''.*.tmp'') # ops \<and>
      (if e = None then ops = [WriteAll tmp content, SetMode tmp 420, CloseFile tmp, RenameFile tmp dest]
       else ops \<in> {[WriteAll tmp content, CloseFile tmp, RemoveFile tmp],
         [WriteAll tmp content, SetMode tmp 420, CloseFile tmp, RemoveFile tmp],
         [WriteAll tmp content, SetMode tmp 420, CloseFile tmp, RenameFile tmp dest, RemoveFile tmp]})"
  using assms by (auto simp: publish_def Let_def split: prod.splits sum.splits option.splits dest!: file_do_ops clean_after_ops)

subsection \<open>At concrete inputs\<close>

definition trend_doc :: json where
  "trend_doc = JObj [(''drill'', JObj [(''name'', JStr ''d'')]), (''timings_ms'', JObj [(''restore'', JNum ''5'')])]"

lemma five: "show_int 5 = ''5''" "integer_pattern ''5''" "parse_int64 ''5'' = Some 5"
proof -
  have "char_of (53 :: nat) = CHR ''5''" by code_simp
  then show "show_int 5 = ''5''" by (simp add: show_int_def show_nat.simps digit_char_def)
qed (simp_all add: integer_pattern_def parse_int64_def is_digit_def digits_val_def digit_val_def)

lemma sample_quote_plain:
  assumes "\<forall>c \<in> set s. 0x20 \<le> code c \<and> code c < 0x7F \<and> code c \<noteq> 0x22 \<and> code c \<noteq> 0x5C"
  shows "quote_runes s = s"
proof -
  have "escape_rune (code c) = [c]" if "c \<in> set s" for c
    using assms that by (auto simp: escape_rune_def encode_rune_ascii)
  then have "concat (map (\<lambda>c. escape_rune (code c)) s) = concat (map (\<lambda>c. [c]) s)" by (intro arg_cong [where f = concat] map_cong) auto
  moreover have "runes s = map code s" using assms by (intro runes_ascii) auto
  ultimately show ?thesis by (simp add: quote_runes_def comp_def)
qed

definition trend_line :: bytes where
  "trend_line = [CHR 0x7B, CHR 0x22] @ ''drill'' @ [CHR 0x22] @ '':{'' @ [CHR 0x22] @ ''name'' @ [CHR 0x22] @ '':'' @ [CHR 0x22] @ ''d'' @ [CHR 0x22] @ ''},'' @
     [CHR 0x22] @ ''timings_ms'' @ [CHR 0x22] @ '':{'' @ [CHR 0x22] @ ''restore'' @ [CHR 0x22] @ '':5}}''"

lemma trend_line_renders: "trend_line = render quote_runes trend_doc"
  by (simp add: trend_line_def trend_doc_def sample_quote_plain member_text_def)

lemma trend_doc_read: "restore_sample ''d'' trend_line = Some 5"
proof -
  have "parse_first (render quote_runes trend_doc) = Some (trend_doc, [])"
    using five num_ok_show_int [of 5] by (intro cq.parse_first_render) (simp_all add: trend_doc_def ascii_valid max_depth_def)
  then have "unmarshal_tree trend_line = Some trend_doc" by (simp add: unmarshal_tree_def skip_ws_def trend_line_renders)
  then show ?thesis
    using five by (simp add: restore_sample_def unmarshal_trend_def trend_doc_def record_shape_def record_names_def struct_fields_def field_name_def
        set_members_def put_trend_def set_str_def set_int_pointer_def)
qed

theorem restore_trend_exact_witness:
  "restore_trend (Inr (trend_line @ [newline], None)) ''d'' = Inr \<lparr> td_samples = 1, td_p50 = 5, td_p95 = 5, td_max = 5 \<rparr> \<and> nearest_rank [5] 95 = 5"
proof -
  have nl: "newline \<notin> set trend_line" "length trend_line < max_record_bytes" "drop_cr trend_line = trend_line" "trend_line \<noteq> []"
    by (simp_all add: trend_line_def max_record_bytes_def drop_cr_def)
  have sc: "scan_log (trend_line @ [newline]) None = ([trend_line], None)"
    using nl split_char_join [of newline trend_line "[]"] split_char_single [OF nl(1)] by (simp add: scan_log_def)
  have sm: "samples_of ''d'' [trend_line] = [5]" by (simp add: samples_of_def map_filter_simps trend_doc_read)
  obtain t where t: "restore_trend (Inr (trend_line @ [newline], None)) ''d'' = Inr t" by (simp add: restore_trend_def sc)
  from restore_trend_exact [OF t sc refl] have "td_samples t = 1" "td_p50 t = nearest_rank [5] 50" "td_p95 t = nearest_rank [5] 95" "td_max t = 5"
    by (simp_all add: sm)
  moreover have "nearest_rank [5] 50 = 5" "nearest_rank [5] 95 = 5" by (simp_all add: nearest_rank_def)
  ultimately show ?thesis using t by simp
qed

definition willing_disk :: "unit disk" where
  "willing_disk = \<lparr> dk_temp = (\<lambda>d p w. (Inr ''/m/p.prom.1.tmp'', w)), dk_do = (\<lambda>op w. (case op of RenameFile a b \<Rightarrow> Some ''no space'' | _ \<Rightarrow> None, w)) \<rparr>"

theorem metrics_published_whole_witness:
  "last (di_ops (snd (publish willing_disk ''/m/p.prom'' ''x'' \<lparr> di_world = (), di_ops = [] \<rparr>))) = RemoveFile ''/m/p.prom.1.tmp'' \<and>
   (\<exists>ops tmp. di_ops (snd (publish willing_disk ''/m/p.prom'' ''x'' \<lparr> di_world = (), di_ops = [] \<rparr>)) =
      MakeTemp (dir_of (clean_path ''/m/p.prom'')) (base_of (clean_path ''/m/p.prom'') @ ''.*.tmp'') # ops)"
proof -
  obtain e io' where p: "publish willing_disk ''/m/p.prom'' ''x'' \<lparr> di_world = (), di_ops = [] \<rparr> = (e, io')"
    "last (di_ops io') = RemoveFile ''/m/p.prom.1.tmp''"
    by (simp add: publish_def file_do_def willing_disk_def Let_def)
  have "dk_temp willing_disk a b w = (Inr ''/m/p.prom.1.tmp'', w)" for a b w by (simp add: willing_disk_def)
  with metrics_published_whole [OF p(1) refl] p show ?thesis by auto
qed

end
