(* ===== verification/AdapterSide.thy ===== *)
theory AdapterSide
  imports AdapterWire GoPath
begin

text \<open>
  The other end of the adapter protocol: adapters/sqlite/proto.go and settle.go (the same bytes in most of the
  adapters under src/adapters) and the dispatch of main.go. An adapter imports nothing of the core, so its messages
  are translated from its own source and meet those of \<open>AdapterWire\<close> only in \<open>AdapterTalk\<close>. Standard input and
  output, the signal, the host's files and the clock are parameters that thread a world; every line the adapter
  writes and every line it reads in a call is kept. A message is the tree that \<^verbatim>\<open>json.Marshal\<close> prints, a
  \<^verbatim>\<open>map[string]any\<close> with its keys in order.
\<close>

subsection \<open>The adapter's surroundings\<close>

datatype stat_answer = StatMissing | StatFault bytes | StatInfo bool int int

text \<open>
  A file: the error of opening it, its bytes, the error (and the offset from which reading fails), the error of
  closing it. A regular file's size is the number of its bytes.
\<close>

record host_file =
  hf_open :: "bytes option"
  hf_bytes :: bytes
  hf_fault :: "(nat \<times> bytes) option"
  hf_stat :: "bytes option"
  hf_close :: "bytes option"

text \<open>A directory entry: name, whether it is a regular file, the modification time or the error of asking for it.\<close>

type_synonym dir_entry = "bytes \<times> bool \<times> (bytes + int)"

datatype dir_answer = DirMissing | DirFault bytes | DirEntries "dir_entry list"

text \<open>
  \<open>ad_scan\<close> is \<^verbatim>\<open>Scanner.Scan\<close>; \<open>ad_write\<close> gives the error of a write; \<open>ad_wait\<close> tells whether the signal
  ended the wait; \<open>ad_detail\<close> is what \<^verbatim>\<open>json.Marshal\<close> prints of the map that a detail object decodes to, nothing
  if that is empty; \<open>ad_float\<close> what it prints of a \<^verbatim>\<open>float64\<close>.
\<close>

record 'w adapter_env =
  ad_scan :: "'w \<Rightarrow> bytes option \<times> 'w"
  ad_write :: "bytes \<Rightarrow> 'w \<Rightarrow> bytes option \<times> 'w"
  ad_cancelled :: "'w \<Rightarrow> bool"
  ad_stat :: "bytes \<Rightarrow> 'w \<Rightarrow> stat_answer"
  ad_file :: "bytes \<Rightarrow> 'w \<Rightarrow> host_file"
  ad_dir :: "bytes \<Rightarrow> 'w \<Rightarrow> dir_answer"
  ad_since :: "int \<Rightarrow> 'w \<Rightarrow> int"
  ad_wait :: "int \<Rightarrow> 'w \<Rightarrow> bool \<times> 'w"
  ad_random :: "nat \<Rightarrow> 'w \<Rightarrow> nat \<times> 'w"
  ad_detail :: "json \<Rightarrow> json option"
  ad_float :: "float64 \<Rightarrow> bytes"

text \<open>The struct \<^verbatim>\<open>core\<close>: the request's id and the number of calls made, with what went in and out.\<close>

record 'w adapter_io =
  ai_world :: 'w
  ai_request_id :: bytes
  ai_calls :: nat
  ai_out :: "bytes list"
  ai_in :: "bytes list"

definition spoken_version :: bytes where "spoken_version = ''probavi-adapter/0''"

definition proto_err :: "bytes \<Rightarrow> bool \<Rightarrow> bytes \<Rightarrow> wire_error" where
  "proto_err k retryable msg = \<lparr> we_code = k, we_message = msg, we_retryable = retryable, we_detail = None \<rparr>"

abbreviation bad_request :: "bytes \<Rightarrow> wire_error" where "bad_request \<equiv> proto_err ''invalid_request'' False"
abbreviation internal_error :: "bytes \<Rightarrow> wire_error" where "internal_error \<equiv> proto_err ''internal'' False"

subsection \<open>What the core sends\<close>

record verb_reply =
  vy_call_id :: bytes
  vy_ok :: bool
  vy_value :: "json option"
  vy_error :: "wire_error option"

record inbound =
  ib_request_id :: bytes
  ib_protocol :: bytes
  ib_op :: bytes
  ib_payload :: "json option"
  ib_result :: "verb_reply option"

definition reply_names :: "bytes list" where "reply_names = [''call_id'', ''ok'', ''value'', ''error'']"
definition inbound_names :: "bytes list" where
  "inbound_names = [''protocol'', ''request_id'', ''op'', ''payload'', ''sandbox_result'']"

definition reply_shape :: shape where
  "reply_shape = SStruct [(''call_id'', SStr), (''ok'', SBool), (''error'', error_shape)]"

definition inbound_shape :: shape where
  "inbound_shape = SStruct [(''protocol'', SStr), (''request_id'', SStr), (''op'', SStr), (''sandbox_result'', reply_shape)]"

text \<open>A detail decodes into a map of any values, whose numbers have to be \<^verbatim>\<open>float64\<close>.\<close>

definition any_map :: "json \<Rightarrow> bool" where
  "any_map v = (case v of JNull \<Rightarrow> True | JObj ms \<Rightarrow> json_all (\<lambda>t. True) (\<lambda>n. parse_float64 n \<noteq> None) v | _ \<Rightarrow> False)"

text \<open>Every member that lands in the named field is fit for it.\<close>

definition members_fit :: "bytes list \<Rightarrow> bytes \<Rightarrow> (json \<Rightarrow> bool) \<Rightarrow> json \<Rightarrow> bool" where
  "members_fit names n fit v = (case v of JObj ms \<Rightarrow> list_all (\<lambda>(k, w). field_name names k \<noteq> Some n \<or> fit w) ms | _ \<Rightarrow> True)"

definition details_fit :: "json \<Rightarrow> bool" where
  "details_fit = members_fit inbound_names ''sandbox_result'' (members_fit reply_names ''error'' (members_fit error_names ''detail'' any_map))"

text \<open>A second detail adds to the map of the first.\<close>

definition set_detail :: "json \<Rightarrow> json option \<Rightarrow> json option" where
  "set_detail v old = (case v of JObj ms \<Rightarrow> Some (JObj ((case old of Some (JObj ns) \<Rightarrow> ns | _ \<Rightarrow> []) @ ms)) | _ \<Rightarrow> None)"

definition put_proto_error :: "bytes \<times> json \<Rightarrow> wire_error \<Rightarrow> wire_error" where
  "put_proto_error = (\<lambda>(k, v) e. let f = field_name error_names k in
     if f = Some ''code'' then e\<lparr> we_code := set_str v (we_code e) \<rparr>
     else if f = Some ''message'' then e\<lparr> we_message := set_str v (we_message e) \<rparr>
     else if f = Some ''retryable'' then e\<lparr> we_retryable := set_bool v (we_retryable e) \<rparr>
     else if f = Some ''detail'' then e\<lparr> we_detail := set_detail v (we_detail e) \<rparr>
     else e)"

definition put_reply :: "bytes \<times> json \<Rightarrow> verb_reply \<Rightarrow> verb_reply" where
  "put_reply = (\<lambda>(k, v) r. let f = field_name reply_names k in
     if f = Some ''call_id'' then r\<lparr> vy_call_id := set_str v (vy_call_id r) \<rparr>
     else if f = Some ''ok'' then r\<lparr> vy_ok := set_bool v (vy_ok r) \<rparr>
     else if f = Some ''value'' then r\<lparr> vy_value := Some v \<rparr>
     else if f = Some ''error'' then r\<lparr> vy_error := set_struct put_proto_error (proto_err [] False []) v (vy_error r) \<rparr>
     else r)"

definition put_inbound :: "bytes \<times> json \<Rightarrow> inbound \<Rightarrow> inbound" where
  "put_inbound = (\<lambda>(k, v) b. let f = field_name inbound_names k in
     if f = Some ''protocol'' then b\<lparr> ib_protocol := set_str v (ib_protocol b) \<rparr>
     else if f = Some ''request_id'' then b\<lparr> ib_request_id := set_str v (ib_request_id b) \<rparr>
     else if f = Some ''op'' then b\<lparr> ib_op := set_str v (ib_op b) \<rparr>
     else if f = Some ''payload'' then b\<lparr> ib_payload := Some v \<rparr>
     else if f = Some ''sandbox_result'' then b\<lparr> ib_result := set_struct put_reply
       \<lparr> vy_call_id = [], vy_ok = False, vy_value = None, vy_error = None \<rparr> v (ib_result b) \<rparr>
     else b)"

definition zero_inbound :: inbound where
  "zero_inbound = \<lparr> ib_request_id = [], ib_protocol = [], ib_op = [], ib_payload = None, ib_result = None \<rparr>"

definition unmarshal_inbound :: "bytes \<Rightarrow> inbound option" where
  "unmarshal_inbound line = (case unmarshal_tree line of None \<Rightarrow> None
     | Some v \<Rightarrow> if details_fit v then unmarshal_struct inbound_shape put_inbound zero_inbound v else None)"

subsection \<open>What the adapter sends\<close>

definition write_message :: "'w adapter_env \<Rightarrow> json \<Rightarrow> 'w adapter_io \<Rightarrow> bytes option \<times> 'w adapter_io" where
  "write_message h v io = (let line = marshal v in
     case ad_write h (line @ [CHR 0x0A]) (ai_world io) of (e, w) \<Rightarrow> (e, io\<lparr> ai_world := w, ai_out := ai_out io @ [line] \<rparr>))"

definition call_message :: "bytes \<Rightarrow> bytes \<Rightarrow> bytes \<Rightarrow> json \<Rightarrow> json" where
  "call_message rid cid verb args = JObj [(''protocol'', JStr spoken_version), (''request_id'', JStr rid),
     (''sandbox_call'', JObj [(''args'', args), (''call_id'', JStr cid), (''verb'', JStr verb)])]"

definition call_id :: "nat \<Rightarrow> bytes" where "call_id n = CHR ''c'' # show_nat n"

text \<open>One call and its result. A line is read only after one was written.\<close>

definition adapter_call :: "'w adapter_env \<Rightarrow> bytes \<Rightarrow> json \<Rightarrow> 'w adapter_io \<Rightarrow> (wire_error + json option) \<times> 'w adapter_io" where
  "adapter_call h verb args io =
    (if ad_cancelled h (ai_world io) then (Inl (proto_err ''cancelled'' True (''operation cancelled before '' @ verb @ '' call'')), io)
     else let io = io\<lparr> ai_calls := Suc (ai_calls io) \<rparr>; cid = call_id (ai_calls io) in
       (case write_message h (call_message (ai_request_id io) cid verb args) io of
          (Some e, io) \<Rightarrow> (Inl (internal_error (''write sandbox_call: '' @ e)), io)
        | (None, io) \<Rightarrow>
          (case ad_scan h (ai_world io) of
             (None, w) \<Rightarrow> (Inl (internal_error (''core closed the stream while a '' @ verb @ '' call was outstanding'')), io\<lparr> ai_world := w \<rparr>)
           | (Some line, w) \<Rightarrow> let io = io\<lparr> ai_world := w, ai_in := ai_in io @ [line] \<rparr> in
             (case (case unmarshal_inbound line of None \<Rightarrow> None | Some b \<Rightarrow> ib_result b) of
                None \<Rightarrow> (Inl (internal_error ''malformed sandbox_result''), io)
              | Some r \<Rightarrow>
                if vy_call_id r \<noteq> cid
                then (Inl (internal_error (''sandbox_result call_id '' @ vy_call_id r @ '' does not match '' @ cid)), io)
                else if \<not> vy_ok r
                then (Inl (case vy_error r of Some e \<Rightarrow> e | None \<Rightarrow> internal_error ''sandbox call failed without error object''), io)
                else (Inr (vy_value r), io)))))"

definition error_tree :: "'w adapter_env \<Rightarrow> wire_error \<Rightarrow> json" where
  "error_tree h e = JObj ([(''code'', JStr (we_code e)), (''message'', JStr (we_message e)), (''retryable'', JBool (we_retryable e))] @
     (case we_detail e of None \<Rightarrow> [] | Some d \<Rightarrow> (case ad_detail h d of None \<Rightarrow> [] | Some v \<Rightarrow> [(''detail'', v)])))"

definition ok_message :: "bytes \<Rightarrow> json \<Rightarrow> json" where
  "ok_message rid payload = JObj [(''ok'', JBool True), (''payload'', payload), (''protocol'', JStr spoken_version), (''request_id'', JStr rid)]"

definition error_message :: "bytes \<Rightarrow> json \<Rightarrow> json" where
  "error_message rid err = JObj [(''error'', err), (''ok'', JBool False), (''protocol'', JStr spoken_version), (''request_id'', JStr rid)]"

text \<open>The exit code.\<close>

definition exit_code :: "bytes option \<times> 'w adapter_io \<Rightarrow> int \<times> 'w adapter_io" where
  "exit_code = (\<lambda>(e, io). (if e = None then 0 else 1, io))"

definition finish_ok :: "'w adapter_env \<Rightarrow> json \<Rightarrow> 'w adapter_io \<Rightarrow> int \<times> 'w adapter_io" where
  "finish_ok h payload io = exit_code (write_message h (ok_message (ai_request_id io) payload) io)"

definition finish_error :: "'w adapter_env \<Rightarrow> wire_error \<Rightarrow> 'w adapter_io \<Rightarrow> int \<times> 'w adapter_io" where
  "finish_error h e io = exit_code (write_message h (error_message (ai_request_id io) (error_tree h e)) io)"

text \<open>The request: none that can be answered, one that is refused, one to serve.\<close>

datatype request_answer = UnusableRequest wire_error | RefusedRequest wire_error | AcceptedRequest inbound

definition accept_request :: "'w adapter_env \<Rightarrow> 'w adapter_io \<Rightarrow> request_answer \<times> 'w adapter_io" where
  "accept_request h io =
    (case ad_scan h (ai_world io) of
       (None, w) \<Rightarrow> (UnusableRequest (bad_request ''no request on stdin''), io\<lparr> ai_world := w \<rparr>)
     | (Some line, w) \<Rightarrow> let io = io\<lparr> ai_world := w \<rparr> in
       (case unmarshal_inbound line of
          None \<Rightarrow> (UnusableRequest (bad_request ''request is not valid JSON''), io)
        | Some b \<Rightarrow> let io = io\<lparr> ai_request_id := ib_request_id b, ai_calls := 0 \<rparr> in
          if ib_protocol b \<noteq> spoken_version
          then (RefusedRequest \<lparr> we_code = ''unsupported_protocol'', we_message = ''this adapter speaks '' @ spoken_version @ '' only'', we_retryable = False,
                  we_detail = Some (JObj [(''supported'', JArr [JStr spoken_version])]) \<rparr>, io)
          else (AcceptedRequest b, io)))"

subsection \<open>The verbs\<close>

text \<open>\<^verbatim>\<open>omitempty\<close> leaves out an empty map and an empty text; no adapter here sets a timeout, so it is left out too.\<close>

record exec_fields =
  eq_argv :: "bytes list"
  eq_env :: "(bytes \<times> bytes) list"
  eq_stdin :: bytes

definition exec_tree :: "exec_fields \<Rightarrow> json" where
  "exec_tree q = JObj ([(''argv'', JArr (map JStr (eq_argv q)))] @
     (if eq_env q = [] then [] else [(''env'', JObj (map (\<lambda>k. (k, JStr (the (map_of (eq_env q) k)))) (isort less_bytes (remdups (map fst (eq_env q))))))]) @
     (if eq_stdin q = [] then [] else [(''stdin_b64'', JStr (b64_encode (eq_stdin q)))]))"

definition put_file_tree :: "bytes \<Rightarrow> bytes \<Rightarrow> bytes \<Rightarrow> json" where
  "put_file_tree source dest mode = JObj ([(''source_path'', JStr source), (''dest_path'', JStr dest)] @ (if mode = [] then [] else [(''mode'', JStr mode)]))"

record exec_value =
  xv_exit :: int
  xv_stdout :: bytes
  xv_stderr :: bytes
  xv_truncated :: bool
  xv_duration :: float64

definition exec_value_names :: "bytes list" where
  "exec_value_names = [''exit_code'', ''stdout_b64'', ''stderr_b64'', ''truncated'', ''duration_seconds'']"

definition exec_value_shape :: shape where
  "exec_value_shape = SStruct [(''exit_code'', SInt), (''stdout_b64'', SStr), (''stderr_b64'', SStr), (''truncated'', SBool)]"

definition put_exec_value :: "bytes \<times> json \<Rightarrow> exec_value \<Rightarrow> exec_value" where
  "put_exec_value = (\<lambda>(k, v) x. let f = field_name exec_value_names k in
     if f = Some ''exit_code'' then x\<lparr> xv_exit := set_int v (xv_exit x) \<rparr>
     else if f = Some ''stdout_b64'' then x\<lparr> xv_stdout := set_str v (xv_stdout x) \<rparr>
     else if f = Some ''stderr_b64'' then x\<lparr> xv_stderr := set_str v (xv_stderr x) \<rparr>
     else if f = Some ''truncated'' then x\<lparr> xv_truncated := set_bool v (xv_truncated x) \<rparr>
     else if f = Some ''duration_seconds'' then x\<lparr> xv_duration := set_float v (xv_duration x) \<rparr>
     else x)"

definition unmarshal_exec_value :: "json option \<Rightarrow> exec_value option" where
  "unmarshal_exec_value raw = (case raw of None \<Rightarrow> None
     | Some v \<Rightarrow> if \<not> members_fit exec_value_names ''duration_seconds'' float_fits v then None
         else unmarshal_struct exec_value_shape put_exec_value
           \<lparr> xv_exit = 0, xv_stdout = [], xv_stderr = [], xv_truncated = False, xv_duration = Finite 0 0 \<rparr> v)"

text \<open>The value, with both streams decoded.\<close>

definition adapter_exec :: "'w adapter_env \<Rightarrow> exec_fields \<Rightarrow> 'w adapter_io \<Rightarrow> (wire_error + exec_value \<times> bytes \<times> bytes) \<times> 'w adapter_io" where
  "adapter_exec h q io =
    (case adapter_call h ''exec'' (exec_tree q) io of
       (Inl e, io) \<Rightarrow> (Inl e, io)
     | (Inr raw, io) \<Rightarrow>
       (case unmarshal_exec_value raw of
          None \<Rightarrow> (Inl (internal_error ''malformed exec value''), io)
        | Some x \<Rightarrow>
          (case b64_decode (xv_stdout x) of
             None \<Rightarrow> (Inl (internal_error ''malformed exec stdout_b64''), io)
           | Some out \<Rightarrow>
             (case b64_decode (xv_stderr x) of
                None \<Rightarrow> (Inl (internal_error ''malformed exec stderr_b64''), io)
              | Some err \<Rightarrow> (Inr (x, out, err), io)))))"

record put_value =
  pv_bytes :: int
  pv_duration :: float64

definition put_value_names :: "bytes list" where "put_value_names = [''bytes_copied'', ''duration_seconds'']"

definition put_put_value :: "bytes \<times> json \<Rightarrow> put_value \<Rightarrow> put_value" where
  "put_put_value = (\<lambda>(k, v) x. let f = field_name put_value_names k in
     if f = Some ''bytes_copied'' then x\<lparr> pv_bytes := set_int v (pv_bytes x) \<rparr>
     else if f = Some ''duration_seconds'' then x\<lparr> pv_duration := set_float v (pv_duration x) \<rparr>
     else x)"

definition unmarshal_put_value :: "json option \<Rightarrow> put_value option" where
  "unmarshal_put_value raw = (case raw of None \<Rightarrow> None
     | Some v \<Rightarrow> if \<not> members_fit put_value_names ''duration_seconds'' float_fits v then None
         else unmarshal_struct (SStruct [(''bytes_copied'', SInt)]) put_put_value \<lparr> pv_bytes = 0, pv_duration = Finite 0 0 \<rparr> v)"

definition adapter_put_file :: "'w adapter_env \<Rightarrow> bytes \<Rightarrow> bytes \<Rightarrow> bytes \<Rightarrow> 'w adapter_io \<Rightarrow> (wire_error + put_value) \<times> 'w adapter_io" where
  "adapter_put_file h source dest mode io =
    (case adapter_call h ''put_file'' (put_file_tree source dest mode) io of
       (Inl e, io) \<Rightarrow> (Inl e, io)
     | (Inr raw, io) \<Rightarrow> (case unmarshal_put_value raw of
          None \<Rightarrow> (Inl (internal_error ''malformed put_file value''), io)
        | Some x \<Rightarrow> (Inr x, io)))"

subsection \<open>A backup that is still being written\<close>

text \<open>\<^verbatim>\<open>filepath.Base\<close>.\<close>

definition base_name :: "bytes \<Rightarrow> bytes" where
  "base_name p = (let q = rev (dropWhile (\<lambda>c. c = c_slash) (rev p)) in
     if p = [] then dot else if q = [] then [c_slash] else rev (takeWhile (\<lambda>c. c \<noteq> c_slash) (rev q)))"

text \<open>\<^verbatim>\<open>filepath.Join\<close> of two elements.\<close>

definition join_two :: "bytes \<Rightarrow> bytes \<Rightarrow> bytes" where
  "join_two a b = (case filter (\<lambda>s. s \<noteq> []) [a, b] of [] \<Rightarrow> [] | xs \<Rightarrow> clean_path (join_path xs))"

text \<open>Milliseconds are kept as nanoseconds.\<close>

definition settle_window :: int where "settle_window = 750 * 1000000"

record file_state =
  fs_size :: int
  fs_mtime :: int

definition file_settled :: "file_state \<Rightarrow> file_state \<Rightarrow> bool" where
  "file_settled a b \<longleftrightarrow> fs_size a = fs_size b \<and> fs_mtime a = fs_mtime b"

definition observe :: "'w adapter_env \<Rightarrow> bytes \<Rightarrow> 'w \<Rightarrow> wire_error + file_state" where
  "observe h p w = (case ad_stat h p w of
     StatMissing \<Rightarrow> Inl (proto_err ''source_not_found'' False (''backup source does not exist: '' @ p))
   | StatFault e \<Rightarrow> Inl (proto_err ''source_unreadable'' False (''stat backup source: '' @ e))
   | StatInfo dir n t \<Rightarrow> Inr \<lparr> fs_size = n, fs_mtime = t \<rparr>)"

definition assert_settled :: "'w adapter_env \<Rightarrow> bytes \<Rightarrow> int \<Rightarrow> 'w adapter_io \<Rightarrow> wire_error option \<times> 'w adapter_io" where
  "assert_settled h p window io =
    (case observe h p (ai_world io) of
       Inl e \<Rightarrow> (Some e, io)
     | Inr before \<Rightarrow>
       if ad_since h (fs_mtime before) (ai_world io) \<ge> window then (None, io)
       else (case ad_wait h window (ai_world io) of
          (True, w) \<Rightarrow> (Some (proto_err ''cancelled'' True ''cancelled while checking whether the backup is complete''), io\<lparr> ai_world := w \<rparr>)
        | (False, w) \<Rightarrow>
          (case observe h p w of
             Inl e \<Rightarrow> (Some e, io\<lparr> ai_world := w \<rparr>)
           | Inr now \<Rightarrow>
             if file_settled before now then (None, io\<lparr> ai_world := w \<rparr>)
             else (Some (proto_err ''source_unreadable'' False (''backup '' @ base_name p @ '' is still being written: run the drill after the backup job finishes, '' @
               ''or have the job write to a temporary name and rename it on completion, so a drill never sees a partial file'')), io\<lparr> ai_world := w \<rparr>))))"

subsection \<open>Serving one request\<close>

text \<open>What the operations answer; the probe and the teardown do not fail.\<close>

record 'w adapter_ops =
  op_probe :: json
  op_provision :: "json option \<Rightarrow> 'w adapter_io \<Rightarrow> (wire_error + json) \<times> 'w adapter_io"
  op_healthcheck :: "json option \<Rightarrow> 'w adapter_io \<Rightarrow> (wire_error + json) \<times> 'w adapter_io"

definition serve_op :: "'w adapter_ops \<Rightarrow> inbound \<Rightarrow> 'w adapter_io \<Rightarrow> (wire_error + json) \<times> 'w adapter_io" where
  "serve_op ops b io =
    (if ib_op b = ''probe'' then (Inr (op_probe ops), io)
     else if ib_op b = ''provision'' then op_provision ops (ib_payload b) io
     else if ib_op b = ''healthcheck'' then op_healthcheck ops (ib_payload b) io
     else if ib_op b = ''teardown'' then (Inr (JObj [(''released'', JBool True)]), io)
     else (Inl (bad_request (''unknown op: '' @ ib_op b)), io))"

definition serve :: "'w adapter_env \<Rightarrow> 'w adapter_ops \<Rightarrow> 'w adapter_io \<Rightarrow> int \<times> 'w adapter_io" where
  "serve h ops io =
    (case accept_request h io of
       (UnusableRequest e, io) \<Rightarrow> (1, io)
     | (RefusedRequest e, io) \<Rightarrow> finish_error h e io
     | (AcceptedRequest b, io) \<Rightarrow>
       (case serve_op ops b io of
          (Inl e, io) \<Rightarrow> finish_error h e io
        | (Inr payload, io) \<Rightarrow> finish_ok h payload io))"

end
