(* ===== verification/SqliteSource.thy ===== *)
theory SqliteSource
  imports AdapterSide
begin

text \<open>
  adapters/sqlite/{sniff,selection,source}.go: from a source kind and a path to the one artifact a drill restores. The
  artifact's first and last bytes are read, a live copy and a truncated dump are refused, a
  directory's member is chosen by the policy. SHA-256 is the parameter of \<open>crypto\<close>.
\<close>

subsection \<open>The first and the last bytes\<close>

definition sqlite_magic :: bytes where "sqlite_magic = ''SQLite format 3'' @ [CHR 0x00]"
definition dump_signature :: bytes where
  "dump_signature = ''PRAGMA foreign_keys=OFF;'' @ [CHR 0x0A] @ ''BEGIN TRANSACTION;'' @ [CHR 0x0A]"
definition head_max :: nat where "head_max = 64"
definition tail_max :: nat where "tail_max = 4096"
definition gzip_magic :: bytes where "gzip_magic = [CHR 0x1F, CHR 0x8B]"

definition has_sqlite_magic :: "bytes \<Rightarrow> bool" where
  "has_sqlite_magic head \<longleftrightarrow> length head \<ge> length sqlite_magic \<and> take (length sqlite_magic) head = sqlite_magic"

definition has_dump_signature :: "bytes \<Rightarrow> bool" where
  "has_dump_signature head \<longleftrightarrow> prefix dump_signature head"

definition is_gzip :: "bytes \<Rightarrow> bool" where
  "is_gzip head \<longleftrightarrow> prefix gzip_magic head"

text \<open>The error of reading the bytes before an offset.\<close>

definition reading_fails :: "host_file \<Rightarrow> nat \<Rightarrow> bytes option" where
  "reading_fails f b = (case hf_fault f of None \<Rightarrow> None | Some (k, e) \<Rightarrow> if k < b then Some e else None)"

text \<open>The error of reading, or else that of closing.\<close>

definition closing :: "host_file \<Rightarrow> bytes option \<Rightarrow> 'a \<Rightarrow> bytes + 'a" where
  "closing f rerr a = (case rerr of Some e \<Rightarrow> Inl e | None \<Rightarrow> (case hf_close f of Some e \<Rightarrow> Inl e | None \<Rightarrow> Inr a))"

text \<open>A file that is shorter than asked is read to its end.\<close>

definition read_head :: "host_file \<Rightarrow> nat \<Rightarrow> bytes + bytes" where
  "read_head f n = (case hf_open f of Some e \<Rightarrow> Inl e
     | None \<Rightarrow> closing f (reading_fails f (min n (Suc (length (hf_bytes f))))) (take n (hf_bytes f)))"

definition read_tail :: "host_file \<Rightarrow> nat \<Rightarrow> bytes + bytes" where
  "read_tail f n = (case hf_open f of Some e \<Rightarrow> Inl e
     | None \<Rightarrow> closing f (case hf_stat f of Some e \<Rightarrow> Some e | None \<Rightarrow> reading_fails f (length (hf_bytes f)))
         (drop (length (hf_bytes f) - n) (hf_bytes f)))"

text \<open>\<^verbatim>\<open>bytes.TrimRight\<close>.\<close>

definition trim_bytes :: "bytes \<Rightarrow> bytes \<Rightarrow> bytes" where
  "trim_bytes cs s = rev (dropWhile (\<lambda>c. c \<in> set cs) (rev s))"

definition last_line_of :: "bytes \<Rightarrow> bytes" where
  "last_line_of tail = trim_bytes [CHR 0x20, CHR 0x09, CHR 0x0D]
     (rev (takeWhile (\<lambda>c. c \<noteq> CHR 0x0A) (rev (trim_bytes [CHR 0x20, CHR 0x09, CHR 0x0D, CHR 0x0A] tail))))"

definition last_non_empty_line :: "host_file \<Rightarrow> bytes + bytes" where
  "last_non_empty_line f = map_sum (\<lambda>e. e) last_line_of (read_tail f tail_max)"

subsection \<open>Which member of a directory\<close>

datatype select_policy = SelectNewest | SelectOldest | SelectRandom

definition select_key :: bytes where "select_key = ''select''"

definition param_of :: "(bytes \<times> bytes) list \<Rightarrow> bytes \<Rightarrow> bytes" where
  "param_of params k = (case map_of params k of None \<Rightarrow> [] | Some v \<Rightarrow> v)"

definition selects_a_member :: "bytes \<Rightarrow> bool" where
  "selects_a_member kind \<longleftrightarrow> kind = ''sqlite_db_dir'' \<or> kind = ''sqlite_dump_dir''"

definition backup_selection :: "bytes \<Rightarrow> (bytes \<times> bytes) list \<Rightarrow> wire_error + select_policy" where
  "backup_selection kind params =
    (let raw = param_of params select_key in
     if raw = [] then Inr SelectNewest
     else if \<not> selects_a_member kind
     then Inl (bad_request (''source.params.'' @ select_key @ '' applies only to sqlite_db_dir and sqlite_dump_dir, which choose a backup for the '' @
       ''drill: kind '' @ kind @ '' restores what source.path names''))
     else if raw = ''newest'' then Inr SelectNewest else if raw = ''oldest'' then Inr SelectOldest else if raw = ''random'' then Inr SelectRandom
     else Inl (bad_request (''source.params.'' @ select_key @ '' must be newest, oldest or random: '' @ raw @ '' is none of them'')))"

record dir_candidate =
  cd_path :: bytes
  cd_name :: bytes
  cd_mtime :: int

definition beats :: "dir_candidate \<Rightarrow> dir_candidate \<Rightarrow> bool" where
  "beats c other \<longleftrightarrow> (if cd_mtime c \<noteq> cd_mtime other then cd_mtime c > cd_mtime other else less_bytes (cd_name other) (cd_name c))"

definition precedes :: "dir_candidate \<Rightarrow> dir_candidate \<Rightarrow> bool" where
  "precedes c other \<longleftrightarrow> (if cd_mtime c \<noteq> cd_mtime other then cd_mtime c < cd_mtime other else less_bytes (cd_name c) (cd_name other))"

fun best_of :: "(dir_candidate \<Rightarrow> dir_candidate \<Rightarrow> bool) \<Rightarrow> dir_candidate \<Rightarrow> dir_candidate list \<Rightarrow> dir_candidate" where
  "best_of wins best [] = best"
| "best_of wins best (c # cs) = best_of wins (if wins c best then c else best) cs"

definition pick :: "'w adapter_env \<Rightarrow> dir_candidate list \<Rightarrow> select_policy \<Rightarrow> 'w \<Rightarrow> dir_candidate \<times> 'w" where
  "pick h cs policy w = (case policy of
     SelectRandom \<Rightarrow> (case ad_random h (length cs) w of (i, w) \<Rightarrow> (cs ! i, w))
   | SelectOldest \<Rightarrow> (best_of precedes (hd cs) (tl cs), w)
   | SelectNewest \<Rightarrow> (best_of beats (hd cs) (tl cs), w))"

definition source_unreadable :: "bytes \<Rightarrow> wire_error" where "source_unreadable = proto_err ''source_unreadable'' False"
definition source_not_found :: "bytes \<Rightarrow> wire_error" where "source_not_found = proto_err ''source_not_found'' False"
definition source_corrupt :: "bytes \<Rightarrow> wire_error" where "source_corrupt = proto_err ''source_corrupt'' False"
definition unsupported_source :: "bytes \<Rightarrow> wire_error" where "unsupported_source = proto_err ''unsupported_source'' False"

text \<open>The regular files the predicate accepts, and how many it declined.\<close>

fun collect_candidates :: "bytes \<Rightarrow> (bytes \<Rightarrow> wire_error + bool) \<Rightarrow> dir_entry list \<Rightarrow> wire_error + dir_candidate list \<times> nat" where
  "collect_candidates dir candidate [] = Inr ([], 0)"
| "collect_candidates dir candidate ((name, is_file, info) # es) =
    (if \<not> is_file then collect_candidates dir candidate es
     else (case candidate (join_two dir name) of
        Inl e \<Rightarrow> Inl e
      | Inr False \<Rightarrow> map_sum (\<lambda>e. e) (\<lambda>(cs, n). (cs, Suc n)) (collect_candidates dir candidate es)
      | Inr True \<Rightarrow> (case info of
          Inl e \<Rightarrow> Inl (source_unreadable (''stat '' @ name @ '': '' @ e))
        | Inr t \<Rightarrow> map_sum (\<lambda>e. e) (\<lambda>(cs, n). (\<lparr> cd_path = join_two dir name, cd_name = name, cd_mtime = t \<rparr> # cs, n))
            (collect_candidates dir candidate es))))"

definition choose_where :: "'w adapter_env \<Rightarrow> bytes \<Rightarrow> select_policy \<Rightarrow> (bytes \<Rightarrow> wire_error + bool) \<Rightarrow> 'w \<Rightarrow> (wire_error + bytes \<times> nat) \<times> 'w" where
  "choose_where h dir policy candidate w = (case ad_dir h dir w of
     DirMissing \<Rightarrow> (Inl (source_not_found (''backup directory does not exist: '' @ dir)), w)
   | DirFault e \<Rightarrow> (Inl (source_unreadable (''read backup directory: '' @ e)), w)
   | DirEntries es \<Rightarrow>
     (case collect_candidates dir candidate es of
        Inl e \<Rightarrow> (Inl e, w)
      | Inr (cs, skipped) \<Rightarrow>
        if cs = [] then (Inr ([], skipped), w)
        else (case pick h cs policy w of (c, w) \<Rightarrow> (Inr (cd_path c, skipped), w))))"

definition settle_chosen :: "'w adapter_env \<Rightarrow> bytes \<Rightarrow> 'w adapter_io \<Rightarrow> (wire_error + bytes) \<times> 'w adapter_io" where
  "settle_chosen h best io = (case assert_settled h best settle_window io of
     (Some e, io) \<Rightarrow> (Inl e, io) | (None, io) \<Rightarrow> (Inr best, io))"

definition database_candidate :: "'w adapter_env \<Rightarrow> 'w \<Rightarrow> bytes \<Rightarrow> wire_error + bool" where
  "database_candidate h w path = (case read_head (ad_file h path w) (length sqlite_magic) of
     Inl e \<Rightarrow> Inl (source_unreadable (''read '' @ base_name path @ '': '' @ e))
   | Inr head \<Rightarrow> Inr (has_sqlite_magic head))"

definition chosen_database_in :: "'w adapter_env \<Rightarrow> bytes \<Rightarrow> select_policy \<Rightarrow> 'w adapter_io \<Rightarrow> (wire_error + bytes) \<times> 'w adapter_io" where
  "chosen_database_in h dir policy io =
    (case choose_where h dir policy (database_candidate h (ai_world io)) (ai_world io) of
       (Inl e, w) \<Rightarrow> (Inl e, io\<lparr> ai_world := w \<rparr>)
     | (Inr (best, skipped), w) \<Rightarrow> let io = io\<lparr> ai_world := w \<rparr> in
       if best \<noteq> [] then settle_chosen h best io
       else if skipped > 0
       then (Inl (source_not_found (''backup directory '' @ dir @ '' holds no SQLite database files ('' @ show_nat skipped @ '' files without the SQLite magic '' @
         ''were passed over)'')), io)
       else (Inl (source_not_found (''backup directory '' @ dir @ '' contains no files'')), io))"

definition chosen_dump_in :: "'w adapter_env \<Rightarrow> bytes \<Rightarrow> select_policy \<Rightarrow> 'w adapter_io \<Rightarrow> (wire_error + bytes) \<times> 'w adapter_io" where
  "chosen_dump_in h dir policy io =
    (case choose_where h dir policy (\<lambda>path. Inr True) (ai_world io) of
       (Inl e, w) \<Rightarrow> (Inl e, io\<lparr> ai_world := w \<rparr>)
     | (Inr (best, skipped), w) \<Rightarrow> let io = io\<lparr> ai_world := w \<rparr> in
       if best = [] then (Inl (source_not_found (''backup directory '' @ dir @ '' contains no files'')), io)
       else settle_chosen h best io)"

subsection \<open>What is refused\<close>

record resolved_source =
  rv_path :: bytes
  rv_checksum :: bytes
  rv_size :: int
  rv_sql :: bool

definition refuse_directory :: "'w adapter_env \<Rightarrow> 'w \<Rightarrow> bytes \<Rightarrow> bytes \<Rightarrow> wire_error option" where
  "refuse_directory h w path dir_kind = (case ad_stat h path w of
     StatMissing \<Rightarrow> Some (source_not_found (''backup source does not exist: '' @ path))
   | StatFault e \<Rightarrow> Some (source_unreadable (''stat backup source: '' @ e))
   | StatInfo dir n t \<Rightarrow>
     if dir then Some (bad_request (''source path '' @ path @ '' is a directory; use kind '' @ dir_kind @ '' for directories'')) else None)"

definition stat_and_head :: "'w adapter_env \<Rightarrow> 'w \<Rightarrow> bytes \<Rightarrow> wire_error + int \<times> bytes" where
  "stat_and_head h w path = (case ad_stat h path w of
     StatMissing \<Rightarrow> Inl (source_not_found (''backup source does not exist: '' @ path))
   | StatFault e \<Rightarrow> Inl (source_unreadable (''stat backup source: '' @ e))
   | StatInfo dir n t \<Rightarrow> (case read_head (ad_file h path w) head_max of
       Inl e \<Rightarrow> Inl (source_unreadable (''read backup source: '' @ e)) | Inr head \<Rightarrow> Inr (n, head)))"

definition refuse_gzip :: "bytes \<Rightarrow> bytes \<Rightarrow> wire_error option" where
  "refuse_gzip head restores = (if \<not> is_gzip head then None
     else Some (unsupported_source (''backup source is gzip-compressed; this adapter restores plain '' @ restores @ '' '' @ encode_rune 0x2014 @
       '' decompress the artifact first, or point the drill at an uncompressed copy'')))"

definition refuse_dump_text :: "bytes \<Rightarrow> wire_error option" where
  "refuse_dump_text head = (if \<not> has_dump_signature head then None
     else Some (bad_request (''the source opens with the exact signature sqlite3 .dump writes '' @ encode_rune 0x2014 @ '' it is SQL text, '' @
       ''not a database file; use kind sqlite_dump for this artifact'')))"

definition refuse_database_as_dump :: "bytes \<Rightarrow> wire_error option" where
  "refuse_database_as_dump head = (if \<not> has_sqlite_magic head then None
     else Some (bad_request (''the source carries the SQLite database magic '' @ encode_rune 0x2014 @ '' it is a database file, '' @
       ''not SQL text; use kind sqlite_db for this artifact'')))"

definition refuse_empty_database :: "int \<Rightarrow> wire_error option" where
  "refuse_empty_database n = (if n > 0 then None
     else Some (source_corrupt (''the backup file is empty: sqlite3 would accept it as a database holding nothing, '' @
       ''but no backup of a real database is ever 0 bytes '' @ encode_rune 0x2014 @ '' the job that wrote it failed'')))"

definition refuse_empty_dump :: "int \<Rightarrow> wire_error option" where
  "refuse_empty_dump n = (if n > 0 then None
     else Some (source_corrupt (''the backup file is empty: replaying it would exit 0 and prove a database with nothing '' @
       ''in it, and no .dump output is ever 0 bytes '' @ encode_rune 0x2014 @ '' the job that wrote it failed'')))"

text \<open>The files SQLite keeps beside a database that is open.\<close>

definition live_siblings :: "(bytes \<times> bytes) list" where
  "live_siblings = [(''-wal'', ''committed transactions still sit in the write-ahead log, and the database file '' @
       ''alone silently misses every one of them''),
     (''-journal'', ''a rollback-journal write was in flight, and the copy may hold a state no '' @ ''transaction ever committed'')]"

definition live_sibling :: "'w adapter_env \<Rightarrow> 'w \<Rightarrow> bytes \<Rightarrow> bool" where
  "live_sibling h w p = (case ad_stat h p w of StatInfo dir n t \<Rightarrow> \<not> dir \<and> n \<noteq> 0 | _ \<Rightarrow> False)"

definition refuse_live_copy :: "'w adapter_env \<Rightarrow> 'w \<Rightarrow> bytes \<Rightarrow> wire_error option" where
  "refuse_live_copy h w path = map_option (\<lambda>(suffix, meaning).
      unsupported_source (''a non-empty '' @ base_name path @ suffix @ '' sits beside the backup: the database was copied while it was open '' @ encode_rune 0x2014 @
        '' '' @ meaning @ ''; this adapter restores self-contained artifacts, so take the backup with '' @ ''sqlite3 .backup or VACUUM INTO''))
    (List.find (\<lambda>(suffix, meaning). live_sibling h w (path @ suffix)) live_siblings)"

definition dump_trailer :: bytes where "dump_trailer = ''COMMIT;''"

definition refuse_truncated_dump :: "'w adapter_env \<Rightarrow> 'w \<Rightarrow> bytes \<Rightarrow> bytes \<Rightarrow> wire_error option" where
  "refuse_truncated_dump h w path head = (if \<not> has_dump_signature head then None
     else (case last_non_empty_line (ad_file h path w) of
       Inl e \<Rightarrow> Some (source_unreadable (''read backup source: '' @ e))
     | Inr l \<Rightarrow> if l = dump_trailer then None
         else Some (source_corrupt (''the dump opens with sqlite3 .dump'' @ [CHR 0x27] @ ''s signature but does not end with its '' @ dump_trailer @ '' trailer: '' @
           ''the file was truncated, and replaying it would exit 0 and leave an empty database '' @
           ''because the wrapping transaction never commits '' @ encode_rune 0x2014 @ '' take the backup again''))))"

definition file_checksum :: "'w adapter_env \<Rightarrow> crypto \<Rightarrow> 'w \<Rightarrow> bytes \<Rightarrow> wire_error + bytes" where
  "file_checksum h C w path = (let f = ad_file h path w in case hf_open f of
     Some e \<Rightarrow> Inl (source_unreadable (''open backup source: '' @ e))
   | None \<Rightarrow> (case closing f (reading_fails f (Suc (length (hf_bytes f)))) () of
       Inl e \<Rightarrow> Inl (source_unreadable (''read backup source: '' @ e))
     | Inr u \<Rightarrow> Inr (''sha256:'' @ hex_encode (sha256 C (hf_bytes f)))))"

text \<open>The first refusal, else the checksum.\<close>

definition vetted :: "'w adapter_env \<Rightarrow> crypto \<Rightarrow> 'w \<Rightarrow> bytes \<Rightarrow> int \<Rightarrow> bool \<Rightarrow> wire_error option list \<Rightarrow> wire_error + resolved_source" where
  "vetted h C w path n sql refusals = (case List.find (\<lambda>r. r \<noteq> None) refusals of
     Some (Some e) \<Rightarrow> Inl e
   | _ \<Rightarrow> map_sum (\<lambda>e. e) (\<lambda>sum. \<lparr> rv_path = path, rv_checksum = sum, rv_size = n, rv_sql = sql \<rparr>) (file_checksum h C w path))"

definition resolve_database :: "'w adapter_env \<Rightarrow> crypto \<Rightarrow> 'w \<Rightarrow> bytes \<Rightarrow> wire_error + resolved_source" where
  "resolve_database h C w path = (case stat_and_head h w path of
     Inl e \<Rightarrow> Inl e
   | Inr (n, head) \<Rightarrow> vetted h C w path n False
       [refuse_gzip head ''SQLite database files'', refuse_dump_text head, refuse_empty_database n, refuse_live_copy h w path])"

definition resolve_dump :: "'w adapter_env \<Rightarrow> crypto \<Rightarrow> 'w \<Rightarrow> bytes \<Rightarrow> wire_error + resolved_source" where
  "resolve_dump h C w path = (case stat_and_head h w path of
     Inl e \<Rightarrow> Inl e
   | Inr (n, head) \<Rightarrow> vetted h C w path n True
       [refuse_gzip head ''SQL text'', refuse_database_as_dump head, refuse_empty_dump n, refuse_truncated_dump h w path head])"

definition resolve_source :: "'w adapter_env \<Rightarrow> crypto \<Rightarrow> bytes \<Rightarrow> bytes \<Rightarrow> (bytes \<times> bytes) list \<Rightarrow> 'w adapter_io \<Rightarrow>
    (wire_error + resolved_source) \<times> 'w adapter_io" where
  "resolve_source h C kind path params io = (case backup_selection kind params of
     Inl e \<Rightarrow> (Inl e, io)
   | Inr policy \<Rightarrow>
     if kind = ''sqlite_db'' then
       (case refuse_directory h (ai_world io) path ''sqlite_db_dir'' of
          Some e \<Rightarrow> (Inl e, io) | None \<Rightarrow> (resolve_database h C (ai_world io) path, io))
     else if kind = ''sqlite_db_dir'' then
       (case chosen_database_in h path policy io of
          (Inl e, io) \<Rightarrow> (Inl e, io) | (Inr chosen, io) \<Rightarrow> (resolve_database h C (ai_world io) chosen, io))
     else if kind = ''sqlite_dump'' then
       (case refuse_directory h (ai_world io) path ''sqlite_dump_dir'' of
          Some e \<Rightarrow> (Inl e, io) | None \<Rightarrow> (resolve_dump h C (ai_world io) path, io))
     else if kind = ''sqlite_dump_dir'' then
       (case chosen_dump_in h path policy io of
          (Inl e, io) \<Rightarrow> (Inl e, io) | (Inr chosen, io) \<Rightarrow> (resolve_dump h C (ai_world io) chosen, io))
     else (Inl (unsupported_source (''unsupported source kind: '' @ kind @
       '' (supported: sqlite_db, sqlite_db_dir, sqlite_dump, sqlite_dump_dir)'')), io))"

definition reject_backup_timezone :: "(bytes \<times> bytes) list \<Rightarrow> wire_error option" where
  "reject_backup_timezone params = (if param_of params ''backup_timezone'' = [] then None
     else Some (bad_request (''source.params.backup_timezone has no effect for this adapter: neither a database file nor a dump '' @
       ''records when it was taken, so backup.created_at stays empty'')))"

end
