(* ===== verification/SqliteAdapter.thy ===== *)
theory SqliteAdapter
  imports SqliteSource
begin

text \<open>
  adapters/sqlite/ops.go and main.go: what the SQLite adapter answers to a probe, a provision and a healthcheck, and one run of
  the program. The whole of the adapter's conversation with the core is in the history of \<open>adapter_io\<close>.
\<close>

subsection \<open>Probe\<close>

definition adapter_name :: bytes where "adapter_name = ''sqlite''"
definition adapter_version :: bytes where "adapter_version = ''0.2.0''"
definition work_dir_name :: bytes where "work_dir_name = ''probavi-sqlite''"
definition db_file_name :: bytes where "db_file_name = ''restored.db''"
definition dump_file_name :: bytes where "dump_file_name = ''dump.sql''"

definition probe_source :: "bytes \<Rightarrow> json" where
  "probe_source kind = JObj [(''capabilities'', JObj [(''pitr'', JBool False)]), (''kind'', JStr kind)]"

definition probe_payload :: json where
  "probe_payload = JObj
    [(''adapter_version'', JStr adapter_version),
     (''engine'', JObj [(''name'', JStr ''sqlite'')]),
     (''name'', JStr adapter_name),
     (''protocol_versions'', JArr [JStr spoken_version]),
     (''sources'', JArr (map probe_source [''sqlite_db'', ''sqlite_db_dir'', ''sqlite_dump'', ''sqlite_dump_dir''])),
     (''sql_runner'', JObj
       [(''argv'', JArr (map JStr [''sqlite3'', ''-batch'', ''-noheader'', ''-bail'', ''-separator'', [CHR 0x09], ''{{database}}'', ''{{sql}}''])),
        (''env'', JObj [])]),
     (''verbs_required'', JArr (map JStr [''exec'', ''put_file'']))]"

subsection \<open>The provision request\<close>

record sqlite_request =
  sq_kind :: bytes
  sq_path :: bytes
  sq_params :: "(bytes \<times> bytes) list"
  sq_scratch :: bytes
  sq_pitr :: bool

definition request_shape :: shape where
  "request_shape = SStruct
    [(''source'', SStruct [(''kind'', SStr), (''path'', SStr), (''params'', SMap SStr), (''credential_env'', SSlice SStr)]),
     (''sandbox'', SStruct [(''scratch_dir'', SStr)]), (''options'', SMap SStr), (''pitr'', SStruct [(''target_time'', SStr)])]"

definition put_request :: "bytes \<times> json \<Rightarrow> sqlite_request \<Rightarrow> sqlite_request" where
  "put_request = (\<lambda>(k, v) q. let f = field_name [''source'', ''sandbox'', ''options'', ''pitr''] k in
     if f = Some ''source'' then set_members [''kind'', ''path'', ''params'', ''credential_env'']
       (\<lambda>n w q. if n = ''kind'' then q\<lparr> sq_kind := set_str w (sq_kind q) \<rparr>
          else if n = ''path'' then q\<lparr> sq_path := set_str w (sq_path q) \<rparr>
          else if n = ''params'' then q\<lparr> sq_params := set_map w (sq_params q) \<rparr> else q) v q
     else if f = Some ''sandbox'' then set_members [''scratch_dir''] (\<lambda>n w q. q\<lparr> sq_scratch := set_str w (sq_scratch q) \<rparr>) v q
     else if f = Some ''pitr'' then q\<lparr> sq_pitr := (v \<noteq> JNull) \<rparr>
     else q)"

definition unmarshal_request :: "json option \<Rightarrow> sqlite_request option" where
  "unmarshal_request payload = (case payload of None \<Rightarrow> None
     | Some v \<Rightarrow> unmarshal_struct request_shape put_request \<lparr> sq_kind = [], sq_path = [], sq_params = [], sq_scratch = [], sq_pitr = False \<rparr> v)"

subsection \<open>Steps in the sandbox\<close>

definition exec_argv :: "bytes list \<Rightarrow> exec_fields" where
  "exec_argv argv = \<lparr> eq_argv = argv, eq_env = [], eq_stdin = [] \<rparr>"

text \<open>One line without double quotes.\<close>

definition first_line_of :: "bytes \<Rightarrow> bytes" where
  "first_line_of b = map (\<lambda>c. if c = CHR 0x22 then CHR 0x27 else c) (takeWhile (\<lambda>c. c \<noteq> CHR 0x0A) (trim_space b))"

definition check_engine :: "'w adapter_env \<Rightarrow> 'w adapter_io \<Rightarrow> (wire_error + float64) \<times> 'w adapter_io" where
  "check_engine h io = (case adapter_exec h (exec_argv [''sh'', ''-c'', ''exec sqlite3 -version'']) io of
     (Inl e, io) \<Rightarrow> (Inl e, io)
   | (Inr (x, out, err), io) \<Rightarrow>
     if xv_exit x \<noteq> 0
     then (Inl (bad_request (''the sandbox image cannot run sqlite3 through a POSIX shell, and this adapter needs '' @
       ''both '' @ encode_rune 0x2014 @ '' there is no official SQLite image, so use any image that ships them; the '' @
       ''adapter README names the community image CI verifies against ('' @ first_line_of err @ '')'')), io)
     else (Inr (xv_duration x), io))"

definition prepare_work_dir :: "'w adapter_env \<Rightarrow> bytes \<Rightarrow> 'w adapter_io \<Rightarrow> wire_error option \<times> 'w adapter_io" where
  "prepare_work_dir h work_dir io = (case adapter_exec h (exec_argv [''mkdir'', ''-p'', work_dir]) io of
     (Inl e, io) \<Rightarrow> (Some e, io)
   | (Inr (x, out, err), io) \<Rightarrow>
     if xv_exit x \<noteq> 0 then (Some (internal_error (''prepare work directory: '' @ first_line_of err)), io) else (None, io))"

definition integrity_script :: bytes where
  "integrity_script = ''out=$(sqlite3 '' @ [CHR 0x22] @ ''$1'' @ [CHR 0x22] @ '' '' @ [CHR 0x22] @ ''PRAGMA integrity_check;'' @ [CHR 0x22] @ '' 2>&1); status=$?'' @ [CHR 0x0A] @
     ''if [ '' @ [CHR 0x22] @ ''$status'' @ [CHR 0x22] @ '' -eq 0 ] && [ '' @ [CHR 0x22] @ ''$out'' @ [CHR 0x22] @ '' = '' @ [CHR 0x22] @ ''ok'' @ [CHR 0x22] @ '' ]; then exit 0; fi'' @ [CHR 0x0A] @
     ''printf '' @ [CHR 0x27] @ ''%s'' @ [CHR 0x5C] @ ''n'' @ [CHR 0x27] @ '' '' @ [CHR 0x22] @ ''$out'' @ [CHR 0x22] @ '' >&2'' @ [CHR 0x0A] @
     ''exit 1''"

definition replay_script :: bytes where
  "replay_script = ''exec sqlite3 -bail '' @ [CHR 0x22] @ ''$1'' @ [CHR 0x22] @ '' < '' @ [CHR 0x22] @ ''$2'' @ [CHR 0x22]"

text \<open>Seconds of the transfer and of the restore.\<close>

definition place_database :: "'w adapter_env \<Rightarrow> bytes \<Rightarrow> bytes \<Rightarrow> bytes \<Rightarrow> 'w adapter_io \<Rightarrow> (wire_error + float64 \<times> float64) \<times> 'w adapter_io" where
  "place_database h host_path work_dir db_path io = (case adapter_put_file h host_path db_path ''0600'' io of
     (Inl e, io) \<Rightarrow> (Inl e, io)
   | (Inr put, io) \<Rightarrow>
     (case adapter_exec h (exec_argv [''sh'', ''-c'', integrity_script, ''sh'', db_path]) io of
        (Inl e, io) \<Rightarrow> (Inl e, io)
      | (Inr (x, out, err), io) \<Rightarrow>
        if xv_exit x \<noteq> 0 then (Inl (source_corrupt (''sqlite3 rejected the restored database: '' @ first_line_of err)), io)
        else (Inr (pv_duration put, xv_duration x), io)))"

definition replay_dump :: "'w adapter_env \<Rightarrow> bytes \<Rightarrow> bytes \<Rightarrow> bytes \<Rightarrow> 'w adapter_io \<Rightarrow> (wire_error + float64 \<times> float64) \<times> 'w adapter_io" where
  "replay_dump h host_path work_dir db_path io = (let dump_path = join_two work_dir dump_file_name in
     case adapter_put_file h host_path dump_path ''0600'' io of
     (Inl e, io) \<Rightarrow> (Inl e, io)
   | (Inr put, io) \<Rightarrow>
     (case adapter_exec h (exec_argv [''sh'', ''-c'', replay_script, ''sh'', db_path, dump_path]) io of
        (Inl e, io) \<Rightarrow> (Inl e, io)
      | (Inr (x, out, err), io) \<Rightarrow>
        if xv_exit x \<noteq> 0 then
          (Inl (if sublist ''Parse error'' (first_line_of err)
             then source_corrupt (''the dump stopped parsing mid-statement '' @ encode_rune 0x2014 @ '' a truncated backup: '' @ first_line_of err)
             else proto_err ''restore_failed'' False (''replaying the dump failed: '' @ first_line_of err)), io)
        else (Inr (pv_duration put, xv_duration x), io)))"

subsection \<open>The operations\<close>

definition provision_tree :: "'w adapter_env \<Rightarrow> resolved_source \<Rightarrow> bytes \<Rightarrow> bytes \<Rightarrow> float64 \<Rightarrow> float64 \<Rightarrow> float64 \<Rightarrow> json" where
  "provision_tree h src work_dir db_path ready transfer restored = JObj
    [(''connection'', JObj [(''database'', JStr db_path), (''host'', JStr ''127.0.0.1''), (''port'', JNum ''0''), (''scheme'', JStr ''sqlite''), (''user'', JStr [])]),
     (''source_identity'', JObj [(''checksum'', JStr (rv_checksum src)), (''created_at'', JNull), (''size_bytes'', JNum (show_int (rv_size src)))]),
     (''state'', JObj [(''db_path'', JStr db_path), (''work_dir'', JStr work_dir)]),
     (''timings'', JObj [(''engine_ready_seconds'', JNum (ad_float h ready)), (''restore_seconds'', JNum (ad_float h restored)),
        (''transfer_seconds'', JNum (ad_float h transfer))])]"

definition sqlite_restore :: "'w adapter_env \<Rightarrow> bytes \<Rightarrow> resolved_source \<Rightarrow> 'w adapter_io \<Rightarrow> (wire_error + json) \<times> 'w adapter_io" where
  "sqlite_restore h scratch src io =
    (case check_engine h io of
       (Inl e, io) \<Rightarrow> (Inl e, io)
     | (Inr ready, io) \<Rightarrow> let work_dir = join_two scratch work_dir_name in
       (case prepare_work_dir h work_dir io of
          (Some e, io) \<Rightarrow> (Inl e, io)
        | (None, io) \<Rightarrow> let db_path = join_two work_dir db_file_name in
          (case (if rv_sql src then replay_dump else place_database) h (rv_path src) work_dir db_path io of
             (Inl e, io) \<Rightarrow> (Inl e, io)
           | (Inr (transfer, restored), io) \<Rightarrow> (Inr (provision_tree h src work_dir db_path ready transfer restored), io))))"

definition sqlite_provision :: "'w adapter_env \<Rightarrow> crypto \<Rightarrow> json option \<Rightarrow> 'w adapter_io \<Rightarrow> (wire_error + json) \<times> 'w adapter_io" where
  "sqlite_provision h C payload io =
    (case unmarshal_request payload of
       None \<Rightarrow> (Inl (bad_request ''malformed provision payload''), io)
     | Some q \<Rightarrow>
       if sq_pitr q then (Inl (bad_request ''this adapter does not support pitr''), io)
       else (case reject_backup_timezone (sq_params q) of
          Some e \<Rightarrow> (Inl e, io)
        | None \<Rightarrow>
          (case resolve_source h C (sq_kind q) (sq_path q) (sq_params q) io of
             (Inl e, io) \<Rightarrow> (Inl e, io)
           | (Inr src, io) \<Rightarrow> sqlite_restore h (if sq_scratch q = [] then ''/tmp'' else sq_scratch q) src io)))"

definition health_shape :: shape where
  "health_shape = SStruct [(''connection'', SStruct [(''database'', SStr)])]"

definition put_health :: "bytes \<times> json \<Rightarrow> bytes \<Rightarrow> bytes" where
  "put_health = (\<lambda>(k, v) db. if field_name [''connection'', ''state''] k = Some ''connection''
     then set_members [''database''] (\<lambda>n w db. set_str w db) v db else db)"

definition unmarshal_health :: "json option \<Rightarrow> bytes option" where
  "unmarshal_health payload = (case payload of None \<Rightarrow> None | Some v \<Rightarrow> unmarshal_struct health_shape put_health [] v)"

definition health_tree :: "'w adapter_env \<Rightarrow> exec_value \<Rightarrow> bytes \<Rightarrow> bytes \<Rightarrow> json" where
  "health_tree h x out err = JObj
    [(''detail'', JStr (if xv_exit x = 0 then ''database file serves queries; '' @ first_line_of out @ '' schema objects''
        else ''sqlite3 exited '' @ show_int (xv_exit x) @ '': '' @ first_line_of err)),
     (''healthy'', JBool (xv_exit x = 0)),
     (''latency_seconds'', JNum (ad_float h (xv_duration x)))]"

definition sqlite_healthcheck :: "'w adapter_env \<Rightarrow> json option \<Rightarrow> 'w adapter_io \<Rightarrow> (wire_error + json) \<times> 'w adapter_io" where
  "sqlite_healthcheck h payload io =
    (case unmarshal_health payload of
       None \<Rightarrow> (Inl (bad_request ''malformed healthcheck payload''), io)
     | Some db \<Rightarrow>
       if db = [] then (Inl (bad_request ''healthcheck payload names no restored database''), io)
       else (case adapter_exec h (exec_argv [''sqlite3'', ''-batch'', ''-noheader'', db, ''SELECT count(*) FROM sqlite_schema;'']) io of
          (Inl e, io) \<Rightarrow> (Inl e, io)
        | (Inr (x, out, err), io) \<Rightarrow> (Inr (health_tree h x out err), io)))"

definition sqlite_ops :: "'w adapter_env \<Rightarrow> crypto \<Rightarrow> 'w adapter_ops" where
  "sqlite_ops h C = \<lparr> op_probe = probe_payload, op_provision = sqlite_provision h C, op_healthcheck = sqlite_healthcheck h \<rparr>"

definition sqlite_run :: "'w adapter_env \<Rightarrow> crypto \<Rightarrow> 'w adapter_io \<Rightarrow> int \<times> 'w adapter_io" where
  "sqlite_run h C io = serve h (sqlite_ops h C) io"

end
