(* ===== verification/AdapterTalk.thy ===== *)
theory AdapterTalk
  imports SqliteAdapter StoreAccept
begin

text \<open>
  An adapter's conversation as the core reads it. What the adapter prints (\<open>AdapterSide\<close>) is read back by the core's
  decoder (\<open>AdapterWire\<close>): a call as that call, an answer as that answer, the echo of the request in both. \<open>talks\<close> is
  the contract of every operation of the adapter: it writes nothing but calls, numbered in order.
\<close>

subsection \<open>Printing and reading\<close>

abbreviation writable :: "json \<Rightarrow> bool" where
  "writable \<equiv> json_all (\<lambda>t. True) num_ok"

lemma read_marshalled:
  assumes "writable v" "jdepth v \<le> max_depth"
  shows "unmarshal_tree (marshal v) = Some (map_json sane v)"
  using lossy_mq.parse_first_image [OF assms] by (simp add: unmarshal_tree_def marshal_def skip_ws_def)

lemma sane_ascii: "list_all (\<lambda>c. code c < 128) s \<Longrightarrow> sane s = s"
  by (simp add: ascii_valid list_all_iff)

lemma fold_name_ascii: "list_all (\<lambda>c. code c < 128) s \<Longrightarrow> fold_name s = map (fold_rune \<circ> code) s"
  by (simp add: fold_name_def runes_ascii list_all_iff)

lemma jdepth_members: "jdepth (JObj ms) = Suc (foldr max (map (jdepth \<circ> snd) ms) 0)"
  by (simp add: comp_def)

lemmas wire_names = call_names_def error_names_def envelope_names_def call_shape_def error_shape_def envelope_shape_def field_name_def

definition echo :: "bytes \<Rightarrow> envelope" where
  "echo rid = zero_envelope\<lparr> ev_protocol := spoken_version, ev_request_id := sane rid \<rparr>"

lemma call_read_back:
  assumes "writable args" "jdepth args + 2 \<le> max_depth"
  shows "unmarshal_envelope (marshal (call_message rid cid verb args)) =
    Some (echo rid\<lparr> ev_call := Some \<lparr> sc_call_id = sane cid, sc_verb = sane verb, sc_args = Some (map_json sane args) \<rparr> \<rparr>)"
proof -
  have "jdepth (call_message rid cid verb args) \<le> max_depth"
    using assms(2) by (simp add: call_message_def)
  moreover have "writable (call_message rid cid verb args)"
    using assms(1) by (simp add: call_message_def)
  ultimately show ?thesis
    by (simp add: unmarshal_envelope_def read_marshalled) (simp add: call_message_def sane_ascii unmarshal_struct_def wire_names put_envelope_def
        put_call_def set_struct_def set_str_def echo_def zero_envelope_def spoken_version_def fold_name_ascii fold_rune_def)
qed

lemma ok_read_back:
  assumes "writable payload" "jdepth payload < max_depth"
  shows "unmarshal_envelope (marshal (ok_message rid payload)) =
    Some (echo rid\<lparr> ev_ok := Some True, ev_payload := Some (map_json sane payload) \<rparr>)"
proof -
  have "jdepth (ok_message rid payload) \<le> max_depth" "writable (ok_message rid payload)"
    using assms by (simp_all add: ok_message_def)
  then show ?thesis
    by (simp add: unmarshal_envelope_def read_marshalled) (simp add: ok_message_def sane_ascii unmarshal_struct_def wire_names put_envelope_def
        set_str_def echo_def zero_envelope_def spoken_version_def fold_name_ascii fold_rune_def)
qed

text \<open>What the core reads of an error.\<close>

definition error_seen :: "'w adapter_env \<Rightarrow> wire_error \<Rightarrow> wire_error" where
  "error_seen h e = \<lparr> we_code = sane (we_code e), we_message = sane (we_message e), we_retryable = we_retryable e,
     we_detail = (case we_detail e of None \<Rightarrow> None | Some d \<Rightarrow> map_option (map_json sane) (ad_detail h d)) \<rparr>"

lemma error_read_back:
  assumes "\<And>d v. ad_detail h d = Some v \<Longrightarrow> writable v \<and> jdepth v + 2 \<le> max_depth"
  shows "unmarshal_envelope (marshal (error_message rid (error_tree h e))) =
    Some (echo rid\<lparr> ev_ok := Some False, ev_error := Some (error_seen h e) \<rparr>)"
proof (cases "case we_detail e of None \<Rightarrow> None | Some d \<Rightarrow> ad_detail h d")
  case None
  then have t: "error_tree h e = JObj [(''code'', JStr (we_code e)), (''message'', JStr (we_message e)), (''retryable'', JBool (we_retryable e))]"
    "we_detail (error_seen h e) = None"
    by (auto simp: error_tree_def error_seen_def split: option.splits)
  have "jdepth (error_message rid (error_tree h e)) \<le> max_depth" "writable (error_message rid (error_tree h e))"
    by (simp_all add: error_message_def t max_depth_def)
  with t show ?thesis
    by (simp add: unmarshal_envelope_def read_marshalled) (simp add: error_message_def sane_ascii unmarshal_struct_def wire_names put_envelope_def
        put_error_def set_struct_def set_bool_def set_str_def echo_def zero_envelope_def spoken_version_def fold_name_ascii fold_rune_def error_seen_def)
next
  case (Some v)
  then have t: "error_tree h e = JObj [(''code'', JStr (we_code e)), (''message'', JStr (we_message e)), (''retryable'', JBool (we_retryable e)), (''detail'', v)]"
    "we_detail (error_seen h e) = Some (map_json sane v)" and v: "writable v" "jdepth v + 2 \<le> max_depth"
    using assms by (auto simp: error_tree_def error_seen_def split: option.splits)
  have "jdepth (error_message rid (error_tree h e)) \<le> max_depth" "writable (error_message rid (error_tree h e))"
    using v by (simp_all add: error_message_def t)
  with t show ?thesis
    by (simp add: unmarshal_envelope_def read_marshalled) (simp add: error_message_def sane_ascii unmarshal_struct_def wire_names put_envelope_def
        put_error_def set_struct_def set_bool_def set_str_def echo_def zero_envelope_def spoken_version_def fold_name_ascii fold_rune_def error_seen_def)
qed

subsection \<open>The calls an adapter makes\<close>

datatype sandbox_request = ExecRequest "bytes list" | PutRequest bytes bytes bytes

definition request_verb :: "sandbox_request \<Rightarrow> bytes" where
  "request_verb r = (case r of ExecRequest argv \<Rightarrow> ''exec'' | PutRequest s d m \<Rightarrow> ''put_file'')"

definition request_args :: "sandbox_request \<Rightarrow> json" where
  "request_args r = (case r of ExecRequest argv \<Rightarrow> exec_tree (exec_argv argv) | PutRequest s d m \<Rightarrow> put_file_tree s d m)"

text \<open>The core's decoder takes the arguments and finds a command, or a source and a destination.\<close>

definition proper_call :: "sandbox_call \<Rightarrow> bool" where
  "proper_call c \<longleftrightarrow> (sc_verb c = ''exec'' \<and> (\<exists>a. unmarshal_exec (sc_args c) = Some a \<and> xa_argv a \<noteq> [] \<and> xa_env a = [] \<and> xa_stdin_b64 a = []))
     \<or> (sc_verb c = ''put_file'' \<and> (\<exists>a. unmarshal_put_file (sc_args c) = Some a \<and> pa_dest a \<noteq> []))"

fun call_lines :: "bytes \<Rightarrow> nat \<Rightarrow> sandbox_request list \<Rightarrow> bytes list" where
  "call_lines rid n [] = []"
| "call_lines rid n (r # rs) = marshal (call_message rid (call_id (Suc n)) (request_verb r) (request_args r)) # call_lines rid (Suc n) rs"

lemma call_lines_append: "call_lines rid n (rs @ qs) = call_lines rid n rs @ call_lines rid (n + length rs) qs"
  by (induction rs arbitrary: n) auto

definition proper_request :: "sandbox_request \<Rightarrow> bool" where
  "proper_request r \<longleftrightarrow> (case r of ExecRequest argv \<Rightarrow> argv \<noteq> [] | PutRequest s d m \<Rightarrow> d \<noteq> [])"

lemma sane_nonempty: "s \<noteq> [] \<Longrightarrow> sane s \<noteq> []"
  by (simp add: sane_def runes.simps [of s])

lemma set_strs_texts: "set_strs (JArr (map JStr xs)) [] = xs"
proof -
  have "set_strs (JArr vs) [] = map (\<lambda>w. set_str w []) (map snd (enumerate 0 vs))" for vs
    unfolding map_map by (simp add: set_strs_def case_prod_unfold comp_def)
  then show ?thesis by (simp add: set_str_def comp_def map_snd_enumerate [unfolded map_map])
qed

lemma foldr_max_zero: "foldr max (map (\<lambda>x. 0) xs) (0 :: nat) = 0"
  by (induction xs) auto

lemma exec_args_read_back:
  "unmarshal_exec (Some (map_json sane (exec_tree (exec_argv argv)))) =
    Some \<lparr> xa_argv = map sane argv, xa_env = [], xa_stdin_b64 = [], xa_timeout = Finite 0 0 \<rparr>"
  by (simp add: exec_tree_def exec_argv_def unmarshal_exec_def timeouts_fit_def exec_names_def exec_shape_def field_name_def sane_ascii
      unmarshal_struct_def put_exec_def zero_exec_def list_all_iff comp_def set_strs_texts [of "map sane argv", unfolded map_map comp_def])

lemma put_file_args_read_back:
  "unmarshal_put_file (Some (map_json sane (put_file_tree s d m))) = Some \<lparr> pa_source = sane s, pa_dest = sane d, pa_mode = sane m \<rparr>"
  by (simp add: put_file_tree_def unmarshal_put_file_def put_file_shape_def field_name_def sane_ascii unmarshal_struct_def put_put_file_def set_str_def)

lemma request_args_ok: "writable (request_args r)" "jdepth (request_args r) \<le> 2"
  by (auto simp: request_args_def exec_tree_def exec_argv_def put_file_tree_def comp_def foldr_max_zero split: sandbox_request.splits)

lemma request_read_back:
  assumes "proper_request r"
  shows "\<exists>c. unmarshal_envelope (marshal (call_message rid cid (request_verb r) (request_args r))) = Some (echo rid\<lparr> ev_call := Some c \<rparr>) \<and>
    sc_call_id c = sane cid \<and> proper_call c"
  using assms call_read_back [of "request_args r" rid cid "request_verb r"] request_args_ok [of r]
  by (cases r) (auto simp: proper_request_def proper_call_def request_verb_def request_args_def exec_args_read_back put_file_args_read_back sane_ascii
      max_depth_def sane_nonempty)

subsection \<open>Operations only call\<close>

definition talks :: "'w adapter_io \<Rightarrow> 'w adapter_io \<Rightarrow> sandbox_request list \<Rightarrow> bool" where
  "talks io io' rs \<longleftrightarrow> ai_out io' = ai_out io @ call_lines (ai_request_id io) (ai_calls io) rs \<and> ai_calls io' = ai_calls io + length rs \<and>
    ai_request_id io' = ai_request_id io \<and> list_all proper_request rs"

lemma talks_refl [simp, intro]: "talks io io []"
  by (simp add: talks_def)

lemma talks_world [simp]: "talks io (io'\<lparr> ai_world := w \<rparr>) rs = talks io io' rs" "talks io (io'\<lparr> ai_in := l \<rparr>) rs = talks io io' rs"
  by (simp_all add: talks_def)

lemma talks_trans: "talks io io1 rs \<Longrightarrow> talks io1 io2 qs \<Longrightarrow> talks io io2 (rs @ qs)"
  by (simp add: talks_def call_lines_append)

text \<open>The reply to a call, as it was read.\<close>

definition replied :: "bytes \<Rightarrow> bytes \<Rightarrow> json option \<Rightarrow> bool" where
  "replied line cid raw \<longleftrightarrow> (\<exists>b r. unmarshal_inbound line = Some b \<and> ib_result b = Some r \<and> vy_call_id r = cid \<and> vy_ok r \<and> vy_value r = raw)"

lemma call_talks:
  assumes "adapter_call h (request_verb q) (request_args q) io = (r, io')" "proper_request q"
  shows "\<exists>rs. talks io io' rs \<and> set rs \<subseteq> {q} \<and> (\<forall>raw. r = Inr raw \<longrightarrow> rs = [q] \<and> (\<exists>line. ai_in io' = ai_in io @ [line] \<and> replied line (call_id (Suc (ai_calls io))) raw))"
proof (cases "ad_cancelled h (ai_world io)")
  case True
  with assms show ?thesis by (intro exI [of _ "[]"]) (auto simp: adapter_call_def)
next
  case False
  with assms show ?thesis
    by (intro exI [of _ "[q]"])
      (auto simp: adapter_call_def write_message_def Let_def talks_def replied_def split: prod.splits option.splits if_splits)
qed

lemma exec_talks:
  assumes "adapter_exec h (exec_argv argv) io = (r, io')" "argv \<noteq> []"
  shows "\<exists>rs. talks io io' rs \<and> set rs \<subseteq> {ExecRequest argv} \<and> (\<forall>x out err. r = Inr (x, out, err) \<longrightarrow> rs = [ExecRequest argv] \<and>
    (\<exists>line raw. ai_in io' = ai_in io @ [line] \<and> replied line (call_id (Suc (ai_calls io))) raw \<and> unmarshal_exec_value raw = Some x))"
proof -
  obtain c io1 where c: "adapter_call h (request_verb (ExecRequest argv)) (request_args (ExecRequest argv)) io = (c, io1)" by fastforce
  have "proper_request (ExecRequest argv)" using assms(2) by (simp add: proper_request_def)
  from call_talks [OF c this] obtain rs where rs: "talks io io1 rs" "set rs \<subseteq> {ExecRequest argv}"
    "\<forall>raw. c = Inr raw \<longrightarrow> rs = [ExecRequest argv] \<and> (\<exists>line. ai_in io1 = ai_in io @ [line] \<and> replied line (call_id (Suc (ai_calls io))) raw)"
    by blast
  from c have c': "adapter_call h ''exec'' (exec_tree (exec_argv argv)) io = (c, io1)" by (simp add: request_verb_def request_args_def)
  have io: "io' = io1" using assms(1) by (cases c) (auto simp: adapter_exec_def c' split: option.splits)
  have raw: "\<exists>raw. c = Inr raw \<and> unmarshal_exec_value raw = Some x" if "r = Inr (x, out, err)" for x out err
    using assms(1) that by (cases c) (auto simp: adapter_exec_def c' split: option.splits)
  show ?thesis
  proof (intro exI [of _ rs] conjI allI impI)
    show "talks io io' rs" using rs(1) io by simp
  next
    show "set rs \<subseteq> {ExecRequest argv}" by (rule rs(2))
  next
    fix x out err
    assume "r = Inr (x, out, err)"
    from raw [OF this] obtain j where j: "c = Inr j" "unmarshal_exec_value j = Some x" by (elim exE conjE)
    from rs(3) j(1) have got: "rs = [ExecRequest argv]" "\<exists>line. ai_in io1 = ai_in io @ [line] \<and> replied line (call_id (Suc (ai_calls io))) j" by simp_all
    from got(1) show "rs = [ExecRequest argv]" .
    from got(2) j(2) io show "\<exists>line raw. ai_in io' = ai_in io @ [line] \<and> replied line (call_id (Suc (ai_calls io))) raw \<and> unmarshal_exec_value raw = Some x"
      by auto
  qed
qed

lemma put_talks:
  assumes "adapter_put_file h s d m io = (r, io')" "d \<noteq> []"
  shows "\<exists>rs. talks io io' rs \<and> set rs \<subseteq> {PutRequest s d m} \<and> (\<forall>x. r = Inr x \<longrightarrow> rs = [PutRequest s d m] \<and>
    (\<exists>line raw. ai_in io' = ai_in io @ [line] \<and> replied line (call_id (Suc (ai_calls io))) raw \<and> unmarshal_put_value raw = Some x))"
proof -
  obtain c io1 where c: "adapter_call h (request_verb (PutRequest s d m)) (request_args (PutRequest s d m)) io = (c, io1)" by fastforce
  have "proper_request (PutRequest s d m)" using assms(2) by (simp add: proper_request_def)
  from call_talks [OF c this] obtain rs where rs: "talks io io1 rs" "set rs \<subseteq> {PutRequest s d m}"
    "\<forall>raw. c = Inr raw \<longrightarrow> rs = [PutRequest s d m] \<and> (\<exists>line. ai_in io1 = ai_in io @ [line] \<and> replied line (call_id (Suc (ai_calls io))) raw)"
    by blast
  from c have c': "adapter_call h ''put_file'' (put_file_tree s d m) io = (c, io1)" by (simp add: request_verb_def request_args_def)
  have io: "io' = io1" using assms(1) by (cases c) (auto simp: adapter_put_file_def c' split: option.splits)
  have raw: "\<exists>raw. c = Inr raw \<and> unmarshal_put_value raw = Some x" if "r = Inr x" for x
    using assms(1) that by (cases c) (auto simp: adapter_put_file_def c' split: option.splits)
  show ?thesis
  proof (intro exI [of _ rs] conjI allI impI)
    show "talks io io' rs" using rs(1) io by simp
  next
    show "set rs \<subseteq> {PutRequest s d m}" by (rule rs(2))
  next
    fix x
    assume "r = Inr x"
    from raw [OF this] obtain j where j: "c = Inr j" "unmarshal_put_value j = Some x" by (elim exE conjE)
    from rs(3) j(1) have got: "rs = [PutRequest s d m]" "\<exists>line. ai_in io1 = ai_in io @ [line] \<and> replied line (call_id (Suc (ai_calls io))) j" by simp_all
    from got(1) show "rs = [PutRequest s d m]" .
    from got(2) j(2) io show "\<exists>line raw. ai_in io' = ai_in io @ [line] \<and> replied line (call_id (Suc (ai_calls io))) raw \<and> unmarshal_put_value raw = Some x"
      by auto
  qed
qed

end
