(* ===== verification/SqliteProps.thy ===== *)
theory SqliteProps
  imports AdapterTalk
begin

text \<open>
  What the SQLite adapter promises: it speaks the protocol whatever happens to it, only an artifact that was vetted is sent into the
  sandbox, a provision that succeeds was checked by the engine, and the member a policy chooses is the extreme one.
\<close>

subsection \<open>Steps that succeeded\<close>

text \<open>What a reply has to say for the step to count: a command that exited with 0, a file that was copied.\<close>

definition step_accepted :: "sandbox_request \<Rightarrow> json option \<Rightarrow> bool" where
  "step_accepted r raw = (case r of
     ExecRequest argv \<Rightarrow> (\<exists>x. unmarshal_exec_value raw = Some x \<and> xv_exit x = 0)
   | PutRequest s d m \<Rightarrow> unmarshal_put_value raw \<noteq> None)"

fun replies_accepted :: "nat \<Rightarrow> sandbox_request list \<Rightarrow> bytes list \<Rightarrow> bool" where
  "replies_accepted n [] ls = (ls = [])"
| "replies_accepted n (r # rs) ls =
    (case ls of [] \<Rightarrow> False | l # ls \<Rightarrow> (\<exists>raw. replied l (call_id (Suc n)) raw \<and> step_accepted r raw) \<and> replies_accepted (Suc n) rs ls)"

definition succeeded :: "'w adapter_io \<Rightarrow> 'w adapter_io \<Rightarrow> sandbox_request list \<Rightarrow> bool" where
  "succeeded io io' rs \<longleftrightarrow> talks io io' rs \<and> (\<exists>ls. ai_in io' = ai_in io @ ls \<and> replies_accepted (ai_calls io) rs ls)"

lemma replies_accepted_append:
  "replies_accepted n rs ls \<Longrightarrow> replies_accepted (n + length rs) qs ms \<Longrightarrow> replies_accepted n (rs @ qs) (ls @ ms)"
  by (induction rs arbitrary: n ls) (auto split: list.splits)

lemma succeeded_trans:
  assumes "succeeded io io1 rs" "succeeded io1 io2 qs"
  shows "succeeded io io2 (rs @ qs)"
proof -
  from assms obtain ls ms where l: "ai_in io1 = ai_in io @ ls" "replies_accepted (ai_calls io) rs ls"
    "ai_in io2 = ai_in io1 @ ms" "replies_accepted (ai_calls io1) qs ms"
    and t: "talks io io1 rs" "talks io1 io2 qs" by (auto simp: succeeded_def)
  from t(1) have "ai_calls io1 = ai_calls io + length rs" by (simp add: talks_def)
  with l have "ai_in io2 = ai_in io @ (ls @ ms) \<and> replies_accepted (ai_calls io) (rs @ qs) (ls @ ms)"
    by (auto intro: replies_accepted_append)
  with talks_trans [OF t] show ?thesis unfolding succeeded_def by blast
qed

text \<open>The contract of a step: it makes no call but those allowed, and all of them if it succeeds.\<close>

definition step_of :: "sandbox_request list \<Rightarrow> bool \<Rightarrow> 'w adapter_io \<Rightarrow> 'w adapter_io \<Rightarrow> bool" where
  "step_of qs ok io io' \<longleftrightarrow> (\<exists>rs. talks io io' rs \<and> set rs \<subseteq> set qs) \<and> (ok \<longrightarrow> succeeded io io' qs)"

lemma step_fail: "step_of qs ok io io' \<Longrightarrow> set qs \<subseteq> set qs' \<Longrightarrow> step_of qs' False io io'"
  by (auto simp: step_of_def)

lemma step_then:
  assumes "step_of qs True io io1" "step_of qs' ok io1 io2"
  shows "step_of (qs @ qs') ok io io2"
proof -
  from assms obtain rs where rs: "talks io1 io2 rs" "set rs \<subseteq> set qs'" and s: "succeeded io io1 qs" by (auto simp: step_of_def)
  from s have "talks io io1 qs" by (simp add: succeeded_def)
  from talks_trans [OF this rs(1)] rs(2) have "\<exists>rs. talks io io2 rs \<and> set rs \<subseteq> set (qs @ qs')" by (intro exI [of _ "qs @ rs"]) auto
  moreover have "ok \<Longrightarrow> succeeded io io2 (qs @ qs')" using s assms(2) by (auto simp: step_of_def intro: succeeded_trans)
  ultimately show ?thesis by (simp add: step_of_def)
qed

lemma exec_step:
  assumes "adapter_exec h (exec_argv argv) io = (r, io')" "argv \<noteq> []"
  shows "step_of [ExecRequest argv] (\<exists>x out err. r = Inr (x, out, err) \<and> xv_exit x = 0) io io'"
proof -
  from exec_talks [OF assms] obtain rs where rs: "talks io io' rs" "set rs \<subseteq> {ExecRequest argv}"
    "\<forall>x out err. r = Inr (x, out, err) \<longrightarrow> rs = [ExecRequest argv] \<and>
      (\<exists>line raw. ai_in io' = ai_in io @ [line] \<and> replied line (call_id (Suc (ai_calls io))) raw \<and> unmarshal_exec_value raw = Some x)"
    by blast
  have "succeeded io io' [ExecRequest argv]" if "r = Inr (x, out, err)" "xv_exit x = 0" for x out err
  proof -
    from rs(3) that(1) obtain line raw where l: "rs = [ExecRequest argv]" "ai_in io' = ai_in io @ [line]"
      "replied line (call_id (Suc (ai_calls io))) raw" "unmarshal_exec_value raw = Some x" by blast
    with that(2) have "\<exists>raw. replied line (call_id (Suc (ai_calls io))) raw \<and> step_accepted (ExecRequest argv) raw"
      by (auto simp: step_accepted_def)
    with l(2) rs(1) l(1) show ?thesis unfolding succeeded_def by (intro conjI exI [of _ "[line]"]) simp_all
  qed
  with rs(1,2) show ?thesis by (auto simp: step_of_def)
qed

lemma put_step:
  assumes "adapter_put_file h s d m io = (r, io')" "d \<noteq> []"
  shows "step_of [PutRequest s d m] (\<exists>x. r = Inr x) io io'"
proof -
  from put_talks [OF assms] obtain rs where rs: "talks io io' rs" "set rs \<subseteq> {PutRequest s d m}"
    "\<forall>x. r = Inr x \<longrightarrow> rs = [PutRequest s d m] \<and>
      (\<exists>line raw. ai_in io' = ai_in io @ [line] \<and> replied line (call_id (Suc (ai_calls io))) raw \<and> unmarshal_put_value raw = Some x)"
    by blast
  have "succeeded io io' [PutRequest s d m]" if "r = Inr x" for x
  proof -
    from rs(3) that obtain line raw where l: "rs = [PutRequest s d m]" "ai_in io' = ai_in io @ [line]"
      "replied line (call_id (Suc (ai_calls io))) raw" "unmarshal_put_value raw = Some x" by blast
    then have "\<exists>raw. replied line (call_id (Suc (ai_calls io))) raw \<and> step_accepted (PutRequest s d m) raw"
      by (auto simp: step_accepted_def)
    with l(2) rs(1) l(1) show ?thesis unfolding succeeded_def by (intro conjI exI [of _ "[line]"]) simp_all
  qed
  with rs(1,2) show ?thesis by (auto simp: step_of_def)
qed

subsection \<open>A restore, step by step\<close>

lemma join_two_nonempty: "a \<noteq> [] \<Longrightarrow> join_two a b \<noteq> []"
  by (cases b) (simp_all add: join_two_def clean_path_nonempty)

definition engine_call :: sandbox_request where
  "engine_call = ExecRequest [''sh'', ''-c'', ''exec sqlite3 -version'']"

definition place_calls :: "bytes \<Rightarrow> bytes \<Rightarrow> sandbox_request list" where
  "place_calls source db = [PutRequest source db ''0600'', ExecRequest [''sh'', ''-c'', integrity_script, ''sh'', db]]"

definition replay_calls :: "bytes \<Rightarrow> bytes \<Rightarrow> bytes \<Rightarrow> sandbox_request list" where
  "replay_calls source dump db = [PutRequest source dump ''0600'', ExecRequest [''sh'', ''-c'', replay_script, ''sh'', db, dump]]"

text \<open>The calls of a restore: the engine answers, the directory is made, the artifact is copied, the engine reads all of it.\<close>

definition restore_calls :: "bytes \<Rightarrow> resolved_source \<Rightarrow> sandbox_request list" where
  "restore_calls scratch src =
    (let work = join_two scratch work_dir_name; db = join_two work db_file_name in
     [engine_call, ExecRequest [''mkdir'', ''-p'', work]] @
     (if rv_sql src then replay_calls (rv_path src) (join_two work dump_file_name) db else place_calls (rv_path src) db))"

lemma check_engine_step:
  assumes "check_engine h io = (r, io')"
  shows "step_of [engine_call] (\<exists>d. r = Inr d) io io'"
proof -
  obtain c io1 where c: "adapter_exec h (exec_argv [''sh'', ''-c'', ''exec sqlite3 -version'']) io = (c, io1)" by fastforce
  from assms have "io' = io1" "(\<exists>d. r = Inr d) \<longleftrightarrow> (\<exists>x out err. c = Inr (x, out, err) \<and> xv_exit x = 0)"
    by (auto simp: check_engine_def c split: sum.splits if_splits)
  with exec_step [OF c] show ?thesis by (simp add: engine_call_def)
qed

lemma prepare_work_dir_step:
  assumes "prepare_work_dir h work io = (r, io')"
  shows "step_of [ExecRequest [''mkdir'', ''-p'', work]] (r = None) io io'"
proof -
  obtain c io1 where c: "adapter_exec h (exec_argv [''mkdir'', ''-p'', work]) io = (c, io1)" by fastforce
  from assms have "io' = io1" "r = None \<longleftrightarrow> (\<exists>x out err. c = Inr (x, out, err) \<and> xv_exit x = 0)"
    by (auto simp: prepare_work_dir_def c split: sum.splits if_splits)
  with exec_step [OF c] show ?thesis by simp
qed

lemma place_database_step:
  assumes "place_database h p work db io = (r, io')" "db \<noteq> []"
  shows "step_of (place_calls p db) (\<exists>d. r = Inr d) io io'"
proof -
  obtain c io1 where c: "adapter_put_file h p db ''0600'' io = (c, io1)" by fastforce
  note put = put_step [OF c assms(2)]
  show ?thesis
  proof (cases c)
    case (Inl e)
    with assms(1) c have "io' = io1" "\<not> (\<exists>d. r = Inr d)" by (auto simp: place_database_def)
    with step_fail [OF put] show ?thesis by (simp add: place_calls_def)
  next
    case (Inr v)
    obtain x io2 where x: "adapter_exec h (exec_argv [''sh'', ''-c'', integrity_script, ''sh'', db]) io1 = (x, io2)" by fastforce
    from assms(1) c Inr x have "io' = io2" "(\<exists>d. r = Inr d) \<longleftrightarrow> (\<exists>y out err. x = Inr (y, out, err) \<and> xv_exit y = 0)"
      by (auto simp: place_database_def split: sum.splits if_splits)
    moreover from put Inr have "step_of [PutRequest p db ''0600''] True io io1" by simp
    from step_then [OF this exec_step [OF x]] have "step_of (place_calls p db) (\<exists>y out err. x = Inr (y, out, err) \<and> xv_exit y = 0) io io2"
      by (simp add: place_calls_def)
    ultimately show ?thesis by simp
  qed
qed

lemma replay_dump_step:
  assumes "replay_dump h p work db io = (r, io')" "work \<noteq> []"
  shows "step_of (replay_calls p (join_two work dump_file_name) db) (\<exists>d. r = Inr d) io io'"
proof -
  let ?dump = "join_two work dump_file_name"
  obtain c io1 where c: "adapter_put_file h p ?dump ''0600'' io = (c, io1)" by fastforce
  note put = put_step [OF c join_two_nonempty [OF assms(2)]]
  show ?thesis
  proof (cases c)
    case (Inl e)
    with assms(1) c have "io' = io1" "\<not> (\<exists>d. r = Inr d)" by (auto simp: replay_dump_def)
    with step_fail [OF put] show ?thesis by (simp add: replay_calls_def)
  next
    case (Inr v)
    obtain x io2 where x: "adapter_exec h (exec_argv [''sh'', ''-c'', replay_script, ''sh'', db, ?dump]) io1 = (x, io2)" by fastforce
    from assms(1) c Inr x have "io' = io2" "(\<exists>d. r = Inr d) \<longleftrightarrow> (\<exists>y out err. x = Inr (y, out, err) \<and> xv_exit y = 0)"
      by (auto simp: replay_dump_def Let_def split: sum.splits if_splits)
    moreover from put Inr have "step_of [PutRequest p ?dump ''0600''] True io io1" by simp
    from step_then [OF this exec_step [OF x]] have "step_of (replay_calls p ?dump db) (\<exists>y out err. x = Inr (y, out, err) \<and> xv_exit y = 0) io io2"
      by (simp add: replay_calls_def)
    ultimately show ?thesis by simp
  qed
qed

lemma restore_step:
  assumes "sqlite_restore h scratch src io = (r, io')" "scratch \<noteq> []"
  shows "step_of (restore_calls scratch src) (\<exists>v. r = Inr v) io io'"
proof -
  define work where "work = join_two scratch work_dir_name"
  define db where "db = join_two work db_file_name"
  define qs where "qs = (if rv_sql src then replay_calls (rv_path src) (join_two work dump_file_name) db else place_calls (rv_path src) db)"
  have ne: "work \<noteq> []" "db \<noteq> []" using assms(2) by (simp_all add: work_def db_def join_two_nonempty)
  have calls: "restore_calls scratch src = [engine_call] @ [ExecRequest [''mkdir'', ''-p'', work]] @ qs"
    by (simp add: restore_calls_def work_def db_def qs_def Let_def)
  obtain a io1 where a: "check_engine h io = (a, io1)" by fastforce
  obtain b io2 where b: "prepare_work_dir h work io1 = (b, io2)" by fastforce
  obtain c io3 where c: "(if rv_sql src then replay_dump else place_database) h (rv_path src) work db io2 = (c, io3)" by fastforce
  have last: "step_of qs (\<exists>d. c = Inr d) io2 io3"
    using c replay_dump_step [OF _ ne(1)] place_database_step [OF _ ne(2)] by (auto simp: qs_def split: if_splits)
  note one = check_engine_step [OF a] and two = prepare_work_dir_step [OF b]
  consider (engine) e where "a = Inl e" | (dir) d e where "a = Inr d" "b = Some e" | (copied) d where "a = Inr d" "b = None"
    by (cases a; cases b) auto
  then show ?thesis
  proof cases
    case engine
    with assms(1) a have "io' = io1" "r = Inl e" by (auto simp: sqlite_restore_def)
    with step_fail [OF one] show ?thesis by (auto simp: calls)
  next
    case dir
    with assms(1) a b have "io' = io2" "r = Inl e" by (auto simp: sqlite_restore_def work_def Let_def)
    moreover from one dir have "step_of [engine_call] True io io1" by simp
    ultimately show ?thesis using step_fail [OF step_then [OF _ two]] by (auto simp: calls)
  next
    case copied
    with assms(1) a b c have "io' = io3" "(\<exists>v. r = Inr v) \<longleftrightarrow> (\<exists>v. c = Inr v)"
      by (auto simp: sqlite_restore_def work_def db_def Let_def split: sum.splits)
    moreover from one two copied have "step_of [engine_call] True io io1" "step_of [ExecRequest [''mkdir'', ''-p'', work]] True io1 io2" by simp_all
    note step_then [OF this(1) step_then [OF this(2) last]]
    ultimately show ?thesis by (simp only: calls)
  qed
qed

subsection \<open>What the source passed\<close>

text \<open>
  Of the file at the chosen path: the checksum is that of its bytes; it is not empty, not compressed, and of the kind it is taken for; a
  database has no non-empty log or journal beside it; a dump that begins as \<^verbatim>\<open>.dump\<close> writes it ends so too.
\<close>

definition sound_source :: "'w adapter_env \<Rightarrow> crypto \<Rightarrow> 'w \<Rightarrow> resolved_source \<Rightarrow> bool" where
  "sound_source h C w src \<longleftrightarrow>
    (let content = hf_bytes (ad_file h (rv_path src) w) in
     rv_checksum src = ''sha256:'' @ hex_encode (sha256 C content) \<and> rv_size src > 0 \<and> \<not> is_gzip (take head_max content) \<and>
     (if rv_sql src
      then \<not> has_sqlite_magic (take head_max content) \<and>
        (has_dump_signature (take head_max content) \<longrightarrow> last_line_of (drop (length content - tail_max) content) = ''COMMIT;'')
      else \<not> has_dump_signature (take head_max content) \<and>
        \<not> live_sibling h w (rv_path src @ ''-wal'') \<and> \<not> live_sibling h w (rv_path src @ ''-journal'')))"

lemma closing_Inr: "closing f e a = Inr b \<Longrightarrow> b = a"
  by (auto simp: closing_def split: option.splits)

lemma stat_and_head_Inr: "stat_and_head h w path = Inr (n, head) \<Longrightarrow> head = take head_max (hf_bytes (ad_file h path w))"
  by (auto simp: stat_and_head_def read_head_def dest: closing_Inr split: stat_answer.splits sum.splits option.splits)

lemma vetted_Inr:
  assumes "vetted h C w path n sql refusals = Inr src"
  shows "\<forall>x \<in> set refusals. x = None" "src = \<lparr> rv_path = path, rv_checksum = ''sha256:'' @ hex_encode (sha256 C (hf_bytes (ad_file h path w))), rv_size = n, rv_sql = sql \<rparr>"
proof -
  from assms have f: "List.find (\<lambda>r. r \<noteq> None) refusals = None"
    by (auto simp: vetted_def find_Some_iff split: option.splits)
  then show "\<forall>x \<in> set refusals. x = None" by (auto simp: find_None_iff)
  from f assms show "src = \<lparr> rv_path = path, rv_checksum = ''sha256:'' @ hex_encode (sha256 C (hf_bytes (ad_file h path w))), rv_size = n, rv_sql = sql \<rparr>"
    by (cases "file_checksum h C w path") (auto simp: vetted_def file_checksum_def Let_def split: option.splits sum.splits)
qed

lemma resolve_database_sound:
  assumes "resolve_database h C w path = Inr src"
  shows "sound_source h C w src \<and> rv_path src = path \<and> \<not> rv_sql src"
proof -
  from assms obtain n head where s: "stat_and_head h w path = Inr (n, head)"
    "vetted h C w path n False [refuse_gzip head ''SQLite database files'', refuse_dump_text head, refuse_empty_database n, refuse_live_copy h w path] = Inr src"
    by (auto simp: resolve_database_def split: sum.splits)
  note v = vetted_Inr [OF s(2)]
  from v(1) have r: "refuse_gzip head ''SQLite database files'' = None" "refuse_dump_text head = None" "refuse_empty_database n = None"
    "refuse_live_copy h w path = None" by simp_all
  from r(4) have "\<not> live_sibling h w (path @ ''-wal'')" "\<not> live_sibling h w (path @ ''-journal'')"
    by (auto simp: refuse_live_copy_def live_siblings_def split: if_splits)
  moreover from r(1-3) have "\<not> is_gzip head" "\<not> has_dump_signature head" "n > 0"
    by (auto simp: refuse_gzip_def refuse_dump_text_def refuse_empty_database_def split: if_splits)
  ultimately show ?thesis using v(2) stat_and_head_Inr [OF s(1)] by (simp add: sound_source_def Let_def)
qed

lemma resolve_dump_sound:
  assumes "resolve_dump h C w path = Inr src"
  shows "sound_source h C w src \<and> rv_path src = path \<and> rv_sql src"
proof -
  from assms obtain n head where s: "stat_and_head h w path = Inr (n, head)"
    "vetted h C w path n True [refuse_gzip head ''SQL text'', refuse_database_as_dump head, refuse_empty_dump n, refuse_truncated_dump h w path head] = Inr src"
    by (auto simp: resolve_dump_def split: sum.splits)
  note v = vetted_Inr [OF s(2)]
  from v(1) have r: "refuse_gzip head ''SQL text'' = None" "refuse_database_as_dump head = None" "refuse_empty_dump n = None"
    "refuse_truncated_dump h w path head = None" by simp_all
  let ?content = "hf_bytes (ad_file h path w)"
  from r(4) have "has_dump_signature head \<Longrightarrow> last_line_of (drop (length ?content - tail_max) ?content) = ''COMMIT;''"
    by (cases "read_tail (ad_file h path w) tail_max")
      (auto simp: refuse_truncated_dump_def last_non_empty_line_def dump_trailer_def read_tail_def dest!: closing_Inr split: option.splits if_splits)
  moreover from r(1-3) have "\<not> is_gzip head" "\<not> has_sqlite_magic head" "n > 0"
    by (auto simp: refuse_gzip_def refuse_database_as_dump_def refuse_empty_dump_def split: if_splits)
  ultimately show ?thesis using v(2) stat_and_head_Inr [OF s(1)] by (simp add: sound_source_def Let_def)
qed

text \<open>Choosing and vetting a source asks the host and waits; it says nothing.\<close>

definition quiet :: "'w adapter_io \<Rightarrow> 'w adapter_io \<Rightarrow> bool" where
  "quiet io io' \<longleftrightarrow> (\<exists>w. io' = io\<lparr> ai_world := w \<rparr>)"

lemma quiet_refl [simp, intro]: "quiet io io" "quiet io (io\<lparr> ai_world := w \<rparr>)"
  unfolding quiet_def by (rule exI [of _ "ai_world io"], simp) (rule exI, rule refl)

lemma quiet_world: "quiet (io\<lparr> ai_world := w \<rparr>) io' \<Longrightarrow> quiet io io'"
  by (auto simp: quiet_def)

lemma settle_quiet: "assert_settled h p n io = (r, io') \<Longrightarrow> quiet io io'"
  by (auto simp: assert_settled_def split: sum.splits prod.splits if_splits bool.splits)

lemma settle_chosen_quiet: "settle_chosen h p io = (r, io') \<Longrightarrow> quiet io io'"
  by (auto simp: settle_chosen_def dest: settle_quiet split: prod.splits option.splits)

lemma chosen_quiet:
  "chosen_database_in h dir policy io = (r, io') \<Longrightarrow> quiet io io'"
  "chosen_dump_in h dir policy io = (r, io') \<Longrightarrow> quiet io io'"
  by (auto simp: chosen_database_in_def chosen_dump_in_def Let_def dest!: settle_chosen_quiet intro: quiet_world split: prod.splits sum.splits if_splits)

lemma resolve_source_sound:
  assumes "resolve_source h C kind path params io = (r, io')"
  shows "quiet io io' \<and> (\<forall>src. r = Inr src \<longrightarrow> sound_source h C (ai_world io') src \<and> (\<not> selects_a_member kind \<longrightarrow> rv_path src = path))"
proof (cases "backup_selection kind params")
  case (Inl e)
  with assms show ?thesis by (auto simp: resolve_source_def)
next
  case (Inr policy)
  obtain c io1 where c: "chosen_database_in h path policy io = (c, io1)" by fastforce
  obtain d io2 where d: "chosen_dump_in h path policy io = (d, io2)" by fastforce
  note q = chosen_quiet(1) [OF c] chosen_quiet(2) [OF d]
  note sound = resolve_database_sound resolve_dump_sound
  consider "kind = ''sqlite_db''" | "kind = ''sqlite_db_dir''" | "kind = ''sqlite_dump''" | "kind = ''sqlite_dump_dir''"
    | "kind \<notin> {''sqlite_db'', ''sqlite_db_dir'', ''sqlite_dump'', ''sqlite_dump_dir''}" by blast
  then show ?thesis
  proof cases
    case 1
    with assms Inr show ?thesis by (auto simp: resolve_source_def dest: sound split: option.splits)
  next
    case 2
    with assms Inr c q show ?thesis by (cases c) (auto simp: resolve_source_def selects_a_member_def dest: sound)
  next
    case 3
    with assms Inr show ?thesis by (auto simp: resolve_source_def dest: sound split: option.splits)
  next
    case 4
    with assms Inr d q show ?thesis by (cases d) (auto simp: resolve_source_def selects_a_member_def dest: sound)
  next
    case 5
    with assms Inr show ?thesis by (auto simp: resolve_source_def)
  qed
qed

subsection \<open>Provisioning\<close>

definition scratch_of :: "sqlite_request \<Rightarrow> bytes" where
  "scratch_of q = (if sq_scratch q = [] then ''/tmp'' else sq_scratch q)"

lemma scratch_nonempty [simp]: "scratch_of q \<noteq> []"
  by (simp add: scratch_of_def)

lemma quiet_talks: "quiet io io1 \<Longrightarrow> talks io1 io2 rs \<Longrightarrow> talks io io2 rs"
  by (auto simp: quiet_def talks_def)

lemma quiet_succeeded: "quiet io io1 \<Longrightarrow> succeeded io1 io2 rs \<Longrightarrow> succeeded io io2 rs"
  by (auto simp: succeeded_def dest: quiet_talks) (auto simp: quiet_def)

lemma provision_runs:
  assumes "sqlite_provision h C payload io = (r, io')"
  shows "(quiet io io' \<and> (\<forall>v. r \<noteq> Inr v)) \<or> (\<exists>q src io1. unmarshal_request payload = Some q \<and> quiet io io1 \<and> sound_source h C (ai_world io1) src \<and>
    (\<not> selects_a_member (sq_kind q) \<longrightarrow> rv_path src = sq_path q) \<and> sqlite_restore h (scratch_of q) src io1 = (r, io'))"
proof (cases "unmarshal_request payload")
  case None
  with assms show ?thesis by (auto simp: sqlite_provision_def)
next
  case (Some q)
  obtain c io1 where c: "resolve_source h C (sq_kind q) (sq_path q) (sq_params q) io = (c, io1)" by fastforce
  note src = resolve_source_sound [OF c]
  show ?thesis
  proof (cases "sq_pitr q \<or> reject_backup_timezone (sq_params q) \<noteq> None")
    case True
    with assms Some show ?thesis by (auto simp: sqlite_provision_def split: if_splits)
  next
    case False
    with assms Some c have "case c of Inl e \<Rightarrow> r = Inl e \<and> io' = io1 | Inr s \<Rightarrow> sqlite_restore h (scratch_of q) s io1 = (r, io')"
      by (cases c) (simp_all add: sqlite_provision_def scratch_of_def)
    with src Some show ?thesis by (cases c) auto
  qed
qed

lemma restore_answer:
  assumes "sqlite_restore h scratch src io = (Inr v, io')"
  shows "\<exists>ready transfer restored. v = provision_tree h src (join_two scratch work_dir_name) (join_two (join_two scratch work_dir_name) db_file_name) ready transfer restored"
proof -
  obtain a io1 where a: "check_engine h io = (a, io1)" by fastforce
  obtain b io2 where b: "prepare_work_dir h (join_two scratch work_dir_name) io1 = (b, io2)" by fastforce
  from assms a b show ?thesis
    by (cases a; cases b) (auto simp: sqlite_restore_def Let_def split: sum.splits prod.splits)
qed


lemma provision_was_checked_tree:
  assumes "sqlite_provision h C payload io = (Inr v, io')"
  shows "\<exists>src work db ready transfer restored. v = provision_tree h src work db ready transfer restored"
  using provision_runs [OF assms] restore_answer by blast


subsection \<open>Which member\<close>

text \<open>Two orders of the same shape: by time, then by name.\<close>

lemma less_bytes_trans: "less_bytes a b \<Longrightarrow> less_bytes b c \<Longrightarrow> less_bytes a c"
  by (rule bytord.trans)

lemma less_bytes_asym: "less_bytes a b \<Longrightarrow> \<not> less_bytes b a"
  using less_bytes_trans [of a b a] bytord.irrefl by auto

lemma beats_iff: "beats a b \<longleftrightarrow> cd_mtime b < cd_mtime a \<or> cd_mtime b = cd_mtime a \<and> less_bytes (cd_name b) (cd_name a)"
  by (auto simp: beats_def)

lemma precedes_iff: "precedes a b \<longleftrightarrow> cd_mtime a < cd_mtime b \<or> cd_mtime a = cd_mtime b \<and> less_bytes (cd_name a) (cd_name b)"
  by (auto simp: precedes_def)

definition ranking :: "(dir_candidate \<Rightarrow> dir_candidate \<Rightarrow> bool) \<Rightarrow> bool" where
  "ranking wins \<longleftrightarrow> (\<forall>a b c. wins a b \<longrightarrow> wins b c \<longrightarrow> wins a c) \<and> (\<forall>a b. wins a b \<longrightarrow> \<not> wins b a) \<and>
    (\<forall>a b. cd_name a \<noteq> cd_name b \<longrightarrow> wins a b \<or> wins b a)"

lemma ranking_beats: "ranking beats"
proof -
  have "beats a b \<or> beats b a" if "cd_name a \<noteq> cd_name b" for a b
    using that bytord.total [of "cd_name a" "cd_name b"] by (auto simp: beats_iff)
  moreover have "beats a c" if "beats a b" "beats b c" for a b c
    using that by (auto simp: beats_iff dest: less_bytes_trans)
  moreover have "\<not> beats b a" if "beats a b" for a b
    using that by (auto simp: beats_iff dest: less_bytes_asym)
  ultimately show ?thesis unfolding ranking_def by blast
qed

lemma ranking_precedes: "ranking precedes"
proof -
  have "precedes a b \<or> precedes b a" if "cd_name a \<noteq> cd_name b" for a b
    using that bytord.total [of "cd_name a" "cd_name b"] by (auto simp: precedes_iff)
  moreover have "precedes a c" if "precedes a b" "precedes b c" for a b c
    using that by (auto simp: precedes_iff dest: less_bytes_trans)
  moreover have "\<not> precedes b a" if "precedes a b" for a b
    using that by (auto simp: precedes_iff dest: less_bytes_asym)
  ultimately show ?thesis unfolding ranking_def by blast
qed

lemma best_of_wins:
  assumes "ranking wins" "distinct (map cd_name (best # cs))"
  shows "best_of wins best cs \<in> set (best # cs) \<and> (\<forall>c \<in> set (best # cs). c \<noteq> best_of wins best cs \<longrightarrow> wins (best_of wins best cs) c)"
  using assms(2)
proof (induction cs arbitrary: best)
  case (Cons c cs)
  define b where "b = (if wins c best then c else best)"
  define r where "r = best_of wins b cs"
  have e: "best_of wins best (c # cs) = r" by (simp add: r_def b_def)
  from Cons.prems have "distinct (map cd_name (b # cs))" and n: "cd_name c \<noteq> cd_name best" by (auto simp: b_def)
  from Cons.IH [OF this(1)] have ih: "r \<in> set (b # cs)" "\<forall>x \<in> set (b # cs). x \<noteq> r \<longrightarrow> wins r x" by (simp_all add: r_def)
  from assms(1) n have d: "\<not> wins c best \<Longrightarrow> wins best c" unfolding ranking_def by metis
  have t: "wins x y \<Longrightarrow> wins y z \<Longrightarrow> wins x z" for x y z using assms(1) unfolding ranking_def by metis
  have b: "b \<noteq> r \<Longrightarrow> wins r b" using ih(2) by simp
  have "wins r x" if "x \<noteq> r" "x = c \<or> x = best" for x
  proof (cases "x = b")
    case True
    with b that show ?thesis by simp
  next
    case False
    with that(2) d have "wins b x" by (auto simp: b_def split: if_splits)
    with t b show ?thesis by (cases "b = r") auto
  qed
  moreover have "r \<in> set (best # c # cs)" using ih(1) by (auto simp: b_def split: if_splits)
  ultimately show ?case unfolding e using ih(2) by simp
qed simp

definition candidates_in :: "bytes \<Rightarrow> (bytes \<Rightarrow> wire_error + bool) \<Rightarrow> dir_entry list \<Rightarrow> (bytes \<times> int) set" where
  "candidates_in dir candidate es = {(name, t). (name, True, Inr t) \<in> set es \<and> candidate (join_two dir name) = Inr True}"

lemma collect_candidates_Inr:
  assumes "collect_candidates dir candidate es = Inr (cs, n)"
  shows "cs = map (\<lambda>c. \<lparr> cd_path = join_two dir (cd_name c), cd_name = cd_name c, cd_mtime = cd_mtime c \<rparr>) cs \<and>
    (\<lambda>c. (cd_name c, cd_mtime c)) ` set cs = candidates_in dir candidate es \<and> (distinct (map fst es) \<longrightarrow> distinct (map cd_name cs)) \<and>
    cd_name ` set cs \<subseteq> fst ` set es"
  using assms
proof (induction es arbitrary: cs n)
  case (Cons e es)
  obtain name is_file info where e: "e = (name, is_file, info)" by (cases e) auto
  show ?case
  proof (cases "is_file \<and> candidate (join_two dir name) = Inr True")
    case True
    then obtain t ds m where t: "info = Inr t" "collect_candidates dir candidate es = Inr (ds, m)"
      "cs = \<lparr> cd_path = join_two dir name, cd_name = name, cd_mtime = t \<rparr> # ds"
      using Cons.prems by (auto simp: e map_sum_def split: sum.splits)
    from Cons.IH [OF t(2)] True t show ?thesis by (auto simp: e candidates_in_def)
  next
    case False
    then obtain m where t: "collect_candidates dir candidate es = Inr (cs, m)"
      using Cons.prems by (auto simp: e map_sum_def split: if_splits sum.splits bool.splits)
    have "candidates_in dir candidate (e # es) = candidates_in dir candidate es"
      using False by (auto simp: e candidates_in_def)
    with Cons.IH [OF t] show ?thesis by auto
  qed
qed (simp add: candidates_in_def)

text \<open>C28: The member of a directory that a policy chooses is the extreme candidate. Whatever the order in which the directory lists its entries, the SQLite
  adapter's choice is one of the regular files its predicate accepts; under \<^verbatim>\<open>newest\<close> every other candidate is older, or as old with a smaller name,
  under \<^verbatim>\<open>oldest\<close> every other candidate is younger, or as old with a larger name; under \<^verbatim>\<open>random\<close> it is a candidate still, given that the draw stays below its
  bound. So newest and oldest are functions of the set of candidates alone. Nothing is chosen only where there is no candidate.\<close>

theorem chosen_member_extreme:
  assumes "choose_where h dir policy candidate w = (Inr (best, skipped), w')" "ad_dir h dir w = DirEntries es" "distinct (map fst es)"
    and "\<And>n w. 0 < n \<Longrightarrow> fst (ad_random h n w) < n"
  shows "(best = [] \<and> candidates_in dir candidate es = {}) \<or>
    (\<exists>name t. (name, t) \<in> candidates_in dir candidate es \<and> best = join_two dir name \<and>
      (\<forall>(name', t') \<in> candidates_in dir candidate es - {(name, t)}.
         (policy = SelectNewest \<longrightarrow> t' < t \<or> t' = t \<and> less_bytes name' name) \<and>
         (policy = SelectOldest \<longrightarrow> t < t' \<or> t' = t \<and> less_bytes name name')))"
proof -
  from assms(1,2) obtain cs n where cs: "collect_candidates dir candidate es = Inr (cs, n)" by (auto simp: choose_where_def split: sum.splits)
  note k = collect_candidates_Inr [OF cs]
  show ?thesis
  proof (cases cs)
    case Nil
    with assms(1,2) cs k show ?thesis by (auto simp: choose_where_def)
  next
    case (Cons c ds)
    obtain p v where p: "pick h cs policy w = (p, v)" by fastforce
    with assms(1,2) cs Cons have best: "best = cd_path p" by (auto simp: choose_where_def)
    from k assms(3) Cons have "distinct (map cd_name (c # ds))" by simp
    note b = best_of_wins [OF ranking_beats this] best_of_wins [OF ranking_precedes this]
    have mem: "p \<in> set cs"
    proof (cases policy)
      case SelectRandom
      with p have "p = cs ! fst (ad_random h (length cs) w)" by (auto simp: pick_def split: prod.splits)
      moreover from Cons have "fst (ad_random h (length cs) w) < length cs" by (intro assms(4)) simp
      ultimately show ?thesis by (simp only: nth_mem)
    qed (use b p Cons in \<open>auto simp: pick_def\<close>)
    with k have path: "cd_path p = join_two dir (cd_name p)" by (metis (no_types, lifting) dir_candidate.select_convs(1) in_set_conv_nth nth_map length_map)
    have wins: "(policy = SelectNewest \<longrightarrow> beats p x) \<and> (policy = SelectOldest \<longrightarrow> precedes p x)" if "x \<in> set cs" "x \<noteq> p" for x
      using that b p Cons by (auto simp: pick_def)
    have img: "candidates_in dir candidate es = (\<lambda>c. (cd_name c, cd_mtime c)) ` set cs" using k by simp
    have "(policy = SelectNewest \<longrightarrow> t' < cd_mtime p \<or> t' = cd_mtime p \<and> less_bytes name' (cd_name p)) \<and>
        (policy = SelectOldest \<longrightarrow> cd_mtime p < t' \<or> t' = cd_mtime p \<and> less_bytes (cd_name p) name')"
      if "(name', t') \<in> candidates_in dir candidate es - {(cd_name p, cd_mtime p)}" for name' t'
    proof -
      from that obtain x where "x \<in> set cs" "name' = cd_name x" "t' = cd_mtime x" "x \<noteq> p" by (auto simp: img)
      with wins [of x] show ?thesis by (auto simp: beats_iff precedes_iff)
    qed
    moreover have "(cd_name p, cd_mtime p) \<in> candidates_in dir candidate es" using mem by (simp add: img)
    ultimately show ?thesis using best path by blast
  qed
qed

subsection \<open>The whole conversation\<close>

lemma step_talks: "step_of qs ok io io' \<Longrightarrow> \<exists>rs. talks io io' rs"
  by (auto simp: step_of_def)

lemma provision_talks: "sqlite_provision h C payload io = (r, io') \<Longrightarrow> \<exists>rs. talks io io' rs"
  using provision_runs [of h C payload io r io'] restore_step [OF _ scratch_nonempty] quiet_talks talks_refl step_talks by metis

lemma healthcheck_talks:
  assumes "sqlite_healthcheck h payload io = (r, io')"
  shows "\<exists>rs. talks io io' rs"
proof (cases "case unmarshal_health payload of None \<Rightarrow> [] | Some db \<Rightarrow> db")
  case Nil
  with assms show ?thesis by (auto simp: sqlite_healthcheck_def split: option.splits if_splits)
next
  case (Cons c t)
  then obtain db where db: "unmarshal_health payload = Some db" "db \<noteq> []" by (auto split: option.splits)
  obtain x io1 where x: "adapter_exec h (exec_argv [''sqlite3'', ''-batch'', ''-noheader'', db, ''SELECT count(*) FROM sqlite_schema;'']) io = (x, io1)" by fastforce
  from assms db x have "io' = io1" by (auto simp: sqlite_healthcheck_def split: sum.splits)
  with step_talks [OF exec_step [OF x]] show ?thesis by simp
qed

lemma probe_writable: "writable probe_payload" "jdepth probe_payload \<le> 4"
  by (simp_all add: probe_payload_def probe_source_def)

lemma provision_tree_writable: "(\<And>f. num_ok (ad_float h f)) \<Longrightarrow> writable (provision_tree h src work db a b c)" "jdepth (provision_tree h src work db a b c) = 2"
  by (simp_all add: provision_tree_def num_ok_show_int num_ok_zero)

lemma health_tree_writable: "(\<And>f. num_ok (ad_float h f)) \<Longrightarrow> writable (health_tree h x out err)" "jdepth (health_tree h x out err) = 1"
  by (simp_all add: health_tree_def)

lemma sane_call_id: "sane (call_id n) = call_id n"
proof (rule sane_ascii)
  have "list_all is_digit (show_nat n)" by (rule show_nat_digits)
  then show "list_all (\<lambda>c. code c < 128) (call_id n)" by (auto simp: call_id_def list_all_iff is_digit_def)
qed

definition echoes :: "bytes \<Rightarrow> envelope \<Rightarrow> bool" where
  "echoes rid e \<longleftrightarrow> ev_protocol e = protocol_floor \<and> ev_request_id e = sane rid"

definition numbered_call :: "nat \<Rightarrow> envelope \<Rightarrow> bool" where
  "numbered_call i e \<longleftrightarrow> ev_ok e = None \<and> (\<exists>c. ev_call e = Some c \<and> sc_call_id c = call_id (Suc i) \<and> proper_call c)"

lemma echoes_echo: "echoes rid (echo rid)" "echoes rid (e\<lparr> ev_call := c \<rparr>) = echoes rid e" "echoes rid (e\<lparr> ev_ok := b \<rparr>) = echoes rid e"
  "echoes rid (e\<lparr> ev_payload := v \<rparr>) = echoes rid e" "echoes rid (e\<lparr> ev_error := w \<rparr>) = echoes rid e"
  by (simp_all add: echoes_def echo_def spoken_version_def protocol_floor_def zero_envelope_def)

lemma calls_read_back:
  assumes "list_all proper_request rs"
  shows "\<exists>es. map unmarshal_envelope (call_lines rid n rs) = map Some es \<and> list_all (echoes rid) es \<and> list_all (\<lambda>(i, e). numbered_call i e) (enumerate n es)"
  using assms
proof (induction rs arbitrary: n)
  case (Cons r rs)
  then have r: "proper_request r" and rs: "list_all proper_request rs" by simp_all
  from request_read_back [OF r, of rid "call_id (Suc n)"] obtain c where
    c: "unmarshal_envelope (marshal (call_message rid (call_id (Suc n)) (request_verb r) (request_args r))) = Some (echo rid\<lparr> ev_call := Some c \<rparr>)"
    "sc_call_id c = call_id (Suc n)" "proper_call c" by (auto simp: sane_call_id)
  have "numbered_call n (echo rid\<lparr> ev_call := Some c \<rparr>)" using c(2,3) by (simp add: numbered_call_def echo_def zero_envelope_def)
  with Cons.IH [OF rs, of "Suc n"] c(1) show ?case
    by (elim exE) (rule_tac x = "echo rid\<lparr> ev_call := Some c \<rparr> # es" in exI, simp add: echoes_echo)
qed simp

definition final_envelope :: "envelope \<Rightarrow> bool" where
  "final_envelope e \<longleftrightarrow> ev_call e = None \<and> (ev_ok e = Some True \<and> ev_payload e \<noteq> None \<or> ev_ok e = Some False \<and> ev_error e \<noteq> None)"

lemma finish_read_back:
  assumes "(case r of Inl e \<Rightarrow> finish_error h e io | Inr v \<Rightarrow> finish_ok h v io) = (0, io')"
    and "\<And>v. r = Inr v \<Longrightarrow> writable v \<and> jdepth v < max_depth"
    and "\<And>d v. ad_detail h d = Some v \<Longrightarrow> writable v \<and> jdepth v + 2 \<le> max_depth"
  shows "\<exists>l e. ai_out io' = ai_out io @ [l] \<and> ai_request_id io' = ai_request_id io \<and> unmarshal_envelope l = Some e \<and>
    echoes (ai_request_id io) e \<and> final_envelope e"
proof (cases r)
  case (Inl e)
  with assms(1) have "ai_out io' = ai_out io @ [marshal (error_message (ai_request_id io) (error_tree h e))]" "ai_request_id io' = ai_request_id io"
    by (auto simp: finish_error_def exit_code_def write_message_def Let_def split: prod.splits if_splits)
  moreover have "unmarshal_envelope (marshal (error_message (ai_request_id io) (error_tree h e))) =
      Some (echo (ai_request_id io)\<lparr> ev_ok := Some False, ev_error := Some (error_seen h e) \<rparr>)"
    by (rule error_read_back [OF assms(3)])
  moreover have "final_envelope (echo (ai_request_id io)\<lparr> ev_ok := Some False, ev_error := Some (error_seen h e) \<rparr>)"
    by (simp add: final_envelope_def echo_def zero_envelope_def)
  ultimately show ?thesis by (simp add: echoes_echo)
next
  case (Inr v)
  with assms(1) have "ai_out io' = ai_out io @ [marshal (ok_message (ai_request_id io) v)]" "ai_request_id io' = ai_request_id io"
    by (auto simp: finish_ok_def exit_code_def write_message_def Let_def split: prod.splits if_splits)
  moreover have "unmarshal_envelope (marshal (ok_message (ai_request_id io) v)) =
      Some (echo (ai_request_id io)\<lparr> ev_ok := Some True, ev_payload := Some (map_json sane v) \<rparr>)"
    using assms(2) [OF Inr] by (intro ok_read_back) simp_all
  moreover have "final_envelope (echo (ai_request_id io)\<lparr> ev_ok := Some True, ev_payload := Some (map_json sane v) \<rparr>)"
    by (simp add: final_envelope_def echo_def zero_envelope_def)
  ultimately show ?thesis by (simp add: echoes_echo)
qed

lemma serve_op_talks:
  assumes "serve_op (sqlite_ops h C) b io = (r, io')" "\<And>f. num_ok (ad_float h f)"
  shows "(\<exists>rs. talks io io' rs) \<and> (\<forall>v. r = Inr v \<longrightarrow> writable v \<and> jdepth v < max_depth)"
proof -
  consider "ib_op b = ''probe''" | "ib_op b = ''provision''" | "ib_op b = ''healthcheck''" | "ib_op b \<notin> {''probe'', ''provision'', ''healthcheck''}" by blast
  then show ?thesis
  proof cases
    case 1
    with assms(1) probe_writable show ?thesis by (auto simp: serve_op_def sqlite_ops_def max_depth_def)
  next
    case 2
    with assms(1) have p: "sqlite_provision h C (ib_payload b) io = (r, io')" by (simp add: serve_op_def sqlite_ops_def)
    have "writable v \<and> jdepth v < max_depth" if "r = Inr v" for v
      using provision_was_checked_tree [OF p [unfolded that]]
      by (elim exE) (simp add: provision_tree_writable(1) [OF assms(2)] provision_tree_writable(2) max_depth_def)
    with provision_talks [OF p] show ?thesis by blast
  next
    case 3
    with assms(1) have p: "sqlite_healthcheck h (ib_payload b) io = (r, io')" by (simp add: serve_op_def sqlite_ops_def)
    have "writable v \<and> jdepth v < max_depth" if "r = Inr v" for v
    proof -
      from p that obtain x out err where "v = health_tree h x out err"
        by (auto simp: sqlite_healthcheck_def split: option.splits prod.splits sum.splits if_splits)
      then show ?thesis by (simp add: health_tree_writable(1) [OF assms(2)] health_tree_writable(2) max_depth_def)
    qed
    with healthcheck_talks [OF p] show ?thesis by blast
  next
    case 4
    with assms(1) show ?thesis by (auto simp: serve_op_def max_depth_def split: if_splits)
  qed
qed

text \<open>C25: The SQLite adapter speaks the protocol, as the core reads it. Take any run of the adapter that exits with 0, whatever its request, its files, the replies
  to its calls and the signal did. Then the first line it read decodes to a request, and the core's own decoder reads every line it wrote. All carry the protocol's
  version and the id of that request (as
  valid UTF-8, which every id of the core is). All but the last are calls without a verdict, numbered from one, whose verb and arguments the
  core's decoder accepts; the last is no call but the final response, with a payload if it says ok and with an error if it does not. The hypotheses:
  what encoding/json prints of a number is a number, and what it prints of an error's detail is JSON within its own depth.\<close>

theorem adapter_speaks_protocol:
  assumes "sqlite_run h C io = (0, io')" "ai_out io = []" "\<And>f. num_ok (ad_float h f)"
    and "\<And>d v. ad_detail h d = Some v \<Longrightarrow> writable v \<and> jdepth v + 2 \<le> max_depth"
  shows "\<exists>line w b calls final. ad_scan h (ai_world io) = (Some line, w) \<and> unmarshal_inbound line = Some b \<and>
    map unmarshal_envelope (ai_out io') = map Some (calls @ [final]) \<and> list_all (echoes (ib_request_id b)) (calls @ [final]) \<and>
    list_all (\<lambda>(i, e). numbered_call i e) (enumerate 0 calls) \<and> final_envelope final"
proof -
  obtain a io1 where a: "accept_request h io = (a, io1)" by fastforce
  have one: "ai_out io1 = []" "\<forall>b. a = AcceptedRequest b \<longrightarrow> ai_calls io1 = 0"
    using a assms(2) by (auto simp: accept_request_def Let_def split: prod.splits option.splits if_splits)
  have "\<not> (\<exists>e. a = UnusableRequest e)" using assms(1) a by (auto simp: sqlite_run_def serve_def)
  with a obtain line w b where req: "ad_scan h (ai_world io) = (Some line, w)" "unmarshal_inbound line = Some b" "ai_request_id io1 = ib_request_id b"
    by (auto simp: accept_request_def Let_def split: prod.splits option.splits if_splits)
  consider (refused) e where "a = RefusedRequest e" "finish_error h e io1 = (0, io')"
    | (served) c r io2 where "a = AcceptedRequest c" "serve_op (sqlite_ops h C) c io1 = (r, io2)"
      "(case r of Inl e \<Rightarrow> finish_error h e io2 | Inr v \<Rightarrow> finish_ok h v io2) = (0, io')"
    using assms(1) a by (cases a) (auto simp: sqlite_run_def serve_def split: prod.splits sum.splits)
  then show ?thesis
  proof cases
    case refused
    with finish_read_back [where r = "Inl e" and h = h and io = io1 and io' = io'] assms(4) one obtain l f where "ai_out io' = [l]" "unmarshal_envelope l = Some f"
      "echoes (ai_request_id io1) f" "final_envelope f" by auto
    with req show ?thesis by (intro exI [of _ line] exI [of _ w] exI [of _ b] exI [of _ "[]"] exI [of _ f]) simp
  next
    case served
    from serve_op_talks [OF served(2) assms(3)] obtain rs where rs: "talks io1 io2 rs" "\<forall>v. r = Inr v \<longrightarrow> writable v \<and> jdepth v < max_depth" by blast
    from finish_read_back [OF served(3)] rs(2) assms(4) obtain l f where f: "ai_out io' = ai_out io2 @ [l]"
      "unmarshal_envelope l = Some f" "echoes (ai_request_id io2) f" "final_envelope f" by blast
    from rs(1) one served(1) have t: "ai_out io2 = call_lines (ai_request_id io1) 0 rs" "ai_request_id io2 = ai_request_id io1" "list_all proper_request rs"
      by (simp_all add: talks_def)
    from calls_read_back [OF t(3), of "ai_request_id io1" 0] obtain es where "map unmarshal_envelope (ai_out io2) = map Some es"
      "list_all (echoes (ai_request_id io1)) es" "list_all (\<lambda>(i, e). numbered_call i e) (enumerate 0 es)" unfolding t(1) by blast
    with f t(2) req show ?thesis
      by (intro exI [of _ line] exI [of _ w] exI [of _ b] exI [of _ es] exI [of _ f]) simp
  qed
qed

end
