(* ===== verification/SqliteWitnesses.thy ===== *)
theory SqliteWitnesses
  imports SqliteProps Sample
begin

text \<open>
  The SQLite adapter on a host with one file, talking to a core that confirms every call: the properties at that run. The
  world is the list of lines still to be read.
\<close>

definition calm_env :: "bytes list adapter_env" where
  "calm_env = \<lparr> ad_scan = (\<lambda>w. case w of [] \<Rightarrow> (None, []) | l # w \<Rightarrow> (Some l, w)), ad_write = (\<lambda>l w. (None, w)), ad_cancelled = (\<lambda>w. False),
     ad_stat = (\<lambda>p w. if p = ''/b'' then StatInfo False 3 0 else StatMissing),
     ad_file = (\<lambda>p w. \<lparr> hf_open = None, hf_bytes = ''abc'', hf_fault = None, hf_stat = None, hf_close = None \<rparr>),
     ad_dir = (\<lambda>p w. DirEntries [(''a'', True, Inr 1), (''b'', True, Inr 2)]), ad_since = (\<lambda>t w. 0), ad_wait = (\<lambda>n w. (False, w)),
     ad_random = (\<lambda>n w. (0, w)), ad_detail = (\<lambda>d. None), ad_float = (\<lambda>f. ''0'') \<rparr>"

definition reply_doc :: "bytes \<Rightarrow> json" where
  "reply_doc cid = JObj [(''sandbox_result'', JObj [(''call_id'', JStr cid), (''ok'', JBool True), (''value'', JObj [])])]"

definition reply_line :: "bytes \<Rightarrow> bytes" where
  "reply_line cid = render quote_runes (reply_doc cid)"

lemma rendered_tree:
  assumes "json_all valid_string num_ok v" "jdepth v \<le> max_depth"
  shows "unmarshal_tree (render quote_runes v) = Some v"
  using cq.parse_first_render [OF assms] by (simp add: unmarshal_tree_def skip_ws_def)

lemma call_id_valid: "valid_string (call_id n)"
  using sane_valid [of "call_id n"] by (simp add: sane_call_id)

lemmas inbound_names_defs = inbound_names_def reply_names_def inbound_shape_def reply_shape_def error_shape_def field_name_def details_fit_def members_fit_def

lemma reply_decodes:
  "unmarshal_inbound (reply_line (call_id n)) =
    Some (zero_inbound\<lparr> ib_result := Some \<lparr> vy_call_id = call_id n, vy_ok = True, vy_value = Some (JObj []), vy_error = None \<rparr> \<rparr>)"
proof -
  have "unmarshal_tree (reply_line (call_id n)) = Some (reply_doc (call_id n))"
    unfolding reply_line_def by (rule rendered_tree) (simp_all add: reply_doc_def ascii_valid call_id_valid max_depth_def)
  then show ?thesis
    by (simp add: unmarshal_inbound_def reply_doc_def inbound_names_defs unmarshal_struct_def put_inbound_def put_reply_def set_struct_def
        set_str_def set_bool_def zero_inbound_def fold_name_ascii fold_rune_def)
qed

definition confirmed_exec :: exec_value where
  "confirmed_exec = \<lparr> xv_exit = 0, xv_stdout = [], xv_stderr = [], xv_truncated = False, xv_duration = Finite 0 0 \<rparr>"

text \<open>A call in this world is confirmed, and one line is used up.\<close>

definition waiting :: "nat \<Rightarrow> bytes list \<Rightarrow> bytes list adapter_io \<Rightarrow> bool" where
  "waiting n w io \<longleftrightarrow> ai_calls io = n \<and> ai_world io = w"

lemma calm_call:
  assumes "waiting n (reply_line (call_id (Suc n)) # w) io"
  shows "\<exists>io'. adapter_call calm_env verb args io = (Inr (Some (JObj [])), io') \<and> waiting (Suc n) w io' \<and> ai_out io' \<noteq> []"
  using assms by (simp add: waiting_def adapter_call_def calm_env_def write_message_def Let_def reply_decodes)

lemma b64_empty: "b64_decode [] = Some []"
  by (simp add: b64_decode_def)

lemma calm_exec:
  assumes "waiting n (reply_line (call_id (Suc n)) # w) io"
  shows "\<exists>io'. adapter_exec calm_env q io = (Inr (confirmed_exec, [], []), io') \<and> waiting (Suc n) w io' \<and> ai_out io' \<noteq> []"
proof -
  from calm_call [OF assms] obtain io' where
    c: "adapter_call calm_env ''exec'' (exec_tree q) io = (Inr (Some (JObj [])), io')" "waiting (Suc n) w io'" "ai_out io' \<noteq> []" by blast
  have "unmarshal_exec_value (Some (JObj [])) = Some confirmed_exec"
    by (simp add: unmarshal_exec_value_def members_fit_def unmarshal_struct_def exec_value_shape_def confirmed_exec_def)
  with c show ?thesis by (simp add: adapter_exec_def confirmed_exec_def b64_empty)
qed

lemma calm_put:
  assumes "waiting n (reply_line (call_id (Suc n)) # w) io"
  shows "\<exists>io'. adapter_put_file calm_env s d m io = (Inr \<lparr> pv_bytes = 0, pv_duration = Finite 0 0 \<rparr>, io') \<and> waiting (Suc n) w io' \<and> ai_out io' \<noteq> []"
proof -
  from calm_call [OF assms] obtain io' where
    c: "adapter_call calm_env ''put_file'' (put_file_tree s d m) io = (Inr (Some (JObj [])), io')" "waiting (Suc n) w io'" "ai_out io' \<noteq> []" by blast
  have "unmarshal_put_value (Some (JObj [])) = Some \<lparr> pv_bytes = 0, pv_duration = Finite 0 0 \<rparr>"
    by (simp add: unmarshal_put_value_def members_fit_def unmarshal_struct_def)
  with c show ?thesis by (simp add: adapter_put_file_def)
qed

definition sample_request :: json where
  "sample_request = JObj [(''source'', JObj [(''kind'', JStr ''sqlite_db''), (''path'', JStr ''/b'')])]"

definition four_replies :: "bytes list" where
  "four_replies = map (\<lambda>n. reply_line (call_id n)) [1, 2, 3, 4]"

lemma calm_resolve:
  "resolve_source calm_env sample_crypto ''sqlite_db'' ''/b'' [] io =
    (Inr \<lparr> rv_path = ''/b'', rv_checksum = ''sha256:'' @ hex_encode (sha256 sample_crypto ''abc''), rv_size = 3, rv_sql = False \<rparr>, io)"
  by (simp add: resolve_source_def backup_selection_def param_of_def refuse_directory_def calm_env_def resolve_database_def stat_and_head_def read_head_def
      closing_def reading_fails_def head_max_def vetted_def refuse_gzip_def is_gzip_def gzip_magic_def refuse_dump_text_def has_dump_signature_def
      dump_signature_def refuse_empty_database_def refuse_live_copy_def live_siblings_def live_sibling_def file_checksum_def Let_def)

lemma sample_request_decodes:
  "unmarshal_request (Some sample_request) = Some \<lparr> sq_kind = ''sqlite_db'', sq_path = ''/b'', sq_params = [], sq_scratch = [], sq_pitr = False \<rparr>"
  by (simp add: unmarshal_request_def sample_request_def unmarshal_struct_def request_shape_def put_request_def field_name_def set_members_def set_str_def)

lemma calm_provision:
  assumes "waiting 0 four_replies io"
  shows "\<exists>v io'. sqlite_provision calm_env sample_crypto (Some sample_request) io = (Inr v, io') \<and> ai_out io' \<noteq> []"
proof -
  let ?src = "\<lparr> rv_path = ''/b'', rv_checksum = ''sha256:'' @ hex_encode (sha256 sample_crypto ''abc''), rv_size = 3, rv_sql = False \<rparr>"
  let ?work = "join_two ''/tmp'' work_dir_name"
  from assms have w: "waiting 0 (reply_line (call_id (Suc 0)) # map (\<lambda>n. reply_line (call_id n)) [2, 3, 4]) io" by (simp add: four_replies_def)
  from calm_exec [OF w, of "exec_argv [''sh'', ''-c'', ''exec sqlite3 -version'']"] obtain io1 where
    1: "adapter_exec calm_env (exec_argv [''sh'', ''-c'', ''exec sqlite3 -version'']) io = (Inr (confirmed_exec, [], []), io1)"
    "waiting (Suc 0) (reply_line (call_id (Suc (Suc 0))) # map (\<lambda>n. reply_line (call_id n)) [3, 4]) io1" by (auto simp: numeral_eq_Suc)
  from calm_exec [OF 1(2), of "exec_argv [''mkdir'', ''-p'', ?work]"] obtain io2 where
    2: "adapter_exec calm_env (exec_argv [''mkdir'', ''-p'', ?work]) io1 = (Inr (confirmed_exec, [], []), io2)"
    "waiting (Suc (Suc 0)) (reply_line (call_id (Suc (Suc (Suc 0)))) # map (\<lambda>n. reply_line (call_id n)) [4]) io2" by (auto simp: numeral_eq_Suc)
  from calm_put [OF 2(2), of "''/b''" "join_two ?work db_file_name" "''0600''"] obtain io3 where
    3: "adapter_put_file calm_env ''/b'' (join_two ?work db_file_name) ''0600'' io2 = (Inr \<lparr> pv_bytes = 0, pv_duration = Finite 0 0 \<rparr>, io3)"
    "waiting (Suc (Suc (Suc 0))) (reply_line (call_id (Suc (Suc (Suc (Suc 0))))) # []) io3" by (auto simp: numeral_eq_Suc)
  from calm_exec [OF 3(2), of "exec_argv [''sh'', ''-c'', integrity_script, ''sh'', join_two ?work db_file_name]"] obtain io4 where
    4: "adapter_exec calm_env (exec_argv [''sh'', ''-c'', integrity_script, ''sh'', join_two ?work db_file_name]) io3 = (Inr (confirmed_exec, [], []), io4)"
    "ai_out io4 \<noteq> []" by blast
  have "\<exists>v. sqlite_restore calm_env ''/tmp'' ?src io = (Inr v, io4)"
    using 1(1) 2(1) 3(1) 4(1) by (simp add: sqlite_restore_def check_engine_def prepare_work_dir_def place_database_def Let_def confirmed_exec_def)
  with 4(2) show ?thesis
    by (auto simp: sqlite_provision_def sample_request_decodes reject_backup_timezone_def param_of_def calm_resolve)
qed

definition provision_io :: "bytes list adapter_io" where
  "provision_io = \<lparr> ai_world = four_replies, ai_request_id = ''r-00'', ai_calls = 0, ai_out = [], ai_in = [] \<rparr>"

lemma provision_io_run:
  "\<exists>v io'. sqlite_provision calm_env sample_crypto (Some sample_request) provision_io = (Inr v, io') \<and> ai_out io' \<noteq> []"
  by (rule calm_provision) (simp add: waiting_def provision_io_def)



text \<open>The same provision as a whole run, from the request's line on.\<close>

definition request_doc :: json where
  "request_doc = JObj [(''protocol'', JStr ''probavi-adapter/0''), (''request_id'', JStr ''r-00''), (''op'', JStr ''provision''), (''payload'', sample_request)]"

definition request_line :: bytes where
  "request_line = render quote_runes request_doc"

lemma request_decodes:
  "unmarshal_inbound request_line = Some (zero_inbound\<lparr> ib_protocol := spoken_version, ib_request_id := ''r-00'', ib_op := ''provision'', ib_payload := Some sample_request \<rparr>)"
proof -
  have "unmarshal_tree request_line = Some request_doc"
    unfolding request_line_def by (rule rendered_tree) (simp_all add: request_doc_def sample_request_def ascii_valid max_depth_def)
  then show ?thesis
    by (simp add: unmarshal_inbound_def request_doc_def inbound_names_defs unmarshal_struct_def put_inbound_def set_str_def zero_inbound_def
        spoken_version_def fold_name_ascii fold_rune_def)
qed

definition fresh_io :: "bytes list adapter_io" where
  "fresh_io = \<lparr> ai_world = request_line # four_replies, ai_request_id = [], ai_calls = 0, ai_out = [], ai_in = [] \<rparr>"

lemma calm_run: "\<exists>io'. sqlite_run calm_env sample_crypto fresh_io = (0, io') \<and> ai_out io' \<noteq> []"
proof -
  let ?io = "provision_io"
  have a: "accept_request calm_env fresh_io =
      (AcceptedRequest (zero_inbound\<lparr> ib_protocol := spoken_version, ib_request_id := ''r-00'', ib_op := ''provision'', ib_payload := Some sample_request \<rparr>), ?io)"
    by (simp add: accept_request_def fresh_io_def calm_env_def request_decodes provision_io_def zero_inbound_def)
  from provision_io_run obtain v io' where "sqlite_provision calm_env sample_crypto (Some sample_request) ?io = (Inr v, io')" by blast
  with a have "sqlite_run calm_env sample_crypto fresh_io = finish_ok calm_env v io'"
    by (simp add: sqlite_run_def serve_def serve_op_def sqlite_ops_def zero_inbound_def)
  then show ?thesis by (simp add: finish_ok_def exit_code_def write_message_def calm_env_def Let_def)
qed

theorem adapter_speaks_protocol_witness:
  "\<exists>io' calls final. sqlite_run calm_env sample_crypto fresh_io = (0, io') \<and> map unmarshal_envelope (ai_out io') = map Some (calls @ [final]) \<and>
    list_all (echoes ''r-00'') (calls @ [final]) \<and> final_envelope final"
proof -
  from calm_run obtain io' where r: "sqlite_run calm_env sample_crypto fresh_io = (0, io')" by blast
  have "\<exists>line w b calls final. ad_scan calm_env (ai_world fresh_io) = (Some line, w) \<and> unmarshal_inbound line = Some b \<and>
      map unmarshal_envelope (ai_out io') = map Some (calls @ [final]) \<and> list_all (echoes (ib_request_id b)) (calls @ [final]) \<and>
      list_all (\<lambda>(i, e). numbered_call i e) (enumerate 0 calls) \<and> final_envelope final"
    by (rule adapter_speaks_protocol [OF r]) (simp_all add: fresh_io_def calm_env_def num_ok_zero)
  then obtain line w b calls final where b: "ad_scan calm_env (ai_world fresh_io) = (Some line, w)" "unmarshal_inbound line = Some b"
    and f: "map unmarshal_envelope (ai_out io') = map Some (calls @ [final])" "list_all (echoes (ib_request_id b)) (calls @ [final])" "final_envelope final"
    by blast
  from b(1) have "line = request_line" by (simp add: calm_env_def fresh_io_def)
  with b(2) request_decodes have "ib_request_id b = ''r-00''" by auto
  with r f show ?thesis by metis
qed

theorem chosen_member_extreme_witness:
  "fst (choose_where calm_env ''/d'' SelectNewest (\<lambda>p. Inr True) []) = Inr (join_two ''/d'' ''b'', 0) \<and>
    (\<exists>name t. (name, t) \<in> candidates_in ''/d'' (\<lambda>p. Inr True) [(''a'', True, Inr 1), (''b'', True, Inr 2)] \<and> join_two ''/d'' ''b'' = join_two ''/d'' name)"
proof -
  have r: "choose_where calm_env ''/d'' SelectNewest (\<lambda>p. Inr True) [] = (Inr (join_two ''/d'' ''b'', 0), [])"
    by (simp add: choose_where_def calm_env_def pick_def beats_def)
  have "join_two ''/d'' ''b'' \<noteq> []" by (rule join_two_nonempty) simp
  with chosen_member_extreme [OF r, of "[(''a'', True, Inr 1), (''b'', True, Inr 2)]"] r show ?thesis
    by (auto simp: calm_env_def)
qed

end
