(* ===== verification/EvidenceFiles.thy ===== *)
theory EvidenceFiles
  imports Store GoPath GoErrors
begin

text \<open>
  The files internal/evidence makes and gives up: generating a key pair (\<^verbatim>\<open>GenerateKeyPair\<close> and \<^verbatim>\<open>writeExclusive\<close> of
  keys.go) and closing the store (\<^verbatim>\<open>Store.Close\<close>). The file system answers from a world and what is asked of it is kept in
  order; \<open>SyncName\<close> is \<^verbatim>\<open>syncDir\<close> on the file's directory, which \<open>Store\<close> models. The random seed is a parameter.
\<close>

subsection \<open>Closing the store\<close>

text \<open>The errors of closing the log and the lock; both are closed.\<close>

definition close_store :: "bytes option \<Rightarrow> bytes option \<Rightarrow> bytes option" where
  "close_store log_error lock_error = map_option (\<lambda>e. ''close evidence store: '' @ e) (if log_error = None then lock_error else log_error)"

subsection \<open>A file that must not exist yet\<close>

datatype key_op = CreateNew bytes nat | WriteText bytes | SyncText | CloseText | SyncName bytes | RemoveName bytes

record 'w key_io =
  ki_world :: 'w
  ki_ops :: "key_op list"

definition key_do :: "(key_op \<Rightarrow> 'w \<Rightarrow> bytes option \<times> 'w) \<Rightarrow> key_op \<Rightarrow> 'w key_io \<Rightarrow> bytes option \<times> 'w key_io" where
  "key_do fs op io = (case fs op (ki_world io) of (e, w) \<Rightarrow> (e, io\<lparr> ki_world := w, ki_ops := ki_ops io @ [op] \<rparr>))"

text \<open>\<^verbatim>\<open>errors.Join\<close>: the errors there are, one to a line.\<close>

definition join_errors :: "bytes option list \<Rightarrow> bytes option" where
  "join_errors es = (case concat (map (\<lambda>e. case e of None \<Rightarrow> [] | Some t \<Rightarrow> [t]) es) of [] \<Rightarrow> None | ts \<Rightarrow> Some (join_with [newline] ts))"

definition write_exclusive :: "(key_op \<Rightarrow> 'w \<Rightarrow> bytes option \<times> 'w) \<Rightarrow> bytes \<Rightarrow> bytes \<Rightarrow> nat \<Rightarrow> 'w key_io \<Rightarrow> bytes option \<times> 'w key_io" where
  "write_exclusive fs path content mode io =
    (case key_do fs (CreateNew (clean_path path) mode) io of
       (Some e, io) \<Rightarrow> (Some (''create '' @ path @ '': '' @ e), io)
     | (None, io) \<Rightarrow>
       (case (case key_do fs (WriteText content) io of (Some e, io) \<Rightarrow> (Some e, io) | (None, io) \<Rightarrow> key_do fs SyncText io) of
          (werr, io) \<Rightarrow>
       (case key_do fs CloseText io of
          (cerr, io) \<Rightarrow>
          if werr \<noteq> None then
            (case key_do fs (RemoveName path) io of (rerr, io) \<Rightarrow> (join_errors [map_option (\<lambda>e. ''write '' @ path @ '': '' @ e) werr, cerr, rerr], io))
          else if cerr \<noteq> None then
            (case key_do fs (RemoveName path) io of (rerr, io) \<Rightarrow> (join_errors [map_option (\<lambda>e. ''close '' @ path @ '': '' @ e) cerr, rerr], io))
          else (case key_do fs (SyncName path) io of
             (None, io) \<Rightarrow> (None, io)
           | (Some e, io) \<Rightarrow> (case key_do fs (RemoveName path) io of (rerr, io) \<Rightarrow> (join_errors [Some e, rerr], io))))))"

text \<open>The modes 0600 and 0644.\<close>

definition private_mode :: nat where "private_mode = 384"
definition public_mode :: nat where "public_mode = 420"

definition key_text :: "bytes \<Rightarrow> bytes" where "key_text k = hex_encode k @ [newline]"

text \<open>The random source answers with a seed or an error; the answer is the key's id.\<close>

definition generate_key_pair :: "crypto \<Rightarrow> (key_op \<Rightarrow> 'w \<Rightarrow> bytes option \<times> 'w) \<Rightarrow> bytes + bytes \<Rightarrow> bytes \<Rightarrow> bytes \<Rightarrow> 'w key_io \<Rightarrow>
    (bytes + bytes) \<times> 'w key_io" where
  "generate_key_pair C fs random priv_path pub_path io = (case random of
     Inl e \<Rightarrow> (Inl (''generate seed: '' @ e), io)
   | Inr s \<Rightarrow>
     (case write_exclusive fs priv_path (key_text s) private_mode io of
        (Some e, io) \<Rightarrow> (Inl e, io)
      | (None, io) \<Rightarrow>
        (case write_exclusive fs pub_path (key_text (ed_public C s)) public_mode io of
           (None, io) \<Rightarrow> (Inr (key_id (new_signer C s)), io)
         | (Some e, io) \<Rightarrow> (case key_do fs (RemoveName priv_path) io of
             (rerr, io) \<Rightarrow> (Inl (the (join_errors [Some e, rerr])), io)))))"

subsection \<open>What a generated pair is\<close>

lemma hex_no_upper: "c \<in> set (hex_encode s) \<Longrightarrow> \<not> is_upper c"
  using hex_encode_lower [of s] by (auto simp: list_all_iff is_lower_hex_def is_upper_def)

lemma key_text_decodes: "length k = n \<Longrightarrow> decode_key_hex (key_text k) n = Some k"
  using hexc.dec_enc [of k] by (auto dest: hex_no_upper simp: decode_key_hex_def trim_newline_def key_text_def Let_def)

text \<open>Both files of a pair load, as the signer and the key that were made.\<close>

theorem generated_pair_loads:
  assumes "length s = 32" "length (ed_public C s) = 32"
  shows "load_signer C (Some \<lparr> regular = True, perm = private_mode, contents = key_text s \<rparr>) = Inr (new_signer C s) \<and>
    load_public_key (Some \<lparr> regular = True, perm = public_mode, contents = key_text (ed_public C s) \<rparr>) = Inr (ed_public C s)"
proof -
  have "length (hex_encode s) = 2 * length s" for s
    by (simp add: hex_encode_def length_concat comp_def sum_list_triv)
  with assms(1) have "take max_key_file_bytes (key_text s) = key_text s" by (simp add: key_text_def max_key_file_bytes_def)
  with key_text_decodes [OF assms(1)] key_text_decodes [OF assms(2)] show ?thesis
    by (simp add: load_signer_def load_public_key_def private_mode_def)
qed

definition pair_ops :: "bytes \<Rightarrow> bytes \<Rightarrow> nat \<Rightarrow> key_op list" where
  "pair_ops path content mode = [CreateNew (clean_path path) mode, WriteText content, SyncText, CloseText, SyncName path]"

lemma write_exclusive_ops:
  assumes "write_exclusive fs path content mode io = (r, io')"
  shows "if r = None then ki_ops io' = ki_ops io @ pair_ops path content mode
    else ki_ops io' = ki_ops io @ [CreateNew (clean_path path) mode] \<or> (\<exists>ops. ki_ops io' = ki_ops io @ ops @ [RemoveName path])"
  using assms
  by (auto simp: write_exclusive_def key_do_def pair_ops_def join_errors_def split: prod.splits option.splits if_splits)

text \<open>
  A pair is made whole and durable, or given up: a failure that follows the creation of the private key ends with its removal, and
  no file that was there is written to, for both are created exclusively.
\<close>

theorem half_pair_removed:
  assumes "generate_key_pair C fs random priv_path pub_path io = (r, io')"
  shows "case r of
      Inr kid \<Rightarrow> \<exists>s. random = Inr s \<and> kid = key_id (new_signer C s) \<and>
        ki_ops io' = ki_ops io @ pair_ops priv_path (key_text s) private_mode @ pair_ops pub_path (key_text (ed_public C s)) public_mode
    | Inl e \<Rightarrow> ki_ops io' = ki_ops io \<or> ki_ops io' = ki_ops io @ [CreateNew (clean_path priv_path) private_mode] \<or>
        (\<exists>ops. ki_ops io' = ki_ops io @ ops @ [RemoveName priv_path])"
proof (cases random)
  case (Inl e)
  with assms show ?thesis by (auto simp: generate_key_pair_def)
next
  case (Inr s)
  obtain a io1 where a: "write_exclusive fs priv_path (key_text s) private_mode io = (a, io1)" by fastforce
  obtain b io2 where b: "write_exclusive fs pub_path (key_text (ed_public C s)) public_mode io1 = (b, io2)" by fastforce
  note ops = write_exclusive_ops [OF a] write_exclusive_ops [OF b]
  show ?thesis
  proof (cases a)
    case (Some e)
    with assms Inr a have "r = Inl e" "io' = io1" by (simp_all add: generate_key_pair_def)
    with ops(1) Some show ?thesis by auto
  next
    case None
    show ?thesis
    proof (cases b)
      case None
      with assms Inr a b \<open>a = None\<close> have "r = Inr (key_id (new_signer C s))" "io' = io2" by (simp_all add: generate_key_pair_def)
      with ops \<open>a = None\<close> None Inr show ?thesis by simp
    next
      case (Some e)
      with assms Inr a b None obtain d where "r = Inl d" "ki_ops io' = ki_ops io2 @ [RemoveName priv_path]"
        by (auto simp: generate_key_pair_def key_do_def split: prod.splits)
      with ops None Some show ?thesis by auto
    qed
  qed
qed

end
