(* ===== verification/GameDayLoad.thy ===== *)
theory GameDayLoad
  imports GameDayProps DrillConfig GoPath
begin

text \<open>
  \<^verbatim>\<open>LoadGameDay\<close> of internal/config/gameday.go: the file, its validation, every member's own configuration, and the rule that
  members that may run at once do not share an evidence log. Reading a file, the YAML decoder and loading a drill's
  configuration (\<open>load_config\<close>, with its own parameters) are parameters; \<open>cwd\<close> is the working directory, if it can be told.
\<close>

datatype member_problem = MemberConfig nat bytes load_error | SharedEvidenceLog bytes bytes bytes int

datatype gameday_error = ReadGameDay bytes | GameDayEmpty bytes | ParseGameDay bytes bytes
  | InvalidGameDay bytes "gd_problem list" | InvalidMembers bytes "member_problem list"

text \<open>\<^verbatim>\<open>filepath.Dir\<close>, \<^verbatim>\<open>filepath.IsAbs\<close>, \<^verbatim>\<open>filepath.Join\<close> of a directory, \<^verbatim>\<open>filepath.Abs\<close>.\<close>

definition parent_of :: "bytes \<Rightarrow> bytes" where
  "parent_of p = clean_path (rev (dropWhile (\<lambda>c. c \<noteq> c_slash) (rev p)))"

definition resolve_against :: "bytes \<Rightarrow> bytes \<Rightarrow> bytes" where
  "resolve_against base p = (if rooted_path p then p else clean_path (base @ c_slash # p))"

definition evidence_log_key :: "bytes option \<Rightarrow> bytes \<Rightarrow> bytes" where
  "evidence_log_key cwd p = (case cwd of None \<Rightarrow> clean_path p
     | Some d \<Rightarrow> if rooted_path p then clean_path p else clean_path (d @ c_slash # p))"

fun load_members :: "bytes option \<Rightarrow> (bytes \<Rightarrow> load_error + drill_config) \<Rightarrow> int \<Rightarrow> int \<Rightarrow> bytes \<Rightarrow> nat \<Rightarrow> gd_member list \<Rightarrow> (bytes \<rightharpoonup> bytes) \<Rightarrow>
    gd_member list \<times> member_problem list" where
  "load_members cwd load slots declared base i [] owner = ([], [])"
| "load_members cwd load slots declared base i (m # ms) owner =
    (let m = m\<lparr> gm_config := resolve_against base (gm_config m) \<rparr> in
     case load (gm_config m) of
       Inl e \<Rightarrow> (case load_members cwd load slots declared base (Suc i) ms owner of (ms, ps) \<Rightarrow> (m # ms, MemberConfig i (gm_name m) e # ps))
     | Inr cfg \<Rightarrow>
       let path = ec_path (dc_evidence cfg); key = evidence_log_key cwd path in
       if slots \<le> 1 then (case load_members cwd load slots declared base (Suc i) ms owner of (ms, ps) \<Rightarrow> (m # ms, ps))
       else (case owner key of
          Some first \<Rightarrow> (case load_members cwd load slots declared base (Suc i) ms owner of
            (ms, ps) \<Rightarrow> (m # ms, SharedEvidenceLog first (gm_name m) path declared # ps))
        | None \<Rightarrow> (case load_members cwd load slots declared base (Suc i) ms (owner(key \<mapsto> gm_name m)) of (ms, ps) \<Rightarrow> (m # ms, ps))))"

definition load_gameday :: "crypto \<Rightarrow> (bytes \<Rightarrow> gameday yaml_answer) \<Rightarrow> (bytes \<Rightarrow> bytes + bytes) \<Rightarrow> bytes option \<Rightarrow> (bytes \<Rightarrow> load_error + drill_config) \<Rightarrow>
    bytes \<Rightarrow> gameday_error + gameday" where
  "load_gameday C yaml read cwd load path =
    (case read (clean_path path) of Inl e \<Rightarrow> Inl (ReadGameDay e)
     | Inr raw \<Rightarrow>
       (case decode_yaml (yaml raw) of
          YamlEof \<Rightarrow> Inl (GameDayEmpty path)
        | YamlError e \<Rightarrow> Inl (ParseGameDay path e)
        | YamlPanic e \<Rightarrow> Inl (ParseGameDay path e)
        | YamlValue g \<Rightarrow>
          let g = g\<lparr> gd_hash := digest_of C raw, gd_path := path \<rparr> in
          if validate_gameday g \<noteq> [] then Inl (InvalidGameDay path (validate_gameday g))
          else (case load_members cwd load (parallelism g) (gd_max_parallel g) (parent_of path) 0 (gd_members g) Map.empty of
             (ms, ps) \<Rightarrow> if ps = [] then Inr (g\<lparr> gd_members := ms \<rparr>) else Inl (InvalidMembers path ps))))"

subsection \<open>What a loaded game-day is\<close>

text \<open>Resolving the paths keeps every member's name and dependencies, so the shape of the game-day.\<close>

lemma dep_rel_map: "dep_rel (map (\<lambda>m. m\<lparr> gm_config := f m \<rparr>) ms) = dep_rel ms"
proof -
  have "dep_rel ms = (\<Union>m \<in> set ms. (\<lambda>d. (d, gm_name m)) ` set (gm_depends_on m))" for ms
    by (auto simp: dep_rel_def)
  then show ?thesis by simp
qed

lemma well_shaped_map: "well_shaped (map (\<lambda>m. m\<lparr> gm_config := f m \<rparr>) ms) = well_shaped ms"
  by (simp add: well_shaped_def comp_def image_image)

lemma resolve_nonempty: "p \<noteq> [] \<Longrightarrow> resolve_against base p \<noteq> []"
  by (simp add: resolve_against_def clean_path_nonempty)

text \<open>The log a loaded member writes.\<close>

definition member_log :: "bytes option \<Rightarrow> (bytes \<Rightarrow> load_error + drill_config) \<Rightarrow> gd_member \<Rightarrow> bytes" where
  "member_log cwd load m = (case load (gm_config m) of Inl e \<Rightarrow> [] | Inr cfg \<Rightarrow> evidence_log_key cwd (ec_path (dc_evidence cfg)))"

lemma load_members_map:
  "fst (load_members cwd load slots declared base i ms owner) = map (\<lambda>m. m\<lparr> gm_config := resolve_against base (gm_config m) \<rparr>) ms"
proof (induction ms arbitrary: i owner)
  case (Cons m ms)
  then show ?case
    by (cases "load (resolve_against base (gm_config m))")
      (simp_all add: Let_def case_prod_unfold split: option.split)
qed simp

lemma load_members_Nil:
  assumes "load_members cwd load slots declared base i ms owner = (ms', [])"
  shows "(\<forall>m \<in> set ms'. \<exists>cfg. load (gm_config m) = Inr cfg) \<and>
    (slots > 1 \<longrightarrow> distinct (map (member_log cwd load) ms') \<and> member_log cwd load ` set ms' \<inter> dom owner = {})"
  using assms
proof (induction ms arbitrary: i owner ms')
  case (Cons m ms)
  let ?m = "m\<lparr> gm_config := resolve_against base (gm_config m) \<rparr>"
  from Cons.prems obtain cfg where cfg: "load (gm_config ?m) = Inr cfg"
    by (auto simp: Let_def split: prod.splits sum.splits)
  let ?key = "evidence_log_key cwd (ec_path (dc_evidence cfg))"
  have key: "member_log cwd load ?m = ?key" using cfg by (simp add: member_log_def)
  show ?case
  proof (cases "slots \<le> 1")
    case True
    with Cons.prems cfg obtain rest where "ms' = ?m # rest" "load_members cwd load slots declared base (Suc i) ms owner = (rest, [])"
      by (auto simp: Let_def split: prod.splits)
    with Cons.IH cfg True show ?thesis by auto
  next
    case False
    with Cons.prems cfg obtain rest where rest: "owner ?key = None" "ms' = ?m # rest"
      "load_members cwd load slots declared base (Suc i) ms (owner(?key \<mapsto> gm_name m)) = (rest, [])"
      by (auto simp: Let_def split: prod.splits option.splits)
    from Cons.IH [OF rest(3)] False
    have "\<forall>m \<in> set rest. \<exists>cfg. load (gm_config m) = Inr cfg" "distinct (map (member_log cwd load) rest)"
      "?key \<notin> member_log cwd load ` set rest" "member_log cwd load ` set rest \<inter> dom owner = {}" by auto
    with rest(1,2) cfg key show ?thesis by (auto simp: domIff)
  qed
qed simp

text \<open>
  A game-day that loads is well formed (its shape is what validation demands, and its graph has no cycle), every one of its
  members has a drill that loads, and members that may run at once write different evidence logs.
\<close>

theorem loaded_gameday_runs:
  assumes "load_gameday C yaml read cwd load path = Inr g"
  shows "gameday_ok g \<and> (\<forall>m \<in> set (gd_members g). \<exists>cfg. load (gm_config m) = Inr cfg) \<and>
    (parallelism g > 1 \<longrightarrow> distinct (map (member_log cwd load) (gd_members g)))"
proof -
  obtain g0 ms where g0: "gameday_ok g0" "g = g0\<lparr> gd_members := ms \<rparr>"
    "load_members cwd load (parallelism g0) (gd_max_parallel g0) (parent_of path) 0 (gd_members g0) Map.empty = (ms, [])"
    using assms by (auto simp: load_gameday_def Let_def validate_gameday_Nil split: sum.splits yaml_answer.splits prod.splits if_splits)
  have ms: "ms = map (\<lambda>m. m\<lparr> gm_config := resolve_against (parent_of path) (gm_config m) \<rparr>) (gd_members g0)"
    using load_members_map [of cwd load "parallelism g0" "gd_max_parallel g0" "parent_of path" 0 "gd_members g0" Map.empty] g0(3) by simp
  have "gameday_ok g"
    using g0(1) by (auto simp: g0(2) ms gameday_ok_def well_shaped_map dep_rel_map resolve_nonempty)
  moreover have "parallelism g = parallelism g0" by (simp add: g0(2) parallelism_def)
  ultimately show ?thesis using load_members_Nil [OF g0(3)] g0(2) by simp
qed

end
